(* ===== verification/Prelude.thy ===== *)
theory Prelude
  imports Complex_Main "HOL-Library.Multiset" "HOL-Library.Signed_Division"
begin

text \<open>
  Shared material of the development.

  \<^item> \<open>'e + 'a\<close> is the outcome of a TypeScript call: \<open>Inl e\<close> is a thrown error, \<open>Inr x\<close> a
    returned value. \<open>rbind\<close> sequences two calls (the second one does not run when the first
    throws), \<open>check\<close> is \<open>if (c) throw e\<close>, \<open>rmap\<close> is \<open>xs.map(f)\<close> with a callback that may throw
    and \<open>rfold\<close> is a \<open>for ... of\<close> loop over a list that carries a state.
  \<^item> \<open>jmap\<close> is a JavaScript \<open>Map\<close>: an association list in insertion order. \<open>jm_set\<close> overwrites in
    place and appends a new key, \<open>jm_del\<close> removes it. The locale \<open>dictionary\<close> states what a client
    may rely on; it is interpreted on these operations.
  \<^item> \<open>js_sort\<close> is \<open>Array.prototype.sort\<close> with a comparator: the stable sort.
  \<^item> \<open>show_nat\<close> and \<open>digits_val\<close> are \<open>toString\<close> and \<open>BigInt\<close> on decimal digits.
  \<^item> The locale \<open>guarded_system\<close> is the shared contract of the stateful components: a start
    state, a step per operation and an invariant that every step keeps.

  Strings are HOL's \<open>string\<close>: a string of the model is a JavaScript string whose code units are
  below 256, on which the order of characters is the order of code units.
\<close>

named_theorems outcome_simps \<open>inversion of the outcome combinators\<close>
named_theorems jm_simps \<open>rewriting with the operations of a JavaScript map\<close>

subsection \<open>Outcomes\<close>

definition rbind :: "'e + 'a \<Rightarrow> ('a \<Rightarrow> 'e + 'b) \<Rightarrow> 'e + 'b" where
  "rbind m f = (case m of Inl e \<Rightarrow> Inl e | Inr x \<Rightarrow> f x)"

definition check :: "bool \<Rightarrow> 'e \<Rightarrow> 'e + unit" where
  "check bad e = (if bad then Inl e else Inr ())"

definition map_error :: "('e \<Rightarrow> 'f) \<Rightarrow> 'e + 'a \<Rightarrow> 'f + 'a" where
  "map_error g m = (case m of Inl e \<Rightarrow> Inl (g e) | Inr x \<Rightarrow> Inr x)"

definition from_option :: "'e \<Rightarrow> 'a option \<Rightarrow> 'e + 'a" where
  "from_option e x = (case x of None \<Rightarrow> Inl e | Some v \<Rightarrow> Inr v)"

fun rmap :: "('a \<Rightarrow> 'e + 'b) \<Rightarrow> 'a list \<Rightarrow> 'e + 'b list" where
  "rmap f [] = Inr []"
| "rmap f (x # xs) = rbind (f x) (\<lambda>y. rbind (rmap f xs) (\<lambda>ys. Inr (y # ys)))"

fun rfold :: "('s \<Rightarrow> 'a \<Rightarrow> 'e + 's) \<Rightarrow> 's \<Rightarrow> 'a list \<Rightarrow> 'e + 's" where
  "rfold f s [] = Inr s"
| "rfold f s (x # xs) = rbind (f s x) (\<lambda>t. rfold f t xs)"

lemma rbind_simps [simp]: "rbind (Inl e) f = Inl e" "rbind (Inr x) f = f x"
  by (simp_all add: rbind_def)

lemma check_simps [simp]: "check True e = Inl e" "check False e = Inr ()"
  by (simp_all add: check_def)

lemma from_option_simps [simp]: "from_option e None = Inl e" "from_option e (Some v) = Inr v"
  by (simp_all add: from_option_def)

lemma map_error_simps [simp]: "map_error g (Inl e) = Inl (g e)" "map_error g (Inr x) = Inr x"
  by (simp_all add: map_error_def)

lemma rbind_Inr_iff [outcome_simps]:
  "rbind m f = Inr y \<longleftrightarrow> (\<exists>x. m = Inr x \<and> f x = Inr y)"
  by (cases m) auto

lemma check_Inr_iff [outcome_simps]: "check bad e = Inr u \<longleftrightarrow> \<not> bad"
  by (simp add: check_def)

lemma from_option_Inr_iff [outcome_simps]: "from_option e x = Inr v \<longleftrightarrow> x = Some v"
  by (cases x) auto

lemma map_error_Inr_iff [outcome_simps]: "map_error g m = Inr x \<longleftrightarrow> m = Inr x"
  by (cases m) auto

lemma if_Inl_Inr_iff [outcome_simps]: "(if c then Inl e else m) = Inr x \<longleftrightarrow> \<not> c \<and> m = Inr x"
  by simp

lemma rmap_Inr_iff: "rmap f xs = Inr ys \<longleftrightarrow> list_all2 (\<lambda>x y. f x = Inr y) xs ys"
proof (induction xs arbitrary: ys)
  case Nil
  show ?case by (cases ys) auto
next
  case (Cons x xs)
  then show ?case by (cases ys) (auto simp: rbind_Inr_iff)
qed

lemma rmap_Inr_length: "rmap f xs = Inr ys \<Longrightarrow> length ys = length xs"
  by (auto simp: rmap_Inr_iff dest: list_all2_lengthD)

lemma rmap_Inr_nth: "rmap f xs = Inr ys \<Longrightarrow> i < length xs \<Longrightarrow> f (xs ! i) = Inr (ys ! i)"
  by (auto simp: rmap_Inr_iff list_all2_conv_all_nth)

lemma rmap_Inr_in_set: "rmap f xs = Inr ys \<Longrightarrow> y \<in> set ys \<Longrightarrow> \<exists>x\<in>set xs. f x = Inr y"
  unfolding rmap_Inr_iff by (induction rule: list_all2_induct) auto

lemma rmap_cong_Inr: "(\<And>x. x \<in> set xs \<Longrightarrow> f x = Inr (g x)) \<Longrightarrow> rmap f xs = Inr (map g xs)"
  by (induction xs) auto

lemma rfold_append: "rfold f s (xs @ ys) = rbind (rfold f s xs) (\<lambda>t. rfold f t ys)"
proof (induction xs arbitrary: s)
  case (Cons x xs)
  then show ?case by (cases "f s x") auto
qed simp

lemma rfold_invariant:
  assumes "rfold f s xs = Inr t" and "P s"
    and "\<And>s x s'. x \<in> set xs \<Longrightarrow> P s \<Longrightarrow> f s x = Inr s' \<Longrightarrow> P s'"
  shows "P t"
  using assms
proof (induction xs arbitrary: s)
  case (Cons x xs)
  then obtain s' where "f s x = Inr s'" "rfold f s' xs = Inr t"
    by (auto simp: rbind_Inr_iff)
  with Cons show ?case by (metis list.set_intros)
qed simp

subsection \<open>JavaScript maps\<close>

type_synonym ('k, 'v) jmap = "('k \<times> 'v) list"

definition jm_get :: "('k, 'v) jmap \<Rightarrow> 'k \<Rightarrow> 'v option" where
  "jm_get m k = map_of m k"

definition jm_has :: "('k, 'v) jmap \<Rightarrow> 'k \<Rightarrow> bool" where
  "jm_has m k = (jm_get m k \<noteq> None)"

fun jm_set :: "'k \<Rightarrow> 'v \<Rightarrow> ('k, 'v) jmap \<Rightarrow> ('k, 'v) jmap" where
  "jm_set k v [] = [(k, v)]"
| "jm_set k v ((k', v') # m) = (if k' = k then (k, v) # m else (k', v') # jm_set k v m)"

definition jm_del :: "'k \<Rightarrow> ('k, 'v) jmap \<Rightarrow> ('k, 'v) jmap" where
  "jm_del k m = filter (\<lambda>(k', v). k' \<noteq> k) m"

definition jm_filter :: "('k \<Rightarrow> 'v \<Rightarrow> bool) \<Rightarrow> ('k, 'v) jmap \<Rightarrow> ('k, 'v) jmap" where
  "jm_filter P m = filter (\<lambda>(k, v). P k v) m"

definition jm_map :: "('k \<Rightarrow> 'v \<Rightarrow> 'v) \<Rightarrow> ('k, 'v) jmap \<Rightarrow> ('k, 'v) jmap" where
  "jm_map f m = map (\<lambda>(k, v). (k, f k v)) m"

definition jm_keys :: "('k, 'v) jmap \<Rightarrow> 'k list" where
  "jm_keys m = map fst m"

definition jm_values :: "('k, 'v) jmap \<Rightarrow> 'v list" where
  "jm_values m = map snd m"

definition jm_ok :: "('k, 'v) jmap \<Rightarrow> bool" where
  "jm_ok m = distinct (map fst m)"

lemma jm_get_Nil [jm_simps, simp]: "jm_get [] k = None"
  by (simp add: jm_get_def)

lemma jm_get_Cons [jm_simps]: "jm_get ((k', v) # m) k = (if k' = k then Some v else jm_get m k)"
  by (simp add: jm_get_def)

lemma jm_get_set [jm_simps]: "jm_get (jm_set k v m) k' = (if k' = k then Some v else jm_get m k')"
  by (induction m) (auto simp: jm_get_def)

lemma keys_jm_set: "set (map fst (jm_set k v m)) = insert k (set (map fst m))"
  by (induction k v m rule: jm_set.induct) auto

lemma jm_ok_set: "jm_ok m \<Longrightarrow> jm_ok (jm_set k v m)"
proof (induction m)
  case (Cons a m)
  then show ?case using keys_jm_set [of k v m] by (cases a) (auto simp: jm_ok_def)
qed (simp add: jm_ok_def)

lemma jm_ok_Nil [simp]: "jm_ok []"
  by (simp add: jm_ok_def)

lemma jm_get_del [jm_simps]: "jm_get (jm_del k m) k' = (if k' = k then None else jm_get m k')"
  by (induction m) (auto simp: jm_get_def jm_del_def)

lemma jm_ok_filter: "jm_ok m \<Longrightarrow> jm_ok (jm_filter P m)"
  by (auto simp: jm_ok_def jm_filter_def distinct_map_filter)

lemma jm_del_filter: "jm_del k m = jm_filter (\<lambda>k' v. k' \<noteq> k) m"
  by (simp add: jm_del_def jm_filter_def)

lemma jm_ok_del: "jm_ok m \<Longrightarrow> jm_ok (jm_del k m)"
  by (simp add: jm_del_filter jm_ok_filter)

lemma jm_get_map [jm_simps]: "jm_get (jm_map f m) k = map_option (f k) (jm_get m k)"
  by (induction m) (auto simp: jm_get_def jm_map_def)

lemma keys_jm_map [simp]: "map fst (jm_map f m) = map fst m"
  by (induction m) (auto simp: jm_map_def)

lemma jm_ok_map [simp]: "jm_ok (jm_map f m) = jm_ok m"
  by (simp add: jm_ok_def)

lemma jm_get_filter [jm_simps]:
  "jm_ok m \<Longrightarrow> jm_get (jm_filter P m) k =
     (case jm_get m k of None \<Rightarrow> None | Some v \<Rightarrow> if P k v then Some v else None)"
proof (induction m)
  case (Cons a m)
  obtain k' v' where a: "a = (k', v')" by (cases a)
  from Cons.prems a have ok: "jm_ok m" and notin: "k' \<notin> fst ` set m"
    by (auto simp: jm_ok_def)
  have "jm_get m k' = None"
    using notin by (auto simp: jm_get_def map_of_eq_None_iff)
  with Cons.IH [OF ok] a show ?case
    by (auto simp: jm_get_def jm_filter_def split: option.splits)
qed (simp add: jm_filter_def)

lemma jm_get_in_set: "jm_ok m \<Longrightarrow> jm_get m k = Some v \<longleftrightarrow> (k, v) \<in> set m"
  by (simp add: jm_get_def jm_ok_def)

lemma jm_get_None_iff: "jm_get m k = None \<longleftrightarrow> k \<notin> fst ` set m"
  by (simp add: jm_get_def map_of_eq_None_iff)

lemma jm_values_iff: "jm_ok m \<Longrightarrow> v \<in> set (jm_values m) \<longleftrightarrow> (\<exists>k. jm_get m k = Some v)"
  by (force simp: jm_values_def jm_get_in_set)

lemma length_jm_set: "length (jm_set k v m) = (if jm_has m k then length m else Suc (length m))"
  by (induction m) (auto simp: jm_has_def jm_get_def)

lemma length_jm_filter: "length (jm_filter P m) \<le> length m"
  by (simp add: jm_filter_def)

lemma set_jm_set: "set (jm_set k v m) \<subseteq> insert (k, v) (set m)"
  by (induction k v m rule: jm_set.induct) auto

lemmas jm_ok_intros = jm_ok_Nil jm_ok_set jm_ok_del jm_ok_filter

subsection \<open>The dictionary interface\<close>

text \<open>
  What the components rely on when they keep records in a \<open>Map\<close>. The client lemmas are the
  frame facts of an update: a pointwise property of the entries survives a write of an entry that
  has it, a write leaves the other keys alone, and a second write to a key hides the first.
\<close>

locale dictionary =
  fixes empty :: 'm
    and get :: "'m \<Rightarrow> 'k \<Rightarrow> 'v option"
    and put :: "'k \<Rightarrow> 'v \<Rightarrow> 'm \<Rightarrow> 'm"
    and del :: "'k \<Rightarrow> 'm \<Rightarrow> 'm"
  assumes get_empty: "get empty k = None"
    and get_put: "get (put k v m) k' = (if k' = k then Some v else get m k')"
    and get_del: "get (del k m) k' = (if k' = k then None else get m k')"
begin

lemma all_put:
  assumes "\<And>k' v'. get m k' = Some v' \<Longrightarrow> P k' v'" and "P k v"
  shows "get (put k v m) k' = Some v' \<Longrightarrow> P k' v'"
  using assms by (auto simp: get_put split: if_splits)

lemma all_del:
  assumes "\<And>k' v'. get m k' = Some v' \<Longrightarrow> P k' v'"
  shows "get (del k m) k' = Some v' \<Longrightarrow> P k' v'"
  using assms by (auto simp: get_del split: if_splits)

lemma put_put: "get (put k w (put k v m)) = get (put k w m)"
  by (auto simp: get_put)

lemma del_put: "get m k = None \<Longrightarrow> get (del k (put k v m)) = get m"
  by (auto simp: get_put get_del)

end

interpretation jm: dictionary "[]" jm_get jm_set jm_del
  by unfold_locales (simp_all add: jm_simps)

subsection \<open>JavaScript sets\<close>

text \<open>\<open>new Set(xs)\<close> as the list of its members in insertion order.\<close>

definition js_set :: "'a list \<Rightarrow> 'a list" where
  "js_set xs = rev (remdups (rev xs))"

lemma set_js_set [simp]: "set (js_set xs) = set xs"
  by (simp add: js_set_def)

lemma distinct_js_set [simp]: "distinct (js_set xs)"
  by (simp add: js_set_def)

lemma length_js_set: "length (js_set xs) = card (set xs)"
  by (simp add: js_set_def length_remdups_card_conv)

lemma length_js_set_eq_iff: "length (js_set xs) = length xs \<longleftrightarrow> distinct xs"
  by (metis card_distinct distinct_card length_js_set)

subsection \<open>Stable sorting with a comparator\<close>

fun js_insert :: "('a \<Rightarrow> 'a \<Rightarrow> bool) \<Rightarrow> 'a \<Rightarrow> 'a list \<Rightarrow> 'a list" where
  "js_insert le x [] = [x]"
| "js_insert le x (y # ys) = (if le x y then x # y # ys else y # js_insert le x ys)"

definition js_sort :: "('a \<Rightarrow> 'a \<Rightarrow> bool) \<Rightarrow> 'a list \<Rightarrow> 'a list" where
  "js_sort le xs = foldr (js_insert le) xs []"

lemma mset_js_insert [simp]: "mset (js_insert le x xs) = add_mset x (mset xs)"
  by (induction xs) auto

lemma mset_js_sort [simp]: "mset (js_sort le xs) = mset xs"
  by (induction xs) (auto simp: js_sort_def)

lemma set_js_sort [simp]: "set (js_sort le xs) = set xs"
  by (metis mset_js_sort set_mset_mset)

lemma length_js_sort [simp]: "length (js_sort le xs) = length xs"
  by (metis mset_js_sort size_mset)

lemma set_js_insert [simp]: "set (js_insert le x xs) = insert x (set xs)"
  by (metis mset_js_insert set_mset_add_mset_insert set_mset_mset)

lemma distinct_js_sort [simp]: "distinct (js_sort le xs) = distinct xs"
  by (metis mset_js_sort mset_eq_imp_distinct_iff)

lemma distinct_map_js_sort [simp]: "distinct (map f (js_sort le xs)) = distinct (map f xs)"
proof -
  have "mset (map f (js_sort le xs)) = mset (map f xs)" by (simp only: mset_map mset_js_sort)
  then show ?thesis by (rule mset_eq_imp_distinct_iff)
qed

lemma sorted_wrt_js_insert:
  assumes "sorted_wrt le xs" and "\<And>a b. \<not> le a b \<Longrightarrow> le b a"
    and "\<And>a b c. le a b \<Longrightarrow> le b c \<Longrightarrow> le a c"
  shows "sorted_wrt le (js_insert le x xs)"
  using assms(1)
proof (induction xs)
  case (Cons y ys)
  show ?case
  proof (cases "le x y")
    case True
    with Cons.prems assms(3) show ?thesis by auto
  next
    case False
    with Cons assms(2) show ?thesis by auto
  qed
qed simp

lemma sorted_wrt_js_sort:
  assumes "\<And>a b. \<not> le a b \<Longrightarrow> le b a" and "\<And>a b c. le a b \<Longrightarrow> le b c \<Longrightarrow> le a c"
  shows "sorted_wrt le (js_sort le xs)"
proof (induction xs)
  case (Cons x xs)
  then show ?case
    using sorted_wrt_js_insert [OF _ assms] by (auto simp: js_sort_def)
qed (simp add: js_sort_def)

text \<open>The order of strings by code units, which \<open>sort()\<close> without a comparator uses.\<close>

fun str_le :: "string \<Rightarrow> string \<Rightarrow> bool" where
  "str_le [] t = True"
| "str_le (c # s) [] = False"
| "str_le (c # s) (d # t) =
     (if c = d then str_le s t else (of_char c :: nat) < of_char d)"

lemma str_le_total: "\<not> str_le s t \<Longrightarrow> str_le t s"
  by (induction s t rule: str_le.induct) (auto split: if_splits simp: not_less le_less)

lemma str_le_trans: "str_le s t \<Longrightarrow> str_le t u \<Longrightarrow> str_le s u"
proof (induction s t arbitrary: u rule: str_le.induct)
  case (3 c s d t)
  then show ?case by (cases u) (auto split: if_splits)
qed auto

lemma str_le_antisym: "str_le s t \<Longrightarrow> str_le t s \<Longrightarrow> s = t"
proof (induction s t rule: str_le.induct)
  case (1 t)
  then show ?case by (cases t) auto
qed (auto split: if_splits)

lemma sorted_wrt_str_sort: "sorted_wrt str_le (js_sort str_le xs)"
  by (rule sorted_wrt_js_sort) (auto intro: str_le_total str_le_trans)

subsection \<open>Decimal digits\<close>

definition digit_chars :: string where
  "digit_chars = ''0123456789''"

definition digit_char :: "nat \<Rightarrow> char" where
  "digit_char d = digit_chars ! d"

fun show_nat :: "nat \<Rightarrow> string" where
  "show_nat n = (if n < 10 then [digit_char n] else show_nat (n div 10) @ [digit_char (n mod 10)])"

declare show_nat.simps [simp del]

definition is_digit :: "char \<Rightarrow> bool" where
  "is_digit c = (c \<in> set digit_chars)"

definition digit_val :: "char \<Rightarrow> nat" where
  "digit_val c = of_char c - of_char (CHR ''0'')"

definition digits_val :: "string \<Rightarrow> nat" where
  "digits_val s = foldl (\<lambda>n c. 10 * n + digit_val c) 0 s"

lemma nat_less_10_cases:
  fixes d :: nat
  assumes "d < 10"
  shows "d \<in> {0, 1, 2, 3, 4, 5, 6, 7, 8, 9}"
  using assms by auto

lemma digit_val_char [simp]: "d < 10 \<Longrightarrow> digit_val (digit_char d) = d"
  by (drule nat_less_10_cases) (auto simp: digit_val_def digit_char_def digit_chars_def)

lemma is_digit_char [simp]: "d < 10 \<Longrightarrow> is_digit (digit_char d)"
  by (drule nat_less_10_cases) (auto simp: is_digit_def digit_char_def digit_chars_def)

lemma is_digit_cases: "is_digit c \<Longrightarrow> c \<in> set ''0123456789''"
  by (simp add: is_digit_def digit_chars_def)

lemma digit_char_val [simp]: "is_digit c \<Longrightarrow> digit_char (digit_val c) = c"
  by (drule is_digit_cases) (auto simp: digit_val_def digit_char_def digit_chars_def)

lemma digit_val_less [simp]: "is_digit c \<Longrightarrow> digit_val c < 10"
  by (drule is_digit_cases) (auto simp: digit_val_def)

lemma digit_val_0_iff: "is_digit c \<Longrightarrow> digit_val c = 0 \<longleftrightarrow> c = CHR ''0''"
  by (drule is_digit_cases) (auto simp: digit_val_def)

lemma not_digit [simp]: "\<not> is_digit CHR ''.''" "\<not> is_digit CHR ''-''"
  by (simp_all add: is_digit_def digit_chars_def)

lemma digit_char_0 [simp]: "digit_char 0 = CHR ''0''"
  by (simp add: digit_char_def digit_chars_def)

lemma is_digit_0 [simp]: "is_digit CHR ''0''"
  by (simp add: is_digit_def digit_chars_def)

lemma digit_val_zero [simp]: "digit_val CHR ''0'' = 0"
  by (simp add: digit_val_def)

lemma digits_val_Nil [simp]: "digits_val [] = 0"
  by (simp add: digits_val_def)

lemma digits_val_snoc [simp]: "digits_val (s @ [c]) = 10 * digits_val s + digit_val c"
  by (simp add: digits_val_def)

lemma digits_val_append: "digits_val (s @ t) = digits_val s * 10 ^ length t + digits_val t"
proof (induction t rule: rev_induct)
  case (snoc c t)
  then show ?case
    using digits_val_snoc [of "s @ t" c] by simp
qed simp

lemma digits_val_Cons: "digits_val (c # s) = digit_val c * 10 ^ length s + digits_val s"
  using digits_val_append [of "[c]" s] by (simp add: digits_val_def)

lemma digits_val_zeros [simp]: "digits_val (replicate n CHR ''0'') = 0"
  by (induction n) (simp_all add: digits_val_Cons)

lemma digits_val_less: "list_all is_digit s \<Longrightarrow> digits_val s < 10 ^ length s"
proof (induction s rule: rev_induct)
  case (snoc c s)
  then have "digits_val s + 1 \<le> 10 ^ length s" and "digit_val c < 10"
    by auto
  then show ?case by simp
qed simp

lemma digits_val_show_nat [simp]: "digits_val (show_nat n) = n"
proof (induction n rule: show_nat.induct)
  case (1 n)
  then show ?case by (subst show_nat.simps) (auto simp: digits_val_def)
qed

lemma show_nat_digits [simp]: "list_all is_digit (show_nat n)"
proof (induction n rule: show_nat.induct)
  case (1 n)
  then show ?case by (subst show_nat.simps) auto
qed

lemma show_nat_not_Nil [simp]: "show_nat n \<noteq> []"
  by (subst show_nat.simps) simp

lemma show_nat_0 [simp]: "show_nat 0 = ''0''"
  by (subst show_nat.simps) simp

lemma show_nat_snoc: "0 < n \<Longrightarrow> d < 10 \<Longrightarrow> show_nat (10 * n + d) = show_nat n @ [digit_char d]"
  by (subst show_nat.simps) simp

lemma hd_show_nat: "0 < n \<Longrightarrow> hd (show_nat n) \<noteq> CHR ''0''"
proof (induction n rule: show_nat.induct)
  case (1 n)
  show ?case
  proof (cases "n < 10")
    case True
    with 1(2) have "digit_val (digit_char n) \<noteq> 0" by simp
    then have "digit_char n \<noteq> CHR ''0''" by (metis digit_val_zero)
    with True show ?thesis by (subst show_nat.simps) simp
  next
    case False
    with 1 show ?thesis by (subst show_nat.simps) simp
  qed
qed

text \<open>A digit string without a leading zero is the text of its own value.\<close>

lemma show_nat_digits_val:
  assumes "list_all is_digit s" and "s \<noteq> []" and "hd s \<noteq> CHR ''0''"
  shows "show_nat (digits_val s) = s \<and> 0 < digits_val s"
  using assms
proof (induction s rule: rev_induct)
  case (snoc c s)
  show ?case
  proof (cases "s = []")
    case True
    with snoc.prems have "is_digit c" "c \<noteq> CHR ''0''" by auto
    then have "0 < digit_val c" "digit_val c < 10"
      using digit_val_0_iff [of c] by simp_all
    with True \<open>is_digit c\<close> show ?thesis
      by (simp add: digits_val_Cons show_nat.simps [of "digit_val c"])
  next
    case False
    with snoc have "show_nat (digits_val s) = s" "0 < digits_val s" "is_digit c"
      by auto
    then show ?thesis by (simp add: show_nat_snoc)
  qed
qed simp

lemma length_show_nat_le: "0 < k \<Longrightarrow> length (show_nat n) \<le> k \<longleftrightarrow> n < 10 ^ k"
proof (induction n arbitrary: k rule: show_nat.induct)
  case (1 n)
  show ?case
  proof (cases "n < 10")
    case True
    have "(10::nat) ^ 1 \<le> 10 ^ k"
      using 1(2) by (intro power_increasing) auto
    with True 1(2) show ?thesis
      by (subst show_nat.simps) auto
  next
    case False
    show ?thesis
    proof (cases "k = 1")
      case True
      with False show ?thesis by (subst show_nat.simps) auto
    next
      case k: False
      with 1(2) obtain j where j: "k = Suc j" "0 < j" by (cases k) auto
      have "length (show_nat n) \<le> k \<longleftrightarrow> length (show_nat (n div 10)) \<le> j"
        using False j by (subst show_nat.simps) simp
      also have "\<dots> \<longleftrightarrow> n div 10 < 10 ^ j"
        using 1(1) [OF False \<open>0 < j\<close>] .
      also have "\<dots> \<longleftrightarrow> n < 10 ^ k"
        using j by (simp add: div_less_iff_less_mult mult.commute)
      finally show ?thesis .
    qed
  qed
qed

text \<open>The same functions over \<open>int\<close>, by which the definitions are evaluated on large numbers.\<close>

function bigint_text :: "int \<Rightarrow> string" where
  "bigint_text n = (if n < 10 then [digit_char (nat n)] else bigint_text (n div 10) @ [digit_char (nat (n mod 10))])"
  by auto
termination by (relation "measure nat") auto

declare bigint_text.simps [simp del]

lemma show_nat_bigint [code_unfold]: "show_nat (nat n) = bigint_text n"
proof (induction n rule: bigint_text.induct)
  case (1 n)
  show ?case
  proof (cases "n < 10")
    case True
    then show ?thesis by (simp add: show_nat.simps [of "nat n"] bigint_text.simps [of n])
  next
    case False
    then have "nat n div 10 = nat (n div 10)" "nat n mod 10 = nat (n mod 10)" "\<not> nat n < 10"
      by (simp_all add: nat_div_distrib nat_mod_distrib)
    with False 1 show ?thesis by (simp add: show_nat.simps [of "nat n"] bigint_text.simps [of n])
  qed
qed

definition bigint_val :: "string \<Rightarrow> int" where
  "bigint_val s = foldl (\<lambda>n c. 10 * n + int (digit_val c)) 0 s"

lemma digits_val_bigint [code_unfold]: "int (digits_val s) = bigint_val s"
  by (induction s rule: rev_induct) (simp_all add: digits_val_def bigint_val_def)

definition show_int :: "int \<Rightarrow> string" where
  "show_int n = (if n < 0 then CHR ''-'' # show_nat (nat (- n)) else show_nat (nat n))"

lemma show_nat_inj: "show_nat m = show_nat n \<longleftrightarrow> m = n"
  by (metis digits_val_show_nat)

lemma show_nat_no_minus: "show_nat n \<noteq> CHR ''-'' # s"
proof
  assume "show_nat n = CHR ''-'' # s"
  then show False using show_nat_digits [of n] by simp
qed

lemma show_int_inj: "show_int m = show_int n \<longleftrightarrow> m = n"
  using show_nat_no_minus by (auto simp: show_int_def show_nat_inj split: if_splits) metis+

lemma show_int_no_colon: "CHR '':'' \<notin> set (show_int n)"
proof -
  have "\<not> is_digit CHR '':''" by (simp add: is_digit_def digit_chars_def)
  then show ?thesis
    using show_nat_digits by (auto simp: show_int_def list_all_iff)
qed

text \<open>A key \<open>`${id}:${version}`\<close> determines the identifier and the version.\<close>

definition versionKey :: "string \<Rightarrow> int \<Rightarrow> string" where
  "versionKey i v = i @ '':'' @ show_int v"

lemma last_sep_unique:
  assumes "c \<notin> set s" and "c \<notin> set t" and "a @ c # s = b @ c # t"
  shows "a = b \<and> s = t"
proof -
  have "takeWhile (\<lambda>x. x \<noteq> c) (rev (a @ c # s)) = rev s"
    "takeWhile (\<lambda>x. x \<noteq> c) (rev (b @ c # t)) = rev t"
    using assms(1,2) by (auto simp: takeWhile_append)
  with assms(3) have "s = t" by simp
  with assms(3) show ?thesis by simp
qed

lemma versionKey_inj: "versionKey i v = versionKey j w \<longleftrightarrow> i = j \<and> v = w"
  using last_sep_unique [of "CHR '':''" "show_int v" "show_int w" i j] show_int_no_colon
  by (auto simp: versionKey_def show_int_inj)

subsection \<open>Splitting and trimming text\<close>

fun split_on :: "char \<Rightarrow> string \<Rightarrow> string list" where
  "split_on sep [] = [[]]"
| "split_on sep (c # s) =
     (if c = sep then [] # split_on sep s
      else case split_on sep s of [] \<Rightarrow> [[c]] | w # ws \<Rightarrow> (c # w) # ws)"

lemma split_on_none: "sep \<notin> set s \<Longrightarrow> split_on sep s = [s]"
  by (induction s) auto

lemma split_on_one:
  "sep \<notin> set s \<Longrightarrow> sep \<notin> set t \<Longrightarrow> split_on sep (s @ sep # t) = [s, t]"
  by (induction s) (auto simp: split_on_none)

definition pad_start :: "nat \<Rightarrow> char \<Rightarrow> string \<Rightarrow> string" where
  "pad_start n c s = replicate (n - length s) c @ s"

definition trim_leading :: "char \<Rightarrow> string \<Rightarrow> string" where
  "trim_leading c s = dropWhile (\<lambda>d. d = c) s"

definition trim_trailing :: "char \<Rightarrow> string \<Rightarrow> string" where
  "trim_trailing c s = rev (dropWhile (\<lambda>d. d = c) (rev s))"

definition join :: "string \<Rightarrow> string list \<Rightarrow> string" where
  "join sep ws = (case ws of [] \<Rightarrow> [] | w # rest \<Rightarrow> w @ concat (map (\<lambda>v. sep @ v) rest))"

definition starts_with :: "string \<Rightarrow> string \<Rightarrow> bool" where
  "starts_with p s = (take (length p) s = p)"

subsection \<open>Finite strict orders\<close>

text \<open>The only maximal element of a finite strict order is above every other element.\<close>

lemma unique_maximal_above:
  assumes fin: "finite S" and irrefl: "\<And>x. \<not> R x x"
    and trans: "\<And>x y z. R x y \<Longrightarrow> R y z \<Longrightarrow> R x z"
    and unique: "\<And>x. x \<in> S \<Longrightarrow> (\<forall>y\<in>S. \<not> R y x) \<Longrightarrow> x = w"
  shows "x \<in> S \<Longrightarrow> x = w \<or> R w x"
proof (induction "card {y \<in> S. R y x}" arbitrary: x rule: less_induct)
  case less
  show ?case
  proof (cases "\<forall>y\<in>S. \<not> R y x")
    case True
    then show ?thesis using unique less.prems by blast
  next
    case False
    then obtain y where y: "y \<in> S" "R y x" by blast
    have "{z \<in> S. R z y} \<subset> {z \<in> S. R z x}" using y trans irrefl by blast
    then have "card {z \<in> S. R z y} < card {z \<in> S. R z x}"
      using fin by (intro psubset_card_mono) auto
    with less.hyps y trans show ?thesis by blast
  qed
qed

subsection \<open>Systems with a guarded invariant\<close>

text \<open>
  A component is a start state and a step per operation. A rejected operation is a step that
  returns the state the code leaves behind. The invariant holds of the start state and every step
  keeps it, so it holds after any sequence of operations, accepted or rejected.
\<close>

fun run :: "('s \<Rightarrow> 'op \<Rightarrow> 's) \<Rightarrow> 's \<Rightarrow> 'op list \<Rightarrow> 's" where
  "run step s [] = s"
| "run step s (x # xs) = run step (step s x) xs"

lemma run_append: "run step s (xs @ ys) = run step (run step s xs) ys"
  by (induction xs arbitrary: s) auto

text \<open>The state after a call that leaves it alone when it throws.\<close>

definition keep :: "'s \<Rightarrow> 'e + 'r \<times> 's \<Rightarrow> 's" where
  "keep s m = (case m of Inl e \<Rightarrow> s | Inr (r, t) \<Rightarrow> t)"

lemma keep_simps [simp]: "keep s (Inl e) = s" "keep s (Inr (r, t)) = t"
  by (simp_all add: keep_def)

lemma keep_cases: "P s \<Longrightarrow> (\<And>r t. m = Inr (r, t) \<Longrightarrow> P t) \<Longrightarrow> P (keep s m)"
  by (cases m) (auto simp: keep_def split: prod.splits)

definition settle :: "'s \<Rightarrow> 'e + 's \<Rightarrow> 's" where
  "settle s m = (case m of Inl e \<Rightarrow> s | Inr t \<Rightarrow> t)"

lemma settle_simps [simp]: "settle s (Inl e) = s" "settle s (Inr t) = t"
  by (simp_all add: settle_def)

lemma settle_cases: "P s \<Longrightarrow> (\<And>t. m = Inr t \<Longrightarrow> P t) \<Longrightarrow> P (settle s m)"
  by (cases m) simp_all

locale guarded_system =
  fixes start :: 's
    and step :: "'s \<Rightarrow> 'op \<Rightarrow> 's"
    and inv :: "'s \<Rightarrow> bool"
  assumes inv_start: "inv start"
    and inv_step: "inv s \<Longrightarrow> inv (step s x)"
begin

lemma inv_run_from: "inv s \<Longrightarrow> inv (run step s xs)"
  by (induction xs arbitrary: s) (auto intro: inv_step)

lemma inv_run: "inv (run step start xs)"
  by (rule inv_run_from [OF inv_start])

text \<open>A property of single steps from good states that is reflexive and transitive holds of runs.\<close>

lemma run_relation:
  assumes "inv s" and "\<And>s. R s s" and "\<And>s t u. R s t \<Longrightarrow> R t u \<Longrightarrow> R s u"
    and "\<And>s x. inv s \<Longrightarrow> R s (step s x)"
  shows "R s (run step s xs)"
  using assms(1)
proof (induction xs arbitrary: s)
  case (Cons x xs)
  then have "R (step s x) (run step (step s x) xs)" by (auto intro: inv_step)
  then show ?case using assms(3) assms(4) [OF Cons.prems] by auto
qed (simp add: assms(2))

end

end
