(* ===== verification/Decimal.thy ===== *)
theory Decimal
  imports Prelude
begin

text \<open>
  The class \<open>ExactDecimal\<close> of \<open>src/decision/decimal.ts\<close>: an integer coefficient (a \<open>bigint\<close>) and a
  scale. \<open>create\<close> is the private constructor every operation goes through; it strips trailing zeros
  and refuses a coefficient of more than 80 digits. \<open>bigint\<close> division and remainder truncate
  towards zero, which is \<open>sdiv\<close> and \<open>smod\<close>. The abstract view of a decimal is the rational number
  \<open>dec_val\<close>; the lemmas show that the operations compute on that view exactly, or with one correct
  rounding to even, and that no two decimals have the same value.
\<close>

datatype decimal_error = DivideByZero | InvalidDecimal | DecimalOverflow

record exact_decimal =
  coefficient :: int
  scale :: nat

datatype integer_arg = BigintArg int | NumberArg "int option" \<comment> \<open>\<open>None\<close>: not an integer\<close>

definition max_safe_integer :: int where
  "max_safe_integer = 9007199254740991"

definition is_safe_integer :: "int option \<Rightarrow> bool" where
  "is_safe_integer n = (case n of None \<Rightarrow> False
     | Some i \<Rightarrow> - max_safe_integer \<le> i \<and> i \<le> max_safe_integer)"

definition power10 :: "nat \<Rightarrow> int" where
  "power10 n = 10 ^ n"

definition roundHalfEven :: "int \<Rightarrow> int \<Rightarrow> int" where
  "roundHalfEven numerator denominator =
     (let denominatorMagnitude = (if denominator < 0 then - denominator else denominator);
          signedNumerator = (if denominator < 0 then - numerator else numerator);
          quotient = signedNumerator sdiv denominatorMagnitude;
          remainder = signedNumerator smod denominatorMagnitude;
          remainderMagnitude = (if remainder < 0 then - remainder else remainder);
          doubled = remainderMagnitude * 2
      in if doubled < denominatorMagnitude then quotient
         else let direction = (if signedNumerator < 0 then - 1 else 1)
              in if doubled > denominatorMagnitude then quotient + direction
                 else if quotient smod 2 = 0 then quotient else quotient + direction)"

text \<open>The loop of \<open>create\<close>: one trailing zero and one unit of scale per round.\<close>

fun strip_zeros :: "int \<Rightarrow> nat \<Rightarrow> int \<times> nat" where
  "strip_zeros c 0 = (c, 0)"
| "strip_zeros c (Suc s) = (if c smod 10 = 0 then strip_zeros (c sdiv 10) s else (c, Suc s))"

definition create :: "int \<Rightarrow> nat \<Rightarrow> decimal_error + exact_decimal" where
  "create c s =
     (let (normalized, normalizedScale) = strip_zeros c s;
          digits = length (show_nat (nat (if normalized < 0 then - normalized else normalized)))
      in if digits > 80 then Inl DecimalOverflow
         else Inr \<lparr>coefficient = normalized, scale = normalizedScale\<rparr>)"

definition decimal_fromInteger :: "integer_arg \<Rightarrow> decimal_error + exact_decimal" where
  "decimal_fromInteger v =
     (case v of
        NumberArg n \<Rightarrow> if is_safe_integer n then create (the n) 0 else Inl InvalidDecimal
      | BigintArg i \<Rightarrow> create i 0)"

definition decimal_add :: "exact_decimal \<Rightarrow> exact_decimal \<Rightarrow> decimal_error + exact_decimal" where
  "decimal_add a b =
     (let sc = max (scale a) (scale b)
      in create (coefficient a * power10 (sc - scale a) + coefficient b * power10 (sc - scale b)) sc)"

definition decimal_subtract :: "exact_decimal \<Rightarrow> exact_decimal \<Rightarrow> decimal_error + exact_decimal" where
  "decimal_subtract a b = rbind (create (- coefficient b) (scale b)) (decimal_add a)"

definition decimal_multiply :: "exact_decimal \<Rightarrow> exact_decimal \<Rightarrow> decimal_error + exact_decimal" where
  "decimal_multiply a b = create (coefficient a * coefficient b) (scale a + scale b)"

definition decimal_divide ::
  "exact_decimal \<Rightarrow> exact_decimal \<Rightarrow> int \<Rightarrow> decimal_error + exact_decimal" where
  "decimal_divide a b outputScale =
     (if coefficient b = 0 then Inl DivideByZero
      else if outputScale < 0 \<or> outputScale > 18 then Inl InvalidDecimal
      else let exponent = outputScale + int (scale b) - int (scale a);
               numerator = (if exponent \<ge> 0 then coefficient a * power10 (nat exponent)
                            else coefficient a);
               denominator = (if exponent \<ge> 0 then coefficient b
                              else coefficient b * power10 (nat (- exponent)))
           in create (roundHalfEven numerator denominator) (nat outputScale))"

definition decimal_round :: "exact_decimal \<Rightarrow> int \<Rightarrow> decimal_error + exact_decimal" where
  "decimal_round a outputScale =
     (if outputScale < 0 \<or> outputScale > 18 then Inl InvalidDecimal
      else if outputScale \<ge> int (scale a) then Inr a
      else create (roundHalfEven (coefficient a) (power10 (scale a - nat outputScale)))
             (nat outputScale))"

definition decimal_compare :: "exact_decimal \<Rightarrow> exact_decimal \<Rightarrow> decimal_error + int" where
  "decimal_compare a b =
     rbind (decimal_subtract a b) (\<lambda>d. Inr
       (if coefficient d < 0 then - 1 else if coefficient d > 0 then 1 else 0))"

subsection \<open>The rational view and the canonical form\<close>

definition dec_val :: "exact_decimal \<Rightarrow> rat" where
  "dec_val d = of_int (coefficient d) / 10 ^ scale d"

definition dec_ok :: "exact_decimal \<Rightarrow> bool" where
  "dec_ok d = ((scale d = 0 \<or> \<not> 10 dvd coefficient d) \<and> \<bar>coefficient d\<bar> < 10 ^ 80)"

text \<open>Decimals in the range that \<open>parse\<close> accepts.\<close>

definition dec_small :: "exact_decimal \<Rightarrow> bool" where
  "dec_small d = (dec_ok d \<and> \<bar>coefficient d\<bar> < 10 ^ 38 \<and> scale d \<le> 18)"

lemma smod_0_iff_dvd: "(c :: int) smod 10 = 0 \<longleftrightarrow> 10 dvd c"
proof -
  have "c smod 10 = sgn c * (\<bar>c\<bar> mod 10)"
    by (simp add: signed_modulo_int_def)
  then show ?thesis
    by (auto simp: dvd_eq_mod_eq_0 [symmetric] sgn_if)
qed

lemma sdiv_10_exact: "10 dvd (c :: int) \<Longrightarrow> 10 * (c sdiv 10) = c"
  by (auto simp: signed_divide_int_def dvd_def abs_mult sgn_if abs_if)

lemma strip_zeros_spec:
  assumes "strip_zeros c s = (n, k)"
  shows "(of_int n :: rat) / 10 ^ k = of_int c / 10 ^ s \<and> (k = 0 \<or> \<not> 10 dvd n) \<and> k \<le> s \<and> \<bar>n\<bar> \<le> \<bar>c\<bar>"
  using assms
proof (induction c s arbitrary: n k rule: strip_zeros.induct)
  case (2 c s)
  show ?case
  proof (cases "10 dvd c")
    case True
    let ?q = "c sdiv 10"
    have c: "c = 10 * ?q" using sdiv_10_exact [OF True] by simp
    have IH: "(of_int n :: rat) / 10 ^ k = of_int ?q / 10 ^ s \<and> (k = 0 \<or> \<not> 10 dvd n) \<and> k \<le> s
        \<and> \<bar>n\<bar> \<le> \<bar>?q\<bar>"
      using 2 True by (simp add: smod_0_iff_dvd)
    have "(of_int c :: rat) / 10 ^ Suc s = of_int ?q / 10 ^ s"
      by (subst c) simp
    moreover have "\<bar>?q\<bar> \<le> \<bar>c\<bar>"
      using c by linarith
    ultimately show ?thesis using IH by auto
  next
    case False
    with 2 show ?thesis by (auto simp: smod_0_iff_dvd)
  qed
qed simp

lemma show_digits_le_80: "\<not> 80 < length (show_nat (nat \<bar>n\<bar>)) \<longleftrightarrow> \<bar>n\<bar> < (10 :: int) ^ 80"
proof -
  have "\<not> 80 < length (show_nat (nat \<bar>n\<bar>)) \<longleftrightarrow> nat \<bar>n\<bar> < 10 ^ 80"
    using length_show_nat_le [of 80 "nat \<bar>n\<bar>"] by linarith
  also have "\<dots> \<longleftrightarrow> \<bar>n\<bar> < 10 ^ 80"
    by (metis abs_ge_zero nat_less_iff of_nat_numeral of_nat_power)
  finally show ?thesis .
qed

lemma abs_if_neg: "(if n < 0 then - n else n) = \<bar>n :: int\<bar>"
  by simp

lemma create_spec:
  "create c s = Inr d \<Longrightarrow> dec_val d = of_int c / 10 ^ s \<and> dec_ok d \<and> scale d \<le> s"
  using strip_zeros_spec [of c s]
  by (auto simp: create_def abs_if_neg dec_val_def dec_ok_def show_digits_le_80
      split: prod.splits if_splits)

text \<open>\<open>create\<close> succeeds whenever the coefficient it is given already fits.\<close>

lemma create_total: "\<bar>c\<bar> < 10 ^ 80 \<Longrightarrow> \<exists>d. create c s = Inr d"
proof -
  assume c: "\<bar>c\<bar> < 10 ^ 80"
  obtain n k where nk: "strip_zeros c s = (n, k)" by (cases "strip_zeros c s")
  then have "\<bar>n\<bar> < 10 ^ 80" using strip_zeros_spec [of c s] c by fastforce
  with nk show ?thesis
    by (auto simp: create_def abs_if_neg show_digits_le_80 split: prod.splits)
qed

lemma create_error: "create c s = Inl e \<Longrightarrow> e = DecimalOverflow \<and> 10 ^ 80 \<le> \<bar>c\<bar>"
proof -
  assume err: "create c s = Inl e"
  then have "\<not> \<bar>c\<bar> < 10 ^ 80" using create_total [of c s] by (metis Inl_Inr_False)
  moreover have "e = DecimalOverflow"
    using err by (auto simp: create_def split: prod.splits if_splits)
  ultimately show ?thesis by simp
qed

text \<open>Two decimals in canonical form with the same value are the same object.\<close>

lemma canonical_scale_le:
  assumes c: "scale a = 0 \<or> \<not> 10 dvd coefficient a" and eq: "dec_val a = dec_val b"
  shows "scale a \<le> scale b"
proof (rule ccontr)
  assume "\<not> scale a \<le> scale b"
  then obtain j where j: "scale a = scale b + Suc j"
    by (metis add_Suc_right less_imp_Suc_add not_le)
  have "(of_int (coefficient a) :: rat) = of_int (coefficient b) * 10 ^ Suc j"
    using eq by (simp add: dec_val_def j field_simps power_add)
  then have "(of_int (coefficient a) :: rat) = of_int (10 * (coefficient b * 10 ^ j))"
    by simp
  then have "coefficient a = 10 * (coefficient b * 10 ^ j)"
    by (simp only: of_int_eq_iff)
  then have "10 dvd coefficient a" by simp
  with c j show False by simp
qed

lemma dec_val_scale_le: "dec_ok a \<Longrightarrow> dec_val a = dec_val b \<Longrightarrow> scale a \<le> scale b"
  by (rule canonical_scale_le) (simp_all add: dec_ok_def)

text \<open>\<open>create\<close> returns exactly the representable decimal of the given value, if there is one.\<close>

lemma create_iff: "create c s = Inr d \<longleftrightarrow> dec_ok d \<and> dec_val d = of_int c / 10 ^ s"
proof
  assume d: "dec_ok d \<and> dec_val d = of_int c / 10 ^ s"
  obtain n k where nk: "strip_zeros c s = (n, k)" by (cases "strip_zeros c s")
  let ?x = "\<lparr>coefficient = n, scale = k\<rparr>"
  have x: "dec_val ?x = dec_val d" "scale ?x = 0 \<or> \<not> 10 dvd coefficient ?x"
    using strip_zeros_spec [OF nk] d by (simp_all add: dec_val_def)
  then have "scale ?x = scale d"
    using d canonical_scale_le [of ?x d] canonical_scale_le [of d ?x] by (simp add: dec_ok_def)
  moreover from this x(1) have "coefficient ?x = coefficient d" by (simp add: dec_val_def)
  ultimately have "d = ?x" by simp
  moreover have "\<not> 80 < length (show_nat (nat \<bar>n\<bar>))" unfolding show_digits_le_80 using d \<open>d = ?x\<close> by (simp add: dec_ok_def)
  ultimately show "create c s = Inr d" by (simp add: create_def nk abs_if_neg)
qed (use create_spec in blast)

lemma dec_val_inj:
  assumes "dec_ok a" and "dec_ok b" and "dec_val a = dec_val b"
  shows "a = b"
proof -
  have "scale a = scale b"
    using dec_val_scale_le [of a b] dec_val_scale_le [of b a] assms by (simp add: le_antisym)
  with assms(3) have "coefficient a = coefficient b" by (simp add: dec_val_def)
  with \<open>scale a = scale b\<close> show ?thesis by simp
qed

lemma dec_val_eq_0_iff: "dec_val d = 0 \<longleftrightarrow> coefficient d = 0"
  by (simp add: dec_val_def)

lemma sgn_dec_val: "sgn (dec_val d) = of_int (sgn (coefficient d))"
  by (auto simp: dec_val_def sgn_if zero_less_divide_iff)

subsection \<open>Exactness of addition, subtraction and multiplication\<close>

lemma dec_val_align:
  "k \<le> n \<Longrightarrow> (of_int (c * power10 (n - k)) :: rat) / 10 ^ n = of_int c / 10 ^ k"
  by (simp add: power10_def field_simps flip: power_add)

lemma decimal_add_val:
  assumes "decimal_add a b = Inr d"
  shows "dec_val d = dec_val a + dec_val b \<and> dec_ok d"
proof -
  let ?sc = "max (scale a) (scale b)"
  have "dec_val d = of_int (coefficient a * power10 (?sc - scale a)
      + coefficient b * power10 (?sc - scale b)) / 10 ^ ?sc" and "dec_ok d"
    using create_spec assms unfolding decimal_add_def Let_def by blast+
  moreover have "(of_int (coefficient a * power10 (?sc - scale a)
      + coefficient b * power10 (?sc - scale b)) :: rat) / 10 ^ ?sc = dec_val a + dec_val b"
    unfolding of_int_add add_divide_distrib dec_val_def by (simp only: dec_val_align max.cobounded1 max.cobounded2)
  ultimately show ?thesis by simp
qed

lemma decimal_subtract_val:
  assumes "decimal_subtract a b = Inr d"
  shows "dec_val d = dec_val a - dec_val b \<and> dec_ok d"
proof -
  obtain n where n: "create (- coefficient b) (scale b) = Inr n" "decimal_add a n = Inr d"
    using assms by (auto simp: decimal_subtract_def rbind_Inr_iff)
  then have "dec_val n = - dec_val b" using create_spec by (fastforce simp: dec_val_def)
  with decimal_add_val [OF n(2)] show ?thesis by simp
qed

lemma decimal_multiply_val:
  assumes "decimal_multiply a b = Inr d"
  shows "dec_val d = dec_val a * dec_val b \<and> dec_ok d"
  using create_spec [of "coefficient a * coefficient b" "scale a + scale b" d] assms
  by (simp add: decimal_multiply_def dec_val_def power_add)

lemma decimal_fromInteger_val:
  assumes "decimal_fromInteger v = Inr d"
  shows "dec_ok d \<and> scale d = 0 \<and>
    dec_val d = of_int (case v of BigintArg i \<Rightarrow> i | NumberArg n \<Rightarrow> the n)"
  using assms create_spec
  by (fastforce simp: decimal_fromInteger_def split: integer_arg.splits if_splits)

text \<open>An integer of at most 80 digits is represented by itself.\<close>

lemma create_scale_0: "\<bar>c\<bar> < 10 ^ 80 \<Longrightarrow> create c 0 = Inr \<lparr>coefficient = c, scale = 0\<rparr>"
  by (simp add: create_def abs_if_neg show_digits_le_80)

lemma decimal_fromInteger_number:
  "- max_safe_integer \<le> i \<Longrightarrow> i \<le> max_safe_integer \<Longrightarrow>
   decimal_fromInteger (NumberArg (Some i)) = Inr \<lparr>coefficient = i, scale = 0\<rparr>"
  by (simp add: decimal_fromInteger_def is_safe_integer_def create_scale_0 max_safe_integer_def)

subsection \<open>Comparison\<close>

lemma decimal_compare_val:
  assumes "decimal_compare a b = Inr c"
  shows "c = sgn c \<and> (c < 0 \<longleftrightarrow> dec_val a < dec_val b) \<and> (c = 0 \<longleftrightarrow> dec_val a = dec_val b)
    \<and> (c > 0 \<longleftrightarrow> dec_val a > dec_val b)"
proof -
  obtain d where d: "decimal_subtract a b = Inr d" and c: "c = sgn (coefficient d)"
    using assms by (auto simp: decimal_compare_def rbind_Inr_iff sgn_if split: if_splits)
  have "sgn (dec_val a - dec_val b) = (of_int c :: rat)"
    using decimal_subtract_val [OF d] sgn_dec_val [of d] c by simp
  then show ?thesis
    unfolding c by (auto simp: sgn_if split: if_splits)
qed

lemma decimal_compare_same: "decimal_compare a b = Inr c \<Longrightarrow> dec_ok a \<Longrightarrow> dec_ok b \<Longrightarrow> c = 0 \<longleftrightarrow> a = b"
  using decimal_compare_val dec_val_inj by blast

lemma abs_power10_bound:
  "\<bar>c\<bar> < 10 ^ 38 \<Longrightarrow> k \<le> 18 \<Longrightarrow> \<bar>c * power10 k\<bar> < 10 ^ 56"
proof -
  assume c: "\<bar>c\<bar> < 10 ^ 38" and k: "k \<le> 18"
  have "\<bar>c * power10 k\<bar> = \<bar>c\<bar> * 10 ^ k" by (simp add: power10_def abs_mult)
  also have "\<dots> < 10 ^ 38 * 10 ^ k" using c by simp
  also have "\<dots> \<le> 10 ^ 38 * 10 ^ 18" using k by (intro mult_left_mono power_increasing) auto
  also have "\<dots> = (10 :: int) ^ 56" by simp
  finally show ?thesis .
qed

text \<open>On values that \<open>parse\<close> accepts a comparison never overflows.\<close>

lemma decimal_add_small_total:
  assumes "\<bar>coefficient a\<bar> < 10 ^ 38" "scale a \<le> 18" "\<bar>coefficient b\<bar> < 10 ^ 38" "scale b \<le> 18"
  shows "\<exists>d. decimal_add a b = Inr d"
proof -
  let ?sc = "max (scale a) (scale b)"
  let ?x = "coefficient a * power10 (?sc - scale a)" and ?y = "coefficient b * power10 (?sc - scale b)"
  have "?sc - scale a \<le> 18" "?sc - scale b \<le> 18" using assms by linarith+
  then have "\<bar>?x\<bar> < 10 ^ 56" "\<bar>?y\<bar> < 10 ^ 56"
    using abs_power10_bound assms by blast+
  then have "\<bar>?x + ?y\<bar> < 10 ^ 80"
    using abs_triangle_ineq [of ?x ?y] by simp
  then show ?thesis using create_total by (simp add: decimal_add_def Let_def)
qed

lemma decimal_compare_small_total:
  assumes "dec_small a" "dec_small b"
  shows "\<exists>c. decimal_compare a b = Inr c"
proof -
  obtain n where n: "create (- coefficient b) (scale b) = Inr n"
    using create_total [of "- coefficient b" "scale b"] assms(2) by (auto simp: dec_small_def dec_ok_def)
  obtain m k where mk: "strip_zeros (- coefficient b) (scale b) = (m, k)"
    by (cases "strip_zeros (- coefficient b) (scale b)")
  have "n = \<lparr>coefficient = m, scale = k\<rparr>"
    using n mk by (auto simp: create_def split: if_splits)
  with strip_zeros_spec [OF mk] assms(2)
  have "\<bar>coefficient n\<bar> < 10 ^ 38" "scale n \<le> 18" by (auto simp: dec_small_def)
  then obtain d where "decimal_add a n = Inr d"
    using decimal_add_small_total assms(1) by (auto simp: dec_small_def)
  with n show ?thesis by (auto simp: decimal_compare_def decimal_subtract_def)
qed

subsection \<open>Rounding\<close>

text \<open>
  The abstract specification of rounding half to even: \<open>n\<close> is nearest to \<open>q\<close>, and even when \<open>q\<close>
  lies half way between two integers. It determines \<open>n\<close>.
\<close>

definition half_even :: "rat \<Rightarrow> int \<Rightarrow> bool" where
  "half_even q n = (\<bar>q - of_int n\<bar> < 1 / 2 \<or> (\<bar>q - of_int n\<bar> = 1 / 2 \<and> even n))"

lemma half_even_unique:
  assumes "half_even q m" and "half_even q n"
  shows "m = n"
proof (rule ccontr)
  assume ne: "m \<noteq> n"
  have "\<bar>q - of_int m\<bar> \<le> 1 / 2" "\<bar>q - of_int n\<bar> \<le> 1 / 2"
    using assms by (auto simp: half_even_def)
  then have "\<bar>(of_int m :: rat) - of_int n\<bar> \<le> 1" by linarith
  then have "\<bar>m - n\<bar> \<le> 1"
    by (metis of_int_abs of_int_diff of_int_le_1_iff)
  with ne have one: "\<bar>m - n\<bar> = 1" by linarith
  then have "\<bar>(of_int m :: rat) - of_int n\<bar> = 1"
    by (metis of_int_1 of_int_abs of_int_diff)
  then have "\<not> \<bar>q - of_int m\<bar> < 1 / 2 \<or> \<not> \<bar>q - of_int n\<bar> < 1 / 2" by linarith
  moreover have "\<bar>q - of_int m\<bar> < 1 / 2 \<longleftrightarrow> \<bar>q - of_int n\<bar> < 1 / 2"
    using \<open>\<bar>q - of_int m\<bar> \<le> 1 / 2\<close> \<open>\<bar>q - of_int n\<bar> \<le> 1 / 2\<close>
      \<open>\<bar>(of_int m :: rat) - of_int n\<bar> = 1\<close> by linarith
  ultimately have "even m" "even n" using assms by (auto simp: half_even_def)
  with one show False by presburger
qed

lemma smod_2_iff: "(q :: int) smod 2 = 0 \<longleftrightarrow> even q"
proof -
  have "q smod 2 = sgn q * (\<bar>q\<bar> mod 2)"
    by (simp add: signed_modulo_int_def)
  then show ?thesis
    by (auto simp: even_iff_mod_2_eq_zero [symmetric] sgn_if)
qed

text \<open>The rounding of a quotient with a positive divisor, in terms of the integer quotient and
  remainder that the code computes.\<close>

lemma half_even_quotient:
  fixes N D q r n :: int
  assumes D: "0 < D" and N: "N = q * D + r"
    and n: "n = (if \<bar>r\<bar> * 2 < D then q else if \<bar>r\<bar> * 2 > D then q + d
                 else if even q then q else q + d)"
    and r: "\<bar>r\<bar> < D" and d: "d = (if N < 0 then - 1 else 1)" and sign: "r \<noteq> 0 \<longrightarrow> sgn r = d"
  shows "half_even (of_int N / of_int D) n"
proof -
  have diff: "(of_int N :: rat) / of_int D - of_int m = of_int (N - m * D) / of_int D" for m
    using D by (simp add: field_simps)
  have half: "\<bar>(of_int x :: rat) / of_int D\<bar> < 1 / 2 \<longleftrightarrow> \<bar>x\<bar> * 2 < D"
    "\<bar>(of_int x :: rat) / of_int D\<bar> = 1 / 2 \<longleftrightarrow> \<bar>x\<bar> * 2 = D" for x
  proof -
    have "\<bar>(of_int x :: rat) / of_int D\<bar> = of_int \<bar>x\<bar> / of_int D" using D by simp
    moreover have "(of_int \<bar>x\<bar> :: rat) / of_int D < 1 / 2 \<longleftrightarrow> (of_int (\<bar>x\<bar> * 2) :: rat) < of_int D"
      "(of_int \<bar>x\<bar> :: rat) / of_int D = 1 / 2 \<longleftrightarrow> (of_int (\<bar>x\<bar> * 2) :: rat) = of_int D"
      using D by (auto simp: field_simps)
    ultimately show "\<bar>(of_int x :: rat) / of_int D\<bar> < 1 / 2 \<longleftrightarrow> \<bar>x\<bar> * 2 < D"
      "\<bar>(of_int x :: rat) / of_int D\<bar> = 1 / 2 \<longleftrightarrow> \<bar>x\<bar> * 2 = D"
      by (simp_all only: of_int_less_iff of_int_eq_iff)
  qed
  have "N - q * D = r" "N - (q + d) * D = r - d * D"
    using N by (simp_all add: algebra_simps)
  moreover have "r \<noteq> 0 \<Longrightarrow> \<bar>r - d * D\<bar> = D - \<bar>r\<bar>"
    using r sign D d by (auto simp: sgn_if split: if_splits)
  ultimately show ?thesis
    using n D d unfolding half_even_def diff half by (auto split: if_splits)
qed

lemma sdiv_smod_facts:
  fixes N D :: int
  assumes D: "0 < D"
  shows "N = (N sdiv D) * D + N smod D" "\<bar>N smod D\<bar> < D"
    "N smod D \<noteq> 0 \<Longrightarrow> sgn (N smod D) = (if N < 0 then - 1 else 1)"
proof -
  have m: "N smod D = sgn N * (\<bar>N\<bar> mod D)"
    using D by (simp add: signed_modulo_int_def)
  show "N = (N sdiv D) * D + N smod D"
    by (simp add: sdiv_mult_smod_eq)
  have b: "0 \<le> \<bar>N\<bar> mod D" "\<bar>N\<bar> mod D < D" using D by simp_all
  show "\<bar>N smod D\<bar> < D" using b unfolding m by (auto simp: sgn_if D)
  show "N smod D \<noteq> 0 \<Longrightarrow> sgn (N smod D) = (if N < 0 then - 1 else 1)"
    using b unfolding m by (auto simp: sgn_if split: if_splits)
qed

lemma roundHalfEven_pos:
  assumes D: "0 < D"
  shows "half_even (of_int N / of_int D) (roundHalfEven N D)"
proof (rule half_even_quotient [OF D sdiv_smod_facts(1) [OF D] _ sdiv_smod_facts(2) [OF D] refl])
  show "N smod D \<noteq> 0 \<longrightarrow> sgn (N smod D) = (if N < 0 then - 1 else 1)"
    using sdiv_smod_facts(3) [OF D] by simp
  show "roundHalfEven N D = (if \<bar>N smod D\<bar> * 2 < D then N sdiv D
     else if \<bar>N smod D\<bar> * 2 > D then N sdiv D + (if N < 0 then - 1 else 1)
     else if even (N sdiv D) then N sdiv D else N sdiv D + (if N < 0 then - 1 else 1))"
    using D by (simp add: roundHalfEven_def Let_def smod_2_iff abs_if)
qed

lemma roundHalfEven_flip: "D < 0 \<Longrightarrow> roundHalfEven N D = roundHalfEven (- N) (- D)"
  by (simp add: roundHalfEven_def Let_def)

lemma roundHalfEven_spec:
  assumes "D \<noteq> 0"
  shows "half_even (of_int N / of_int D) (roundHalfEven N D)"
proof (cases "D < 0")
  case True
  then show ?thesis
    using roundHalfEven_pos [of "- D" "- N"] by (simp add: roundHalfEven_flip)
next
  case False
  with assms show ?thesis by (simp add: roundHalfEven_pos)
qed

text \<open>What a value rounded to \<open>k\<close> decimal places is.\<close>

definition rounded_to :: "nat \<Rightarrow> rat \<Rightarrow> rat \<Rightarrow> bool" where
  "rounded_to k q r = (\<exists>n. half_even (q * 10 ^ k) n \<and> r = of_int n / 10 ^ k)"

lemma rounded_to_error: "rounded_to k q r \<Longrightarrow> \<bar>q - r\<bar> \<le> 1 / (2 * 10 ^ k)"
proof -
  assume "rounded_to k q r"
  then obtain n where h: "half_even (q * 10 ^ k) n" and r: "r = of_int n / 10 ^ k"
    by (auto simp: rounded_to_def)
  from h have n: "\<bar>q * 10 ^ k - of_int n\<bar> \<le> 1 / 2" unfolding half_even_def by linarith
  have "\<bar>q - r\<bar> * 10 ^ k = \<bar>(q - r) * 10 ^ k\<bar>" by (simp add: abs_mult)
  also have "(q - r) * 10 ^ k = q * 10 ^ k - of_int n" using r by (simp add: field_simps)
  finally have "\<bar>q - r\<bar> * 10 ^ k \<le> 1 / 2" using n by simp
  then show ?thesis by (simp add: field_simps)
qed

lemma rounded_to_unique: "rounded_to k q r \<Longrightarrow> rounded_to k q r' \<Longrightarrow> r = r'"
  using half_even_unique by (auto simp: rounded_to_def)

lemma rounded_to_exact: "rounded_to k (of_int n / 10 ^ k) (of_int n / 10 ^ k)"
  by (auto simp: rounded_to_def half_even_def)

text \<open>Rounding is monotone, so bounds that are themselves multiples of the unit survive it.\<close>

lemma half_even_mono:
  assumes "half_even p m" and "half_even q n" and "p \<le> q"
  shows "m \<le> n"
proof (rule ccontr)
  assume "\<not> m \<le> n"
  then have "n + 1 \<le> m" by simp
  then have "(of_int (n + 1) :: rat) \<le> of_int m" by (simp only: of_int_le_iff)
  then have "(of_int n :: rat) + 1 \<le> of_int m" by simp
  moreover have "\<bar>p - of_int m\<bar> \<le> 1 / 2" "\<bar>q - of_int n\<bar> \<le> 1 / 2"
    using assms by (auto simp: half_even_def)
  ultimately have "p = q" using assms(3) by linarith
  with assms half_even_unique \<open>\<not> m \<le> n\<close> show False by blast
qed

lemma rounded_to_mono: "rounded_to k p r \<Longrightarrow> rounded_to k q t \<Longrightarrow> p \<le> q \<Longrightarrow> r \<le> t"
  unfolding rounded_to_def using half_even_mono [of "p * 10 ^ k" _ "q * 10 ^ k"]
  by (auto simp: divide_right_mono)

lemma rounded_to_int: "rounded_to k (of_int n) (of_int n)"
  using rounded_to_exact [of k "n * 10 ^ k"] by simp

lemma decimal_divide_create:
  assumes b: "coefficient b \<noteq> 0" and k: "0 \<le> k" "k \<le> 18"
  shows "\<exists>n. half_even (dec_val a / dec_val b * 10 ^ nat k) n \<and> decimal_divide a b k = create n (nat k)"
proof -
  let ?e = "k + int (scale b) - int (scale a)"
  let ?N = "if ?e \<ge> 0 then coefficient a * power10 (nat ?e) else coefficient a"
  let ?D = "if ?e \<ge> 0 then coefficient b else coefficient b * power10 (nat (- ?e))"
  have D: "?D \<noteq> 0" using b by (simp add: power10_def)
  have quot: "dec_val a / dec_val b * 10 ^ nat k = of_int ?N / of_int ?D"
  proof (cases "?e \<ge> 0")
    case True
    then have "nat k + scale b = nat ?e + scale a" using k by linarith
    then have "(10 :: rat) ^ nat k * 10 ^ scale b = 10 ^ nat ?e * 10 ^ scale a"
      by (simp flip: power_add)
    then show ?thesis using True b by (simp add: dec_val_def power10_def field_simps)
  next
    case False
    then have "nat k + scale b + nat (- ?e) = scale a" using k by linarith
    then have "(10 :: rat) ^ nat k * 10 ^ scale b * 10 ^ nat (- ?e) = 10 ^ scale a"
      by (simp flip: power_add)
    then show ?thesis using False b by (simp add: dec_val_def power10_def field_simps)
  qed
  have "half_even (dec_val a / dec_val b * 10 ^ nat k) (roundHalfEven ?N ?D)"
    unfolding quot by (rule roundHalfEven_spec [OF D])
  moreover have "decimal_divide a b k = create (roundHalfEven ?N ?D) (nat k)"
    using b k by (simp add: decimal_divide_def Let_def)
  ultimately show ?thesis by blast
qed

lemma decimal_divide_val:
  assumes "decimal_divide a b k = Inr d"
  shows "dec_val b \<noteq> 0 \<and> 0 \<le> k \<and> k \<le> 18 \<and> dec_ok d \<and> scale d \<le> nat k
    \<and> rounded_to (nat k) (dec_val a / dec_val b) (dec_val d)"
proof -
  have b: "coefficient b \<noteq> 0" and k: "0 \<le> k" "k \<le> 18"
    using assms by (auto simp: decimal_divide_def split: if_splits)
  with decimal_divide_create [OF b k, of a] assms create_spec show ?thesis
    by (fastforce simp: rounded_to_def dec_val_eq_0_iff)
qed

text \<open>Division succeeds whenever the quotient is of ordinary size.\<close>

lemma divide_total:
  assumes b: "dec_val b \<noteq> 0" and k: "0 \<le> k" "k \<le> 18" and q: "\<bar>dec_val a / dec_val b\<bar> \<le> 10 ^ 40"
  shows "\<exists>d. decimal_divide a b k = Inr d"
proof -
  obtain n where n: "half_even (dec_val a / dec_val b * 10 ^ nat k) n" "decimal_divide a b k = create n (nat k)"
    using decimal_divide_create [OF _ k, of b a] b by (auto simp: dec_val_eq_0_iff)
  have "\<bar>dec_val a / dec_val b * 10 ^ nat k\<bar> = \<bar>dec_val a / dec_val b\<bar> * 10 ^ nat k"
    by (simp add: abs_mult)
  also have "\<dots> \<le> 10 ^ 40 * 10 ^ 18"
    using q k by (intro mult_mono power_increasing) auto
  finally have m: "\<bar>dec_val a / dec_val b * 10 ^ nat k\<bar> \<le> 10 ^ 58" by simp
  define x where "x = dec_val a / dec_val b * 10 ^ nat k"
  have "\<bar>x - of_int n\<bar> \<le> 1 / 2" using n(1) unfolding half_even_def x_def by linarith
  moreover have "\<bar>x\<bar> \<le> 10 ^ 58" using m by (simp only: x_def)
  ultimately have "\<bar>of_int n :: rat\<bar> \<le> 10 ^ 58 + 1" by linarith
  also have "\<dots> < 10 ^ 80" by simp
  finally have "(of_int \<bar>n\<bar> :: rat) < of_int (10 ^ 80)" by simp
  then have "\<bar>n\<bar> < 10 ^ 80" by (simp only: of_int_less_iff)
  with create_total n(2) show ?thesis by metis
qed

lemma decimal_round_val:
  assumes "decimal_round a k = Inr d" and "dec_ok a"
  shows "dec_ok d \<and> 0 \<le> k \<and> k \<le> 18 \<and> scale d \<le> nat k \<and> rounded_to (nat k) (dec_val a) (dec_val d)"
proof (cases "k \<ge> int (scale a)")
  case True
  then have d: "d = a" "0 \<le> k" "k \<le> 18"
    using assms(1) by (auto simp: decimal_round_def split: if_splits)
  have "dec_val a = of_int (coefficient a * 10 ^ (nat k - scale a)) / 10 ^ nat k"
    using dec_val_align [of "scale a" "nat k" "coefficient a"] True
    by (simp add: dec_val_def power10_def)
  then have "rounded_to (nat k) (dec_val a) (dec_val a)" by (metis rounded_to_exact)
  with d True assms(2) show ?thesis by auto
next
  case False
  let ?p = "power10 (scale a - nat k)"
  have k: "0 \<le> k" "k \<le> 18" and c: "create (roundHalfEven (coefficient a) ?p) (nat k) = Inr d"
    using assms(1) False by (auto simp: decimal_round_def split: if_splits)
  have "nat k + (scale a - nat k) = scale a" using False by linarith
  then have "(10 :: rat) ^ nat k * 10 ^ (scale a - nat k) = 10 ^ scale a" by (simp flip: power_add)
  then have "dec_val a * 10 ^ nat k = of_int (coefficient a) / of_int ?p"
    by (simp add: dec_val_def power10_def field_simps)
  then have "half_even (dec_val a * 10 ^ nat k) (roundHalfEven (coefficient a) ?p)"
    using roundHalfEven_spec [of ?p "coefficient a"] by (simp add: power10_def)
  with create_spec [OF c] k show ?thesis by (auto simp: rounded_to_def)
qed

lemma decimal_divide_iff:
  "decimal_divide a b k = Inr d \<longleftrightarrow> dec_val b \<noteq> 0 \<and> 0 \<le> k \<and> k \<le> 18 \<and> dec_ok d
     \<and> rounded_to (nat k) (dec_val a / dec_val b) (dec_val d)"
proof
  assume d: "dec_val b \<noteq> 0 \<and> 0 \<le> k \<and> k \<le> 18 \<and> dec_ok d \<and> rounded_to (nat k) (dec_val a / dec_val b) (dec_val d)"
  then obtain n where n: "half_even (dec_val a / dec_val b * 10 ^ nat k) n" "decimal_divide a b k = create n (nat k)"
    using decimal_divide_create [of b k a] by (auto simp: dec_val_eq_0_iff)
  have "dec_val d = of_int n / 10 ^ nat k"
    using d n(1) rounded_to_unique [of "nat k" "dec_val a / dec_val b"] by (auto simp: rounded_to_def)
  then show "decimal_divide a b k = Inr d" using d by (simp add: n(2) create_iff)
qed (use decimal_divide_val in blast)

lemma decimal_divide_errors:
  "decimal_divide a b k = Inl e \<Longrightarrow>
     (e = DivideByZero \<longleftrightarrow> dec_val b = 0) \<and>
     (e = InvalidDecimal \<longleftrightarrow> dec_val b \<noteq> 0 \<and> \<not> (0 \<le> k \<and> k \<le> 18))"
  by (auto simp: decimal_divide_def Let_def dec_val_eq_0_iff split: if_splits dest!: create_error)

end
