(* ===== verification/Decimal_Text.thy ===== *)
theory Decimal_Text
  imports Decimal
begin

text \<open>
  The text form of exact decimals: \<open>ExactDecimal.parse\<close> and \<open>toCanonical\<close> of
  \<open>src/decision/decimal.ts\<close>, the schema \<open>canonicalDecimal\<close> of \<open>src/schemas/common.ts\<close> and the
  comparison \<open>compareCanonicalDecimals\<close> of \<open>src/schemas/numeric.ts\<close>. The lemmas give the two
  round trips, the agreement of the schema with the parser and of the two comparisons.
\<close>

subsection \<open>The pattern\<close>

text \<open>\<open>[1-9][0-9]*\<close> and \<open>[0-9]*[1-9]\<close>.\<close>

definition int_part_ok :: "string \<Rightarrow> bool" where
  "int_part_ok i = (i \<noteq> [] \<and> list_all is_digit i \<and> hd i \<noteq> CHR ''0'')"

definition frac_part_ok :: "string \<Rightarrow> bool" where
  "frac_part_ok f = (f \<noteq> [] \<and> list_all is_digit f \<and> last f \<noteq> CHR ''0'')"

definition strip_minus :: "string \<Rightarrow> string" where
  "strip_minus s = (if starts_with ''-'' s then tl s else s)"

definition decimal_pattern :: "string \<Rightarrow> bool" where
  "decimal_pattern s =
     (s = ''0'' \<or>
      (let u = strip_minus s;
           i = takeWhile (\<lambda>c. c \<noteq> CHR ''.'') u;
           r = dropWhile (\<lambda>c. c \<noteq> CHR ''.'') u
       in int_part_ok i \<and> (r = [] \<or> frac_part_ok (tl r))
        \<or> i = ''0'' \<and> r \<noteq> [] \<and> frac_part_ok (tl r)))"

subsection \<open>Parsing and printing\<close>

definition decimal_parse :: "string \<Rightarrow> decimal_error + exact_decimal" where
  "decimal_parse s =
     (if \<not> decimal_pattern s then Inl InvalidDecimal
      else let negative = starts_with ''-'' s;
               unsigned = (if negative then drop 1 s else s);
               parts = split_on CHR ''.'' unsigned;
               integer = (case parts of [] \<Rightarrow> ''0'' | i # _ \<Rightarrow> i);
               fraction = (case parts of _ # f # _ \<Rightarrow> f | _ \<Rightarrow> [])
           in if length (trim_leading CHR ''0'' (integer @ fraction)) > 38 \<or> length fraction > 18
              then Inl DecimalOverflow
              else create (int (digits_val (integer @ fraction)) * (if negative then - 1 else 1))
                     (length fraction))"

definition decimal_toCanonical :: "exact_decimal \<Rightarrow> string" where
  "decimal_toCanonical d =
     (if coefficient d = 0 then ''0''
      else let negative = coefficient d < 0;
               digits = pad_start (scale d + 1) CHR ''0''
                 (show_nat (nat (if negative then - coefficient d else coefficient d)));
               integer = (if scale d = 0 then digits else take (length digits - scale d) digits);
               fraction = (if scale d = 0 then []
                 else trim_trailing CHR ''0'' (drop (length digits - scale d) digits))
           in (if negative then ''-'' else []) @ integer
              @ (if length fraction = 0 then [] else CHR ''.'' # fraction))"

text \<open>The schema of decimal fields and the comparison the numeric schemas use.\<close>

definition canonicalDecimal_ok :: "string \<Rightarrow> bool" where
  "canonicalDecimal_ok s =
     (decimal_pattern s \<and>
      (let digits = filter (\<lambda>c. c \<noteq> CHR ''-'' \<and> c \<noteq> CHR ''.'') s;
           fraction = (case split_on CHR ''.'' s of _ # f # _ \<Rightarrow> f | _ \<Rightarrow> [])
       in \<not> (length digits > 38 \<or> length fraction > 18)))"

definition bigint_of_string :: "string \<Rightarrow> int" where
  "bigint_of_string s =
     (if starts_with ''-'' s then - int (digits_val (drop 1 s)) else int (digits_val s))"

definition compareCanonicalDecimals :: "string \<Rightarrow> string \<Rightarrow> int" where
  "compareCanonicalDecimals left right =
     (let int_of = (\<lambda>s. case split_on CHR ''.'' s of [] \<Rightarrow> ''0'' | i # _ \<Rightarrow> i);
          frac_of = (\<lambda>s. case split_on CHR ''.'' s of _ # f # _ \<Rightarrow> f | _ \<Rightarrow> []);
          sc = max (length (frac_of left)) (length (frac_of right));
          scaleFactor = 10 ^ sc;
          normalize = (\<lambda>integer fraction.
            bigint_of_string integer * scaleFactor +
            bigint_of_string (if fraction @ replicate (sc - length fraction) CHR ''0'' = [] then ''0''
              else fraction @ replicate (sc - length fraction) CHR ''0'')
              * (if starts_with ''-'' integer then - 1 else 1));
          leftValue = normalize (int_of left) (frac_of left);
          rightValue = normalize (int_of right) (frac_of right)
      in if leftValue < rightValue then - 1 else if leftValue > rightValue then 1 else 0)"

subsection \<open>The shape of accepted text\<close>

text \<open>Accepted text is a sign, an integer part and a fraction.\<close>

definition dec_text :: "bool \<Rightarrow> string \<Rightarrow> string \<Rightarrow> string" where
  "dec_text neg i f = (if neg then ''-'' else []) @ i @ (if f = [] then [] else CHR ''.'' # f)"

definition dec_shape :: "bool \<Rightarrow> string \<Rightarrow> string \<Rightarrow> bool" where
  "dec_shape neg i f =
     ((f = [] \<or> frac_part_ok f) \<and> (int_part_ok i \<or> i = ''0'' \<and> (f \<noteq> [] \<or> \<not> neg)))"

lemma starts_with_1: "starts_with [c] s \<longleftrightarrow> (\<exists>t. s = c # t)"
  by (cases s) (auto simp: starts_with_def)

lemma dec_shape_digits: "dec_shape neg i f \<Longrightarrow> i \<noteq> [] \<and> list_all is_digit (i @ f)"
  by (auto simp: dec_shape_def int_part_ok_def frac_part_ok_def)

lemma digits_no_sep: "list_all is_digit s \<Longrightarrow> CHR ''.'' \<notin> set s \<and> CHR ''-'' \<notin> set s"
  by (auto simp: list_all_iff dest: bspec)

lemma dec_shape_no_sep:
  "dec_shape neg i f \<Longrightarrow> CHR ''.'' \<notin> set i \<and> CHR ''.'' \<notin> set f \<and> CHR ''-'' \<notin> set i \<and> CHR ''-'' \<notin> set f"
  using digits_no_sep [of "i @ f"] by (auto dest: dec_shape_digits)

lemma dec_text_sign: "dec_shape neg i f \<Longrightarrow> starts_with ''-'' (dec_text neg i f) = neg"
  using dec_shape_no_sep [of neg i f] dec_shape_digits [of neg i f]
  by (cases i) (auto simp: dec_text_def starts_with_1)

lemma decimal_pattern_shape:
  assumes "decimal_pattern s"
  shows "\<exists>neg i f. dec_shape neg i f \<and> s = dec_text neg i f"
proof (cases "s = ''0''")
  case True
  then have "dec_shape False ''0'' [] \<and> s = dec_text False ''0'' []"
    by (simp add: dec_shape_def dec_text_def)
  then show ?thesis by blast
next
  case False
  define u where "u = strip_minus s"
  define i where "i = takeWhile (\<lambda>c. c \<noteq> CHR ''.'') u"
  define r where "r = dropWhile (\<lambda>c. c \<noteq> CHR ''.'') u"
  let ?neg = "starts_with ''-'' s"
  have alt: "int_part_ok i \<and> (r = [] \<or> frac_part_ok (tl r)) \<or> i = ''0'' \<and> r \<noteq> [] \<and> frac_part_ok (tl r)"
    using assms False by (simp add: decimal_pattern_def Let_def u_def i_def r_def)
  then have f: "r = [] \<longleftrightarrow> tl r = []" by (auto simp: frac_part_ok_def)
  have r: "r \<noteq> [] \<Longrightarrow> r = CHR ''.'' # tl r"
    using hd_dropWhile [of "\<lambda>c. c \<noteq> CHR ''.''" u] by (cases r) (auto simp: r_def)
  have "s = (if ?neg then ''-'' else []) @ u"
    by (auto simp: u_def strip_minus_def starts_with_1)
  moreover have "u = i @ r" by (simp add: i_def r_def)
  ultimately have "s = dec_text ?neg i (tl r)"
    using f r by (auto simp: dec_text_def)
  moreover have "dec_shape ?neg i (tl r)" using alt f by (auto simp: dec_shape_def)
  ultimately show ?thesis by blast
qed

lemma dec_text_unsigned:
  assumes "dec_shape neg i f"
  shows "strip_minus (dec_text neg i f) = dec_text False i f"
    and "(if starts_with ''-'' (dec_text neg i f) then drop 1 (dec_text neg i f) else dec_text neg i f)
      = dec_text False i f"
  using dec_text_sign [OF assms] by (auto simp: strip_minus_def dec_text_def)

lemma dec_text_parts:
  assumes "dec_shape neg i f"
  shows "split_on CHR ''.'' (dec_text False i f) = (if f = [] then [i] else [i, f])"
    and "split_on CHR ''.'' (dec_text neg i f) =
      (if f = [] then [(if neg then ''-'' else []) @ i] else [(if neg then ''-'' else []) @ i, f])"
  using dec_shape_no_sep [OF assms] split_on_one [of "CHR ''.''" "''-'' @ i" f]
  by (auto simp: dec_text_def split_on_none split_on_one)

lemma dec_shape_pattern:
  assumes "dec_shape neg i f"
  shows "decimal_pattern (dec_text neg i f)"
proof (cases "i = ''0'' \<and> f = []")
  case True
  with assms have "\<not> neg" by (auto simp: dec_shape_def int_part_ok_def)
  with True show ?thesis by (simp add: decimal_pattern_def dec_text_def)
next
  case False
  have no: "\<forall>c \<in> set i. c \<noteq> CHR ''.''" using dec_shape_no_sep [OF assms] by auto
  have tw: "takeWhile (\<lambda>c. c \<noteq> CHR ''.'') (dec_text False i f) = i"
    "dropWhile (\<lambda>c. c \<noteq> CHR ''.'') (dec_text False i f) = (if f = [] then [] else CHR ''.'' # f)"
    using no by (simp_all add: dec_text_def takeWhile_append dropWhile_append)
  show ?thesis
    unfolding decimal_pattern_def Let_def dec_text_unsigned(1) [OF assms] tw
    using assms False by (auto simp: dec_shape_def)
qed

subsection \<open>Digits of accepted text\<close>

lemma trim_leading_replicate: "s = replicate (length s - length (trim_leading c s)) c @ trim_leading c s"
proof (induction s)
  case (Cons d s)
  then show ?case
    using length_dropWhile_le [of "\<lambda>d. d = c" s] by (auto simp: trim_leading_def Suc_diff_le)
qed (simp add: trim_leading_def)

lemma show_nat_trim:
  assumes "list_all is_digit s" and "0 < digits_val s"
  shows "show_nat (digits_val s) = trim_leading CHR ''0'' s"
proof -
  let ?t = "trim_leading CHR ''0'' s"
  have s: "s = replicate (length s - length ?t) CHR ''0'' @ ?t" by (rule trim_leading_replicate)
  then have v: "digits_val s = digits_val ?t"
    using digits_val_append [of "replicate (length s - length ?t) CHR ''0''" ?t] by simp
  have "list_all is_digit ?t" using assms(1) s by (metis list_all_append)
  moreover have "?t \<noteq> []" using assms(2) v by auto
  moreover have "hd ?t \<noteq> CHR ''0''"
    using \<open>?t \<noteq> []\<close> hd_dropWhile [of "\<lambda>d. d = CHR ''0''" s] by (auto simp: trim_leading_def)
  ultimately show ?thesis unfolding v using show_nat_digits_val by blast
qed

lemma pad_show_nat:
  assumes "list_all is_digit s" and "0 < digits_val s"
  shows "pad_start (length s) CHR ''0'' (show_nat (digits_val s)) = s"
  using trim_leading_replicate [of s "CHR ''0''"] show_nat_trim [OF assms]
  by (simp add: pad_start_def)

lemma dvd_digits_val: "list_all is_digit s \<Longrightarrow> s \<noteq> [] \<Longrightarrow> 10 dvd digits_val s \<longleftrightarrow> last s = CHR ''0''"
proof (induction s rule: rev_induct)
  case (snoc c s)
  then have d: "is_digit c" by simp
  have "10 dvd digits_val (s @ [c]) \<longleftrightarrow> 10 dvd digit_val c"
    by (simp add: dvd_add_right_iff)
  also have "\<dots> \<longleftrightarrow> digit_val c = 0"
    using digit_val_less [OF d] by (auto dest: dvd_imp_le)
  finally show ?case using digit_val_0_iff [OF d] by simp
qed simp

lemma dec_shape_val_pos:
  assumes "dec_shape neg i f" and "i \<noteq> ''0'' \<or> f \<noteq> []"
  shows "0 < digits_val (i @ f)"
proof (cases "f = []")
  case True
  with assms have "int_part_ok i" by (auto simp: dec_shape_def)
  with True show ?thesis using show_nat_digits_val [of i] by (auto simp: int_part_ok_def)
next
  case False
  with assms have "frac_part_ok f" by (auto simp: dec_shape_def)
  then have "\<not> 10 dvd digits_val f" by (auto simp: frac_part_ok_def dvd_digits_val)
  then show ?thesis by (auto simp: digits_val_append intro: gr0I)
qed

lemma dec_shape_pad:
  assumes "dec_shape neg i f" and "i \<noteq> ''0'' \<or> f \<noteq> []"
  shows "pad_start (length f + 1) CHR ''0'' (show_nat (digits_val (i @ f))) = i @ f"
proof -
  have dig: "list_all is_digit (i @ f)" and pos: "0 < digits_val (i @ f)"
    using dec_shape_digits [OF assms(1)] dec_shape_val_pos [OF assms] by auto
  show ?thesis
  proof (cases "int_part_ok i")
    case True
    then have "show_nat (digits_val (i @ f)) = i @ f"
      using show_nat_digits_val [OF dig] by (auto simp: int_part_ok_def)
    with True show ?thesis by (auto simp: pad_start_def int_part_ok_def Suc_le_eq)
  next
    case False
    with assms(1) have "i = ''0''" by (auto simp: dec_shape_def)
    then have "length (i @ f) = length f + 1" by simp
    with pad_show_nat [OF dig pos] show ?thesis by metis
  qed
qed

text \<open>No trailing zero is stripped from a coefficient that has none.\<close>

lemma strip_zeros_id: "s = 0 \<or> \<not> 10 dvd c \<Longrightarrow> strip_zeros c s = (c, s)"
  by (cases s) (auto simp: smod_0_iff_dvd)

lemma create_id: "dec_ok \<lparr>coefficient = c, scale = s\<rparr> \<Longrightarrow> create c s = Inr \<lparr>coefficient = c, scale = s\<rparr>"
  using show_digits_le_80 [of c] by (auto simp: create_def strip_zeros_id dec_ok_def abs_if_neg)

lemma create_shape:
  assumes "dec_shape neg i f" and "digits_val (i @ f) < 10 ^ 80"
  shows "create (int (digits_val (i @ f)) * (if neg then - 1 else 1)) (length f) =
    Inr \<lparr>coefficient = int (digits_val (i @ f)) * (if neg then - 1 else 1), scale = length f\<rparr>"
proof (rule create_id)
  have "f \<noteq> [] \<Longrightarrow> \<not> 10 dvd digits_val (i @ f)"
    using assms(1) dec_shape_digits [OF assms(1)] dvd_digits_val [of "i @ f"]
    by (auto simp: dec_shape_def frac_part_ok_def)
  then have "f \<noteq> [] \<Longrightarrow> \<not> 10 dvd int (digits_val (i @ f))"
    by (metis int_dvd_int_iff of_nat_numeral)
  moreover have "int (digits_val (i @ f)) < 10 ^ 80"
    using assms(2) by (metis of_nat_less_iff of_nat_numeral of_nat_power)
  ultimately show "dec_ok \<lparr>coefficient = int (digits_val (i @ f)) * (if neg then - 1 else 1),
      scale = length f\<rparr>"
    by (auto simp: dec_ok_def)
qed

lemma toCanonical_shape:
  assumes "dec_shape neg i f"
  shows "decimal_toCanonical \<lparr>coefficient = int (digits_val (i @ f)) * (if neg then - 1 else 1),
    scale = length f\<rparr> = dec_text neg i f"
proof (cases "i = ''0'' \<and> f = []")
  case True
  with assms have "\<not> neg" by (auto simp: dec_shape_def int_part_ok_def)
  with True show ?thesis by (simp add: decimal_toCanonical_def dec_text_def digits_val_Cons)
next
  case False
  then have ne: "i \<noteq> ''0'' \<or> f \<noteq> []" by blast
  let ?v = "digits_val (i @ f)"
  have pos: "0 < ?v" and pad: "pad_start (length f + 1) CHR ''0'' (show_nat ?v) = i @ f"
    using dec_shape_val_pos [OF assms ne] dec_shape_pad [OF assms ne] by auto
  have tr: "trim_trailing CHR ''0'' f = f"
  proof (cases "f = []")
    case False
    with assms have "last f \<noteq> CHR ''0''" by (auto simp: dec_shape_def frac_part_ok_def)
    with False show ?thesis by (cases f rule: rev_cases) (auto simp: trim_trailing_def)
  qed (simp add: trim_trailing_def)
  show ?thesis using pos pad tr
    by (auto simp: decimal_toCanonical_def dec_text_def Let_def)
qed

subsection \<open>Parsing accepted text\<close>

lemma length_trim_le: "length (trim_leading c s) \<le> length s"
  by (simp add: trim_leading_def length_dropWhile_le)

lemma digits_val_trim_bound:
  assumes "list_all is_digit s" and "length (trim_leading CHR ''0'' s) \<le> k"
  shows "digits_val s < 10 ^ k"
proof (cases "0 < digits_val s")
  case True
  let ?t = "trim_leading CHR ''0'' s"
  have "digits_val s = digits_val ?t"
    using show_nat_trim [OF assms(1) True] by (metis digits_val_show_nat)
  moreover have "list_all is_digit ?t"
    using show_nat_trim [OF assms(1) True] by (metis show_nat_digits)
  ultimately have "digits_val s < 10 ^ length ?t" using digits_val_less by metis
  also have "\<dots> \<le> 10 ^ k" using assms(2) by (intro power_increasing) auto
  finally show ?thesis .
qed simp

lemma decimal_parse_shape:
  assumes "dec_shape neg i f"
  shows "decimal_parse (dec_text neg i f) =
    (if length (trim_leading CHR ''0'' (i @ f)) > 38 \<or> length f > 18 then Inl DecimalOverflow
     else Inr \<lparr>coefficient = int (digits_val (i @ f)) * (if neg then - 1 else 1), scale = length f\<rparr>)"
proof -
  have "decimal_parse (dec_text neg i f) =
    (if length (trim_leading CHR ''0'' (i @ f)) > 38 \<or> length f > 18 then Inl DecimalOverflow
     else create (int (digits_val (i @ f)) * (if neg then - 1 else 1)) (length f))"
    using dec_shape_pattern [OF assms] dec_text_unsigned(2) [OF assms] dec_text_sign [OF assms]
    by (simp add: decimal_parse_def Let_def dec_text_parts(1) [OF assms])
  moreover have "digits_val (i @ f) < 10 ^ 80" if "\<not> length (trim_leading CHR ''0'' (i @ f)) > 38"
    using digits_val_trim_bound [of "i @ f" 80] dec_shape_digits [OF assms] that by simp
  ultimately show ?thesis using create_shape [OF assms] by auto
qed

lemma decimal_parse_Inr:
  assumes "decimal_parse s = Inr d"
  obtains neg i f where "dec_shape neg i f" and "s = dec_text neg i f"
    and "length (trim_leading CHR ''0'' (i @ f)) \<le> 38" and "length f \<le> 18"
    and "d = \<lparr>coefficient = int (digits_val (i @ f)) * (if neg then - 1 else 1), scale = length f\<rparr>"
proof -
  have "decimal_pattern s" using assms by (auto simp: decimal_parse_def split: if_splits)
  then obtain neg i f where sh: "dec_shape neg i f" and s: "s = dec_text neg i f"
    using decimal_pattern_shape by blast
  show ?thesis
    by (rule that [OF sh s]) (use assms in \<open>auto simp: s decimal_parse_shape [OF sh] split: if_splits\<close>)
qed

lemma decimal_parse_small: "decimal_parse s = Inr d \<Longrightarrow> dec_small d"
proof (erule decimal_parse_Inr)
  fix neg i f
  assume sh: "dec_shape neg i f" and len: "length (trim_leading CHR ''0'' (i @ f)) \<le> 38" "length f \<le> 18"
    and d: "d = \<lparr>coefficient = int (digits_val (i @ f)) * (if neg then - 1 else 1), scale = length f\<rparr>"
  have dig: "list_all is_digit (i @ f)" using dec_shape_digits [OF sh] by simp
  have v: "digits_val (i @ f) < 10 ^ 38" "digits_val (i @ f) < 10 ^ 80"
    using digits_val_trim_bound [OF dig, of 38] digits_val_trim_bound [OF dig, of 80] len by auto
  then have "int (digits_val (i @ f)) < 10 ^ 38"
    by (metis of_nat_less_iff of_nat_numeral of_nat_power)
  moreover have "dec_ok d" using create_spec create_shape [OF sh v(2)] d by blast
  ultimately show ?thesis using d len by (auto simp: dec_small_def)
qed

lemma decimal_parse_toCanonical: "decimal_parse s = Inr d \<Longrightarrow> decimal_toCanonical d = s"
  by (erule decimal_parse_Inr) (simp add: toCanonical_shape)

subsection \<open>Printing is inverted by parsing\<close>

lemma dec_ok_shape:
  assumes "dec_ok d"
  shows "\<exists>neg i f. dec_shape neg i f \<and> length f = scale d \<and>
    d = \<lparr>coefficient = int (digits_val (i @ f)) * (if neg then - 1 else 1), scale = length f\<rparr>"
proof (cases "coefficient d = 0")
  case True
  with assms have "scale d = 0" by (auto simp: dec_ok_def)
  with True show ?thesis
    by (intro exI [of _ False] exI [of _ "''0''"] exI [of _ "[]"])
      (auto simp: dec_shape_def digits_val_Cons intro!: exact_decimal.equality)
next
  case False
  let ?n = "nat \<bar>coefficient d\<bar>"
  let ?s = "pad_start (scale d + 1) CHR ''0'' (show_nat ?n)"
  let ?i = "take (length ?s - scale d) ?s" and ?f = "drop (length ?s - scale d) ?s"
  have n: "0 < ?n" using False by simp
  have len: "scale d + 1 \<le> length ?s" by (simp add: pad_start_def)
  have dig: "list_all is_digit ?s"
    by (simp add: pad_start_def list_all_append) (simp add: list_all_iff)
  have val: "digits_val ?s = ?n" by (simp add: pad_start_def digits_val_append)
  have lf: "length ?f = scale d" using len by simp
  have frac: "?f = [] \<or> frac_part_ok ?f"
  proof (cases "scale d = 0")
    case False
    then have "\<not> 10 dvd coefficient d" using assms by (simp add: dec_ok_def)
    then have "\<not> 10 dvd int ?n" by simp
    then have "\<not> 10 dvd ?n" by (metis int_dvd_int_iff of_nat_numeral)
    then have "last ?s \<noteq> CHR ''0''" using dvd_digits_val [OF dig] val len by fastforce
    moreover have "list_all is_digit ?f" using dig by (metis append_take_drop_id list_all_append)
    ultimately show ?thesis using lf False by (auto simp: frac_part_ok_def last_drop)
  qed (use lf in auto)
  have whole: "int_part_ok ?i \<or> ?i = ''0'' \<and> ?f \<noteq> []"
  proof (cases "scale d < length (show_nat ?n)")
    case True
    then have s: "?s = show_nat ?n" by (simp add: pad_start_def)
    then have "hd ?i \<noteq> CHR ''0''" using hd_show_nat [OF n] True by (simp add: hd_take)
    moreover have "list_all is_digit ?i" using dig by (metis append_take_drop_id list_all_append)
    ultimately show ?thesis using s True by (auto simp: int_part_ok_def)
  next
    case False
    then have "length ?s = scale d + 1" "hd ?s = CHR ''0''" "?s \<noteq> []"
      by (auto simp: pad_start_def)
    then have "?i = ''0''" by (simp add: take_Suc)
    moreover have "0 < length (show_nat ?n)" by simp
    ultimately show ?thesis using lf False by force
  qed
  show ?thesis
  proof (intro exI conjI)
    show "dec_shape (coefficient d < 0) ?i ?f" using frac whole by (auto simp: dec_shape_def)
    show "length ?f = scale d" by (rule lf)
    show "d = \<lparr>coefficient = int (digits_val (?i @ ?f)) * (if coefficient d < 0 then - 1 else 1),
        scale = length ?f\<rparr>"
      unfolding append_take_drop_id val lf by (auto intro!: exact_decimal.equality)
  qed
qed

lemma toCanonical_parse:
  assumes "dec_small d"
  shows "decimal_parse (decimal_toCanonical d) = Inr d"
proof -
  have "dec_ok d" using assms by (simp add: dec_small_def)
  then obtain neg i f where sh: "dec_shape neg i f" and lf: "length f = scale d"
    and d: "d = \<lparr>coefficient = int (digits_val (i @ f)) * (if neg then - 1 else 1), scale = length f\<rparr>"
    using dec_ok_shape by blast
  have printed: "decimal_toCanonical d = dec_text neg i f" using toCanonical_shape [OF sh] d by metis
  have "\<bar>coefficient d\<bar> = int (digits_val (i @ f))" using arg_cong [OF d, of coefficient] by auto
  then have "int (digits_val (i @ f)) < 10 ^ 38" using assms by (simp add: dec_small_def)
  then have v: "digits_val (i @ f) < 10 ^ 38" by (metis of_nat_less_iff of_nat_numeral of_nat_power)
  have "length (trim_leading CHR ''0'' (i @ f)) \<le> 38"
  proof (cases "0 < digits_val (i @ f)")
    case True
    have "length (show_nat (digits_val (i @ f))) \<le> 38"
      using v by (simp add: length_show_nat_le)
    then show ?thesis
      using show_nat_trim [OF _ True] dec_shape_digits [OF sh] by simp
  next
    case False
    then have "i = ''0'' \<and> f = []" using dec_shape_val_pos [OF sh] by auto
    then show ?thesis by (simp add: trim_leading_def)
  qed
  moreover have "length f \<le> 18" using assms lf by (simp add: dec_small_def)
  ultimately show ?thesis unfolding printed decimal_parse_shape [OF sh] using d by simp
qed

subsection \<open>The schema and the comparison of the numeric schemas\<close>

lemma dec_text_digits:
  "dec_shape neg i f \<Longrightarrow> filter (\<lambda>c. c \<noteq> CHR ''-'' \<and> c \<noteq> CHR ''.'') (dec_text neg i f) = i @ f"
proof -
  assume "dec_shape neg i f"
  then have "filter (\<lambda>c. c \<noteq> CHR ''-'' \<and> c \<noteq> CHR ''.'') i = i"
    "filter (\<lambda>c. c \<noteq> CHR ''-'' \<and> c \<noteq> CHR ''.'') f = f"
    using dec_shape_no_sep [of neg i f] by (auto intro!: filter_True)
  then show ?thesis by (simp add: dec_text_def)
qed

lemma dec_text_fraction:
  "dec_shape neg i f \<Longrightarrow> (case split_on CHR ''.'' (dec_text neg i f) of _ # g # _ \<Rightarrow> g | _ \<Rightarrow> []) = f"
  by (simp add: dec_text_parts(2))

lemma dec_text_integer:
  "dec_shape neg i f \<Longrightarrow> (case split_on CHR ''.'' (dec_text neg i f) of [] \<Rightarrow> ''0'' | j # _ \<Rightarrow> j) =
     (if neg then ''-'' else []) @ i"
  by (simp add: dec_text_parts(2))

text \<open>The schema counts a leading zero as a digit and the parser does not; with at most 18 decimal
  places the two limits agree.\<close>

lemma dec_shape_length_iff:
  assumes "dec_shape neg i f" and "length f \<le> 18"
  shows "length (i @ f) \<le> 38 \<longleftrightarrow> length (trim_leading CHR ''0'' (i @ f)) \<le> 38"
proof (cases "int_part_ok i")
  case True
  then have "trim_leading CHR ''0'' (i @ f) = i @ f"
    by (cases i) (auto simp: trim_leading_def int_part_ok_def)
  then show ?thesis by simp
next
  case False
  with assms(1) have "length i = 1" by (auto simp: dec_shape_def)
  then have "length (i @ f) \<le> 38" using assms(2) by simp
  with length_trim_le [of "CHR ''0''" "i @ f"] show ?thesis by simp
qed

lemma canonicalDecimal_ok_shape:
  "dec_shape neg i f \<Longrightarrow> canonicalDecimal_ok (dec_text neg i f) \<longleftrightarrow> length (i @ f) \<le> 38 \<and> length f \<le> 18"
  by (auto simp: canonicalDecimal_ok_def Let_def dec_shape_pattern dec_text_digits dec_text_fraction)

lemma canonicalDecimal_ok_iff: "canonicalDecimal_ok s \<longleftrightarrow> (\<exists>d. decimal_parse s = Inr d)"
proof
  assume ok: "canonicalDecimal_ok s"
  then have "decimal_pattern s" by (simp add: canonicalDecimal_ok_def)
  then obtain neg i f where sh: "dec_shape neg i f" and s: "s = dec_text neg i f"
    using decimal_pattern_shape by blast
  with ok dec_shape_length_iff [OF sh] show "\<exists>d. decimal_parse s = Inr d"
    by (auto simp: canonicalDecimal_ok_shape decimal_parse_shape)
next
  assume "\<exists>d. decimal_parse s = Inr d"
  then obtain d where "decimal_parse s = Inr d" ..
  then show "canonicalDecimal_ok s"
    by (rule decimal_parse_Inr) (use dec_shape_length_iff canonicalDecimal_ok_shape in blast)
qed

definition scaled_value :: "nat \<Rightarrow> string \<Rightarrow> string \<Rightarrow> int" where
  "scaled_value sc integer fraction =
     bigint_of_string integer * 10 ^ sc +
     bigint_of_string (if fraction @ replicate (sc - length fraction) CHR ''0'' = [] then ''0''
       else fraction @ replicate (sc - length fraction) CHR ''0'')
       * (if starts_with ''-'' integer then - 1 else 1)"

lemma bigint_digits: "list_all is_digit s \<Longrightarrow> bigint_of_string s = int (digits_val s)"
  by (cases s) (auto simp: bigint_of_string_def starts_with_1)

lemma scaled_value_shape:
  assumes sh: "dec_shape neg i f" and "length f \<le> sc"
  shows "(of_int (scaled_value sc ((if neg then ''-'' else []) @ i) f) :: rat) =
    dec_val \<lparr>coefficient = int (digits_val (i @ f)) * (if neg then - 1 else 1), scale = length f\<rparr> * 10 ^ sc"
proof -
  have dig: "list_all is_digit i" "list_all is_digit f" "i \<noteq> []"
    using dec_shape_digits [OF sh] by auto
  let ?z = "f @ replicate (sc - length f) CHR ''0''"
  have z: "bigint_of_string (if ?z = [] then ''0'' else ?z) = int (digits_val f * 10 ^ (sc - length f))"
  proof -
    have "list_all is_digit ?z" using dig by (auto simp: list_all_iff)
    then show ?thesis by (auto simp: bigint_digits digits_val_append digits_val_Cons)
  qed
  have sgn: "starts_with ''-'' ((if neg then ''-'' else []) @ i) = neg"
    using dig by (cases i) (auto simp: starts_with_1)
  have whole: "bigint_of_string ((if neg then ''-'' else []) @ i) =
      (if neg then - 1 else 1) * int (digits_val i)"
    using dig bigint_digits [of i] by (auto simp: bigint_of_string_def starts_with_1)
  have "scaled_value sc ((if neg then ''-'' else []) @ i) f =
      (if neg then - 1 else 1) * int (digits_val i * 10 ^ sc + digits_val f * 10 ^ (sc - length f))"
    unfolding scaled_value_def z sgn whole by (simp add: algebra_simps)
  moreover have "(10 :: nat) ^ sc = 10 ^ length f * 10 ^ (sc - length f)"
    using assms(2) by (simp flip: power_add)
  ultimately have "scaled_value sc ((if neg then ''-'' else []) @ i) f =
      (int (digits_val (i @ f)) * (if neg then - 1 else 1)) * 10 ^ (sc - length f)"
    by (simp add: digits_val_append algebra_simps)
  moreover have "(10 :: rat) ^ sc = 10 ^ length f * 10 ^ (sc - length f)"
    using assms(2) by (simp flip: power_add)
  ultimately show ?thesis by (simp add: dec_val_def)
qed

lemma compareCanonicalDecimals_alt:
  "compareCanonicalDecimals l r =
    (let int_of = (\<lambda>s. case split_on CHR ''.'' s of [] \<Rightarrow> ''0'' | i # _ \<Rightarrow> i);
         frac_of = (\<lambda>s. case split_on CHR ''.'' s of _ # f # _ \<Rightarrow> f | _ \<Rightarrow> []);
         sc = max (length (frac_of l)) (length (frac_of r))
     in - sgn (scaled_value sc (int_of r) (frac_of r) - scaled_value sc (int_of l) (frac_of l)))"
  unfolding compareCanonicalDecimals_def Let_def scaled_value_def [symmetric]
  by (simp add: sgn_if)

lemma compareCanonicalDecimals_sgn:
  assumes "decimal_parse s = Inr a" and "decimal_parse t = Inr b"
  shows "(of_int (compareCanonicalDecimals s t) :: rat) = sgn (dec_val a - dec_val b)"
  using assms(1)
proof (rule decimal_parse_Inr)
  fix neg i f
  assume sh: "dec_shape neg i f" and s: "s = dec_text neg i f"
    and a: "a = \<lparr>coefficient = int (digits_val (i @ f)) * (if neg then - 1 else 1), scale = length f\<rparr>"
  show ?thesis using assms(2)
  proof (rule decimal_parse_Inr)
    fix neg' i' f'
    assume sh': "dec_shape neg' i' f'" and t: "t = dec_text neg' i' f'"
      and b: "b = \<lparr>coefficient = int (digits_val (i' @ f')) * (if neg' then - 1 else 1), scale = length f'\<rparr>"
    let ?sc = "max (length f) (length f')"
    let ?l = "scaled_value ?sc ((if neg then ''-'' else []) @ i) f"
    let ?r = "scaled_value ?sc ((if neg' then ''-'' else []) @ i') f'"
    have cmp: "compareCanonicalDecimals s t = - sgn (?r - ?l)"
      unfolding compareCanonicalDecimals_alt Let_def s t dec_text_fraction [OF sh]
        dec_text_fraction [OF sh'] dec_text_integer [OF sh] dec_text_integer [OF sh'] ..
    have "(of_int (?l - ?r) :: rat) = (dec_val a - dec_val b) * 10 ^ ?sc"
      using scaled_value_shape [OF sh, of ?sc] scaled_value_shape [OF sh', of ?sc] a b
      by (simp add: algebra_simps)
    then have "sgn (of_int (?l - ?r) :: rat) = sgn (dec_val a - dec_val b)"
      by (simp add: sgn_mult)
    moreover have "(of_int (- sgn (?r - ?l)) :: rat) = sgn (of_int (?l - ?r))"
      by (auto simp: sgn_if)
    ultimately show ?thesis unfolding cmp by simp
  qed
qed

text \<open>Parsed values are always comparable, and by the sign of their difference.\<close>

lemma decimal_compare_parsed:
  assumes "decimal_parse s = Inr a" and "decimal_parse t = Inr b"
  shows "decimal_compare a b = Inr (compareCanonicalDecimals s t)"
proof -
  obtain c where c: "decimal_compare a b = Inr c"
    using decimal_compare_small_total assms decimal_parse_small by blast
  have "(of_int c :: rat) = sgn (dec_val a - dec_val b)"
    using decimal_compare_val [OF c] by (auto simp: sgn_if split: if_splits)
  also have "\<dots> = of_int (compareCanonicalDecimals s t)"
    using compareCanonicalDecimals_sgn [OF assms] by simp
  finally show ?thesis using c by simp
qed

end
