(* ===== verification/Base64.thy ===== *)
theory Base64
  imports Prelude "HOL-Library.Word"
begin

text \<open>
  Bytes (\<open>Uint8Array\<close>) and the base64 text forms of Node's \<open>Buffer\<close>: the URL-safe alphabet without
  padding (\<open>base64url\<close>), which the schemas and digests use, and the standard padded form
  (\<open>base64\<close>), which repository backups use. The decoders accept both alphabets and skip every other
  character.
  The lemmas are the round trip from bytes to text and back, the length of the text, and the
  canonical-form test of the schemas.
\<close>

type_synonym byte = "8 word"
type_synonym bytes = "byte list"

definition base64url_alphabet :: string where
  "base64url_alphabet = ''ABCDEFGHIJKLMNOPQRSTUVWXYZabcdefghijklmnopqrstuvwxyz0123456789-_''"

definition base64_alphabet :: string where
  "base64_alphabet = ''ABCDEFGHIJKLMNOPQRSTUVWXYZabcdefghijklmnopqrstuvwxyz0123456789+/''"

fun index_of :: "'a \<Rightarrow> 'a list \<Rightarrow> nat option" where
  "index_of x [] = None"
| "index_of x (y # ys) = (if x = y then Some 0 else map_option Suc (index_of x ys))"

fun sextets_of_bytes :: "bytes \<Rightarrow> nat list" where
  "sextets_of_bytes (x # y # z # r) =
     [unat x div 4, (unat x mod 4) * 16 + unat y div 16, (unat y mod 16) * 4 + unat z div 64,
      unat z mod 64] @ sextets_of_bytes r"
| "sextets_of_bytes [x, y] =
     [unat x div 4, (unat x mod 4) * 16 + unat y div 16, (unat y mod 16) * 4]"
| "sextets_of_bytes [x] = [unat x div 4, (unat x mod 4) * 16]"
| "sextets_of_bytes [] = []"

fun bytes_of_sextets :: "nat list \<Rightarrow> bytes" where
  "bytes_of_sextets (a # b # c # d # r) =
     [of_nat (a * 4 + b div 16), of_nat ((b mod 16) * 16 + c div 4), of_nat ((c mod 4) * 64 + d)]
       @ bytes_of_sextets r"
| "bytes_of_sextets [a, b, c] = [of_nat (a * 4 + b div 16), of_nat ((b mod 16) * 16 + c div 4)]"
| "bytes_of_sextets [a, b] = [of_nat (a * 4 + b div 16)]"
| "bytes_of_sextets [a] = []"
| "bytes_of_sextets [] = []"

definition base64url_encode :: "bytes \<Rightarrow> string" where
  "base64url_encode bs = map (\<lambda>i. base64url_alphabet ! i) (sextets_of_bytes bs)"

definition unbase64 :: "char \<Rightarrow> nat option" where
  "unbase64 c = (case index_of c base64_alphabet of
     Some i \<Rightarrow> Some i | None \<Rightarrow> index_of c base64url_alphabet)"

definition base64url_decode :: "string \<Rightarrow> bytes" where
  "base64url_decode s = bytes_of_sextets (List.map_filter unbase64 s)"

definition base64_encode :: "bytes \<Rightarrow> string" where
  "base64_encode bs =
     (let t = map (\<lambda>i. base64_alphabet ! i) (sextets_of_bytes bs)
      in t @ replicate ((4 - length t mod 4) mod 4) CHR ''='')"

definition base64_decode :: "string \<Rightarrow> bytes" where
  "base64_decode s = bytes_of_sextets (List.map_filter unbase64 s)"

lemma unat_byte_bound: "unat (x :: byte) < 256"
  using unsigned_less [of x] by simp

lemma sextets_less: "i \<in> set (sextets_of_bytes bs) \<Longrightarrow> i < 64"
proof (induction bs rule: sextets_of_bytes.induct)
  case (1 x y z r)
  then show ?case using unat_byte_bound [of x] unat_byte_bound [of y] unat_byte_bound [of z]
    by (auto; linarith)
next
  case (2 x y)
  then show ?case using unat_byte_bound [of x] unat_byte_bound [of y] by (auto; linarith)
next
  case (3 x)
  then show ?case using unat_byte_bound [of x] by (auto; linarith)
qed simp

lemma digit_pair:
  fixes a b c :: nat
  assumes "b < c"
  shows "(a * c + b) div c = a" and "(a * c + b) mod c = b"
  using assms by simp_all

lemma byte_split:
  fixes n m k :: nat
  assumes "m < 256" and "k < 256"
  shows "n div 4 * 4 + ((n mod 4) * 16 + m div 16) div 16 = n"
    and "((n mod 4) * 16 + m div 16) mod 16 * 16 + ((m mod 16) * 4 + k div 64) div 4 = m"
    and "((m mod 16) * 4 + k div 64) mod 4 * 64 + k mod 64 = k"
proof -
  have d: "m div 16 < 16" "k div 64 < 4" using assms by linarith+
  show "n div 4 * 4 + ((n mod 4) * 16 + m div 16) div 16 = n"
    unfolding digit_pair(1) [OF d(1)] by simp
  show "((n mod 4) * 16 + m div 16) mod 16 * 16 + ((m mod 16) * 4 + k div 64) div 4 = m"
    unfolding digit_pair(2) [OF d(1)] digit_pair(1) [OF d(2)] by simp
  show "((m mod 16) * 4 + k div 64) mod 4 * 64 + k mod 64 = k"
    unfolding digit_pair(2) [OF d(2)] by simp
qed

lemma byte_split_end:
  fixes n m :: nat
  assumes "m < 256"
  shows "n div 4 * 4 + ((n mod 4) * 16) div 16 = n"
    and "((n mod 4) * 16 + m div 16) mod 16 * 16 + ((m mod 16) * 4) div 4 = m"
  using byte_split(1) [of 0 0 n] byte_split(2) [OF assms, of 0 n] by simp_all

lemma bytes_of_sextets_of_bytes: "bytes_of_sextets (sextets_of_bytes bs) = bs"
proof (induction bs rule: sextets_of_bytes.induct)
  case (1 x y z r)
  then show ?case
    using byte_split [OF unat_byte_bound [of y] unat_byte_bound [of z]]
    by (simp del: of_nat_add of_nat_mult)
next
  case (2 x y)
  then show ?case
    using byte_split(1) [OF unat_byte_bound [of y] unat_byte_bound [of y]]
      byte_split_end(2) [OF unat_byte_bound [of y]]
    by (simp del: of_nat_add of_nat_mult)
next
  case (3 x)
  then show ?case using byte_split_end(1) [OF unat_byte_bound [of x]] by (simp del: of_nat_add of_nat_mult)
qed simp

lemma unbase64_alphabets:
  assumes "i < 64"
  shows "unbase64 (base64_alphabet ! i) = Some i" and "unbase64 (base64url_alphabet ! i) = Some i"
proof -
  have "list_all (\<lambda>i. unbase64 (base64_alphabet ! i) = Some i \<and> unbase64 (base64url_alphabet ! i) = Some i) [0..<64]"
    by code_simp
  then show "unbase64 (base64_alphabet ! i) = Some i" "unbase64 (base64url_alphabet ! i) = Some i"
    using assms by (auto simp: list_all_iff)
qed

lemma map_filter_inverse:
  "(\<And>i. i \<in> set xs \<Longrightarrow> f (g i) = Some i) \<Longrightarrow> List.map_filter f (map g xs) = xs"
  by (induction xs) (auto simp: map_filter_simps)

lemma alphabet_facts:
  "distinct base64url_alphabet" "length base64url_alphabet = 64"
  "distinct base64_alphabet" "length base64_alphabet = 64"
  by (simp_all add: base64url_alphabet_def base64_alphabet_def)

lemma base64url_roundtrip: "base64url_decode (base64url_encode bs) = bs"
  by (simp add: base64url_decode_def base64url_encode_def map_filter_inverse unbase64_alphabets sextets_less
      bytes_of_sextets_of_bytes)

lemma map_filter_append: "List.map_filter f (xs @ ys) = List.map_filter f xs @ List.map_filter f ys"
  by (induction xs) (auto simp: map_filter_simps split: option.split)

lemma map_filter_padding: "List.map_filter unbase64 (replicate n CHR ''='') = []"
proof -
  have "unbase64 CHR ''='' = None" by code_simp
  then show ?thesis by (induction n) (auto simp: map_filter_simps)
qed

lemma base64_roundtrip: "base64_decode (base64_encode bs) = bs"
  by (simp add: base64_decode_def base64_encode_def Let_def map_filter_append map_filter_padding map_filter_inverse
      unbase64_alphabets sextets_less bytes_of_sextets_of_bytes)

lemma base64url_encode_inj: "base64url_encode a = base64url_encode b \<longleftrightarrow> a = b"
  by (metis base64url_roundtrip)

text \<open>The schema test \<open>Buffer.from(value, "base64url").toString("base64url") === value\<close>.\<close>

definition base64url_canonical :: "string \<Rightarrow> bool" where
  "base64url_canonical s = (base64url_encode (base64url_decode s) = s)"

lemma base64url_canonical_iff: "base64url_canonical s \<longleftrightarrow> (\<exists>bs. s = base64url_encode bs)"
  by (metis base64url_canonical_def base64url_roundtrip)

definition base64Url32_ok :: "string \<Rightarrow> bool" where
  "base64Url32_ok s =
     (length s = 43 \<and> list_all (\<lambda>c. c \<in> set base64url_alphabet) s \<and> base64url_canonical s)"

definition base64Url_ok :: "string \<Rightarrow> bool" where
  "base64Url_ok s =
     (length s mod 4 \<noteq> 1 \<and> list_all (\<lambda>c. c \<in> set base64url_alphabet) s \<and> base64url_canonical s)"

lemma length_sextets: "length (sextets_of_bytes bs) = (4 * length bs + 2) div 3"
  by (induction bs rule: sextets_of_bytes.induct) auto

lemma base64url_encode_alphabet: "list_all (\<lambda>c. c \<in> set base64url_alphabet) (base64url_encode bs)"
  using sextets_less alphabet_facts(2) by (auto simp: base64url_encode_def list_all_iff)

text \<open>The texts the 32-byte schema accepts are the encodings of 32-byte strings.\<close>

lemma base64Url32_ok_iff: "base64Url32_ok s \<longleftrightarrow> (\<exists>bs. length bs = 32 \<and> s = base64url_encode bs)"
proof -
  have "(4 * n + 2) div 3 = 43 \<longleftrightarrow> n = 32" for n :: nat by presburger
  then have "length (base64url_encode bs) = 43 \<longleftrightarrow> length bs = 32" for bs
    by (simp add: base64url_encode_def length_sextets)
  then show ?thesis
    by (auto simp: base64Url32_ok_def base64url_canonical_iff base64url_encode_alphabet)
qed

end
