(* ===== verification/Schemas.thy ===== *)
theory Schemas
  imports Decimal_Text Base64
begin

text \<open>
  The value constraints of the schemas the components parse their inputs with:
  \<open>src/schemas/common.ts\<close>, \<open>numeric.ts\<close>, \<open>protected-bundle.ts\<close>, \<open>domain-payloads.ts\<close> and
  \<open>domain-records.ts\<close>. The records give the shape of a strict object; an optional field is an
  \<open>option\<close>, a \<open>z.enum\<close> or a \<open>z.literal\<close> of one value is a type. What is left of a schema is a
  predicate: length limits, ranges, regular expressions and the \<open>superRefine\<close> callbacks.
  \<open>parse_with\<close> is \<open>schema.parse\<close> on a value of that shape: it returns the value or throws.
\<close>

definition parse_with :: "('a \<Rightarrow> bool) \<Rightarrow> 'e \<Rightarrow> 'a \<Rightarrow> 'e + 'a" where
  "parse_with ok e x = (if ok x then Inr x else Inl e)"

lemma parse_with_Inr_iff [outcome_simps]: "parse_with ok e x = Inr y \<longleftrightarrow> ok x \<and> y = x"
  by (auto simp: parse_with_def)

subsection \<open>Identifiers and numbers\<close>

definition is_hex_lower :: "char \<Rightarrow> bool" where
  "is_hex_lower c = (c \<in> set ''0123456789abcdef'')"

definition uuid_ok :: "string \<Rightarrow> bool" where
  "uuid_ok s = (map length (split_on CHR ''-'' s) = [8, 4, 4, 4, 12]
     \<and> list_all (list_all is_hex_lower) (split_on CHR ''-'' s))"

definition urn_ok :: "string \<Rightarrow> string \<Rightarrow> bool" where
  "urn_ok kind s =
     (let p = ''urn:evllm:'' @ kind @ '':'' in starts_with p s \<and> uuid_ok (drop (length p) s))"

definition positiveSafeInteger_ok :: "int \<Rightarrow> bool" where
  "positiveSafeInteger_ok n = (0 < n \<and> n \<le> max_safe_integer)"

definition timestamp_ok :: "int \<Rightarrow> bool" where
  "timestamp_ok n = (0 \<le> n \<and> n \<le> max_safe_integer)"

definition hex_text_ok :: "nat \<Rightarrow> string \<Rightarrow> bool" where
  "hex_text_ok n s = (starts_with ''0x'' s \<and> length s = n + 2 \<and> list_all is_hex_lower (drop 2 s))"

definition canonicalAddress_ok :: "string \<Rightarrow> bool" where
  "canonicalAddress_ok s = hex_text_ok 40 s"

definition bytes32Hex_ok :: "string \<Rightarrow> bool" where
  "bytes32Hex_ok s = hex_text_ok 64 s"

definition shortText_ok :: "string \<Rightarrow> bool" where
  "shortText_ok s = (1 \<le> length s \<and> length s \<le> 256)"

definition text_ok :: "string \<Rightarrow> bool" where
  "text_ok s = (1 \<le> length s \<and> length s \<le> 16384)"

definition semver_ok :: "string \<Rightarrow> bool" where
  "semver_ok s =
     (length (split_on CHR ''.'' s) = 3
      \<and> list_all (\<lambda>p. p = ''0'' \<or> int_part_ok p) (split_on CHR ''.'' s))"

definition opt_ok :: "('a \<Rightarrow> bool) \<Rightarrow> 'a option \<Rightarrow> bool" where
  "opt_ok ok x = (case x of None \<Rightarrow> True | Some v \<Rightarrow> ok v)"

definition array_ok :: "('a \<Rightarrow> bool) \<Rightarrow> nat \<Rightarrow> nat \<Rightarrow> 'a list \<Rightarrow> bool" where
  "array_ok ok least most xs = (least \<le> length xs \<and> length xs \<le> most \<and> list_all ok xs)"

record digest =
  digest_alg :: string
  digest_value :: string

definition digest_ok :: "digest \<Rightarrow> bool" where
  "digest_ok d = (digest_alg d = ''SHA-256'' \<and> base64Url32_ok (digest_value d))"

record reference =
  ref_id :: string
  ref_version :: int

definition reference_ok :: "reference \<Rightarrow> bool" where
  "reference_ok r = (1 \<le> length (ref_id r) \<and> positiveSafeInteger_ok (ref_version r))"

subsection \<open>Numeric values\<close>

record decimal_quantity =
  quantity_value :: string
  unit_id :: string
  unit_version :: int

definition decimalQuantity_ok :: "decimal_quantity \<Rightarrow> bool" where
  "decimalQuantity_ok q =
     (canonicalDecimal_ok (quantity_value q) \<and> urn_ok ''unit'' (unit_id q)
      \<and> positiveSafeInteger_ok (unit_version q))"

record decimal_range =
  range_lower :: string
  range_upper :: string

definition decimalRange_ok :: "decimal_range \<Rightarrow> bool" where
  "decimalRange_ok r =
     (canonicalDecimal_ok (range_lower r) \<and> canonicalDecimal_ok (range_upper r)
      \<and> \<not> compareCanonicalDecimals (range_lower r) (range_upper r) > 0)"

record money_value =
  money_amount :: string
  currency_code :: string
  currency_profile_id :: string
  currency_profile_version :: int

definition currency_ok :: "string \<Rightarrow> bool" where
  "currency_ok s = (length s = 3 \<and> list_all (\<lambda>c. c \<in> set ''ABCDEFGHIJKLMNOPQRSTUVWXYZ'') s)"

definition moneyValue_ok :: "money_value \<Rightarrow> bool" where
  "moneyValue_ok m =
     (canonicalDecimal_ok (money_amount m) \<and> currency_ok (currency_code m)
      \<and> urn_ok ''profile'' (currency_profile_id m)
      \<and> positiveSafeInteger_ok (currency_profile_version m))"

record percentile_point =
  probability :: string
  percentile_value :: string

definition percentilePoint_ok :: "percentile_point \<Rightarrow> bool" where
  "percentilePoint_ok p =
     (canonicalDecimal_ok (probability p)
      \<and> compareCanonicalDecimals (probability p) ''0'' \<ge> 0
      \<and> compareCanonicalDecimals (probability p) ''1'' \<le> 0
      \<and> canonicalDecimal_ok (percentile_value p))"

text \<open>An accepted range is an interval and an accepted probability lies in \<open>[0, 1]\<close>.\<close>

lemma canonicalDecimal_parsed:
  "canonicalDecimal_ok s \<Longrightarrow> \<exists>d. decimal_parse s = Inr d \<and> dec_small d"
  using canonicalDecimal_ok_iff decimal_parse_small by blast

lemma decimalRange_sound:
  assumes "decimalRange_ok r" and "decimal_parse (range_lower r) = Inr a" and "decimal_parse (range_upper r) = Inr b"
  shows "dec_val a \<le> dec_val b"
proof -
  have "decimal_compare a b = Inr (compareCanonicalDecimals (range_lower r) (range_upper r))"
    using assms by (simp add: decimal_compare_parsed)
  with assms(1) show ?thesis
    using decimal_compare_val by (fastforce simp: decimalRange_ok_def)
qed

subsection \<open>References to protected bundles\<close>

datatype bundle_type =
  BEvidence | BVerification | BAssessment | BAssistantSupport | BListing | BAgreement | BDispute
  | BLogistics | BAudit | BAuthoritativeSource

fun domainKindByBundleType :: "bundle_type \<Rightarrow> string" where
  "domainKindByBundleType BEvidence = ''evidence''"
| "domainKindByBundleType BVerification = ''verification''"
| "domainKindByBundleType BAssessment = ''assessment''"
| "domainKindByBundleType BAssistantSupport = ''assistant''"
| "domainKindByBundleType BListing = ''listing''"
| "domainKindByBundleType BAgreement = ''agreement''"
| "domainKindByBundleType BDispute = ''dispute''"
| "domainKindByBundleType BLogistics = ''delivery''"
| "domainKindByBundleType BAudit = ''audit''"
| "domainKindByBundleType BAuthoritativeSource = ''source''"

datatype criticality = DecisionCritical | Supplementary

record protected_bundle_ref =
  pb_bundle_id :: string
  pb_bundle_version :: int
  pb_domain_resource_version :: int
  pb_custody_controller_org_id :: string
  pb_content_schema_id :: string
  pb_content_schema_version :: string
  pb_initial_criticality_class :: criticality
  pb_criticality_profile_id :: string
  pb_criticality_profile_version :: int
  pb_bundle_type :: bundle_type
  pb_domain_resource_id :: string

definition protectedBundleRef_ok :: "protected_bundle_ref \<Rightarrow> bool" where
  "protectedBundleRef_ok r =
     (urn_ok ''bundle'' (pb_bundle_id r)
      \<and> positiveSafeInteger_ok (pb_bundle_version r)
      \<and> positiveSafeInteger_ok (pb_domain_resource_version r)
      \<and> urn_ok ''org'' (pb_custody_controller_org_id r)
      \<and> urn_ok ''schema'' (pb_content_schema_id r)
      \<and> semver_ok (pb_content_schema_version r)
      \<and> urn_ok ''profile'' (pb_criticality_profile_id r)
      \<and> positiveSafeInteger_ok (pb_criticality_profile_version r)
      \<and> urn_ok (domainKindByBundleType (pb_bundle_type r)) (pb_domain_resource_id r))"

text \<open>The \<open>superRefine\<close> of \<open>bindReference\<close>.\<close>

definition bindReference_ok :: "bundle_type \<Rightarrow> string \<Rightarrow> protected_bundle_ref \<Rightarrow> bool" where
  "bindReference_ok bundleType resourceId r =
     (protectedBundleRef_ok r
      \<and> \<not> (pb_bundle_type r \<noteq> bundleType \<or> pb_domain_resource_id r \<noteq> resourceId))"

subsection \<open>Domain payloads\<close>

datatype typed_value = QuantityValue decimal_quantity | TextValue string | BooleanValue bool

fun typedValue_ok :: "typed_value \<Rightarrow> bool" where
  "typedValue_ok (QuantityValue q) = decimalQuantity_ok q"
| "typedValue_ok (TextValue s) = text_ok s"
| "typedValue_ok (BooleanValue b) = True"

datatype uncertainty = NoUncertainty | RangeUncertainty decimal_range

fun uncertainty_ok :: "uncertainty \<Rightarrow> bool" where
  "uncertainty_ok NoUncertainty = True"
| "uncertainty_ok (RangeUncertainty r) = decimalRange_ok r"

datatype granularity = Pack | Module | Cell
datatype source_class = PrimarySource | SecondarySource | DerivedSource

record evidence_payload =
  evidence_id :: string
  evidence_version :: int
  claim_id :: string
  claim_version :: int
  claim_type :: string
  subject_id :: string
  subject_granularity :: granularity
  issuer_organization_id :: string
  issuer_role_id :: string
  observed_at :: int
  submitted_at :: int
  capture_method :: reference
  claim_value :: typed_value
  claim_uncertainty :: uncertainty
  evidence_source_class :: source_class
  provenance :: "reference list"
  evidence_bundle_ref :: protected_bundle_ref

definition evidenceClaimPayload_ok :: "evidence_payload \<Rightarrow> bool" where
  "evidenceClaimPayload_ok p =
     (urn_ok ''evidence'' (evidence_id p)
      \<and> positiveSafeInteger_ok (evidence_version p)
      \<and> urn_ok ''claim'' (claim_id p)
      \<and> positiveSafeInteger_ok (claim_version p)
      \<and> shortText_ok (claim_type p)
      \<and> (urn_ok ''battery'' (subject_id p) \<or> urn_ok ''claim'' (subject_id p))
      \<and> urn_ok ''org'' (issuer_organization_id p)
      \<and> urn_ok ''role'' (issuer_role_id p)
      \<and> timestamp_ok (observed_at p)
      \<and> timestamp_ok (submitted_at p)
      \<and> reference_ok (capture_method p)
      \<and> typedValue_ok (claim_value p)
      \<and> uncertainty_ok (claim_uncertainty p)
      \<and> array_ok reference_ok 0 256 (provenance p)
      \<and> bindReference_ok BEvidence (evidence_id p) (evidence_bundle_ref p))"

datatype assertion_type = Corroboration | Certification

record verification_payload =
  verification_id :: string
  verification_version :: int
  assertion_type :: assertion_type
  verified_claim_id :: string
  verified_claim_version :: int
  verifier_organization_id :: string
  verifier_role_id :: string
  verifier_credential_id :: string
  basis_evidence :: "reference list"
  verification_method :: reference
  verification_reason :: string
  verified_at :: int
  valid_until :: "int option"
  verification_bundle_ref :: protected_bundle_ref

definition verificationPayload_ok :: "verification_payload \<Rightarrow> bool" where
  "verificationPayload_ok p =
     (urn_ok ''verification'' (verification_id p)
      \<and> positiveSafeInteger_ok (verification_version p)
      \<and> urn_ok ''claim'' (verified_claim_id p)
      \<and> positiveSafeInteger_ok (verified_claim_version p)
      \<and> urn_ok ''org'' (verifier_organization_id p)
      \<and> urn_ok ''role'' (verifier_role_id p)
      \<and> urn_ok ''credential'' (verifier_credential_id p)
      \<and> array_ok reference_ok 1 256 (basis_evidence p)
      \<and> reference_ok (verification_method p)
      \<and> text_ok (verification_reason p)
      \<and> timestamp_ok (verified_at p)
      \<and> opt_ok timestamp_ok (valid_until p)
      \<and> bindReference_ok BVerification (verification_id p) (verification_bundle_ref p))"

text \<open>An accepted payload is bound to a bundle of its own type and resource.\<close>

lemma evidenceClaimPayload_bound:
  "evidenceClaimPayload_ok p \<Longrightarrow> pb_bundle_type (evidence_bundle_ref p) = BEvidence
     \<and> pb_domain_resource_id (evidence_bundle_ref p) = evidence_id p"
  by (simp add: evidenceClaimPayload_ok_def bindReference_ok_def)

subsection \<open>Rules and their sources\<close>

datatype lifecycle = Pending | Active | Unavailable | Superseded | Withdrawn | Expired
datatype authority_class = Legal | Technical
datatype access_state = PublicAccess | LicensedAccess | MetadataOnly
datatype licence_state = Permitted | Restricted | LicenceUnavailable

record source_record =
  source_id :: string
  source_version :: int
  predecessor_source_version :: "int option"
  successor_source_version :: "int option"
  public_metadata_ref :: "reference option"
  licensed_payload_ref :: "reference option"
  source_signature_record_id :: "string option"
  authority_class :: authority_class
  access_state :: access_state
  licence_state :: licence_state
  source_review_due_at :: int
  source_lifecycle :: lifecycle
  transition_actor_id :: string
  transition_reason :: string
  effective_at :: int
  reviewed_at :: int
  permitted_rule_ids :: "string list"
  dependent_rule_ids :: "string list"

definition authoritativeSource_ok :: "source_record \<Rightarrow> bool" where
  "authoritativeSource_ok s =
     (urn_ok ''source'' (source_id s)
      \<and> positiveSafeInteger_ok (source_version s)
      \<and> opt_ok positiveSafeInteger_ok (predecessor_source_version s)
      \<and> opt_ok positiveSafeInteger_ok (successor_source_version s)
      \<and> opt_ok reference_ok (public_metadata_ref s)
      \<and> opt_ok reference_ok (licensed_payload_ref s)
      \<and> opt_ok (urn_ok ''assertion'') (source_signature_record_id s)
      \<and> timestamp_ok (source_review_due_at s)
      \<and> urn_ok ''actor'' (transition_actor_id s)
      \<and> shortText_ok (transition_reason s)
      \<and> timestamp_ok (effective_at s)
      \<and> timestamp_ok (reviewed_at s)
      \<and> array_ok (urn_ok ''rule'') 0 256 (permitted_rule_ids s)
      \<and> array_ok (urn_ok ''rule'') 0 256 (dependent_rule_ids s))"

datatype rule_status = RulePending | RuleActive | RuleDisabled | RuleSuperseded | RuleRetired

record rule_record =
  rule_id :: string
  rule_version :: int
  source_clauses :: "reference list"
  jurisdiction :: string
  effective_from :: int
  effective_until :: "int option"
  subject_scope :: "string list"
  rule_predicates :: "string list"
  required_evidence :: "string list"
  outcomes :: "string list"
  rule_reason_codes :: "string list"
  rule_status :: rule_status
  rule_review_due_at :: int

definition ruleProfile_ok :: "rule_record \<Rightarrow> bool" where
  "ruleProfile_ok r =
     (urn_ok ''rule'' (rule_id r)
      \<and> positiveSafeInteger_ok (rule_version r)
      \<and> array_ok reference_ok 1 256 (source_clauses r)
      \<and> shortText_ok (jurisdiction r)
      \<and> timestamp_ok (effective_from r)
      \<and> opt_ok timestamp_ok (effective_until r)
      \<and> array_ok shortText_ok 1 128 (subject_scope r)
      \<and> array_ok shortText_ok 1 256 (rule_predicates r)
      \<and> array_ok shortText_ok 0 256 (required_evidence r)
      \<and> array_ok shortText_ok 1 128 (outcomes r)
      \<and> array_ok shortText_ok 1 128 (rule_reason_codes r)
      \<and> timestamp_ok (rule_review_due_at r))"

text \<open>The schema does not constrain the status further: disabling a valid rule leaves it valid.\<close>

lemma ruleProfile_ok_status: "ruleProfile_ok (r\<lparr>rule_status := st\<rparr>) = ruleProfile_ok r"
  by (simp add: ruleProfile_ok_def)

subsection \<open>Assessment inputs\<close>

datatype formal_route = ContinuedCompatibleEvUse | StationaryStorageRepurposing | Recycling

definition FORMAL_ROUTES :: "formal_route list" where
  "FORMAL_ROUTES = [ContinuedCompatibleEvUse, StationaryStorageRepurposing, Recycling]"

record route_context =
  route_id :: formal_route
  application :: string
  location :: string
  functional_unit :: decimal_quantity
  duty_context :: string
  service_life :: decimal_range
  transport_burden :: decimal_quantity
  testing_burden :: decimal_quantity
  energy_context :: string
  displaced_alternative :: string
  recovery_process :: string
  inventories :: "decimal_quantity list"
  factors :: "decimal_quantity list"
  economic_assumptions :: "money_value list"
  route_uncertainty :: "percentile_point list"

definition routeContext_ok :: "formal_route \<Rightarrow> route_context \<Rightarrow> bool" where
  "routeContext_ok routeId c =
     (route_id c = routeId
      \<and> shortText_ok (application c) \<and> shortText_ok (location c)
      \<and> decimalQuantity_ok (functional_unit c) \<and> text_ok (duty_context c)
      \<and> decimalRange_ok (service_life c) \<and> decimalQuantity_ok (transport_burden c)
      \<and> decimalQuantity_ok (testing_burden c) \<and> text_ok (energy_context c)
      \<and> text_ok (displaced_alternative c) \<and> text_ok (recovery_process c)
      \<and> array_ok decimalQuantity_ok 0 512 (inventories c)
      \<and> array_ok decimalQuantity_ok 0 512 (factors c)
      \<and> array_ok moneyValue_ok 0 128 (economic_assumptions c)
      \<and> array_ok percentilePoint_ok 0 101 (route_uncertainty c))"

record assessment_basis =
  assessment_input_id :: string
  assessment_input_version :: int
  battery_id :: string
  basis_jurisdiction :: string
  as_of :: int
  basis_evidence_refs :: "reference list"
  basis_rules :: "reference list"
  basis_method :: reference
  calculation_inputs_digest :: digest
  candidate_routes :: "route_context list"
  basis_issuer_organization_id :: string
  basis_issuer_role_id :: string
  issued_at :: int
  basis_bundle_ref :: protected_bundle_ref

definition assessmentInputPayload_ok :: "assessment_basis \<Rightarrow> bool" where
  "assessmentInputPayload_ok b =
     (urn_ok ''assessment'' (assessment_input_id b)
      \<and> positiveSafeInteger_ok (assessment_input_version b)
      \<and> urn_ok ''battery'' (battery_id b)
      \<and> shortText_ok (basis_jurisdiction b)
      \<and> timestamp_ok (as_of b)
      \<and> array_ok reference_ok 1 512 (basis_evidence_refs b)
      \<and> array_ok reference_ok 0 256 (basis_rules b)
      \<and> reference_ok (basis_method b)
      \<and> digest_ok (calculation_inputs_digest b)
      \<and> list_all2 routeContext_ok FORMAL_ROUTES (candidate_routes b)
      \<and> urn_ok ''org'' (basis_issuer_organization_id b)
      \<and> urn_ok ''role'' (basis_issuer_role_id b)
      \<and> timestamp_ok (issued_at b)
      \<and> bindReference_ok BAssessment (assessment_input_id b) (basis_bundle_ref b))"

end
