(* ===== verification/Rules.thy ===== *)
theory Rules
  imports Schemas
begin

text \<open>
  \<open>DatedRuleRegistry\<close> of \<open>src/decision/rules.ts\<close>: authoritative sources with a lifecycle, rule
  profiles that cite them, the selection of the applicable rule at a date, and its evaluation on
  facts. The registry is two JavaScript maps. The invariant is that keys agree with the records and
  that an active rule cites only registered, active sources; every operation keeps it, so a rule
  whose source is withdrawn is never selected.
\<close>

datatype rule_error =
  RuleConflict | InactiveSource | InvalidTransition | RuleNotFound | OutOfScope
  | RuleSchemaRejected | RuleDecimal decimal_error

record registered_source =
  authority :: string
  source_jurisdiction :: string
  officialUrl :: string
  src_record :: source_record
  source_title :: string

datatype predicate_operator = OpEq | OpGte | OpLte | OpPresent
datatype fact = TextFact string | BoolFact bool
datatype tri = FAIL | PASS | UNKNOWN

record executable_predicate =
  pred_field :: string
  pred_id :: string
  pred_operator :: predicate_operator
  threshold :: "fact option"
  pred_critical :: bool

record executable_rule =
  rule_record :: rule_record
  predicates :: "executable_predicate list"

record rule_evaluation =
  eval_outcome :: tri
  predicateResults :: "(string \<times> tri) list"
  eval_reason_codes :: "string list"
  eval_rule :: reference
  eval_sources :: "reference list"

record rule_registry =
  rr_rules :: "(string, executable_rule) jmap"
  rr_sources :: "(string, registered_source) jmap"

definition empty_registry :: rule_registry where
  "empty_registry = \<lparr>rr_rules = [], rr_sources = []\<rparr>"

definition is_js_space :: "char \<Rightarrow> bool" where
  "is_js_space c = ((of_char c :: nat) \<in> {9, 10, 11, 12, 13, 32, 160})"

definition lookup_source :: "rule_registry \<Rightarrow> string \<Rightarrow> int \<Rightarrow> rule_error + registered_source" where
  "lookup_source reg sourceId version =
     from_option RuleNotFound (jm_get (rr_sources reg) (versionKey sourceId version))"

definition registerSource ::
  "rule_registry \<Rightarrow> registered_source \<Rightarrow> rule_error + source_record \<times> rule_registry" where
  "registerSource reg input =
     rbind (parse_with authoritativeSource_ok RuleSchemaRejected (src_record input)) (\<lambda>record.
     let key = versionKey (source_id record) (source_version record) in
     rbind (check (jm_has (rr_sources reg) key) RuleConflict) (\<lambda>_.
     rbind (check (\<not> starts_with ''https://'' (officialUrl input)
                   \<or> list_all is_js_space (authority input)) OutOfScope) (\<lambda>_.
     Inr (record, reg\<lparr>rr_sources := jm_set key (input\<lparr>src_record := record\<rparr>) (rr_sources reg)\<rparr>))))"

fun allowedSourceTransition :: "lifecycle \<Rightarrow> lifecycle \<Rightarrow> bool" where
  "allowedSourceTransition Pending t = (t = Active \<or> t = Withdrawn \<or> t = Expired)"
| "allowedSourceTransition Active t = (t \<in> {Unavailable, Superseded, Withdrawn, Expired})"
| "allowedSourceTransition Unavailable t = (t = Active \<or> t = Withdrawn \<or> t = Expired)"
| "allowedSourceTransition from t = False"

definition uses_source :: "string \<Rightarrow> int \<Rightarrow> executable_rule \<Rightarrow> bool" where
  "uses_source sid v c =
     list_ex (\<lambda>r. ref_id r = sid \<and> ref_version r = v) (source_clauses (rule_record c))"

text \<open>
  The loop of \<open>transitionSource\<close> over the rules. A rejected record would end the loop with an
  error after the entries before it have been replaced; the second component is that error.
\<close>

fun disable_dependents ::
  "string \<Rightarrow> int \<Rightarrow> (string, executable_rule) jmap \<Rightarrow> (string, executable_rule) jmap \<times> rule_error option"
where
  "disable_dependents sid v [] = ([], None)"
| "disable_dependents sid v ((k, c) # m) =
     (if uses_source sid v c \<and> rule_status (rule_record c) = RuleActive
      then case parse_with ruleProfile_ok RuleSchemaRejected
                  ((rule_record c)\<lparr>rule_status := RuleDisabled\<rparr>) of
             Inl e \<Rightarrow> ((k, c) # m, Some e)
           | Inr r \<Rightarrow> (let (m', e) = disable_dependents sid v m
                        in ((k, c\<lparr>rule_record := r\<rparr>) # m', e))
      else let (m', e) = disable_dependents sid v m in ((k, c) # m', e))"

definition transitionSource ::
  "rule_registry \<Rightarrow> string \<Rightarrow> int \<Rightarrow> lifecycle \<Rightarrow> string \<Rightarrow> string \<Rightarrow> int
     \<Rightarrow> (rule_error + source_record) \<times> rule_registry" where
  "transitionSource reg sourceId version lifecycle actorId reason now =
     (case lookup_source reg sourceId version of
        Inl e \<Rightarrow> (Inl e, reg)
      | Inr source \<Rightarrow>
          if \<not> allowedSourceTransition (source_lifecycle (src_record source)) lifecycle
          then (Inl InvalidTransition, reg)
          else case parse_with authoritativeSource_ok RuleSchemaRejected
                 ((src_record source)\<lparr>source_lifecycle := lifecycle, transition_actor_id := actorId,
                    transition_reason := reason, effective_at := now, reviewed_at := now\<rparr>) of
             Inl e \<Rightarrow> (Inl e, reg)
           | Inr changed \<Rightarrow>
               let reg1 = reg\<lparr>rr_sources := jm_set (versionKey sourceId version)
                              (source\<lparr>src_record := changed\<rparr>) (rr_sources reg)\<rparr>
               in if lifecycle \<in> {Unavailable, Superseded, Withdrawn, Expired}
                  then let (rules, err) = disable_dependents sourceId version (rr_rules reg1);
                           reg2 = reg1\<lparr>rr_rules := rules\<rparr>
                       in (case err of None \<Rightarrow> (Inr changed, reg2) | Some e \<Rightarrow> (Inl e, reg2))
                  else (Inr changed, reg1))"

definition source_usable :: "rule_registry \<Rightarrow> int \<Rightarrow> reference \<Rightarrow> rule_error + source_record" where
  "source_usable reg now r =
     rbind (lookup_source reg (ref_id r) (ref_version r)) (\<lambda>source.
     rbind (check (source_lifecycle (src_record source) \<noteq> Active
                   \<or> source_review_due_at (src_record source) < now) InactiveSource) (\<lambda>_.
     Inr (src_record source)))"

definition registerRule ::
  "rule_registry \<Rightarrow> executable_rule \<Rightarrow> int \<Rightarrow> rule_error + rule_record \<times> rule_registry" where
  "registerRule reg input now =
     rbind (parse_with ruleProfile_ok RuleSchemaRejected (rule_record input)) (\<lambda>record.
     let key = versionKey (rule_id record) (rule_version record) in
     rbind (check (jm_has (rr_rules reg) key) RuleConflict) (\<lambda>_.
     rbind (check (predicates input = []
                   \<or> \<not> distinct (map pred_id (predicates input))) RuleConflict) (\<lambda>_.
     rbind (rmap (\<lambda>sourceRef.
              rbind (source_usable reg now sourceRef) (\<lambda>source.
              check (rule_id record \<notin> set (permitted_rule_ids source)) InactiveSource))
            (source_clauses record)) (\<lambda>_.
     Inr (record, reg\<lparr>rr_rules := jm_set key
            \<lparr>rule_record = record, predicates = predicates input\<rparr> (rr_rules reg)\<rparr>)))))"

record rule_query =
  asOf :: int
  query_jurisdiction :: string
  query_rule_id :: string
  query_scope :: string

definition rule_applies :: "rule_query \<Rightarrow> executable_rule \<Rightarrow> bool" where
  "rule_applies q c =
     (let r = rule_record c in
      rule_id r = query_rule_id q \<and> rule_status r = RuleActive
      \<and> jurisdiction r = query_jurisdiction q \<and> query_scope q \<in> set (subject_scope r)
      \<and> effective_from r \<le> asOf q
      \<and> (case effective_until r of None \<Rightarrow> True | Some u \<Rightarrow> asOf q < u))"

definition selectRule :: "rule_registry \<Rightarrow> rule_query \<Rightarrow> rule_error + executable_rule" where
  "selectRule reg q =
     (let candidates = js_sort (\<lambda>l r. rule_version (rule_record r) - rule_version (rule_record l) \<le> 0)
            (filter (rule_applies q) (jm_values (rr_rules reg)))
      in case candidates of
           [] \<Rightarrow> Inl OutOfScope
         | selected # _ \<Rightarrow>
             rbind (rmap (source_usable reg (asOf q)) (source_clauses (rule_record selected)))
               (\<lambda>_. Inr selected))"

fun evaluatePredicate :: "executable_predicate \<Rightarrow> fact option \<Rightarrow> rule_error + tri" where
  "evaluatePredicate p None = Inr UNKNOWN"
| "evaluatePredicate p (Some value) =
     (if pred_operator p = OpPresent then Inr (if value = BoolFact False then FAIL else PASS)
      else case threshold p of
        None \<Rightarrow> Inr UNKNOWN
      | Some t \<Rightarrow>
          if pred_operator p = OpEq then Inr (if value = t then PASS else FAIL)
          else (case (value, t) of
             (TextFact v, TextFact w) \<Rightarrow>
               rbind (map_error RuleDecimal (decimal_parse v)) (\<lambda>a.
               rbind (map_error RuleDecimal (decimal_parse w)) (\<lambda>b.
               rbind (map_error RuleDecimal (decimal_compare a b)) (\<lambda>comparison.
               Inr (if pred_operator p = OpGte then if comparison \<ge> 0 then PASS else FAIL
                    else if comparison \<le> 0 then PASS else FAIL))))
           | _ \<Rightarrow> Inr UNKNOWN))"

definition show_tri :: "tri \<Rightarrow> string" where
  "show_tri t = (case t of FAIL \<Rightarrow> ''FAIL'' | PASS \<Rightarrow> ''PASS'' | UNKNOWN \<Rightarrow> ''UNKNOWN'')"

definition evaluate_rule ::
  "executable_rule \<Rightarrow> (string \<Rightarrow> fact option) \<Rightarrow> rule_error + rule_evaluation" where
  "evaluate_rule profile facts =
     rbind (rmap (\<lambda>p. rbind (evaluatePredicate p (facts (pred_field p))) (\<lambda>state.
              Inr (pred_id p, state))) (predicates profile)) (\<lambda>results.
     let critical = zip (map pred_critical (predicates profile)) (map snd results);
         outcome = (if list_ex (\<lambda>(c, s). c \<and> s = FAIL) critical then FAIL
                    else if list_ex (\<lambda>(c, s). c \<and> s = UNKNOWN) critical then UNKNOWN else PASS)
     in Inr \<lparr>eval_outcome = outcome, predicateResults = results,
          eval_reason_codes = map (\<lambda>(i, s). ''RULE_'' @ show_tri s @ ''_'' @ i)
            (filter (\<lambda>(i, s). s \<noteq> PASS) results),
          eval_rule = \<lparr>ref_id = rule_id (rule_record profile),
            ref_version = rule_version (rule_record profile)\<rparr>,
          eval_sources = source_clauses (rule_record profile)\<rparr>)"

subsection \<open>The registry invariant\<close>

definition source_active_in :: "(string, registered_source) jmap \<Rightarrow> reference \<Rightarrow> bool" where
  "source_active_in sources r =
     (case jm_get sources (versionKey (ref_id r) (ref_version r)) of
        None \<Rightarrow> False | Some s \<Rightarrow> source_lifecycle (src_record s) = Active)"

definition sources_ok :: "(string, registered_source) jmap \<Rightarrow> bool" where
  "sources_ok m = (jm_ok m \<and> (\<forall>(k, s) \<in> set m.
     k = versionKey (source_id (src_record s)) (source_version (src_record s))
     \<and> authoritativeSource_ok (src_record s)))"

definition rules_ok :: "(string, registered_source) jmap \<Rightarrow> (string, executable_rule) jmap \<Rightarrow> bool" where
  "rules_ok sources m = (jm_ok m \<and> (\<forall>(k, c) \<in> set m.
     k = versionKey (rule_id (rule_record c)) (rule_version (rule_record c))
     \<and> ruleProfile_ok (rule_record c)
     \<and> (rule_status (rule_record c) = RuleActive
          \<longrightarrow> list_all (source_active_in sources) (source_clauses (rule_record c)))))"

definition registry_inv :: "rule_registry \<Rightarrow> bool" where
  "registry_inv reg = (sources_ok (rr_sources reg) \<and> rules_ok (rr_sources reg) (rr_rules reg))"

datatype registry_op =
  RegisterSource registered_source
  | TransitionSource string int lifecycle string string int
  | RegisterRule executable_rule int

fun registry_step :: "rule_registry \<Rightarrow> registry_op \<Rightarrow> rule_registry" where
  "registry_step reg (RegisterSource s) =
     (case registerSource reg s of Inl e \<Rightarrow> reg | Inr (r, reg') \<Rightarrow> reg')"
| "registry_step reg (TransitionSource sid v l actor reason now) =
     snd (transitionSource reg sid v l actor reason now)"
| "registry_step reg (RegisterRule c now) =
     (case registerRule reg c now of Inl e \<Rightarrow> reg | Inr (r, reg') \<Rightarrow> reg')"

lemma registry_inv_empty: "registry_inv empty_registry"
  by (simp add: registry_inv_def empty_registry_def sources_ok_def rules_ok_def)

lemma sources_ok_get:
  "sources_ok m \<Longrightarrow> jm_get m (versionKey i v) = Some s
     \<Longrightarrow> source_id (src_record s) = i \<and> source_version (src_record s) = v
       \<and> authoritativeSource_ok (src_record s)"
  by (fastforce simp: sources_ok_def jm_get_in_set versionKey_inj)

lemma sources_ok_set:
  assumes "sources_ok m" and "source_id (src_record s) = i" and "source_version (src_record s) = v"
    and "authoritativeSource_ok (src_record s)"
  shows "sources_ok (jm_set (versionKey i v) s m)"
  using assms set_jm_set [of "versionKey i v" s m]
  by (fastforce simp: sources_ok_def jm_ok_set)

text \<open>Rules stay good when the sources they cite stay active.\<close>

lemma rules_ok_sources:
  assumes "rules_ok sources m"
    and "\<And>k c r. (k, c) \<in> set m \<Longrightarrow> rule_status (rule_record c) = RuleActive
      \<Longrightarrow> r \<in> set (source_clauses (rule_record c)) \<Longrightarrow> source_active_in sources r
      \<Longrightarrow> source_active_in sources' r"
  shows "rules_ok sources' m"
  using assms unfolding rules_ok_def list_all_iff by fast

lemma source_active_in_other:
  "ref_id r \<noteq> i \<or> ref_version r \<noteq> v \<Longrightarrow>
   source_active_in (jm_set (versionKey i v) s m) r = source_active_in m r"
  by (auto simp: source_active_in_def jm_get_set versionKey_inj)

lemma source_active_in_set:
  "source_lifecycle (src_record s) = Active \<Longrightarrow> source_active_in m r
     \<Longrightarrow> source_active_in (jm_set k s m) r"
  by (auto simp: source_active_in_def jm_get_set split: option.splits)

lemma source_active_in_new:
  "jm_get m k = None \<Longrightarrow> source_active_in m r \<Longrightarrow> source_active_in (jm_set k s m) r"
  by (auto simp: source_active_in_def jm_get_set split: option.splits)

lemma registerSource_inv:
  assumes "registry_inv reg" and "registerSource reg s = Inr (r, reg')"
  shows "registry_inv reg'"
proof -
  let ?i = "source_id (src_record s)" and ?v = "source_version (src_record s)"
  have ok: "authoritativeSource_ok (src_record s)"
    and new: "jm_get (rr_sources reg) (versionKey ?i ?v) = None"
    and reg': "reg' = reg\<lparr>rr_sources := jm_set (versionKey ?i ?v) s (rr_sources reg)\<rparr>"
    using assms(2) by (auto simp: registerSource_def Let_def outcome_simps jm_has_def)
  have "rules_ok (jm_set (versionKey ?i ?v) s (rr_sources reg)) (rr_rules reg)"
    using assms(1) new by (auto simp: registry_inv_def intro: rules_ok_sources source_active_in_new)
  with assms(1) ok show ?thesis
    by (auto simp: registry_inv_def reg' intro: sources_ok_set)
qed

lemma source_usable_active:
  "source_usable reg now r = Inr s \<Longrightarrow> source_active_in (rr_sources reg) r"
  by (auto simp: source_usable_def lookup_source_def source_active_in_def outcome_simps)

lemma registerRule_inv:
  assumes "registry_inv reg" and "registerRule reg c now = Inr (r, reg')"
  shows "registry_inv reg'"
proof -
  let ?r = "rule_record c"
  let ?c = "\<lparr>rule_record = ?r, predicates = predicates c\<rparr>"
  let ?k = "versionKey (rule_id ?r) (rule_version ?r)"
  obtain us where ok: "ruleProfile_ok ?r"
    and us: "rmap (\<lambda>sourceRef. rbind (source_usable reg now sourceRef) (\<lambda>source.
              check (rule_id ?r \<notin> set (permitted_rule_ids source)) InactiveSource))
            (source_clauses ?r) = Inr us"
    and reg': "reg' = reg\<lparr>rr_rules := jm_set ?k ?c (rr_rules reg)\<rparr>"
    using assms(2) by (auto simp: registerRule_def Let_def outcome_simps)
  have "source_active_in (rr_sources reg) x" if x: "x \<in> set (source_clauses ?r)" for x
  proof -
    obtain i where "i < length (source_clauses ?r)" "x = source_clauses ?r ! i"
      using x by (metis in_set_conv_nth)
    with rmap_Inr_nth [OF us] show ?thesis
      by (auto simp: outcome_simps dest: source_usable_active)
  qed
  then have "list_all (source_active_in (rr_sources reg)) (source_clauses ?r)"
    by (simp add: list_all_iff)
  with ok assms(1) set_jm_set [of ?k ?c "rr_rules reg"] show ?thesis
    unfolding registry_inv_def reg' rules_ok_def by (fastforce simp: jm_ok_set)
qed

definition disable_rule :: "string \<Rightarrow> int \<Rightarrow> executable_rule \<Rightarrow> executable_rule" where
  "disable_rule sid v c =
     (if uses_source sid v c \<and> rule_status (rule_record c) = RuleActive
      then c\<lparr>rule_record := (rule_record c)\<lparr>rule_status := RuleDisabled\<rparr>\<rparr> else c)"

lemma disable_dependents_spec:
  assumes "\<forall>(k, c) \<in> set m. ruleProfile_ok (rule_record c)"
  shows "disable_dependents sid v m = (jm_map (\<lambda>k. disable_rule sid v) m, None)"
  using assms
  by (induction sid v m rule: disable_dependents.induct)
    (auto simp: parse_with_def ruleProfile_ok_status Let_def jm_map_def disable_rule_def)

lemma disable_rule_facts:
  "rule_id (rule_record (disable_rule sid v c)) = rule_id (rule_record c)"
  "rule_version (rule_record (disable_rule sid v c)) = rule_version (rule_record c)"
  "source_clauses (rule_record (disable_rule sid v c)) = source_clauses (rule_record c)"
  "ruleProfile_ok (rule_record (disable_rule sid v c)) = ruleProfile_ok (rule_record c)"
  "rule_status (rule_record (disable_rule sid v c)) = RuleActive \<longleftrightarrow>
     rule_status (rule_record c) = RuleActive \<and> \<not> uses_source sid v c"
  by (auto simp: disable_rule_def ruleProfile_ok_status)

lemma rules_ok_disabled:
  assumes "rules_ok sources m"
    and "\<And>r. source_active_in sources r \<Longrightarrow> ref_id r \<noteq> sid \<or> ref_version r \<noteq> v
      \<Longrightarrow> source_active_in sources' r"
  shows "rules_ok sources' (jm_map (\<lambda>k. disable_rule sid v) m)"
proof -
  have "k = versionKey (rule_id (rule_record c)) (rule_version (rule_record c))
      \<and> ruleProfile_ok (rule_record c)
      \<and> (rule_status (rule_record c) = RuleActive
           \<longrightarrow> list_all (source_active_in sources') (source_clauses (rule_record c)))"
    if kc: "(k, c) \<in> set (jm_map (\<lambda>k. disable_rule sid v) m)" for k c
  proof -
    obtain d where d: "(k, d) \<in> set m" "c = disable_rule sid v d"
      using kc by (auto simp: jm_map_def)
    then have old: "k = versionKey (rule_id (rule_record d)) (rule_version (rule_record d))"
      "ruleProfile_ok (rule_record d)"
      "rule_status (rule_record d) = RuleActive
         \<longrightarrow> list_all (source_active_in sources) (source_clauses (rule_record d))"
      using assms(1) by (auto simp: rules_ok_def)
    moreover have "list_all (source_active_in sources') (source_clauses (rule_record d))"
      if "list_all (source_active_in sources) (source_clauses (rule_record d))" "\<not> uses_source sid v d"
      using that assms(2) by (auto simp: list_all_iff list_ex_iff uses_source_def)
    ultimately show ?thesis by (simp add: d(2) disable_rule_facts)
  qed
  with assms(1) show ?thesis by (auto simp: rules_ok_def)
qed

lemma transitionSource_inv:
  assumes inv: "registry_inv reg"
  shows "registry_inv (snd (transitionSource reg sid v l actor reason now))"
proof (cases "lookup_source reg sid v")
  case (Inr s)
  let ?r = "(src_record s)\<lparr>source_lifecycle := l, transition_actor_id := actor,
    transition_reason := reason, effective_at := now, reviewed_at := now\<rparr>"
  let ?s = "s\<lparr>src_record := ?r\<rparr>"
  let ?sources = "jm_set (versionKey sid v) ?s (rr_sources reg)"
  show ?thesis
  proof (cases "allowedSourceTransition (source_lifecycle (src_record s)) l \<and> authoritativeSource_ok ?r")
    case True
    have get: "jm_get (rr_sources reg) (versionKey sid v) = Some s"
      using Inr by (simp add: lookup_source_def outcome_simps)
    have sources: "sources_ok ?sources"
      using inv True sources_ok_get [OF _ get] by (intro sources_ok_set) (auto simp: registry_inv_def)
    have valid: "\<forall>(k, c) \<in> set (rr_rules reg). ruleProfile_ok (rule_record c)"
      using inv by (auto simp: registry_inv_def rules_ok_def)
    have rules: "rules_ok (rr_sources reg) (rr_rules reg)" using inv by (simp add: registry_inv_def)
    show ?thesis
    proof (cases "l \<in> {Unavailable, Superseded, Withdrawn, Expired}")
      case gone: True
      have "rules_ok ?sources (fst (disable_dependents sid v (rr_rules reg)))"
        unfolding disable_dependents_spec [OF valid] fst_conv
        by (rule rules_ok_disabled [OF rules]) (simp add: source_active_in_other)
      with sources gone True Inr disable_dependents_spec [OF valid] show ?thesis
        by (simp add: transitionSource_def parse_with_def Let_def registry_inv_def)
    next
      case False
      with True have "l = Active"
        by (cases "source_lifecycle (src_record s)"; cases l) auto
      then have "rules_ok ?sources (rr_rules reg)"
        by (intro rules_ok_sources [OF rules] source_active_in_set) auto
      with sources True False Inr show ?thesis
        by (simp add: transitionSource_def parse_with_def Let_def registry_inv_def)
    qed
  next
    case False
    with Inr inv show ?thesis by (auto simp: transitionSource_def parse_with_def)
  qed
qed (use inv in \<open>auto simp: transitionSource_def\<close>)

interpretation registry: guarded_system empty_registry registry_step registry_inv
proof
  show "registry_inv empty_registry" by (rule registry_inv_empty)
next
  fix s x
  assume "registry_inv s"
  then show "registry_inv (registry_step s x)"
    by (cases x)
      (auto split: sum.splits prod.splits intro: registerSource_inv registerRule_inv transitionSource_inv)
qed

subsection \<open>Selection\<close>

lemma selectRule_Inr:
  assumes "selectRule reg q = Inr c"
  shows "c \<in> set (jm_values (rr_rules reg)) \<and> rule_applies q c
    \<and> (\<forall>r \<in> set (source_clauses (rule_record c)). \<exists>s. source_usable reg (asOf q) r = Inr s)
    \<and> (\<forall>d \<in> set (jm_values (rr_rules reg)). rule_applies q d
         \<longrightarrow> rule_version (rule_record d) \<le> rule_version (rule_record c))"
proof -
  let ?le = "\<lambda>l r. rule_version (rule_record r) - rule_version (rule_record l) \<le> 0"
  let ?xs = "filter (rule_applies q) (jm_values (rr_rules reg))"
  obtain rest us where srt: "js_sort ?le ?xs = c # rest"
    and us: "rmap (source_usable reg (asOf q)) (source_clauses (rule_record c)) = Inr us"
    using assms by (auto simp: selectRule_def Let_def outcome_simps split: list.splits)
  have "sorted_wrt ?le (js_sort ?le ?xs)" by (rule sorted_wrt_js_sort) auto
  then have newest: "rule_version (rule_record d) \<le> rule_version (rule_record c)"
    if "d = c \<or> d \<in> set rest" for d
    using srt that by auto
  have members: "d \<in> set (jm_values (rr_rules reg)) \<and> rule_applies q d \<longleftrightarrow> d = c \<or> d \<in> set rest" for d
    using srt set_js_sort [of ?le ?xs] by auto
  have usable: "\<exists>s. source_usable reg (asOf q) r = Inr s" if "r \<in> set (source_clauses (rule_record c))" for r
    using rmap_Inr_nth [OF us] that by (metis in_set_conv_nth)
  show ?thesis using members [of c] members newest usable by blast
qed

subsection \<open>Evaluation\<close>

text \<open>What a predicate asserts of a fact, on the rational values of the decimals.\<close>

definition predicate_holds :: "executable_predicate \<Rightarrow> fact \<Rightarrow> bool" where
  "predicate_holds p value =
     (case pred_operator p of
        OpPresent \<Rightarrow> value \<noteq> BoolFact False
      | OpEq \<Rightarrow> threshold p = Some value
      | OpGte \<Rightarrow> (\<exists>v w a b. value = TextFact v \<and> threshold p = Some (TextFact w)
          \<and> decimal_parse v = Inr a \<and> decimal_parse w = Inr b \<and> dec_val a \<ge> dec_val b)
      | OpLte \<Rightarrow> (\<exists>v w a b. value = TextFact v \<and> threshold p = Some (TextFact w)
          \<and> decimal_parse v = Inr a \<and> decimal_parse w = Inr b \<and> dec_val a \<le> dec_val b))"

lemma evaluatePredicate_PASS:
  assumes "evaluatePredicate p f = Inr PASS"
  shows "\<exists>value. f = Some value \<and> predicate_holds p value"
proof (cases f)
  case (Some x)
  have "predicate_holds p x"
  proof (cases "pred_operator p")
    case OpGte
    with assms Some obtain v w a b c where h: "x = TextFact v" "threshold p = Some (TextFact w)"
      "decimal_parse v = Inr a" "decimal_parse w = Inr b" "decimal_compare a b = Inr c" "c \<ge> 0"
      by (auto simp: outcome_simps split: option.splits fact.splits if_splits)
    then have "dec_val a \<ge> dec_val b" using decimal_compare_val [OF h(5)] by linarith
    with h OpGte show ?thesis by (auto simp: predicate_holds_def)
  next
    case OpLte
    with assms Some obtain v w a b c where h: "x = TextFact v" "threshold p = Some (TextFact w)"
      "decimal_parse v = Inr a" "decimal_parse w = Inr b" "decimal_compare a b = Inr c" "c \<le> 0"
      by (auto simp: outcome_simps split: option.splits fact.splits if_splits)
    then have "dec_val a \<le> dec_val b" using decimal_compare_val [OF h(5)] by linarith
    with h OpLte show ?thesis by (auto simp: predicate_holds_def)
  qed (use assms Some in \<open>auto simp: predicate_holds_def split: option.splits if_splits\<close>)
  with Some show ?thesis by blast
qed (use assms in simp)

lemma tri_outcome:
  "(if list_ex (\<lambda>(c, s). c \<and> s = FAIL) xs then FAIL
    else if list_ex (\<lambda>(c, s). c \<and> s = UNKNOWN) xs then UNKNOWN else PASS) = PASS
   \<longleftrightarrow> list_all (\<lambda>(c, s). c \<longrightarrow> s = PASS) xs"
proof -
  have "s = PASS \<longleftrightarrow> s \<noteq> FAIL \<and> s \<noteq> UNKNOWN" for s by (cases s) auto
  then show ?thesis by (auto simp: list_ex_iff list_all_iff)
qed

lemma evaluate_rule_results:
  assumes "evaluate_rule profile facts = Inr e"
  shows "list_all2 (\<lambda>p (i, s). i = pred_id p \<and> evaluatePredicate p (facts (pred_field p)) = Inr s)
      (predicates profile) (predicateResults e)"
    and "eval_outcome e = PASS \<longleftrightarrow> (\<forall>(p, i, s) \<in> set (zip (predicates profile) (predicateResults e)).
      pred_critical p \<longrightarrow> s = PASS)"
proof -
  obtain results where r: "rmap (\<lambda>p. rbind (evaluatePredicate p (facts (pred_field p))) (\<lambda>state.
      Inr (pred_id p, state))) (predicates profile) = Inr results" and e: "predicateResults e = results"
    and out: "eval_outcome e =
      (let critical = zip (map pred_critical (predicates profile)) (map snd results)
       in if list_ex (\<lambda>(c, s). c \<and> s = FAIL) critical then FAIL
          else if list_ex (\<lambda>(c, s). c \<and> s = UNKNOWN) critical then UNKNOWN else PASS)"
    using assms by (auto simp: evaluate_rule_def outcome_simps Let_def)
  show "list_all2 (\<lambda>p (i, s). i = pred_id p \<and> evaluatePredicate p (facts (pred_field p)) = Inr s)
      (predicates profile) (predicateResults e)"
    using r unfolding rmap_Inr_iff e by (rule list_all2_mono) (auto simp: outcome_simps)
  have "eval_outcome e = PASS \<longleftrightarrow>
      (\<forall>(c, s) \<in> set (zip (map pred_critical (predicates profile)) (map snd results)). c \<longrightarrow> s = PASS)"
    unfolding out Let_def tri_outcome list_all_iff ..
  also have "\<dots> \<longleftrightarrow> (\<forall>(p, i, s) \<in> set (zip (predicates profile) results). pred_critical p \<longrightarrow> s = PASS)"
    by (fastforce simp: zip_map1 zip_map2)
  finally show "eval_outcome e = PASS \<longleftrightarrow>
      (\<forall>(p, i, s) \<in> set (zip (predicates profile) (predicateResults e)). pred_critical p \<longrightarrow> s = PASS)"
    unfolding e .
qed

end
