(* ===== verification/Assessment.thy ===== *)
theory Assessment
  imports Rules
begin

text \<open>
  \<open>RouteAssessmentService\<close> of \<open>src/decision/assessment.ts\<close>: the deterministic comparison of the
  three second-life routes. One definition per function of the file, in the order in which
  \<open>assess\<close> calls them. Two things are parameters. \<open>localeLe\<close> is the collation order of
  \<open>localeCompare\<close>, which the runtime decides. A \<open>digests\<close> record holds the two SHA-256 values over
  canonical JSON, which third-party code renders. Numbers of the inputs (ratings, ranks, periods)
  are integers.
\<close>

datatype assessment_error =
  CurrencyMismatch | CalculationInputMismatch | DuplicateInput | FunctionalUnitMismatch
  | InvalidInput | RouteMismatch | ScenarioMismatch | UnitMismatch | WeightSum
  | AssessDecimal decimal_error | AssessSchemaRejected | AssessTypeError

record circularity_criterion =
  criterion_id :: string
  rating :: "int option"
  weight :: string

record environmental_term =
  category :: string
  factor :: string
  flow :: string
  recovered :: bool
  quantity :: string
  resultUnit :: string

record cash_flow =
  flow_amount :: string
  period :: int

record economic_scenario =
  cashFlows :: "cash_flow list"
  currency :: string
  discountRate :: string
  initialInvestment :: string

record evidence_field =
  authorized :: bool
  conflicting :: bool
  critical :: bool
  current :: bool
  field :: string
  present :: bool
  revoked :: bool
  verified :: bool

record uncertainty_scenario =
  gate :: tri
  scenario_id :: string
  routeRank :: "int option"

record route_input =
  circularity :: "circularity_criterion list"
  economics :: economic_scenario
  environmental :: "environmental_term list"
  evidence :: "evidence_field list"
  functionalUnit :: string
  input_routeId :: formal_route
  ruleEvaluation :: rule_evaluation
  uncertaintyScenarios :: "uncertainty_scenario list"
  uncertaintyPercentiles :: "percentile_point list option"

record circularity_result =
  C_lower :: string
  C_upper :: string
  C_value :: "string option"

record indicator =
  ind_category :: string
  ind_unit :: string
  ind_value :: string

record economic_result =
  E_currency :: string
  netPresentValue :: string
  paybackPeriod :: "int option"

datatype weakest_verification = VMissing | VUnverified | VVerified

record adequacy_result =
  coverage :: string
  verifiedFraction :: string
  freshnessFraction :: string
  conflictCount :: nat
  missingCritical :: "string list"
  weakestCriticalVerification :: weakest_verification

record uncertainty_result =
  gatePassFrequency :: string
  rankStable :: bool
  scenarioCount :: nat
  percentiles :: "percentile_point list"

record route_result =
  routeId :: formal_route
  res_G :: tri
  res_C :: circularity_result
  res_I :: "indicator list"
  res_E :: economic_result
  res_A :: adequacy_result
  res_U :: uncertainty_result
  reasonCodes :: "string list"

datatype decision_state = Answer | Abstain | RequiresExternalDecision

record unsigned_assessment =
  assessmentInputId :: string
  assessmentInputVersion :: int
  decisionState :: decision_state
  preferredRoute :: "formal_route option"
  dominance :: "(formal_route \<times> formal_route) list"
  routes :: "route_result list"
  warnings :: "string list"

record assessment_result = unsigned_assessment +
  reproductionHash :: digest

record digests =
  calculationDigest :: "route_input list \<Rightarrow> string"
  reproductionDigest :: "assessment_basis \<Rightarrow> route_input list \<Rightarrow> unsigned_assessment \<Rightarrow> string"

definition sha256_digest :: "string \<Rightarrow> digest" where
  "sha256_digest v = \<lparr>digest_alg = ''SHA-256'', digest_value = v\<rparr>"

subsection \<open>Shared helpers\<close>

abbreviation dec :: "decimal_error + 'a \<Rightarrow> assessment_error + 'a" where
  "dec \<equiv> map_error AssessDecimal"

abbreviation dec_of_int :: "int \<Rightarrow> assessment_error + exact_decimal" where
  "dec_of_int n \<equiv> dec (decimal_fromInteger (NumberArg (Some n)))"

definition fraction_of :: "int \<Rightarrow> int \<Rightarrow> assessment_error + string" where
  "fraction_of numerator denominator =
     (if denominator = 0 then Inr ''0''
      else rbind (dec_of_int numerator) (\<lambda>n.
           rbind (dec_of_int denominator) (\<lambda>d.
           rbind (dec (decimal_divide n d 6)) (\<lambda>q. Inr (decimal_toCanonical q)))))"

definition compare_text :: "string \<Rightarrow> string \<Rightarrow> assessment_error + int" where
  "compare_text s t =
     rbind (dec (decimal_parse s)) (\<lambda>a. rbind (dec (decimal_parse t)) (\<lambda>b. dec (decimal_compare a b)))"

definition ranks_of :: "uncertainty_scenario list \<Rightarrow> int list" where
  "ranks_of scenarios = List.map_filter routeRank scenarios"

subsection \<open>Circularity\<close>

definition normalize_circularity :: "exact_decimal \<Rightarrow> assessment_error + string" where
  "normalize_circularity weighted =
     rbind (dec_of_int 1) (\<lambda>one.
     rbind (dec (decimal_subtract weighted one)) (\<lambda>x.
     rbind (dec_of_int 100) (\<lambda>hundred.
     rbind (dec (decimal_multiply x hundred)) (\<lambda>y.
     rbind (dec_of_int 4) (\<lambda>four.
     rbind (dec (decimal_divide y four 6)) (\<lambda>z. Inr (decimal_toCanonical z)))))))"

definition total_weight :: "circularity_criterion list \<Rightarrow> assessment_error + exact_decimal" where
  "total_weight criteria =
     rbind (dec_of_int 0) (\<lambda>zero.
     rfold (\<lambda>total c. rbind (dec (decimal_parse (weight c))) (\<lambda>w. dec (decimal_add total w)))
       zero criteria)"

definition weighted_rating ::
  "int \<Rightarrow> exact_decimal \<Rightarrow> circularity_criterion \<Rightarrow> assessment_error + exact_decimal" where
  "weighted_rating dflt acc c =
     rbind (dec (decimal_parse (weight c))) (\<lambda>w.
     rbind (dec_of_int (case rating c of None \<Rightarrow> dflt | Some r \<Rightarrow> r)) (\<lambda>r.
     rbind (dec (decimal_multiply w r)) (\<lambda>p. dec (decimal_add acc p))))"

definition circularityScore :: "circularity_criterion list \<Rightarrow> assessment_error + circularity_result" where
  "circularityScore criteria =
     rbind (check (length criteria = 0
              \<or> length (js_set (map criterion_id criteria)) \<noteq> length criteria) DuplicateInput) (\<lambda>_.
     rbind (total_weight criteria) (\<lambda>totalWeight.
     rbind (dec_of_int 1) (\<lambda>one.
     rbind (dec (decimal_compare totalWeight one)) (\<lambda>cmp.
     rbind (check (cmp \<noteq> 0) WeightSum) (\<lambda>_.
     rbind (dec_of_int 0) (\<lambda>zero.
     rbind (rfold (\<lambda>(lower, upper) c.
              rbind (weighted_rating 1 lower c) (\<lambda>l.
              rbind (weighted_rating 5 upper c) (\<lambda>u. Inr (l, u)))) (zero, zero) criteria) (\<lambda>(lower, upper).
     rbind (normalize_circularity lower) (\<lambda>lo.
     rbind (normalize_circularity upper) (\<lambda>up.
     Inr \<lparr>C_lower = lo, C_upper = up,
          C_value = (if list_all (\<lambda>c. rating c \<noteq> None) criteria then Some lo else None)\<rparr>)))))))))"

subsection \<open>Environmental indicators\<close>

definition signed_contribution :: "bool \<Rightarrow> exact_decimal \<Rightarrow> assessment_error + exact_decimal" where
  "signed_contribution isRecovered c =
     (if isRecovered then rbind (dec_of_int 0) (\<lambda>zero. dec (decimal_subtract zero c)) else Inr c)"

definition add_environmental_term ::
  "(string, exact_decimal \<times> string) jmap \<Rightarrow> environmental_term
     \<Rightarrow> assessment_error + (string, exact_decimal \<times> string) jmap" where
  "add_environmental_term categories trm =
     rbind (dec (decimal_parse (quantity trm))) (\<lambda>q.
     rbind (dec (decimal_parse (factor trm))) (\<lambda>f.
     rbind (dec (decimal_multiply q f)) (\<lambda>contribution.
     let prior = jm_get categories (category trm) in
     rbind (check (case prior of None \<Rightarrow> False | Some (t, u) \<Rightarrow> u \<noteq> resultUnit trm) UnitMismatch) (\<lambda>_.
     rbind (signed_contribution (recovered trm) contribution) (\<lambda>signed.
     rbind (case prior of None \<Rightarrow> dec_of_int 0 | Some (t, u) \<Rightarrow> Inr t) (\<lambda>total.
     rbind (dec (decimal_add total signed)) (\<lambda>total'.
     Inr (jm_set (category trm) (total', resultUnit trm) categories))))))))"

definition environmentalIndicators ::
  "(string \<Rightarrow> string \<Rightarrow> bool) \<Rightarrow> environmental_term list \<Rightarrow> string \<Rightarrow> assessment_error + indicator list" where
  "environmentalIndicators localeLe terms fu =
     rbind (dec (decimal_parse fu)) (\<lambda>divisor.
     rbind (dec_of_int 0) (\<lambda>zero.
     rbind (dec (decimal_compare divisor zero)) (\<lambda>cmp.
     rbind (check (cmp \<le> 0) InvalidInput) (\<lambda>_.
     rbind (rfold add_environmental_term [] terms) (\<lambda>categories.
     rmap (\<lambda>(cat, total, un).
       rbind (dec (decimal_divide total divisor 6)) (\<lambda>q.
       Inr \<lparr>ind_category = cat, ind_unit = un, ind_value = decimal_toCanonical q\<rparr>))
       (js_sort (\<lambda>l r. localeLe (fst l) (fst r)) categories))))))"

subsection \<open>Economics\<close>

fun discount_power :: "exact_decimal \<Rightarrow> nat \<Rightarrow> exact_decimal \<Rightarrow> decimal_error + exact_decimal" where
  "discount_power denominator 0 base = Inr denominator"
| "discount_power denominator (Suc n) base =
     rbind (decimal_multiply denominator base) (\<lambda>d. discount_power d n base)"

record economic_state =
  npv :: exact_decimal
  cumulative :: exact_decimal
  payback :: "int option"

definition add_cash_flow ::
  "exact_decimal \<Rightarrow> economic_state \<Rightarrow> cash_flow \<Rightarrow> assessment_error + economic_state" where
  "add_cash_flow rate st fl =
     rbind (check (\<not> is_safe_integer (Some (period fl)) \<or> period fl < 1) InvalidInput) (\<lambda>_.
     rbind (dec_of_int 1) (\<lambda>one.
     rbind (dec (decimal_add one rate)) (\<lambda>base.
     rbind (dec (discount_power one (nat (period fl)) base)) (\<lambda>denominator.
     rbind (dec (decimal_parse (flow_amount fl))) (\<lambda>amount.
     rbind (dec (decimal_divide amount denominator 18)) (\<lambda>discounted.
     rbind (dec (decimal_add (npv st) discounted)) (\<lambda>npv'.
     rbind (dec (decimal_add (cumulative st) amount)) (\<lambda>cumulative'.
     rbind (dec_of_int 0) (\<lambda>zero.
     rbind (if payback st = None then dec (decimal_compare cumulative' zero) else Inr (- 1)) (\<lambda>cmp.
     Inr \<lparr>npv = npv', cumulative = cumulative',
          payback = (if payback st = None \<and> cmp \<ge> 0 then Some (period fl) else payback st)\<rparr>))))))))))"

definition economicResult :: "economic_scenario \<Rightarrow> assessment_error + economic_result" where
  "economicResult scenario =
     rbind (check (\<not> currency_ok (currency scenario)) CurrencyMismatch) (\<lambda>_.
     rbind (dec (decimal_parse (discountRate scenario))) (\<lambda>rate.
     rbind (dec_of_int (- 1)) (\<lambda>minusOne.
     rbind (dec (decimal_compare rate minusOne)) (\<lambda>cmp.
     rbind (check (cmp \<le> 0) InvalidInput) (\<lambda>_.
     rbind (dec (decimal_parse (initialInvestment scenario))) (\<lambda>initial.
     let flows = js_sort (\<lambda>l r. period l - period r \<le> 0) (cashFlows scenario) in
     rbind (check (length (js_set (map period flows)) \<noteq> length flows) DuplicateInput) (\<lambda>_.
     rbind (rfold (add_cash_flow rate) \<lparr>npv = initial, cumulative = initial, payback = None\<rparr> flows) (\<lambda>st.
     rbind (dec (decimal_round (npv st) 2)) (\<lambda>rounded.
     Inr \<lparr>E_currency = currency scenario, netPresentValue = decimal_toCanonical rounded,
          paybackPeriod = payback st\<rparr>)))))))))"

subsection \<open>Evidence adequacy\<close>

definition field_usable :: "evidence_field \<Rightarrow> bool" where
  "field_usable f = (present f \<and> authorized f \<and> current f \<and> \<not> revoked f \<and> \<not> conflicting f)"

definition evidenceAdequacy :: "evidence_field list \<Rightarrow> assessment_error + adequacy_result" where
  "evidenceAdequacy items =
     rbind (check (length items = 0 \<or> length (js_set (map field items)) \<noteq> length items) DuplicateInput) (\<lambda>_.
     let usable = filter field_usable items;
         missing = js_sort str_le (map field (filter (\<lambda>item. critical item \<and> item \<notin> set usable) items));
         crit = filter critical items;
         weakest = (if list_ex (\<lambda>item. item \<notin> set usable) crit then VMissing
                    else if list_ex (\<lambda>item. \<not> verified item) crit then VUnverified else VVerified)
     in rbind (fraction_of (int (length usable)) (int (length items))) (\<lambda>cov.
        rbind (fraction_of (int (length (filter verified usable))) (int (length items))) (\<lambda>ver.
        rbind (fraction_of (int (length (filter current items))) (int (length items))) (\<lambda>fresh.
        Inr \<lparr>coverage = cov, verifiedFraction = ver, freshnessFraction = fresh,
             conflictCount = length (filter conflicting items),
             missingCritical = missing, weakestCriticalVerification = weakest\<rparr>))))"

subsection \<open>Uncertainty\<close>

definition check_percentile ::
  "exact_decimal option \<times> percentile_point list \<Rightarrow> percentile_point
     \<Rightarrow> assessment_error + exact_decimal option \<times> percentile_point list" where
  "check_percentile st point =
     (case st of (prior, acc) \<Rightarrow>
     rbind (dec (decimal_parse (probability point))) (\<lambda>p.
     rbind (dec_of_int 0) (\<lambda>zero.
     rbind (dec (decimal_compare p zero)) (\<lambda>c0.
     rbind (check (c0 < 0) InvalidInput) (\<lambda>_.
     rbind (dec_of_int 1) (\<lambda>one.
     rbind (dec (decimal_compare p one)) (\<lambda>c1.
     rbind (check (c1 > 0) InvalidInput) (\<lambda>_.
     rbind (case prior of None \<Rightarrow> Inr 1 | Some q \<Rightarrow> dec (decimal_compare p q)) (\<lambda>cp.
     rbind (check (prior \<noteq> None \<and> cp \<le> 0) InvalidInput) (\<lambda>_.
     rbind (dec (decimal_parse (percentile_value point))) (\<lambda>v.
     Inr (Some p, acc @ [\<lparr>probability = decimal_toCanonical p,
       percentile_value = decimal_toCanonical v\<rparr>]))))))))))))"

definition validatePercentiles :: "percentile_point list \<Rightarrow> assessment_error + percentile_point list" where
  "validatePercentiles points = rbind (rfold check_percentile (None, []) points) (\<lambda>(p, acc). Inr acc)"

definition ranks_stable :: "uncertainty_scenario list \<Rightarrow> bool" where
  "ranks_stable scenarios =
     (let passCount = length (filter (\<lambda>s. gate s = PASS) scenarios); ranks = ranks_of scenarios
      in passCount = length scenarios \<and> length ranks > 0 \<and> length ranks = length scenarios
         \<and> list_all (\<lambda>r. r = ranks ! 0) ranks)"

subsection \<open>One route\<close>

definition technical_gate :: "tri \<Rightarrow> bool \<Rightarrow> tri" where
  "technical_gate outcome criticalEvidenceUnknown =
     (if outcome = FAIL then FAIL
      else if outcome = UNKNOWN \<or> criticalEvidenceUnknown then UNKNOWN else PASS)"

definition assessRoute ::
  "(string \<Rightarrow> string \<Rightarrow> bool) \<Rightarrow> route_input \<Rightarrow> assessment_error + route_result" where
  "assessRoute localeLe input =
     rbind (evidenceAdequacy (evidence input)) (\<lambda>adequacy.
     let criticalEvidenceUnknown = length (missingCritical adequacy) > 0;
         g = technical_gate (eval_outcome (ruleEvaluation input)) criticalEvidenceUnknown in
     rbind (circularityScore (circularity input)) (\<lambda>circ.
     rbind (environmentalIndicators localeLe (environmental input) (functionalUnit input)) (\<lambda>env.
     rbind (economicResult (economics input)) (\<lambda>econ.
     let scenarios = uncertaintyScenarios input;
         passCount = length (filter (\<lambda>s. gate s = PASS) scenarios) in
     rbind (fraction_of (int passCount) (int (length scenarios))) (\<lambda>freq.
     rbind (validatePercentiles (case uncertaintyPercentiles input of None \<Rightarrow> [] | Some p \<Rightarrow> p)) (\<lambda>pct.
     let stable = ranks_stable scenarios in
     Inr \<lparr>routeId = input_routeId input, res_G = g, res_C = circ, res_I = env, res_E = econ, res_A = adequacy,
          res_U = \<lparr>gatePassFrequency = freq, rankStable = stable, scenarioCount = length scenarios,
               percentiles = pct\<rparr>,
          reasonCodes = eval_reason_codes (ruleEvaluation input)
            @ (if criticalEvidenceUnknown then [''CRITICAL_EVIDENCE_UNKNOWN''] else [])
            @ (if g = FAIL then [''TECHNICAL_GATE_FAILED''] else [])
            @ (if passCount < length scenarios then [''SCENARIO_GATE_NOT_PASSED''] else [])
            @ (if \<not> stable then [''RANK_UNSTABLE''] else [])\<rparr>))))))"

subsection \<open>Comparing routes\<close>

definition validateEnvironmentalResultUnits :: "route_result list \<Rightarrow> assessment_error + unit" where
  "validateEnvironmentalResultUnits rs =
     rbind (rfold (\<lambda>units ind.
              let prior = jm_get units (ind_category ind) in
              rbind (check (case prior of None \<Rightarrow> False | Some u \<Rightarrow> u \<noteq> ind_unit ind) UnitMismatch) (\<lambda>_.
              Inr (jm_set (ind_category ind) (ind_unit ind) units))) [] (concat (map res_I rs))) (\<lambda>_. Inr ())"

definition scenario_ids :: "route_input \<Rightarrow> assessment_error + string list" where
  "scenario_ids r =
     (let ids = map scenario_id (uncertaintyScenarios r) in
      rbind (check (length (js_set ids) \<noteq> length ids) DuplicateInput) (\<lambda>_. Inr (js_sort str_le ids)))"

definition rank_in_scenario :: "string \<Rightarrow> route_input \<Rightarrow> int option" where
  "rank_in_scenario sid r =
     Option.bind (find (\<lambda>s. scenario_id s = sid) (uncertaintyScenarios r)) routeRank"

definition complete_ranking :: "int option list \<Rightarrow> bool" where
  "complete_ranking ranks =
     (None \<in> set ranks
      \<or> js_sort (\<lambda>a b. a - b \<le> 0) (map the ranks) = map int [1..<length ranks + 1])"

definition validateUncertaintyScenarioComparability :: "route_input list \<Rightarrow> assessment_error + unit" where
  "validateUncertaintyScenarioComparability rs =
     rbind (rmap scenario_ids rs) (\<lambda>scenarioSets.
     let reference = (case scenarioSets of [] \<Rightarrow> [] | r # _ \<Rightarrow> r) in
     rbind (check (list_ex (\<lambda>ids. ids \<noteq> reference) scenarioSets) ScenarioMismatch) (\<lambda>_.
     check (list_ex (\<lambda>sid. \<not> complete_ranking (map (rank_in_scenario sid) rs)) reference) InvalidInput))"

definition validateUncertaintyScenarioRankValues :: "route_input list \<Rightarrow> assessment_error + unit" where
  "validateUncertaintyScenarioRankValues rs =
     check (list_ex (\<lambda>s. (routeRank s \<noteq> None \<and> (\<not> is_safe_integer (routeRank s) \<or> the (routeRank s) \<le> 0))
              \<or> (gate s \<noteq> PASS \<and> routeRank s \<noteq> None))
            (concat (map uncertaintyScenarios rs))) InvalidInput"

definition environmentalCategoriesSharedBy :: "route_result list \<Rightarrow> string list" where
  "environmentalCategoriesSharedBy rs =
     (case rs of [] \<Rightarrow> []
      | first # rest \<Rightarrow> js_sort str_le
          (filter (\<lambda>c. list_all (\<lambda>r. c \<in> set (map ind_category (res_I r))) rest)
            (js_set (map ind_category (res_I first)))))"

definition hasNonSharedEnvironmentalCategories :: "route_result list \<Rightarrow> string list \<Rightarrow> bool" where
  "hasNonSharedEnvironmentalCategories rs shared =
     (length (js_set (concat (map (\<lambda>r. map ind_category (res_I r)) rs))) > length shared)"

definition shared_impacts ::
  "string list \<Rightarrow> route_result \<Rightarrow> assessment_error + (string, exact_decimal) jmap" where
  "shared_impacts shared r =
     rfold (\<lambda>m ind. rbind (dec (decimal_parse (ind_value ind))) (\<lambda>v. Inr (jm_set (ind_category ind) v m)))
       [] (filter (\<lambda>ind. ind_category ind \<in> set shared) (res_I r))"

definition compare_impact ::
  "(string, exact_decimal) jmap \<Rightarrow> (string, exact_decimal) jmap \<Rightarrow> string \<Rightarrow> assessment_error + int" where
  "compare_impact l r cat =
     (case (jm_get l cat, jm_get r cat) of
        (Some a, Some b) \<Rightarrow> rbind (dec (decimal_compare a b)) (\<lambda>c. Inr (- c))
      | _ \<Rightarrow> Inl AssessTypeError)"

definition dominance_comparisons ::
  "string list \<Rightarrow> route_result \<Rightarrow> route_result \<Rightarrow> assessment_error + int list" where
  "dominance_comparisons shared left right =
     rbind (shared_impacts shared left) (\<lambda>li.
     rbind (shared_impacts shared right) (\<lambda>ri.
     rbind (compare_text (C_lower (res_C left)) (C_lower (res_C right))) (\<lambda>c.
     rbind (compare_text (coverage (res_A left)) (coverage (res_A right))) (\<lambda>a.
     rbind (compare_text (netPresentValue (res_E left)) (netPresentValue (res_E right))) (\<lambda>e.
     rbind (rmap (compare_impact li ri) shared) (\<lambda>imp. Inr ([c, a, e] @ imp)))))))"

definition dominance_pair ::
  "string list \<Rightarrow> route_result \<times> route_result \<Rightarrow> assessment_error + (formal_route \<times> formal_route) list" where
  "dominance_pair shared p =
     (case p of (left, right) \<Rightarrow>
      if routeId left = routeId right \<or> res_G left \<noteq> PASS \<or> res_G right \<noteq> PASS then Inr []
      else rbind (dominance_comparisons shared left right) (\<lambda>cs.
           Inr (if list_all (\<lambda>v. v \<ge> 0) cs \<and> list_ex (\<lambda>v. v > 0) cs
                then [(routeId left, routeId right)] else [])))"

definition paretoDominance ::
  "route_result list \<Rightarrow> string list \<Rightarrow> assessment_error + (formal_route \<times> formal_route) list" where
  "paretoDominance rs shared =
     rbind (rmap (dominance_pair shared) (List.product rs rs)) (\<lambda>ps. Inr (concat ps))"

subsection \<open>The assessment\<close>

definition check_functional_unit ::
  "decimal_quantity \<Rightarrow> decimal_quantity \<times> route_input \<Rightarrow> assessment_error + unit" where
  "check_functional_unit ref p =
     (case p of (declared, input) \<Rightarrow>
      rbind (compare_text (quantity_value declared) (functionalUnit input)) (\<lambda>c1.
      rbind (check (c1 \<noteq> 0) FunctionalUnitMismatch) (\<lambda>_.
      rbind (compare_text (quantity_value declared) (quantity_value ref)) (\<lambda>c2.
      rbind (check (c2 \<noteq> 0) FunctionalUnitMismatch) (\<lambda>_.
      check (unit_id declared \<noteq> unit_id ref \<or> unit_version declared \<noteq> unit_version ref) UnitMismatch)))))"

definition stable_winner :: "route_input list \<Rightarrow> route_result list \<Rightarrow> formal_route option" where
  "stable_winner inputs results =
     (let ranked = filter (\<lambda>(r, ranks). res_G r = PASS \<and> length ranks > 0)
            (map (\<lambda>(i, r). (r, ranks_of (uncertaintyScenarios i))) (zip inputs results));
          stableWinners = filter (\<lambda>(r, ranks). length ranks > 0 \<and> list_all (\<lambda>k. k = 1) ranks) ranked
      in case stableWinners of [(r, ranks)] \<Rightarrow> Some (routeId r) | _ \<Rightarrow> None)"

definition decide ::
  "route_input list \<Rightarrow> route_result list \<Rightarrow> (formal_route \<times> formal_route) list \<Rightarrow> bool \<Rightarrow> bool
     \<Rightarrow> decision_state \<times> formal_route option \<times> string list" where
  "decide inputs results doms hasShared excludesNonShared =
     (let passResults = filter (\<lambda>r. res_G r = PASS) results;
          allRanksStable = list_all (\<lambda>r. rankStable (res_U r)) passResults;
          stableWinner = stable_winner inputs results;
          undominated = filter (\<lambda>r. routeId r \<notin> set (map snd doms)) passResults;
          uniquelySupportedWinner =
            (if hasShared \<and> stableWinner \<noteq> None \<and> length undominated = 1
                \<and> map routeId undominated = [the stableWinner] then stableWinner else None);
          hasUnknown = list_ex (\<lambda>r. res_G r = UNKNOWN) results;
          hasCriticalConflict = list_ex (\<lambda>i. list_ex (\<lambda>f. conflicting f \<and> critical f) (evidence i)) inputs;
          state = (if hasCriticalConflict then RequiresExternalDecision
                   else if hasUnknown \<or> \<not> allRanksStable \<or> uniquelySupportedWinner = None then Abstain
                   else Answer)
      in (state, if state = Answer then uniquelySupportedWinner else None,
          (if hasUnknown then [''MISSING_OR_INSUFFICIENT_CRITICAL_EVIDENCE''] else [])
          @ (if \<not> allRanksStable \<or> stableWinner = None then [''ROUTE_RANK_UNSTABLE''] else [])
          @ (if stableWinner \<noteq> None \<and> uniquelySupportedWinner = None
             then [''ROUTE_NOT_UNIQUELY_PARETO_SUPPORTED''] else [])
          @ (if \<not> hasShared then [''NO_SHARED_ENVIRONMENTAL_CATEGORY''] else [])
          @ (if excludesNonShared then [''NON_SHARED_ENVIRONMENTAL_CATEGORIES_EXCLUDED''] else [])
          @ (if hasCriticalConflict then [''CRITICAL_EVIDENCE_CONFLICT''] else [])))"

definition unsigned_result ::
  "assessment_basis \<Rightarrow> route_result list \<Rightarrow> (formal_route \<times> formal_route) list
     \<Rightarrow> decision_state \<times> formal_route option \<times> string list \<Rightarrow> unsigned_assessment" where
  "unsigned_result basis results doms d =
     (case d of (state, preferred, warns) \<Rightarrow>
        \<lparr>assessmentInputId = assessment_input_id basis,
         assessmentInputVersion = assessment_input_version basis, decisionState = state,
         preferredRoute = preferred, dominance = doms, routes = results, warnings = warns\<rparr>)"

definition assess_valid ::
  "digests \<Rightarrow> (string \<Rightarrow> string \<Rightarrow> bool) \<Rightarrow> assessment_basis \<Rightarrow> route_input list
     \<Rightarrow> assessment_error + assessment_result" where
  "assess_valid dg localeLe basis routeInputs =
     rbind (check (map input_routeId routeInputs \<noteq> FORMAL_ROUTES
              \<or> map route_id (candidate_routes basis) \<noteq> FORMAL_ROUTES) RouteMismatch) (\<lambda>_.
     let declared = map functional_unit (candidate_routes basis) in
     rbind (rmap (check_functional_unit (hd declared)) (zip declared routeInputs)) (\<lambda>_.
     let calc = sha256_digest (calculationDigest dg routeInputs) in
     rbind (check (digest_alg (calculation_inputs_digest basis) \<noteq> digest_alg calc
              \<or> digest_value (calculation_inputs_digest basis) \<noteq> digest_value calc)
            CalculationInputMismatch) (\<lambda>_.
     rbind (check (length (js_set (map (\<lambda>i. currency (economics i)) routeInputs)) \<noteq> 1) CurrencyMismatch) (\<lambda>_.
     rbind (validateUncertaintyScenarioRankValues routeInputs) (\<lambda>_.
     rbind (rmap (assessRoute localeLe) routeInputs) (\<lambda>results.
     rbind (validateEnvironmentalResultUnits results) (\<lambda>_.
     let passResults = filter (\<lambda>r. res_G r = PASS) results;
         passInputs = map fst (filter (\<lambda>(i, r). res_G r = PASS) (zip routeInputs results)) in
     rbind (validateUncertaintyScenarioComparability passInputs) (\<lambda>_.
     let shared = environmentalCategoriesSharedBy passResults;
         hasShared = (length passResults \<le> 1 \<or> length shared > 0);
         excludes = hasNonSharedEnvironmentalCategories passResults shared in
     rbind (if hasShared then paretoDominance results shared else Inr []) (\<lambda>doms.
     let unsigned = unsigned_result basis results doms (decide routeInputs results doms hasShared excludes)
     in Inr (unsigned_assessment.extend unsigned
               \<lparr>reproductionHash = sha256_digest (reproductionDigest dg basis routeInputs unsigned)\<rparr>))))))))))"

definition assess ::
  "digests \<Rightarrow> (string \<Rightarrow> string \<Rightarrow> bool) \<Rightarrow> assessment_basis \<Rightarrow> route_input list
     \<Rightarrow> assessment_error + assessment_result" where
  "assess dg localeLe basisInput routeInputs =
     rbind (parse_with assessmentInputPayload_ok AssessSchemaRejected basisInput) (\<lambda>basis.
     assess_valid dg localeLe basis routeInputs)"

end
