(* ===== verification/Assessment_Values.thy ===== *)
theory Assessment_Values
  imports Assessment
begin

text \<open>
  What the calculations of one route compute, on rational numbers: the circularity score, the
  environmental indicators, the net present value and the evidence fractions are each a sum or a
  quotient followed by one correct rounding, and the bounds of the score are kept. The facts on
  \<open>assess\<close> itself are in \<open>Assessment_Decision\<close>.
\<close>

subsection \<open>Reading numbers\<close>

definition text_val :: "string \<Rightarrow> rat" where
  "text_val s = (case decimal_parse s of Inl e \<Rightarrow> 0 | Inr d \<Rightarrow> dec_val d)"

text \<open>\<open>denotes s q\<close>: \<open>s\<close> is the canonical text of a decimal of value \<open>q\<close>.\<close>

definition denotes :: "string \<Rightarrow> rat \<Rightarrow> bool" where
  "denotes s q = (\<exists>d. dec_ok d \<and> s = decimal_toCanonical d \<and> dec_val d = q)"

lemma text_val_parse [simp]: "decimal_parse s = Inr d \<Longrightarrow> text_val s = dec_val d"
  by (simp add: text_val_def)

lemma dec_of_int_val: "dec_of_int n = Inr d \<Longrightarrow> dec_ok d \<and> scale d = 0 \<and> dec_val d = of_int n"
  using decimal_fromInteger_val [of "NumberArg (Some n)" d] by (simp add: map_error_Inr_iff)

lemma dec_of_int_Inr: "\<bar>n\<bar> \<le> max_safe_integer \<Longrightarrow> dec_of_int n = Inr \<lparr>coefficient = n, scale = 0\<rparr>"
  by (simp add: decimal_fromInteger_number)

lemma dec_of_int_small [simp]:
  "dec_of_int 0 = Inr \<lparr>coefficient = 0, scale = 0\<rparr>" "dec_of_int 1 = Inr \<lparr>coefficient = 1, scale = 0\<rparr>"
  "dec_of_int 4 = Inr \<lparr>coefficient = 4, scale = 0\<rparr>" "dec_of_int 100 = Inr \<lparr>coefficient = 100, scale = 0\<rparr>"
  "dec_of_int (- 1) = Inr \<lparr>coefficient = - 1, scale = 0\<rparr>"
  by (simp_all add: dec_of_int_Inr max_safe_integer_def del: map_error_simps)

lemma dec_val_int [simp]: "dec_val \<lparr>coefficient = n, scale = 0\<rparr> = of_int n"
  by (simp add: dec_val_def)

lemma coefficient_val: "of_int (coefficient d) = dec_val d * 10 ^ scale d"
  by (simp add: dec_val_def)

lemma abs_coefficient_less:
  assumes "\<bar>dec_val d\<bar> * 10 ^ k < of_int b" and "scale d \<le> k"
  shows "\<bar>coefficient d\<bar> < b"
proof -
  have "(of_int \<bar>coefficient d\<bar> :: rat) = \<bar>dec_val d\<bar> * 10 ^ scale d"
    by (simp add: coefficient_val abs_mult)
  also have "\<dots> \<le> \<bar>dec_val d\<bar> * 10 ^ k"
    using assms(2) by (intro mult_left_mono power_increasing) auto
  finally have "(of_int \<bar>coefficient d\<bar> :: rat) < of_int b" using assms(1) by linarith
  then show ?thesis by (simp only: of_int_less_iff)
qed

text \<open>A rounded value of ordinary size is read back by \<open>parse\<close>.\<close>

lemma parse_toCanonical_bounded:
  assumes "dec_ok d" and "scale d \<le> 6" and "\<bar>dec_val d\<bar> \<le> 10 ^ 20"
  shows "decimal_parse (decimal_toCanonical d) = Inr d"
proof -
  have "\<bar>dec_val d\<bar> * 10 ^ 6 < of_int (10 ^ 38)" using assms(3) by simp
  then have "dec_small d"
    using assms abs_coefficient_less [of d 6 "10 ^ 38"] by (auto simp: dec_small_def)
  then show ?thesis by (rule toCanonical_parse)
qed

lemma add_total:
  assumes "scale a \<le> k" "scale b \<le> k" and "\<bar>dec_val a + dec_val b\<bar> * 10 ^ k < 10 ^ 80"
  shows "\<exists>d. decimal_add a b = Inr d \<and> scale d \<le> k"
proof -
  define sc where "sc = max (scale a) (scale b)"
  define c where "c = coefficient a * power10 (sc - scale a) + coefficient b * power10 (sc - scale b)"
  have sc: "scale a \<le> sc" "scale b \<le> sc" "sc \<le> k" using assms(1,2) by (auto simp: sc_def)
  have "(of_int c :: rat) / 10 ^ sc = dec_val a + dec_val b"
    unfolding c_def of_int_add add_divide_distrib dec_val_align [OF sc(1)] dec_val_align [OF sc(2)]
    by (simp add: dec_val_def)
  then have "(of_int c :: rat) = (dec_val a + dec_val b) * 10 ^ sc" by (simp add: field_simps)
  then have "\<bar>of_int c :: rat\<bar> = \<bar>dec_val a + dec_val b\<bar> * 10 ^ sc" by (simp add: abs_mult)
  also have "\<dots> \<le> \<bar>dec_val a + dec_val b\<bar> * 10 ^ k"
    using sc(3) by (intro mult_left_mono power_increasing) auto
  finally have "(of_int \<bar>c\<bar> :: rat) < of_int (10 ^ 80)" using assms(3) by simp
  then have "\<bar>c\<bar> < 10 ^ 80" by (simp only: of_int_less_iff)
  from create_total [OF this, of sc] obtain d where d: "create c sc = Inr d" by blast
  then have "decimal_add a b = Inr d" by (simp add: decimal_add_def c_def sc_def Let_def)
  with create_spec [OF d] sc(3) show ?thesis by auto
qed

lemma multiply_total:
  assumes "\<bar>dec_val a * dec_val b\<bar> * 10 ^ (scale a + scale b) < 10 ^ 80"
  shows "\<exists>d. decimal_multiply a b = Inr d \<and> scale d \<le> scale a + scale b"
proof -
  have "(of_int \<bar>coefficient a * coefficient b\<bar> :: rat) < of_int (10 ^ 80)"
    using assms by (simp add: dec_val_def power_add abs_mult)
  then have "\<bar>coefficient a * coefficient b\<bar> < 10 ^ 80" by (simp only: of_int_less_iff)
  from create_total [OF this, of "scale a + scale b"] show ?thesis
    using create_spec by (fastforce simp: decimal_multiply_def)
qed

subsection \<open>Circularity\<close>

definition weighted_sum :: "int \<Rightarrow> circularity_criterion list \<Rightarrow> rat" where
  "weighted_sum dflt cs =
     (\<Sum>c\<leftarrow>cs. text_val (weight c) * of_int (case rating c of None \<Rightarrow> dflt | Some r \<Rightarrow> r))"

lemma total_weight_fold:
  assumes "rfold (\<lambda>total c. rbind (dec (decimal_parse (weight c))) (\<lambda>w. dec (decimal_add total w))) t cs = Inr r"
  shows "dec_val r = dec_val t + (\<Sum>c\<leftarrow>cs. text_val (weight c))
    \<and> (\<forall>c\<in>set cs. \<exists>d. decimal_parse (weight c) = Inr d)"
  using assms
proof (induction cs arbitrary: t)
  case (Cons c cs)
  then obtain w u where wu: "decimal_parse (weight c) = Inr w" "decimal_add t w = Inr u"
    and rest: "rfold (\<lambda>total c. rbind (dec (decimal_parse (weight c))) (\<lambda>w. dec (decimal_add total w))) u cs = Inr r"
    by (auto simp: outcome_simps)
  show ?case using Cons.IH [OF rest] wu decimal_add_val [OF wu(2)] by simp
qed simp

lemma total_weight_val:
  "total_weight cs = Inr t \<Longrightarrow> dec_val t = (\<Sum>c\<leftarrow>cs. text_val (weight c))
     \<and> (\<forall>c\<in>set cs. \<exists>d. decimal_parse (weight c) = Inr d)"
  unfolding total_weight_def by (drule iffD1 [OF rbind_Inr_iff]) (auto dest!: total_weight_fold)

lemma weighted_rating_val:
  assumes "weighted_rating dflt acc c = Inr d"
  shows "dec_val d = dec_val acc + weighted_sum dflt [c] \<and> dec_ok d"
proof -
  obtain w r p where *: "decimal_parse (weight c) = Inr w"
    "dec_of_int (case rating c of None \<Rightarrow> dflt | Some r \<Rightarrow> r) = Inr r"
    "decimal_multiply w r = Inr p" "decimal_add acc p = Inr d"
    using assms by (auto simp: weighted_rating_def outcome_simps)
  with dec_of_int_val [OF this(2)] decimal_multiply_val [OF this(3)] decimal_add_val [OF this(4)]
  show ?thesis by (simp add: weighted_sum_def)
qed

lemma weighted_ratings_fold:
  assumes "rfold (\<lambda>(lower, upper) c.
              rbind (weighted_rating 1 lower c) (\<lambda>l.
              rbind (weighted_rating 5 upper c) (\<lambda>u. Inr (l, u)))) (a, b) cs = Inr (lower, upper)"
  shows "dec_val lower = dec_val a + weighted_sum 1 cs \<and> dec_val upper = dec_val b + weighted_sum 5 cs"
  using assms
proof (induction cs arbitrary: a b)
  case (Cons c cs)
  then obtain l u where lu: "weighted_rating 1 a c = Inr l" "weighted_rating 5 b c = Inr u"
    and rest: "rfold (\<lambda>(lower, upper) c.
              rbind (weighted_rating 1 lower c) (\<lambda>l.
              rbind (weighted_rating 5 upper c) (\<lambda>u. Inr (l, u)))) (l, u) cs = Inr (lower, upper)"
    by (auto simp: outcome_simps)
  show ?case
    using Cons.IH [OF rest] weighted_rating_val [OF lu(1)] weighted_rating_val [OF lu(2)]
    by (simp add: weighted_sum_def)
qed (simp add: weighted_sum_def)

lemma normalize_circularity_val:
  assumes "normalize_circularity w = Inr s"
  shows "\<exists>d. dec_ok d \<and> scale d \<le> 6 \<and> s = decimal_toCanonical d
    \<and> rounded_to 6 ((dec_val w - 1) * 25) (dec_val d)"
proof -
  obtain x y z where xyz: "decimal_subtract w \<lparr>coefficient = 1, scale = 0\<rparr> = Inr x"
    "decimal_multiply x \<lparr>coefficient = 100, scale = 0\<rparr> = Inr y"
    "decimal_divide y \<lparr>coefficient = 4, scale = 0\<rparr> 6 = Inr z" "s = decimal_toCanonical z"
    using assms by (auto simp: normalize_circularity_def outcome_simps)
  have "dec_val y / 4 = (dec_val w - 1) * 25"
    using decimal_subtract_val [OF xyz(1)] decimal_multiply_val [OF xyz(2)] by simp
  with decimal_divide_val [OF xyz(3)] xyz(4) show ?thesis by auto
qed

lemma circularityScore_Inr:
  assumes "circularityScore cs = Inr r"
  shows "cs \<noteq> [] \<and> distinct (map criterion_id cs)
    \<and> (\<forall>c\<in>set cs. \<exists>d. decimal_parse (weight c) = Inr d)
    \<and> (\<Sum>c\<leftarrow>cs. text_val (weight c)) = 1
    \<and> (C_value r = (if \<forall>c\<in>set cs. rating c \<noteq> None then Some (C_lower r) else None))
    \<and> (\<exists>lo up. dec_ok lo \<and> scale lo \<le> 6 \<and> C_lower r = decimal_toCanonical lo
        \<and> rounded_to 6 ((weighted_sum 1 cs - 1) * 25) (dec_val lo)
        \<and> dec_ok up \<and> scale up \<le> 6 \<and> C_upper r = decimal_toCanonical up
        \<and> rounded_to 6 ((weighted_sum 5 cs - 1) * 25) (dec_val up))"
proof -
  obtain t cmp lower upper lo up where
    c: "cs \<noteq> []" "length (js_set (map criterion_id cs)) = length cs" "total_weight cs = Inr t"
    "decimal_compare t \<lparr>coefficient = 1, scale = 0\<rparr> = Inr 0"
    and f: "rfold (\<lambda>(lower, upper) c.
              rbind (weighted_rating 1 lower c) (\<lambda>l.
              rbind (weighted_rating 5 upper c) (\<lambda>u. Inr (l, u))))
        (\<lparr>coefficient = 0, scale = 0\<rparr>, \<lparr>coefficient = 0, scale = 0\<rparr>) cs = Inr (lower, upper)"
    and n: "normalize_circularity lower = Inr lo" "normalize_circularity upper = Inr up"
    and r: "r = \<lparr>C_lower = lo, C_upper = up,
          C_value = (if list_all (\<lambda>c. rating c \<noteq> None) cs then Some lo else None)\<rparr>"
    using assms by (auto simp: circularityScore_def outcome_simps)
  have "dec_val t = 1" using decimal_compare_val [OF c(4)] by simp
  moreover have "distinct (map criterion_id cs)"
    using c(2) length_js_set_eq_iff [of "map criterion_id cs"] by simp
  ultimately show ?thesis
    using c(1) total_weight_val [OF c(3)] weighted_ratings_fold [OF f]
      normalize_circularity_val [OF n(1)] normalize_circularity_val [OF n(2)]
    by (auto simp: r list_all_iff)
qed

text \<open>What a criterion must be for the score to mean something; the code checks none of it.\<close>

definition criterion_ok :: "circularity_criterion \<Rightarrow> bool" where
  "criterion_ok c = (0 \<le> text_val (weight c) \<and> canonicalDecimal_ok (weight c)
     \<and> (case rating c of None \<Rightarrow> True | Some r \<Rightarrow> 1 \<le> r \<and> r \<le> 5))"

lemma weighted_sum_bounds:
  assumes "\<forall>c\<in>set cs. criterion_ok c" and "1 \<le> dflt" "dflt \<le> 5"
  shows "(\<Sum>c\<leftarrow>cs. text_val (weight c)) \<le> weighted_sum dflt cs
    \<and> weighted_sum dflt cs \<le> 5 * (\<Sum>c\<leftarrow>cs. text_val (weight c))"
  using assms(1)
proof (induction cs)
  case (Cons c cs)
  define r where "r = (case rating c of None \<Rightarrow> dflt | Some r \<Rightarrow> r)"
  have r: "1 \<le> (of_int r :: rat)" "(of_int r :: rat) \<le> 5" and w: "0 \<le> text_val (weight c)"
    using Cons.prems assms(2,3) by (auto simp: r_def criterion_ok_def split: option.splits)
  have "text_val (weight c) * 1 \<le> text_val (weight c) * of_int r"
    "text_val (weight c) * of_int r \<le> text_val (weight c) * 5"
    using r w by (intro mult_left_mono; simp)+
  with Cons show ?case by (simp add: weighted_sum_def r_def [symmetric])
qed (simp add: weighted_sum_def)

lemma weighted_sum_mono:
  assumes "\<forall>c\<in>set cs. criterion_ok c"
  shows "weighted_sum 1 cs \<le> weighted_sum 5 cs"
  using assms
  by (auto simp: weighted_sum_def criterion_ok_def intro!: sum_list_mono mult_left_mono split: option.splits)

lemma circularity_value_bounds:
  assumes r: "circularityScore cs = Inr r" and ok: "\<forall>c\<in>set cs. criterion_ok c"
  shows "\<exists>lo up. decimal_parse (C_lower r) = Inr lo \<and> decimal_parse (C_upper r) = Inr up
    \<and> rounded_to 6 ((weighted_sum 1 cs - 1) * 25) (dec_val lo)
    \<and> rounded_to 6 ((weighted_sum 5 cs - 1) * 25) (dec_val up)
    \<and> 0 \<le> dec_val lo \<and> dec_val lo \<le> dec_val up \<and> dec_val up \<le> 100"
proof -
  obtain lo up where lo: "dec_ok lo" "scale lo \<le> 6" "C_lower r = decimal_toCanonical lo"
      "rounded_to 6 ((weighted_sum 1 cs - 1) * 25) (dec_val lo)"
    and up: "dec_ok up" "scale up \<le> 6" "C_upper r = decimal_toCanonical up"
      "rounded_to 6 ((weighted_sum 5 cs - 1) * 25) (dec_val up)"
    and sum: "(\<Sum>c\<leftarrow>cs. text_val (weight c)) = 1"
    using circularityScore_Inr [OF r] by blast
  have b: "1 \<le> weighted_sum 1 cs" "weighted_sum 1 cs \<le> weighted_sum 5 cs" "weighted_sum 5 cs \<le> 5"
    using weighted_sum_bounds [OF ok, of 1] weighted_sum_bounds [OF ok, of 5] weighted_sum_mono [OF ok] sum
    by simp_all
  have "rounded_to 6 0 (0 :: rat)" "rounded_to 6 100 (100 :: rat)"
    using rounded_to_int [of 6 0] rounded_to_int [of 6 100] by simp_all
  then have bounds: "0 \<le> dec_val lo" "dec_val lo \<le> dec_val up" "dec_val up \<le> 100"
    using b rounded_to_mono lo(4) up(4) by (force, force, force)
  then have "decimal_parse (C_lower r) = Inr lo" "decimal_parse (C_upper r) = Inr up"
    using lo up by (auto intro!: parse_toCanonical_bounded)
  with bounds lo(4) up(4) show ?thesis by blast
qed

lemma total_weight_total:
  assumes "\<forall>c\<in>set cs. criterion_ok c" and "scale t \<le> 18" and "0 \<le> dec_val t"
    and "dec_val t + (\<Sum>c\<leftarrow>cs. text_val (weight c)) \<le> 1000"
  shows "\<exists>r. rfold (\<lambda>total c. rbind (dec (decimal_parse (weight c))) (\<lambda>w. dec (decimal_add total w))) t cs = Inr r
    \<and> scale r \<le> 18"
  using assms
proof (induction cs arbitrary: t)
  case (Cons c cs)
  then obtain w where w: "decimal_parse (weight c) = Inr w" "0 \<le> dec_val w"
    by (auto simp: criterion_ok_def canonicalDecimal_ok_iff)
  have rest: "0 \<le> (\<Sum>c\<leftarrow>cs. text_val (weight c))"
    using Cons.prems(1) by (intro sum_list_nonneg) (auto simp: criterion_ok_def)
  have "\<bar>dec_val t + dec_val w\<bar> * 10 ^ 18 < 10 ^ 80"
    using Cons.prems w rest by simp
  moreover have "scale w \<le> 18" using decimal_parse_small [OF w(1)] by (simp add: dec_small_def)
  ultimately obtain u where u: "decimal_add t w = Inr u" "scale u \<le> 18"
    using add_total [of t 18 w] Cons.prems(2) by blast
  have "dec_val u = dec_val t + dec_val w" using decimal_add_val [OF u(1)] by simp
  then show ?case using Cons.IH [of u] Cons.prems u w by simp
qed simp

lemma weighted_rating_total:
  assumes "criterion_ok c" and "1 \<le> dflt" "dflt \<le> 5" and "scale acc \<le> 18" "0 \<le> dec_val acc"
    and "dec_val acc + weighted_sum dflt [c] \<le> 1000"
  shows "\<exists>d. weighted_rating dflt acc c = Inr d \<and> scale d \<le> 18 \<and> 0 \<le> dec_val d"
proof -
  define r where "r = (case rating c of None \<Rightarrow> dflt | Some r \<Rightarrow> r)"
  obtain w where w: "decimal_parse (weight c) = Inr w" "0 \<le> dec_val w"
    using assms(1) by (auto simp: criterion_ok_def canonicalDecimal_ok_iff)
  have r: "1 \<le> r" "r \<le> 5"
    using assms(1-3) by (auto simp: r_def criterion_ok_def split: option.splits)
  have ri: "dec_of_int r = Inr \<lparr>coefficient = r, scale = 0\<rparr>"
    using r by (simp add: dec_of_int_Inr max_safe_integer_def del: map_error_simps)
  have ws: "weighted_sum dflt [c] = dec_val w * of_int r"
    using w by (simp add: weighted_sum_def r_def)
  have nn: "0 \<le> dec_val w * of_int r" using w r by simp
  have sw: "scale w \<le> 18" using decimal_parse_small [OF w(1)] by (simp add: dec_small_def)
  have "\<bar>dec_val w * of_int r\<bar> * 10 ^ scale w \<le> \<bar>dec_val w * of_int r\<bar> * 10 ^ 18"
    using sw by (intro mult_left_mono power_increasing) auto
  also have "\<dots> < 10 ^ 80" using assms(5,6) ws nn by simp
  finally obtain p where p: "decimal_multiply w \<lparr>coefficient = r, scale = 0\<rparr> = Inr p" "scale p \<le> 18"
    using multiply_total [of w "\<lparr>coefficient = r, scale = 0\<rparr>"] sw by auto
  have pv: "dec_val p = dec_val w * of_int r" using decimal_multiply_val [OF p(1)] by simp
  obtain d where d: "decimal_add acc p = Inr d" "scale d \<le> 18"
    using add_total [OF assms(4) p(2)] pv nn assms(5,6) ws by auto
  have "weighted_rating dflt acc c = Inr d"
    using w ri p d by (simp add: weighted_rating_def r_def [symmetric] del: map_error_simps)
      (simp add: ri)
  with d decimal_add_val [OF d(1)] pv nn assms(5) show ?thesis by simp
qed

lemma weighted_sum_Cons: "weighted_sum dflt (c # cs) = weighted_sum dflt [c] + weighted_sum dflt cs"
  by (simp add: weighted_sum_def)

lemma weighted_sum_nonneg:
  assumes "\<forall>c\<in>set cs. criterion_ok c" and "1 \<le> dflt" "dflt \<le> 5"
  shows "0 \<le> weighted_sum dflt cs"
proof -
  have "0 \<le> (\<Sum>c\<leftarrow>cs. text_val (weight c))"
    using assms(1) by (intro sum_list_nonneg) (auto simp: criterion_ok_def)
  then show ?thesis using weighted_sum_bounds [OF assms] by linarith
qed

lemma weighted_ratings_total:
  assumes "\<forall>c\<in>set cs. criterion_ok c" and "scale a \<le> 18" "0 \<le> dec_val a" "scale b \<le> 18" "0 \<le> dec_val b"
    and "dec_val a + weighted_sum 1 cs \<le> 1000" "dec_val b + weighted_sum 5 cs \<le> 1000"
  shows "\<exists>l u. rfold (\<lambda>(lower, upper) c.
              rbind (weighted_rating 1 lower c) (\<lambda>l.
              rbind (weighted_rating 5 upper c) (\<lambda>u. Inr (l, u)))) (a, b) cs = Inr (l, u)
     \<and> scale l \<le> 18 \<and> scale u \<le> 18"
  using assms
proof (induction cs arbitrary: a b)
  case (Cons c cs)
  have ok: "criterion_ok c" "\<forall>c\<in>set cs. criterion_ok c" using Cons.prems(1) by auto
  note nn = weighted_sum_nonneg [OF ok(2), of 1] weighted_sum_nonneg [OF ok(2), of 5]
  obtain l where l: "weighted_rating 1 a c = Inr l" "scale l \<le> 18" "0 \<le> dec_val l"
    using weighted_rating_total [OF ok(1), of 1 a] Cons.prems nn by (auto simp: weighted_sum_Cons [of _ c cs])
  obtain u where u: "weighted_rating 5 b c = Inr u" "scale u \<le> 18" "0 \<le> dec_val u"
    using weighted_rating_total [OF ok(1), of 5 b] Cons.prems nn by (auto simp: weighted_sum_Cons [of _ c cs])
  show ?case
    using Cons.IH [OF ok(2) l(2,3) u(2,3)] Cons.prems(6,7) l(1) u(1)
      weighted_rating_val [OF l(1)] weighted_rating_val [OF u(1)]
    by (simp add: weighted_sum_Cons [of _ c cs])
qed simp

lemma subtract_one_total:
  assumes "scale w \<le> 18" and "\<bar>dec_val w\<bar> \<le> 1000"
  shows "\<exists>x. decimal_subtract w \<lparr>coefficient = 1, scale = 0\<rparr> = Inr x \<and> scale x \<le> 18"
proof -
  have neg: "create (- 1) 0 = Inr \<lparr>coefficient = - 1, scale = 0\<rparr>" by (simp add: create_scale_0)
  have "\<bar>dec_val w - 1\<bar> \<le> 1001" using assms(2) by linarith
  then have "\<bar>dec_val w + dec_val \<lparr>coefficient = - 1, scale = 0\<rparr>\<bar> * 10 ^ 18 < 10 ^ 80" by simp
  then show ?thesis
    using add_total [OF assms(1), of "\<lparr>coefficient = - 1, scale = 0\<rparr>"] neg
    by (auto simp: decimal_subtract_def)
qed

lemma normalize_circularity_total:
  assumes "scale w \<le> 18" and "1 \<le> dec_val w" "dec_val w \<le> 5"
  shows "\<exists>s. normalize_circularity w = Inr s"
proof -
  obtain x where x: "decimal_subtract w \<lparr>coefficient = 1, scale = 0\<rparr> = Inr x" "scale x \<le> 18"
    using subtract_one_total [OF assms(1)] assms(2,3) by auto
  have xv: "dec_val x = dec_val w - 1" using decimal_subtract_val [OF x(1)] by simp
  have "\<bar>dec_val x * 100\<bar> * 10 ^ scale x \<le> \<bar>dec_val x * 100\<bar> * 10 ^ 18"
    using x(2) by (intro mult_left_mono power_increasing) auto
  also have "\<dots> < 10 ^ 80" using xv assms by simp
  finally obtain y where y: "decimal_multiply x \<lparr>coefficient = 100, scale = 0\<rparr> = Inr y"
    using multiply_total [of x "\<lparr>coefficient = 100, scale = 0\<rparr>"] by auto
  have "dec_val y = dec_val x * 100" using decimal_multiply_val [OF y] by simp
  then obtain z where "decimal_divide y \<lparr>coefficient = 4, scale = 0\<rparr> 6 = Inr z"
    using divide_total [of "\<lparr>coefficient = 4, scale = 0\<rparr>" 6 y] xv assms by auto
  with x y show ?thesis by (simp add: normalize_circularity_def)
qed

lemma compare_one_total:
  assumes "scale t \<le> 18" and "dec_val t = 1"
  shows "decimal_compare t \<lparr>coefficient = 1, scale = 0\<rparr> = Inr 0"
proof -
  obtain x where "decimal_subtract t \<lparr>coefficient = 1, scale = 0\<rparr> = Inr x"
    using subtract_one_total [OF assms(1)] assms(2) by auto
  then obtain c where c: "decimal_compare t \<lparr>coefficient = 1, scale = 0\<rparr> = Inr c"
    by (auto simp: decimal_compare_def)
  with decimal_compare_val [OF c] assms(2) show ?thesis by simp
qed

lemma circularityScore_total:
  assumes "cs \<noteq> []" and "distinct (map criterion_id cs)" and ok: "\<forall>c\<in>set cs. criterion_ok c"
    and sum: "(\<Sum>c\<leftarrow>cs. text_val (weight c)) = 1"
  shows "\<exists>r. circularityScore cs = Inr r"
proof -
  let ?zero = "\<lparr>coefficient = 0, scale = 0\<rparr> :: exact_decimal"
  obtain t where t: "total_weight cs = Inr t" "scale t \<le> 18"
    using total_weight_total [OF ok, of ?zero] sum by (auto simp: total_weight_def)
  have "dec_val t = 1" using total_weight_val [OF t(1)] sum by simp
  note cmp = compare_one_total [OF t(2) this]
  note b = weighted_sum_bounds [OF ok, of 1] weighted_sum_bounds [OF ok, of 5]
  have v: "1 \<le> weighted_sum 1 cs" "weighted_sum 1 cs \<le> 5" "1 \<le> weighted_sum 5 cs" "weighted_sum 5 cs \<le> 5"
    using b sum by simp_all
  obtain l u where lu: "rfold (\<lambda>(lower, upper) c.
              rbind (weighted_rating 1 lower c) (\<lambda>l.
              rbind (weighted_rating 5 upper c) (\<lambda>u. Inr (l, u)))) (?zero, ?zero) cs = Inr (l, u)"
      "scale l \<le> 18" "scale u \<le> 18"
    using weighted_ratings_total [OF ok, of ?zero ?zero] v by auto
  have "dec_val l = weighted_sum 1 cs" "dec_val u = weighted_sum 5 cs"
    using weighted_ratings_fold [OF lu(1)] by simp_all
  then obtain lo up where "normalize_circularity l = Inr lo" "normalize_circularity u = Inr up"
    using normalize_circularity_total lu(2,3) v by metis
  moreover have "length (js_set (map criterion_id cs)) = length cs"
    using assms(2) length_js_set_eq_iff [of "map criterion_id cs"] by simp
  ultimately show ?thesis
    using assms(1) t(1) cmp lu(1) by (simp add: circularityScore_def)
qed

subsection \<open>Fractions and evidence adequacy\<close>

lemma fraction_of_spec:
  assumes "0 \<le> k" "k \<le> n" "0 < n" "n \<le> max_safe_integer"
  shows "\<exists>s d. fraction_of k n = Inr s \<and> decimal_parse s = Inr d
    \<and> rounded_to 6 (of_int k / of_int n) (dec_val d) \<and> 0 \<le> dec_val d \<and> dec_val d \<le> 1"
proof -
  let ?k = "\<lparr>coefficient = k, scale = 0\<rparr> :: exact_decimal" and ?n = "\<lparr>coefficient = n, scale = 0\<rparr> :: exact_decimal"
  have ki: "dec_of_int k = Inr ?k" "dec_of_int n = Inr ?n"
    using assms by (simp_all add: dec_of_int_Inr del: map_error_simps)
  have q: "0 \<le> (of_int k / of_int n :: rat)" "(of_int k / of_int n :: rat) \<le> 1"
    using assms by simp_all
  obtain d where d: "decimal_divide ?k ?n 6 = Inr d"
    using divide_total [of ?n 6 ?k] q assms by auto
  then have dv: "dec_ok d" "scale d \<le> 6" "rounded_to 6 (of_int k / of_int n) (dec_val d)"
    using decimal_divide_val [OF d] by simp_all
  have "rounded_to 6 0 (0 :: rat)" "rounded_to 6 1 (1 :: rat)"
    using rounded_to_int [of 6 0] rounded_to_int [of 6 1] by simp_all
  with dv(3) q have b: "0 \<le> dec_val d" "dec_val d \<le> 1" by (auto intro: rounded_to_mono)
  then have "decimal_parse (decimal_toCanonical d) = Inr d"
    using dv by (intro parse_toCanonical_bounded) auto
  then show ?thesis
    using assms ki d dv(3) b by (auto simp: fraction_of_def)
qed

lemma evidenceAdequacy_Inr:
  assumes "evidenceAdequacy items = Inr a"
  shows "items \<noteq> [] \<and> distinct (map field items)
    \<and> missingCritical a = js_sort str_le (map field (filter (\<lambda>i. critical i \<and> \<not> field_usable i) items))
    \<and> conflictCount a = length (filter conflicting items)
    \<and> (weakestCriticalVerification a = VMissing \<longleftrightarrow> (\<exists>i\<in>set items. critical i \<and> \<not> field_usable i))
    \<and> (weakestCriticalVerification a = VVerified
         \<longleftrightarrow> (\<forall>i\<in>set items. critical i \<longrightarrow> field_usable i \<and> verified i))"
proof -
  have "filter (\<lambda>i. critical i \<and> i \<notin> set (filter field_usable items)) items
      = filter (\<lambda>i. critical i \<and> \<not> field_usable i) items"
    by (rule filter_cong) auto
  moreover have "items \<noteq> []" "distinct (map field items)"
    using assms length_js_set_eq_iff [of "map field items"]
    by (auto simp: evidenceAdequacy_def outcome_simps)
  ultimately show ?thesis
    using assms by (auto simp: evidenceAdequacy_def outcome_simps Let_def list_ex_iff split: if_splits)
qed

lemma missingCritical_Nil_iff:
  "evidenceAdequacy items = Inr a \<Longrightarrow>
     missingCritical a = [] \<longleftrightarrow> (\<forall>i\<in>set items. critical i \<longrightarrow> field_usable i)"
proof -
  assume a: "evidenceAdequacy items = Inr a"
  have "set (missingCritical a) = field ` {i \<in> set items. critical i \<and> \<not> field_usable i}"
    using evidenceAdequacy_Inr [OF a] by simp
  then show ?thesis by (auto simp flip: set_empty)
qed

lemma evidenceAdequacy_total:
  assumes "items \<noteq> []" and "distinct (map field items)" and "int (length items) \<le> max_safe_integer"
  shows "\<exists>a c v f. evidenceAdequacy items = Inr a
    \<and> decimal_parse (coverage a) = Inr c \<and> decimal_parse (verifiedFraction a) = Inr v
    \<and> decimal_parse (freshnessFraction a) = Inr f
    \<and> rounded_to 6 (of_nat (length (filter field_usable items)) / of_nat (length items)) (dec_val c)
    \<and> rounded_to 6 (of_nat (length (filter (\<lambda>i. field_usable i \<and> verified i) items)) / of_nat (length items)) (dec_val v)
    \<and> rounded_to 6 (of_nat (length (filter current items)) / of_nat (length items)) (dec_val f)
    \<and> 0 \<le> dec_val v \<and> dec_val v \<le> dec_val c \<and> dec_val c \<le> dec_val f \<and> dec_val f \<le> 1"
proof -
  let ?n = "int (length items)"
  let ?us = "filter field_usable items" and ?vs = "filter (\<lambda>i. field_usable i \<and> verified i) items"
    and ?cs = "filter current items"
  have le: "int (length (filter P items)) \<le> ?n" for P by simp
  have n: "0 < ?n" using assms(1) by simp
  note fr = fraction_of_spec [OF _ le n assms(3)]
  obtain sc c where c: "fraction_of (int (length ?us)) ?n = Inr sc" "decimal_parse sc = Inr c"
    "rounded_to 6 (of_int (int (length ?us)) / of_int ?n) (dec_val c)" using fr [of field_usable] by auto
  obtain sv v where v: "fraction_of (int (length ?vs)) ?n = Inr sv" "decimal_parse sv = Inr v"
    "rounded_to 6 (of_int (int (length ?vs)) / of_int ?n) (dec_val v)" "0 \<le> dec_val v"
    using fr [of "\<lambda>i. field_usable i \<and> verified i"] by auto
  obtain sf f where f: "fraction_of (int (length ?cs)) ?n = Inr sf" "decimal_parse sf = Inr f"
    "rounded_to 6 (of_int (int (length ?cs)) / of_int ?n) (dec_val f)" "dec_val f \<le> 1"
    using fr [of current] by auto
  have sub: "length ?vs \<le> length ?us" "length ?us \<le> length ?cs"
    by (induction items) (auto simp: field_usable_def)
  have "(of_int (int (length ?vs)) :: rat) / of_int ?n \<le> of_int (int (length ?us)) / of_int ?n"
    "(of_int (int (length ?us)) :: rat) / of_int ?n \<le> of_int (int (length ?cs)) / of_int ?n"
    using sub by (simp_all add: divide_right_mono)
  then have mono: "dec_val v \<le> dec_val c" "dec_val c \<le> dec_val f"
    using rounded_to_mono v(3) c(3) f(3) by blast+
  have "length (js_set (map field items)) = length items"
    using assms(2) length_js_set_eq_iff [of "map field items"] by simp
  moreover have "filter verified ?us = ?vs" by (simp add: conj_commute)
  ultimately obtain a where "evidenceAdequacy items = Inr a" "coverage a = sc" "verifiedFraction a = sv"
    "freshnessFraction a = sf"
    using assms(1) c(1) v(1) f(1) by (simp add: evidenceAdequacy_def Let_def)
  with c v f mono show ?thesis by (auto simp: of_int_of_nat_eq)
qed

subsection \<open>Environmental indicators\<close>

definition contribution :: "environmental_term \<Rightarrow> rat" where
  "contribution t = (if recovered t then - 1 else 1) * text_val (quantity t) * text_val (factor t)"

definition net_impact :: "string \<Rightarrow> environmental_term list \<Rightarrow> rat" where
  "net_impact cat ts = (\<Sum>t\<leftarrow>filter (\<lambda>t. category t = cat) ts. contribution t)"

definition totals_ok ::
  "environmental_term list \<Rightarrow> (string, exact_decimal \<times> string) jmap \<Rightarrow> bool" where
  "totals_ok ts m = (jm_ok m \<and> fst ` set m = category ` set ts
     \<and> (\<forall>cat t u. jm_get m cat = Some (t, u) \<longrightarrow> dec_val t = net_impact cat ts
         \<and> (\<forall>x\<in>set ts. category x = cat \<longrightarrow> resultUnit x = u)))"

lemma signed_contribution_val:
  assumes "decimal_parse (quantity t) = Inr q" "decimal_parse (factor t) = Inr f" "decimal_multiply q f = Inr c"
    and "signed_contribution (recovered t) c = Inr s"
  shows "dec_val s = contribution t"
  using assms decimal_multiply_val [OF assms(3)] decimal_subtract_val [of _ c s]
  by (fastforce simp: contribution_def signed_contribution_def outcome_simps split: if_splits)

lemma net_impact_absent: "cat \<notin> category ` set ts \<Longrightarrow> net_impact cat ts = 0"
  by (induction ts) (auto simp: net_impact_def)

lemma add_environmental_term_ok:
  assumes ok: "totals_ok ts m" and a: "add_environmental_term m t = Inr m'"
  shows "totals_ok (ts @ [t]) m'"
proof -
  obtain q f c s p n where p: "decimal_parse (quantity t) = Inr q" "decimal_parse (factor t) = Inr f"
      "decimal_multiply q f = Inr c"
      "signed_contribution (recovered t) c = Inr s"
    and prior: "\<not> (case jm_get m (category t) of None \<Rightarrow> False | Some (t', u) \<Rightarrow> u \<noteq> resultUnit t)"
      "(case jm_get m (category t) of None \<Rightarrow> dec_of_int 0 | Some (t', u) \<Rightarrow> Inr t') = Inr p"
    and n: "decimal_add p s = Inr n" "m' = jm_set (category t) (n, resultUnit t) m"
    using a by (auto simp: add_environmental_term_def outcome_simps Let_def)
  have s: "dec_val s = contribution t" by (rule signed_contribution_val [OF p])
  have old: "dec_val p = net_impact (category t) ts
      \<and> (\<forall>x\<in>set ts. category x = category t \<longrightarrow> resultUnit x = resultUnit t)"
  proof (cases "jm_get m (category t)")
    case None
    then have "category t \<notin> category ` set ts" using ok by (simp add: jm_get_None_iff totals_ok_def)
    then show ?thesis using None prior(2) by (auto simp: net_impact_absent image_iff)
  next
    case (Some x)
    then show ?thesis using ok prior by (cases x) (auto simp: totals_ok_def)
  qed
  have "dec_val n = net_impact (category t) (ts @ [t])"
    using decimal_add_val [OF n(1)] s old by (simp add: net_impact_def)
  moreover have "net_impact cat (ts @ [t]) = net_impact cat ts" if "cat \<noteq> category t" for cat
    using that by (simp add: net_impact_def)
  ultimately show ?thesis
    using ok old keys_jm_set [of "category t" "(n, resultUnit t)" m] unfolding totals_ok_def n(2)
    by (auto simp: jm_simps jm_ok_set split: if_splits)
qed

lemma environmental_totals:
  assumes "rfold add_environmental_term m ts = Inr m'" and "totals_ok us m"
  shows "totals_ok (us @ ts) m'"
  using assms
proof (induction ts arbitrary: us m)
  case (Cons t ts)
  then obtain m1 where m1: "add_environmental_term m t = Inr m1" "rfold add_environmental_term m1 ts = Inr m'"
    by (auto simp: outcome_simps)
  from Cons.IH [OF m1(2) add_environmental_term_ok [OF Cons.prems(2) m1(1)]] show ?case by simp
qed simp

lemma totals_ok_Nil: "totals_ok [] []"
  by (simp add: totals_ok_def)

lemma environmentalIndicators_Inr:
  assumes "environmentalIndicators localeLe ts fu = Inr inds"
  shows "0 < text_val fu \<and> distinct (map ind_category inds)
    \<and> set (map ind_category inds) = set (map category ts)
    \<and> (\<forall>i\<in>set inds. (\<forall>t\<in>set ts. category t = ind_category i \<longrightarrow> resultUnit t = ind_unit i)
         \<and> (\<exists>d. dec_ok d \<and> scale d \<le> 6 \<and> ind_value i = decimal_toCanonical d
               \<and> rounded_to 6 (net_impact (ind_category i) ts / text_val fu) (dec_val d)))"
proof -
  let ?f = "\<lambda>divisor (cat, total, un). rbind (dec (decimal_divide total divisor 6)) (\<lambda>q.
       Inr \<lparr>ind_category = cat, ind_unit = un, ind_value = decimal_toCanonical q\<rparr>) :: assessment_error + indicator"
  let ?s = "js_sort (\<lambda>l r. localeLe (fst l) (fst r))"
  obtain d cmp m where d: "decimal_parse fu = Inr d" "decimal_compare d \<lparr>coefficient = 0, scale = 0\<rparr> = Inr cmp"
      "\<not> cmp \<le> 0" and m: "rfold add_environmental_term [] ts = Inr m"
    and inds: "rmap (?f d) (?s m) = Inr inds"
    using assms by (auto simp: environmentalIndicators_def outcome_simps)
  have ok: "totals_ok ts m" using environmental_totals [OF m totals_ok_Nil] by simp
  have jm: "jm_ok m" using ok by (simp add: totals_ok_def)
  have pos: "0 < text_val fu" using d decimal_compare_val [OF d(2)] by simp
  have rel: "list_all2 (\<lambda>x i. ?f d x = Inr i) (?s m) inds"
    using inds by (simp add: rmap_Inr_iff)
  have cats: "map ind_category inds = map fst (?s m)"
    using rel by (induction rule: list_all2_induct) (auto simp: outcome_simps)
  have "distinct (map fst (?s m))"
    using jm by (simp add: jm_ok_def)
  moreover have "set (map fst (?s m)) = set (map category ts)"
    using ok by (simp add: totals_ok_def)
  moreover have "(\<forall>t\<in>set ts. category t = ind_category i \<longrightarrow> resultUnit t = ind_unit i)
         \<and> (\<exists>d. dec_ok d \<and> scale d \<le> 6 \<and> ind_value i = decimal_toCanonical d
               \<and> rounded_to 6 (net_impact (ind_category i) ts / text_val fu) (dec_val d))"
    if i: "i \<in> set inds" for i
  proof -
    obtain cat t u where x: "(cat, t, u) \<in> set m" and fx: "?f d (cat, t, u) = Inr i"
      using rmap_Inr_in_set [OF inds i] by auto
    obtain q where q: "decimal_divide t d 6 = Inr q" "i = \<lparr>ind_category = cat, ind_unit = u, ind_value = decimal_toCanonical q\<rparr>"
      using fx by (auto simp: outcome_simps)
    have "jm_get m cat = Some (t, u)" using x jm by (simp add: jm_get_in_set)
    then show ?thesis
      using ok q decimal_divide_val [OF q(1)] d(1) by (auto simp: totals_ok_def)
  qed
  ultimately show ?thesis using pos cats by auto
qed

subsection \<open>Economics\<close>

lemma discount_power_val:
  "discount_power a n b = Inr d \<Longrightarrow> dec_val d = dec_val a * dec_val b ^ n"
proof (induction n arbitrary: a)
  case (Suc n)
  then obtain c where c: "decimal_multiply a b = Inr c" "discount_power c n b = Inr d"
    by (auto simp: outcome_simps)
  with Suc.IH [OF c(2)] decimal_multiply_val [OF c(1)] show ?case by simp
qed simp

text \<open>The present value of a list of cash flows, in exact arithmetic, and the running balance.\<close>

definition present_value :: "rat \<Rightarrow> cash_flow list \<Rightarrow> rat" where
  "present_value rate fls = (\<Sum>f\<leftarrow>fls. text_val (flow_amount f) / (1 + rate) ^ nat (period f))"

definition balance :: "rat \<Rightarrow> cash_flow list \<Rightarrow> rat" where
  "balance initial fls = initial + (\<Sum>f\<leftarrow>fls. text_val (flow_amount f))"

fun first_payback :: "rat \<Rightarrow> cash_flow list \<Rightarrow> int option" where
  "first_payback b [] = None"
| "first_payback b (f # fls) =
     (let b' = b + text_val (flow_amount f)
      in if 0 \<le> b' then Some (period f) else first_payback b' fls)"

lemma add_cash_flow_val:
  assumes "add_cash_flow rate st fl = Inr st'"
  shows "1 \<le> period fl
    \<and> \<bar>dec_val (npv st') - (dec_val (npv st) + present_value (dec_val rate) [fl])\<bar> \<le> 1 / (2 * 10 ^ 18)
    \<and> dec_val (cumulative st') = dec_val (cumulative st) + text_val (flow_amount fl)
    \<and> dec_ok (npv st')
    \<and> payback st' = (if payback st \<noteq> None then payback st
         else if 0 \<le> dec_val (cumulative st') then Some (period fl) else None)"
proof -
  obtain base den amt disc n c cmp where p: "1 \<le> period fl"
    and s: "decimal_add \<lparr>coefficient = 1, scale = 0\<rparr> rate = Inr base"
      "discount_power \<lparr>coefficient = 1, scale = 0\<rparr> (nat (period fl)) base = Inr den"
      "decimal_parse (flow_amount fl) = Inr amt" "decimal_divide amt den 18 = Inr disc"
      "decimal_add (npv st) disc = Inr n" "decimal_add (cumulative st) amt = Inr c"
    and cmp: "(if payback st = None then dec (decimal_compare c \<lparr>coefficient = 0, scale = 0\<rparr>) else Inr (- 1)) = Inr cmp"
    and st': "st' = \<lparr>npv = n, cumulative = c,
          payback = (if payback st = None \<and> cmp \<ge> 0 then Some (period fl) else payback st)\<rparr>"
    using assms by (auto simp: add_cash_flow_def outcome_simps simp del: if_Inl_Inr_iff)
  have "dec_val den = (1 + dec_val rate) ^ nat (period fl)"
    using decimal_add_val [OF s(1)] discount_power_val [OF s(2)] by simp
  then have "rounded_to 18 (present_value (dec_val rate) [fl]) (dec_val disc)"
    using decimal_divide_val [OF s(4)] s(3) by (simp add: present_value_def)
  from rounded_to_error [OF this]
  have "\<bar>dec_val n - (dec_val (npv st) + present_value (dec_val rate) [fl])\<bar> \<le> 1 / (2 * 10 ^ 18)"
    using decimal_add_val [OF s(5)] by (simp add: abs_minus_commute algebra_simps)
  moreover have "payback st' = (if payback st \<noteq> None then payback st
         else if 0 \<le> dec_val c then Some (period fl) else None)"
    using cmp decimal_compare_val [of c _ cmp] by (force simp: st' outcome_simps split: if_splits)
  ultimately show ?thesis
    using p s(3) decimal_add_val [OF s(5)] decimal_add_val [OF s(6)] by (simp add: st')
qed

lemma cash_flows_val:
  assumes "rfold (add_cash_flow rate) st fls = Inr st'" and "dec_ok (npv st)"
  shows "(\<forall>f\<in>set fls. 1 \<le> period f) \<and> dec_ok (npv st')
    \<and> \<bar>dec_val (npv st') - (dec_val (npv st) + present_value (dec_val rate) fls)\<bar>
        \<le> of_nat (length fls) / (2 * 10 ^ 18)
    \<and> payback st' = (if payback st \<noteq> None then payback st else first_payback (dec_val (cumulative st)) fls)"
  using assms
proof (induction fls arbitrary: st)
  case Nil
  then show ?case by (auto simp: present_value_def)
next
  case (Cons f fls)
  then obtain st1 where st1: "add_cash_flow rate st f = Inr st1" "rfold (add_cash_flow rate) st1 fls = Inr st'"
    by (auto simp: outcome_simps)
  note v = add_cash_flow_val [OF st1(1)]
  have pv: "present_value (dec_val rate) (f # fls) = present_value (dec_val rate) [f] + present_value (dec_val rate) fls"
    by (simp add: present_value_def)
  have IH: "\<bar>dec_val (npv st') - (dec_val (npv st1) + present_value (dec_val rate) fls)\<bar>
        \<le> of_nat (length fls) / (2 * 10 ^ 18)"
    "(\<forall>f\<in>set fls. 1 \<le> period f)" "dec_ok (npv st')"
    "payback st' = (if payback st1 \<noteq> None then payback st1 else first_payback (dec_val (cumulative st1)) fls)"
    using Cons.IH [OF st1(2)] v by simp_all
  have "of_nat (length (f # fls)) / (2 * 10 ^ 18) = of_nat (length fls) / (2 * 10 ^ 18) + (1 / (2 * 10 ^ 18) :: rat)"
    by (simp add: field_simps)
  then have "\<bar>dec_val (npv st') - (dec_val (npv st) + present_value (dec_val rate) (f # fls))\<bar>
        \<le> of_nat (length (f # fls)) / (2 * 10 ^ 18)"
    using IH(1) v pv by linarith
  moreover have "payback st' = (if payback st \<noteq> None then payback st
      else first_payback (dec_val (cumulative st)) (f # fls))"
    using IH(4) v by (simp add: Let_def)
  ultimately show ?case using IH(2,3) v by simp
qed

lemma economicResult_Inr:
  assumes "economicResult sc = Inr r"
  defines "fls \<equiv> js_sort (\<lambda>l r. period l - period r \<le> 0) (cashFlows sc)"
  shows "E_currency r = currency sc \<and> currency_ok (currency sc) \<and> - 1 < text_val (discountRate sc)
    \<and> distinct (map period fls) \<and> sorted (map period fls) \<and> (\<forall>f\<in>set fls. 1 \<le> period f)
    \<and> paybackPeriod r = first_payback (text_val (initialInvestment sc)) fls
    \<and> (\<exists>d. dec_ok d \<and> scale d \<le> 2 \<and> netPresentValue r = decimal_toCanonical d
        \<and> \<bar>dec_val d - (text_val (initialInvestment sc) + present_value (text_val (discountRate sc)) (cashFlows sc))\<bar>
            \<le> 1 / 200 + of_nat (length (cashFlows sc)) / (2 * 10 ^ 18))"
proof -
  obtain rate cmp initial st d where c: "currency_ok (currency sc)" "decimal_parse (discountRate sc) = Inr rate"
      "decimal_compare rate \<lparr>coefficient = - 1, scale = 0\<rparr> = Inr cmp" "\<not> cmp \<le> 0"
      "decimal_parse (initialInvestment sc) = Inr initial" "length (js_set (map period fls)) = length fls"
    and st: "rfold (add_cash_flow rate) \<lparr>npv = initial, cumulative = initial, payback = None\<rparr> fls = Inr st"
    and d: "decimal_round (npv st) 2 = Inr d"
      "r = \<lparr>E_currency = currency sc, netPresentValue = decimal_toCanonical d, paybackPeriod = payback st\<rparr>"
    using assms(1) by (auto simp: economicResult_def outcome_simps Let_def fls_def)
  have ok: "dec_ok initial" using decimal_parse_small [OF c(5)] by (simp add: dec_small_def)
  note f = cash_flows_val [OF st]
  have pv: "present_value q fls = present_value q (cashFlows sc)" for q
  proof -
    have "mset fls = mset (cashFlows sc)" by (simp add: fls_def)
    then have "(\<Sum>f\<in>#mset fls. text_val (flow_amount f) / (1 + q) ^ nat (period f))
        = (\<Sum>f\<in>#mset (cashFlows sc). text_val (flow_amount f) / (1 + q) ^ nat (period f))" by simp
    then show ?thesis by (simp only: present_value_def sum_mset_sum_list flip: mset_map)
  qed
  have "\<bar>dec_val (npv st) - dec_val d\<bar> \<le> 1 / 200"
    using decimal_round_val [OF d(1)] f ok by (auto dest: rounded_to_error)
  moreover have "\<bar>dec_val (npv st) - (dec_val initial + present_value (dec_val rate) (cashFlows sc))\<bar>
      \<le> of_nat (length (cashFlows sc)) / (2 * 10 ^ 18)"
    using f ok pv by (simp add: fls_def)
  ultimately have "\<bar>dec_val d - (dec_val initial + present_value (dec_val rate) (cashFlows sc))\<bar>
      \<le> 1 / 200 + of_nat (length (cashFlows sc)) / (2 * 10 ^ 18)"
    by linarith
  moreover have "sorted (map period fls)"
    using sorted_wrt_js_sort [of "\<lambda>l r. period l - period r \<le> 0" "cashFlows sc"]
    by (simp add: fls_def sorted_wrt_map)
  moreover have "- 1 < dec_val rate" using decimal_compare_val [OF c(3)] c(4) by simp
  ultimately show ?thesis
    using c d f ok decimal_round_val [OF d(1)] length_js_set_eq_iff [of "map period fls"] by auto
qed

end
