(* ===== verification/Assessment_Decision.thy ===== *)
theory Assessment_Decision
  imports Assessment_Values
begin

text \<open>
  What \<open>RouteAssessmentService.assess\<close> decides. The abstract notion is \<open>dominates\<close>: the usual Pareto
  order on the rational measures of two routes. The comparisons of the code compute it, so its
  result is a strict partial order, and a preferred route is above every other route that passes
  its technical gate.
\<close>

subsection \<open>The Pareto order\<close>

definition impact :: "route_result \<Rightarrow> string \<Rightarrow> rat" where
  "impact r cat = (case map_of (map (\<lambda>i. (ind_category i, ind_value i)) (res_I r)) cat of
     None \<Rightarrow> 0 | Some v \<Rightarrow> text_val v)"

definition measures :: "string list \<Rightarrow> route_result \<Rightarrow> rat list" where
  "measures shared r = [text_val (C_lower (res_C r)), text_val (coverage (res_A r)),
     text_val (netPresentValue (res_E r))] @ map (\<lambda>cat. - impact r cat) shared"

definition dominates :: "string list \<Rightarrow> route_result \<Rightarrow> route_result \<Rightarrow> bool" where
  "dominates shared l r = (list_all2 (\<le>) (measures shared r) (measures shared l)
     \<and> measures shared l \<noteq> measures shared r)"

lemma dominates_irrefl: "\<not> dominates shared r r"
  by (simp add: dominates_def)

lemma dominates_trans:
  assumes "dominates shared a b" and "dominates shared b c"
  shows "dominates shared a c"
proof -
  let ?m = "measures shared"
  have le: "list_all2 (\<le>) (?m b) (?m a)" "list_all2 (\<le>) (?m c) (?m b)" and ne: "?m b \<noteq> ?m c"
    using assms by (auto simp: dominates_def)
  have "list_all2 (\<le>) (?m c) (?m a)"
    by (rule list_all2_trans [OF _ le(2) le(1)]) (rule order_trans)
  moreover have "?m a \<noteq> ?m c"
  proof
    assume "?m a = ?m c"
    with le have "?m c = ?m b" by (intro list_all2_antisym [of "(\<le>)" "(\<le>)"]) auto
    with ne show False by simp
  qed
  ultimately show ?thesis by (simp add: dominates_def)
qed

lemma compare_text_val:
  assumes "compare_text s t = Inr c"
  shows "(0 \<le> c \<longleftrightarrow> text_val t \<le> text_val s) \<and> (0 < c \<longleftrightarrow> text_val t < text_val s)"
proof -
  obtain a b where "decimal_parse s = Inr a" "decimal_parse t = Inr b" "decimal_compare a b = Inr c"
    using assms by (auto simp: compare_text_def outcome_simps)
  with decimal_compare_val [of a b c] show ?thesis by (auto simp: not_less [symmetric])
qed

abbreviation store_impact where
  "store_impact m ind \<equiv> rbind (dec (decimal_parse (ind_value ind))) (\<lambda>v. Inr (jm_set (ind_category ind) v m))"

lemma store_impacts_frame:
  "rfold (\<lambda>m ind. store_impact m ind) m inds = Inr m' \<Longrightarrow> cat \<notin> ind_category ` set inds
     \<Longrightarrow> jm_get m' cat = jm_get m cat"
  by (induction inds arbitrary: m) (auto simp: outcome_simps jm_simps)

lemma store_impacts_get:
  assumes "rfold (\<lambda>m ind. store_impact m ind) m inds = Inr m'" and "distinct (map ind_category inds)"
    and "i \<in> set inds"
  shows "\<exists>d. decimal_parse (ind_value i) = Inr d \<and> jm_get m' (ind_category i) = Some d"
  using assms
proof (induction inds arbitrary: m)
  case (Cons j inds)
  then obtain d where d: "decimal_parse (ind_value j) = Inr d"
    "rfold (\<lambda>m ind. store_impact m ind) (jm_set (ind_category j) d m) inds = Inr m'"
    by (auto simp: outcome_simps)
  show ?case
  proof (cases "i = j")
    case True
    with d store_impacts_frame [OF d(2), of "ind_category j"] Cons.prems show ?thesis
      by (simp add: jm_simps)
  next
    case False
    with Cons.IH [OF d(2)] Cons.prems show ?thesis by simp
  qed
qed simp

lemma shared_impacts_get:
  assumes m: "shared_impacts shared r = Inr m" and "distinct (map ind_category (res_I r))"
    and "cat \<in> set shared" and "cat \<in> ind_category ` set (res_I r)"
  shows "\<exists>d. jm_get m cat = Some d \<and> dec_val d = impact r cat"
proof -
  obtain i where i: "i \<in> set (res_I r)" "ind_category i = cat" using assms(4) by auto
  let ?inds = "filter (\<lambda>ind. ind_category ind \<in> set shared) (res_I r)"
  have "distinct (map ind_category ?inds)" using assms(2) by (simp add: distinct_map_filter)
  then obtain d where d: "decimal_parse (ind_value i) = Inr d" "jm_get m cat = Some d"
    using store_impacts_get [of "[]" ?inds m i] m i assms(3) by (auto simp: shared_impacts_def)
  have "map_of (map (\<lambda>i. (ind_category i, ind_value i)) (res_I r)) cat = Some (ind_value i)"
    using assms(2) i by (intro map_of_is_SomeI) (auto simp: comp_def)
  with d show ?thesis by (auto simp: impact_def)
qed

lemma compare_impacts_val:
  assumes cs: "rmap (compare_impact li ri) shared = Inr cs"
    and l: "\<And>cat. cat \<in> set shared \<Longrightarrow> \<exists>d. jm_get li cat = Some d \<and> dec_val d = impact left cat"
    and r: "\<And>cat. cat \<in> set shared \<Longrightarrow> \<exists>d. jm_get ri cat = Some d \<and> dec_val d = impact right cat"
  shows "list_all2 (\<lambda>c cat. (0 \<le> c \<longleftrightarrow> - impact right cat \<le> - impact left cat)
     \<and> (0 < c \<longleftrightarrow> - impact right cat < - impact left cat)) cs shared"
proof -
  have "(0 \<le> c \<longleftrightarrow> - impact right cat \<le> - impact left cat)
     \<and> (0 < c \<longleftrightarrow> - impact right cat < - impact left cat)"
    if c: "compare_impact li ri cat = Inr c" and cat: "cat \<in> set shared" for c cat
  proof -
    obtain a b where ab: "jm_get li cat = Some a" "dec_val a = impact left cat"
      "jm_get ri cat = Some b" "dec_val b = impact right cat" using l [OF cat] r [OF cat] by blast
    then obtain k where k: "decimal_compare a b = Inr k" "c = - k"
      using c by (auto simp: compare_impact_def outcome_simps)
    from decimal_compare_val [OF k(1)] k(2) ab show ?thesis by (auto simp: not_less [symmetric])
  qed
  with cs show ?thesis
    unfolding rmap_Inr_iff by (auto simp: list_all2_conv_all_nth)
qed

definition has_shared :: "string list \<Rightarrow> route_result \<Rightarrow> bool" where
  "has_shared shared r = (distinct (map ind_category (res_I r)) \<and> set shared \<subseteq> ind_category ` set (res_I r))"

lemma all_nonneg_iff_dominates:
  assumes "list_all2 (\<lambda>c p. (0 \<le> c \<longleftrightarrow> snd p \<le> fst p) \<and> (0 < c \<longleftrightarrow> snd p < fst p)) cs (zip xs ys)"
    and "length xs = length ys"
  shows "(list_all (\<lambda>v. v \<ge> 0) cs \<and> list_ex (\<lambda>v. v > (0 :: int)) cs)
    \<longleftrightarrow> (list_all2 (\<le>) ys xs \<and> xs \<noteq> (ys :: rat list))"
proof -
  have len: "length cs = length xs" using assms by (auto dest: list_all2_lengthD)
  have c: "(0 \<le> cs ! k \<longleftrightarrow> ys ! k \<le> xs ! k) \<and> (0 < cs ! k \<longleftrightarrow> ys ! k < xs ! k)" if "k < length cs" for k
    using assms that len by (simp add: list_all2_conv_all_nth)
  have all: "list_all (\<lambda>v. v \<ge> 0) cs \<longleftrightarrow> list_all2 (\<le>) ys xs"
    using c len assms(2) by (simp add: list_all_length list_all2_conv_all_nth)
  have "list_ex (\<lambda>v. v > 0) cs \<longleftrightarrow> xs \<noteq> ys" if "list_all2 (\<le>) ys xs"
  proof -
    have "list_ex (\<lambda>v. v > 0) cs \<longleftrightarrow> (\<exists>k<length xs. ys ! k < xs ! k)"
      using c len by (auto simp: list_ex_length)
    also have "\<dots> \<longleftrightarrow> xs \<noteq> ys"
    proof -
      have "ys ! k \<le> xs ! k" if "k < length xs" for k
        using \<open>list_all2 (\<le>) ys xs\<close> that by (simp add: list_all2_conv_all_nth)
      then have "(\<exists>k<length xs. ys ! k < xs ! k) \<longleftrightarrow> (\<exists>k<length xs. xs ! k \<noteq> ys ! k)"
        by (metis less_le)
      also have "\<dots> \<longleftrightarrow> xs \<noteq> ys" using assms(2) by (auto simp: list_eq_iff_nth_eq)
      finally show ?thesis .
    qed
    finally show ?thesis .
  qed
  with all show ?thesis by blast
qed

lemma dominance_comparisons_val:
  assumes cs: "dominance_comparisons shared left right = Inr cs"
    and "has_shared shared left" "has_shared shared right"
  shows "(list_all (\<lambda>v. v \<ge> 0) cs \<and> list_ex (\<lambda>v. v > 0) cs) \<longleftrightarrow> dominates shared left right"
proof -
  obtain li ri c a e imp where i: "shared_impacts shared left = Inr li" "shared_impacts shared right = Inr ri"
    and cae: "compare_text (C_lower (res_C left)) (C_lower (res_C right)) = Inr c"
      "compare_text (coverage (res_A left)) (coverage (res_A right)) = Inr a"
      "compare_text (netPresentValue (res_E left)) (netPresentValue (res_E right)) = Inr e"
    and imp: "rmap (compare_impact li ri) shared = Inr imp" "cs = [c, a, e] @ imp"
    using cs by (auto simp: dominance_comparisons_def outcome_simps)
  have "list_all2 (\<lambda>c cat. (0 \<le> c \<longleftrightarrow> - impact right cat \<le> - impact left cat)
     \<and> (0 < c \<longleftrightarrow> - impact right cat < - impact left cat)) imp shared"
    by (rule compare_impacts_val [OF imp(1)];
        rule shared_impacts_get [OF i(1)] shared_impacts_get [OF i(2)];
        use assms(2,3) in \<open>auto simp: has_shared_def\<close>)
  then have "list_all2 (\<lambda>c p. (0 \<le> c \<longleftrightarrow> snd p \<le> fst p) \<and> (0 < c \<longleftrightarrow> snd p < fst p)) cs
      (zip (measures shared left) (measures shared right))"
    using cae [THEN compare_text_val] imp(2)
    by (simp add: measures_def zip_map_map list_all2_map2 zip_same_conv_map)
  from all_nonneg_iff_dominates [OF this] show ?thesis by (simp add: dominates_def measures_def)
qed

lemma paretoDominance_iff:
  assumes doms: "paretoDominance rs shared = Inr doms"
    and sh: "\<And>r. r \<in> set rs \<Longrightarrow> res_G r = PASS \<Longrightarrow> has_shared shared r"
  shows "(x, y) \<in> set doms \<longleftrightarrow> (\<exists>l\<in>set rs. \<exists>r\<in>set rs. routeId l = x \<and> routeId r = y \<and> x \<noteq> y
     \<and> res_G l = PASS \<and> res_G r = PASS \<and> dominates shared l r)"
proof -
  obtain ps where ps: "rmap (dominance_pair shared) (List.product rs rs) = Inr ps" "doms = concat ps"
    using doms by (auto simp: paretoDominance_def outcome_simps)
  have pair: "(x, y) \<in> set p \<longleftrightarrow> routeId l = x \<and> routeId r = y \<and> x \<noteq> y
     \<and> res_G l = PASS \<and> res_G r = PASS \<and> dominates shared l r"
    if p: "dominance_pair shared (l, r) = Inr p" and lr: "l \<in> set rs" "r \<in> set rs" for l r p
  proof (cases "routeId l = routeId r \<or> res_G l \<noteq> PASS \<or> res_G r \<noteq> PASS")
    case True
    with p have "p = []" by (simp add: dominance_pair_def)
    with True show ?thesis by auto
  next
    case False
    then obtain cs where cs: "dominance_comparisons shared l r = Inr cs"
      "p = (if list_all (\<lambda>v. v \<ge> 0) cs \<and> list_ex (\<lambda>v. v > 0) cs then [(routeId l, routeId r)] else [])"
      using p by (auto simp: dominance_pair_def outcome_simps)
    with dominance_comparisons_val [OF cs(1)] sh lr False show ?thesis by auto
  qed
  show ?thesis
  proof
    assume "(x, y) \<in> set doms"
    then obtain p where p: "p \<in> set ps" "(x, y) \<in> set p" using ps(2) by auto
    then obtain l r where "l \<in> set rs" "r \<in> set rs" "dominance_pair shared (l, r) = Inr p"
      using rmap_Inr_in_set [OF ps(1)] by fastforce
    with pair p(2) show "\<exists>l\<in>set rs. \<exists>r\<in>set rs. routeId l = x \<and> routeId r = y \<and> x \<noteq> y
     \<and> res_G l = PASS \<and> res_G r = PASS \<and> dominates shared l r" by blast
  next
    assume "\<exists>l\<in>set rs. \<exists>r\<in>set rs. routeId l = x \<and> routeId r = y \<and> x \<noteq> y
     \<and> res_G l = PASS \<and> res_G r = PASS \<and> dominates shared l r"
    then obtain l r where lr: "l \<in> set rs" "r \<in> set rs" "routeId l = x \<and> routeId r = y \<and> x \<noteq> y
     \<and> res_G l = PASS \<and> res_G r = PASS \<and> dominates shared l r" by blast
    then have "(l, r) \<in> set (List.product rs rs)" by simp
    then obtain k where k: "k < length (List.product rs rs)" "List.product rs rs ! k = (l, r)"
      by (metis in_set_conv_nth)
    then have "dominance_pair shared (l, r) = Inr (ps ! k)" "ps ! k \<in> set ps"
      using rmap_Inr_nth [OF ps(1) k(1)] rmap_Inr_length [OF ps(1)] by simp_all
    with pair lr ps(2) show "(x, y) \<in> set doms" by auto
  qed
qed

subsection \<open>One route\<close>

lemma assessRoute_Inr:
  assumes "assessRoute le i = Inr r"
  shows "routeId r = input_routeId i
    \<and> evidenceAdequacy (evidence i) = Inr (res_A r)
    \<and> circularityScore (circularity i) = Inr (res_C r)
    \<and> environmentalIndicators le (environmental i) (functionalUnit i) = Inr (res_I r)
    \<and> economicResult (economics i) = Inr (res_E r)
    \<and> res_G r = technical_gate (eval_outcome (ruleEvaluation i)) (length (missingCritical (res_A r)) > 0)
    \<and> rankStable (res_U r) = ranks_stable (uncertaintyScenarios i)"
  using assms by (auto simp: assessRoute_def outcome_simps Let_def)

lemma technical_gate_PASS: "technical_gate q u = PASS \<longleftrightarrow> q = PASS \<and> \<not> u"
  by (cases q) (auto simp: technical_gate_def)

lemma assessRoute_PASS_iff:
  assumes "assessRoute le i = Inr r"
  shows "res_G r = PASS \<longleftrightarrow> eval_outcome (ruleEvaluation i) = PASS
     \<and> (\<forall>f\<in>set (evidence i). critical f \<longrightarrow> field_usable f)"
  using assessRoute_Inr [OF assms] missingCritical_Nil_iff
  by (auto simp: technical_gate_PASS)

lemma ranks_of_all_ranked:
  "length (ranks_of ss) = length ss \<Longrightarrow> map routeRank ss = map Some (ranks_of ss)"
proof (induction ss)
  case (Cons s ss)
  have "length (ranks_of ss) \<le> length ss"
    by (simp add: ranks_of_def map_filter_def)
  with Cons show ?case by (cases "routeRank s") (auto simp: ranks_of_def)
qed (simp add: ranks_of_def)

lemma ranks_stable_iff:
  "ranks_stable ss \<longleftrightarrow> ss \<noteq> [] \<and> (\<exists>k. \<forall>s\<in>set ss. gate s = PASS \<and> routeRank s = Some k)"
proof
  assume st: "ranks_stable ss"
  then have len: "length (ranks_of ss) = length ss" and all: "\<forall>k\<in>set (ranks_of ss). k = ranks_of ss ! 0"
    and ne: "ss \<noteq> []" and g: "length (filter (\<lambda>s. gate s = PASS) ss) = length ss"
    by (auto simp: ranks_stable_def Let_def list_all_iff)
  have "routeRank s = Some (ranks_of ss ! 0)" if "s \<in> set ss" for s
  proof -
    have "routeRank s \<in> set (map Some (ranks_of ss))"
      using that ranks_of_all_ranked [OF len] by (metis image_eqI list.set_map)
    with all show ?thesis by auto
  qed
  moreover have "\<forall>s\<in>set ss. gate s = PASS"
    using g sum_length_filter_compl [of "\<lambda>s. gate s = PASS" ss] by (simp add: filter_empty_conv)
  ultimately show "ss \<noteq> [] \<and> (\<exists>k. \<forall>s\<in>set ss. gate s = PASS \<and> routeRank s = Some k)" using ne by blast
next
  assume "ss \<noteq> [] \<and> (\<exists>k. \<forall>s\<in>set ss. gate s = PASS \<and> routeRank s = Some k)"
  then obtain k where ne: "ss \<noteq> []" and k: "\<forall>s\<in>set ss. gate s = PASS \<and> routeRank s = Some k" by blast
  have "ranks_of ss = map (\<lambda>_. k) ss"
    using k by (induction ss) (auto simp: ranks_of_def)
  moreover have "filter (\<lambda>s. gate s = PASS) ss = ss" using k by (auto simp: filter_id_conv)
  ultimately show "ranks_stable ss" using ne by (simp add: ranks_stable_def Let_def list_all_iff)
qed

subsection \<open>The decision\<close>

lemma stable_winner_Some:
  assumes "stable_winner inputs results = Some w"
  shows "\<exists>i r. (i, r) \<in> set (zip inputs results) \<and> routeId r = w \<and> res_G r = PASS
     \<and> (\<forall>k\<in>set (ranks_of (uncertaintyScenarios i)). k = 1)"
proof -
  define winners where "winners = filter (\<lambda>(r, ranks). length ranks > 0 \<and> list_all (\<lambda>k. k = 1) ranks)
     (filter (\<lambda>(r, ranks). res_G r = PASS \<and> length ranks > 0)
            (map (\<lambda>(i, r). (r, ranks_of (uncertaintyScenarios i))) (zip inputs results)))"
  have "(case winners of [(r, ranks)] \<Rightarrow> Some (routeId r) | _ \<Rightarrow> None) = Some w"
    using assms by (simp only: stable_winner_def Let_def winners_def)
  then have "\<exists>r ranks. (r, ranks) \<in> set winners \<and> routeId r = w"
    by (cases winners) (auto split: list.splits)
  then show ?thesis by (auto simp: winners_def list_all_iff)
qed

lemma decide_preferred:
  assumes "decide inputs results doms hasShared excl = (state, preferred, warns)"
  shows "(state = Answer \<longleftrightarrow> preferred \<noteq> None) \<and>
    (\<forall>w. preferred = Some w \<longrightarrow> hasShared
       \<and> (\<exists>i r. (i, r) \<in> set (zip inputs results) \<and> routeId r = w \<and> res_G r = PASS
             \<and> (\<forall>k\<in>set (ranks_of (uncertaintyScenarios i)). k = 1))
       \<and> map routeId (filter (\<lambda>r. routeId r \<notin> set (map snd doms)) (filter (\<lambda>r. res_G r = PASS) results)) = [w]
       \<and> (\<forall>r\<in>set results. res_G r \<noteq> UNKNOWN \<and> (res_G r = PASS \<longrightarrow> rankStable (res_U r)))
       \<and> (\<forall>i\<in>set inputs. \<forall>f\<in>set (evidence i). \<not> (conflicting f \<and> critical f)))"
  using assms stable_winner_Some unfolding decide_def Let_def
  by (auto simp: list_ex_iff list_all_iff split: if_splits)

lemma assess_Inr:
  assumes "assess dg le basis inputs = Inr a"
  shows "assessmentInputPayload_ok basis \<and> map input_routeId inputs = FORMAL_ROUTES
    \<and> rmap (assessRoute le) inputs = Inr (routes a)
    \<and> validateUncertaintyScenarioComparability
        (map fst (filter (\<lambda>(i, r). res_G r = PASS) (zip inputs (routes a)))) = Inr ()
    \<and> calculation_inputs_digest basis = sha256_digest (calculationDigest dg inputs)
    \<and> assessmentInputId a = assessment_input_id basis
    \<and> assessmentInputVersion a = assessment_input_version basis
    \<and> reproductionHash a = sha256_digest (reproductionDigest dg basis inputs (unsigned_assessment.truncate a))
    \<and> (let pass = filter (\<lambda>r. res_G r = PASS) (routes a); shared = environmentalCategoriesSharedBy pass;
           hasShared = (length pass \<le> 1 \<or> length shared > 0)
       in (if hasShared then paretoDominance (routes a) shared else Inr []) = Inr (dominance a)
          \<and> decide inputs (routes a) (dominance a) hasShared (hasNonSharedEnvironmentalCategories pass shared)
             = (decisionState a, preferredRoute a, warnings a))"
proof -
  let ?pass = "\<lambda>rs. filter (\<lambda>r. res_G r = PASS) rs"
  let ?shared = "\<lambda>rs. environmentalCategoriesSharedBy (?pass rs)"
  let ?has = "\<lambda>rs. length (?pass rs) \<le> 1 \<or> length (?shared rs) > 0"
  let ?dec = "\<lambda>rs doms. decide inputs rs doms (?has rs) (hasNonSharedEnvironmentalCategories (?pass rs) (?shared rs))"
  let ?un = "\<lambda>rs doms. unsigned_result basis rs doms (?dec rs doms)"
  obtain rs doms where
    basis: "assessmentInputPayload_ok basis" "map input_routeId inputs = FORMAL_ROUTES"
      "calculation_inputs_digest basis = sha256_digest (calculationDigest dg inputs)"
    and rs: "rmap (assessRoute le) inputs = Inr rs"
    and val: "validateUncertaintyScenarioComparability
        (map fst (filter (\<lambda>(i, r). res_G r = PASS) (zip inputs rs))) = Inr ()"
    and doms: "(if ?has rs then paretoDominance rs (?shared rs) else Inr []) = Inr doms"
    and a: "a = unsigned_assessment.extend (?un rs doms)
         \<lparr>reproductionHash = sha256_digest (reproductionDigest dg basis inputs (?un rs doms))\<rparr>"
    using assms unfolding assess_def assess_valid_def
    by (auto simp: rbind_Inr_iff check_Inr_iff parse_with_Inr_iff Let_def sha256_digest_def
        intro!: digest.equality simp del: length_greater_0_conv)
  have un: "unsigned_assessment.truncate a = ?un rs doms"
    by (simp add: a unsigned_assessment.defs unsigned_result_def split: prod.splits)
  have fields: "routes a = rs" "dominance a = doms" "?dec rs doms = (decisionState a, preferredRoute a, warnings a)"
    "assessmentInputId a = assessment_input_id basis" "assessmentInputVersion a = assessment_input_version basis"
    "reproductionHash a = sha256_digest (reproductionDigest dg basis inputs (?un rs doms))"
    unfolding a by (cases "?dec rs doms"; simp only: unsigned_result_def prod.case unsigned_assessment.defs
        unsigned_assessment.simps assessment_result.simps)+
  show ?thesis
    unfolding un fields(1,2,4-6) Let_def using basis rs val doms fields(3) by blast
qed

lemma shared_subset:
  "r \<in> set rs \<Longrightarrow> set (environmentalCategoriesSharedBy rs) \<subseteq> ind_category ` set (res_I r)"
  by (cases rs) (auto simp: environmentalCategoriesSharedBy_def list_all_iff)

lemma assess_routes:
  assumes "assess dg le basis inputs = Inr a"
  shows "map routeId (routes a) = FORMAL_ROUTES \<and> length (routes a) = length inputs
    \<and> (\<forall>i r. (i, r) \<in> set (zip inputs (routes a)) \<longrightarrow> assessRoute le i = Inr r)"
proof -
  have rel: "list_all2 (\<lambda>i r. assessRoute le i = Inr r) inputs (routes a)"
    and ids: "map input_routeId inputs = FORMAL_ROUTES"
    using assess_Inr [OF assms] by (simp_all add: rmap_Inr_iff)
  have "map routeId (routes a) = map input_routeId inputs"
    using rel by (induction rule: list_all2_induct) (auto dest: assessRoute_Inr)
  with rel ids show ?thesis by (auto simp: list_all2_iff)
qed

lemma assess_routeId_inj:
  assumes "assess dg le basis inputs = Inr a" "x \<in> set (routes a)" "y \<in> set (routes a)" "routeId x = routeId y"
  shows "x = y"
proof -
  have "distinct (map routeId (routes a))"
    using assess_routes [OF assms(1)] by (simp add: FORMAL_ROUTES_def)
  then show ?thesis using assms(2-4) by (auto simp: distinct_map dest: inj_onD)
qed

definition shared_categories :: "assessment_result \<Rightarrow> string list" where
  "shared_categories a = environmentalCategoriesSharedBy (filter (\<lambda>r. res_G r = PASS) (routes a))"

lemma assess_has_shared:
  assumes a: "assess dg le basis inputs = Inr a" and r: "r \<in> set (routes a)" "res_G r = PASS"
  shows "has_shared (shared_categories a) r"
proof -
  have "rmap (assessRoute le) inputs = Inr (routes a)" using assess_Inr [OF a] by simp
  from rmap_Inr_in_set [OF this r(1)] obtain i where "assessRoute le i = Inr r" by blast
  from assessRoute_Inr [OF this] have "environmentalIndicators le (environmental i) (functionalUnit i) = Inr (res_I r)"
    by simp
  from environmentalIndicators_Inr [OF this] have "distinct (map ind_category (res_I r))" by simp
  with shared_subset [of r "filter (\<lambda>r. res_G r = PASS) (routes a)"] r show ?thesis
    by (simp add: has_shared_def shared_categories_def)
qed

lemma assess_dominance_iff:
  assumes a: "assess dg le basis inputs = Inr a"
  shows "(x, y) \<in> set (dominance a) \<longleftrightarrow> shared_categories a \<noteq> []
    \<and> (\<exists>l\<in>set (routes a). \<exists>r\<in>set (routes a). routeId l = x \<and> routeId r = y
        \<and> res_G l = PASS \<and> res_G r = PASS \<and> dominates (shared_categories a) l r)"
proof -
  let ?pass = "filter (\<lambda>r. res_G r = PASS) (routes a)"
  have d: "(if length ?pass \<le> 1 \<or> shared_categories a \<noteq> [] then paretoDominance (routes a) (shared_categories a) else Inr [])
      = Inr (dominance a)"
    using assess_Inr [OF a] unfolding Let_def length_greater_0_conv shared_categories_def by (elim conjE)
  have single: "l = r" if "length ?pass \<le> 1" "l \<in> set ?pass" "r \<in> set ?pass" for l r
    using that by (cases ?pass) auto
  have neq: "routeId l \<noteq> routeId r" if "l \<in> set (routes a)" "r \<in> set (routes a)" "dominates (shared_categories a) l r" for l r
    using that assess_routeId_inj [OF a that(1,2)] dominates_irrefl by blast
  show ?thesis
  proof (cases "length ?pass \<le> 1 \<or> shared_categories a \<noteq> []")
    case True
    then have "paretoDominance (routes a) (shared_categories a) = Inr (dominance a)" using d by simp
    note iff = paretoDominance_iff [OF this assess_has_shared [OF a], of x y]
    have "shared_categories a \<noteq> []" if "l \<in> set (routes a)" "r \<in> set (routes a)" "res_G l = PASS" "res_G r = PASS"
      "dominates (shared_categories a) l r" for l r
      using that True single [of l r] neq [of l r] by auto
    then show ?thesis using iff neq by blast
  qed (use d in auto)
qed

lemma preferred_above_all:
  assumes a: "assess dg le basis inputs = Inr a" and w: "preferredRoute a = Some w"
    and r: "r \<in> set (routes a)" "routeId r = w" and s: "s \<in> set (routes a)" "res_G s = PASS" "s \<noteq> r"
  shows "dominates (shared_categories a) r s"
proof -
  let ?S = "{x \<in> set (routes a). res_G x = PASS}" and ?R = "dominates (shared_categories a)"
  have has: "paretoDominance (routes a) (shared_categories a) = Inr (dominance a)"
    and win: "map routeId (filter (\<lambda>r. routeId r \<notin> set (map snd (dominance a)))
        (filter (\<lambda>r. res_G r = PASS) (routes a))) = [w]"
    using assess_Inr [OF a] w
    by (auto simp: Let_def shared_categories_def dest!: decide_preferred split: if_splits)
  have "x = r \<or> ?R r x" if "x \<in> ?S" for x
  proof (rule unique_maximal_above [where S = ?S and R = ?R])
    fix x assume x: "x \<in> ?S" "\<forall>y\<in>?S. \<not> ?R y x"
    have "routeId x \<notin> set (map snd (dominance a))"
    proof
      assume "routeId x \<in> set (map snd (dominance a))"
      then obtain u where "(u, routeId x) \<in> set (dominance a)" by auto
      then obtain l r' where "l \<in> ?S" "r' \<in> set (routes a)" "routeId r' = routeId x" "?R l r'"
        using paretoDominance_iff [OF has assess_has_shared [OF a], of u "routeId x"] by auto
      moreover from this have "r' = x" using assess_routeId_inj [OF a] x(1) by blast
      ultimately show False using x(2) by blast
    qed
    then have "routeId x \<in> set (map routeId (filter (\<lambda>r. routeId r \<notin> set (map snd (dominance a)))
        (filter (\<lambda>r. res_G r = PASS) (routes a))))" using x(1) by auto
    then have "routeId x = w" unfolding win by simp
    then show "x = r" using assess_routeId_inj [OF a] x(1) r by blast
  qed (use that in \<open>auto simp: dominates_irrefl intro: dominates_trans\<close>)
  with s show ?thesis by blast
qed

lemma preferred_route_supported:
  assumes a: "assess dg le basis inputs = Inr a" and w: "preferredRoute a = Some w"
  shows "\<exists>i r. (i, r) \<in> set (zip inputs (routes a)) \<and> input_routeId i = w \<and> routeId r = w
    \<and> eval_outcome (ruleEvaluation i) = PASS \<and> (\<forall>f\<in>set (evidence i). critical f \<longrightarrow> field_usable f)
    \<and> uncertaintyScenarios i \<noteq> []
    \<and> (\<forall>s\<in>set (uncertaintyScenarios i). gate s = PASS \<and> routeRank s = Some 1)
    \<and> (\<forall>s\<in>set (routes a). s \<noteq> r \<longrightarrow> res_G s = FAIL \<or> (res_G s = PASS \<and> dominates (shared_categories a) r s))"
proof -
  have d: "\<exists>i r. (i, r) \<in> set (zip inputs (routes a)) \<and> routeId r = w \<and> res_G r = PASS
             \<and> (\<forall>k\<in>set (ranks_of (uncertaintyScenarios i)). k = 1)"
    "\<forall>r\<in>set (routes a). res_G r \<noteq> UNKNOWN \<and> (res_G r = PASS \<longrightarrow> rankStable (res_U r))"
    using assess_Inr [OF a] w by (auto simp: Let_def dest!: decide_preferred)
  then obtain i r where ir: "(i, r) \<in> set (zip inputs (routes a))" "routeId r = w" "res_G r = PASS"
    "\<forall>k\<in>set (ranks_of (uncertaintyScenarios i)). k = 1" by blast
  then have r: "r \<in> set (routes a)" by (meson in_set_zipE)
  have one: "assessRoute le i = Inr r" using assess_routes [OF a] ir(1) by blast
  then obtain k where k: "uncertaintyScenarios i \<noteq> []"
    "\<forall>s\<in>set (uncertaintyScenarios i). gate s = PASS \<and> routeRank s = Some k"
    using assessRoute_Inr [OF one] d(2) r ir(3) by (auto simp: ranks_stable_iff)
  have "set (ranks_of (uncertaintyScenarios i)) = {k}"
    using k by (auto simp: ranks_of_def map_filter_def image_iff) (metis hd_in_set option.sel)
  then have "k = 1" using ir(4) by simp
  moreover have "res_G s = FAIL \<or> (res_G s = PASS \<and> dominates (shared_categories a) r s)"
    if "s \<in> set (routes a)" "s \<noteq> r" for s
    using preferred_above_all [OF a w r ir(2)] that d(2) tri.exhaust by metis
  ultimately show ?thesis
    using ir k assessRoute_Inr [OF one] assessRoute_PASS_iff [OF one]
    by (intro exI [of _ i] exI [of _ r]) simp
qed

lemma decide_external:
  "decide inputs results doms hasShared excl = (state, preferred, warns) \<Longrightarrow>
     (state = RequiresExternalDecision \<longleftrightarrow> (\<exists>i\<in>set inputs. \<exists>f\<in>set (evidence i). conflicting f \<and> critical f))
     \<and> ((\<exists>r\<in>set results. res_G r = UNKNOWN) \<longrightarrow> state \<noteq> Answer)"
  unfolding decide_def Let_def by (auto simp: list_ex_iff split: if_splits)

lemma dominance_pairs_order:
  assumes a: "assess dg le basis inputs = Inr a"
  shows "(\<forall>x. (x, x) \<notin> set (dominance a))
    \<and> (\<forall>x y z. (x, y) \<in> set (dominance a) \<longrightarrow> (y, z) \<in> set (dominance a) \<longrightarrow> (x, z) \<in> set (dominance a))"
proof (cases "paretoDominance (routes a) (shared_categories a) = Inr (dominance a)")
  case True
  let ?P = "\<lambda>l r. res_G l = PASS \<and> res_G r = PASS \<and> dominates (shared_categories a) l r"
  note iff = paretoDominance_iff [OF True assess_has_shared [OF a]]
  have "(x, z) \<in> set (dominance a)" if xy: "(x, y) \<in> set (dominance a)" and yz: "(y, z) \<in> set (dominance a)"
    for x y z
  proof -
    obtain l m where l: "l \<in> set (routes a)" "m \<in> set (routes a)" "routeId l = x" "routeId m = y" "?P l m"
      using xy iff by blast
    obtain m' r where m': "m' \<in> set (routes a)" "r \<in> set (routes a)" "routeId m' = y" "routeId r = z" "?P m' r"
      using yz iff by blast
    have "m' = m" using assess_routeId_inj [OF a] l(2,4) m'(1,3) by blast
    then have P: "?P l r" using l(5) m'(5) dominates_trans by blast
    then have "l \<noteq> r" using dominates_irrefl by blast
    then have "x \<noteq> z" using assess_routeId_inj [OF a l(1) m'(2)] l(3) m'(4) by auto
    with P l m' iff show ?thesis by blast
  qed
  then show ?thesis using iff by blast
next
  case False
  then show ?thesis
    using assess_Inr [OF a] by (auto simp: Let_def shared_categories_def split: if_splits)
qed

end
