(* ===== verification/Evidence_Ledger.thy ===== *)
theory Evidence_Ledger
  imports Schemas
begin

text \<open>
  \<open>EvidenceLedger\<close> of \<open>src/evidence/evidence-ledger.ts\<close>: versions of evidence claims, verification
  assertions on them and disputes. The state is the three maps of the class. No operation changes
  the state and then throws, so an operation returns an error or a result with the new ledger. The
  invariant is that the versions of a claim are numbered from one without gaps, all but the last are
  superseded, an open dispute points at an active version and no organisation verifies its own
  evidence.
\<close>

datatype evidence_lifecycle = EvActive | EvRevoked | EvSuperseded
datatype assertion_lifecycle = AsActive | AsSuperseded | AsWithdrawn
datatype dispute_lifecycle =
  ClosedByAssertionWithdrawal | ClosedBySupersession | DisputeOpen | ReferredExternal | DisputeWithdrawn

record evidence_record =
  activatedAt :: int
  ev_payload :: evidence_payload
  ev_status :: evidence_lifecycle

record assertion_record =
  as_payload :: verification_payload
  as_status :: assertion_lifecycle

record dispute_input =
  d_claimId :: string
  d_claimVersion :: int
  disputeId :: string
  openedByOrganizationId :: string
  d_reason :: string

record dispute_record = dispute_input +
  d_status :: dispute_lifecycle

datatype ledger_error = LConflict | InvalidPrior | InvalidState | LNotFound | SelfVerification | LSchemaRejected

record evidence_ledger =
  assertions :: "(string, assertion_record) jmap"
  disputes :: "(string, dispute_record) jmap"
  versions :: "(string, evidence_record list) jmap"

definition empty_ledger :: evidence_ledger where
  "empty_ledger = \<lparr>assertions = [], disputes = [], versions = []\<rparr>"

definition closeDisputes :: "string \<Rightarrow> int \<Rightarrow> dispute_lifecycle \<Rightarrow> evidence_ledger \<Rightarrow> evidence_ledger" where
  "closeDisputes claimId version status l =
     l\<lparr>disputes := jm_map (\<lambda>_ d. if d_claimId d = claimId \<and> d_claimVersion d = version \<and> d_status d = DisputeOpen
        then d\<lparr>d_status := status\<rparr> else d) (disputes l)\<rparr>"

definition claim_versions :: "evidence_ledger \<Rightarrow> string \<Rightarrow> evidence_record list" where
  "claim_versions l c = (case jm_get (versions l) c of None \<Rightarrow> [] | Some vs \<Rightarrow> vs)"

definition evidence_version_of :: "evidence_ledger \<Rightarrow> string \<Rightarrow> int \<Rightarrow> ledger_error + evidence_record" where
  "evidence_version_of l claimId version =
     from_option LNotFound (find (\<lambda>r. claim_version (ev_payload r) = version) (claim_versions l claimId))"

fun replace_first :: "int \<Rightarrow> evidence_record \<Rightarrow> evidence_record list \<Rightarrow> evidence_record list" where
  "replace_first version changed [] = []"
| "replace_first version changed (r # rs) =
     (if claim_version (ev_payload r) = version then changed # rs else r # replace_first version changed rs)"

definition replaceVersion :: "string \<Rightarrow> int \<Rightarrow> evidence_record \<Rightarrow> evidence_ledger \<Rightarrow> ledger_error + evidence_ledger" where
  "replaceVersion claimId version changed l =
     rbind (from_option LNotFound (jm_get (versions l) claimId)) (\<lambda>vs.
     rbind (check (\<not> list_ex (\<lambda>r. claim_version (ev_payload r) = version) vs) LNotFound) (\<lambda>_.
     Inr (l\<lparr>versions := jm_set claimId (replace_first version changed vs) (versions l)\<rparr>)))"

definition activate ::
  "evidence_ledger \<Rightarrow> evidence_payload \<Rightarrow> int \<Rightarrow> int \<Rightarrow> ledger_error + evidence_record \<times> evidence_ledger" where
  "activate l payloadInput expectedPriorVersion now =
     rbind (parse_with evidenceClaimPayload_ok LSchemaRejected payloadInput) (\<lambda>payload.
     let vs = claim_versions l (claim_id payload);
         prior = (if vs = [] then None else Some (last vs)) in
     rbind (check ((case prior of None \<Rightarrow> 0 | Some p \<Rightarrow> claim_version (ev_payload p)) \<noteq> expectedPriorVersion)
              InvalidPrior) (\<lambda>_.
     rbind (check (claim_version payload \<noteq> expectedPriorVersion + 1
                   \<or> list_ex (\<lambda>r. claim_version (ev_payload r) = claim_version payload) vs) LConflict) (\<lambda>_.
     rbind (check (case prior of None \<Rightarrow> False | Some p \<Rightarrow> ev_status p \<noteq> EvActive) InvalidState) (\<lambda>_.
     let (vs1, l1) = (case prior of None \<Rightarrow> (vs, l)
            | Some p \<Rightarrow> (vs[length vs - 1 := p\<lparr>ev_status := EvSuperseded\<rparr>],
                         closeDisputes (claim_id payload) expectedPriorVersion ClosedBySupersession l));
         record = \<lparr>activatedAt = now, ev_payload = payload, ev_status = EvActive\<rparr>
     in Inr (record, l1\<lparr>versions := jm_set (claim_id payload) (vs1 @ [record]) (versions l1)\<rparr>)))))"

definition revoke :: "evidence_ledger \<Rightarrow> string \<Rightarrow> int \<Rightarrow> ledger_error + evidence_record \<times> evidence_ledger" where
  "revoke l claimId version =
     rbind (evidence_version_of l claimId version) (\<lambda>record.
     rbind (check (ev_status record \<noteq> EvActive) InvalidState) (\<lambda>_.
     let changed = record\<lparr>ev_status := EvRevoked\<rparr> in
     rbind (replaceVersion claimId version changed l) (\<lambda>l1.
     Inr (changed, closeDisputes claimId version ReferredExternal l1))))"

definition addVerification ::
  "evidence_ledger \<Rightarrow> verification_payload \<Rightarrow> ledger_error + assertion_record \<times> evidence_ledger" where
  "addVerification l payloadInput =
     rbind (parse_with verificationPayload_ok LSchemaRejected payloadInput) (\<lambda>payload.
     rbind (evidence_version_of l (verified_claim_id payload) (verified_claim_version payload)) (\<lambda>ev.
     rbind (check (ev_status ev \<noteq> EvActive) InvalidState) (\<lambda>_.
     rbind (check (issuer_organization_id (ev_payload ev) = verifier_organization_id payload)
              SelfVerification) (\<lambda>_.
     let key = versionKey (verification_id payload) (verification_version payload) in
     rbind (check (jm_has (assertions l) key) LConflict) (\<lambda>_.
     let record = \<lparr>as_payload = payload, as_status = AsActive\<rparr> in
     Inr (record, l\<lparr>assertions := jm_set key record (assertions l)\<rparr>))))))"

definition assertion :: "evidence_ledger \<Rightarrow> string \<Rightarrow> int \<Rightarrow> ledger_error + assertion_record" where
  "assertion l verificationId version =
     from_option LNotFound (jm_get (assertions l) (versionKey verificationId version))"

definition withdrawVerification ::
  "evidence_ledger \<Rightarrow> string \<Rightarrow> int \<Rightarrow> ledger_error + assertion_record \<times> evidence_ledger" where
  "withdrawVerification l verificationId version =
     rbind (assertion l verificationId version) (\<lambda>record.
     rbind (check (as_status record \<noteq> AsActive) InvalidState) (\<lambda>_.
     let changed = record\<lparr>as_status := AsWithdrawn\<rparr> in
     Inr (changed, l\<lparr>assertions := jm_set (versionKey verificationId version) changed (assertions l)\<rparr>)))"

definition dispute :: "evidence_ledger \<Rightarrow> string \<Rightarrow> ledger_error + dispute_record" where
  "dispute l i = from_option LNotFound (jm_get (disputes l) i)"

definition openDispute :: "evidence_ledger \<Rightarrow> dispute_input \<Rightarrow> ledger_error + dispute_record \<times> evidence_ledger" where
  "openDispute l input =
     rbind (check (jm_has (disputes l) (disputeId input)) LConflict) (\<lambda>_.
     rbind (evidence_version_of l (d_claimId input) (d_claimVersion input)) (\<lambda>ev.
     rbind (check (ev_status ev \<noteq> EvActive) InvalidState) (\<lambda>_.
     let record = dispute_input.extend input \<lparr>d_status = DisputeOpen\<rparr> in
     Inr (record, l\<lparr>disputes := jm_set (disputeId input) record (disputes l)\<rparr>))))"

datatype dispute_change = ReferExternally | WithdrawDispute

fun change_status :: "dispute_change \<Rightarrow> dispute_lifecycle" where
  "change_status ReferExternally = ReferredExternal"
| "change_status WithdrawDispute = DisputeWithdrawn"

definition changeDispute ::
  "evidence_ledger \<Rightarrow> string \<Rightarrow> dispute_change \<Rightarrow> ledger_error + dispute_record \<times> evidence_ledger" where
  "changeDispute l i state =
     rbind (dispute l i) (\<lambda>record.
     rbind (check (d_status record \<noteq> DisputeOpen) InvalidState) (\<lambda>_.
     let changed = record\<lparr>d_status := change_status state\<rparr> in
     Inr (changed, l\<lparr>disputes := jm_set i changed (disputes l)\<rparr>)))"

definition current_evidence :: "evidence_ledger \<Rightarrow> string \<Rightarrow> ledger_error + evidence_record" where
  "current_evidence l claimId =
     (let vs = claim_versions l claimId in if vs = [] then Inl LNotFound else Inr (last vs))"

definition history :: "evidence_ledger \<Rightarrow> string \<Rightarrow> evidence_record list" where
  "history l claimId = claim_versions l claimId"

subsection \<open>The ledger as a system\<close>

datatype ledger_op =
  OpActivate evidence_payload int int | OpRevoke string int | OpAddVerification verification_payload
  | OpWithdrawVerification string int | OpOpenDispute dispute_input | OpChangeDispute string dispute_change

fun ledger_step :: "evidence_ledger \<Rightarrow> ledger_op \<Rightarrow> evidence_ledger" where
  "ledger_step l (OpActivate p prior now) = keep l (activate l p prior now)"
| "ledger_step l (OpRevoke c v) = keep l (revoke l c v)"
| "ledger_step l (OpAddVerification p) = keep l (addVerification l p)"
| "ledger_step l (OpWithdrawVerification i v) = keep l (withdrawVerification l i v)"
| "ledger_step l (OpOpenDispute d) = keep l (openDispute l d)"
| "ledger_step l (OpChangeDispute i s) = keep l (changeDispute l i s)"

definition chain_ok :: "string \<Rightarrow> evidence_record list \<Rightarrow> bool" where
  "chain_ok c vs =
     (list_all (\<lambda>r. claim_id (ev_payload r) = c \<and> evidenceClaimPayload_ok (ev_payload r)) vs
      \<and> map (\<lambda>r. claim_version (ev_payload r)) vs = map int [1..<Suc (length vs)]
      \<and> list_all (\<lambda>r. ev_status r = EvSuperseded) (butlast vs)
      \<and> (vs = [] \<or> ev_status (last vs) \<noteq> EvSuperseded))"

definition assertion_ok :: "evidence_ledger \<Rightarrow> string \<Rightarrow> assertion_record \<Rightarrow> bool" where
  "assertion_ok l k a = (k = versionKey (verification_id (as_payload a)) (verification_version (as_payload a))
     \<and> list_ex (\<lambda>r. claim_version (ev_payload r) = verified_claim_version (as_payload a)
          \<and> issuer_organization_id (ev_payload r) \<noteq> verifier_organization_id (as_payload a))
        (claim_versions l (verified_claim_id (as_payload a))))"

definition dispute_ok :: "evidence_ledger \<Rightarrow> string \<Rightarrow> dispute_record \<Rightarrow> bool" where
  "dispute_ok l k d = (k = disputeId d
     \<and> (d_status d = DisputeOpen \<longrightarrow> list_ex (\<lambda>r. claim_version (ev_payload r) = d_claimVersion d \<and> ev_status r = EvActive)
          (claim_versions l (d_claimId d))))"

definition ledger_inv :: "evidence_ledger \<Rightarrow> bool" where
  "ledger_inv l = (jm_ok (versions l) \<and> jm_ok (assertions l) \<and> jm_ok (disputes l)
     \<and> (\<forall>c. chain_ok c (claim_versions l c))
     \<and> (\<forall>k a. jm_get (assertions l) k = Some a \<longrightarrow> assertion_ok l k a)
     \<and> (\<forall>k d. jm_get (disputes l) k = Some d \<longrightarrow> dispute_ok l k d))"

lemma ledger_inv_empty: "ledger_inv empty_ledger"
  by (simp add: ledger_inv_def empty_ledger_def claim_versions_def chain_ok_def)

subsection \<open>Chains of versions\<close>

lemma chain_versions: "chain_ok c vs \<Longrightarrow> i < length vs \<Longrightarrow> claim_version (ev_payload (vs ! i)) = int i + 1"
proof -
  assume "chain_ok c vs" and i: "i < length vs"
  then have "map (\<lambda>r. claim_version (ev_payload r)) vs ! i = map int [1..<Suc (length vs)] ! i"
    by (simp add: chain_ok_def)
  with i show ?thesis by (simp del: upt_Suc)
qed

lemma chain_last:
  assumes "chain_ok c vs" and "vs \<noteq> []"
  shows "claim_version (ev_payload (last vs)) = int (length vs)"
proof -
  have "length vs - 1 < length vs" "int (length vs - 1) + 1 = int (length vs)"
    using assms(2) by (auto simp: Suc_le_eq of_nat_diff)
  with chain_versions [OF assms(1), of "length vs - 1"] assms(2) show ?thesis by (simp add: last_conv_nth)
qed

lemma chain_split: "vs \<noteq> [] \<Longrightarrow> set vs = insert (last vs) (set (butlast vs))"
  by (metis append_butlast_last_id insert_is_Un list.set(1,2) set_append sup_commute)

lemma chain_active:
  assumes "chain_ok c vs" and "r \<in> set vs" and "ev_status r = EvActive"
  shows "r = last vs"
  using assms chain_split [of vs] by (cases "vs = []") (auto simp: chain_ok_def list_all_iff)

lemma chain_distinct:
  assumes "chain_ok c vs" and "r \<in> set vs" "s \<in> set vs"
    and "claim_version (ev_payload r) = claim_version (ev_payload s)"
  shows "r = s"
  using assms chain_versions [OF assms(1)] by (auto simp: in_set_conv_nth)

lemma replace_first_last:
  "\<forall>r\<in>set us. claim_version (ev_payload r) \<noteq> v \<Longrightarrow> claim_version (ev_payload r) = v
     \<Longrightarrow> replace_first v x (us @ [r]) = us @ [x]"
  by (induction us) auto

lemma chain_replace:
  assumes c: "chain_ok c vs" and "vs \<noteq> []"
  shows "replace_first (claim_version (ev_payload (last vs))) x vs = butlast vs @ [x]"
proof -
  have "claim_version (ev_payload r) \<noteq> claim_version (ev_payload (last vs))" if "r \<in> set (butlast vs)" for r
  proof -
    obtain i where i: "i < length vs - 1" "r = vs ! i"
      using \<open>r \<in> set (butlast vs)\<close> by (auto simp: in_set_conv_nth nth_butlast)
    then show ?thesis using chain_versions [OF c, of i] chain_last [OF assms] by auto
  qed
  then show ?thesis
    using replace_first_last [of "butlast vs" "claim_version (ev_payload (last vs))" "last vs" x] assms(2) by simp
qed

lemma chain_snoc:
  assumes "list_all (\<lambda>r. claim_id (ev_payload r) = c \<and> evidenceClaimPayload_ok (ev_payload r)) (vs @ [r])"
    and "list_all (\<lambda>r. ev_status r = EvSuperseded) vs" and "ev_status r \<noteq> EvSuperseded"
    and "map (\<lambda>r. claim_version (ev_payload r)) vs = map int [1..<Suc (length vs)]"
    and "claim_version (ev_payload r) = int (length vs) + 1"
  shows "chain_ok c (vs @ [r])"
  using assms by (simp add: chain_ok_def)

lemma chain_status_last:
  assumes "chain_ok c vs" and "vs \<noteq> []" and "st \<noteq> EvSuperseded"
  shows "chain_ok c (butlast vs @ [(last vs)\<lparr>ev_status := st\<rparr>])"
proof -
  obtain us r where vs: "vs = us @ [r]" using assms(2) by (metis append_butlast_last_id)
  show ?thesis using assms unfolding vs by (intro chain_snoc) (auto simp: chain_ok_def)
qed

lemma chain_extend:
  assumes "chain_ok c vs" and "claim_id p = c" "evidenceClaimPayload_ok p" "claim_version p = int (length vs) + 1"
  shows "chain_ok c ((if vs = [] then [] else vs[length vs - 1 := (last vs)\<lparr>ev_status := EvSuperseded\<rparr>])
    @ [\<lparr>activatedAt = now, ev_payload = p, ev_status = EvActive\<rparr>])"
proof (cases "vs = []")
  case True
  then show ?thesis using assms by (simp add: chain_ok_def)
next
  case False
  then obtain us r where vs: "vs = us @ [r]" by (metis append_butlast_last_id)
  have "vs[length vs - 1 := (last vs)\<lparr>ev_status := EvSuperseded\<rparr>] = us @ [r\<lparr>ev_status := EvSuperseded\<rparr>]"
    by (simp add: vs)
  moreover have "chain_ok c ((us @ [r\<lparr>ev_status := EvSuperseded\<rparr>])
      @ [\<lparr>activatedAt = now, ev_payload = p, ev_status = EvActive\<rparr>])"
    using assms unfolding vs by (intro chain_snoc) (auto simp: chain_ok_def)
  ultimately show ?thesis using False by simp
qed

subsection \<open>Operations keep the invariant\<close>

lemma claim_versions_set:
  "claim_versions (l\<lparr>versions := jm_set c vs (versions l)\<rparr>) c' = (if c' = c then vs else claim_versions l c')"
  by (simp add: claim_versions_def jm_simps)

lemma claim_versions_frame [simp]:
  "claim_versions (l\<lparr>disputes := d\<rparr>) = claim_versions l"
  "claim_versions (l\<lparr>assertions := a\<rparr>) = claim_versions l"
  "claim_versions (closeDisputes c v s l) = claim_versions l"
  by (auto simp: claim_versions_def closeDisputes_def)

lemma evidence_version_of_Inr:
  "evidence_version_of l c v = Inr r \<Longrightarrow> r \<in> set (claim_versions l c) \<and> claim_version (ev_payload r) = v"
  by (auto simp: evidence_version_of_def outcome_simps find_Some_iff)

text \<open>A payload once recorded stays, and a version that is no longer active never changes.\<close>

definition version_grows :: "evidence_record list \<Rightarrow> evidence_record list \<Rightarrow> bool" where
  "version_grows vs ws = (length vs \<le> length ws \<and> (\<forall>i<length vs. ev_payload (ws ! i) = ev_payload (vs ! i)
     \<and> activatedAt (ws ! i) = activatedAt (vs ! i) \<and> (ev_status (vs ! i) \<noteq> EvActive \<longrightarrow> ws ! i = vs ! i)))"

definition ledger_grows :: "evidence_ledger \<Rightarrow> evidence_ledger \<Rightarrow> bool" where
  "ledger_grows l l' = (\<forall>c. version_grows (claim_versions l c) (claim_versions l' c))"

lemma version_grows_refl [simp]: "version_grows vs vs"
  by (simp add: version_grows_def)

lemma version_grows_trans: "version_grows us vs \<Longrightarrow> version_grows vs ws \<Longrightarrow> version_grows us ws"
  by (auto simp: version_grows_def)

lemma version_grows_last:
  assumes "chain_ok c vs" and "vs \<noteq> []" and "ev_status (last vs) = EvActive"
    and "ev_payload x = ev_payload (last vs)" "activatedAt x = activatedAt (last vs)"
  shows "version_grows vs ((butlast vs @ [x]) @ ws)"
  using assms by (auto simp: version_grows_def nth_append nth_butlast last_conv_nth less_Suc_eq
      dest!: less_imp_Suc_add)

lemma assertion_ok_grows:
  assumes "ledger_grows l l'" and "assertion_ok l k a"
  shows "assertion_ok l' k a"
proof -
  let ?c = "verified_claim_id (as_payload a)"
  obtain i where i: "i < length (claim_versions l ?c)"
    "claim_version (ev_payload (claim_versions l ?c ! i)) = verified_claim_version (as_payload a)"
    "issuer_organization_id (ev_payload (claim_versions l ?c ! i)) \<noteq> verifier_organization_id (as_payload a)"
    and k: "k = versionKey (verification_id (as_payload a)) (verification_version (as_payload a))"
    using assms(2) by (auto simp: assertion_ok_def list_ex_length)
  have "i < length (claim_versions l' ?c)" "ev_payload (claim_versions l' ?c ! i) = ev_payload (claim_versions l ?c ! i)"
    using assms(1) i(1) by (auto simp: ledger_grows_def version_grows_def intro: less_le_trans)
  with i(2,3) k show ?thesis by (auto simp: assertion_ok_def list_ex_length)
qed

lemma ledger_grows_set:
  "version_grows (claim_versions l c) vs \<Longrightarrow> ledger_grows l (l\<lparr>versions := jm_set c vs (versions l)\<rparr>)"
  by (auto simp: ledger_grows_def claim_versions_set)

lemma ledger_grows_frame:
  "ledger_grows l l' \<Longrightarrow> claim_versions l'' = claim_versions l' \<Longrightarrow> ledger_grows l l''"
  by (simp add: ledger_grows_def)

lemma dispute_ok_closed:
  assumes inv: "ledger_inv l" and c: "vs = claim_versions l c" "vs \<noteq> []" "ev_status (last vs) = EvActive"
    and st: "st \<noteq> DisputeOpen" and d: "jm_get (disputes (closeDisputes c (claim_version (ev_payload (last vs))) st l)) k = Some d"
    and other: "\<And>c'. c' \<noteq> c \<Longrightarrow> claim_versions l' c' = claim_versions l c'"
  shows "dispute_ok l' k d"
proof -
  obtain e where e: "jm_get (disputes l) k = Some e"
    and de: "d = (if d_claimId e = c \<and> d_claimVersion e = claim_version (ev_payload (last vs))
       \<and> d_status e = DisputeOpen then e\<lparr>d_status := st\<rparr> else e)"
    using d by (auto simp: closeDisputes_def jm_simps)
  have ok: "dispute_ok l k e" using inv e by (simp add: ledger_inv_def)
  have chain: "chain_ok c vs" using inv c(1) by (simp add: ledger_inv_def)
  have "d_claimId e \<noteq> c" if "d_status d = DisputeOpen"
  proof
    assume ec: "d_claimId e = c"
    have open_e: "d_status e = DisputeOpen" using that st by (auto simp: de split: if_splits)
    then obtain r where r: "r \<in> set vs" "claim_version (ev_payload r) = d_claimVersion e" "ev_status r = EvActive"
      using ok ec c(1) by (auto simp: dispute_ok_def list_ex_iff)
    from r(2) have "d_claimVersion e = claim_version (ev_payload (last vs))"
      unfolding chain_active [OF chain r(1,3)] by (rule sym)
    with ec open_e have "d = e\<lparr>d_status := st\<rparr>" by (simp add: de)
    with that st show False by simp
  qed
  then have "d_status d = DisputeOpen \<longrightarrow> d = e \<and> claim_versions l' (d_claimId e) = claim_versions l (d_claimId e)"
    using other st by (auto simp: de)
  moreover have "disputeId d = disputeId e" by (simp add: de)
  ultimately show ?thesis using ok by (auto simp: dispute_ok_def)
qed

lemma ledger_inv_versions:
  assumes inv: "ledger_inv l" and c: "vs = claim_versions l c" "vs \<noteq> []" "ev_status (last vs) = EvActive"
    and st: "st \<noteq> DisputeOpen" and ws: "chain_ok c ws" "version_grows vs ws"
    and l': "l' = closeDisputes c (claim_version (ev_payload (last vs))) st (l\<lparr>versions := jm_set c ws (versions l)\<rparr>)"
  shows "ledger_inv l'"
proof -
  have cv: "claim_versions l' c' = (if c' = c then ws else claim_versions l c')" for c'
    by (simp add: l' claim_versions_set)
  have grows: "ledger_grows l l'" using ws(2) c(1) by (simp add: ledger_grows_def cv)
  have "disputes l' = disputes (closeDisputes c (claim_version (ev_payload (last vs))) st l)"
    by (simp add: l' closeDisputes_def)
  then have "dispute_ok l' k d" if "jm_get (disputes l') k = Some d" for k d
    using dispute_ok_closed [OF inv c st, of k d l'] that cv by simp
  moreover have "assertion_ok l' k a" if "jm_get (assertions l') k = Some a" for k a
  proof (rule assertion_ok_grows [OF grows])
    have "jm_get (assertions l) k = Some a" using that by (simp add: l' closeDisputes_def)
    with inv show "assertion_ok l k a" by (simp add: ledger_inv_def)
  qed
  moreover have "jm_ok (versions l')" "jm_ok (assertions l')" "jm_ok (disputes l')"
    using inv by (simp_all add: l' closeDisputes_def ledger_inv_def jm_ok_set)
  moreover have "chain_ok c' (claim_versions l' c')" for c'
    using inv ws(1) by (simp add: cv ledger_inv_def)
  ultimately show ?thesis by (simp add: ledger_inv_def)
qed

lemma ledger_inv_first:
  assumes inv: "ledger_inv l" and c: "claim_versions l c = []" and ws: "chain_ok c ws"
  shows "ledger_inv (l\<lparr>versions := jm_set c ws (versions l)\<rparr>)" (is "ledger_inv ?l'")
proof -
  have cv: "claim_versions ?l' c' = (if c' = c then ws else claim_versions l c')" for c'
    by (simp add: claim_versions_set)
  have grows: "ledger_grows l ?l'" using c by (simp add: ledger_grows_def cv version_grows_def)
  have "dispute_ok ?l' k d" if "jm_get (disputes l) k = Some d" for k d
  proof -
    have "dispute_ok l k d" using inv that by (simp add: ledger_inv_def)
    then show ?thesis using c by (cases "d_claimId d = c") (auto simp: dispute_ok_def cv)
  qed
  then show ?thesis
    using inv ws assertion_ok_grows [OF grows] by (simp add: ledger_inv_def jm_ok_set claim_versions_set)
qed

lemma activate_Inr:
  assumes "activate l p prior now = Inr (r, l')"
  defines "vs \<equiv> claim_versions l (claim_id p)"
  shows "evidenceClaimPayload_ok p \<and> r = \<lparr>activatedAt = now, ev_payload = p, ev_status = EvActive\<rparr>
    \<and> claim_version p = prior + 1
    \<and> (if vs = [] then prior = 0 \<and> l' = l\<lparr>versions := jm_set (claim_id p) [r] (versions l)\<rparr>
       else claim_version (ev_payload (last vs)) = prior \<and> ev_status (last vs) = EvActive
         \<and> l' = closeDisputes (claim_id p) prior ClosedBySupersession (l\<lparr>versions := jm_set (claim_id p)
             (vs[length vs - 1 := (last vs)\<lparr>ev_status := EvSuperseded\<rparr>] @ [r]) (versions l)\<rparr>))"
  using assms(1) unfolding activate_def Let_def vs_def
  by (auto simp: outcome_simps closeDisputes_def split: if_splits)

lemma list_update_last: "vs \<noteq> [] \<Longrightarrow> vs[length vs - 1 := x] = butlast vs @ [x]"
  by (metis append_butlast_last_id length_butlast list_update_length)

lemma activate_grows:
  assumes inv: "ledger_inv l" and a: "activate l p prior now = Inr (r, l')"
  shows "ledger_inv l' \<and> ledger_grows l l'"
proof -
  let ?c = "claim_id p"
  define vs where "vs = claim_versions l ?c"
  note f = activate_Inr [OF a, folded vs_def]
  have chain: "chain_ok ?c vs" using inv by (simp add: ledger_inv_def vs_def)
  have len: "claim_version p = int (length vs) + 1"
    using f chain_last [OF chain] by (cases "vs = []") auto
  define ws where "ws = (if vs = [] then [] else vs[length vs - 1 := (last vs)\<lparr>ev_status := EvSuperseded\<rparr>]) @ [r]"
  have ws: "chain_ok ?c ws"
    using chain_extend [OF chain refl _ len, of now] f by (simp add: ws_def)
  show ?thesis
  proof (cases "vs = []")
    case True
    then have l': "l' = l\<lparr>versions := jm_set ?c ws (versions l)\<rparr>" using f by (simp add: ws_def)
    have "version_grows vs ws" using True by (simp add: version_grows_def)
    then show ?thesis
      unfolding l' using ledger_inv_first [OF inv _ ws] ledger_grows_set True by (simp add: vs_def)
  next
    case False
    have st: "ev_status (last vs) = EvActive" using f False by simp
    have l': "l' = closeDisputes ?c (claim_version (ev_payload (last vs))) ClosedBySupersession
        (l\<lparr>versions := jm_set ?c ws (versions l)\<rparr>)"
      using f False by (simp add: ws_def)
    have grows: "version_grows vs ws"
      using version_grows_last [OF chain False st, of "(last vs)\<lparr>ev_status := EvSuperseded\<rparr>" "[r]"] False
      unfolding ws_def list_update_last [OF False] by simp
    show ?thesis
      using ledger_inv_versions [OF inv vs_def False st _ ws grows l'] ledger_grows_set [of l ?c ws] grows
      by (simp add: l' ledger_grows_def vs_def claim_versions_set)
  qed
qed

lemma revoke_grows:
  assumes inv: "ledger_inv l" and a: "revoke l c v = Inr (r, l')"
  shows "ledger_inv l' \<and> ledger_grows l l'"
proof -
  define vs where "vs = claim_versions l c"
  have chain: "chain_ok c vs" using inv by (simp add: ledger_inv_def vs_def)
  obtain x l1 where x: "evidence_version_of l c v = Inr x" "ev_status x = EvActive"
    and l1: "replaceVersion c v (x\<lparr>ev_status := EvRevoked\<rparr>) l = Inr l1"
    and l': "l' = closeDisputes c v ReferredExternal l1"
    using a by (auto simp: revoke_def outcome_simps Let_def)
  have xin: "x \<in> set vs" "claim_version (ev_payload x) = v"
    using evidence_version_of_Inr [OF x(1)] by (auto simp: vs_def)
  have xl: "x = last vs" by (rule chain_active [OF chain xin(1) x(2)])
  have ne: "vs \<noteq> []" using xin(1) by auto
  define ws where "ws = butlast vs @ [x\<lparr>ev_status := EvRevoked\<rparr>]"
  have "jm_get (versions l) c = Some vs" using ne by (auto simp: vs_def claim_versions_def split: option.splits)
  then have "l1 = l\<lparr>versions := jm_set c ws (versions l)\<rparr>"
    using l1 chain_replace [OF chain ne] xin(2) xl by (auto simp: replaceVersion_def outcome_simps ws_def)
  then have l'': "l' = closeDisputes c (claim_version (ev_payload (last vs))) ReferredExternal
      (l\<lparr>versions := jm_set c ws (versions l)\<rparr>)"
    using l' xin(2) xl by simp
  have ws: "chain_ok c ws" using chain_status_last [OF chain ne, of EvRevoked] by (simp add: ws_def xl)
  have grows: "version_grows vs ws"
    using version_grows_last [OF chain ne, of "x\<lparr>ev_status := EvRevoked\<rparr>" "[]"] x(2) by (simp add: ws_def xl)
  show ?thesis
    using ledger_inv_versions [OF inv vs_def ne _ _ ws grows l''] x(2) xl ledger_grows_set [of l c ws] grows
    by (simp add: l'' ledger_grows_def vs_def claim_versions_set)
qed

lemma ledger_inv_dispute:
  assumes "ledger_inv l" and "dispute_ok l k d"
  shows "ledger_inv (l\<lparr>disputes := jm_set k d (disputes l)\<rparr>)"
  using assms
  by (auto simp: ledger_inv_def jm_ok_set jm_simps dispute_ok_def assertion_ok_def split: if_splits)

lemma ledger_inv_assertion:
  assumes "ledger_inv l" and "assertion_ok l k a"
  shows "ledger_inv (l\<lparr>assertions := jm_set k a (assertions l)\<rparr>)"
  using assms
  by (auto simp: ledger_inv_def jm_ok_set jm_simps dispute_ok_def assertion_ok_def split: if_splits)

lemma addVerification_inv:
  assumes "ledger_inv l" and a: "addVerification l p = Inr (r, l')"
  shows "ledger_inv l' \<and> ledger_grows l l'"
proof -
  obtain e where e: "evidence_version_of l (verified_claim_id p) (verified_claim_version p) = Inr e"
      "issuer_organization_id (ev_payload e) \<noteq> verifier_organization_id p"
    and l': "l' = l\<lparr>assertions := jm_set (versionKey (verification_id p) (verification_version p))
        \<lparr>as_payload = p, as_status = AsActive\<rparr> (assertions l)\<rparr>"
    using a by (auto simp: addVerification_def outcome_simps Let_def)
  have "assertion_ok l (versionKey (verification_id p) (verification_version p)) \<lparr>as_payload = p, as_status = AsActive\<rparr>"
    using evidence_version_of_Inr [OF e(1)] e(2) by (auto simp: assertion_ok_def list_ex_iff)
  then show ?thesis using ledger_inv_assertion [OF assms(1)] by (simp add: l' ledger_grows_def)
qed

lemma withdrawVerification_inv:
  assumes "ledger_inv l" and a: "withdrawVerification l i v = Inr (r, l')"
  shows "ledger_inv l' \<and> ledger_grows l l'"
proof -
  obtain x where x: "jm_get (assertions l) (versionKey i v) = Some x"
    and l': "l' = l\<lparr>assertions := jm_set (versionKey i v) (x\<lparr>as_status := AsWithdrawn\<rparr>) (assertions l)\<rparr>"
    using a by (auto simp: withdrawVerification_def assertion_def outcome_simps Let_def)
  have "assertion_ok l (versionKey i v) (x\<lparr>as_status := AsWithdrawn\<rparr>)"
    using assms(1) x by (fastforce simp: ledger_inv_def assertion_ok_def)
  then show ?thesis using ledger_inv_assertion [OF assms(1)] by (simp add: l' ledger_grows_def)
qed

lemma openDispute_inv:
  assumes "ledger_inv l" and a: "openDispute l d = Inr (r, l')"
  shows "ledger_inv l' \<and> ledger_grows l l'"
proof -
  obtain e where e: "evidence_version_of l (d_claimId d) (d_claimVersion d) = Inr e" "ev_status e = EvActive"
    and l': "l' = l\<lparr>disputes := jm_set (disputeId d) (dispute_input.extend d \<lparr>d_status = DisputeOpen\<rparr>) (disputes l)\<rparr>"
    using a by (auto simp: openDispute_def outcome_simps Let_def)
  have "dispute_ok l (disputeId d) (dispute_input.extend d \<lparr>d_status = DisputeOpen\<rparr>)"
    using evidence_version_of_Inr [OF e(1)] e(2) by (auto simp: dispute_ok_def list_ex_iff dispute_input.defs)
  then show ?thesis using ledger_inv_dispute [OF assms(1)] by (simp add: l' ledger_grows_def)
qed

lemma changeDispute_inv:
  assumes "ledger_inv l" and a: "changeDispute l i s = Inr (r, l')"
  shows "ledger_inv l' \<and> ledger_grows l l'"
proof -
  obtain x where x: "jm_get (disputes l) i = Some x"
    and l': "l' = l\<lparr>disputes := jm_set i (x\<lparr>d_status := change_status s\<rparr>) (disputes l)\<rparr>"
    using a by (auto simp: changeDispute_def dispute_def outcome_simps Let_def)
  have "dispute_ok l i (x\<lparr>d_status := change_status s\<rparr>)"
    using assms(1) x by (cases s) (fastforce simp: ledger_inv_def dispute_ok_def)+
  then show ?thesis using ledger_inv_dispute [OF assms(1)] by (simp add: l' ledger_grows_def)
qed

lemmas ledger_ops_inv = activate_grows revoke_grows addVerification_inv withdrawVerification_inv
  openDispute_inv changeDispute_inv

lemma ledger_step_inv:
  assumes inv: "ledger_inv l"
  shows "ledger_inv (ledger_step l x) \<and> ledger_grows l (ledger_step l x)"
proof -
  have k: "ledger_inv (keep l m) \<and> ledger_grows l (keep l m)"
    if "\<And>r t. m = Inr (r, t) \<Longrightarrow> ledger_inv t \<and> ledger_grows l t" for m :: "ledger_error + 'r \<times> evidence_ledger"
    by (rule keep_cases [where P = "\<lambda>t. ledger_inv t \<and> ledger_grows l t"])
      (simp add: inv ledger_grows_def, rule that)
  show ?thesis
    by (cases x; simp only: ledger_step.simps; rule k; erule ledger_ops_inv [OF inv])
qed

interpretation ledger: guarded_system empty_ledger ledger_step ledger_inv
  by unfold_locales (simp_all add: ledger_inv_empty ledger_step_inv)

lemma activate_outcome:
  assumes "ledger_inv l"
  shows "let vs = history l (claim_id p) in case activate l p prior now of
     Inl e \<Rightarrow> if \<not> evidenceClaimPayload_ok p then e = LSchemaRejected
             else if int (length vs) \<noteq> prior then e = InvalidPrior
             else if claim_version p \<noteq> prior + 1 then e = LConflict
             else e = InvalidState \<and> vs \<noteq> [] \<and> ev_status (last vs) \<noteq> EvActive
   | Inr (r, l') \<Rightarrow> evidenceClaimPayload_ok p \<and> int (length vs) = prior \<and> claim_version p = prior + 1
       \<and> (vs = [] \<or> ev_status (last vs) = EvActive)
       \<and> r = \<lparr>activatedAt = now, ev_payload = p, ev_status = EvActive\<rparr>
       \<and> history l' (claim_id p) =
           (if vs = [] then [] else butlast vs @ [(last vs)\<lparr>ev_status := EvSuperseded\<rparr>]) @ [r]"
proof -
  define vs where "vs = history l (claim_id p)"
  have ch: "chain_ok (claim_id p) vs" using assms by (simp add: ledger_inv_def vs_def history_def)
  have last: "vs \<noteq> [] \<Longrightarrow> claim_version (ev_payload (last vs)) = int (length vs)"
    using chain_versions [OF ch, of "length vs - 1"] by (simp add: last_conv_nth of_nat_diff Suc_le_eq)
  have new: "list_ex (\<lambda>r. claim_version (ev_payload r) = int (length vs) + 1) vs = False"
    using chain_versions [OF ch] by (auto simp: list_ex_iff in_set_conv_nth)
  have vs: "claim_versions l (claim_id p) = vs" by (simp add: vs_def history_def)
  have set: "claim_versions (l1\<lparr>versions := jm_set c ws m\<rparr>) c = ws" for l1 c ws m
    by (simp add: claim_versions_def jm_simps)
  show ?thesis
    unfolding Let_def vs_def [symmetric]
    using last new
    by (cases "vs = []"; cases "evidenceClaimPayload_ok p"; cases "int (length vs) = prior"; cases "claim_version p = prior + 1";
        cases "ev_status (last vs) = EvActive")
      (auto simp: activate_def vs Let_def parse_with_def history_def set list_update_last [unfolded One_nat_def])
qed

lemma ledger_run_grows: "ledger_inv l \<Longrightarrow> ledger_grows l (run ledger_step l xs)"
proof (rule ledger.run_relation)
  show "ledger_grows s s" for s by (simp add: ledger_grows_def)
  show "ledger_grows s t \<Longrightarrow> ledger_grows t u \<Longrightarrow> ledger_grows s u" for s t u
    unfolding ledger_grows_def using version_grows_trans by blast
  show "ledger_inv s \<Longrightarrow> ledger_grows s (ledger_step s x)" for s x by (simp add: ledger_step_inv)
qed

end
