(* ===== verification/Key_Lifecycle.thy ===== *)
theory Key_Lifecycle
  imports Decimal
begin

text \<open>
  \<open>KeyLifecycleRegistry\<close> of \<open>src/protected-bundles/keys/lifecycle.ts\<close>: encryption keys, controller
  authorisations and access grants. Three methods await an envelope check between their guards and
  their effect, and hold a reference to a mutable record across the wait. The records of
  authorisations and grants are therefore objects in a heap and the maps hold their addresses. An
  asynchronous method is two operations: \<open>_begin\<close> runs up to the \<open>await\<close> and returns what the
  suspended call holds, \<open>_finish\<close> is the rest. \<open>key_step\<close> runs each call to its end before the next
  one, \<open>async_step\<close> interleaves them.
\<close>

datatype encryption_key_state = KPending | KActive | KRetired | KRevoked | KLost | KCompromised
datatype grant_state = GPrepared | GActive | GRevoked
datatype authorization_state = AStaged | AActive | ARetired
datatype effective_state = Stored grant_state | ExpiredGrant
datatype key_failure = FailCompromised | FailLost | FailRevoked

record encryption_key =
  key_id :: string
  key_organizationId :: string
  key_state :: encryption_key_state

record access_grant =
  effectiveAt :: int
  grant_envelopeId :: string
  expiresAt :: int
  grantId :: string
  recipientKeyId :: string
  grant_state :: grant_state

record controller_authorization =
  authorizationId :: string
  auth_envelopeId :: string
  auth_keyId :: string
  auth_state :: authorization_state

record key_snapshot =
  snap_authorizations :: "controller_authorization list"
  snap_grants :: "access_grant list"
  snap_keys :: "encryption_key list"

datatype key_error = InvalidTransition | KeyUnavailable | LastController | PolicyDenied

record key_registry =
  kr_authorizations :: "(string, nat) jmap"
  auth_heap :: "controller_authorization list"
  kr_grants :: "(string, nat) jmap"
  grant_heap :: "access_grant list"
  kr_keys :: "(string, encryption_key) jmap"

definition empty_keys :: key_registry where
  "empty_keys = \<lparr>kr_authorizations = [], auth_heap = [], kr_grants = [], grant_heap = [], kr_keys = []\<rparr>"

subsection \<open>Lookups\<close>

definition lookup_key :: "key_registry \<Rightarrow> string \<Rightarrow> key_error + encryption_key" where
  "lookup_key r keyId = from_option KeyUnavailable (jm_get (kr_keys r) keyId)"

definition lookup_authorization :: "key_registry \<Rightarrow> string \<Rightarrow> key_error + nat" where
  "lookup_authorization r i = from_option KeyUnavailable (jm_get (kr_authorizations r) i)"

definition lookup_grant :: "key_registry \<Rightarrow> string \<Rightarrow> key_error + nat" where
  "lookup_grant r i = from_option PolicyDenied (jm_get (kr_grants r) i)"

definition isUsableKey :: "key_registry \<Rightarrow> string \<Rightarrow> key_error + bool" where
  "isUsableKey r keyId = rbind (lookup_key r keyId) (\<lambda>k. Inr (key_state k = KActive \<or> key_state k = KRetired))"

definition requireActiveKey :: "key_registry \<Rightarrow> string \<Rightarrow> key_error + unit" where
  "requireActiveKey r keyId = rbind (lookup_key r keyId) (\<lambda>k. check (key_state k \<noteq> KActive) KeyUnavailable)"

definition requireUsableKey :: "key_registry \<Rightarrow> string \<Rightarrow> key_error + unit" where
  "requireUsableKey r keyId = rbind (isUsableKey r keyId) (\<lambda>ok. check (\<not> ok) KeyUnavailable)"

definition authorization_values :: "key_registry \<Rightarrow> controller_authorization list" where
  "authorization_values r = map (\<lambda>a. auth_heap r ! a) (jm_values (kr_authorizations r))"

definition grant_values :: "key_registry \<Rightarrow> access_grant list" where
  "grant_values r = map (\<lambda>a. grant_heap r ! a) (jm_values (kr_grants r))"

definition usableControllerCount :: "key_registry \<Rightarrow> key_error + nat" where
  "usableControllerCount r =
     rfold (\<lambda>n a. if auth_state a = AActive
                  then rbind (isUsableKey r (auth_keyId a)) (\<lambda>ok. Inr (if ok then Suc n else n))
                  else Inr n) 0 (authorization_values r)"

definition isTerminalKeyState :: "encryption_key_state \<Rightarrow> bool" where
  "isTerminalKeyState s = (s = KRetired \<or> s = KRevoked \<or> s = KLost \<or> s = KCompromised)"

subsection \<open>Keys\<close>

definition set_key_state :: "string \<Rightarrow> encryption_key \<Rightarrow> encryption_key_state \<Rightarrow> key_registry \<Rightarrow> key_registry" where
  "set_key_state i k s r = r\<lparr>kr_keys := jm_set i (k\<lparr>key_state := s\<rparr>) (kr_keys r)\<rparr>"

definition addKey :: "key_registry \<Rightarrow> encryption_key \<Rightarrow> key_error + key_registry" where
  "addKey r k =
     rbind (check (jm_has (kr_keys r) (key_id k)) InvalidTransition) (\<lambda>_.
     Inr (r\<lparr>kr_keys := jm_set (key_id k) k (kr_keys r)\<rparr>))"

definition activateKey :: "key_registry \<Rightarrow> string \<Rightarrow> key_error + key_registry" where
  "activateKey r i =
     rbind (lookup_key r i) (\<lambda>k.
     rbind (check (key_state k \<noteq> KPending) InvalidTransition) (\<lambda>_. Inr (set_key_state i k KActive r)))"

fun failure_state :: "key_failure \<Rightarrow> encryption_key_state" where
  "failure_state FailCompromised = KCompromised"
| "failure_state FailLost = KLost"
| "failure_state FailRevoked = KRevoked"

definition recordKeyFailure :: "key_registry \<Rightarrow> string \<Rightarrow> key_failure \<Rightarrow> key_error + key_registry" where
  "recordKeyFailure r i f =
     rbind (lookup_key r i) (\<lambda>k.
     rbind (check (isTerminalKeyState (key_state k)) InvalidTransition) (\<lambda>_.
     Inr (set_key_state i k (failure_state f) r)))"

definition retireKey :: "key_registry \<Rightarrow> string \<Rightarrow> key_error + key_registry" where
  "retireKey r i =
     rbind (lookup_key r i) (\<lambda>k.
     rbind (check (key_state k \<noteq> KActive) InvalidTransition) (\<lambda>_.
     let lastControllerForKey = list_ex (\<lambda>a. auth_keyId a = i \<and> auth_state a = AActive) (authorization_values r) in
     rbind (if lastControllerForKey then usableControllerCount r else Inr 2) (\<lambda>n.
     rbind (check (lastControllerForKey \<and> n \<le> 1) LastController) (\<lambda>_.
     Inr (set_key_state i k KRetired r)))))"

subsection \<open>Controller authorisations\<close>

definition put_authorization :: "string \<Rightarrow> controller_authorization \<Rightarrow> key_registry \<Rightarrow> key_registry" where
  "put_authorization i a r = r\<lparr>kr_authorizations := jm_set i (length (auth_heap r)) (kr_authorizations r),
     auth_heap := auth_heap r @ [a]\<rparr>"

definition set_auth_state :: "nat \<Rightarrow> authorization_state \<Rightarrow> key_registry \<Rightarrow> key_registry" where
  "set_auth_state a s r = r\<lparr>auth_heap := (auth_heap r)[a := (auth_heap r ! a)\<lparr>auth_state := s\<rparr>]\<rparr>"

definition stageControllerAuthorization :: "key_registry \<Rightarrow> controller_authorization \<Rightarrow> key_error + key_registry" where
  "stageControllerAuthorization r a =
     rbind (check (auth_state a \<noteq> AStaged \<or> jm_has (kr_authorizations r) (authorizationId a)) InvalidTransition) (\<lambda>_.
     rbind (requireActiveKey r (auth_keyId a)) (\<lambda>_. Inr (put_authorization (authorizationId a) a r)))"

definition activateControllerAuthorization :: "key_registry \<Rightarrow> string \<Rightarrow> key_error + key_registry" where
  "activateControllerAuthorization r i =
     rbind (lookup_authorization r i) (\<lambda>a.
     rbind (check (auth_state (auth_heap r ! a) \<noteq> AStaged) InvalidTransition) (\<lambda>_.
     rbind (requireActiveKey r (auth_keyId (auth_heap r ! a))) (\<lambda>_. Inr (set_auth_state a AActive r))))"

datatype pending =
  PendingAuthRotation nat controller_authorization
  | PendingActivation nat
  | PendingRecipientRotation string nat string string

definition rotateControllerAuthorization_begin ::
  "key_registry \<Rightarrow> string \<Rightarrow> controller_authorization \<Rightarrow> key_error + pending" where
  "rotateControllerAuthorization_begin r predecessorId successor =
     rbind (lookup_authorization r predecessorId) (\<lambda>p.
     rbind (check (auth_state (auth_heap r ! p) \<noteq> AActive) KeyUnavailable) (\<lambda>_.
     rbind (requireUsableKey r (auth_keyId (auth_heap r ! p))) (\<lambda>_.
     rbind (check (auth_state successor \<noteq> AStaged) InvalidTransition) (\<lambda>_.
     rbind (requireActiveKey r (auth_keyId successor)) (\<lambda>_. Inr (PendingAuthRotation p successor))))))"

subsection \<open>Grants\<close>

definition put_grant :: "string \<Rightarrow> access_grant \<Rightarrow> key_registry \<Rightarrow> key_registry" where
  "put_grant i g r = r\<lparr>kr_grants := jm_set i (length (grant_heap r)) (kr_grants r),
     grant_heap := grant_heap r @ [g]\<rparr>"

definition set_grant_state :: "nat \<Rightarrow> grant_state \<Rightarrow> key_registry \<Rightarrow> key_registry" where
  "set_grant_state a s r = r\<lparr>grant_heap := (grant_heap r)[a := (grant_heap r ! a)\<lparr>grant_state := s\<rparr>]\<rparr>"

definition prepareGrant :: "key_registry \<Rightarrow> access_grant \<Rightarrow> key_error + key_registry" where
  "prepareGrant r g =
     rbind (check (grant_state g \<noteq> GPrepared \<or> effectiveAt g \<ge> expiresAt g) InvalidTransition) (\<lambda>_.
     rbind (requireActiveKey r (recipientKeyId g)) (\<lambda>_.
     rbind (usableControllerCount r) (\<lambda>n.
     rbind (check (n = 0) KeyUnavailable) (\<lambda>_.
     rbind (check (jm_has (kr_grants r) (grantId g)) InvalidTransition) (\<lambda>_.
     Inr (put_grant (grantId g) g r))))))"

definition activateGrant_begin :: "key_registry \<Rightarrow> string \<Rightarrow> int \<Rightarrow> key_error + pending" where
  "activateGrant_begin r i now =
     rbind (lookup_grant r i) (\<lambda>a.
     rbind (check (grant_state (grant_heap r ! a) \<noteq> GPrepared \<or> now \<ge> expiresAt (grant_heap r ! a))
              InvalidTransition) (\<lambda>_.
     rbind (requireActiveKey r (recipientKeyId (grant_heap r ! a))) (\<lambda>_. Inr (PendingActivation a))))"

definition revokeGrant :: "key_registry \<Rightarrow> string \<Rightarrow> key_error + key_registry" where
  "revokeGrant r i =
     rbind (lookup_grant r i) (\<lambda>a.
     rbind (check (grant_state (grant_heap r ! a) = GRevoked) InvalidTransition) (\<lambda>_.
     Inr (set_grant_state a GRevoked r)))"

definition effectiveGrantState :: "key_registry \<Rightarrow> string \<Rightarrow> int \<Rightarrow> key_error + effective_state" where
  "effectiveGrantState r i now =
     rbind (lookup_grant r i) (\<lambda>a.
     let g = grant_heap r ! a in
     Inr (if grant_state g \<noteq> GRevoked \<and> now \<ge> expiresAt g then ExpiredGrant else Stored (grant_state g)))"

definition authorizeRetrieval :: "key_registry \<Rightarrow> string \<Rightarrow> int \<Rightarrow> key_error + unit" where
  "authorizeRetrieval r i now =
     rbind (lookup_grant r i) (\<lambda>a.
     rbind (effectiveGrantState r i now) (\<lambda>s.
     rbind (check (s \<noteq> Stored GActive \<or> now < effectiveAt (grant_heap r ! a)) PolicyDenied) (\<lambda>_.
     requireUsableKey r (recipientKeyId (grant_heap r ! a)))))"

definition rotateRecipientEnvelope_begin ::
  "key_registry \<Rightarrow> string \<Rightarrow> string \<Rightarrow> string \<Rightarrow> key_error + pending" where
  "rotateRecipientEnvelope_begin r i successorKeyId successorEnvelopeId =
     rbind (lookup_grant r i) (\<lambda>a.
     rbind (check (grant_state (grant_heap r ! a) \<noteq> GActive) PolicyDenied) (\<lambda>_.
     rbind (requireActiveKey r successorKeyId) (\<lambda>_.
     Inr (PendingRecipientRotation i a successorKeyId successorEnvelopeId))))"

text \<open>The rest of a suspended call, given what the envelope check returned.\<close>

definition rotateControllerAuthorization_finish ::
  "key_registry \<Rightarrow> nat \<Rightarrow> controller_authorization \<Rightarrow> bool \<Rightarrow> key_error + key_registry" where [simp]:
  "rotateControllerAuthorization_finish r p successor verified =
     rbind (check (\<not> verified) KeyUnavailable) (\<lambda>_.
     Inr (set_auth_state p ARetired
            (put_authorization (authorizationId successor) (successor\<lparr>auth_state := AActive\<rparr>) r)))"

definition activateGrant_finish :: "key_registry \<Rightarrow> nat \<Rightarrow> bool \<Rightarrow> key_error + key_registry" where [simp]:
  "activateGrant_finish r a verified =
     rbind (check (\<not> verified) KeyUnavailable) (\<lambda>_. Inr (set_grant_state a GActive r))"

definition rotateRecipientEnvelope_finish ::
  "key_registry \<Rightarrow> string \<Rightarrow> nat \<Rightarrow> string \<Rightarrow> string \<Rightarrow> bool \<Rightarrow> key_error + key_registry" where [simp]:
  "rotateRecipientEnvelope_finish r i a successorKeyId successorEnvelopeId verified =
     rbind (check (\<not> verified) KeyUnavailable) (\<lambda>_.
     Inr (put_grant i ((grant_heap r ! a)\<lparr>grant_envelopeId := successorEnvelopeId, recipientKeyId := successorKeyId\<rparr>) r))"

fun finish :: "key_registry \<Rightarrow> pending \<Rightarrow> bool \<Rightarrow> key_error + key_registry" where
  "finish r (PendingAuthRotation p successor) verified = rotateControllerAuthorization_finish r p successor verified"
| "finish r (PendingActivation a) verified = activateGrant_finish r a verified"
| "finish r (PendingRecipientRotation i a k e) verified = rotateRecipientEnvelope_finish r i a k e verified"

subsection \<open>Snapshots\<close>

definition snapshot :: "(string \<Rightarrow> string \<Rightarrow> bool) \<Rightarrow> key_registry \<Rightarrow> key_snapshot" where
  "snapshot localeLe r = \<lparr>
     snap_authorizations = js_sort (\<lambda>a b. localeLe (authorizationId a) (authorizationId b)) (authorization_values r),
     snap_grants = js_sort (\<lambda>a b. localeLe (grantId a) (grantId b)) (grant_values r),
     snap_keys = js_sort (\<lambda>a b. localeLe (key_id a) (key_id b)) (jm_values (kr_keys r))\<rparr>"

definition isEncryptionKeyRecord :: "encryption_key \<Rightarrow> bool" where
  "isEncryptionKeyRecord k = (key_id k \<noteq> [] \<and> key_organizationId k \<noteq> [])"

definition isControllerAuthorizationRecord :: "controller_authorization \<Rightarrow> bool" where
  "isControllerAuthorizationRecord a = (authorizationId a \<noteq> [] \<and> auth_envelopeId a \<noteq> [] \<and> auth_keyId a \<noteq> [])"

definition isAccessGrantRecord :: "access_grant \<Rightarrow> bool" where
  "isAccessGrantRecord g = (grantId g \<noteq> [] \<and> grant_envelopeId g \<noteq> [] \<and> recipientKeyId g \<noteq> []
     \<and> is_safe_integer (Some (effectiveAt g)) \<and> is_safe_integer (Some (expiresAt g)) \<and> effectiveAt g < expiresAt g)"

definition restore_key :: "key_registry \<Rightarrow> encryption_key \<Rightarrow> key_error + key_registry" where
  "restore_key r k = rbind (check (\<not> isEncryptionKeyRecord k) InvalidTransition) (\<lambda>_. addKey r k)"

definition restore_authorization :: "key_registry \<Rightarrow> controller_authorization \<Rightarrow> key_error + key_registry" where
  "restore_authorization r a =
     rbind (check (\<not> isControllerAuthorizationRecord a \<or> \<not> jm_has (kr_keys r) (auth_keyId a)
                   \<or> jm_has (kr_authorizations r) (authorizationId a)) InvalidTransition) (\<lambda>_.
     Inr (put_authorization (authorizationId a) a r))"

definition restore_grant :: "key_registry \<Rightarrow> access_grant \<Rightarrow> key_error + key_registry" where
  "restore_grant r g =
     rbind (check (\<not> isAccessGrantRecord g \<or> \<not> jm_has (kr_keys r) (recipientKeyId g)
                   \<or> jm_has (kr_grants r) (grantId g)) InvalidTransition) (\<lambda>_.
     Inr (put_grant (grantId g) g r))"

definition fromSnapshot :: "key_snapshot \<Rightarrow> key_error + key_registry" where
  "fromSnapshot s =
     rbind (rfold restore_key empty_keys (snap_keys s)) (\<lambda>r1.
     rbind (rfold restore_authorization r1 (snap_authorizations s)) (\<lambda>r2.
     rfold restore_grant r2 (snap_grants s)))"

subsection \<open>Sequences of calls\<close>

datatype key_op =
  AddKey encryption_key | ActivateKey string | RecordKeyFailure string key_failure | RetireKey string
  | StageAuthorization controller_authorization | ActivateAuthorization string
  | RotateAuthorization string controller_authorization bool
  | PrepareGrant access_grant | ActivateGrant string int bool | RevokeGrant string
  | RotateRecipient string string string bool

fun key_call :: "key_registry \<Rightarrow> key_op \<Rightarrow> key_error + key_registry" where
  "key_call r (AddKey k) = addKey r k"
| "key_call r (ActivateKey i) = activateKey r i"
| "key_call r (RecordKeyFailure i f) = recordKeyFailure r i f"
| "key_call r (RetireKey i) = retireKey r i"
| "key_call r (StageAuthorization a) = stageControllerAuthorization r a"
| "key_call r (ActivateAuthorization i) = activateControllerAuthorization r i"
| "key_call r (RotateAuthorization i s ok) =
     rbind (rotateControllerAuthorization_begin r i s) (\<lambda>p. finish r p ok)"
| "key_call r (PrepareGrant g) = prepareGrant r g"
| "key_call r (ActivateGrant i now ok) = rbind (activateGrant_begin r i now) (\<lambda>p. finish r p ok)"
| "key_call r (RevokeGrant i) = revokeGrant r i"
| "key_call r (RotateRecipient i k e ok) = rbind (rotateRecipientEnvelope_begin r i k e) (\<lambda>p. finish r p ok)"

definition key_step :: "key_registry \<Rightarrow> key_op \<Rightarrow> key_registry" where
  "key_step r x = settle r (key_call r x)"

record async_state =
  reg :: key_registry
  suspended :: "pending list"

datatype async_op =
  Whole key_op
  | BeginRotateAuthorization string controller_authorization
  | BeginActivateGrant string int
  | BeginRotateRecipient string string string
  | Resume nat bool

definition suspend :: "async_state \<Rightarrow> key_error + pending \<Rightarrow> async_state" where
  "suspend s m = (case m of Inl e \<Rightarrow> s | Inr p \<Rightarrow> s\<lparr>suspended := suspended s @ [p]\<rparr>)"

fun async_step :: "async_state \<Rightarrow> async_op \<Rightarrow> async_state" where
  "async_step s (Whole x) = s\<lparr>reg := key_step (reg s) x\<rparr>"
| "async_step s (BeginRotateAuthorization i a) = suspend s (rotateControllerAuthorization_begin (reg s) i a)"
| "async_step s (BeginActivateGrant i now) = suspend s (activateGrant_begin (reg s) i now)"
| "async_step s (BeginRotateRecipient i k e) = suspend s (rotateRecipientEnvelope_begin (reg s) i k e)"
| "async_step s (Resume n ok) =
     (if n < length (suspended s)
      then s\<lparr>reg := settle (reg s) (finish (reg s) (suspended s ! n) ok),
             suspended := take n (suspended s) @ drop (Suc n) (suspended s)\<rparr>
      else s)"

definition async_start :: async_state where
  "async_start = \<lparr>reg = empty_keys, suspended = []\<rparr>"

subsection \<open>The invariant\<close>

definition grant_ok :: "key_registry \<Rightarrow> access_grant \<Rightarrow> bool" where
  "grant_ok r g = (jm_has (kr_keys r) (recipientKeyId g) \<and> effectiveAt g < expiresAt g)"

definition auth_ok :: "key_registry \<Rightarrow> controller_authorization \<Rightarrow> bool" where
  "auth_ok r a = jm_has (kr_keys r) (auth_keyId a)"

definition key_inv :: "key_registry \<Rightarrow> bool" where
  "key_inv r = (jm_ok (kr_keys r) \<and> jm_ok (kr_grants r) \<and> jm_ok (kr_authorizations r)
     \<and> (\<forall>i k. jm_get (kr_keys r) i = Some k \<longrightarrow> key_id k = i)
     \<and> (\<forall>i a. jm_get (kr_grants r) i = Some a \<longrightarrow> a < length (grant_heap r) \<and> grantId (grant_heap r ! a) = i)
     \<and> (\<forall>i a. jm_get (kr_authorizations r) i = Some a \<longrightarrow>
          a < length (auth_heap r) \<and> authorizationId (auth_heap r ! a) = i)
     \<and> (\<forall>g\<in>set (grant_heap r). grant_ok r g) \<and> (\<forall>a\<in>set (auth_heap r). auth_ok r a))"

fun pending_ok :: "key_registry \<Rightarrow> pending \<Rightarrow> bool" where
  "pending_ok r (PendingAuthRotation p a) = (p < length (auth_heap r) \<and> auth_ok r a)"
| "pending_ok r (PendingActivation a) = (a < length (grant_heap r))"
| "pending_ok r (PendingRecipientRotation i a k e) =
     (a < length (grant_heap r) \<and> grantId (grant_heap r ! a) = i \<and> jm_has (kr_keys r) k)"

definition state_le :: "encryption_key_state \<Rightarrow> encryption_key_state \<Rightarrow> bool" where
  "state_le s t = (s = t \<or> s = KPending \<or> (s = KActive \<and> t \<noteq> KPending))"

text \<open>What every call keeps: keys stay and their states only advance; objects stay where they are.\<close>

definition key_grows :: "key_registry \<Rightarrow> key_registry \<Rightarrow> bool" where
  "key_grows r t = ((\<forall>i k. jm_get (kr_keys r) i = Some k \<longrightarrow> (\<exists>k'. jm_get (kr_keys t) i = Some k'
       \<and> key_organizationId k' = key_organizationId k \<and> state_le (key_state k) (key_state k')))
     \<and> length (grant_heap r) \<le> length (grant_heap t) \<and> length (auth_heap r) \<le> length (auth_heap t)
     \<and> (\<forall>a<length (grant_heap r). grantId (grant_heap t ! a) = grantId (grant_heap r ! a)))"

lemma state_le_trans: "state_le s t \<Longrightarrow> state_le t u \<Longrightarrow> state_le s u"
  by (auto simp: state_le_def)

lemma key_grows_refl [simp]: "key_grows r r"
  by (simp add: key_grows_def state_le_def)

lemma key_grows_trans: "key_grows r s \<Longrightarrow> key_grows s t \<Longrightarrow> key_grows r t"
  unfolding key_grows_def by (fastforce intro: state_le_trans)

lemma has_key_grows: "key_grows r t \<Longrightarrow> jm_has (kr_keys r) i \<Longrightarrow> jm_has (kr_keys t) i"
  by (fastforce simp: key_grows_def jm_has_def)

lemma pending_ok_grows: "key_grows r t \<Longrightarrow> pending_ok r p \<Longrightarrow> pending_ok t p"
  by (cases p) (auto simp: auth_ok_def has_key_grows key_grows_def)

lemma key_inv_empty: "key_inv empty_keys"
  by (simp add: key_inv_def empty_keys_def)

lemma key_inv_address:
  "key_inv r \<Longrightarrow> jm_get (kr_grants r) i = Some a \<Longrightarrow> a < length (grant_heap r) \<and> grantId (grant_heap r ! a) = i"
  "key_inv r \<Longrightarrow> jm_get (kr_authorizations r) i = Some a \<Longrightarrow> a < length (auth_heap r) \<and> authorizationId (auth_heap r ! a) = i"
  by (simp_all add: key_inv_def)

lemma key_inv_set_key:
  assumes "key_inv r" and "jm_get (kr_keys r) i = Some k" and "state_le (key_state k) s"
  shows "key_inv (set_key_state i k s r) \<and> key_grows r (set_key_state i k s r)"
proof -
  have "jm_has (kr_keys (set_key_state i k s r)) j = jm_has (kr_keys r) j" for j
    using assms(2) by (auto simp: set_key_state_def jm_has_def jm_simps)
  then show ?thesis
    using assms by (auto simp: key_inv_def set_key_state_def jm_ok_set jm_simps grant_ok_def auth_ok_def
        key_grows_def state_le_def)
qed

lemma addKey_inv:
  assumes "key_inv r" and "addKey r k = Inr t"
  shows "key_inv t \<and> key_grows r t"
proof -
  have new: "jm_get (kr_keys r) (key_id k) = None" and t: "t = r\<lparr>kr_keys := jm_set (key_id k) k (kr_keys r)\<rparr>"
    using assms(2) by (auto simp: addKey_def outcome_simps jm_has_def)
  have "jm_has (kr_keys r) j \<Longrightarrow> jm_has (kr_keys t) j" for j by (simp add: t jm_has_def jm_simps)
  then show ?thesis
    using assms(1) new
    by (auto simp: t key_inv_def jm_ok_set jm_simps grant_ok_def auth_ok_def key_grows_def state_le_def)
qed

lemma put_grant_inv:
  assumes "key_inv r" and "grantId g = i" and "grant_ok r g"
  shows "key_inv (put_grant i g r) \<and> key_grows r (put_grant i g r)"
  using assms
  by (auto simp: key_inv_def put_grant_def jm_ok_set jm_simps nth_append less_Suc_eq grant_ok_def auth_ok_def
      key_grows_def state_le_def split: if_splits)

lemma put_authorization_inv:
  assumes "key_inv r" and "authorizationId a = i" and "auth_ok r a"
  shows "key_inv (put_authorization i a r) \<and> key_grows r (put_authorization i a r)"
  using assms
  by (auto simp: key_inv_def put_authorization_def jm_ok_set jm_simps nth_append less_Suc_eq grant_ok_def auth_ok_def
      key_grows_def state_le_def split: if_splits)

lemma set_grant_state_inv:
  assumes "key_inv r" and "a < length (grant_heap r)"
  shows "key_inv (set_grant_state a s r) \<and> key_grows r (set_grant_state a s r)"
proof -
  have "grant_ok r g" if "g \<in> set ((grant_heap r)[a := (grant_heap r ! a)\<lparr>grant_state := s\<rparr>])" for g
  proof -
    have "g = (grant_heap r ! a)\<lparr>grant_state := s\<rparr> \<or> g \<in> set (grant_heap r)"
      using set_update_subset_insert that by fast
    moreover have "grant_ok r (grant_heap r ! a)" using assms by (simp add: key_inv_def)
    ultimately show ?thesis using assms(1) by (auto simp: key_inv_def grant_ok_def)
  qed
  then show ?thesis
    using assms
    by (auto simp: key_inv_def set_grant_state_def nth_list_update grant_ok_def auth_ok_def key_grows_def state_le_def)
qed

lemma set_auth_state_inv:
  assumes "key_inv r" and "a < length (auth_heap r)"
  shows "key_inv (set_auth_state a s r) \<and> key_grows r (set_auth_state a s r)"
proof -
  have "auth_ok r g" if "g \<in> set ((auth_heap r)[a := (auth_heap r ! a)\<lparr>auth_state := s\<rparr>])" for g
  proof -
    have "g = (auth_heap r ! a)\<lparr>auth_state := s\<rparr> \<or> g \<in> set (auth_heap r)"
      using set_update_subset_insert that by fast
    moreover have "auth_ok r (auth_heap r ! a)" using assms by (simp add: key_inv_def)
    ultimately show ?thesis using assms(1) by (auto simp: key_inv_def auth_ok_def)
  qed
  then show ?thesis
    using assms
    by (auto simp: key_inv_def set_auth_state_def nth_list_update grant_ok_def auth_ok_def key_grows_def state_le_def)
qed

lemma requireActiveKey_Inr:
  "requireActiveKey r i = Inr u \<Longrightarrow> \<exists>k. jm_get (kr_keys r) i = Some k \<and> key_state k = KActive"
  by (auto simp: requireActiveKey_def lookup_key_def outcome_simps)

lemma requireUsableKey_Inr:
  "requireUsableKey r i = Inr u \<Longrightarrow> \<exists>k. jm_get (kr_keys r) i = Some k \<and> (key_state k = KActive \<or> key_state k = KRetired)"
  by (auto simp: requireUsableKey_def isUsableKey_def lookup_key_def outcome_simps)

lemma lookup_grant_Inr: "lookup_grant r i = Inr a \<longleftrightarrow> jm_get (kr_grants r) i = Some a"
  by (auto simp: lookup_grant_def outcome_simps)

lemma lookup_authorization_Inr: "lookup_authorization r i = Inr a \<longleftrightarrow> jm_get (kr_authorizations r) i = Some a"
  by (auto simp: lookup_authorization_def outcome_simps)

lemma lookup_key_Inr: "lookup_key r i = Inr k \<longleftrightarrow> jm_get (kr_keys r) i = Some k"
  by (auto simp: lookup_key_def outcome_simps)

lemmas lookup_simps = lookup_grant_Inr lookup_authorization_Inr lookup_key_Inr

lemma begin_ok:
  assumes "key_inv r"
  shows "rotateControllerAuthorization_begin r i s = Inr p \<Longrightarrow> pending_ok r p"
    and "activateGrant_begin r i now = Inr p \<Longrightarrow> pending_ok r p"
    and "rotateRecipientEnvelope_begin r i k e = Inr p \<Longrightarrow> pending_ok r p"
  using assms
  by (auto simp: rotateControllerAuthorization_begin_def activateGrant_begin_def rotateRecipientEnvelope_begin_def
      outcome_simps lookup_simps key_inv_def auth_ok_def jm_has_def dest!: requireActiveKey_Inr)

lemma finish_inv:
  assumes "key_inv r" and "pending_ok r p" and "finish r p ok = Inr t"
  shows "key_inv t \<and> key_grows r t"
proof (cases p)
  case (PendingAuthRotation q a)
  let ?r = "put_authorization (authorizationId a) (a\<lparr>auth_state := AActive\<rparr>) r"
  have r: "key_inv ?r \<and> key_grows r ?r"
    using assms PendingAuthRotation by (intro put_authorization_inv) (auto simp: auth_ok_def)
  then have "key_inv (set_auth_state q ARetired ?r) \<and> key_grows ?r (set_auth_state q ARetired ?r)"
    using assms PendingAuthRotation by (intro set_auth_state_inv) (auto simp: put_authorization_def)
  then show ?thesis using r assms(3) PendingAuthRotation by (auto simp: outcome_simps intro: key_grows_trans)
next
  case (PendingActivation a)
  then show ?thesis using assms set_grant_state_inv by (auto simp: outcome_simps)
next
  case (PendingRecipientRotation i a k e)
  then have "grant_ok r (grant_heap r ! a)" using assms by (simp add: key_inv_def)
  then show ?thesis
    using assms PendingRecipientRotation
      put_grant_inv [OF assms(1), of "(grant_heap r ! a)\<lparr>grant_envelopeId := e, recipientKeyId := k\<rparr>" i]
    by (auto simp: outcome_simps grant_ok_def)
qed

lemma key_call_inv:
  assumes inv: "key_inv r" and c: "key_call r x = Inr t"
  shows "key_inv t \<and> key_grows r t"
proof (cases x)
  case (AddKey k)
  then show ?thesis using addKey_inv [OF inv] c by simp
next
  case (ActivateKey i)
  then show ?thesis
    using c key_inv_set_key [OF inv] by (auto simp: activateKey_def outcome_simps lookup_simps state_le_def)
next
  case (RecordKeyFailure i f)
  then obtain k where "jm_get (kr_keys r) i = Some k" "\<not> isTerminalKeyState (key_state k)"
    "t = set_key_state i k (failure_state f) r"
    using c by (auto simp: recordKeyFailure_def outcome_simps lookup_simps)
  moreover from this have "state_le (key_state k) (failure_state f)"
    by (cases "key_state k"; cases f) (auto simp: state_le_def isTerminalKeyState_def)
  ultimately show ?thesis using key_inv_set_key [OF inv] by blast
next
  case (RetireKey i)
  then show ?thesis
    using c key_inv_set_key [OF inv] by (auto simp: retireKey_def outcome_simps lookup_simps state_le_def Let_def)
next
  case (StageAuthorization a)
  then show ?thesis
    using c put_authorization_inv [OF inv]
    by (auto simp: stageControllerAuthorization_def outcome_simps auth_ok_def jm_has_def dest!: requireActiveKey_Inr)
next
  case (ActivateAuthorization i)
  then show ?thesis
    using c set_auth_state_inv [OF inv] key_inv_address(2) [OF inv]
    by (auto simp: activateControllerAuthorization_def outcome_simps lookup_simps)
next
  case (PrepareGrant g)
  then show ?thesis
    using c put_grant_inv [OF inv]
    by (auto simp: prepareGrant_def outcome_simps grant_ok_def jm_has_def dest!: requireActiveKey_Inr)
next
  case (RevokeGrant i)
  then show ?thesis
    using c set_grant_state_inv [OF inv] key_inv_address(1) [OF inv]
    by (auto simp: revokeGrant_def outcome_simps lookup_simps)
next
  case (RotateAuthorization i a ok)
  then show ?thesis using c begin_ok(1) [OF inv] finish_inv [OF inv] by (clarsimp simp: rbind_Inr_iff) blast
next
  case (ActivateGrant i now ok)
  then show ?thesis using c begin_ok(2) [OF inv] finish_inv [OF inv] by (clarsimp simp: rbind_Inr_iff) blast
next
  case (RotateRecipient i k e ok)
  then show ?thesis using c begin_ok(3) [OF inv] finish_inv [OF inv] by (clarsimp simp: rbind_Inr_iff) blast
qed

lemma key_step_inv: "key_inv r \<Longrightarrow> key_inv (key_step r x) \<and> key_grows r (key_step r x)"
  unfolding key_step_def by (rule settle_cases [where P = "\<lambda>t. key_inv t \<and> key_grows r t"]) (simp_all add: key_call_inv)

definition async_inv :: "async_state \<Rightarrow> bool" where
  "async_inv s = (key_inv (reg s) \<and> (\<forall>p\<in>set (suspended s). pending_ok (reg s) p))"

lemma suspend_inv:
  "async_inv s \<Longrightarrow> (\<And>p. m = Inr p \<Longrightarrow> pending_ok (reg s) p)
     \<Longrightarrow> async_inv (suspend s m) \<and> key_grows (reg s) (reg (suspend s m))"
  by (cases m) (auto simp: async_inv_def suspend_def)

lemma async_step_inv:
  assumes inv: "async_inv s"
  shows "async_inv (async_step s x) \<and> key_grows (reg s) (reg (async_step s x))"
proof (cases x)
  case (Whole y)
  have "key_inv (key_step (reg s) y)" "key_grows (reg s) (key_step (reg s) y)"
    using key_step_inv inv by (simp_all add: async_inv_def)
  then show ?thesis using inv Whole by (auto simp: async_inv_def intro: pending_ok_grows)
next
  case (Resume n ok)
  show ?thesis
  proof (cases "n < length (suspended s)")
    case True
    let ?r = "settle (reg s) (finish (reg s) (suspended s ! n) ok)"
    have "pending_ok (reg s) (suspended s ! n)" "key_inv (reg s)" using inv True by (simp_all add: async_inv_def)
    then have r: "key_inv ?r \<and> key_grows (reg s) ?r"
      by (intro settle_cases [where P = "\<lambda>t. key_inv t \<and> key_grows (reg s) t"]) (auto dest: finish_inv)
    moreover have "set (take n (suspended s) @ drop (Suc n) (suspended s)) \<subseteq> set (suspended s)"
      by (auto dest: in_set_takeD in_set_dropD)
    ultimately show ?thesis
      using inv True Resume pending_ok_grows by (fastforce simp: async_inv_def)
  qed (use inv Resume in simp)
qed (use inv begin_ok suspend_inv [OF inv] in \<open>auto simp: async_inv_def\<close>)

lemma async_inv_start: "async_inv async_start"
  by (simp add: async_start_def async_inv_def key_inv_empty)

interpretation keys: guarded_system async_start async_step async_inv
  by unfold_locales (simp_all add: async_step_inv async_inv_start)

interpretation calls: guarded_system empty_keys key_step key_inv
  by unfold_locales (simp_all add: key_step_inv key_inv_empty)

lemma async_run_grows: "async_inv s \<Longrightarrow> key_grows (reg s) (reg (run async_step s xs))"
  by (rule keys.run_relation [where R = "\<lambda>s t. key_grows (reg s) (reg t)"])
    (auto simp: async_step_inv intro: key_grows_trans)

subsection \<open>Revocation and retrieval\<close>

definition grant_of :: "key_registry \<Rightarrow> string \<Rightarrow> access_grant option" where
  "grant_of r i = map_option (\<lambda>a. grant_heap r ! a) (jm_get (kr_grants r) i)"

lemma authorizeRetrieval_Inr:
  assumes "authorizeRetrieval r i now = Inr u"
  shows "\<exists>g k. grant_of r i = Some g \<and> grant_state g = GActive \<and> effectiveAt g \<le> now \<and> now < expiresAt g
    \<and> jm_get (kr_keys r) (recipientKeyId g) = Some k \<and> (key_state k = KActive \<or> key_state k = KRetired)"
  using assms
  by (auto simp: authorizeRetrieval_def effectiveGrantState_def outcome_simps lookup_simps grant_of_def Let_def
      split: if_splits dest!: requireUsableKey_Inr)

lemma authorizeRetrieval_ok:
  assumes "grant_of r i = Some g" and "grant_state g = GActive" and "effectiveAt g \<le> now" and "now < expiresAt g"
    and "jm_get (kr_keys r) (recipientKeyId g) = Some k" and "key_state k = KActive \<or> key_state k = KRetired"
  shows "authorizeRetrieval r i now = Inr ()"
  using assms by (auto simp: authorizeRetrieval_def effectiveGrantState_def lookup_grant_def grant_of_def Let_def
      requireUsableKey_def isUsableKey_def lookup_key_def)

lemma grant_of_set_state:
  assumes "key_inv r" and "jm_get (kr_grants r) j = Some a"
  shows "grant_of (set_grant_state a s r) i =
    (if i = j then map_option (\<lambda>g. g\<lparr>grant_state := s\<rparr>) (grant_of r j) else grant_of r i)"
proof (cases "jm_get (kr_grants r) i")
  case (Some b)
  then have "b = a \<longleftrightarrow> i = j" using assms key_inv_address(1) [OF assms(1)] by (metis option.inject)
  then show ?thesis
    using Some assms key_inv_address(1) [OF assms(1)]
    by (auto simp: grant_of_def set_grant_state_def nth_list_update)
qed (use assms in \<open>auto simp: grant_of_def set_grant_state_def\<close>)

lemma grant_of_put:
  assumes "key_inv r"
  shows "grant_of (put_grant j g r) i = (if i = j then Some g else grant_of r i)"
proof (cases "jm_get (kr_grants r) i")
  case (Some b)
  then have "b < length (grant_heap r)" using key_inv_address(1) [OF assms] by blast
  then show ?thesis using Some by (simp add: grant_of_def put_grant_def jm_simps nth_append)
qed (simp add: grant_of_def put_grant_def jm_simps nth_append)

lemma grant_of_frame [simp]:
  "grant_of (set_key_state j k s r) i = grant_of r i"
  "grant_of (put_authorization j a r) i = grant_of r i"
  "grant_of (set_auth_state b t r) i = grant_of r i"
  "grant_of (r\<lparr>kr_keys := m\<rparr>) i = grant_of r i"
  by (simp_all add: grant_of_def set_key_state_def put_authorization_def set_auth_state_def)

text \<open>A call that runs to its end before the next one never brings a revoked grant back.\<close>

lemma revoked_stays:
  assumes inv: "key_inv r" and g: "grant_of r i = Some g" "grant_state g = GRevoked" and c: "key_call r x = Inr t"
  shows "grant_of t i = Some g"
proof -
  obtain a where a: "jm_get (kr_grants r) i = Some a" "grant_heap r ! a = g"
    using g(1) by (auto simp: grant_of_def)
  show ?thesis
  proof (cases x)
    case (PrepareGrant h)
    then show ?thesis
      using c a g by (auto simp: prepareGrant_def outcome_simps grant_of_put [OF inv] jm_has_def)
  next
    case (ActivateGrant j now ok)
    then obtain b where b: "jm_get (kr_grants r) j = Some b" "grant_state (grant_heap r ! b) = GPrepared"
      "t = set_grant_state b GActive r"
      using c by (auto simp: activateGrant_begin_def outcome_simps lookup_simps)
    then have "i \<noteq> j" using a g(2) by auto
    with b g(1) show ?thesis by (simp add: grant_of_set_state [OF inv b(1)])
  next
    case (RevokeGrant j)
    then obtain b where b: "jm_get (kr_grants r) j = Some b" "grant_state (grant_heap r ! b) \<noteq> GRevoked"
      "t = set_grant_state b GRevoked r"
      using c by (auto simp: revokeGrant_def outcome_simps lookup_simps)
    then have "i \<noteq> j" using a g(2) by auto
    with b g(1) show ?thesis by (simp add: grant_of_set_state [OF inv b(1)])
  next
    case (RotateRecipient j k e ok)
    then obtain b where b: "jm_get (kr_grants r) j = Some b" "grant_state (grant_heap r ! b) = GActive"
      "t = put_grant j ((grant_heap r ! b)\<lparr>grant_envelopeId := e, recipientKeyId := k\<rparr>) r"
      using c by (auto simp: rotateRecipientEnvelope_begin_def outcome_simps lookup_simps)
    then have "i \<noteq> j" using a g(2) by auto
    with b g(1) show ?thesis by (simp add: grant_of_put [OF inv])
  qed (use c g(1) in \<open>auto simp: addKey_def activateKey_def recordKeyFailure_def retireKey_def Let_def
      stageControllerAuthorization_def activateControllerAuthorization_def
      rotateControllerAuthorization_begin_def outcome_simps\<close>)
qed

lemma revoked_run:
  assumes "key_inv r" and "grant_of r i = Some g" "grant_state g = GRevoked"
  shows "grant_of (run key_step r xs) i = Some g"
proof (rule calls.run_relation [where R = "\<lambda>r t. grant_of r i = Some g \<longrightarrow> grant_of t i = Some g", rule_format])
  show "grant_of (key_step s x) i = Some g" if "key_inv s" "grant_of s i = Some g" for s x
    unfolding key_step_def using revoked_stays [OF that(1,2) assms(3)] that(2)
    by (cases "key_call s x") auto
qed (use assms in auto)

subsection \<open>Revocation and suspended calls\<close>

text \<open>The grant that a suspended call is about.\<close>

definition suspended_grant :: "key_registry \<Rightarrow> pending \<Rightarrow> string option" where
  "suspended_grant r p = (case p of PendingActivation a \<Rightarrow> Some (grantId (grant_heap r ! a))
     | PendingRecipientRotation j a k e \<Rightarrow> Some j | PendingAuthRotation q a \<Rightarrow> None)"

lemma suspended_grant_grows: "key_grows r t \<Longrightarrow> pending_ok r p \<Longrightarrow> suspended_grant t p = suspended_grant r p"
  by (cases p) (auto simp: suspended_grant_def key_grows_def)

text \<open>A call on another grant leaves the grant as it is when it resumes.\<close>

lemma finish_other:
  assumes inv: "key_inv r" and p: "suspended_grant r p \<noteq> Some i" and t: "finish r p ok = Inr t"
  shows "grant_of t i = grant_of r i"
proof (cases p)
  case (PendingActivation a)
  have "b \<noteq> a" if "jm_get (kr_grants r) i = Some b" for b
    using key_inv_address(1) [OF inv that] p PendingActivation by (auto simp: suspended_grant_def)
  then show ?thesis
    using t PendingActivation by (cases "jm_get (kr_grants r) i") (auto simp: outcome_simps grant_of_def set_grant_state_def)
next
  case (PendingRecipientRotation j a k e)
  then show ?thesis using p t by (auto simp: outcome_simps suspended_grant_def grant_of_put [OF inv])
qed (use t in \<open>auto simp: outcome_simps\<close>)

lemma begin_other:
  assumes inv: "key_inv r" and g: "grant_of r i = Some g" "grant_state g = GRevoked"
  shows "rotateControllerAuthorization_begin r j a = Inr p \<Longrightarrow> suspended_grant r p \<noteq> Some i"
    and "activateGrant_begin r j now = Inr p \<Longrightarrow> suspended_grant r p \<noteq> Some i"
    and "rotateRecipientEnvelope_begin r j k e = Inr p \<Longrightarrow> suspended_grant r p \<noteq> Some i"
  using g key_inv_address(1) [OF inv, of j]
  by (auto simp: rotateControllerAuthorization_begin_def activateGrant_begin_def rotateRecipientEnvelope_begin_def
      outcome_simps lookup_simps suspended_grant_def grant_of_def)

definition revoked_alone :: "string \<Rightarrow> access_grant \<Rightarrow> async_state \<Rightarrow> bool" where
  "revoked_alone i g s = (grant_of (reg s) i = Some g \<and> (\<forall>p\<in>set (suspended s). suspended_grant (reg s) p \<noteq> Some i))"

lemma revoked_alone_step:
  assumes inv: "async_inv s" and g: "grant_state g = GRevoked" and s: "revoked_alone i g s"
  shows "revoked_alone i g (async_step s x)"
proof -
  have k: "key_inv (reg s)" and pend: "\<And>p. p \<in> set (suspended s) \<Longrightarrow> pending_ok (reg s) p"
    and gi: "grant_of (reg s) i = Some g" and other: "\<And>p. p \<in> set (suspended s) \<Longrightarrow> suspended_grant (reg s) p \<noteq> Some i"
    using inv s by (auto simp: async_inv_def revoked_alone_def)
  have grows: "key_grows (reg s) (reg (async_step s x))" using async_step_inv [OF inv] by blast
  have kept: "suspended_grant (reg (async_step s x)) p \<noteq> Some i" if "p \<in> set (suspended s)" for p
    using suspended_grant_grows [OF grows pend [OF that]] other [OF that] by simp
  have begin_step: "revoked_alone i g (suspend s m)" if "\<And>p. m = Inr p \<Longrightarrow> suspended_grant (reg s) p \<noteq> Some i" for m
    using that s by (cases m) (auto simp: revoked_alone_def suspend_def)
  show ?thesis
  proof (cases x)
    case (Whole y)
    have "grant_of (key_step (reg s) y) i = Some g"
      unfolding key_step_def using revoked_stays [OF k gi g] gi by (cases "key_call (reg s) y") auto
    then show ?thesis using kept Whole by (simp add: revoked_alone_def)
  next
    case (Resume n ok)
    show ?thesis
    proof (cases "n < length (suspended s)")
      case True
      let ?p = "suspended s ! n"
      have "grant_of (settle (reg s) (finish (reg s) ?p ok)) i = Some g"
        using finish_other [OF k other, of ?p ok] gi True by (cases "finish (reg s) ?p ok") auto
      then show ?thesis
        using kept True Resume by (auto simp: revoked_alone_def dest: in_set_takeD in_set_dropD)
    qed (use s Resume in simp)
  qed (auto intro!: begin_step dest: begin_other [OF k gi g])
qed

lemma revoked_alone_run:
  assumes "async_inv s" and "grant_state g = GRevoked" and "revoked_alone i g s"
  shows "revoked_alone i g (run async_step s xs)"
  by (rule keys.run_relation [where R = "\<lambda>s t. revoked_alone i g s \<longrightarrow> revoked_alone i g t", rule_format])
    (use assms revoked_alone_step in auto)

text \<open>A suspended activation of the grant's object brings it back.\<close>

lemma resumed_activation:
  assumes inv: "async_inv s" and g: "grant_of (reg s) i = Some g" and n: "n < length (suspended s)"
    and p: "suspended s ! n = PendingActivation a" "jm_get (kr_grants (reg s)) i = Some a"
  shows "grant_of (reg (async_step s (Resume n True))) i = Some (g\<lparr>grant_state := GActive\<rparr>)"
  using assms grant_of_set_state [of "reg s" i a GActive i] by (simp add: async_inv_def)

subsection \<open>Restoring a snapshot\<close>

definition auth_of :: "key_registry \<Rightarrow> string \<Rightarrow> controller_authorization option" where
  "auth_of r i = map_option (\<lambda>a. auth_heap r ! a) (jm_get (kr_authorizations r) i)"

definition by_id :: "('a \<Rightarrow> 'k) \<Rightarrow> 'a list \<Rightarrow> 'k \<Rightarrow> 'a option" where
  "by_id f xs = map_of (map (\<lambda>x. (f x, x)) xs)"

lemma by_id_Cons: "by_id f (x # xs) = (by_id f xs)(f x \<mapsto> x)"
  by (simp add: by_id_def)

lemma by_id_notin: "i \<notin> f ` set xs \<Longrightarrow> by_id f xs i = None"
  by (auto simp: by_id_def map_of_eq_None_iff)

lemma by_id_sort: "distinct (map f xs) \<Longrightarrow> by_id f (js_sort le xs) = by_id f xs"
  unfolding by_id_def by (subst map_of_inject_set) (auto simp: comp_def)

lemma by_id_map:
  assumes "jm_ok m" and "\<And>i v. jm_get m i = Some v \<Longrightarrow> f (g v) = i"
  shows "by_id f (map g (jm_values m)) i = map_option g (jm_get m i)" and "distinct (map f (map g (jm_values m)))"
proof -
  have "map (\<lambda>v. f (g v)) (jm_values m) = map fst m"
    using assms unfolding jm_values_def by (induction m) (auto simp: jm_get_in_set)
  then show "distinct (map f (map g (jm_values m)))" using assms(1) by (simp add: jm_ok_def comp_def)
  have "map (\<lambda>x. (f x, x)) (map g (jm_values m)) = map (\<lambda>(k, v). (k, g v)) m"
    using assms unfolding jm_values_def by (auto simp: jm_get_in_set)
  then show "by_id f (map g (jm_values m)) i = map_option g (jm_get m i)"
    by (simp add: by_id_def jm_get_def map_of_map)
qed

lemma auth_of_put:
  assumes "key_inv r"
  shows "auth_of (put_authorization j g r) i = (if i = j then Some g else auth_of r i)"
proof (cases "jm_get (kr_authorizations r) i")
  case (Some b)
  then have "b < length (auth_heap r)" using key_inv_address(2) [OF assms] by blast
  then show ?thesis using Some by (simp add: auth_of_def put_authorization_def jm_simps nth_append)
qed (simp add: auth_of_def put_authorization_def jm_simps nth_append)

lemma auth_of_has: "jm_has (kr_authorizations r) i \<longleftrightarrow> auth_of r i \<noteq> None"
  by (simp add: jm_has_def auth_of_def)

lemma grant_of_has: "jm_has (kr_grants r) i \<longleftrightarrow> grant_of r i \<noteq> None"
  by (simp add: jm_has_def grant_of_def)

lemma restore_keys:
  assumes "key_inv r" and "distinct (map key_id ks)" and "\<forall>k\<in>set ks. isEncryptionKeyRecord k \<and> \<not> jm_has (kr_keys r) (key_id k)"
  shows "\<exists>t. rfold restore_key r ks = Inr t \<and> key_inv t \<and> auth_of t = auth_of r \<and> grant_of t = grant_of r
    \<and> jm_get (kr_keys t) = jm_get (kr_keys r) ++ by_id key_id ks"
  using assms
proof (induction ks arbitrary: r)
  case (Cons k ks)
  define s where "s = r\<lparr>kr_keys := jm_set (key_id k) k (kr_keys r)\<rparr>"
  have s: "restore_key r k = Inr s" "addKey r k = Inr s"
    using Cons.prems(3) by (simp_all add: restore_key_def addKey_def s_def)
  have inv: "key_inv s" using addKey_inv [OF Cons.prems(1) s(2)] by simp
  have "\<forall>j\<in>set ks. isEncryptionKeyRecord j \<and> \<not> jm_has (kr_keys s) (key_id j)"
    using Cons.prems by (auto simp: s_def jm_has_def jm_simps) (metis image_eqI)
  then obtain t where t: "rfold restore_key s ks = Inr t" "key_inv t" "auth_of t = auth_of s" "grant_of t = grant_of s"
    "jm_get (kr_keys t) = jm_get (kr_keys s) ++ by_id key_id ks"
    using Cons.IH [OF inv] Cons.prems(2) by auto
  have "by_id key_id ks (key_id k) = None" using Cons.prems(2) by (intro by_id_notin) auto
  moreover have "jm_get (kr_keys s) = (jm_get (kr_keys r))(key_id k \<mapsto> k)" by (auto simp: s_def jm_simps)
  ultimately have "jm_get (kr_keys t) = jm_get (kr_keys r) ++ by_id key_id (k # ks)"
    using t(5) by (simp add: by_id_Cons by_id_notin map_add_upd_left domIff)
  moreover have "auth_of s = auth_of r" "grant_of s = grant_of r"
    by (simp_all add: s_def auth_of_def grant_of_def fun_eq_iff)
  ultimately show ?case using s(1) t by auto
qed (simp add: by_id_def)

lemma restore_authorizations:
  assumes "key_inv r" and "distinct (map authorizationId xs)"
    and "\<forall>x\<in>set xs. isControllerAuthorizationRecord x \<and> jm_has (kr_keys r) (auth_keyId x) \<and> auth_of r (authorizationId x) = None"
  shows "\<exists>t. rfold restore_authorization r xs = Inr t \<and> key_inv t \<and> kr_keys t = kr_keys r \<and> grant_of t = grant_of r
    \<and> auth_of t = auth_of r ++ by_id authorizationId xs"
  using assms
proof (induction xs arbitrary: r)
  case (Cons x xs)
  define s where "s = put_authorization (authorizationId x) x r"
  have s: "restore_authorization r x = Inr s"
    using Cons.prems(3) by (simp add: restore_authorization_def s_def auth_of_has)
  have inv: "key_inv s" using put_authorization_inv [OF Cons.prems(1) refl] Cons.prems(3) by (simp add: s_def auth_ok_def)
  have sk: "kr_keys s = kr_keys r" by (simp add: s_def put_authorization_def)
  have so: "auth_of s i = (if i = authorizationId x then Some x else auth_of r i)" for i
    by (simp add: s_def auth_of_put [OF Cons.prems(1)])
  have "\<forall>y\<in>set xs. isControllerAuthorizationRecord y \<and> jm_has (kr_keys s) (auth_keyId y) \<and> auth_of s (authorizationId y) = None"
    using Cons.prems by (auto simp: sk so) (metis image_eqI)
  then obtain t where t: "rfold restore_authorization s xs = Inr t" "key_inv t" "kr_keys t = kr_keys s" "grant_of t = grant_of s"
    "auth_of t = auth_of s ++ by_id authorizationId xs"
    using Cons.IH [OF inv] Cons.prems(2) by auto
  have "by_id authorizationId xs (authorizationId x) = None" using Cons.prems(2) by (intro by_id_notin) auto
  moreover have "auth_of s = (auth_of r)(authorizationId x \<mapsto> x)" by (auto simp: so)
  ultimately have "auth_of t = auth_of r ++ by_id authorizationId (x # xs)"
    using t(5) by (simp add: by_id_Cons map_add_upd_left domIff)
  moreover have "grant_of s = grant_of r" by (simp add: s_def fun_eq_iff)
  ultimately show ?case using s t sk by auto
qed (simp add: by_id_def)

lemma restore_grants:
  assumes "key_inv r" and "distinct (map grantId xs)"
    and "\<forall>x\<in>set xs. isAccessGrantRecord x \<and> jm_has (kr_keys r) (recipientKeyId x) \<and> grant_of r (grantId x) = None"
  shows "\<exists>t. rfold restore_grant r xs = Inr t \<and> key_inv t \<and> kr_keys t = kr_keys r \<and> auth_of t = auth_of r
    \<and> grant_of t = grant_of r ++ by_id grantId xs"
  using assms
proof (induction xs arbitrary: r)
  case (Cons x xs)
  define s where "s = put_grant (grantId x) x r"
  have s: "restore_grant r x = Inr s"
    using Cons.prems(3) by (simp add: restore_grant_def s_def grant_of_has)
  have inv: "key_inv s"
    using put_grant_inv [OF Cons.prems(1) refl] Cons.prems(3) by (simp add: s_def grant_ok_def isAccessGrantRecord_def)
  have sk: "kr_keys s = kr_keys r" by (simp add: s_def put_grant_def)
  have so: "grant_of s i = (if i = grantId x then Some x else grant_of r i)" for i
    by (simp add: s_def grant_of_put [OF Cons.prems(1)])
  have "\<forall>y\<in>set xs. isAccessGrantRecord y \<and> jm_has (kr_keys s) (recipientKeyId y) \<and> grant_of s (grantId y) = None"
    using Cons.prems by (auto simp: sk so) (metis image_eqI)
  then obtain t where t: "rfold restore_grant s xs = Inr t" "key_inv t" "kr_keys t = kr_keys s" "auth_of t = auth_of s"
    "grant_of t = grant_of s ++ by_id grantId xs"
    using Cons.IH [OF inv] Cons.prems(2) by auto
  have "by_id grantId xs (grantId x) = None" using Cons.prems(2) by (intro by_id_notin) auto
  moreover have "grant_of s = (grant_of r)(grantId x \<mapsto> x)" by (auto simp: so)
  ultimately have "grant_of t = grant_of r ++ by_id grantId (x # xs)"
    using t(5) by (simp add: by_id_Cons map_add_upd_left domIff)
  moreover have "auth_of s = auth_of r" by (simp add: s_def put_grant_def auth_of_def fun_eq_iff)
  ultimately show ?case using s t sk by auto
qed (simp add: by_id_def)

definition records_valid :: "key_registry \<Rightarrow> bool" where
  "records_valid r = (list_all isEncryptionKeyRecord (jm_values (kr_keys r))
     \<and> list_all isControllerAuthorizationRecord (authorization_values r) \<and> list_all isAccessGrantRecord (grant_values r))"

lemma values_registered:
  assumes inv: "key_inv r"
  shows "a \<in> set (authorization_values r) \<Longrightarrow> jm_has (kr_keys r) (auth_keyId a)"
    and "g \<in> set (grant_values r) \<Longrightarrow> jm_has (kr_keys r) (recipientKeyId g)"
proof -
  show "jm_has (kr_keys r) (auth_keyId a)" if m: "a \<in> set (authorization_values r)"
  proof -
    obtain n where n: "n \<in> set (jm_values (kr_authorizations r))" "a = auth_heap r ! n"
      using m by (auto simp: authorization_values_def)
    moreover have "jm_ok (kr_authorizations r)" using inv by (simp add: key_inv_def)
    ultimately obtain i where "jm_get (kr_authorizations r) i = Some n" "a = auth_heap r ! n"
      using jm_values_iff by metis
    then show ?thesis using inv key_inv_address(2) [OF inv] by (auto simp: key_inv_def auth_ok_def)
  qed
  show "jm_has (kr_keys r) (recipientKeyId g)" if m: "g \<in> set (grant_values r)"
  proof -
    obtain n where n: "n \<in> set (jm_values (kr_grants r))" "g = grant_heap r ! n"
      using m by (auto simp: grant_values_def)
    moreover have "jm_ok (kr_grants r)" using inv by (simp add: key_inv_def)
    ultimately obtain i where "jm_get (kr_grants r) i = Some n" "g = grant_heap r ! n"
      using jm_values_iff by metis
    then show ?thesis using inv key_inv_address(1) [OF inv] by (auto simp: key_inv_def grant_ok_def)
  qed
qed

lemma snapshot_roundtrip:
  assumes inv: "key_inv r" and ok: "records_valid r"
  shows "\<exists>t. fromSnapshot (snapshot le r) = Inr t \<and> key_inv t
    \<and> jm_get (kr_keys t) = jm_get (kr_keys r) \<and> auth_of t = auth_of r \<and> grant_of t = grant_of r"
proof -
  let ?ks = "snap_keys (snapshot le r)" and ?as = "snap_authorizations (snapshot le r)" and ?gs = "snap_grants (snapshot le r)"
  have "jm_ok (kr_keys r)" "jm_ok (kr_authorizations r)" "jm_ok (kr_grants r)"
    "\<And>i k. jm_get (kr_keys r) i = Some k \<Longrightarrow> key_id k = i"
    using inv by (auto simp: key_inv_def)
  note id = by_id_map [OF this(1), of key_id "\<lambda>k. k", OF this(4)]
    by_id_map [OF this(2), of authorizationId "\<lambda>a. auth_heap r ! a"]
    by_id_map [OF this(3), of grantId "\<lambda>a. grant_heap r ! a"]
  have k: "by_id key_id ?ks = jm_get (kr_keys r)" "distinct (map key_id ?ks)" "set ?ks = set (jm_values (kr_keys r))"
    using id(1,2) by (simp_all add: snapshot_def by_id_sort fun_eq_iff option.map_ident)
  have a: "by_id authorizationId ?as = auth_of r" "distinct (map authorizationId ?as)" "set ?as = set (authorization_values r)"
    using id(3,4) key_inv_address(2) [OF inv]
    by (simp_all add: snapshot_def by_id_sort fun_eq_iff auth_of_def authorization_values_def)
  have g: "by_id grantId ?gs = grant_of r" "distinct (map grantId ?gs)" "set ?gs = set (grant_values r)"
    using id(5,6) key_inv_address(1) [OF inv]
    by (simp_all add: snapshot_def by_id_sort fun_eq_iff grant_of_def grant_values_def)
  have empty: "auth_of empty_keys i = None" "grant_of empty_keys i = None" "jm_get (kr_keys empty_keys) i = None" for i
    by (simp_all add: auth_of_def grant_of_def empty_keys_def)
  have empty_fun: "auth_of empty_keys = Map.empty" "grant_of empty_keys = Map.empty" "jm_get (kr_keys empty_keys) = Map.empty"
    by (simp_all add: empty fun_eq_iff)
  have e: "\<forall>k\<in>set ?ks. isEncryptionKeyRecord k \<and> \<not> jm_has (kr_keys empty_keys) (key_id k)"
    using ok unfolding k(3) by (auto simp: records_valid_def list_all_iff jm_has_def empty)
  obtain r1 where r1: "rfold restore_key empty_keys ?ks = Inr r1" "key_inv r1" "auth_of r1 = Map.empty"
    "grant_of r1 = Map.empty" "jm_get (kr_keys r1) = jm_get (kr_keys r)"
    using restore_keys [OF key_inv_empty k(2) e] unfolding k(1) empty_fun by auto
  have has: "jm_has (kr_keys r1) i = jm_has (kr_keys r) i" for i by (simp add: jm_has_def r1(5))
  have e2: "\<forall>x\<in>set ?as. isControllerAuthorizationRecord x \<and> jm_has (kr_keys r1) (auth_keyId x) \<and> auth_of r1 (authorizationId x) = None"
    using ok values_registered(1) [OF inv] unfolding a(3) by (auto simp: records_valid_def list_all_iff has r1(3) empty)
  obtain r2 where r2: "rfold restore_authorization r1 ?as = Inr r2" "key_inv r2" "kr_keys r2 = kr_keys r1"
    "grant_of r2 = grant_of r1" "auth_of r2 = auth_of r"
    using restore_authorizations [OF r1(2) a(2) e2] unfolding a(1) r1(3) empty_fun by auto
  have e3: "\<forall>x\<in>set ?gs. isAccessGrantRecord x \<and> jm_has (kr_keys r2) (recipientKeyId x) \<and> grant_of r2 (grantId x) = None"
    using ok values_registered(2) [OF inv] unfolding g(3)
    by (auto simp: records_valid_def list_all_iff has r2(3,4) r1(4) empty)
  obtain r3 where r3: "rfold restore_grant r2 ?gs = Inr r3" "key_inv r3" "kr_keys r3 = kr_keys r2"
    "auth_of r3 = auth_of r2" "grant_of r3 = grant_of r"
    using restore_grants [OF r2(2) g(2) e3] unfolding g(1) r2(4) r1(4) empty_fun by auto
  show ?thesis
    using r1 r2 r3 by (intro exI [of _ r3]) (simp add: fromSnapshot_def)
qed

end
