(* ===== verification/Projector.thy ===== *)
theory Projector
  imports Schemas
begin

text \<open>
  The indexer's projection of the canonical chain, \<open>src/indexer/canonical-projector.ts\<close>. The canonical
  JSON text of a block (the \<open>canonicalize\<close> package) and of a snapshot is a parameter \<open>canon\<close>; the
  reducer and the confirmation depth are the constructor's arguments. The lemmas show that a selected
  head yields the linked chain from genesis, that the state is the fold of the confirmed blocks alone,
  whatever was selected before, and that a projector never reports a cycle.
\<close>

record 'e chain_block =
  block_events :: "'e list"
  block_hash :: string
  block_number :: int
  block_parentHash :: string

record ('e, 's) projection_reducer =
  initialState :: 's
  red_apply :: "'s \<Rightarrow> 'e \<Rightarrow> 's"

record 's projector_snapshot =
  confirmedHead :: "(string \<times> int) option"
  snap_state :: 's

datatype projector_error = ProjConflict | ProjGap | ProjUnknownParent

record ('e, 's) projector =
  pj_blocks :: "(string, 'e chain_block) jmap"
  pj_canonical :: "'e chain_block list"
  pj_state :: 's
  pj_depth :: nat

definition new_projector :: "('e, 's) projection_reducer \<Rightarrow> int \<Rightarrow> ('e, 's) projector option" where
  "new_projector red confirmationDepth =
     (if confirmationDepth > max_safe_integer \<or> confirmationDepth < 0 then None
      else Some \<lparr>pj_blocks = [], pj_canonical = [], pj_state = initialState red, pj_depth = nat confirmationDepth\<rparr>)"

definition ingest ::
  "('e chain_block \<Rightarrow> string) \<Rightarrow> ('e, 's) projector \<Rightarrow> 'e chain_block \<Rightarrow> projector_error + ('e, 's) projector" where
  "ingest canon p block =
     rbind (check (block_number block > max_safe_integer \<or> block_number block < 0 \<or> length (block_hash block) = 0)
              ProjGap) (\<lambda>_.
     case jm_get (pj_blocks p) (block_hash block) of
       Some existing \<Rightarrow> if canon existing \<noteq> canon block then Inl ProjConflict else Inr p
     | None \<Rightarrow>
         rbind (check (block_number block > 0 \<and> \<not> jm_has (pj_blocks p) (block_parentHash block))
                  ProjUnknownParent) (\<lambda>_.
         Inr (p\<lparr>pj_blocks := jm_set (block_hash block) block (pj_blocks p)\<rparr>)))"

text \<open>The loop of \<open>pathToGenesis\<close>: it ends since every round adds a hash of a stored block to \<open>seen\<close>.\<close>

definition unseen :: "(string, 'e chain_block) jmap \<Rightarrow> string list \<Rightarrow> string set" where
  "unseen blocks seen = block_hash ` snd ` set blocks - set seen"

lemma unseen_less:
  assumes "jm_get blocks h = Some b" and "block_hash b \<notin> set seen"
  shows "card (unseen blocks (block_hash b # seen)) < card (unseen blocks seen)"
proof (rule psubset_card_mono)
  show "finite (unseen blocks seen)" by (simp add: unseen_def)
  have "b \<in> snd ` set blocks" using assms(1) by (force simp: jm_get_def dest: map_of_SomeD)
  then show "unseen blocks (block_hash b # seen) \<subset> unseen blocks seen" using assms(2) by (auto simp: unseen_def)
qed

function path_from ::
  "(string, 'e chain_block) jmap \<Rightarrow> string list \<Rightarrow> string \<Rightarrow> projector_error + 'e chain_block list" where
  "path_from blocks seen h =
     (case jm_get blocks h of
        None \<Rightarrow> Inl ProjUnknownParent
      | Some block \<Rightarrow>
          if block_hash block \<in> set seen then Inl ProjConflict
          else if block_number block = 0 then Inr [block]
          else (case jm_get blocks (block_parentHash block) of
                  None \<Rightarrow> Inl ProjGap
                | Some parent \<Rightarrow>
                    if block_number parent + 1 \<noteq> block_number block then Inl ProjGap
                    else rbind (path_from blocks (block_hash block # seen) (block_parentHash block))
                           (\<lambda>rest. Inr (rest @ [block]))))"
  by pat_completeness auto

termination
  by (relation "measure (\<lambda>(blocks, seen, h). card (unseen blocks seen))") (auto simp: unseen_less)

declare path_from.simps [simp del]

definition pathToGenesis :: "('e, 's) projector \<Rightarrow> string \<Rightarrow> projector_error + 'e chain_block list" where
  "pathToGenesis p headHash = path_from (pj_blocks p) [] headHash"

definition confirmed_blocks :: "nat \<Rightarrow> 'e chain_block list \<Rightarrow> 'e chain_block list" where
  "confirmed_blocks depth chain = take (length chain - depth) chain"

definition apply_block :: "('e, 's) projection_reducer \<Rightarrow> 's \<Rightarrow> 'e chain_block \<Rightarrow> 's" where
  "apply_block red s block = foldl (red_apply red) s (block_events block)"

definition rebuild :: "('e, 's) projection_reducer \<Rightarrow> ('e, 's) projector \<Rightarrow> ('e, 's) projector" where
  "rebuild red p = p\<lparr>pj_state :=
     foldl (apply_block red) (initialState red) (confirmed_blocks (pj_depth p) (pj_canonical p))\<rparr>"

definition snapshot_now :: "('e, 's) projector \<Rightarrow> 's projector_snapshot" where
  "snapshot_now p =
     (let confirmedIndex = int (length (pj_canonical p)) - 1 - int (pj_depth p) in
      \<lparr>confirmedHead = (if confirmedIndex \<ge> 0
          then let b = pj_canonical p ! nat confirmedIndex in Some (block_hash b, block_number b) else None),
       snap_state = pj_state p\<rparr>)"

definition selectHead ::
  "('e, 's) projection_reducer \<Rightarrow> ('e, 's) projector \<Rightarrow> string
    \<Rightarrow> projector_error + ('s projector_snapshot \<times> ('e, 's) projector)" where
  "selectHead red p headHash =
     rbind (pathToGenesis p headHash) (\<lambda>path.
     let q = rebuild red (p\<lparr>pj_canonical := path\<rparr>) in Inr (snapshot_now q, q))"

definition checkpoint :: "('s projector_snapshot \<Rightarrow> string) \<Rightarrow> ('e, 's) projector \<Rightarrow> string" where
  "checkpoint canonical p = canonical (snapshot_now p)"

subsection \<open>The evidence reducer\<close>

datatype projection_kind = PActivated | PRevoked | PSuperseded

record projection_event =
  pe_claimId :: string
  pe_kind :: projection_kind
  pe_version :: int

datatype projection_status = PsActive | PsRevoked | PsSuperseded

type_synonym projection_state = "(string, projection_status \<times> int) jmap"

fun projection_status_of :: "projection_kind \<Rightarrow> projection_status" where
  "projection_status_of PActivated = PsActive"
| "projection_status_of PRevoked = PsRevoked"
| "projection_status_of PSuperseded = PsSuperseded"

definition evidenceProjectionReducer :: "(projection_event, projection_state) projection_reducer" where
  "evidenceProjectionReducer = \<lparr>initialState = [],
     red_apply = (\<lambda>claims e. jm_set (pe_claimId e) (projection_status_of (pe_kind e), pe_version e) claims)\<rparr>"

subsection \<open>Chains\<close>

definition linked :: "'e chain_block list \<Rightarrow> bool" where
  "linked chain = (\<forall>i < length chain. block_number (chain ! i) = int i
     \<and> (0 < i \<longrightarrow> block_parentHash (chain ! i) = block_hash (chain ! (i - 1))))"

definition keyed :: "(string, 'e chain_block) jmap \<Rightarrow> bool" where
  "keyed blocks = (\<forall>h b. jm_get blocks h = Some b \<longrightarrow> block_hash b = h \<and> 0 \<le> block_number b
     \<and> (0 < block_number b \<longrightarrow> jm_has blocks (block_parentHash b)))"

lemma linked_snoc:
  assumes "linked chain" and "chain \<noteq> []" and "block_parentHash b = block_hash (last chain)"
    and "block_number (last chain) + 1 = block_number b"
  shows "linked (chain @ [b])"
proof -
  have "block_number (last chain) = int (length chain - 1)"
    using assms(1,2) by (simp add: linked_def last_conv_nth)
  then have "block_number b = int (length chain)" using assms(2,4) by (cases chain) auto
  moreover have "chain ! (i - 1) = (chain @ [b]) ! (i - 1)" if "i \<le> length chain" "0 < i" for i
    using that by (simp add: nth_append)
  moreover have "block_hash (last chain) = block_hash (chain ! (length chain - 1))"
    using assms(2) by (simp add: last_conv_nth)
  ultimately show ?thesis
    using assms(1,3) unfolding linked_def length_append_singleton
    by (metis le_eq_less_or_eq less_Suc_eq_le nth_append nth_append_length)
qed

lemma path_from_Inr:
  assumes "path_from blocks seen h = Inr path" and "keyed blocks"
  shows "path \<noteq> [] \<and> linked path \<and> block_hash (last path) = h \<and> jm_get blocks h = Some (last path)
    \<and> (\<forall>b\<in>set path. jm_get blocks (block_hash b) = Some b)"
  using assms
proof (induction blocks seen h arbitrary: path rule: path_from.induct)
  case (1 blocks seen h)
  obtain b where b: "jm_get blocks h = Some b" "block_hash b \<notin> set seen"
    using 1(2) by (subst (asm) path_from.simps) (auto split: option.splits if_splits)
  have key: "block_hash b = h" using b 1(3) by (simp add: keyed_def)
  show ?case
  proof (cases "block_number b = 0")
    case True
    then have "path = [b]" using 1(2) b by (subst (asm) path_from.simps) simp
    then show ?thesis using b key True by (simp add: linked_def)
  next
    case False
    then obtain parent rest where p: "jm_get blocks (block_parentHash b) = Some parent"
      "block_number parent + 1 = block_number b"
      and rest: "path_from blocks (block_hash b # seen) (block_parentHash b) = Inr rest" "path = rest @ [b]"
      using 1(2) b by (subst (asm) path_from.simps) (auto simp: outcome_simps split: option.splits if_splits)
    have ih: "rest \<noteq> []" "linked rest" "block_hash (last rest) = block_parentHash b" "last rest = parent"
      "\<forall>b\<in>set rest. jm_get blocks (block_hash b) = Some b"
      using 1(1) [OF b(1) _ _ p(1) _ rest(1) 1(3)] b(2) False p by auto
    have "linked path" using linked_snoc [OF ih(2,1)] ih p(2) rest(2) by simp
    then show ?thesis using b key rest ih by auto
  qed
qed

text \<open>With numbers that fall by one from block to block, no hash is met twice.\<close>

lemma path_from_no_conflict:
  assumes "keyed blocks" and "jm_get blocks h = Some b"
    and "\<And>g c. g \<in> set seen \<Longrightarrow> jm_get blocks g = Some c \<Longrightarrow> block_number b < block_number c"
    and "\<And>g. g \<in> set seen \<Longrightarrow> jm_get blocks g \<noteq> None"
  shows "path_from blocks seen h \<noteq> Inl ProjConflict"
  using assms
proof (induction blocks seen h arbitrary: b rule: path_from.induct)
  case (1 blocks seen h)
  have key: "block_hash b = h" using 1(2,3) by (simp add: keyed_def)
  have new: "h \<notin> set seen" using 1(3) 1(4) [of h b] by auto
  show ?case
  proof (cases "block_number b = 0 \<or> jm_get blocks (block_parentHash b) = None")
    case True
    then show ?thesis using 1(3) key new by (subst path_from.simps) auto
  next
    case False
    then obtain parent where p: "jm_get blocks (block_parentHash b) = Some parent" by auto
    show ?thesis
    proof (cases "block_number parent + 1 = block_number b")
      case True
      have "path_from blocks (block_hash b # seen) (block_parentHash b) \<noteq> Inl ProjConflict"
      proof (rule 1(1) [OF 1(3) _ _ p _ 1(2) p])
        show "block_hash b \<notin> set seen" using key new by simp
        show "block_number b \<noteq> 0" using False by simp
        show "\<not> block_number parent + 1 \<noteq> block_number b" using True by simp
        fix g c
        show "block_number parent < block_number c" if "g \<in> set (block_hash b # seen)" "jm_get blocks g = Some c"
          using that True key 1(3) 1(4) [of g c] by auto
        show "jm_get blocks g \<noteq> None" if "g \<in> set (block_hash b # seen)" for g
          using that key 1(3) 1(5) [of g] by auto
      qed
      then have "rbind (path_from blocks (block_hash b # seen) (block_parentHash b)) (\<lambda>rest. Inr (rest @ [b]))
          \<noteq> Inl ProjConflict"
        by (cases "path_from blocks (block_hash b # seen) (block_parentHash b)") auto
      then show ?thesis using 1(3) key new p False True by (subst path_from.simps) simp
    next
      case unlinked: False
      then show ?thesis using 1(3) key new p False by (subst path_from.simps) simp
    qed
  qed
qed

text \<open>A path stays the same when blocks are added.\<close>

lemma path_from_extend:
  assumes "path_from blocks seen h = Inr path" and "\<And>g b. jm_get blocks g = Some b \<Longrightarrow> jm_get wider g = Some b"
  shows "path_from wider seen h = Inr path"
  using assms
proof (induction blocks seen h arbitrary: path rule: path_from.induct)
  case (1 blocks seen h)
  obtain b where b: "jm_get blocks h = Some b" "block_hash b \<notin> set seen"
    using 1(2) by (subst (asm) path_from.simps) (auto split: option.splits if_splits)
  show ?case
  proof (cases "block_number b = 0")
    case True
    then show ?thesis using 1(2) b 1(3) [OF b(1)]
      by (subst path_from.simps) (subst (asm) path_from.simps, simp)
  next
    case False
    then obtain parent rest where p: "jm_get blocks (block_parentHash b) = Some parent"
      "block_number parent + 1 = block_number b"
      and rest: "path_from blocks (block_hash b # seen) (block_parentHash b) = Inr rest" "path = rest @ [b]"
      using 1(2) b by (subst (asm) path_from.simps) (auto simp: outcome_simps split: option.splits if_splits)
    have "path_from wider (block_hash b # seen) (block_parentHash b) = Inr rest"
      using 1(1) [OF b(1) _ _ p(1) _ rest(1) 1(3)] b(2) False p by auto
    then show ?thesis using 1(3) [OF b(1)] 1(3) [OF p(1)] b p False rest by (subst path_from.simps) simp
  qed
qed

subsection \<open>Runs of a projector\<close>

datatype 'e projector_op = Ingest "'e chain_block" | SelectHead string

fun projector_step ::
  "('e chain_block \<Rightarrow> string) \<Rightarrow> ('e, 's) projection_reducer \<Rightarrow> ('e, 's) projector \<Rightarrow> 'e projector_op
    \<Rightarrow> ('e, 's) projector" where
  "projector_step canon red p (Ingest b) = settle p (ingest canon p b)"
| "projector_step canon red p (SelectHead h) = keep p (selectHead red p h)"

text \<open>
  The stored blocks are keyed by their hashes and closed under parents, the canonical chain is linked
  and stored, and the state is the fold of its confirmed part.
\<close>

definition projector_inv :: "('e, 's) projection_reducer \<Rightarrow> ('e, 's) projector \<Rightarrow> bool" where
  "projector_inv red p = (keyed (pj_blocks p) \<and> linked (pj_canonical p)
     \<and> (\<forall>b\<in>set (pj_canonical p). jm_get (pj_blocks p) (block_hash b) = Some b)
     \<and> pj_state p = foldl (apply_block red) (initialState red) (confirmed_blocks (pj_depth p) (pj_canonical p)))"

lemma ingest_Inr:
  assumes "ingest canon p b = Inr q"
  shows "(q = p \<and> (\<exists>c. jm_get (pj_blocks p) (block_hash b) = Some c \<and> canon c = canon b))
    \<or> (jm_get (pj_blocks p) (block_hash b) = None \<and> 0 \<le> block_number b
        \<and> (0 < block_number b \<longrightarrow> jm_has (pj_blocks p) (block_parentHash b))
        \<and> q = p\<lparr>pj_blocks := jm_set (block_hash b) b (pj_blocks p)\<rparr>)"
  using assms by (auto simp: ingest_def outcome_simps split: option.splits if_splits)

lemma ingest_keeps: "ingest canon p b = Inr q \<Longrightarrow> jm_get (pj_blocks p) h = Some c \<Longrightarrow> jm_get (pj_blocks q) h = Some c"
  by (drule ingest_Inr) (auto simp: jm_simps)

lemma keyed_set:
  assumes "keyed blocks" and "0 \<le> block_number b" and "0 < block_number b \<longrightarrow> jm_has blocks (block_parentHash b)"
  shows "keyed (jm_set (block_hash b) b blocks)"
  using assms by (auto simp: keyed_def jm_has_def jm_simps)

lemma ingest_inv:
  assumes "projector_inv red p" and "ingest canon p b = Inr q"
  shows "projector_inv red q"
proof -
  have "keyed (pj_blocks q)" "pj_canonical q = pj_canonical p" "pj_state q = pj_state p" "pj_depth q = pj_depth p"
    using ingest_Inr [OF assms(2)] assms(1) by (auto simp: projector_inv_def keyed_set)
  then show ?thesis using assms(1) ingest_keeps [OF assms(2)] by (auto simp: projector_inv_def)
qed

lemma selectHead_Inr:
  assumes "selectHead red p h = Inr (sn, q)" and "keyed (pj_blocks p)"
  shows "sn = snapshot_now q \<and> pj_blocks q = pj_blocks p \<and> pj_depth q = pj_depth p \<and> projector_inv red q
    \<and> pj_canonical q \<noteq> [] \<and> block_hash (last (pj_canonical q)) = h
    \<and> path_from (pj_blocks p) [] h = Inr (pj_canonical q)"
proof -
  obtain path where path: "path_from (pj_blocks p) [] h = Inr path"
    and q: "q = rebuild red (p\<lparr>pj_canonical := path\<rparr>)" "sn = snapshot_now q"
    using assms(1) by (auto simp: selectHead_def pathToGenesis_def Let_def outcome_simps)
  with path_from_Inr [OF path assms(2)] assms(2) show ?thesis
    by (auto simp: projector_inv_def rebuild_def)
qed

interpretation projection: guarded_system "\<lparr>pj_blocks = [], pj_canonical = [], pj_state = initialState red, pj_depth = d\<rparr>"
    "projector_step canon red" "projector_inv red" for red d canon
proof unfold_locales
  show "projector_inv red \<lparr>pj_blocks = [], pj_canonical = [], pj_state = initialState red, pj_depth = d\<rparr>"
    by (simp add: projector_inv_def keyed_def linked_def confirmed_blocks_def)
  show "projector_inv red (projector_step canon red s x)" if inv: "projector_inv red s" for s x
  proof (cases x)
    case (Ingest b)
    then show ?thesis using settle_cases [of "projector_inv red" s "ingest canon s b"] inv ingest_inv [OF inv] by simp
  next
    case (SelectHead h)
    have "keyed (pj_blocks s)" using inv by (simp add: projector_inv_def)
    with SelectHead inv selectHead_Inr [of red s h] show ?thesis
      using keep_cases [of "projector_inv red" s "selectHead red s h"] by simp
  qed
qed

text \<open>A head is refused as unknown or as gapped, never as a cycle.\<close>

lemma selectHead_no_conflict:
  assumes "projector_inv red p"
  shows "selectHead red p h \<noteq> Inl ProjConflict"
proof (cases "jm_get (pj_blocks p) h")
  case None
  then show ?thesis by (simp add: selectHead_def pathToGenesis_def path_from.simps)
next
  case (Some b)
  have "path_from (pj_blocks p) [] h \<noteq> Inl ProjConflict"
    by (rule path_from_no_conflict [OF _ Some]) (use assms in \<open>auto simp: projector_inv_def\<close>)
  then show ?thesis by (cases "path_from (pj_blocks p) [] h") (auto simp: selectHead_def pathToGenesis_def Let_def)
qed

text \<open>Where numbers agree with the parent links, every stored block can be selected.\<close>

definition numbered :: "(string, 'e chain_block) jmap \<Rightarrow> bool" where
  "numbered blocks = (\<forall>g c parent. jm_get blocks g = Some c \<longrightarrow> 0 < block_number c \<longrightarrow>
     jm_get blocks (block_parentHash c) = Some parent \<longrightarrow> block_number parent + 1 = block_number c)"

lemma path_from_total:
  assumes "keyed blocks" and "jm_get blocks h = Some b" and "numbered blocks"
  shows "path_from blocks seen h = Inl ProjConflict \<or> (\<exists>path. path_from blocks seen h = Inr path)"
  using assms
proof (induction blocks seen h arbitrary: b rule: path_from.induct)
  case (1 blocks seen h)
  show ?case
  proof (cases "block_hash b \<in> set seen \<or> block_number b = 0")
    case True
    then show ?thesis using 1(3) by (subst (1 2) path_from.simps) auto
  next
    case False
    then have "0 < block_number b" using 1(2,3) by (auto simp: keyed_def less_le)
    then obtain parent where p: "jm_get blocks (block_parentHash b) = Some parent"
      "block_number parent + 1 = block_number b"
      using 1(2-4) by (fastforce simp: keyed_def jm_has_def numbered_def)
    have "path_from blocks (block_hash b # seen) (block_parentHash b) = Inl ProjConflict
        \<or> (\<exists>path. path_from blocks (block_hash b # seen) (block_parentHash b) = Inr path)"
      using 1(1) [OF 1(3) _ _ p(1) _ 1(2) p(1) 1(4)] False p by simp
    then show ?thesis using 1(3) False p by (subst (1 2) path_from.simps) auto
  qed
qed

lemma selectHead_total:
  assumes "projector_inv red p" and "jm_get (pj_blocks p) h = Some b"
    and "numbered (pj_blocks p)"
  shows "\<exists>sn q. selectHead red p h = Inr (sn, q)"
  using path_from_total [OF _ assms(2,3), of "[]"] selectHead_no_conflict [OF assms(1), of h] assms(1)
  by (auto simp: selectHead_def pathToGenesis_def projector_inv_def Let_def)

text \<open>The confirmed head of a snapshot is the last block whose events are in its state.\<close>

lemma confirmed_head:
  "confirmedHead (snapshot_now p) = (let c = confirmed_blocks (pj_depth p) (pj_canonical p) in
     if c = [] then None else Some (block_hash (last c), block_number (last c)))"
proof (cases "length (pj_canonical p) \<le> pj_depth p")
  case True
  then show ?thesis by (simp add: snapshot_now_def confirmed_blocks_def Let_def)
next
  case False
  let ?c = "confirmed_blocks (pj_depth p) (pj_canonical p)" and ?k = "length (pj_canonical p) - pj_depth p - 1"
  have len: "length ?c = Suc ?k" using False by (simp add: confirmed_blocks_def)
  then have "?c \<noteq> []" by auto
  moreover from this have "last ?c = pj_canonical p ! ?k"
    using len False by (simp add: last_conv_nth) (simp add: confirmed_blocks_def)
  moreover have "nat (int (length (pj_canonical p)) - 1 - int (pj_depth p)) = ?k" using False by simp
  ultimately show ?thesis using False by (simp add: snapshot_now_def Let_def)
qed

text \<open>Extending the chain only appends to what is confirmed.\<close>

lemma confirmed_prefix: "\<exists>added. confirmed_blocks depth (chain @ new) = confirmed_blocks depth chain @ added"
proof -
  have "length chain - depth \<le> length (chain @ new) - depth" by simp
  then have "take (length chain - depth) (confirmed_blocks depth (chain @ new)) = confirmed_blocks depth chain"
    by (auto simp: confirmed_blocks_def min_def)
  then show ?thesis by (metis append_take_drop_id)
qed

text \<open>In the evidence projection, the last event of a claim decides its entry.\<close>

lemma evidence_projection:
  "jm_get (foldl (red_apply evidenceProjectionReducer) claims es) c =
     (case filter (\<lambda>e. pe_claimId e = c) es of [] \<Rightarrow> jm_get claims c
      | _ \<Rightarrow> (let e = last (filter (\<lambda>e. pe_claimId e = c) es) in Some (projection_status_of (pe_kind e), pe_version e)))"
proof (induction es rule: rev_induct)
  case (snoc e es)
  then show ?case
    by (cases "pe_claimId e = c") (auto simp: evidenceProjectionReducer_def jm_simps Let_def split: list.splits)
qed simp

lemma foldl_apply_block:
  "foldl (apply_block red) s bs = foldl (red_apply red) s (concat (map block_events bs))"
  by (induction bs arbitrary: s) (auto simp: apply_block_def)

end
