(* ===== verification/Examples.thy ===== *)
theory Examples
  imports Assessment_Decision Evidence_Ledger Key_Lifecycle Projector
begin

text \<open>Concrete inputs on which the properties of the development are evaluated.\<close>

definition ex_uuid :: string where
  "ex_uuid = ''00000000-0000-4000-8000-000000000001''"

definition ex_urn :: "string \<Rightarrow> string" where
  "ex_urn kind = ''urn:evllm:'' @ kind @ '':'' @ ex_uuid"

definition ex_hash :: string where
  "ex_hash = replicate 42 CHR ''A'' @ ''A''"

definition ex_digests :: digests where
  "ex_digests = \<lparr>calculationDigest = \<lambda>_. ex_hash, reproductionDigest = \<lambda>_ _ _. ex_hash\<rparr>"

definition ex_evidence_field :: evidence_field where
  "ex_evidence_field = \<lparr>authorized = True, conflicting = False, critical = True, current = True,
     field = ''soh'', present = True, revoked = False, verified = True\<rparr>"

definition ex_route :: "formal_route \<Rightarrow> tri \<Rightarrow> int \<Rightarrow> int \<Rightarrow> string \<Rightarrow> route_input" where
  "ex_route route outcome rank rat investment = \<lparr>
     circularity = [\<lparr>criterion_id = ''a'', rating = Some rat, weight = ''0.25''\<rparr>,
                    \<lparr>criterion_id = ''b'', rating = None, weight = ''0.75''\<rparr>],
     economics = \<lparr>cashFlows = [\<lparr>flow_amount = ''110'', period = 2\<rparr>, \<lparr>flow_amount = ''50.5'', period = 1\<rparr>],
                  currency = ''EUR'', discountRate = ''0.1'', initialInvestment = investment\<rparr>,
     environmental = [\<lparr>category = ''gwp'', factor = ''2.5'', flow = ''f'', recovered = False,
                       quantity = ''3'', resultUnit = ''kg''\<rparr>],
     evidence = [ex_evidence_field],
     functionalUnit = ''4'',
     input_routeId = route,
     ruleEvaluation = \<lparr>eval_outcome = outcome, predicateResults = [], eval_reason_codes = [],
       eval_rule = \<lparr>ref_id = ''r'', ref_version = 1\<rparr>, eval_sources = []\<rparr>,
     uncertaintyScenarios = [\<lparr>gate = outcome, scenario_id = ''s'',
        routeRank = (if outcome = PASS then Some rank else None)\<rparr>],
     uncertaintyPercentiles = None\<rparr>"

definition ex_inputs :: "route_input list" where
  "ex_inputs = [ex_route ContinuedCompatibleEvUse PASS 1 5 ''-100'',
                ex_route StationaryStorageRepurposing PASS 2 3 ''-120'',
                ex_route Recycling FAIL 3 2 ''-130'']"

definition ex_quantity :: decimal_quantity where
  "ex_quantity = \<lparr>quantity_value = ''4'', unit_id = ex_urn ''unit'', unit_version = 1\<rparr>"

definition ex_context :: "formal_route \<Rightarrow> route_context" where
  "ex_context route = \<lparr>route_id = route, application = ''a'', location = ''l'', functional_unit = ex_quantity,
     duty_context = ''d'', service_life = \<lparr>range_lower = ''1'', range_upper = ''8''\<rparr>,
     transport_burden = ex_quantity, testing_burden = ex_quantity, energy_context = ''e'',
     displaced_alternative = ''x'', recovery_process = ''r'', inventories = [], factors = [],
     economic_assumptions = [], route_uncertainty = []\<rparr>"

definition ex_bundle_ref :: "bundle_type \<Rightarrow> string \<Rightarrow> protected_bundle_ref" where
  "ex_bundle_ref t resource = \<lparr>pb_bundle_id = ex_urn ''bundle'', pb_bundle_version = 1,
     pb_domain_resource_version = 1, pb_custody_controller_org_id = ex_urn ''org'',
     pb_content_schema_id = ex_urn ''schema'', pb_content_schema_version = ''1.0.0'',
     pb_initial_criticality_class = DecisionCritical, pb_criticality_profile_id = ex_urn ''profile'',
     pb_criticality_profile_version = 1, pb_bundle_type = t, pb_domain_resource_id = resource\<rparr>"

definition ex_basis :: assessment_basis where
  "ex_basis = \<lparr>assessment_input_id = ex_urn ''assessment'', assessment_input_version = 1,
     battery_id = ex_urn ''battery'', basis_jurisdiction = ''EU'', as_of = 5,
     basis_evidence_refs = [\<lparr>ref_id = ex_urn ''evidence'', ref_version = 1\<rparr>], basis_rules = [],
     basis_method = \<lparr>ref_id = ''m'', ref_version = 1\<rparr>,
     calculation_inputs_digest = sha256_digest ex_hash,
     candidate_routes = map ex_context FORMAL_ROUTES,
     basis_issuer_organization_id = ex_urn ''org'', basis_issuer_role_id = ex_urn ''role'',
     issued_at = 6, basis_bundle_ref = ex_bundle_ref BAssessment (ex_urn ''assessment'')\<rparr>"

lemma uuid_ok_ex: "uuid_ok ex_uuid"
  by code_simp

lemma urn_ok_ex [simp]: "urn_ok kind (ex_urn kind)"
  by (simp add: urn_ok_def ex_urn_def starts_with_def uuid_ok_ex)

lemma digest_ok_ex [simp]: "digest_ok (sha256_digest ex_hash)"
  by code_simp

lemma decimalQuantity_ok_ex [simp]: "decimalQuantity_ok ex_quantity"
proof -
  have "canonicalDecimal_ok ''4''" by code_simp
  then show ?thesis by (simp add: decimalQuantity_ok_def ex_quantity_def positiveSafeInteger_ok_def max_safe_integer_def)
qed

lemma routeContext_ok_ex [simp]: "routeContext_ok route (ex_context route)"
proof -
  have "decimalRange_ok \<lparr>range_lower = ''1'', range_upper = ''8''\<rparr>" by code_simp
  then show ?thesis
    by (simp add: routeContext_ok_def ex_context_def shortText_ok_def text_ok_def array_ok_def)
qed

lemma bindReference_ok_ex [simp]:
  "bindReference_ok t (ex_urn (domainKindByBundleType t)) (ex_bundle_ref t (ex_urn (domainKindByBundleType t)))"
proof -
  have "semver_ok ''1.0.0''" by code_simp
  then show ?thesis
    by (simp add: bindReference_ok_def protectedBundleRef_ok_def ex_bundle_ref_def positiveSafeInteger_ok_def
        max_safe_integer_def)
qed

lemma assessmentInputPayload_ok_ex [simp]: "assessmentInputPayload_ok ex_basis"
  using bindReference_ok_ex [of BAssessment]
  by (simp add: assessmentInputPayload_ok_def ex_basis_def FORMAL_ROUTES_def positiveSafeInteger_ok_def
      timestamp_ok_def shortText_ok_def array_ok_def reference_ok_def max_safe_integer_def ex_urn_def [of "''evidence''"])

lemma ex_assess_preferred:
  "case assess ex_digests str_le ex_basis ex_inputs of Inl e \<Rightarrow> False
   | Inr a \<Rightarrow> preferredRoute a = Some ContinuedCompatibleEvUse"
proof -
  have "case assess_valid ex_digests str_le ex_basis ex_inputs of Inl e \<Rightarrow> False
   | Inr a \<Rightarrow> preferredRoute a = Some ContinuedCompatibleEvUse" by code_simp
  then show ?thesis by (simp add: assess_def parse_with_def)
qed

lemma ex_assess_dominance:
  "case assess ex_digests str_le ex_basis ex_inputs of Inl e \<Rightarrow> False
   | Inr a \<Rightarrow> dominance a = [(ContinuedCompatibleEvUse, StationaryStorageRepurposing)]"
proof -
  have "case assess_valid ex_digests str_le ex_basis ex_inputs of Inl e \<Rightarrow> False
   | Inr a \<Rightarrow> dominance a = [(ContinuedCompatibleEvUse, StationaryStorageRepurposing)]" by code_simp
  then show ?thesis by (simp add: assess_def parse_with_def)
qed

subsection \<open>A rule and its source\<close>

definition ex_source :: registered_source where
  "ex_source = \<lparr>authority = ''a'', source_jurisdiction = ''EU'', officialUrl = ''https://x'',
     src_record = \<lparr>source_id = ex_urn ''source'', source_version = 1, predecessor_source_version = None,
       successor_source_version = None, public_metadata_ref = None, licensed_payload_ref = None,
       source_signature_record_id = None, authority_class = Legal, access_state = PublicAccess,
       licence_state = Permitted, source_review_due_at = 100, source_lifecycle = Active,
       transition_actor_id = ex_urn ''actor'', transition_reason = ''r'', effective_at = 1, reviewed_at = 1,
       permitted_rule_ids = [ex_urn ''rule''], dependent_rule_ids = []\<rparr>,
     source_title = ''t''\<rparr>"

definition ex_rule :: executable_rule where
  "ex_rule = \<lparr>rule_record = \<lparr>rule_id = ex_urn ''rule'', rule_version = 1,
       source_clauses = [\<lparr>ref_id = ex_urn ''source'', ref_version = 1\<rparr>], jurisdiction = ''EU'', effective_from = 1,
       effective_until = None, subject_scope = [''b''], rule_predicates = [''p''], required_evidence = [],
       outcomes = [''o''], rule_reason_codes = [''c''], rule_status = RuleActive, rule_review_due_at = 100\<rparr>,
     predicates = [\<lparr>pred_field = ''soh'', pred_id = ''p'', pred_operator = OpGte, threshold = Some (TextFact ''0.5''),
       pred_critical = True\<rparr>]\<rparr>"

definition ex_query :: rule_query where
  "ex_query = \<lparr>asOf = 5, query_jurisdiction = ''EU'', query_rule_id = ex_urn ''rule'', query_scope = ''b''\<rparr>"

subsection \<open>Keys, grants and blocks\<close>

definition ex_key :: "string \<Rightarrow> encryption_key" where
  "ex_key i = \<lparr>key_id = i, key_organizationId = ''o'', key_state = KActive\<rparr>"

definition ex_authorization :: controller_authorization where
  "ex_authorization = \<lparr>authorizationId = ''a'', auth_envelopeId = ''e'', auth_keyId = ''k'', auth_state = AStaged\<rparr>"

definition ex_grant :: access_grant where
  "ex_grant = \<lparr>effectiveAt = 1, grant_envelopeId = ''e'', expiresAt = 10, grantId = ''g'', recipientKeyId = ''k'',
     grant_state = GPrepared\<rparr>"

definition ex_key_ops :: "key_op list" where
  "ex_key_ops = [AddKey (ex_key ''k''), StageAuthorization ex_authorization, ActivateAuthorization ''a'',
     PrepareGrant ex_grant]"

definition ex_block :: "string \<Rightarrow> int \<Rightarrow> string \<Rightarrow> projection_kind \<Rightarrow> projection_event chain_block" where
  "ex_block h n parent k = \<lparr>block_events = [\<lparr>pe_claimId = ''c'', pe_kind = k, pe_version = n + 1\<rparr>], block_hash = h,
     block_number = n, block_parentHash = parent\<rparr>"

definition ex_projector :: "(projection_event, projection_state) projector" where
  "ex_projector = run (projector_step block_hash evidenceProjectionReducer)
     \<lparr>pj_blocks = [], pj_canonical = [], pj_state = initialState evidenceProjectionReducer, pj_depth = 1\<rparr>
     [Ingest (ex_block ''0'' 0 [] PActivated), Ingest (ex_block ''1'' 1 ''0'' PRevoked),
      Ingest (ex_block ''2'' 2 ''1'' PActivated)]"

lemma ex_projector_inv: "projector_inv evidenceProjectionReducer ex_projector"
  unfolding ex_projector_def by (rule projection.inv_run)

end
