(* ===== verification/Decision_Properties.thy ===== *)
theory Decision_Properties
  imports Examples
begin

text \<open>
  Properties of the decision support: exact decimals, dated rules and the assessment of routes. Each
  is stated over the definitions of \<open>Decimal\<close>, \<open>Rules\<close> and \<open>Assessment\<close>, with a witness on the inputs of
  \<open>Examples\<close>.
\<close>

section \<open>Route assessment\<close>

text \<open>
  C1: when \<open>assess\<close> names a preferred route, that route is one of the assessed ones, its rule
  evaluation is PASS, every critical evidence field is present, authorised, current, unrevoked and
  free of conflict, it is ranked first in every uncertainty scenario and passes the gate in each, and
  every other route either fails its technical gate or is Pareto-dominated by it on circularity,
  evidence coverage, net present value and every shared environmental category.
\<close>

theorem preferred_route_is_supported:
  assumes "assess dg localeLe basis inputs = Inr a" and "preferredRoute a = Some w"
  shows "\<exists>i r. (i, r) \<in> set (zip inputs (routes a)) \<and> input_routeId i = w \<and> routeId r = w
    \<and> eval_outcome (ruleEvaluation i) = PASS \<and> (\<forall>f\<in>set (evidence i). critical f \<longrightarrow> field_usable f)
    \<and> uncertaintyScenarios i \<noteq> []
    \<and> (\<forall>s\<in>set (uncertaintyScenarios i). gate s = PASS \<and> routeRank s = Some 1)
    \<and> (\<forall>s\<in>set (routes a). s \<noteq> r \<longrightarrow> res_G s = FAIL \<or> (res_G s = PASS \<and> dominates (shared_categories a) r s))"
  by (rule preferred_route_supported [OF assms])

theorem preferred_route_is_supported_witness:
  "\<exists>a i r. assess ex_digests str_le ex_basis ex_inputs = Inr a
    \<and> preferredRoute a = Some ContinuedCompatibleEvUse \<and> (i, r) \<in> set (zip ex_inputs (routes a))
    \<and> input_routeId i = ContinuedCompatibleEvUse
    \<and> (\<forall>s\<in>set (routes a). s \<noteq> r \<longrightarrow> res_G s = FAIL \<or> dominates (shared_categories a) r s)"
proof -
  obtain a where a: "assess ex_digests str_le ex_basis ex_inputs = Inr a"
    "preferredRoute a = Some ContinuedCompatibleEvUse"
    using ex_assess_preferred by (auto split: sum.splits)
  from preferred_route_is_supported [OF a] a show ?thesis by blast
qed

text \<open>
  C8: a result names a preferred route exactly when its state is \<open>answer\<close>. A critical conflict in
  any route's evidence forces \<open>requires_external_decision\<close>; otherwise a route whose gate is UNKNOWN
  forces \<open>abstain\<close>.
\<close>

theorem decision_state_cases:
  assumes "assess dg localeLe basis inputs = Inr a"
  shows "(decisionState a = Answer \<longleftrightarrow> preferredRoute a \<noteq> None)
    \<and> (decisionState a = RequiresExternalDecision
         \<longleftrightarrow> (\<exists>i\<in>set inputs. \<exists>f\<in>set (evidence i). conflicting f \<and> critical f))
    \<and> ((\<exists>r\<in>set (routes a). res_G r = UNKNOWN) \<longrightarrow> decisionState a \<noteq> Answer)"
proof -
  obtain h x where d: "decide inputs (routes a) (dominance a) h x = (decisionState a, preferredRoute a, warnings a)"
    using assess_Inr [OF assms] by (auto simp: Let_def)
  from decide_preferred [OF d] decide_external [OF d] show ?thesis by blast
qed

theorem decision_state_cases_witness:
  "\<exists>a. assess ex_digests str_le ex_basis ex_inputs = Inr a \<and> decisionState a = Answer
     \<and> \<not> (\<exists>i\<in>set ex_inputs. \<exists>f\<in>set (evidence i). conflicting f \<and> critical f)"
proof -
  obtain a where a: "assess ex_digests str_le ex_basis ex_inputs = Inr a"
    "preferredRoute a = Some ContinuedCompatibleEvUse"
    using ex_assess_preferred by (auto split: sum.splits)
  have "decisionState a = Answer" using decision_state_cases [OF a(1)] a(2) by simp
  moreover from this have "decisionState a \<noteq> RequiresExternalDecision" by simp
  with decision_state_cases [OF a(1)]
  have "\<not> (\<exists>i\<in>set ex_inputs. \<exists>f\<in>set (evidence i). conflicting f \<and> critical f)" by blast
  ultimately show ?thesis using a(1) by blast
qed



text \<open>
  C10: on criteria with distinct names, nonnegative weights that sum to one and ratings from 1 to
  5 (or missing), \<open>circularityScore\<close> returns, its bounds satisfy \<open>0 \<le> lower \<le> upper \<le> 100\<close>, each is the
  normalised weighted rating rounded half-even to six places (missing ratings counted as 1 and as 5),
  and the point value is given exactly when no rating is missing.
\<close>

theorem circularity_score_bounded:
  assumes "cs \<noteq> []" and "distinct (map criterion_id cs)" and "list_all criterion_ok cs"
    and "(\<Sum>c\<leftarrow>cs. text_val (weight c)) = 1"
  shows "\<exists>r lo up. circularityScore cs = Inr r
    \<and> decimal_parse (C_lower r) = Inr lo \<and> decimal_parse (C_upper r) = Inr up
    \<and> rounded_to 6 ((weighted_sum 1 cs - 1) * 25) (dec_val lo)
    \<and> rounded_to 6 ((weighted_sum 5 cs - 1) * 25) (dec_val up)
    \<and> 0 \<le> dec_val lo \<and> dec_val lo \<le> dec_val up \<and> dec_val up \<le> 100
    \<and> (C_value r \<noteq> None \<longleftrightarrow> (\<forall>c\<in>set cs. rating c \<noteq> None))"
proof -
  have ok: "\<forall>c\<in>set cs. criterion_ok c" using assms(3) by (simp add: list_all_iff)
  obtain r where r: "circularityScore cs = Inr r" using circularityScore_total [OF assms(1,2) ok assms(4)] ..
  with circularity_value_bounds [OF r ok] circularityScore_Inr [OF r] show ?thesis by auto
qed

theorem circularity_score_bounded_witness:
  "\<exists>r lo. circularityScore (circularity (ex_route Recycling PASS 1 5 ''1'')) = Inr r
     \<and> decimal_parse (C_lower r) = Inr lo \<and> 0 \<le> dec_val lo \<and> dec_val lo \<le> 100"
proof -
  let ?cs = "circularity (ex_route Recycling PASS 1 5 ''1'')"
  have p: "decimal_parse ''0.25'' = Inr \<lparr>coefficient = 25, scale = 2\<rparr>"
    "decimal_parse ''0.75'' = Inr \<lparr>coefficient = 75, scale = 2\<rparr>" by code_simp+
  have "canonicalDecimal_ok ''0.25''" "canonicalDecimal_ok ''0.75''" by code_simp+
  then have "list_all criterion_ok ?cs" "(\<Sum>c\<leftarrow>?cs. text_val (weight c)) = 1"
    by (simp_all add: ex_route_def criterion_ok_def text_val_def p dec_val_def)
  from circularity_score_bounded [OF _ _ this] show ?thesis by (force simp: ex_route_def)
qed

text \<open>
  C11: whenever \<open>environmentalIndicators\<close> returns, the functional unit is positive, there is one
  indicator for each category of the terms, all terms of a category carry its unit, and the value is
  the signed sum of quantity times factor (recovered flows negative) per functional unit, rounded
  half-even to six places.
\<close>

theorem environmental_indicators_exact:
  assumes "environmentalIndicators localeLe ts fu = Inr inds"
  shows "0 < text_val fu \<and> distinct (map ind_category inds) \<and> set (map ind_category inds) = set (map category ts)
    \<and> (\<forall>i\<in>set inds. (\<forall>t\<in>set ts. category t = ind_category i \<longrightarrow> resultUnit t = ind_unit i)
        \<and> (\<exists>d. ind_value i = decimal_toCanonical d
              \<and> rounded_to 6 (net_impact (ind_category i) ts / text_val fu) (dec_val d)))"
  using environmentalIndicators_Inr [OF assms] by blast

theorem environmental_indicators_exact_witness:
  "\<exists>inds. environmentalIndicators str_le (environmental (ex_route Recycling PASS 1 5 ''1'')) ''4'' = Inr inds
     \<and> map ind_value inds = [''1.875''] \<and> set (map ind_category inds) = {''gwp''}"
proof -
  have "case environmentalIndicators str_le (environmental (ex_route Recycling PASS 1 5 ''1'')) ''4'' of
      Inl e \<Rightarrow> False | Inr inds \<Rightarrow> map ind_value inds = [''1.875'']" by code_simp
  then obtain inds where i: "environmentalIndicators str_le (environmental (ex_route Recycling PASS 1 5 ''1'')) ''4'' = Inr inds"
    "map ind_value inds = [''1.875'']" by (auto split: sum.splits)
  with environmental_indicators_exact [OF i(1)] show ?thesis by (simp add: ex_route_def)
qed

text \<open>
  C12: whenever \<open>economicResult\<close> returns, the discount rate is above -1, the periods are positive and
  distinct, the net present value is within half a cent, plus half a unit of the eighteenth decimal
  place per cash flow, of the exact discounted sum, and the payback period is the first period in
  which the running balance is not negative.
\<close>

theorem economics_exact:
  assumes "economicResult sc = Inr r"
  shows "- 1 < text_val (discountRate sc) \<and> distinct (map period (cashFlows sc))
    \<and> (\<forall>f\<in>set (cashFlows sc). 1 \<le> period f)
    \<and> paybackPeriod r = first_payback (text_val (initialInvestment sc))
        (js_sort (\<lambda>l r. period l - period r \<le> 0) (cashFlows sc))
    \<and> (\<exists>d. netPresentValue r = decimal_toCanonical d \<and> scale d \<le> 2
        \<and> \<bar>dec_val d - (text_val (initialInvestment sc) + present_value (text_val (discountRate sc)) (cashFlows sc))\<bar>
            \<le> 1 / 200 + of_nat (length (cashFlows sc)) / (2 * 10 ^ 18))"
  using economicResult_Inr [OF assms] by (auto simp: distinct_map_js_sort)

theorem economics_exact_witness:
  "\<exists>r. economicResult (economics (ex_route Recycling PASS 1 5 ''-100'')) = Inr r \<and> netPresentValue r = ''36.82''
     \<and> paybackPeriod r = Some 2
     \<and> first_payback (text_val ''-100'') (js_sort (\<lambda>l r. period l - period r \<le> 0)
         (cashFlows (economics (ex_route Recycling PASS 1 5 ''-100'')))) = Some 2"
proof -
  let ?e = "economics (ex_route Recycling PASS 1 5 ''-100'')"
  have "case economicResult ?e of Inl e \<Rightarrow> False | Inr r \<Rightarrow> netPresentValue r = ''36.82'' \<and> paybackPeriod r = Some 2"
    by code_simp
  then obtain r where r: "economicResult ?e = Inr r" "netPresentValue r = ''36.82''" "paybackPeriod r = Some 2"
    by (auto split: sum.splits)
  have "initialInvestment ?e = ''-100''" by (simp add: ex_route_def)
  with economics_exact [OF r(1)] r show ?thesis by auto
qed

text \<open>
  On a nonempty list of distinct fields, \<open>evidenceAdequacy\<close> returns. Coverage, verified and
  fresh fractions are the proportions of usable, usable and verified, and current fields, rounded to
  six places, in this order increasing; and the weakest critical verification is missing exactly when
  some critical field is unusable.
\<close>

theorem evidence_adequacy_exact:
  assumes "items \<noteq> []" and "distinct (map field items)" and "int (length items) \<le> max_safe_integer"
  shows "\<exists>a c v f. evidenceAdequacy items = Inr a
    \<and> decimal_parse (coverage a) = Inr c \<and> decimal_parse (verifiedFraction a) = Inr v
    \<and> decimal_parse (freshnessFraction a) = Inr f
    \<and> rounded_to 6 (of_nat (length (filter field_usable items)) / of_nat (length items)) (dec_val c)
    \<and> rounded_to 6 (of_nat (length (filter (\<lambda>i. field_usable i \<and> verified i) items)) / of_nat (length items)) (dec_val v)
    \<and> rounded_to 6 (of_nat (length (filter current items)) / of_nat (length items)) (dec_val f)
    \<and> dec_val v \<le> dec_val c \<and> dec_val c \<le> dec_val f
    \<and> (weakestCriticalVerification a = VMissing \<longleftrightarrow> (\<exists>i\<in>set items. critical i \<and> \<not> field_usable i))"
proof -
  obtain a c v f where a: "evidenceAdequacy items = Inr a" and rest: "decimal_parse (coverage a) = Inr c"
    "decimal_parse (verifiedFraction a) = Inr v" "decimal_parse (freshnessFraction a) = Inr f"
    "rounded_to 6 (of_nat (length (filter field_usable items)) / of_nat (length items)) (dec_val c)"
    "rounded_to 6 (of_nat (length (filter (\<lambda>i. field_usable i \<and> verified i) items)) / of_nat (length items)) (dec_val v)"
    "rounded_to 6 (of_nat (length (filter current items)) / of_nat (length items)) (dec_val f)"
    "dec_val v \<le> dec_val c" "dec_val c \<le> dec_val f"
    using evidenceAdequacy_total [OF assms] by blast
  from evidenceAdequacy_Inr [OF a] a rest show ?thesis by blast
qed

theorem evidence_adequacy_exact_witness:
  "\<exists>a. evidenceAdequacy [ex_evidence_field] = Inr a \<and> weakestCriticalVerification a \<noteq> VMissing"
proof -
  have "int (length [ex_evidence_field]) \<le> max_safe_integer" by (simp add: max_safe_integer_def)
  from evidence_adequacy_exact [OF _ _ this] show ?thesis by (force simp: ex_evidence_field_def field_usable_def)
qed

section \<open>Rules\<close>

text \<open>
  C13: after any sequence of registrations and source transitions, failed calls included, every
  source and rule is stored under its own identifier and version and is valid, and every active rule
  cites only registered sources that are active.
\<close>

theorem registry_invariant: "registry_inv (run registry_step empty_registry ops)"
  by (rule registry.inv_run)

text \<open>
  C14: a selected rule is active, in force at the date of the query and within its scope, all its
  sources are active and not due for review before that date, and no other applicable rule has a later
  version.
\<close>

theorem selected_rule_is_current:
  assumes "selectRule registry q = Inr c"
  shows "c \<in> set (jm_values (rr_rules registry)) \<and> rule_id (rule_record c) = query_rule_id q
    \<and> rule_status (rule_record c) = RuleActive \<and> jurisdiction (rule_record c) = query_jurisdiction q
    \<and> query_scope q \<in> set (subject_scope (rule_record c)) \<and> effective_from (rule_record c) \<le> asOf q
    \<and> (\<forall>u. effective_until (rule_record c) = Some u \<longrightarrow> asOf q < u)
    \<and> (\<forall>r\<in>set (source_clauses (rule_record c)). \<exists>s. lookup_source registry (ref_id r) (ref_version r) = Inr s
         \<and> source_lifecycle (src_record s) = Active \<and> asOf q \<le> source_review_due_at (src_record s))
    \<and> (\<forall>d\<in>set (jm_values (rr_rules registry)). rule_applies q d
         \<longrightarrow> rule_version (rule_record d) \<le> rule_version (rule_record c))"
proof -
  note s = selectRule_Inr [OF assms]
  have "\<exists>s. lookup_source registry (ref_id r) (ref_version r) = Inr s
      \<and> source_lifecycle (src_record s) = Active \<and> asOf q \<le> source_review_due_at (src_record s)"
    if "r \<in> set (source_clauses (rule_record c))" for r
    using s that by (force simp: source_usable_def outcome_simps)
  moreover have "rule_applies q c" using s by blast
  ultimately show ?thesis using s by (auto simp: rule_applies_def Let_def)
qed

theorem selected_rule_is_current_witness:
  "\<exists>c. selectRule (run registry_step empty_registry [RegisterSource ex_source, RegisterRule ex_rule 5]) ex_query = Inr c
     \<and> rule_status (rule_record c) = RuleActive \<and> rule_version (rule_record c) = 1"
proof -
  have "case selectRule (run registry_step empty_registry [RegisterSource ex_source, RegisterRule ex_rule 5]) ex_query of
     Inl e \<Rightarrow> False | Inr c \<Rightarrow> rule_version (rule_record c) = 1" by code_simp
  then obtain c where "selectRule (run registry_step empty_registry [RegisterSource ex_source, RegisterRule ex_rule 5])
      ex_query = Inr c" "rule_version (rule_record c) = 1" by (auto split: sum.splits)
  with selected_rule_is_current [OF this(1)] show ?thesis by blast
qed

text \<open>
  A rule evaluates to PASS exactly when every critical predicate does, and a predicate that
  passes holds of its fact: presence, equality with the threshold, or the order of the two decimals.
\<close>

theorem rule_passes_iff:
  assumes "evaluate_rule profile facts = Inr e"
  shows "(eval_outcome e = PASS \<longleftrightarrow> (\<forall>p\<in>set (predicates profile). pred_critical p \<longrightarrow>
      evaluatePredicate p (facts (pred_field p)) = Inr PASS))
    \<and> (\<forall>p\<in>set (predicates profile). evaluatePredicate p (facts (pred_field p)) = Inr PASS \<longrightarrow>
        (\<exists>v. facts (pred_field p) = Some v \<and> predicate_holds p v))"
proof -
  note r = evaluate_rule_results [OF assms]
  have "eval_outcome e = PASS \<longleftrightarrow> (\<forall>p\<in>set (predicates profile). pred_critical p \<longrightarrow>
      evaluatePredicate p (facts (pred_field p)) = Inr PASS)"
    unfolding r(2)
  proof (rule iffI; clarify)
    fix p assume all: "\<forall>(p, i, s)\<in>set (zip (predicates profile) (predicateResults e)). pred_critical p \<longrightarrow> s = PASS"
      and p: "p \<in> set (predicates profile)" "pred_critical p"
    then obtain k where k: "k < length (predicates profile)" "p = predicates profile ! k" by (metis in_set_conv_nth)
    obtain i s where rk: "predicateResults e ! k = (i, s)" by fastforce
    have ev: "evaluatePredicate p (facts (pred_field p)) = Inr s" and len: "k < length (predicateResults e)"
      using list_all2_nthD [OF r(1) k(1)] list_all2_lengthD [OF r(1)] k rk by auto
    have "(p, i, s) \<in> set (zip (predicates profile) (predicateResults e))"
      using k len rk by (auto simp: in_set_zip)
    with all p ev show "evaluatePredicate p (facts (pred_field p)) = Inr PASS" by auto
  next
    fix p i s assume all: "\<forall>p\<in>set (predicates profile). pred_critical p \<longrightarrow> evaluatePredicate p (facts (pred_field p)) = Inr PASS"
      and z: "(p, i, s) \<in> set (zip (predicates profile) (predicateResults e))" and c: "pred_critical p"
    from z r(1) have "evaluatePredicate p (facts (pred_field p)) = Inr s" by (auto simp: list_all2_iff)
    moreover have "p \<in> set (predicates profile)" using z by (rule set_zip_leftD)
    ultimately show "s = PASS" using all c by auto
  qed
  then show ?thesis using evaluatePredicate_PASS by blast
qed

theorem rule_passes_iff_witness:
  "\<exists>e. evaluate_rule ex_rule (\<lambda>f. if f = ''soh'' then Some (TextFact ''0.8'') else None) = Inr e \<and> eval_outcome e = PASS
     \<and> evaluatePredicate (hd (predicates ex_rule)) (Some (TextFact ''0.8'')) = Inr PASS"
proof -
  let ?f = "\<lambda>f. if f = ''soh'' then Some (TextFact ''0.8'') else None"
  have "case evaluate_rule ex_rule ?f of Inl e \<Rightarrow> False | Inr e \<Rightarrow> eval_outcome e = PASS" by code_simp
  then obtain e where e: "evaluate_rule ex_rule ?f = Inr e" "eval_outcome e = PASS" by (auto split: sum.splits)
  with rule_passes_iff [OF e(1)] show ?thesis by (simp add: ex_rule_def)
qed

section \<open>Decimals\<close>

text \<open>
  C15: \<open>ExactDecimal.parse\<close> accepts exactly the canonical texts of normalised decimals with at most 38
  digits and 18 places, and returns that decimal: parsing and printing are inverse to each other.
\<close>

theorem decimal_text_roundtrip: "decimal_parse s = Inr d \<longleftrightarrow> dec_small d \<and> s = decimal_toCanonical d"
  using decimal_parse_small decimal_parse_toCanonical toCanonical_parse by blast

text \<open>
  C16: division returns a decimal if and only if the divisor is not zero, the scale is from 0 to 18 and the
  decimal is the quotient rounded half-even to that many places, in canonical form with at most 80 digits. It reports a zero
  divisor exactly when the divisor is zero, an invalid scale exactly when the divisor is not zero and the scale is outside 0 to
  18, and an overflow exactly when neither is the case and no decimal of at most 80 digits is the rounded quotient.
\<close>

theorem division_rounds_half_even:
  "(decimal_divide a b k = Inr d \<longleftrightarrow> dec_val b \<noteq> 0 \<and> 0 \<le> k \<and> k \<le> 18 \<and> dec_ok d
      \<and> rounded_to (nat k) (dec_val a / dec_val b) (dec_val d))
   \<and> (decimal_divide a b k = Inl DivideByZero \<longleftrightarrow> dec_val b = 0)
   \<and> (decimal_divide a b k = Inl InvalidDecimal \<longleftrightarrow> dec_val b \<noteq> 0 \<and> \<not> (0 \<le> k \<and> k \<le> 18))
   \<and> (decimal_divide a b k = Inl DecimalOverflow \<longleftrightarrow> dec_val b \<noteq> 0 \<and> 0 \<le> k \<and> k \<le> 18
      \<and> \<not> (\<exists>x. dec_ok x \<and> rounded_to (nat k) (dec_val a / dec_val b) (dec_val x)))"
proof -
  have "decimal_divide a b k = Inl DecimalOverflow \<longleftrightarrow> dec_val b \<noteq> 0 \<and> 0 \<le> k \<and> k \<le> 18
      \<and> \<not> (\<exists>x. decimal_divide a b k = Inr x)"
  proof (cases "decimal_divide a b k")
    case (Inl e)
    then show ?thesis using decimal_divide_errors [OF Inl] by (cases e) auto
  qed simp
  moreover have "decimal_divide a b k = Inl DivideByZero \<longleftrightarrow> dec_val b = 0"
    "decimal_divide a b k = Inl InvalidDecimal \<longleftrightarrow> dec_val b \<noteq> 0 \<and> \<not> (0 \<le> k \<and> k \<le> 18)"
    using decimal_divide_errors [of a b k] by (auto simp: decimal_divide_def dec_val_eq_0_iff Let_def)
  ultimately show ?thesis unfolding decimal_divide_iff by blast
qed

text \<open>
  C17: the schema's comparison of canonical texts agrees with \<open>ExactDecimal.compare\<close> and with the order of
  the rational values.
\<close>

theorem text_comparison_agrees:
  assumes "decimal_parse s = Inr a" and "decimal_parse t = Inr b"
  shows "decimal_compare a b = Inr (compareCanonicalDecimals s t)
    \<and> of_int (compareCanonicalDecimals s t) = sgn (dec_val a - dec_val b)"
  using decimal_compare_parsed [OF assms] compareCanonicalDecimals_sgn [OF assms] by blast

theorem text_comparison_agrees_witness:
  "decimal_parse ''-1.5'' = Inr \<lparr>coefficient = -15, scale = 1\<rparr> \<and> decimal_parse ''0.25'' = Inr \<lparr>coefficient = 25, scale = 2\<rparr>
    \<and> decimal_compare \<lparr>coefficient = -15, scale = 1\<rparr> \<lparr>coefficient = 25, scale = 2\<rparr> = Inr (compareCanonicalDecimals ''-1.5'' ''0.25'')"
proof -
  have p: "decimal_parse ''-1.5'' = Inr \<lparr>coefficient = -15, scale = 1\<rparr>" "decimal_parse ''0.25'' = Inr \<lparr>coefficient = 25, scale = 2\<rparr>"
    by code_simp+
  with text_comparison_agrees [OF p] show ?thesis by simp
qed

end
