(* ===== verification/Evidence_Properties.thy ===== *)
theory Evidence_Properties
  imports Examples
begin

text \<open>
  Properties of the evidence ledger, of the key lifecycle registry and of the projection of the
  canonical chain, over every sequence and, where the code awaits, every interleaving of calls.
\<close>

section \<open>The evidence ledger\<close>

text \<open>
  C18: after any sequence of calls, failed ones included, the versions of a claim are numbered from 1
  without gaps and are valid, all but the last are superseded and the last is not; every assertion
  verifies a recorded version issued by another organisation; every open dispute is about an active
  version.
\<close>

theorem ledger_invariant: "ledger_inv (run ledger_step empty_ledger ops)"
  by (rule ledger.inv_run)

text \<open>
  C19: the history of a claim is append-only: later calls never drop a version nor change its payload
  or activation time, and a version that is superseded or revoked never changes again.
\<close>

theorem ledger_append_only:
  "ledger_grows (run ledger_step empty_ledger ops) (run ledger_step empty_ledger (ops @ later))"
  unfolding run_append by (rule ledger_run_grows [OF ledger.inv_run])

text \<open>
  What \<open>activate\<close> does in any reachable ledger: the payload is checked first, then the expected
  prior version against the number of versions, then the new version number, then the state of the
  prior version; each failure is reported as such. A success supersedes the prior version and appends
  the new one.
\<close>

theorem activation_outcome:
  "let l = run ledger_step empty_ledger ops; vs = history l (claim_id p) in
   case activate l p prior now of
     Inl e \<Rightarrow> if \<not> evidenceClaimPayload_ok p then e = LSchemaRejected
             else if int (length vs) \<noteq> prior then e = InvalidPrior
             else if claim_version p \<noteq> prior + 1 then e = LConflict
             else e = InvalidState \<and> vs \<noteq> [] \<and> ev_status (last vs) \<noteq> EvActive
   | Inr (r, l') \<Rightarrow> evidenceClaimPayload_ok p \<and> int (length vs) = prior \<and> claim_version p = prior + 1
       \<and> (vs = [] \<or> ev_status (last vs) = EvActive)
       \<and> r = \<lparr>activatedAt = now, ev_payload = p, ev_status = EvActive\<rparr>
       \<and> history l' (claim_id p) =
           (if vs = [] then [] else butlast vs @ [(last vs)\<lparr>ev_status := EvSuperseded\<rparr>]) @ [r]"
  using activate_outcome [OF ledger.inv_run, of ops p prior now] by (simp add: Let_def)

section \<open>Keys and grants\<close>

text \<open>
  C20: under every interleaving of calls, suspended ones included, keys, authorizations and grants are
  stored under their identifiers, and every authorization and grant, also one a suspended call still
  holds, names a registered key and a nonempty period of validity.
\<close>

theorem keys_invariant: "async_inv (run async_step async_start ops)"
  by (rule keys.inv_run)

text \<open>
  Under every interleaving, a key never disappears, never changes its organisation, and its
  state only advances: from pending, from active to a final state, and never out of a final state.
\<close>

theorem key_states_advance:
  "key_grows (reg (run async_step async_start ops)) (reg (run async_step async_start (ops @ later)))"
  unfolding run_append by (rule async_run_grows [OF keys.inv_run])

text \<open>
  Retrieval is authorized exactly when the grant is stored as active, the time is in its
  period of validity, and the recipient's key is active or retired.
\<close>

theorem retrieval_authorized_iff:
  "authorizeRetrieval r i now = Inr () \<longleftrightarrow>
     (\<exists>g k. grant_of r i = Some g \<and> grant_state g = GActive \<and> effectiveAt g \<le> now \<and> now < expiresAt g
        \<and> jm_get (kr_keys r) (recipientKeyId g) = Some k \<and> (key_state k = KActive \<or> key_state k = KRetired))"
  (is "?l \<longleftrightarrow> ?r")
proof
  assume ?l then show ?r by (rule authorizeRetrieval_Inr)
next
  assume ?r then show ?l by (auto intro: authorizeRetrieval_ok)
qed



text \<open>
  C22: when calls overlap, a revocation is final if no call on the grant awaits its envelope check: whatever
  calls begin, resume or run afterwards, the grant does not change. If an activation of the grant was suspended before
  the revocation, it is active again once the check succeeds, and retrieval is authorized at every time of its period while
  its key is usable.
\<close>

theorem revocation_final_unless_overlapped:
  assumes "s = run async_step async_start ops" and "grant_of (reg s) i = Some g" and "grant_state g = GRevoked"
  shows "((\<forall>p\<in>set (suspended s). suspended_grant (reg s) p \<noteq> Some i)
        \<longrightarrow> grant_of (reg (run async_step s later)) i = Some g)
     \<and> (n < length (suspended s) \<and> suspended s ! n = PendingActivation a \<and> jm_get (kr_grants (reg s)) i = Some a
        \<longrightarrow> grant_of (reg (async_step s (Resume n True))) i = Some (g\<lparr>grant_state := GActive\<rparr>)
          \<and> (effectiveAt g \<le> now \<and> now < expiresAt g \<and> jm_get (kr_keys (reg s)) (recipientKeyId g) = Some k
                \<and> (key_state k = KActive \<or> key_state k = KRetired)
              \<longrightarrow> authorizeRetrieval (reg (async_step s (Resume n True))) i now = Inr ()))"
proof -
  have inv: "async_inv s" unfolding assms(1) by (rule keys.inv_run)
  have "grant_of (reg (run async_step s later)) i = Some g" if "\<forall>p\<in>set (suspended s). suspended_grant (reg s) p \<noteq> Some i"
    using revoked_alone_run [OF inv assms(3), of i later] assms(2) that by (simp add: revoked_alone_def)
  moreover have "authorizeRetrieval (reg (async_step s (Resume n True))) i now = Inr ()"
    if "n < length (suspended s)" "suspended s ! n = PendingActivation a" "jm_get (kr_grants (reg s)) i = Some a"
      "effectiveAt g \<le> now" "now < expiresAt g" "jm_get (kr_keys (reg s)) (recipientKeyId g) = Some k"
      "key_state k = KActive \<or> key_state k = KRetired"
    by (rule authorizeRetrieval_ok [OF resumed_activation [OF inv assms(2) that(1-3)], of now k])
      (use that in \<open>simp_all add: set_grant_state_def\<close>)
  ultimately show ?thesis using resumed_activation [OF inv assms(2)] by blast
qed

theorem revocation_final_unless_overlapped_witness:
  "grant_of (reg (run async_step (run async_step async_start (map Whole (ex_key_ops @ [RevokeGrant ''g''])))
       [BeginActivateGrant ''g'' 5, Resume 0 True])) ''g'' = Some (ex_grant\<lparr>grant_state := GRevoked\<rparr>)
   \<and> authorizeRetrieval (reg (async_step (run async_step async_start
       (map Whole ex_key_ops @ [BeginActivateGrant ''g'' 5, Whole (RevokeGrant ''g'')])) (Resume 0 True))) ''g'' 5 = Inr ()"
proof -
  let ?g = "ex_grant\<lparr>grant_state := GRevoked\<rparr>"
  let ?s = "run async_step async_start (map Whole (ex_key_ops @ [RevokeGrant ''g'']))"
  let ?t = "run async_step async_start (map Whole ex_key_ops @ [BeginActivateGrant ''g'' 5, Whole (RevokeGrant ''g'')])"
  have s: "grant_of (reg ?s) ''g'' = Some ?g" "suspended ?s = []" by code_simp+
  have t: "grant_of (reg ?t) ''g'' = Some ?g" "suspended ?t = [PendingActivation 0]" "jm_get (kr_grants (reg ?t)) ''g'' = Some 0"
    "jm_get (kr_keys (reg ?t)) (recipientKeyId ?g) = Some (ex_key ''k'')" "key_state (ex_key ''k'') = KActive"
    "effectiveAt ?g = 1" "expiresAt ?g = 10"
    by code_simp+
  show ?thesis
    using revocation_final_unless_overlapped [OF refl s(1), of "[BeginActivateGrant ''g'' 5, Resume 0 True]"]
      revocation_final_unless_overlapped [OF refl t(1), of _ 0 0 5 "ex_key ''k''"] s(2) t by simp
qed

text \<open>
  A registry restored from its snapshot has the same keys, authorizations and grants, whatever
  order \<open>localeCompare\<close> gives the entries.
\<close>

theorem key_snapshot_roundtrip:
  assumes "key_inv r" and "records_valid r"
  shows "\<exists>t. fromSnapshot (snapshot le r) = Inr t \<and> jm_get (kr_keys t) = jm_get (kr_keys r)
    \<and> auth_of t = auth_of r \<and> grant_of t = grant_of r"
  using snapshot_roundtrip [OF assms, of le] by blast

theorem key_snapshot_roundtrip_witness:
  "\<exists>t. fromSnapshot (snapshot str_le (run key_step empty_keys ex_key_ops)) = Inr t
     \<and> grant_of t ''g'' = Some ex_grant"
proof -
  have "records_valid (run key_step empty_keys ex_key_ops)" "grant_of (run key_step empty_keys ex_key_ops) ''g'' = Some ex_grant"
    by code_simp+
  with key_snapshot_roundtrip [OF calls.inv_run this(1), of str_le] show ?thesis by auto
qed

section \<open>The canonical projection\<close>

text \<open>
  C23: whatever blocks arrive and whatever heads are selected, the canonical chain is linked by
  parent hashes and numbered from genesis, consists of ingested blocks, and the projected state is the
  fold of the events of its confirmed blocks and of nothing else.
\<close>

theorem projection_invariant:
  "projector_inv red (run (projector_step canon red)
     \<lparr>pj_blocks = [], pj_canonical = [], pj_state = initialState red, pj_depth = d\<rparr> ops)"
  by (rule projection.inv_run)

text \<open>
  Selecting a head makes the chain that ends in it canonical. The snapshot's state is the fold
  of the confirmed blocks of that chain, so it depends on the ingested blocks and the head only, not
  on what was selected before, and its confirmed head is the last block that entered the state. A
  failure is an unknown head or a gap in the numbering, never a cycle.
\<close>

theorem head_selection:
  assumes "projector_inv red p"
  shows "case selectHead red p h of
      Inl e \<Rightarrow> e = ProjUnknownParent \<or> e = ProjGap
    | Inr (sn, q) \<Rightarrow> \<exists>chain. path_from (pj_blocks p) [] h = Inr chain \<and> linked chain \<and> block_hash (last chain) = h
        \<and> (let c = confirmed_blocks (pj_depth p) chain in
            snap_state sn = foldl (apply_block red) (initialState red) c
            \<and> confirmedHead sn = (if c = [] then None else Some (block_hash (last c), block_number (last c))))"
proof (cases "selectHead red p h")
  case (Inl e)
  then show ?thesis using selectHead_no_conflict [OF assms, of h] by (cases e) auto
next
  case (Inr x)
  obtain sn q where x: "x = (sn, q)" by fastforce
  have "keyed (pj_blocks p)" using assms by (simp add: projector_inv_def)
  note s = selectHead_Inr [OF Inr [unfolded x] this]
  have "snap_state sn = pj_state q" using s by (simp add: snapshot_now_def Let_def)
  with s confirmed_head [of q] x Inr show ?thesis
    by (intro exI [of _ "pj_canonical q"] | simp add: projector_inv_def Let_def)+
qed

theorem head_selection_witness:
  "case selectHead evidenceProjectionReducer ex_projector ''2'' of Inl e \<Rightarrow> False
   | Inr (sn, q) \<Rightarrow> confirmedHead sn = Some (''1'', 1) \<and> snap_state sn = [(''c'', PsRevoked, 2)]
       \<and> (\<exists>chain. path_from (pj_blocks ex_projector) [] ''2'' = Inr chain \<and> linked chain)"
proof -
  have e: "case selectHead evidenceProjectionReducer ex_projector ''2'' of Inl e \<Rightarrow> False
    | Inr (sn, q) \<Rightarrow> confirmedHead sn = Some (''1'', 1) \<and> snap_state sn = [(''c'', PsRevoked, 2)]" by code_simp
  from head_selection [OF ex_projector_inv, of "''2''"] e show ?thesis by (auto split: sum.splits prod.splits)
qed

text \<open>
  C24: when the numbers of the ingested blocks agree with their parent links, every ingested block
  can be selected as head: the walk to genesis ends and succeeds.
\<close>

theorem stored_heads_selectable:
  assumes "projector_inv red p" and "jm_get (pj_blocks p) h = Some b" and "numbered (pj_blocks p)"
  shows "\<exists>sn q. selectHead red p h = Inr (sn, q)"
  by (rule selectHead_total [OF assms])

theorem stored_heads_selectable_witness:
  "\<exists>sn q. selectHead evidenceProjectionReducer ex_projector ''1'' = Inr (sn, q)"
proof (rule stored_heads_selectable)
  show "projector_inv evidenceProjectionReducer ex_projector" by (rule ex_projector_inv)
  have blocks: "pj_blocks ex_projector = [(''0'', ex_block ''0'' 0 [] PActivated), (''1'', ex_block ''1'' 1 ''0'' PRevoked),
      (''2'', ex_block ''2'' 2 ''1'' PActivated)]" by code_simp
  show "jm_get (pj_blocks ex_projector) ''1'' = Some (ex_block ''1'' 1 ''0'' PRevoked)"
    by (simp add: blocks jm_get_def)
  show "numbered (pj_blocks ex_projector)"
    by (auto simp: numbered_def blocks jm_get_def ex_block_def split: if_splits)
qed

text \<open>
  In the evidence projection a claim has the status and version of the last event about it in
  the confirmed blocks, and no entry when there is none.
\<close>

theorem claims_follow_last_event:
  "jm_get (foldl (apply_block evidenceProjectionReducer) (initialState evidenceProjectionReducer) bs) c =
     (case filter (\<lambda>e. pe_claimId e = c) (concat (map block_events bs)) of
        [] \<Rightarrow> None
      | e # es \<Rightarrow> Some (projection_status_of (pe_kind (last (e # es))), pe_version (last (e # es))))"
  by (simp add: foldl_apply_block evidence_projection Let_def evidenceProjectionReducer_def [THEN arg_cong, of initialState]
      split: list.splits)

end
