(* ===== verification/Object_Store.thy ===== *)
theory Object_Store
  imports Schemas
begin

text \<open>
  The object stores of \<open>src/protected-bundles/storage\<close>. \<open>store_ops\<close> is the interface
  \<open>OpaqueObjectStore\<close> of \<open>types.ts\<close> over a world of type \<open>'s\<close>; the locale \<open>object_store\<close> is the contract
  its clients rely on: objects are created once, never overwritten, and read back as written. It is
  interpreted on the memory store (\<open>memory.ts\<close>) and on the filesystem store (\<open>filesystem.ts\<close>), whose
  world is the set of files of a directory tree. A stream is the list of its chunks; a chunk of a
  source comes with the state of the abort signal when it arrives.
\<close>

datatype store_error = Aborted | InvalidObjectId | ObjectTooLarge | StoreUnavailable | StoreSchemaRejected
  | SystemError \<comment> \<open>an error of the operating system, passed on unchanged\<close>

datatype put_status = Created | Exists

record put_result =
  put_length :: nat
  put_status :: put_status

type_synonym chunk = "bool \<times> bytes"

record 's store_ops =
  so_namespace :: string
  so_head :: "'s \<Rightarrow> string \<Rightarrow> store_error + nat option"
  so_get :: "'s \<Rightarrow> string \<Rightarrow> store_error + bytes list"
  so_put :: "'s \<Rightarrow> string \<Rightarrow> bytes list \<Rightarrow> (store_error + put_result) \<times> 's"
  so_delete :: "'s \<Rightarrow> string \<Rightarrow> (store_error + bool) \<times> 's"

definition assertNotAborted :: "bool \<Rightarrow> store_error + unit" where
  "assertNotAborted aborted = check aborted Aborted"

definition validateObjectId :: "string \<Rightarrow> store_error + string" where
  "validateObjectId v = parse_with base64Url32_ok InvalidObjectId v"

definition after_last :: "char \<Rightarrow> string \<Rightarrow> string" where
  "after_last c s = rev (takeWhile (\<lambda>d. d \<noteq> c) (rev s))"

definition namespaceKey :: "string \<Rightarrow> store_error + string" where
  "namespaceKey organizationId =
     rbind (parse_with (urn_ok ''org'') StoreSchemaRejected organizationId) (\<lambda>parsed.
     Inr (after_last CHR '':'' parsed))"

text \<open>\<open>collect\<close> of \<open>memory.ts\<close> and \<open>s3.ts\<close>: the loop over the source with its two guards.\<close>

fun collect_chunks :: "nat \<Rightarrow> nat \<Rightarrow> chunk list \<Rightarrow> store_error + bytes list" where
  "collect_chunks maximum len [] = Inr []"
| "collect_chunks maximum len ((aborted, c) # cs) =
     rbind (assertNotAborted aborted) (\<lambda>_.
     rbind (check (len + length c > maximum) ObjectTooLarge) (\<lambda>_.
     rbind (collect_chunks maximum (len + length c) cs) (\<lambda>rest. Inr (c # rest))))"

definition collect :: "nat \<Rightarrow> chunk list \<Rightarrow> store_error + bytes" where
  "collect maximum source = rbind (collect_chunks maximum 0 source) (\<lambda>chunks. Inr (concat chunks))"

subsection \<open>The memory store\<close>

type_synonym backend = "(string, bytes) jmap"

record memory_store =
  ms_namespace :: string
  ms_prefix :: string
  ms_maxObjectBytes :: nat

definition forOrganization :: "string \<Rightarrow> nat \<Rightarrow> store_error + memory_store" where
  "forOrganization organizationId maximum =
     rbind (namespaceKey organizationId) (\<lambda>k.
     Inr \<lparr>ms_namespace = organizationId, ms_prefix = k @ '':'', ms_maxObjectBytes = maximum\<rparr>)"

definition memory_key :: "memory_store \<Rightarrow> string \<Rightarrow> store_error + string" where
  "memory_key m objectId = rbind (validateObjectId objectId) (\<lambda>i. Inr (ms_prefix m @ i))"

definition memory_delete :: "memory_store \<Rightarrow> backend \<Rightarrow> string \<Rightarrow> (store_error + bool) \<times> backend" where
  "memory_delete m s objectId =
     (case memory_key m objectId of Inl e \<Rightarrow> (Inl e, s)
      | Inr k \<Rightarrow> (Inr (jm_has s k), jm_del k s))"

definition memory_get :: "memory_store \<Rightarrow> backend \<Rightarrow> bool \<Rightarrow> string \<Rightarrow> store_error + bytes list" where
  "memory_get m s aborted objectId =
     rbind (assertNotAborted aborted) (\<lambda>_.
     rbind (memory_key m objectId) (\<lambda>k.
     Inr (case jm_get s k of None \<Rightarrow> [] | Some v \<Rightarrow> [v])))"

definition memory_head :: "memory_store \<Rightarrow> backend \<Rightarrow> string \<Rightarrow> store_error + nat option" where
  "memory_head m s objectId =
     rbind (memory_key m objectId) (\<lambda>k. Inr (map_option length (jm_get s k)))"

text \<open>
  \<open>putIfAbsent\<close> waits for the source between its first look at the map and the insertion.
  \<open>memory_put_begin\<close> is the part before the wait: a result, or the key to insert under.
  \<open>memory_put_finish\<close> is the part after it, on the map as it is by then.
\<close>

definition memory_put_begin :: "memory_store \<Rightarrow> backend \<Rightarrow> string \<Rightarrow> store_error + (put_result + string)" where
  "memory_put_begin m s objectId =
     rbind (memory_key m objectId) (\<lambda>k.
     Inr (case jm_get s k of
            Some existing \<Rightarrow> Inl \<lparr>put_length = length existing, put_status = Exists\<rparr>
          | None \<Rightarrow> Inr k))"

definition memory_put_finish ::
  "memory_store \<Rightarrow> backend \<Rightarrow> string \<Rightarrow> chunk list \<Rightarrow> (store_error + put_result) \<times> backend" where
  "memory_put_finish m s k source =
     (case collect (ms_maxObjectBytes m) source of Inl e \<Rightarrow> (Inl e, s)
      | Inr v \<Rightarrow> (case jm_get s k of
            Some winner \<Rightarrow> (Inr \<lparr>put_length = length winner, put_status = Exists\<rparr>, s)
          | None \<Rightarrow> (Inr \<lparr>put_length = length v, put_status = Created\<rparr>, jm_set k v s)))"

definition memory_putIfAbsent ::
  "memory_store \<Rightarrow> backend \<Rightarrow> string \<Rightarrow> chunk list \<Rightarrow> (store_error + put_result) \<times> backend" where
  "memory_putIfAbsent m s objectId source =
     (case memory_put_begin m s objectId of
        Inl e \<Rightarrow> (Inl e, s)
      | Inr (Inl result) \<Rightarrow> (Inr result, s)
      | Inr (Inr k) \<Rightarrow> memory_put_finish m s k source)"

definition memory_ops :: "memory_store \<Rightarrow> backend store_ops" where
  "memory_ops m = \<lparr>so_namespace = ms_namespace m,
     so_head = memory_head m,
     so_get = (\<lambda>s. memory_get m s False),
     so_put = (\<lambda>s i cs. memory_putIfAbsent m s i (map (\<lambda>c. (False, c)) cs)),
     so_delete = memory_delete m\<rparr>"

subsection \<open>The filesystem store\<close>

text \<open>
  The world is the files of a disk by path. \<open>pending\<close> is the random hexadecimal text of the
  temporary file. \<open>link\<close> fails when its destination exists; every other system call succeeds.
\<close>

type_synonym disk = "(string, bytes) jmap"

record file_store =
  fs_namespace :: string
  fs_directory :: string
  fs_maxObjectBytes :: nat

definition filesystem_store :: "string \<Rightarrow> string \<Rightarrow> nat \<Rightarrow> store_error + file_store" where
  "filesystem_store organizationId rootDirectory maximum =
     rbind (namespaceKey organizationId) (\<lambda>k.
     Inr \<lparr>fs_namespace = organizationId, fs_directory = rootDirectory @ ''/'' @ k, fs_maxObjectBytes = maximum\<rparr>)"

definition file_path :: "file_store \<Rightarrow> string \<Rightarrow> store_error + string" where
  "file_path f objectId = rbind (validateObjectId objectId) (\<lambda>i. Inr (fs_directory f @ ''/'' @ i))"

definition file_delete :: "file_store \<Rightarrow> disk \<Rightarrow> string \<Rightarrow> (store_error + bool) \<times> disk" where
  "file_delete f d objectId =
     (case file_path f objectId of Inl e \<Rightarrow> (Inl e, d)
      | Inr p \<Rightarrow> if jm_has d p then (Inr True, jm_del p d) else (Inr False, d))"

definition file_get :: "file_store \<Rightarrow> disk \<Rightarrow> bool \<Rightarrow> string \<Rightarrow> store_error + bytes list" where
  "file_get f d aborted objectId =
     rbind (assertNotAborted aborted) (\<lambda>_.
     rbind (file_path f objectId) (\<lambda>p.
     Inr (case jm_get d p of None \<Rightarrow> [] | Some v \<Rightarrow> [v])))"

definition file_head :: "file_store \<Rightarrow> disk \<Rightarrow> string \<Rightarrow> store_error + nat option" where
  "file_head f d objectId = rbind (file_path f objectId) (\<lambda>p. Inr (map_option length (jm_get d p)))"

text \<open>The loop that appends the chunks to the temporary file, with the disk it leaves behind.\<close>

fun write_chunks :: "nat \<Rightarrow> string \<Rightarrow> nat \<Rightarrow> chunk list \<Rightarrow> disk \<Rightarrow> (store_error + nat) \<times> disk" where
  "write_chunks maximum temporary len [] d = (Inr len, d)"
| "write_chunks maximum temporary len ((aborted, c) # cs) d =
     (if aborted then (Inl Aborted, d)
      else if len + length c > maximum then (Inl ObjectTooLarge, d)
      else write_chunks maximum temporary (len + length c) cs
             (jm_set temporary ((case jm_get d temporary of None \<Rightarrow> [] | Some b \<Rightarrow> b) @ c) d))"

definition temporary_path :: "file_store \<Rightarrow> string \<Rightarrow> string" where
  "temporary_path f pending = fs_directory f @ ''/'' @ ''.pending-'' @ pending"

definition file_putIfAbsent ::
  "file_store \<Rightarrow> string \<Rightarrow> disk \<Rightarrow> bool \<Rightarrow> string \<Rightarrow> chunk list \<Rightarrow> (store_error + put_result) \<times> disk" where
  "file_putIfAbsent f pending d aborted objectId source =
     (case rbind (assertNotAborted aborted) (\<lambda>_. file_path f objectId) of
        Inl e \<Rightarrow> (Inl e, d)
      | Inr destination \<Rightarrow>
          (case jm_get d destination of
             Some existing \<Rightarrow> (Inr \<lparr>put_length = length existing, put_status = Exists\<rparr>, d)
           | None \<Rightarrow>
               let temporary = temporary_path f pending in
               if jm_has d temporary then (Inl SystemError, d)
               else (case write_chunks (fs_maxObjectBytes f) temporary 0 source (jm_set temporary [] d) of
                       (Inl e, d1) \<Rightarrow> (Inl e, jm_del temporary d1)
                     | (Inr len, d1) \<Rightarrow>
                         (case (jm_get d1 destination, jm_get d1 temporary) of
                            (Some winner, _) \<Rightarrow>
                              (Inr \<lparr>put_length = length winner, put_status = Exists\<rparr>, jm_del temporary d1)
                          | (None, Some b) \<Rightarrow>
                              (Inr \<lparr>put_length = len, put_status = Created\<rparr>,
                               jm_del temporary (jm_set destination b d1))
                          | (None, None) \<Rightarrow> (Inl SystemError, d1)))))"

definition file_ops :: "file_store \<Rightarrow> string \<Rightarrow> disk store_ops" where
  "file_ops f pending = \<lparr>so_namespace = fs_namespace f,
     so_head = file_head f,
     so_get = (\<lambda>d. file_get f d False),
     so_put = (\<lambda>d i cs. file_putIfAbsent f pending d False i (map (\<lambda>c. (False, c)) cs)),
     so_delete = file_delete f\<rparr>"

subsection \<open>Refinement of a partial map\<close>

text \<open>
  The abstract store is a partial map from object identifiers to bytes. \<open>store_call\<close> makes one call of the
  interface, with the chunks of a read joined; \<open>map_call\<close> is what the call does to the abstract store.
\<close>

datatype store_request = CallHead string | CallGet string | CallPut string "bytes list" | CallDelete string

datatype store_reply = HeadReply "nat option" | GetReply bytes | PutReply put_result | DeleteReply bool

definition reply :: "('a \<Rightarrow> store_reply) \<Rightarrow> (store_error + 'a) \<times> 's \<Rightarrow> (store_error + store_reply) \<times> 's" where
  "reply f r = (map_sum id f (fst r), snd r)"

fun store_call :: "'s store_ops \<Rightarrow> 's \<Rightarrow> store_request \<Rightarrow> (store_error + store_reply) \<times> 's" where
  "store_call store s (CallHead i) = reply HeadReply (so_head store s i, s)"
| "store_call store s (CallGet i) = reply (\<lambda>cs. GetReply (concat cs)) (so_get store s i, s)"
| "store_call store s (CallPut i cs) = reply PutReply (so_put store s i cs)"
| "store_call store s (CallDelete i) = reply DeleteReply (so_delete store s i)"

primrec called_id :: "store_request \<Rightarrow> string" where
  "called_id (CallHead i) = i"
| "called_id (CallGet i) = i"
| "called_id (CallPut i cs) = i"
| "called_id (CallDelete i) = i"

fun map_call :: "nat \<Rightarrow> (string \<rightharpoonup> bytes) \<Rightarrow> store_request \<Rightarrow> (store_error + store_reply) \<times> (string \<rightharpoonup> bytes)" where
  "map_call limit m (CallHead i) = (Inr (HeadReply (map_option length (m i))), m)"
| "map_call limit m (CallGet i) = (Inr (GetReply (case m i of None \<Rightarrow> [] | Some b \<Rightarrow> b)), m)"
| "map_call limit m (CallPut i cs) =
     (case m i of
        Some b \<Rightarrow> (Inr (PutReply \<lparr>put_length = length b, put_status = Exists\<rparr>), m)
      | None \<Rightarrow>
          if length (concat cs) > limit then (Inl ObjectTooLarge, m)
          else (Inr (PutReply \<lparr>put_length = length (concat cs), put_status = Created\<rparr>), m(i \<mapsto> concat cs)))"
| "map_call limit m (CallDelete i) = (Inr (DeleteReply (m i \<noteq> None)), m(i := None))"

definition abstract_call ::
  "nat \<Rightarrow> (string \<rightharpoonup> bytes) \<Rightarrow> store_request \<Rightarrow> (store_error + store_reply) \<times> (string \<rightharpoonup> bytes)" where
  "abstract_call limit m x = (if base64Url32_ok (called_id x) then map_call limit m x else (Inl InvalidObjectId, m))"

text \<open>The replies to a sequence of calls.\<close>

primrec replies :: "('s \<Rightarrow> 'c \<Rightarrow> 'r \<times> 's) \<Rightarrow> 's \<Rightarrow> 'c list \<Rightarrow> 'r list" where
  "replies call s [] = []"
| "replies call s (x # xs) = fst (call s x) # replies call (snd (call s x)) xs"

subsection \<open>The contract of a store\<close>

locale object_store =
  fixes ops :: "'s store_ops"
    and obj :: "'s \<Rightarrow> string \<Rightarrow> bytes option"
    and wf :: "'s \<Rightarrow> bool"
    and limit :: nat
  assumes head: "wf s \<Longrightarrow> base64Url32_ok i \<Longrightarrow> so_head ops s i = Inr (map_option length (obj s i))"
    and get: "wf s \<Longrightarrow> base64Url32_ok i \<Longrightarrow>
      \<exists>cs. so_get ops s i = Inr cs \<and> concat cs = (case obj s i of None \<Rightarrow> [] | Some b \<Rightarrow> b)"
    and put_new: "wf s \<Longrightarrow> base64Url32_ok i \<Longrightarrow> obj s i = None \<Longrightarrow> length (concat cs) \<le> limit \<Longrightarrow>
      \<exists>t. so_put ops s i cs = (Inr \<lparr>put_length = length (concat cs), put_status = Created\<rparr>, t)
        \<and> wf t \<and> obj t = (obj s)(i \<mapsto> concat cs)"
    and put_exists: "wf s \<Longrightarrow> base64Url32_ok i \<Longrightarrow> obj s i = Some b \<Longrightarrow>
      so_put ops s i cs = (Inr \<lparr>put_length = length b, put_status = Exists\<rparr>, s)"
    and put_large: "wf s \<Longrightarrow> base64Url32_ok i \<Longrightarrow> obj s i = None \<Longrightarrow> length (concat cs) > limit \<Longrightarrow>
      \<exists>t. so_put ops s i cs = (Inl ObjectTooLarge, t) \<and> wf t \<and> obj t = obj s"
    and delete: "wf s \<Longrightarrow> base64Url32_ok i \<Longrightarrow>
      \<exists>t. so_delete ops s i = (Inr (obj s i \<noteq> None), t) \<and> wf t \<and> obj t = (obj s)(i := None)"
    and invalid: "\<not> base64Url32_ok i \<Longrightarrow> so_head ops s i = Inl InvalidObjectId
      \<and> so_get ops s i = Inl InvalidObjectId \<and> so_put ops s i cs = (Inl InvalidObjectId, s)
      \<and> so_delete ops s i = (Inl InvalidObjectId, s)"
begin

text \<open>Whatever a put does, it keeps the objects that are there and adds at most its own.\<close>

lemma put_frame:
  assumes "wf s" and "so_put ops s i cs = (r, t)"
  shows "wf t \<and> (obj t = obj s \<or> (base64Url32_ok i \<and> obj s i = None \<and> obj t = (obj s)(i \<mapsto> concat cs)))"
proof (cases "base64Url32_ok i")
  case True
  show ?thesis
  proof (cases "obj s i")
    case None
    then show ?thesis
      using put_new [OF assms(1) True None, of cs] put_large [OF assms(1) True None, of cs] assms True
      by (cases "length (concat cs) \<le> limit") auto
  next
    case (Some b)
    then show ?thesis using put_exists [OF assms(1) True Some] assms by simp
  qed
next
  case False
  then show ?thesis using invalid assms by simp
qed

lemma put_keeps: "wf s \<Longrightarrow> so_put ops s i cs = (r, t) \<Longrightarrow> obj s j = Some b \<Longrightarrow> obj t j = Some b"
  using put_frame [of s i cs r t] by (auto split: if_splits)

lemma put_status:
  assumes "wf s" and "so_put ops s i cs = (Inr r, t)"
  shows "base64Url32_ok i \<and> (if put_status r = Created then obj s i = None \<and> obj t = (obj s)(i \<mapsto> concat cs)
     else obj s i \<noteq> None \<and> obj t = obj s)"
proof -
  have i: "base64Url32_ok i" using invalid assms(2) by (metis Inl_Inr_False prod.inject)
  show ?thesis
  proof (cases "obj s i")
    case None
    then show ?thesis
      using put_new [OF assms(1) i None, of cs] put_large [OF assms(1) i None, of cs] assms(2) i
      by (cases "length (concat cs) \<le> limit") auto
  next
    case (Some b)
    then show ?thesis using put_exists [OF assms(1) i Some, of cs] assms(2) i by auto
  qed
qed

text \<open>Every call of the store is the call of the partial map of its objects.\<close>

lemma call_refines:
  assumes s: "wf s"
  shows "wf (snd (store_call ops s x))
    \<and> abstract_call limit (obj s) x = (fst (store_call ops s x), obj (snd (store_call ops s x)))"
proof (cases "base64Url32_ok (called_id x)")
  case True
  show ?thesis
  proof (cases x)
    case (CallHead i)
    then show ?thesis using True s head [of s i] by (simp add: abstract_call_def reply_def)
  next
    case (CallGet i)
    then show ?thesis using True s get [of s i] by (auto simp: abstract_call_def reply_def)
  next
    case (CallPut i cs)
    have i: "base64Url32_ok i" using True CallPut by simp
    show ?thesis
    proof (cases "obj s i")
      case None
      then show ?thesis
        using CallPut i s put_new [OF s i None, of cs] put_large [OF s i None, of cs]
        by (cases "length (concat cs) \<le> limit") (auto simp: abstract_call_def reply_def)
    next
      case (Some b)
      then show ?thesis using CallPut i s put_exists [OF s i Some] by (simp add: abstract_call_def reply_def)
    qed
  next
    case (CallDelete i)
    then show ?thesis using True s delete [of s i] by (auto simp: abstract_call_def reply_def)
  qed
next
  case False
  then show ?thesis using s invalid [of "called_id x" s] by (cases x) (simp_all add: abstract_call_def reply_def)
qed

lemma replies_refine: "wf s \<Longrightarrow> replies (store_call ops) s xs = replies (abstract_call limit) (obj s) xs"
proof (induction xs arbitrary: s)
  case (Cons x xs)
  then show ?case using call_refines [OF Cons.prems, of x] by simp
qed simp

end

subsection \<open>The memory store meets the contract\<close>

lemma collect_chunks_unaborted:
  "collect_chunks maximum len (map (\<lambda>c. (False, c)) cs) =
     (if len + length (concat cs) \<le> maximum \<or> cs = [] then Inr cs else Inl ObjectTooLarge)"
proof (induction cs arbitrary: len)
  case (Cons c cs)
  then show ?case by (cases "len + length c > maximum") (auto simp: assertNotAborted_def)
qed simp

lemma collect_unaborted:
  "collect maximum (map (\<lambda>c. (False, c)) cs) =
     (if length (concat cs) \<le> maximum then Inr (concat cs) else Inl ObjectTooLarge)"
  by (auto simp: collect_def collect_chunks_unaborted)

definition memory_obj :: "memory_store \<Rightarrow> backend \<Rightarrow> string \<Rightarrow> bytes option" where
  "memory_obj m s i = (if base64Url32_ok i then jm_get s (ms_prefix m @ i) else None)"

lemma memory_key_ok: "base64Url32_ok i \<Longrightarrow> memory_key m i = Inr (ms_prefix m @ i)"
  by (simp add: memory_key_def validateObjectId_def parse_with_def)

lemma memory_key_bad: "\<not> base64Url32_ok i \<Longrightarrow> memory_key m i = Inl InvalidObjectId"
  by (simp add: memory_key_def validateObjectId_def parse_with_def)

interpretation memory: object_store "memory_ops m" "memory_obj m" "\<lambda>_. True" "ms_maxObjectBytes m" for m
proof unfold_locales
  fix s i cs b
  show "so_head (memory_ops m) s i = Inr (map_option length (memory_obj m s i))" if "base64Url32_ok i"
    using that by (simp add: memory_ops_def memory_head_def memory_key_ok memory_obj_def)
  show "\<exists>cs. so_get (memory_ops m) s i = Inr cs \<and> concat cs = (case memory_obj m s i of None \<Rightarrow> [] | Some b \<Rightarrow> b)"
    if "base64Url32_ok i"
    using that by (auto simp: memory_ops_def memory_get_def memory_key_ok memory_obj_def assertNotAborted_def
        split: option.splits)
  show "\<exists>t. so_put (memory_ops m) s i cs = (Inr \<lparr>put_length = length (concat cs), put_status = Created\<rparr>, t)
        \<and> True \<and> memory_obj m t = (memory_obj m s)(i \<mapsto> concat cs)"
    if "base64Url32_ok i" "memory_obj m s i = None" "length (concat cs) \<le> ms_maxObjectBytes m"
    using that by (auto simp: memory_ops_def memory_putIfAbsent_def memory_put_begin_def memory_put_finish_def
        memory_key_ok memory_obj_def collect_unaborted jm_simps fun_eq_iff)
  show "so_put (memory_ops m) s i cs = (Inr \<lparr>put_length = length b, put_status = Exists\<rparr>, s)"
    if "base64Url32_ok i" "memory_obj m s i = Some b"
    using that by (simp add: memory_ops_def memory_putIfAbsent_def memory_put_begin_def memory_key_ok memory_obj_def)
  show "\<exists>t. so_put (memory_ops m) s i cs = (Inl ObjectTooLarge, t) \<and> True \<and> memory_obj m t = memory_obj m s"
    if "base64Url32_ok i" "memory_obj m s i = None" "ms_maxObjectBytes m < length (concat cs)"
    using that by (simp add: memory_ops_def memory_putIfAbsent_def memory_put_begin_def memory_put_finish_def
        memory_key_ok memory_obj_def collect_unaborted)
  show "\<exists>t. so_delete (memory_ops m) s i = (Inr (memory_obj m s i \<noteq> None), t) \<and> True
      \<and> memory_obj m t = (memory_obj m s)(i := None)" if "base64Url32_ok i"
    using that by (auto simp: memory_ops_def memory_delete_def memory_key_ok memory_obj_def jm_has_def jm_simps fun_eq_iff)
  show "so_head (memory_ops m) s i = Inl InvalidObjectId \<and> so_get (memory_ops m) s i = Inl InvalidObjectId
      \<and> so_put (memory_ops m) s i cs = (Inl InvalidObjectId, s) \<and> so_delete (memory_ops m) s i = (Inl InvalidObjectId, s)"
    if "\<not> base64Url32_ok i"
    using that by (simp add: memory_ops_def memory_head_def memory_get_def memory_putIfAbsent_def memory_put_begin_def
        memory_delete_def memory_key_bad assertNotAborted_def)
qed

subsection \<open>The filesystem store meets the contract\<close>

definition file_obj :: "file_store \<Rightarrow> disk \<Rightarrow> string \<Rightarrow> bytes option" where
  "file_obj f d i = (if base64Url32_ok i then jm_get d (fs_directory f @ ''/'' @ i) else None)"

definition file_wf :: "file_store \<Rightarrow> string \<Rightarrow> disk \<Rightarrow> bool" where
  "file_wf f pending d = (\<not> jm_has d (temporary_path f pending))"

lemma file_path_ok: "base64Url32_ok i \<Longrightarrow> file_path f i = Inr (fs_directory f @ ''/'' @ i)"
  by (simp add: file_path_def validateObjectId_def parse_with_def)

lemma file_path_bad: "\<not> base64Url32_ok i \<Longrightarrow> file_path f i = Inl InvalidObjectId"
  by (simp add: file_path_def validateObjectId_def parse_with_def)

text \<open>A temporary file never has the name of an object.\<close>

lemma temporary_not_object: "base64Url32_ok i \<Longrightarrow> fs_directory f @ ''/'' @ i \<noteq> temporary_path f pending"
proof
  assume i: "base64Url32_ok i" and "fs_directory f @ ''/'' @ i = temporary_path f pending"
  then have "CHR ''.'' \<in> set i" by (simp add: temporary_path_def)
  moreover have "CHR ''.'' \<notin> set base64url_alphabet" by (simp add: base64url_alphabet_def)
  ultimately show False using i by (auto simp: base64Url32_ok_def list_all_iff)
qed

lemma write_chunks_unaborted:
  assumes "jm_get d temporary = Some b"
  shows "\<exists>d'. write_chunks maximum temporary len (map (\<lambda>c. (False, c)) cs) d =
      (if len + length (concat cs) \<le> maximum \<or> cs = [] then Inr (len + length (concat cs)) else Inl ObjectTooLarge, d')
    \<and> (\<forall>p. p \<noteq> temporary \<longrightarrow> jm_get d' p = jm_get d p)
    \<and> (len + length (concat cs) \<le> maximum \<or> cs = [] \<longrightarrow> jm_get d' temporary = Some (b @ concat cs))"
  using assms
proof (induction cs arbitrary: len d b)
  case (Cons c cs)
  show ?case
  proof (cases "len + length c > maximum")
    case False
    define d1 where "d1 = jm_set temporary (b @ c) d"
    have "jm_get d1 temporary = Some (b @ c)" "\<forall>p. p \<noteq> temporary \<longrightarrow> jm_get d1 p = jm_get d p"
      by (simp_all add: d1_def jm_simps)
    with Cons.IH [OF this(1), of "len + length c"] Cons.prems False show ?thesis
      by (auto simp: d1_def [symmetric] add.assoc)
  qed (use Cons.prems in auto)
qed simp

lemma file_put_unaborted:
  assumes "file_wf f pending d" and i: "base64Url32_ok i" and none: "file_obj f d i = None"
  shows "\<exists>t. so_put (file_ops f pending) d i cs = (if length (concat cs) \<le> fs_maxObjectBytes f
      then Inr \<lparr>put_length = length (concat cs), put_status = Created\<rparr> else Inl ObjectTooLarge, t)
    \<and> file_wf f pending t
    \<and> (\<forall>j. file_obj f t j = (if j = i \<and> length (concat cs) \<le> fs_maxObjectBytes f then Some (concat cs) else file_obj f d j))"
proof -
  let ?tmp = "temporary_path f pending" and ?dst = "fs_directory f @ ''/'' @ i"
  note ne = temporary_not_object [of _ f pending]
  have dst: "jm_get d ?dst = None" using none i by (simp add: file_obj_def)
  have notmp: "\<not> jm_has d ?tmp" using assms(1) by (simp add: file_wf_def)
  obtain d1 where w: "write_chunks (fs_maxObjectBytes f) ?tmp 0 (map (\<lambda>c. (False, c)) cs) (jm_set ?tmp [] d) =
      (if length (concat cs) \<le> fs_maxObjectBytes f \<or> cs = [] then Inr (length (concat cs)) else Inl ObjectTooLarge, d1)"
    and d1: "\<And>p. p \<noteq> ?tmp \<Longrightarrow> jm_get d1 p = jm_get d p"
      "length (concat cs) \<le> fs_maxObjectBytes f \<or> cs = [] \<Longrightarrow> jm_get d1 ?tmp = Some (concat cs)"
    using write_chunks_unaborted [of "jm_set ?tmp [] d" ?tmp "[]" "fs_maxObjectBytes f" 0 cs] by (auto simp: jm_simps)
  show ?thesis
  proof (cases "length (concat cs) \<le> fs_maxObjectBytes f")
    case True
    let ?t = "jm_del ?tmp (jm_set ?dst (concat cs) d1)"
    have "so_put (file_ops f pending) d i cs = (Inr \<lparr>put_length = length (concat cs), put_status = Created\<rparr>, ?t)"
      using True w d1 dst notmp i ne [OF i]
      by (simp add: file_ops_def file_putIfAbsent_def assertNotAborted_def file_path_ok Let_def)
    moreover have "file_wf f pending ?t" by (simp add: file_wf_def jm_has_def jm_simps)
    moreover have "file_obj f ?t j = (if j = i then Some (concat cs) else file_obj f d j)" for j
      using ne d1(1) i by (auto simp: file_obj_def jm_simps)
    ultimately show ?thesis using True by (intro exI [of _ ?t]) simp
  next
    case False
    let ?t = "jm_del ?tmp d1"
    have "cs \<noteq> []" using False by auto
    then have "so_put (file_ops f pending) d i cs = (Inl ObjectTooLarge, ?t)"
      using False w dst notmp i
      by (simp add: file_ops_def file_putIfAbsent_def assertNotAborted_def file_path_ok Let_def)
    moreover have "file_wf f pending ?t" by (simp add: file_wf_def jm_has_def jm_simps)
    moreover have "file_obj f ?t j = file_obj f d j" for j
      using ne d1(1) by (auto simp: file_obj_def jm_simps)
    ultimately show ?thesis using False by (intro exI [of _ ?t]) simp
  qed
qed

interpretation files: object_store "file_ops f pending" "file_obj f" "file_wf f pending" "fs_maxObjectBytes f"
  for f pending
proof unfold_locales
  fix d i cs b
  show "so_head (file_ops f pending) d i = Inr (map_option length (file_obj f d i))" if "base64Url32_ok i"
    using that by (simp add: file_ops_def file_head_def file_path_ok file_obj_def)
  show "\<exists>cs. so_get (file_ops f pending) d i = Inr cs \<and> concat cs = (case file_obj f d i of None \<Rightarrow> [] | Some b \<Rightarrow> b)"
    if "base64Url32_ok i"
    using that by (auto simp: file_ops_def file_get_def file_path_ok file_obj_def assertNotAborted_def split: option.splits)
  show "\<exists>t. so_put (file_ops f pending) d i cs = (Inr \<lparr>put_length = length (concat cs), put_status = Created\<rparr>, t)
        \<and> file_wf f pending t \<and> file_obj f t = (file_obj f d)(i \<mapsto> concat cs)"
    if "file_wf f pending d" "base64Url32_ok i" "file_obj f d i = None" "length (concat cs) \<le> fs_maxObjectBytes f"
    using file_put_unaborted [OF that(1-3), of cs] that(4) by (auto simp: fun_eq_iff)
  show "so_put (file_ops f pending) d i cs = (Inr \<lparr>put_length = length b, put_status = Exists\<rparr>, d)"
    if "base64Url32_ok i" "file_obj f d i = Some b"
    using that by (simp add: file_ops_def file_putIfAbsent_def file_path_ok file_obj_def assertNotAborted_def)
  show "\<exists>t. so_put (file_ops f pending) d i cs = (Inl ObjectTooLarge, t) \<and> file_wf f pending t \<and> file_obj f t = file_obj f d"
    if "file_wf f pending d" "base64Url32_ok i" "file_obj f d i = None" "fs_maxObjectBytes f < length (concat cs)"
    using file_put_unaborted [OF that(1-3), of cs] that(4) by (auto simp: fun_eq_iff)
  show "\<exists>t. so_delete (file_ops f pending) d i = (Inr (file_obj f d i \<noteq> None), t) \<and> file_wf f pending t
      \<and> file_obj f t = (file_obj f d)(i := None)" if "file_wf f pending d" "base64Url32_ok i"
    using that temporary_not_object [of i f pending]
    by (auto simp: file_ops_def file_delete_def file_path_ok file_obj_def jm_has_def jm_simps fun_eq_iff file_wf_def)
  show "so_head (file_ops f pending) d i = Inl InvalidObjectId \<and> so_get (file_ops f pending) d i = Inl InvalidObjectId
      \<and> so_put (file_ops f pending) d i cs = (Inl InvalidObjectId, d) \<and> so_delete (file_ops f pending) d i = (Inl InvalidObjectId, d)"
    if "\<not> base64Url32_ok i"
    using that by (simp add: file_ops_def file_head_def file_get_def file_putIfAbsent_def file_delete_def
        file_path_bad assertNotAborted_def)
qed

subsection \<open>Organisations do not see each other's objects\<close>

lemma after_last_urn: "c \<notin> set t \<Longrightarrow> after_last c (s @ c # t) = t"
  by (simp add: after_last_def takeWhile_append)

lemma length_split_on: "length s + 1 = (\<Sum>w\<leftarrow>split_on sep s. length w + 1)"
  by (induction s) (auto split: list.splits)

lemma uuid_length: "uuid_ok u \<Longrightarrow> length u = 36"
proof -
  assume "uuid_ok u"
  then have "map length (split_on CHR ''-'' u) = [8, 4, 4, 4, 12]" by (simp add: uuid_ok_def)
  then have "map (\<lambda>w. length w + 1) (split_on CHR ''-'' u) = [9, 5, 5, 5, 13]"
    by (auto simp: Cons_eq_map_conv map_eq_Cons_conv)
  then show "length u = 36" using length_split_on [of u "CHR ''-''"] by simp
qed

lemma set_split_on: "set s \<subseteq> insert sep (\<Union>w\<in>set (split_on sep s). set w)"
proof (induction s)
  case (Cons c s)
  then show ?case by (cases "split_on sep s") auto
qed simp

lemma uuid_no_colon: "uuid_ok u \<Longrightarrow> CHR '':'' \<notin> set u"
proof
  assume u: "uuid_ok u" and c: "CHR '':'' \<in> set u"
  then obtain w where "w \<in> set (split_on CHR ''-'' u)" "CHR '':'' \<in> set w"
    using set_split_on [of u "CHR ''-''"] by auto
  then have "is_hex_lower CHR '':''" using u by (auto simp: uuid_ok_def list_all_iff)
  then show False by code_simp
qed

lemma namespaceKey_Inr:
  assumes "namespaceKey org = Inr k"
  shows "uuid_ok k \<and> org = ''urn:evllm:org:'' @ k"
proof -
  have u: "urn_ok ''org'' org" and k: "k = after_last CHR '':'' org"
    using assms by (auto simp: namespaceKey_def parse_with_def outcome_simps split: if_splits)
  define p where "p = ''urn:evllm:'' @ ''org'' @ '':''"
  have p: "p = ''urn:evllm:org'' @ [CHR '':'']" by (simp add: p_def)
  obtain t where org: "org = p @ t" and ok: "uuid_ok t"
    using u unfolding urn_ok_def starts_with_def Let_def p_def [symmetric] by (metis append_take_drop_id)
  have "after_last CHR '':'' org = t"
    using after_last_urn [OF uuid_no_colon [OF ok], of "''urn:evllm:org''"] unfolding org p by simp
  with ok k have "uuid_ok k \<and> org = p @ k" using org by simp
  then show ?thesis by (simp add: p)
qed

text \<open>
  Two memory stores on one backend: what one organisation stores or deletes, another never sees,
  since every key starts with an organisation key of fixed length.
\<close>

lemma memory_isolated:
  assumes "forOrganization org1 n1 = Inr m1" and "forOrganization org2 n2 = Inr m2" and "org1 \<noteq> org2"
    and "base64Url32_ok i"
  shows "memory_obj m2 (jm_set (ms_prefix m1 @ i) v s) = memory_obj m2 s"
    and "memory_obj m2 (jm_del (ms_prefix m1 @ i) s) = memory_obj m2 s"
proof -
  obtain k1 k2 where k: "namespaceKey org1 = Inr k1" "namespaceKey org2 = Inr k2"
    and m: "ms_prefix m1 = k1 @ '':''" "ms_prefix m2 = k2 @ '':''"
    using assms by (auto simp: forOrganization_def outcome_simps)
  have "k1 \<noteq> k2" "length k1 = length k2"
    using namespaceKey_Inr [OF k(1)] namespaceKey_Inr [OF k(2)] assms(3) uuid_length by auto
  then have "ms_prefix m1 @ i \<noteq> ms_prefix m2 @ j" for j using m by simp
  then show "memory_obj m2 (jm_set (ms_prefix m1 @ i) v s) = memory_obj m2 s"
    "memory_obj m2 (jm_del (ms_prefix m1 @ i) s) = memory_obj m2 s"
    by (simp_all add: memory_obj_def jm_simps fun_eq_iff eq_commute [of "ms_prefix m2 @ _" "ms_prefix m1 @ i"])
qed

lemma memory_put_isolated:
  assumes "forOrganization org1 n1 = Inr m1" and "forOrganization org2 n2 = Inr m2" and "org1 \<noteq> org2"
  shows "memory_obj m2 (snd (memory_putIfAbsent m1 s i source)) = memory_obj m2 s"
    and "memory_obj m2 (snd (memory_delete m1 s i)) = memory_obj m2 s"
  using memory_isolated [OF assms]
  by (cases "base64Url32_ok i"; auto simp: memory_putIfAbsent_def memory_put_begin_def memory_put_finish_def
      memory_delete_def memory_key_ok memory_key_bad split: option.splits sum.splits)+

end
