(* ===== verification/Object_Operations.thy ===== *)
theory Object_Operations
  imports Object_Store
begin

text \<open>
  \<open>src/protected-bundles/repository/object-operations.ts\<close>: the coordinator that promotes staged
  objects, cleans the staging area, replicates objects and reads them with failover, on any store
  that meets the contract \<open>object_store\<close>. The hash function is a parameter. \<open>with_timeout\<close> carries
  whether the timer fires before the operation: the caller then sees a timeout, while the operation
  itself still runs to its end. The queue of \<open>withLock\<close> is modelled in \<open>Lock_Queue\<close>; here a locked
  section runs alone.
\<close>

datatype repo_error = RepoConflict | IntegrityMismatch | RepoTimeout | RepoUnavailable
  | StoreFailure store_error

record expected_object =
  exp_digest :: string
  exp_length :: nat

record promotion_input =
  pi_expected :: expected_object
  destinationObjectId :: string
  sourceObjectId :: string

datatype promotion_status = PCreated | PRecovered

record promotion_result =
  pr_expected :: expected_object
  pr_status :: promotion_status

datatype fetch_source = FromPrimary | FromReplica

fun read_chunks :: "nat \<Rightarrow> nat \<Rightarrow> bytes list \<Rightarrow> repo_error + bytes" where
  "read_chunks maximum len [] = Inr []"
| "read_chunks maximum len (c # cs) =
     rbind (check (len + length c > maximum) IntegrityMismatch) (\<lambda>_.
     rbind (read_chunks maximum (len + length c) cs) (\<lambda>rest. Inr (c @ rest)))"

definition readVerified ::
  "(bytes \<Rightarrow> string) \<Rightarrow> 's store_ops \<Rightarrow> 's \<Rightarrow> string \<Rightarrow> expected_object \<Rightarrow> repo_error + bytes" where
  "readVerified sha store s objectId expected =
     rbind (map_error StoreFailure (so_head store s objectId)) (\<lambda>head.
     rbind (from_option RepoUnavailable head) (\<lambda>headLength.
     rbind (check (headLength \<noteq> exp_length expected) IntegrityMismatch) (\<lambda>_.
     rbind (map_error StoreFailure (so_get store s objectId)) (\<lambda>chunks.
     rbind (read_chunks (exp_length expected) 0 chunks) (\<lambda>bytes.
     rbind (check (length bytes \<noteq> exp_length expected \<or> sha bytes \<noteq> exp_digest expected) IntegrityMismatch) (\<lambda>_.
     Inr bytes))))))"

text \<open>The second half of a promotion and of a replication: read the new object back.\<close>

definition confirm_put ::
  "(bytes \<Rightarrow> string) \<Rightarrow> 's store_ops \<Rightarrow> 's \<Rightarrow> string \<Rightarrow> expected_object \<Rightarrow> put_result
    \<Rightarrow> repo_error + promotion_result" where
  "confirm_put sha store s objectId expected result =
     (case readVerified sha store s objectId expected of
        Inl e \<Rightarrow> Inl (if put_status result = Exists then RepoConflict else e)
      | Inr _ \<Rightarrow> Inr \<lparr>pr_expected = expected,
                     pr_status = (if put_status result = Created then PCreated else PRecovered)\<rparr>)"

definition put_confirmed ::
  "(bytes \<Rightarrow> string) \<Rightarrow> 's store_ops \<Rightarrow> 's \<Rightarrow> string \<Rightarrow> expected_object \<Rightarrow> bytes
    \<Rightarrow> (repo_error + promotion_result) \<times> 's" where
  "put_confirmed sha store s objectId expected bytes =
     (case so_put store s objectId [bytes] of
        (Inl e, t) \<Rightarrow> (Inl (StoreFailure e), t)
      | (Inr result, t) \<Rightarrow> (confirm_put sha store t objectId expected result, t))"

definition promote_locked ::
  "(bytes \<Rightarrow> string) \<Rightarrow> 's store_ops \<Rightarrow> 's \<Rightarrow> promotion_input \<Rightarrow> (repo_error + promotion_result) \<times> 's" where
  "promote_locked sha store s input =
     (case so_head store s (destinationObjectId input) of
        Inl e \<Rightarrow> (Inl (StoreFailure e), s)
      | Inr (Some _) \<Rightarrow>
          (case readVerified sha store s (destinationObjectId input) (pi_expected input) of
             Inl _ \<Rightarrow> (Inl RepoConflict, s)
           | Inr _ \<Rightarrow> (Inr \<lparr>pr_expected = pi_expected input, pr_status = PRecovered\<rparr>, s))
      | Inr None \<Rightarrow>
          (case readVerified sha store s (sourceObjectId input) (pi_expected input) of
             Inl e \<Rightarrow> (Inl e, s)
           | Inr bytes \<Rightarrow> put_confirmed sha store s (destinationObjectId input) (pi_expected input) bytes))"

definition with_timeout :: "bool \<Rightarrow> (repo_error + 'a) \<times> 's \<Rightarrow> (repo_error + 'a) \<times> 's" where
  "with_timeout timed_out op = (if timed_out then (Inl RepoTimeout, snd op) else op)"

definition promoteStagedObject ::
  "(bytes \<Rightarrow> string) \<Rightarrow> 's store_ops \<Rightarrow> bool \<Rightarrow> 's \<Rightarrow> promotion_input
    \<Rightarrow> (repo_error + promotion_result) \<times> 's" where
  "promoteStagedObject sha store timed_out s input = with_timeout timed_out (promote_locked sha store s input)"

definition clean_locked ::
  "'s store_ops \<Rightarrow> repo_error + bool \<Rightarrow> 's \<Rightarrow> promotion_input \<Rightarrow> (repo_error + unit) \<times> 's" where
  "clean_locked store hasFinalizedManifest s input =
     (case hasFinalizedManifest of
        Inl e \<Rightarrow> (Inl e, s)
      | Inr finalized \<Rightarrow>
          (case so_delete store s (sourceObjectId input) of
             (Inl e, t) \<Rightarrow> (Inl (StoreFailure e), t)
           | (Inr _, t) \<Rightarrow>
               if finalized then (Inr (), t)
               else (case so_delete store t (destinationObjectId input) of
                       (Inl e, u) \<Rightarrow> (Inl (StoreFailure e), u)
                     | (Inr _, u) \<Rightarrow> (Inr (), u))))"

definition cleanStaging ::
  "'s store_ops \<Rightarrow> bool \<Rightarrow> repo_error + bool \<Rightarrow> 's \<Rightarrow> promotion_input \<Rightarrow> (repo_error + unit) \<times> 's" where
  "cleanStaging store timed_out hasFinalizedManifest s input =
     with_timeout timed_out (clean_locked store hasFinalizedManifest s input)"

definition replicate_object ::
  "(bytes \<Rightarrow> string) \<Rightarrow> 's store_ops \<Rightarrow> string \<Rightarrow> 's store_ops \<Rightarrow> string \<Rightarrow> 's \<Rightarrow> expected_object
    \<Rightarrow> (repo_error + promotion_result) \<times> 's" where
  "replicate_object sha sourceStore sourceId replicaStore replicaId s expected =
     (case readVerified sha sourceStore s sourceId expected of
        Inl e \<Rightarrow> (Inl e, s)
      | Inr bytes \<Rightarrow> put_confirmed sha replicaStore s replicaId expected bytes)"

definition replicateExact ::
  "(bytes \<Rightarrow> string) \<Rightarrow> bool \<Rightarrow> 's store_ops \<Rightarrow> string \<Rightarrow> 's store_ops \<Rightarrow> string \<Rightarrow> 's \<Rightarrow> expected_object
    \<Rightarrow> (repo_error + promotion_result) \<times> 's" where
  "replicateExact sha timed_out sourceStore sourceId replicaStore replicaId s expected =
     with_timeout timed_out (replicate_object sha sourceStore sourceId replicaStore replicaId s expected)"

record 's failover_input =
  fo_expected :: expected_object
  fo_critical :: bool
  fo_primary :: "string \<times> 's store_ops"
  fo_replica :: "(string \<times> 's store_ops) option"

definition fetch_object ::
  "(bytes \<Rightarrow> string) \<Rightarrow> 's \<Rightarrow> 's failover_input \<Rightarrow> repo_error + (bytes \<times> fetch_source)" where
  "fetch_object sha s input =
     (case readVerified sha (snd (fo_primary input)) s (fst (fo_primary input)) (fo_expected input) of
        Inr bytes \<Rightarrow> Inr (bytes, FromPrimary)
      | Inl _ \<Rightarrow>
          (case fo_replica input of
             None \<Rightarrow> Inl RepoUnavailable
           | Some (i, store) \<Rightarrow>
               if \<not> fo_critical input then Inl RepoUnavailable
               else (case readVerified sha store s i (fo_expected input) of
                       Inr bytes \<Rightarrow> Inr (bytes, FromReplica)
                     | Inl _ \<Rightarrow> Inl RepoUnavailable)))"

definition fetchWithFailover ::
  "(bytes \<Rightarrow> string) \<Rightarrow> bool \<Rightarrow> 's \<Rightarrow> 's failover_input \<Rightarrow> repo_error + (bytes \<times> fetch_source)" where
  "fetchWithFailover sha timed_out s input = fst (with_timeout timed_out (fetch_object sha s input, s))"

text \<open>\<open>assertStagingLifecycleProfile\<close>. A duration is \<open>None\<close> when it is not a safe integer.\<close>

record staging_profile =
  maxPreparationMaterializationSeconds :: int
  maxDescriptorLifetimeSeconds :: int
  maxFinalizationSeconds :: int
  maxCleanupRecoverySeconds :: int
  maxClockSkewSeconds :: int
  nativeStagingTtlSeconds :: int

definition staging_values :: "staging_profile \<Rightarrow> int list" where
  "staging_values p = [maxPreparationMaterializationSeconds p, maxDescriptorLifetimeSeconds p,
     maxFinalizationSeconds p, maxCleanupRecoverySeconds p, maxClockSkewSeconds p, nativeStagingTtlSeconds p]"

datatype profile_error = DurationRange | TtlRange

definition assertStagingLifecycleProfile :: "staging_profile \<Rightarrow> profile_error + unit" where
  "assertStagingLifecycleProfile p =
     rbind (check (list_ex (\<lambda>v. \<not> (\<bar>v\<bar> \<le> max_safe_integer) \<or> v < 0) (staging_values p)) DurationRange) (\<lambda>_.
     check (nativeStagingTtlSeconds p \<le> maxPreparationMaterializationSeconds p + maxDescriptorLifetimeSeconds p
        + maxFinalizationSeconds p + maxCleanupRecoverySeconds p + maxClockSkewSeconds p) TtlRange)"

subsection \<open>Reading and writing through the contract\<close>

lemma read_chunks_eq:
  "read_chunks maximum len cs =
     (if len + length (concat cs) \<le> maximum \<or> cs = [] then Inr (concat cs) else Inl IntegrityMismatch)"
proof (induction cs arbitrary: len)
  case (Cons c cs)
  then show ?case by (cases "len + length c > maximum") auto
qed simp

definition matches :: "(bytes \<Rightarrow> string) \<Rightarrow> expected_object \<Rightarrow> bytes \<Rightarrow> bool" where
  "matches sha e b = (length b = exp_length e \<and> sha b = exp_digest e)"

context object_store
begin

lemma restricted: "object_store ops obj (\<lambda>s. wf s \<and> c) limit"
proof
  fix s i cs b
  show "so_head ops s i = Inr (map_option length (obj s i))" if "wf s \<and> c" "base64Url32_ok i"
    using that head by simp
  show "\<exists>cs. so_get ops s i = Inr cs \<and> concat cs = (case obj s i of None \<Rightarrow> [] | Some b \<Rightarrow> b)"
    if "wf s \<and> c" "base64Url32_ok i" using that get by simp
  show "\<exists>t. so_put ops s i cs = (Inr \<lparr>put_length = length (concat cs), put_status = Created\<rparr>, t)
      \<and> (wf t \<and> c) \<and> obj t = (obj s)(i \<mapsto> concat cs)"
    if "wf s \<and> c" "base64Url32_ok i" "obj s i = None" "length (concat cs) \<le> limit"
    using put_new [of s i cs] that by auto
  show "so_put ops s i cs = (Inr \<lparr>put_length = length b, put_status = Exists\<rparr>, s)"
    if "wf s \<and> c" "base64Url32_ok i" "obj s i = Some b" using put_exists that by simp
  show "\<exists>t. so_put ops s i cs = (Inl ObjectTooLarge, t) \<and> (wf t \<and> c) \<and> obj t = obj s"
    if "wf s \<and> c" "base64Url32_ok i" "obj s i = None" "limit < length (concat cs)"
    using put_large [of s i cs] that by auto
  show "\<exists>t. so_delete ops s i = (Inr (obj s i \<noteq> None), t) \<and> (wf t \<and> c) \<and> obj t = (obj s)(i := None)"
    if "wf s \<and> c" "base64Url32_ok i" using delete [of s i] that by auto
qed (rule invalid)

lemma readVerified_eq:
  assumes "wf s"
  shows "readVerified sha ops s i e =
    (if \<not> base64Url32_ok i then Inl (StoreFailure InvalidObjectId)
     else case obj s i of None \<Rightarrow> Inl RepoUnavailable
       | Some b \<Rightarrow> if matches sha e b then Inr b else Inl IntegrityMismatch)"
proof (cases "base64Url32_ok i")
  case True
  obtain cs where cs: "so_get ops s i = Inr cs" "concat cs = (case obj s i of None \<Rightarrow> [] | Some b \<Rightarrow> b)"
    using get [OF assms True] by blast
  show ?thesis
    using True cs head [OF assms True] unfolding readVerified_def matches_def
    by (cases "obj s i"; cases "exp_length e = length (concat cs)") (auto simp: read_chunks_eq)
next
  case False
  then show ?thesis using invalid [OF False, of s] by (simp add: readVerified_def)
qed

lemma readVerified_Inr_iff:
  "wf s \<Longrightarrow> readVerified sha ops s i e = Inr b \<longleftrightarrow> base64Url32_ok i \<and> obj s i = Some b \<and> matches sha e b"
  by (auto simp: readVerified_eq split: option.splits)

lemma put_confirmed_frame:
  assumes "wf s" and "put_confirmed sha ops s i e b = (r, t)"
  shows "wf t \<and> (obj t = obj s \<or> (base64Url32_ok i \<and> obj s i = None \<and> obj t = (obj s)(i \<mapsto> b)))"
proof -
  obtain r' where "so_put ops s i [b] = (r', t)"
    using assms(2) by (auto simp: put_confirmed_def split: prod.splits sum.splits)
  from put_frame [OF assms(1) this] show ?thesis by simp
qed

lemma put_confirmed_eq:
  assumes s: "wf s" and i: "base64Url32_ok i" and b: "matches sha e b" "length b \<le> limit"
  shows "\<exists>t. put_confirmed sha ops s i e b =
      (case obj s i of None \<Rightarrow> (Inr \<lparr>pr_expected = e, pr_status = PCreated\<rparr>, t)
       | Some c \<Rightarrow> (if matches sha e c then Inr \<lparr>pr_expected = e, pr_status = PRecovered\<rparr> else Inl RepoConflict, t))
    \<and> wf t \<and> obj t = (if obj s i = None then (obj s)(i \<mapsto> b) else obj s)"
proof (cases "obj s i")
  case None
  obtain t where "so_put ops s i [b] = (Inr \<lparr>put_length = length b, put_status = Created\<rparr>, t)"
    "wf t" "obj t = (obj s)(i \<mapsto> b)"
    using put_new [OF s i None, of "[b]"] b by auto
  then show ?thesis using None i b by (simp add: put_confirmed_def confirm_put_def readVerified_eq)
next
  case (Some c)
  then show ?thesis using put_exists [OF s i Some, of "[b]"] s i
    by (simp add: put_confirmed_def confirm_put_def readVerified_eq)
qed

lemma put_confirmed_Inr:
  assumes "wf s" and "put_confirmed sha ops s i e b = (Inr p, t)"
  shows "base64Url32_ok i \<and> pr_expected p = e \<and> (\<exists>c. obj t i = Some c \<and> matches sha e c)"
proof -
  have "wf t" using put_confirmed_frame [OF assms] by simp
  then show ?thesis
    using assms(2)
    by (auto simp: put_confirmed_def confirm_put_def readVerified_Inr_iff split: prod.splits sum.splits)
qed

text \<open>
  A promotion as a whole: what it returns and what it leaves, when the staged object is the expected
  one.
\<close>

lemma promote_eq:
  assumes s: "wf s" and ids: "base64Url32_ok (sourceObjectId p)" "base64Url32_ok (destinationObjectId p)"
    and src: "obj s (sourceObjectId p) = Some b" "matches sha (pi_expected p) b" "length b \<le> limit"
  shows "\<exists>t. promote_locked sha ops s p =
      (case obj s (destinationObjectId p) of None \<Rightarrow> (Inr \<lparr>pr_expected = pi_expected p, pr_status = PCreated\<rparr>, t)
       | Some c \<Rightarrow> (if matches sha (pi_expected p) c
            then Inr \<lparr>pr_expected = pi_expected p, pr_status = PRecovered\<rparr> else Inl RepoConflict, t))
    \<and> wf t \<and> obj t = (if obj s (destinationObjectId p) = None then (obj s)(destinationObjectId p \<mapsto> b) else obj s)"
proof (cases "obj s (destinationObjectId p)")
  case None
  then show ?thesis using put_confirmed_eq [OF s ids(2) src(2,3)] s ids src
    by (auto simp: promote_locked_def head readVerified_eq)
next
  case (Some c)
  then show ?thesis using s ids by (simp add: promote_locked_def head readVerified_eq)
qed

text \<open>Whatever a promotion meets, it keeps every object, and success means the destination verifies.\<close>

lemma promote_safe:
  assumes "wf s" and "promote_locked sha ops s p = (r, t)"
  shows "wf t \<and> (\<forall>j c. obj s j = Some c \<longrightarrow> obj t j = Some c)
    \<and> (\<forall>q. r = Inr q \<longrightarrow> (\<exists>c. obj t (destinationObjectId p) = Some c \<and> matches sha (pi_expected p) c))"
proof (cases "so_head ops s (destinationObjectId p)")
  case (Inl e)
  then show ?thesis using assms by (auto simp: promote_locked_def)
next
  case (Inr h)
  show ?thesis
  proof (cases h)
    case (Some n)
    then show ?thesis using assms Inr
      by (auto simp: promote_locked_def readVerified_Inr_iff split: sum.splits)
  next
    case None
    show ?thesis
    proof (cases "readVerified sha ops s (sourceObjectId p) (pi_expected p)")
      case (Inl e)
      then show ?thesis using assms Inr None by (auto simp: promote_locked_def)
    next
      case b: (Inr b)
      then have put: "put_confirmed sha ops s (destinationObjectId p) (pi_expected p) b = (r, t)"
        using assms(2) Inr None by (simp add: promote_locked_def)
      have "r = Inr q \<Longrightarrow> \<exists>c. obj t (destinationObjectId p) = Some c \<and> matches sha (pi_expected p) c" for q
        using put_confirmed_Inr [OF assms(1), of sha _ _ b q t] put by blast
      then show ?thesis using put_confirmed_frame [OF assms(1) put] by (auto split: if_splits)
    qed
  qed
qed

lemma clean_eq:
  assumes s: "wf s" and ids: "base64Url32_ok (sourceObjectId p)" "base64Url32_ok (destinationObjectId p)"
  shows "\<exists>t. clean_locked ops (Inr finalized) s p = (Inr (), t) \<and> wf t
    \<and> obj t = (\<lambda>j. if j = sourceObjectId p \<or> (\<not> finalized \<and> j = destinationObjectId p) then None else obj s j)"
proof -
  obtain t where t: "so_delete ops s (sourceObjectId p) = (Inr (obj s (sourceObjectId p) \<noteq> None), t)" "wf t"
    "obj t = (obj s)(sourceObjectId p := None)"
    using delete [OF s ids(1)] by blast
  obtain u where "so_delete ops t (destinationObjectId p) = (Inr (obj t (destinationObjectId p) \<noteq> None), u)" "wf u"
    "obj u = (obj t)(destinationObjectId p := None)"
    using delete [OF t(2) ids(2)] by blast
  then show ?thesis using t by (cases finalized) (auto simp: clean_locked_def fun_eq_iff)
qed

end

text \<open>
  Two stores on one world, of which a write to the second leaves the objects of the first alone: the
  setting of replication.
\<close>

locale replicated = src: object_store ops1 obj1 wf1 limit1 + rep: object_store ops2 obj2 wf2 limit2
  for ops1 :: "'s store_ops" and obj1 wf1 limit1 and ops2 :: "'s store_ops" and obj2 wf2 limit2 +
  assumes apart: "wf1 s \<Longrightarrow> wf2 s \<Longrightarrow> so_put ops2 s i cs = (r, t) \<Longrightarrow> wf1 t \<and> obj1 t = obj1 s"
begin

lemma replicate_Inr:
  assumes "wf1 s" and "wf2 s" and "replicate_object sha ops1 i ops2 j s e = (Inr p, t)"
  shows "obj1 t = obj1 s \<and> (\<exists>b c. obj1 t i = Some b \<and> obj2 t j = Some c \<and> matches sha e b \<and> matches sha e c)"
proof -
  obtain b where b: "readVerified sha ops1 s i e = Inr b" and put: "put_confirmed sha ops2 s j e b = (Inr p, t)"
    using assms(3) by (auto simp: replicate_object_def split: sum.splits)
  obtain r where "so_put ops2 s j [b] = (r, t)"
    using put by (auto simp: put_confirmed_def split: prod.splits sum.splits)
  then have "obj1 t = obj1 s" using apart [OF assms(1,2)] by blast
  with b put rep.put_confirmed_Inr [OF assms(2) put] src.readVerified_Inr_iff [OF assms(1)] show ?thesis by auto
qed

text \<open>After a replication, a critical read succeeds as long as one of the two copies is intact.\<close>

lemma fetch_Inr:
  assumes "wf1 s" and "wf2 s" and "fo_primary f = (i, ops1)" and "fo_replica f = Some (j, ops2)"
    and "fetch_object sha s f = Inr (b, from)"
  shows "matches sha (fo_expected f) b \<and>
    (case from of FromPrimary \<Rightarrow> obj1 s i = Some b | FromReplica \<Rightarrow> fo_critical f \<and> obj2 s j = Some b)"
  using assms(3-) by (auto simp: fetch_object_def src.readVerified_Inr_iff [OF assms(1)] rep.readVerified_Inr_iff [OF assms(2)]
      split: sum.splits if_splits)

lemma fetch_available:
  assumes "wf1 s" and "wf2 s" and "fo_primary f = (i, ops1)" and "fo_replica f = Some (j, ops2)"
    and "base64Url32_ok i" and "base64Url32_ok j" and "fo_critical f"
    and "(\<exists>b. obj1 s i = Some b \<and> matches sha (fo_expected f) b)
      \<or> (\<exists>b. obj2 s j = Some b \<and> matches sha (fo_expected f) b)"
  shows "\<exists>b from. fetch_object sha s f = Inr (b, from) \<and> matches sha (fo_expected f) b"
  using assms(3-) by (auto simp: fetch_object_def src.readVerified_eq [OF assms(1)] rep.readVerified_eq [OF assms(2)]
      split: sum.splits if_splits option.splits)

end

text \<open>Memory stores of two organisations on one backend are such a pair.\<close>

definition stores_apart :: "memory_store \<Rightarrow> memory_store \<Rightarrow> bool" where
  "stores_apart m1 m2 = (length (ms_prefix m1) = length (ms_prefix m2) \<and> ms_prefix m1 \<noteq> ms_prefix m2)"

lemma stores_apart_organizations:
  assumes "forOrganization org1 n1 = Inr m1" and "forOrganization org2 n2 = Inr m2" and "org1 \<noteq> org2"
  shows "stores_apart m1 m2"
proof -
  obtain k1 k2 where k: "namespaceKey org1 = Inr k1" "namespaceKey org2 = Inr k2"
    and m: "ms_prefix m1 = k1 @ '':''" "ms_prefix m2 = k2 @ '':''"
    using assms by (auto simp: forOrganization_def outcome_simps)
  then show ?thesis
    using namespaceKey_Inr [OF k(1)] namespaceKey_Inr [OF k(2)] assms(3) uuid_length
    by (auto simp: stores_apart_def)
qed

lemma memory_put_apart:
  assumes "stores_apart m1 m2" and "so_put (memory_ops m2) s i cs = (r, t)"
  shows "memory_obj m1 t = memory_obj m1 s"
proof -
  have ne: "ms_prefix m1 @ j \<noteq> ms_prefix m2 @ i" for j using assms(1) by (auto simp: stores_apart_def)
  show ?thesis
    using assms(2) ne
    by (cases "base64Url32_ok i")
      (auto simp: memory_ops_def memory_putIfAbsent_def memory_put_begin_def memory_put_finish_def memory_key_ok
        memory_key_bad memory_obj_def jm_simps fun_eq_iff split: option.splits sum.splits)
qed

interpretation memories: replicated "memory_ops m1" "memory_obj m1" "\<lambda>_. stores_apart m1 m2" "ms_maxObjectBytes m1"
    "memory_ops m2" "memory_obj m2" "\<lambda>_. stores_apart m1 m2" "ms_maxObjectBytes m2" for m1 m2
proof (intro replicated.intro replicated_axioms.intro)
  show "object_store (memory_ops m1) (memory_obj m1) (\<lambda>_. stores_apart m1 m2) (ms_maxObjectBytes m1)"
    "object_store (memory_ops m2) (memory_obj m2) (\<lambda>_. stores_apart m1 m2) (ms_maxObjectBytes m2)"
    using memory.restricted [of m1 "stores_apart m1 m2"] memory.restricted [of m2 "stores_apart m1 m2"] by simp_all
  show "stores_apart m1 m2 \<and> memory_obj m1 t = memory_obj m1 s"
    if "stores_apart m1 m2" "so_put (memory_ops m2) s i cs = (r, t)" for s i cs r t
    using memory_put_apart [OF that] that(1) by simp
qed

end
