(* ===== verification/Lock_Queue.thy ===== *)
theory Lock_Queue
  imports Prelude
begin

text \<open>
  \<open>withLock\<close> of \<open>src/protected-bundles/repository/object-operations.ts\<close>: callers of one key queue up
  behind a chain of promises. A call takes a ticket; the map \<open>#locks\<close> holds the last ticket of a key,
  which stands for its promise \<open>tail\<close>. \<open>tail\<close> resolves once the previous one has resolved and the gate of
  the ticket is released. \<open>lock_step\<close> interleaves the calls in any order; the lemmas show mutual
  exclusion in the order of arrival, and that a queue is never stuck.
\<close>

datatype lock_phase = Waiting | Running | Released

record ticket =
  tk_key :: string
  tk_previous :: "nat option"
  tk_phase :: lock_phase

record lock_state =
  lk_locks :: "(string, nat) jmap"
  lk_tickets :: "ticket list"

definition no_locks :: lock_state where
  "no_locks = \<lparr>lk_locks = [], lk_tickets = []\<rparr>"

definition lock_enter :: "string \<Rightarrow> lock_state \<Rightarrow> lock_state" where
  "lock_enter k s = s\<lparr>
     lk_tickets := lk_tickets s @ [\<lparr>tk_key = k, tk_previous = jm_get (lk_locks s) k, tk_phase = Waiting\<rparr>],
     lk_locks := jm_set k (length (lk_tickets s)) (lk_locks s)\<rparr>"

function tail_resolved :: "ticket list \<Rightarrow> nat \<Rightarrow> bool" where
  "tail_resolved ts n = (n < length ts \<and> tk_phase (ts ! n) = Released
     \<and> (case tk_previous (ts ! n) of None \<Rightarrow> True | Some p \<Rightarrow> if p < n then tail_resolved ts p else False))"
  by pat_completeness auto

termination
  by (relation "measure snd") auto

declare tail_resolved.simps [simp del]

definition may_run :: "lock_state \<Rightarrow> nat \<Rightarrow> bool" where
  "may_run s n = (n < length (lk_tickets s) \<and> tk_phase (lk_tickets s ! n) = Waiting
     \<and> (case tk_previous (lk_tickets s ! n) of None \<Rightarrow> True | Some p \<Rightarrow> tail_resolved (lk_tickets s) p))"

definition set_phase :: "lock_phase \<Rightarrow> nat \<Rightarrow> lock_state \<Rightarrow> lock_state" where
  "set_phase ph n s = s\<lparr>lk_tickets := (lk_tickets s)[n := (lk_tickets s ! n)\<lparr>tk_phase := ph\<rparr>]\<rparr>"

definition lock_release :: "nat \<Rightarrow> lock_state \<Rightarrow> lock_state" where
  "lock_release n s =
     (let t = set_phase Released n s; k = tk_key (lk_tickets s ! n) in
      if jm_get (lk_locks t) k = Some n then t\<lparr>lk_locks := jm_del k (lk_locks t)\<rparr> else t)"

inductive lock_step :: "lock_state \<Rightarrow> lock_state \<Rightarrow> bool" where
  enter: "lock_step s (lock_enter k s)"
| run: "may_run s n \<Longrightarrow> lock_step s (set_phase Running n s)"
| finish: "n < length (lk_tickets s) \<Longrightarrow> tk_phase (lk_tickets s ! n) = Running \<Longrightarrow> lock_step s (lock_release n s)"

inductive_cases lock_stepE: "lock_step s t"

abbreviation lock_reachable :: "lock_state \<Rightarrow> bool" where
  "lock_reachable s \<equiv> lock_step\<^sup>*\<^sup>* no_locks s"

subsection \<open>The invariant of the queue\<close>

definition same_key :: "lock_state \<Rightarrow> nat \<Rightarrow> nat \<Rightarrow> bool" where
  "same_key s i j = (i < length (lk_tickets s) \<and> j < length (lk_tickets s)
     \<and> tk_key (lk_tickets s ! i) = tk_key (lk_tickets s ! j))"

abbreviation phase_of :: "lock_state \<Rightarrow> nat \<Rightarrow> lock_phase" where
  "phase_of s n \<equiv> tk_phase (lk_tickets s ! n)"

definition locks_last :: "lock_state \<Rightarrow> bool" where
  "locks_last s = (\<forall>k n. jm_get (lk_locks s) k = Some n \<longrightarrow>
     n < length (lk_tickets s) \<and> tk_key (lk_tickets s ! n) = k \<and> (\<forall>i. same_key s i n \<longrightarrow> i \<le> n))"

definition unlocked_released :: "lock_state \<Rightarrow> bool" where
  "unlocked_released s = (\<forall>i < length (lk_tickets s).
     jm_get (lk_locks s) (tk_key (lk_tickets s ! i)) = None \<longrightarrow> phase_of s i = Released)"

definition chained :: "lock_state \<Rightarrow> bool" where
  "chained s = (\<forall>j < length (lk_tickets s). case tk_previous (lk_tickets s ! j) of
     None \<Rightarrow> (\<forall>i < j. same_key s i j \<longrightarrow> phase_of s i = Released)
   | Some p \<Rightarrow> p < j \<and> same_key s p j \<and> (\<forall>i < j. same_key s i j \<longrightarrow> i \<le> p))"

definition fifo :: "lock_state \<Rightarrow> bool" where
  "fifo s = (\<forall>i j. i < j \<longrightarrow> same_key s i j \<longrightarrow> phase_of s j \<noteq> Waiting \<longrightarrow> phase_of s i = Released)"

definition lock_inv :: "lock_state \<Rightarrow> bool" where
  "lock_inv s = (locks_last s \<and> unlocked_released s \<and> chained s \<and> fifo s)"

lemmas lock_inv_defs = locks_last_def unlocked_released_def chained_def fifo_def

lemma lock_inv_start: "lock_inv no_locks"
  by (simp add: lock_inv_def lock_inv_defs no_locks_def same_key_def)

lemma same_key_set_phase [simp]: "same_key (set_phase ph n s) i j = same_key s i j"
  by (cases "n < length (lk_tickets s)") (auto simp: same_key_def set_phase_def nth_list_update)

lemma set_phase_fields [simp]:
  "length (lk_tickets (set_phase ph n s)) = length (lk_tickets s)"
  "lk_locks (set_phase ph n s) = lk_locks s"
  "tk_key (lk_tickets (set_phase ph n s) ! i) = tk_key (lk_tickets s ! i)"
  "tk_previous (lk_tickets (set_phase ph n s) ! i) = tk_previous (lk_tickets s ! i)"
  "n < length (lk_tickets s) \<Longrightarrow> phase_of (set_phase ph n s) i = (if i = n then ph else phase_of s i)"
proof -
  show "tk_key (lk_tickets (set_phase ph n s) ! i) = tk_key (lk_tickets s ! i)"
    by (cases "n < length (lk_tickets s)"; cases "i = n") (auto simp: set_phase_def list_update_beyond)
  show "tk_previous (lk_tickets (set_phase ph n s) ! i) = tk_previous (lk_tickets s ! i)"
    by (cases "n < length (lk_tickets s)"; cases "i = n") (auto simp: set_phase_def list_update_beyond)
qed (simp_all add: set_phase_def nth_list_update)

lemma lock_enter_old:
  "i < length (lk_tickets s) \<Longrightarrow> lk_tickets (lock_enter k s) ! i = lk_tickets s ! i"
  by (simp add: lock_enter_def nth_append)

lemma lock_enter_new:
  "lk_tickets (lock_enter k s) ! length (lk_tickets s)
     = \<lparr>tk_key = k, tk_previous = jm_get (lk_locks s) k, tk_phase = Waiting\<rparr>"
  "length (lk_tickets (lock_enter k s)) = Suc (length (lk_tickets s))"
  "lk_locks (lock_enter k s) = jm_set k (length (lk_tickets s)) (lk_locks s)"
  by (simp_all add: lock_enter_def)

lemma same_key_enter:
  "same_key (lock_enter k s) i j \<longleftrightarrow>
     (if i < length (lk_tickets s) \<and> j < length (lk_tickets s) then same_key s i j
      else i \<le> length (lk_tickets s) \<and> j \<le> length (lk_tickets s)
        \<and> (i < length (lk_tickets s) \<longrightarrow> tk_key (lk_tickets s ! i) = k)
        \<and> (j < length (lk_tickets s) \<longrightarrow> tk_key (lk_tickets s ! j) = k))"
  by (auto simp: same_key_def lock_enter_old lock_enter_new less_Suc_eq_le le_less)

lemma lock_enter_inv:
  assumes "lock_inv s"
  shows "lock_inv (lock_enter k s)"
proof -
  let ?t = "lock_enter k s" and ?n = "length (lk_tickets s)"
  have inv: "locks_last s" "unlocked_released s" "chained s" "fifo s" using assms by (auto simp: lock_inv_def)
  have "locks_last ?t"
    using inv(1) by (auto simp: locks_last_def lock_enter_new lock_enter_old jm_simps same_key_enter)
      (auto simp: less_Suc_eq lock_enter_old)
  moreover have "unlocked_released ?t"
    using inv(2) by (auto simp: unlocked_released_def lock_enter_new lock_enter_old jm_simps less_Suc_eq split: if_splits)
  moreover have "chained ?t"
    unfolding chained_def
  proof (intro allI impI)
    fix j assume j: "j < length (lk_tickets ?t)"
    show "case tk_previous (lk_tickets ?t ! j) of
        None \<Rightarrow> (\<forall>i < j. same_key ?t i j \<longrightarrow> phase_of ?t i = Released)
      | Some p \<Rightarrow> p < j \<and> same_key ?t p j \<and> (\<forall>i < j. same_key ?t i j \<longrightarrow> i \<le> p)"
    proof (cases "j = ?n")
      case True
      show ?thesis
      proof (cases "jm_get (lk_locks s) k")
        case None
        then show ?thesis using inv(2) True
          by (auto simp: lock_enter_new lock_enter_old same_key_enter unlocked_released_def)
      next
        case (Some p)
        then have "p < ?n" "tk_key (lk_tickets s ! p) = k" "\<forall>i. same_key s i p \<longrightarrow> i \<le> p"
          using inv(1) by (auto simp: locks_last_def)
        then show ?thesis using Some True by (auto simp: lock_enter_new same_key_enter) (auto simp: same_key_def)
      qed
    next
      case False
      then have "j < ?n" using j by (simp add: lock_enter_new)
      with inv(3) show ?thesis
        unfolding chained_def
        by (auto simp: lock_enter_old same_key_enter split: option.splits)
    qed
  qed
  moreover have "fifo ?t"
    using inv(4) by (auto simp: fifo_def same_key_enter lock_enter_new lock_enter_old split: if_splits)
  ultimately show ?thesis by (simp add: lock_inv_def)
qed

lemma same_key_locks [simp]: "same_key (s\<lparr>lk_locks := l\<rparr>) i j = same_key s i j"
  by (simp add: same_key_def)

lemma queue_locks: "chained (s\<lparr>lk_locks := l\<rparr>) = chained s" "fifo (s\<lparr>lk_locks := l\<rparr>) = fifo s"
  by (simp_all add: chained_def fifo_def cong: option.case_cong)

lemma run_keeps_inv:
  assumes "lock_inv s" and "may_run s n"
  shows "lock_inv (set_phase Running n s)"
proof -
  have inv: "locks_last s" "unlocked_released s" "chained s" "fifo s" using assms by (auto simp: lock_inv_def)
  have n: "n < length (lk_tickets s)" "phase_of s n = Waiting" using assms(2) by (auto simp: may_run_def)
  have first: "phase_of s i = Released" if i: "i < n" "same_key s i n" for i
  proof (cases "tk_previous (lk_tickets s ! n)")
    case None
    then show ?thesis using inv(3) n i by (auto simp: chained_def)
  next
    case (Some p)
    then have p: "same_key s p n" "i \<le> p" using inv(3) n i by (auto simp: chained_def)
    have "phase_of s p = Released" using assms(2) Some by (simp add: may_run_def tail_resolved.simps)
    moreover have "same_key s i p" using p i by (simp add: same_key_def)
    ultimately show ?thesis using inv(4) p by (cases "i = p") (auto simp: fifo_def dest: le_neq_implies_less)
  qed
  have old: "n \<noteq> i" if "phase_of s i = Released" for i using n that by auto
  have late: "phase_of s j = Waiting" if "n < j" "same_key s n j" for j
    using inv(4) that n by (force simp: fifo_def)
  show ?thesis
    using inv(1-3) n old unfolding lock_inv_def
  proof (intro conjI)
    show "fifo (set_phase Running n s)" using inv(4) n first late old by (auto simp: fifo_def)
  qed (auto simp: locks_last_def unlocked_released_def chained_def split: option.splits)
qed

lemma release_keeps_inv:
  assumes "lock_inv s" and n: "n < length (lk_tickets s)" "phase_of s n = Running"
  shows "lock_inv (lock_release n s)"
proof -
  let ?t = "set_phase Released n s" and ?k = "tk_key (lk_tickets s ! n)"
  have inv: "locks_last s" "unlocked_released s" "chained s" "fifo s" using assms by (auto simp: lock_inv_def)
  have t: "locks_last ?t" "unlocked_released ?t" "chained ?t" "fifo ?t"
    using inv n by (auto simp: locks_last_def unlocked_released_def chained_def fifo_def split: option.splits)
  show ?thesis
  proof (cases "jm_get (lk_locks s) ?k = Some n")
    case True
    let ?u = "?t\<lparr>lk_locks := jm_del ?k (lk_locks s)\<rparr>"
    have released: "phase_of ?t i = Released" if i: "i < length (lk_tickets s)" "tk_key (lk_tickets s ! i) = ?k" for i
    proof (cases "i = n")
      case False
      have "same_key s i n" using i n by (simp add: same_key_def)
      moreover from this have "i \<le> n" using inv(1) True by (auto simp: locks_last_def)
      ultimately show ?thesis using inv(4) n False by (auto simp: fifo_def dest: le_neq_implies_less)
    qed (simp add: n)
    have "locks_last ?u" using t(1) by (auto simp: locks_last_def jm_simps)
    moreover have "unlocked_released ?u"
      unfolding unlocked_released_def
    proof (intro allI impI)
      fix i assume i: "i < length (lk_tickets ?u)" "jm_get (lk_locks ?u) (tk_key (lk_tickets ?u ! i)) = None"
      then show "phase_of ?u i = Released"
        using t(2) released [of i] by (cases "tk_key (lk_tickets s ! i) = ?k") (auto simp: unlocked_released_def jm_simps)
    qed
    ultimately have "lock_inv ?u" using t by (simp add: lock_inv_def queue_locks)
    then show ?thesis using True n by (simp add: lock_release_def Let_def)
  next
    case False
    then show ?thesis using t n by (simp add: lock_release_def Let_def lock_inv_def)
  qed
qed

lemma lock_inv_step: "lock_step s t \<Longrightarrow> lock_inv s \<Longrightarrow> lock_inv t"
  by (induction rule: lock_step.induct) (auto intro: lock_enter_inv run_keeps_inv release_keeps_inv)

lemma lock_inv_reachable: "lock_reachable s \<Longrightarrow> lock_inv s"
  by (induction rule: rtranclp_induct) (auto intro: lock_inv_start lock_inv_step)

subsection \<open>Mutual exclusion and progress\<close>

lemma at_most_one_running:
  assumes "lock_reachable s" and "same_key s i j" and "phase_of s i = Running" and "phase_of s j = Running"
  shows "i = j"
proof (rule ccontr)
  have f: "fifo s" using lock_inv_reachable [OF assms(1)] by (simp add: lock_inv_def)
  have "same_key s j i" using assms(2) by (simp add: same_key_def)
  moreover assume "i \<noteq> j"
  then have "i < j \<or> j < i" by auto
  ultimately show False using f assms by (auto simp: fifo_def)
qed

text \<open>A released ticket's tail has resolved: every ticket before it in its queue was released.\<close>

lemma released_resolved:
  assumes "lock_inv s" and "n < length (lk_tickets s)" and "phase_of s n = Released"
  shows "tail_resolved (lk_tickets s) n"
  using assms(2,3)
proof (induction n rule: less_induct)
  case (less n)
  have inv: "chained s" "fifo s" using assms(1) by (auto simp: lock_inv_def)
  show ?case
  proof (cases "tk_previous (lk_tickets s ! n)")
    case None
    then show ?thesis using less.prems by (subst tail_resolved.simps) simp
  next
    case (Some p)
    then have p: "p < n" "same_key s p n" using inv(1) less.prems by (auto simp: chained_def)
    then have "phase_of s p = Released" using inv(2) less.prems by (auto simp: fifo_def)
    then have "tail_resolved (lk_tickets s) p" using less.IH p by (simp add: same_key_def)
    then show ?thesis using Some p less.prems by (subst tail_resolved.simps) simp
  qed
qed

text \<open>As long as a call waits, a call of its key runs or may start running.\<close>

lemma lock_progress:
  assumes r: "lock_reachable s" and n: "n < length (lk_tickets s)" "phase_of s n = Waiting"
  shows "\<exists>m. same_key s m n \<and> m \<le> n \<and> (phase_of s m = Running \<or> may_run s m)"
proof -
  note inv = lock_inv_reachable [OF r]
  define m where "m = (LEAST i. same_key s i n \<and> phase_of s i \<noteq> Released)"
  have n': "same_key s n n \<and> phase_of s n \<noteq> Released" using n by (simp add: same_key_def)
  then have m: "same_key s m n" "phase_of s m \<noteq> Released" "m \<le> n"
    using LeastI [of "\<lambda>i. same_key s i n \<and> phase_of s i \<noteq> Released", OF n'] Least_le [of "\<lambda>i. same_key s i n \<and> phase_of s i \<noteq> Released", OF n']
    by (simp_all add: m_def)
  have early: "phase_of s i = Released" if "i < m" "same_key s i m" for i
    using not_less_Least [of i "\<lambda>i. same_key s i n \<and> phase_of s i \<noteq> Released"] that m(1)
    by (auto simp: m_def same_key_def)
  have len: "m < length (lk_tickets s)" using m(1) by (simp add: same_key_def)
  have "may_run s m" if w: "phase_of s m = Waiting"
  proof (cases "tk_previous (lk_tickets s ! m)")
    case None
    then show ?thesis using w len by (simp add: may_run_def)
  next
    case (Some p)
    then have p: "p < m" "same_key s p m" using inv len by (auto simp: lock_inv_def chained_def)
    then have "tail_resolved (lk_tickets s) p"
      using released_resolved [OF inv] early by (simp add: same_key_def)
    then show ?thesis using w len Some by (simp add: may_run_def)
  qed
  then show ?thesis using m by (cases "phase_of s m") auto
qed

text \<open>
  Running and releasing the calls before it, without any new call, brings a waiting call to run.
\<close>

lemma release_fields:
  "length (lk_tickets (lock_release n s)) = length (lk_tickets s)"
  "same_key (lock_release n s) i j = same_key s i j"
  "n < length (lk_tickets s) \<Longrightarrow> phase_of (lock_release n s) i = (if i = n then Released else phase_of s i)"
  by (simp_all add: lock_release_def Let_def)

definition ahead :: "lock_state \<Rightarrow> nat \<Rightarrow> nat set" where
  "ahead s n = {i. i < n \<and> same_key s i n \<and> phase_of s i \<noteq> Released}"

lemma ahead_release:
  assumes "m < n" and "same_key s m n" and "phase_of s m \<noteq> Released"
    and "\<And>i. i \<noteq> m \<Longrightarrow> phase_of t i = phase_of s i" and "\<And>i. same_key t i n = same_key s i n"
  shows "card (ahead (lock_release m t) n) < card (ahead s n)"
proof (rule psubset_card_mono)
  show "finite (ahead s n)" by (simp add: ahead_def)
  have "m < length (lk_tickets t)" using assms(2) assms(5) [of m] by (simp add: same_key_def)
  then have "phase_of (lock_release m t) i = (if i = m then Released else phase_of s i)" for i
    using assms(4) [of i] by (simp add: release_fields)
  then have "ahead (lock_release m t) n = ahead s n - {m}"
    using assms(5) by (auto simp: ahead_def release_fields)
  moreover have "m \<in> ahead s n" using assms(1-3) by (simp add: ahead_def)
  ultimately show "ahead (lock_release m t) n \<subset> ahead s n" by blast
qed

lemma lock_can_run:
  assumes "lock_reachable s" and "n < length (lk_tickets s)" and "phase_of s n = Waiting"
  shows "\<exists>t. lock_step\<^sup>*\<^sup>* s t \<and> length (lk_tickets t) = length (lk_tickets s) \<and> phase_of t n = Running"
  using assms
proof (induction "card (ahead s n)" arbitrary: s rule: less_induct)
  case less
  obtain m where m: "same_key s m n" "m \<le> n" "phase_of s m = Running \<or> may_run s m"
    using lock_progress [OF less.prems] by blast
  have len: "m < length (lk_tickets s)" using m(1) by (simp add: same_key_def)
  show ?case
  proof (cases "m = n")
    case True
    then have "may_run s n" using m(3) less.prems by auto
    then have "lock_step s (set_phase Running n s)" by (rule lock_step.run)
    then show ?thesis using less.prems by (intro exI [of _ "set_phase Running n s"]) auto
  next
    case False
    define t where "t = (if phase_of s m = Running then s else set_phase Running m s)"
    have t: "lock_step\<^sup>*\<^sup>* s t" "length (lk_tickets t) = length (lk_tickets s)" "phase_of t m = Running"
      "\<And>i. i \<noteq> m \<Longrightarrow> phase_of t i = phase_of s i" "\<And>i j. same_key t i j = same_key s i j"
      using m(3) len by (auto simp: t_def intro: lock_step.run)
    have "lock_step t (lock_release m t)" using t len by (intro lock_step.finish) simp_all
    with t(1) have steps: "lock_step\<^sup>*\<^sup>* s (lock_release m t)" by (rule rtranclp.rtrancl_into_rtrancl)
    have "phase_of s m \<noteq> Released" using m(3) by (auto simp: may_run_def)
    then have "card (ahead (lock_release m t) n) < card (ahead s n)"
      using False m t by (intro ahead_release) auto
    moreover have "lock_reachable (lock_release m t)" using less.prems(1) steps by (rule rtranclp_trans)
    ultimately obtain u where "lock_step\<^sup>*\<^sup>* (lock_release m t) u" "phase_of u n = Running"
      "length (lk_tickets u) = length (lk_tickets s)"
      using less.hyps [of "lock_release m t"] less.prems False t len by (auto simp: release_fields)
    with steps show ?thesis by (meson rtranclp_trans)
  qed
qed

end
