(* ===== verification/Recovery.thy ===== *)
theory Recovery
  imports Object_Store
begin

text \<open>
  Repository backup and restore, \<open>src/operations/recovery.ts\<close>, on any store that meets the contract
  \<open>object_store\<close>. The digest of bytes and the text of the current time are parameters. A restore adds
  what is missing, never overwrites, and stops at the first entry that does not verify; the lemmas show
  the round trip from one store to another of the same namespace.
\<close>

datatype recovery_error = RecConflict | RecIntegrity | RecNamespace | RecStore store_error

record backup_entry =
  be_object_id :: string
  be_length :: nat
  be_sha256 :: string
  be_stored_envelope_base64 :: string

record repository_backup =
  rb_repository_namespace :: string
  rb_created_at :: string
  rb_entries :: "backup_entry list"

record restore_count =
  rc_restored :: nat
  rc_reused :: nat

definition backup_object :: "(bytes \<Rightarrow> string) \<Rightarrow> 's store_ops \<Rightarrow> 's \<Rightarrow> string \<Rightarrow> recovery_error + backup_entry" where
  "backup_object digest store s objectId =
     rbind (map_error RecStore (so_get store s objectId)) (\<lambda>chunks. let bytes = concat chunks in
     rbind (map_error RecStore (so_head store s objectId)) (\<lambda>head.
     rbind (check (head \<noteq> Some (length bytes)) RecIntegrity) (\<lambda>_.
     Inr \<lparr>be_object_id = objectId, be_length = length bytes, be_sha256 = digest bytes,
          be_stored_envelope_base64 = base64_encode bytes\<rparr>)))"

definition backupRepository ::
  "(bytes \<Rightarrow> string) \<Rightarrow> 's store_ops \<Rightarrow> 's \<Rightarrow> string list \<Rightarrow> string \<Rightarrow> recovery_error + repository_backup" where
  "backupRepository digest store s inventory now =
     rbind (rmap (backup_object digest store s) (js_sort str_le (js_set inventory))) (\<lambda>entries.
     Inr \<lparr>rb_repository_namespace = so_namespace store, rb_created_at = now, rb_entries = entries\<rparr>)"

definition restore_entry ::
  "(bytes \<Rightarrow> string) \<Rightarrow> 's store_ops \<Rightarrow> 's \<Rightarrow> backup_entry \<Rightarrow> (recovery_error + put_status) \<times> 's" where
  "restore_entry digest store s entry =
     (let bytes = base64_decode (be_stored_envelope_base64 entry) in
      if length bytes \<noteq> be_length entry \<or> digest bytes \<noteq> be_sha256 entry then (Inl RecIntegrity, s)
      else (case so_put store s (be_object_id entry) [bytes] of
              (Inl e, t) \<Rightarrow> (Inl (RecStore e), t)
            | (Inr result, t) \<Rightarrow>
                (rbind (map_error RecStore (so_get store t (be_object_id entry))) (\<lambda>chunks.
                 rbind (check (length (concat chunks) \<noteq> be_length entry
                               \<or> digest (concat chunks) \<noteq> be_sha256 entry) RecConflict) (\<lambda>_.
                 Inr (put_status result))), t)))"

fun restore_entries ::
  "(bytes \<Rightarrow> string) \<Rightarrow> 's store_ops \<Rightarrow> restore_count \<Rightarrow> 's \<Rightarrow> backup_entry list
    \<Rightarrow> (recovery_error + restore_count) \<times> 's" where
  "restore_entries digest store n s [] = (Inr n, s)"
| "restore_entries digest store n s (e # es) =
     (case restore_entry digest store s e of
        (Inl err, t) \<Rightarrow> (Inl err, t)
      | (Inr Created, t) \<Rightarrow> restore_entries digest store (n\<lparr>rc_restored := rc_restored n + 1\<rparr>) t es
      | (Inr Exists, t) \<Rightarrow> restore_entries digest store (n\<lparr>rc_reused := rc_reused n + 1\<rparr>) t es)"

definition restoreRepository ::
  "(bytes \<Rightarrow> string) \<Rightarrow> 's store_ops \<Rightarrow> 's \<Rightarrow> repository_backup \<Rightarrow> (recovery_error + restore_count) \<times> 's" where
  "restoreRepository digest store s backup =
     (if rb_repository_namespace backup \<noteq> so_namespace store then (Inl RecNamespace, s)
      else restore_entries digest store \<lparr>rc_restored = 0, rc_reused = 0\<rparr> s (rb_entries backup))"

text \<open>The entry a backup holds for an object.\<close>

definition entry_of :: "(bytes \<Rightarrow> string) \<Rightarrow> string \<Rightarrow> bytes \<Rightarrow> backup_entry" where
  "entry_of digest i b = \<lparr>be_object_id = i, be_length = length b, be_sha256 = digest b,
     be_stored_envelope_base64 = base64_encode b\<rparr>"

definition entry_bytes :: "backup_entry \<Rightarrow> bytes" where
  "entry_bytes e = base64_decode (be_stored_envelope_base64 e)"

lemma entry_bytes_of [simp]: "entry_bytes (entry_of digest i b) = b"
  by (simp add: entry_bytes_def entry_of_def base64_roundtrip)

definition restore_ids :: "repository_backup \<Rightarrow> string list" where
  "restore_ids backup = map be_object_id (rb_entries backup)"

context object_store
begin

lemma backup_object_Inr:
  assumes "wf s"
  shows "backup_object digest ops s i = Inr e \<longleftrightarrow> base64Url32_ok i \<and> (\<exists>b. obj s i = Some b \<and> e = entry_of digest i b)"
proof (cases "base64Url32_ok i")
  case True
  obtain cs where "so_get ops s i = Inr cs" "concat cs = (case obj s i of None \<Rightarrow> [] | Some b \<Rightarrow> b)"
    using get [OF assms True] by blast
  with True head [OF assms True] show ?thesis
    by (cases "obj s i") (auto simp: backup_object_def Let_def entry_of_def)
next
  case False
  then show ?thesis using invalid [OF False, of s] by (simp add: backup_object_def)
qed

text \<open>A backup succeeds exactly when every listed object is there, and holds one entry for each.\<close>

lemma backup_Inr:
  assumes "wf s" and "backupRepository digest ops s inventory now = Inr bk"
  shows "rb_repository_namespace bk = so_namespace ops \<and> distinct (restore_ids bk)
    \<and> set (restore_ids bk) = set inventory
    \<and> (\<forall>e\<in>set (rb_entries bk). base64Url32_ok (be_object_id e)
         \<and> (\<exists>b. obj s (be_object_id e) = Some b \<and> e = entry_of digest (be_object_id e) b))"
proof -
  let ?ids = "js_sort str_le (js_set inventory)"
  obtain es where es: "rmap (backup_object digest ops s) ?ids = Inr es"
    and bk: "bk = \<lparr>rb_repository_namespace = so_namespace ops, rb_created_at = now, rb_entries = es\<rparr>"
    using assms(2) by (auto simp: backupRepository_def outcome_simps)
  have nth: "base64Url32_ok (?ids ! k) \<and> (\<exists>b. obj s (?ids ! k) = Some b \<and> es ! k = entry_of digest (?ids ! k) b)"
    if "k < length ?ids" for k
    using rmap_Inr_nth [OF es that] backup_object_Inr [OF assms(1)] by blast
  have len: "length es = length ?ids" using rmap_Inr_length [OF es] .
  have id: "be_object_id (es ! k) = ?ids ! k" if "k < length ?ids" for k
    using nth [OF that] by (auto simp: entry_of_def)
  then have "map be_object_id es = ?ids" by (intro nth_equalityI) (simp_all add: len)
  moreover have "base64Url32_ok (be_object_id e) \<and> (\<exists>b. obj s (be_object_id e) = Some b \<and> e = entry_of digest (be_object_id e) b)"
    if e: "e \<in> set es" for e
  proof -
    obtain k where "k < length ?ids" "e = es ! k" using e len by (metis in_set_conv_nth)
    then show ?thesis using nth id by auto
  qed
  ultimately show ?thesis using bk by (simp add: restore_ids_def)
qed

lemma backup_total:
  assumes "wf s" and "\<And>i. i \<in> set inventory \<Longrightarrow> base64Url32_ok i \<and> obj s i \<noteq> None"
  shows "\<exists>bk. backupRepository digest ops s inventory now = Inr bk"
proof -
  have "backup_object digest ops s i = Inr (entry_of digest i (the (obj s i)))" if "i \<in> set inventory" for i
    using backup_object_Inr [OF assms(1), of digest i] assms(2) [OF that] by auto
  then have "rmap (backup_object digest ops s) (js_sort str_le (js_set inventory)) =
      Inr (map (\<lambda>i. entry_of digest i (the (obj s i))) (js_sort str_le (js_set inventory)))"
    by (intro rmap_cong_Inr) simp
  then show ?thesis by (simp add: backupRepository_def)
qed

lemma restore_entry_frame:
  assumes "wf s" and "restore_entry digest ops s e = (r, t)"
  shows "wf t \<and> (obj t = obj s \<or> (obj s (be_object_id e) = None \<and> obj t = (obj s)(be_object_id e \<mapsto> entry_bytes e)
      \<and> digest (entry_bytes e) = be_sha256 e \<and> length (entry_bytes e) = be_length e))"
proof (cases "length (entry_bytes e) \<noteq> be_length e \<or> digest (entry_bytes e) \<noteq> be_sha256 e")
  case True
  then show ?thesis using assms by (auto simp: restore_entry_def entry_bytes_def)
next
  case False
  then obtain r' where "so_put ops s (be_object_id e) [entry_bytes e] = (r', t)"
    using assms(2) by (auto simp: restore_entry_def entry_bytes_def Let_def split: prod.splits sum.splits)
  from put_frame [OF assms(1) this] False show ?thesis by auto
qed

lemma restore_entry_Inr:
  assumes s: "wf s" and r: "restore_entry digest ops s e = (Inr st, t)"
  shows "(\<exists>b. obj t (be_object_id e) = Some b \<and> length b = be_length e \<and> digest b = be_sha256 e)
    \<and> (st = Created \<longleftrightarrow> obj s (be_object_id e) = None)"
proof -
  obtain res where put: "so_put ops s (be_object_id e) [entry_bytes e] = (Inr res, t)" and st: "st = put_status res"
    and rd: "\<And>cs. so_get ops t (be_object_id e) = Inr cs \<Longrightarrow> length (concat cs) = be_length e \<and> digest (concat cs) = be_sha256 e"
    using r by (auto simp: restore_entry_def entry_bytes_def Let_def outcome_simps split: prod.splits sum.splits if_splits)
  have i: "base64Url32_ok (be_object_id e)" and
    p: "if put_status res = Created then obj s (be_object_id e) = None \<and> obj t = (obj s)(be_object_id e \<mapsto> entry_bytes e)
      else obj s (be_object_id e) \<noteq> None \<and> obj t = obj s"
    using put_status [OF s put] by auto
  have t: "wf t" using put_frame [OF s put] by simp
  obtain cs where "so_get ops t (be_object_id e) = Inr cs" "concat cs = (case obj t (be_object_id e) of None \<Rightarrow> [] | Some b \<Rightarrow> b)"
    using get [OF t i] by blast
  with rd p st show ?thesis by (auto split: if_splits option.splits)
qed

text \<open>An accepted entry for an object that is absent or already the same succeeds.\<close>

lemma restore_entry_ok:
  assumes s: "wf s" and i: "base64Url32_ok i" and b: "length b \<le> limit" and "obj s i \<in> {None, Some b}"
  shows "\<exists>t. restore_entry digest ops s (entry_of digest i b) = (Inr (if obj s i = None then Created else Exists), t)
    \<and> wf t \<and> obj t = (obj s)(i \<mapsto> b)"
proof -
  have entry: "be_object_id (entry_of digest i b) = i" "be_length (entry_of digest i b) = length b"
    "be_sha256 (entry_of digest i b) = digest b" "base64_decode (be_stored_envelope_base64 (entry_of digest i b)) = b"
    by (simp_all add: entry_of_def base64_roundtrip)
  show ?thesis
  proof (cases "obj s i")
    case None
    obtain t where t: "so_put ops s i [b] = (Inr \<lparr>put_length = length b, put_status = Created\<rparr>, t)"
      "wf t" "obj t = (obj s)(i \<mapsto> b)"
      using put_new [OF s i None, of "[b]"] b by auto
    obtain cs where "so_get ops t i = Inr cs" "concat cs = b" using get [OF t(2) i] t(3) by auto
    with t None show ?thesis by (auto simp: restore_entry_def entry)
  next
    case (Some c)
    then have c: "obj s i = Some b" using assms(4) by auto
    obtain cs where "so_get ops s i = Inr cs" "concat cs = b" using get [OF s i] c by auto
    with put_exists [OF s i c, of "[b]"] c s show ?thesis by (auto simp: restore_entry_def entry fun_upd_idem)
  qed
qed

lemma restore_entries_frame:
  assumes "wf s" and "restore_entries digest ops n s es = (r, t)"
  shows "wf t \<and> (\<forall>i b. obj s i = Some b \<longrightarrow> obj t i = Some b)
    \<and> (\<forall>i b. obj t i = Some b \<longrightarrow> obj s i = Some b
         \<or> (\<exists>e\<in>set es. be_object_id e = i \<and> entry_bytes e = b \<and> digest b = be_sha256 e \<and> length b = be_length e))"
  using assms
proof (induction es arbitrary: n s)
  case (Cons e es)
  obtain re u where u: "restore_entry digest ops s e = (re, u)" by fastforce
  note fr = restore_entry_frame [OF Cons.prems(1) u]
  show ?case
  proof (cases re)
    case (Inl err)
    then show ?thesis using Cons.prems(2) u fr by (auto split: if_splits)
  next
    case (Inr st)
    obtain n' where "restore_entries digest ops n' u es = (r, t)"
      using Cons.prems(2) u Inr by (auto split: put_status.splits)
    from Cons.IH [OF _ this] fr have ih: "wf t" "\<And>i b. obj u i = Some b \<Longrightarrow> obj t i = Some b"
      "\<And>i b. obj t i = Some b \<Longrightarrow> obj u i = Some b \<or> (\<exists>e\<in>set es. be_object_id e = i \<and> entry_bytes e = b
         \<and> digest b = be_sha256 e \<and> length b = be_length e)" by blast+
    have u: "obj u i = Some b \<Longrightarrow> obj s i = Some b \<or> (be_object_id e = i \<and> entry_bytes e = b
        \<and> digest b = be_sha256 e \<and> length b = be_length e)" "obj s i = Some b \<Longrightarrow> obj u i = Some b" for i b
      using fr by (auto split: if_splits)
    show ?thesis
    proof (intro conjI allI impI)
      fix i b
      show "obj t i = Some b" if "obj s i = Some b" using that u ih by blast
      show "obj s i = Some b \<or> (\<exists>e\<in>set (e # es). be_object_id e = i \<and> entry_bytes e = b
          \<and> digest b = be_sha256 e \<and> length b = be_length e)" if "obj t i = Some b"
        using ih(3) [OF that] u(1) by auto
    qed (rule ih)
  qed
qed simp

lemma restore_entries_Inr:
  assumes "wf s" and "restore_entries digest ops n s es = (Inr m, t)"
  shows "rc_restored m + rc_reused m = rc_restored n + rc_reused n + length es
    \<and> (\<forall>e\<in>set es. \<exists>b. obj t (be_object_id e) = Some b \<and> length b = be_length e \<and> digest b = be_sha256 e)"
  using assms
proof (induction es arbitrary: n s)
  case (Cons e es)
  obtain st u n' where u: "restore_entry digest ops s e = (Inr st, u)"
    and rest: "restore_entries digest ops n' u es = (Inr m, t)"
    and n': "rc_restored n' + rc_reused n' = Suc (rc_restored n + rc_reused n)"
    using Cons.prems(2) by (fastforce split: prod.splits sum.splits put_status.splits)
  have "wf u" using restore_entry_frame [OF Cons.prems(1) u] by simp
  from Cons.IH [OF this rest] restore_entries_frame [OF this rest] restore_entry_Inr [OF Cons.prems(1) u] n'
  show ?case by auto
qed simp

end

text \<open>
  The round trip: what is backed up from one store restores into another store of the namespace whose
  limit admits the objects and which holds no conflicting object.
\<close>

context object_store
begin

lemma restore_entries_ok:
  assumes "wf s" and "distinct (map be_object_id es)"
    and "\<And>e. e \<in> set es \<Longrightarrow> base64Url32_ok (be_object_id e) \<and> (\<exists>b. e = entry_of digest (be_object_id e) b
      \<and> length b \<le> limit \<and> obj s (be_object_id e) \<in> {None, Some b})"
  shows "\<exists>m t. restore_entries digest ops n s es = (Inr m, t) \<and> wf t
    \<and> (\<forall>e\<in>set es. obj t (be_object_id e) = Some (entry_bytes e))"
  using assms
proof (induction es arbitrary: n s)
  case (Cons e es)
  let ?i = "be_object_id e"
  obtain b where b: "e = entry_of digest ?i b" "length b \<le> limit" "obj s ?i \<in> {None, Some b}" "base64Url32_ok ?i"
    using Cons.prems(3) by auto
  obtain u where u: "restore_entry digest ops s e = (Inr (if obj s ?i = None then Created else Exists), u)"
    "wf u" "obj u = (obj s)(?i \<mapsto> b)"
    using restore_entry_ok [OF Cons.prems(1) b(4,2,3), of digest] b(1) by metis
  obtain n' where n': "restore_entries digest ops n s (e # es) = restore_entries digest ops n' u es"
    using u(1) by (cases "obj s ?i = None") auto
  have "obj u (be_object_id d) = obj s (be_object_id d)" if "d \<in> set es" for d
    using that u(3) Cons.prems(2) by (auto simp: image_iff)
  then have prem: "base64Url32_ok (be_object_id d) \<and> (\<exists>b. d = entry_of digest (be_object_id d) b
      \<and> length b \<le> limit \<and> obj u (be_object_id d) \<in> {None, Some b})" if "d \<in> set es" for d
    using Cons.prems(3) [of d] that by simp
  have "distinct (map be_object_id es)" using Cons.prems(2) by simp
  from Cons.IH [OF u(2) this prem, of n'] obtain m t where
    t: "restore_entries digest ops n' u es = (Inr m, t)" "wf t"
      "\<forall>e\<in>set es. obj t (be_object_id e) = Some (entry_bytes e)"
    by blast
  moreover have "obj t ?i = Some b" using restore_entries_frame [OF u(2) t(1)] u(3) by auto
  moreover have "entry_bytes e = b" using b(1) entry_bytes_of by metis
  ultimately show ?case using n' by auto
qed simp

end

locale backup_target = src: object_store ops1 obj1 wf1 limit1 + tgt: object_store ops2 obj2 wf2 limit2
  for ops1 :: "'s store_ops" and obj1 wf1 limit1 and ops2 :: "'t store_ops" and obj2 wf2 limit2 +
  assumes same_namespace: "so_namespace ops1 = so_namespace ops2"
begin

lemma backup_restore:
  assumes "wf1 s" and "wf2 t" and "backupRepository digest ops1 s inventory now = Inr bk"
    and "\<And>i b. i \<in> set inventory \<Longrightarrow> obj1 s i = Some b \<Longrightarrow> length b \<le> limit2 \<and> obj2 t i \<in> {None, Some b}"
  shows "\<exists>m u. restoreRepository digest ops2 t bk = (Inr m, u) \<and> (\<forall>i\<in>set inventory. obj2 u i = obj1 s i)"
proof -
  note bk = src.backup_Inr [OF assms(1,3)]
  have ok: "base64Url32_ok (be_object_id e) \<and> (\<exists>b. e = entry_of digest (be_object_id e) b
      \<and> length b \<le> limit2 \<and> obj2 t (be_object_id e) \<in> {None, Some b})" if e: "e \<in> set (rb_entries bk)" for e
  proof -
    obtain b where "base64Url32_ok (be_object_id e)" "obj1 s (be_object_id e) = Some b" "e = entry_of digest (be_object_id e) b"
      using bk e by blast
    moreover have "be_object_id e \<in> set inventory" using bk e by (auto simp: restore_ids_def)
    ultimately show ?thesis using assms(4) by blast
  qed
  obtain m u where u: "restore_entries digest ops2 \<lparr>rc_restored = 0, rc_reused = 0\<rparr> t (rb_entries bk) = (Inr m, u)"
    "\<forall>e\<in>set (rb_entries bk). obj2 u (be_object_id e) = Some (entry_bytes e)"
    using tgt.restore_entries_ok [OF assms(2) _ ok, of "rb_entries bk"] bk unfolding restore_ids_def by blast
  have "obj2 u i = obj1 s i" if i: "i \<in> set inventory" for i
  proof -
    obtain e where e: "e \<in> set (rb_entries bk)" "be_object_id e = i"
      using bk i unfolding restore_ids_def set_map by (metis imageE)
    with bk obtain b where "obj1 s i = Some b" "e = entry_of digest i b" by blast
    then show ?thesis using u(2) e entry_bytes_of by metis
  qed
  with u(1) bk same_namespace show ?thesis by (auto simp: restoreRepository_def)
qed

end

text \<open>A backup of a memory store restores into a filesystem store of the same organisation.\<close>

definition memory_of :: "file_store \<Rightarrow> nat \<Rightarrow> memory_store" where
  "memory_of f n = \<lparr>ms_namespace = fs_namespace f, ms_prefix = after_last CHR '':'' (fs_namespace f) @ '':'',
     ms_maxObjectBytes = n\<rparr>"

interpretation memory_to_files: backup_target "memory_ops (memory_of f n)" "memory_obj (memory_of f n)" "\<lambda>_. True" n
    "file_ops f pending" "file_obj f" "file_wf f pending" "fs_maxObjectBytes f" for f n pending
proof (intro backup_target.intro backup_target_axioms.intro)
  show "object_store (memory_ops (memory_of f n)) (memory_obj (memory_of f n)) (\<lambda>_. True) n"
    using memory.object_store_axioms [of "memory_of f n"] by (simp add: memory_of_def)
  show "object_store (file_ops f pending) (file_obj f) (file_wf f pending) (fs_maxObjectBytes f)"
    by (rule files.object_store_axioms)
  show "so_namespace (memory_ops (memory_of f n)) = so_namespace (file_ops f pending)"
    by (simp add: memory_ops_def file_ops_def memory_of_def)
qed

lemma memory_of_forOrganization:
  assumes "filesystem_store org base mx = Inr f"
  shows "forOrganization org n = Inr (memory_of f n)"
  using assms by (auto simp: filesystem_store_def forOrganization_def memory_of_def namespaceKey_def outcome_simps)

end
