(* ===== verification/Storage_Properties.thy ===== *)
theory Storage_Properties
  imports Object_Operations Lock_Queue Recovery Examples
begin

text \<open>
  The properties of the object stores, of the coordinator that works on them and of backup and restore.
\<close>

subsection \<open>Concrete stores\<close>

definition ex_org2 :: string where
  "ex_org2 = ''urn:evllm:org:00000000-0000-4000-8000-000000000002''"

definition ex_memory :: memory_store where
  "ex_memory = \<lparr>ms_namespace = ex_urn ''org'', ms_prefix = ex_uuid @ '':'', ms_maxObjectBytes = 8\<rparr>"

definition ex_memory2 :: memory_store where
  "ex_memory2 = \<lparr>ms_namespace = ex_org2, ms_prefix = ''00000000-0000-4000-8000-000000000002:'', ms_maxObjectBytes = 8\<rparr>"

definition ex_files :: file_store where
  "ex_files = \<lparr>fs_namespace = ex_urn ''org'', fs_directory = ''/d/'' @ ex_uuid, fs_maxObjectBytes = 8\<rparr>"

definition ex_object_id :: string where
  "ex_object_id = replicate 42 CHR ''A'' @ ''E''"

definition ex_length_digest :: "bytes \<Rightarrow> string" where
  "ex_length_digest b = show_nat (length b)"

definition ex_promotion :: promotion_input where
  "ex_promotion = \<lparr>pi_expected = \<lparr>exp_digest = ''2'', exp_length = 2\<rparr>, destinationObjectId = ex_object_id,
     sourceObjectId = ex_hash\<rparr>"

lemma ex_memories:
  "forOrganization (ex_urn ''org'') 8 = Inr ex_memory" "forOrganization ex_org2 8 = Inr ex_memory2"
  "ex_urn ''org'' \<noteq> ex_org2"
  by code_simp+

lemma ex_object_ids: "base64Url32_ok ex_hash" "base64Url32_ok ex_object_id" "ex_object_id \<noteq> ex_hash"
  by code_simp+

subsection \<open>Stores\<close>

lemma empty_stores: "memory_obj m [] = Map.empty" "file_obj f [] = Map.empty" "file_wf f pending []"
  by (auto simp: memory_obj_def file_obj_def file_wf_def jm_has_def jm_simps)

text \<open>
  C30: the memory store and the filesystem store, each on an empty world, answer every sequence of calls
  exactly as a partial map from object identifiers to bytes does: an object is created once and at most as large as the
  limit, is never overwritten, reads back as written and is gone once deleted, and an identifier that is not a
  base64url text of 32 bytes is refused.
\<close>

theorem stores_refine_map:
  "replies (store_call (memory_ops m)) [] calls = replies (abstract_call (ms_maxObjectBytes m)) Map.empty calls
   \<and> replies (store_call (file_ops f pending)) [] calls = replies (abstract_call (fs_maxObjectBytes f)) Map.empty calls"
  using memory.replies_refine [of m "[]" calls] files.replies_refine [of f pending "[]" calls] by (simp add: empty_stores)

text \<open>Calls of two organisations on one backend.\<close>

definition shared_call ::
  "memory_store \<Rightarrow> memory_store \<Rightarrow> backend \<Rightarrow> store_request + store_request \<Rightarrow> (store_error + store_reply) \<times> backend" where
  "shared_call m1 m2 s c = (case c of Inl x \<Rightarrow> store_call (memory_ops m1) s x | Inr x \<Rightarrow> store_call (memory_ops m2) s x)"

lemma store_call_isolated:
  assumes "forOrganization org1 n1 = Inr m1" and "forOrganization org2 n2 = Inr m2" and "org1 \<noteq> org2"
  shows "memory_obj m1 (snd (store_call (memory_ops m2) s x)) = memory_obj m1 s"
  using memory_put_isolated [OF assms(2,1) assms(3) [symmetric]]
  by (cases x) (simp_all add: memory_ops_def reply_def)

text \<open>
  C31: on a backend that two organisations share, each of them gets from its memory store the
  replies it would get alone, however the calls of the other are interleaved.
\<close>

theorem organizations_isolated:
  assumes "forOrganization org1 n1 = Inr m1" and "forOrganization org2 n2 = Inr m2" and "org1 \<noteq> org2"
  shows "map snd (filter (\<lambda>(c, r). isl c) (zip calls (replies (shared_call m1 m2) s calls)))
    = replies (store_call (memory_ops m1)) s (map projl (filter isl calls))"
proof (induction calls arbitrary: s)
  case (Cons c calls)
  show ?case
  proof (cases c)
    case (Inl x)
    then show ?thesis using Cons.IH by (simp add: shared_call_def)
  next
    case (Inr x)
    have "memory_obj m1 (snd (store_call (memory_ops m2) s x)) = memory_obj m1 s" by (rule store_call_isolated [OF assms])
    then show ?thesis using Inr Cons.IH by (simp add: shared_call_def memory.replies_refine)
  qed
qed simp

theorem organizations_isolated_witness:
  "map snd (filter (\<lambda>(c, r). isl c) (zip [Inl (CallPut ex_hash [[1]]), Inr (CallDelete ex_hash), Inl (CallHead ex_hash)]
      (replies (shared_call ex_memory ex_memory2) []
        [Inl (CallPut ex_hash [[1]]), Inr (CallDelete ex_hash), Inl (CallHead ex_hash)])))
    = [Inr (PutReply \<lparr>put_length = 1, put_status = Created\<rparr>), Inr (HeadReply (Some 1))]"
proof -
  have "replies (store_call (memory_ops ex_memory)) [] [CallPut ex_hash [[1]], CallHead ex_hash]
    = [Inr (PutReply \<lparr>put_length = 1, put_status = Created\<rparr>), Inr (HeadReply (Some 1))]" by code_simp
  then show ?thesis
    using organizations_isolated [OF ex_memories, of "[Inl (CallPut ex_hash [[1]]), Inr (CallDelete ex_hash),
      Inl (CallHead ex_hash)]" "[]"] by simp
qed

subsection \<open>The coordinator\<close>

text \<open>
  Promoting a staged object that is the expected one, on the filesystem store. Without an object at
  the destination it is created there; an object that verifies is reported as recovered; any other object is a conflict.
  An existing object is never replaced. A timeout changes only what the caller is told: the store changes all the same.
\<close>

theorem promotion_outcome:
  assumes "file_wf f pending d"
    and "base64Url32_ok (sourceObjectId p)" and "base64Url32_ok (destinationObjectId p)"
    and "file_obj f d (sourceObjectId p) = Some b" and "matches sha (pi_expected p) b"
    and "length b \<le> fs_maxObjectBytes f"
  shows "\<exists>r t. promoteStagedObject sha (file_ops f pending) timed_out d p = (r, t)
    \<and> r = (if timed_out then Inl RepoTimeout else case file_obj f d (destinationObjectId p) of
        None \<Rightarrow> Inr \<lparr>pr_expected = pi_expected p, pr_status = PCreated\<rparr>
      | Some c \<Rightarrow> if matches sha (pi_expected p) c then Inr \<lparr>pr_expected = pi_expected p, pr_status = PRecovered\<rparr>
                  else Inl RepoConflict)
    \<and> file_wf f pending t
    \<and> file_obj f t = (if file_obj f d (destinationObjectId p) = None
        then (file_obj f d)(destinationObjectId p \<mapsto> b) else file_obj f d)"
  using files.promote_eq [OF assms] by (auto simp: promoteStagedObject_def with_timeout_def split: option.splits)

theorem promotion_outcome_witness:
  "\<exists>t. promoteStagedObject ex_length_digest (file_ops ex_files ''0'') False
      [(''/d/'' @ ex_uuid @ ''/'' @ ex_hash, [7, 9])] ex_promotion
    = (Inr \<lparr>pr_expected = pi_expected ex_promotion, pr_status = PCreated\<rparr>, t)
    \<and> file_obj ex_files t ex_object_id = Some [7, 9]"
proof -
  let ?d = "[(''/d/'' @ ex_uuid @ ''/'' @ ex_hash, [7, 9])]"
  have "file_wf ex_files ''0'' ?d" "file_obj ex_files ?d (sourceObjectId ex_promotion) = Some [7, 9]"
    "matches ex_length_digest (pi_expected ex_promotion) [7, 9]" "length [7 :: 8 word, 9] \<le> fs_maxObjectBytes ex_files"
    "file_obj ex_files ?d (destinationObjectId ex_promotion) = None" by code_simp+
  moreover have "base64Url32_ok (sourceObjectId ex_promotion)" "base64Url32_ok (destinationObjectId ex_promotion)"
    "destinationObjectId ex_promotion = ex_object_id"
    using ex_object_ids by (simp_all add: ex_promotion_def)
  ultimately show ?thesis
    using promotion_outcome [of ex_files "''0''" ?d ex_promotion "[7, 9]" ex_length_digest False] by auto
qed

text \<open>
  C32: once an object is replicated from the store of one organisation to that of another, a
  critical read with failover returns bytes of the expected length and digest as long as one of the two copies is as the
  replication left it, whatever became of the rest of the backend.
\<close>

theorem replication_survives_loss:
  assumes "forOrganization org1 n1 = Inr m1" and "forOrganization org2 n2 = Inr m2" and "org1 \<noteq> org2"
    and "replicateExact sha False (memory_ops m1) i (memory_ops m2) j s e = (Inr p, t)"
    and "memory_obj m1 u i = memory_obj m1 t i \<or> memory_obj m2 u j = memory_obj m2 t j"
  shows "\<exists>b from. fetchWithFailover sha False u
      \<lparr>fo_expected = e, fo_critical = True, fo_primary = (i, memory_ops m1), fo_replica = Some (j, memory_ops m2)\<rparr>
    = Inr (b, from) \<and> matches sha e b"
proof -
  have apart: "stores_apart m1 m2" by (rule stores_apart_organizations [OF assms(1-3)])
  have "replicate_object sha (memory_ops m1) i (memory_ops m2) j s e = (Inr p, t)"
    using assms(4) by (simp add: replicateExact_def with_timeout_def)
  from memories.replicate_Inr [OF apart apart this] obtain b c where
    bc: "memory_obj m1 t i = Some b" "memory_obj m2 t j = Some c" "matches sha e b" "matches sha e c" by blast
  then have ids: "base64Url32_ok i" "base64Url32_ok j" by (auto simp: memory_obj_def split: if_splits)
  let ?f = "\<lparr>fo_expected = e, fo_critical = True, fo_primary = (i, memory_ops m1), fo_replica = Some (j, memory_ops m2)\<rparr>"
  have "\<exists>b from. fetch_object sha u ?f = Inr (b, from) \<and> matches sha (fo_expected ?f) b"
    using memories.fetch_available [OF apart apart, of ?f i j u sha] ids bc assms(5) by auto
  then show ?thesis by (simp add: fetchWithFailover_def with_timeout_def)
qed

theorem replication_survives_loss_witness:
  "\<exists>p t. replicateExact ex_length_digest False (memory_ops ex_memory) ex_hash (memory_ops ex_memory2) ex_object_id
      (jm_set (ex_uuid @ '':'' @ ex_hash) [7, 9] []) \<lparr>exp_digest = ''2'', exp_length = 2\<rparr> = (Inr p, t)
    \<and> (\<exists>b from. fetchWithFailover ex_length_digest False (snd (memory_delete ex_memory t ex_hash))
        \<lparr>fo_expected = \<lparr>exp_digest = ''2'', exp_length = 2\<rparr>, fo_critical = True,
         fo_primary = (ex_hash, memory_ops ex_memory), fo_replica = Some (ex_object_id, memory_ops ex_memory2)\<rparr>
      = Inr (b, from) \<and> length b = 2)"
proof -
  let ?e = "\<lparr>exp_digest = ''2'', exp_length = 2\<rparr>"
  let ?r = "replicateExact ex_length_digest False (memory_ops ex_memory) ex_hash (memory_ops ex_memory2) ex_object_id
      (jm_set (ex_uuid @ '':'' @ ex_hash) [7, 9] []) ?e"
  have "\<not> isl (fst ?r)" by code_simp
  then obtain p where "fst ?r = Inr p" by (cases "fst ?r") auto
  then obtain t where r: "?r = (Inr p, t)" by (metis prod.collapse)
  have "memory_obj ex_memory2 (snd (memory_delete ex_memory t ex_hash)) = memory_obj ex_memory2 t"
    by (rule memory_put_isolated(2) [OF ex_memories])
  then show ?thesis
    using replication_survives_loss [OF ex_memories r, of "snd (memory_delete ex_memory t ex_hash)"] r
    by (auto simp: matches_def)
qed

subsection \<open>The lock queue\<close>

text \<open>
  C33: under every interleaving, calls that share a key run one at a time and in the order they arrived: when
  a call has started, every earlier call of its key has been released.
\<close>

theorem lock_excludes:
  assumes "lock_reachable s" and "same_key s i j" and "i < j" and "phase_of s j \<noteq> Waiting"
  shows "phase_of s i = Released"
  using lock_inv_reachable [OF assms(1)] assms(2-) by (simp add: lock_inv_def fifo_def)

definition ex_locks :: lock_state where
  "ex_locks = set_phase Running 1 (lock_release 0 (set_phase Running 0 (lock_enter ''k'' (lock_enter ''k'' no_locks))))"

lemma ex_locks_reachable: "lock_reachable ex_locks"
proof -
  let ?a = "lock_enter ''k'' (lock_enter ''k'' no_locks)"
  have steps: "lock_step no_locks (lock_enter ''k'' no_locks)" "lock_step (lock_enter ''k'' no_locks) ?a"
    by (rule lock_step.enter)+
  have "may_run ?a 0" "may_run (lock_release 0 (set_phase Running 0 ?a)) 1"
    by (simp_all add: may_run_def lock_enter_def no_locks_def lock_release_def set_phase_def Let_def jm_simps tail_resolved.simps)
  then have "lock_step ?a (set_phase Running 0 ?a)"
    "lock_step (lock_release 0 (set_phase Running 0 ?a)) ex_locks"
    by (auto simp: ex_locks_def intro: lock_step.run)
  moreover have "lock_step (set_phase Running 0 ?a) (lock_release 0 (set_phase Running 0 ?a))"
    by (rule lock_step.finish) (simp_all add: lock_enter_def no_locks_def set_phase_def)
  ultimately show ?thesis using steps by (meson rtranclp.rtrancl_into_rtrancl rtranclp.rtrancl_refl)
qed

theorem lock_excludes_witness: "phase_of ex_locks 1 = Running \<and> phase_of ex_locks 0 = Released"
proof -
  have "same_key ex_locks 0 1" "phase_of ex_locks 1 = Running" by code_simp+
  then show ?thesis using lock_excludes [OF ex_locks_reachable, of 0 1] by simp
qed

text \<open>
  C34: a call that waits for its lock is never stuck: from every reachable state there are steps, none
  of them a new call, that bring it to run.
\<close>

theorem lock_serves_everyone:
  assumes "lock_reachable s" and "n < length (lk_tickets s)" and "phase_of s n = Waiting"
  shows "\<exists>t. lock_step\<^sup>*\<^sup>* s t \<and> length (lk_tickets t) = length (lk_tickets s) \<and> phase_of t n = Running"
  by (rule lock_can_run [OF assms])

theorem lock_serves_everyone_witness:
  "\<exists>t. lock_step\<^sup>*\<^sup>* (lock_enter ''k'' ex_locks) t \<and> phase_of t 2 = Running"
proof -
  have "lock_reachable (lock_enter ''k'' ex_locks)"
    using ex_locks_reachable lock_step.enter by (rule rtranclp.rtrancl_into_rtrancl)
  moreover have "2 < length (lk_tickets (lock_enter ''k'' ex_locks))" "phase_of (lock_enter ''k'' ex_locks) 2 = Waiting"
    by code_simp+
  ultimately show ?thesis using lock_serves_everyone [of "lock_enter ''k'' ex_locks" 2] by blast
qed

subsection \<open>Backup and restore\<close>

text \<open>
  C35: a backup taken from an organisation's memory store restores into its filesystem store, when
  that store's limit is as large and it holds no other object under a listed identifier: afterwards every listed object
  is there, byte for byte.
\<close>

theorem backup_restore_roundtrip:
  assumes "forOrganization org n = Inr m" and "filesystem_store org rootDirectory mx = Inr f" and "file_wf f pending d"
    and "backupRepository digest (memory_ops m) s inventory now = Inr bk"
    and "\<And>i b. i \<in> set inventory \<Longrightarrow> memory_obj m s i = Some b \<Longrightarrow> length b \<le> mx \<and> file_obj f d i \<in> {None, Some b}"
  shows "\<exists>count d'. restoreRepository digest (file_ops f pending) d bk = (Inr count, d')
    \<and> (\<forall>i\<in>set inventory. file_obj f d' i = memory_obj m s i)"
proof -
  have m: "m = memory_of f n" using memory_of_forOrganization [OF assms(2), of n] assms(1) by simp
  have "fs_maxObjectBytes f = mx" using assms(2) by (auto simp: filesystem_store_def outcome_simps)
  with assms(5) show ?thesis
    using memory_to_files.backup_restore [of f pending d digest n s inventory now bk] assms(3,4) by (simp add: m)
qed

theorem backup_restore_roundtrip_witness:
  "\<exists>bk count d'. backupRepository ex_length_digest (memory_ops ex_memory) (jm_set (ex_uuid @ '':'' @ ex_hash) [7, 9] [])
      [ex_hash] ''now'' = Inr bk
    \<and> restoreRepository ex_length_digest (file_ops ex_files ''0'') [] bk = (Inr count, d')
    \<and> file_obj ex_files d' ex_hash = Some [7, 9]"
proof -
  let ?s = "jm_set (ex_uuid @ '':'' @ ex_hash) [7, 9] []"
  have f: "filesystem_store (ex_urn ''org'') ''/d'' 8 = Inr ex_files" by code_simp
  have s: "memory_obj ex_memory ?s ex_hash = Some [7, 9]" by code_simp
  obtain bk where bk: "backupRepository ex_length_digest (memory_ops ex_memory) ?s [ex_hash] ''now'' = Inr bk"
    using memory.backup_total [of "[ex_hash]" ex_memory ?s ex_length_digest "''now''"] s ex_object_ids by auto
  have "\<exists>count d'. restoreRepository ex_length_digest (file_ops ex_files ''0'') [] bk = (Inr count, d')
      \<and> (\<forall>i\<in>set [ex_hash]. file_obj ex_files d' i = memory_obj ex_memory ?s i)"
    using s by (intro backup_restore_roundtrip [OF ex_memories(1) f empty_stores(3) bk]) (auto simp: empty_stores)
  with bk s show ?thesis by auto
qed

text \<open>
  C36: whatever backup a restore into the filesystem store is given, every object that was there
  stays as it was, every object it adds is the bytes of an entry whose length and digest it carries, and when the
  restore succeeds every entry is present, verified, and counted once.
\<close>

theorem restore_never_overwrites:
  assumes "file_wf f pending d" and "restoreRepository digest (file_ops f pending) d bk = (r, d')"
  shows "file_wf f pending d' \<and> (\<forall>i b. file_obj f d i = Some b \<longrightarrow> file_obj f d' i = Some b)
    \<and> (\<forall>i b. file_obj f d' i = Some b \<longrightarrow> file_obj f d i = Some b
         \<or> (\<exists>e\<in>set (rb_entries bk). be_object_id e = i \<and> entry_bytes e = b \<and> digest b = be_sha256 e \<and> length b = be_length e))
    \<and> (\<forall>count. r = Inr count \<longrightarrow> rc_restored count + rc_reused count = length (rb_entries bk)
         \<and> (\<forall>e\<in>set (rb_entries bk). \<exists>b. file_obj f d' (be_object_id e) = Some b
              \<and> length b = be_length e \<and> digest b = be_sha256 e))"
proof (cases "rb_repository_namespace bk = so_namespace (file_ops f pending)")
  case True
  then have rs: "restore_entries digest (file_ops f pending) \<lparr>rc_restored = 0, rc_reused = 0\<rparr> d (rb_entries bk) = (r, d')"
    using assms(2) by (simp add: restoreRepository_def)
  have "\<forall>count. r = Inr count \<longrightarrow> rc_restored count + rc_reused count = length (rb_entries bk)
      \<and> (\<forall>e\<in>set (rb_entries bk). \<exists>b. file_obj f d' (be_object_id e) = Some b \<and> length b = be_length e \<and> digest b = be_sha256 e)"
    using files.restore_entries_Inr [OF assms(1), of digest "\<lparr>rc_restored = 0, rc_reused = 0\<rparr>" "rb_entries bk"] rs by simp
  with files.restore_entries_frame [OF assms(1) rs] show ?thesis by blast
next
  case False
  then show ?thesis using assms by (auto simp: restoreRepository_def)
qed

theorem restore_never_overwrites_witness:
  "\<exists>d'. restoreRepository ex_length_digest (file_ops ex_files ''0'') (jm_set (''/d/'' @ ex_uuid @ ''/'' @ ex_hash) [1] [])
      \<lparr>rb_repository_namespace = ex_urn ''org'', rb_created_at = ''now'',
       rb_entries = [entry_of ex_length_digest ex_hash [7, 9]]\<rparr> = (Inl RecConflict, d')
    \<and> file_obj ex_files d' ex_hash = Some [1]"
proof -
  let ?d = "jm_set (''/d/'' @ ex_uuid @ ''/'' @ ex_hash) [1] []"
  let ?r = "restoreRepository ex_length_digest (file_ops ex_files ''0'') ?d
      \<lparr>rb_repository_namespace = ex_urn ''org'', rb_created_at = ''now'',
       rb_entries = [entry_of ex_length_digest ex_hash [7, 9]]\<rparr>"
  have "fst ?r = Inl RecConflict" "file_wf ex_files ''0'' ?d" "file_obj ex_files ?d ex_hash = Some [1]" by code_simp+
  moreover obtain d' where r: "?r = (fst ?r, d')" by (cases ?r) simp
  ultimately show ?thesis using restore_never_overwrites [OF _ r] by auto
qed

end
