(* ===== verification/Json.thy ===== *)
theory Json
  imports Schemas
begin

text \<open>
  JSON values, their canonical bytes and the schemas over them: \<open>src/protected-bundles/crypto/canonical.ts\<close> and the
  conversions of \<open>TextEncoder\<close>, \<open>TextDecoder\<close> and \<open>Buffer\<close> that the encryption and the evidence bundle service use.
  Numbers are integers. \<open>canonicalize\<close> (RFC 8785) and \<open>JSON.parse\<close> are parameters, the record \<open>json_codec\<close>; the locale
  \<open>canonical_codec\<close> states what the code relies on: the text of a value does not depend on the order of its keys, and parses
  back to the value with sorted keys. It is interpreted on a concrete encoder in \<open>Json_Instance\<close>.
\<close>

datatype json = JNull | JBool bool | JNum int | JStr string | JArr "json list" | JObj "(string \<times> json) list"

fun jget :: "json \<Rightarrow> string \<Rightarrow> json option" where
  "jget (JObj fs) k = map_of fs k"
| "jget _ k = None"

fun jstr :: "json \<Rightarrow> string option" where
  "jstr (JStr s) = Some s"
| "jstr _ = None"

text \<open>The text of a string field, empty when there is none.\<close>

definition jtext :: "json \<Rightarrow> string \<Rightarrow> string" where
  "jtext v k = (case jget v k of Some (JStr s) \<Rightarrow> s | _ \<Rightarrow> [])"

definition key_le :: "string \<times> 'a \<Rightarrow> string \<times> 'a \<Rightarrow> bool" where
  "key_le a b = str_le (fst a) (fst b)"

primrec json_norm :: "json \<Rightarrow> json" where
  "json_norm JNull = JNull"
| "json_norm (JBool b) = JBool b"
| "json_norm (JNum n) = JNum n"
| "json_norm (JStr s) = JStr s"
| "json_norm (JArr xs) = JArr (map json_norm xs)"
| "json_norm (JObj fs) = JObj (js_sort key_le (map (map_prod id json_norm) fs))"

primrec json_ok :: "json \<Rightarrow> bool" where
  "json_ok JNull = True"
| "json_ok (JBool b) = True"
| "json_ok (JNum n) = True"
| "json_ok (JStr s) = True"
| "json_ok (JArr xs) = list_all id (map json_ok xs)"
| "json_ok (JObj fs) = (distinct (map fst fs) \<and> list_all (\<lambda>p. snd p) (map (map_prod id json_ok) fs))"

subsection \<open>Text and bytes\<close>

definition utf8_char :: "char \<Rightarrow> bytes" where
  "utf8_char c = (let n = of_char c :: nat in
     if n < 128 then [of_nat n] else [of_nat (192 + n div 64), of_nat (128 + n mod 64)])"

definition utf8_encode :: "string \<Rightarrow> bytes" where
  "utf8_encode s = concat (map utf8_char s)"

fun utf8_chars :: "bytes \<Rightarrow> string option" where
  "utf8_chars [] = Some []"
| "utf8_chars (b # bs) =
     (if unat b < 128 then map_option (\<lambda>s. char_of (unat b) # s) (utf8_chars bs)
      else (case bs of
              [] \<Rightarrow> None
            | c # cs \<Rightarrow>
                if (unat b = 194 \<or> unat b = 195) \<and> 128 \<le> unat c \<and> unat c < 192
                then map_option (\<lambda>s. char_of ((unat b - 192) * 64 + (unat c - 128)) # s) (utf8_chars cs)
                else None))"

text \<open>\<open>TextDecoder\<close> with \<open>fatal\<close>: a leading byte-order mark is dropped.\<close>

definition utf8_decode :: "bytes \<Rightarrow> string option" where
  "utf8_decode bs = utf8_chars (if take 3 bs = [0xEF, 0xBB, 0xBF] then drop 3 bs else bs)"

definition hex_chars :: string where
  "hex_chars = ''0123456789abcdef''"

definition hex_encode :: "bytes \<Rightarrow> string" where
  "hex_encode bs = concat (map (\<lambda>b. [hex_chars ! (unat b div 16), hex_chars ! (unat b mod 16)]) bs)"

text \<open>\<open>Buffer.from(s, "hex")\<close> stops at the first pair that is not hexadecimal.\<close>

fun hex_decode :: "string \<Rightarrow> bytes" where
  "hex_decode (a # b # r) =
     (case (index_of a hex_chars, index_of b hex_chars) of
        (Some x, Some y) \<Rightarrow> of_nat (16 * x + y) # hex_decode r
      | _ \<Rightarrow> [])"
| "hex_decode _ = []"

subsection \<open>Canonical JSON\<close>

record json_codec =
  canonicalize :: "json \<Rightarrow> string"
  json_parse :: "string \<Rightarrow> json option"

datatype json_error = JsonError

definition canonicalJsonBytes :: "json_codec \<Rightarrow> json \<Rightarrow> bytes" where
  "canonicalJsonBytes jc v = utf8_encode (canonicalize jc v)"

definition parseExactCanonicalJson :: "json_codec \<Rightarrow> bytes \<Rightarrow> json_error + json" where
  "parseExactCanonicalJson jc bytes =
     rbind (from_option JsonError (utf8_decode bytes)) (\<lambda>text.
     rbind (from_option JsonError (json_parse jc text)) (\<lambda>parsed.
     rbind (check (canonicalize jc parsed \<noteq> text) JsonError) (\<lambda>_. Inr parsed)))"

subsection \<open>Schemas of JSON objects\<close>

text \<open>A strict \<open>z.object\<close>: exactly the keys of the table, each with a value it accepts.\<close>

definition strict_json :: "(string \<times> (json \<Rightarrow> bool)) list \<Rightarrow> json \<Rightarrow> bool" where
  "strict_json table v = (case v of
     JObj fs \<Rightarrow> distinct (map fst fs) \<and> list_all (\<lambda>f. f \<in> set (map fst table)) (map fst fs)
       \<and> list_all (\<lambda>(k, p). case map_of fs k of None \<Rightarrow> False | Some x \<Rightarrow> p x) table
   | _ \<Rightarrow> False)"

definition js_text :: "(string \<Rightarrow> bool) \<Rightarrow> json \<Rightarrow> bool" where
  "js_text p v = (case v of JStr s \<Rightarrow> p s | _ \<Rightarrow> False)"

definition js_int :: "(int \<Rightarrow> bool) \<Rightarrow> json \<Rightarrow> bool" where
  "js_int p v = (case v of JNum n \<Rightarrow> p n | _ \<Rightarrow> False)"

definition js_is :: "string \<Rightarrow> json \<Rightarrow> bool" where
  "js_is s v = (v = JStr s)"

definition js_one_of :: "string list \<Rightarrow> json \<Rightarrow> bool" where
  "js_one_of ss v = (case v of JStr s \<Rightarrow> s \<in> set ss | _ \<Rightarrow> False)"

definition digest_json :: "digest \<Rightarrow> json" where
  "digest_json d = JObj [(''alg'', JStr (digest_alg d)), (''value'', JStr (digest_value d))]"

definition digest_table :: "(string \<times> (json \<Rightarrow> bool)) list" where
  "digest_table = [(''alg'', js_is ''SHA-256''), (''value'', js_text base64Url32_ok)]"

definition js_digest :: "json \<Rightarrow> bool" where
  "js_digest v = strict_json digest_table v"

subsection \<open>Round trips of the encodings\<close>

lemma of_char_less_256: "(of_char c :: nat) < 256"
  by simp

lemma utf8_char_ascii: "(of_char c :: nat) < 128 \<Longrightarrow> utf8_char c = [of_nat (of_char c)]"
  by (simp add: utf8_char_def)

lemma utf8_chars_char: "utf8_chars (utf8_char c @ bs) = map_option ((#) c) (utf8_chars bs)"
proof (cases "(of_char c :: nat) < 128")
  case True
  then have "unat (of_nat (of_char c) :: byte) = of_char c" by (simp add: unat_of_nat)
  with True show ?thesis by (simp add: utf8_char_ascii)
next
  case False
  define n where "n = (of_char c :: nat)"
  have n: "128 \<le> n" "n < 256" "c = char_of n" using False by (simp_all add: n_def)
  then have d: "n div 64 = 2 \<or> n div 64 = 3" by linarith
  then have u: "unat (of_nat (192 + n div 64) :: byte) = 192 + n div 64"
    "unat (of_nat (128 + n mod 64) :: byte) = 128 + n mod 64"
    by (auto simp: unat_of_nat simp del: of_nat_add)
  have "n div 64 * 64 + n mod 64 = n" by simp
  then show ?thesis using n d u by (simp add: utf8_char_def n_def [symmetric] Let_def del: of_nat_add)
qed

lemma utf8_chars_encode: "utf8_chars (utf8_encode s) = Some s"
  by (induction s) (simp_all add: utf8_encode_def utf8_chars_char)

lemma utf8_no_mark: "take 3 (utf8_encode s) \<noteq> [0xEF, 0xBB, 0xBF]"
proof (cases s)
  case (Cons c r)
  have "unat (hd (utf8_char c)) < 196"
  proof (cases "(of_char c :: nat) < 128")
    case True
    then show ?thesis by (simp add: utf8_char_ascii unat_of_nat)
  next
    case False
    have "(of_char c :: nat) div 64 < 4" using of_char_less_256 [of c] by linarith
    then show ?thesis using False by (simp add: utf8_char_def Let_def unat_of_nat del: of_nat_add)
  qed
  moreover have "hd (utf8_encode s) = hd (utf8_char c)" by (simp add: Cons utf8_encode_def utf8_char_def Let_def)
  ultimately have "hd (utf8_encode s) \<noteq> 0xEF" by auto
  then show ?thesis by (cases "utf8_encode s") auto
qed (simp add: utf8_encode_def)

lemma utf8_roundtrip [simp]: "utf8_decode (utf8_encode s) = Some s"
  using utf8_no_mark [of s] by (simp add: utf8_decode_def utf8_chars_encode)

lemma utf8_encode_inj: "utf8_encode s = utf8_encode t \<longleftrightarrow> s = t"
  using utf8_chars_encode by (metis option.inject)

lemma hex_index: "n < 16 \<Longrightarrow> index_of (hex_chars ! n) hex_chars = Some n"
proof -
  have "list_all (\<lambda>n. index_of (hex_chars ! n) hex_chars = Some n) [0..<16]" by code_simp
  then show "n < 16 \<Longrightarrow> index_of (hex_chars ! n) hex_chars = Some n" by (simp add: list_all_iff)
qed

lemma hex_roundtrip [simp]: "hex_decode (hex_encode bs) = bs"
proof (induction bs)
  case (Cons b bs)
  have "unat b div 16 < 16" using unat_byte_bound [of b] by linarith
  moreover have "16 * (unat b div 16) + unat b mod 16 = unat b" by simp
  ultimately show ?case using Cons
    by (simp add: hex_encode_def hex_index del: of_nat_add of_nat_mult)
qed (simp add: hex_encode_def)

lemma hex_chars_lower: "n < 16 \<Longrightarrow> is_hex_lower (hex_chars ! n)"
proof -
  have "list_all (\<lambda>n. is_hex_lower (hex_chars ! n)) [0..<16]" by code_simp
  then show "n < 16 \<Longrightarrow> is_hex_lower (hex_chars ! n)" by (simp add: list_all_iff)
qed

lemma hex_encode_hex: "list_all is_hex_lower (hex_encode bs)"
proof (induction bs)
  case (Cons b bs)
  have "unat b div 16 < 16" using unat_byte_bound [of b] by linarith
  then show ?case using Cons by (simp add: hex_encode_def hex_chars_lower)
qed (simp add: hex_encode_def)

lemma length_hex_encode: "length (hex_encode bs) = 2 * length bs"
  by (induction bs) (simp_all add: hex_encode_def)

subsection \<open>Sorting keys\<close>

lemma map_of_js_insert: "k \<notin> fst ` set fs \<Longrightarrow> map_of (js_insert key_le (k, v) fs) = (map_of fs)(k \<mapsto> v)"
  by (induction fs) auto

lemma map_of_js_sort: "distinct (map fst fs) \<Longrightarrow> map_of (js_sort key_le fs) = map_of fs"
proof (induction fs)
  case (Cons f fs)
  obtain k v where f: "f = (k, v)" by fastforce
  have "k \<notin> fst ` set (js_sort key_le fs)" using Cons.prems f by simp
  then show ?case using Cons f by (simp add: js_sort_def map_of_js_insert)
qed (simp add: js_sort_def)

lemma map_of_map_prod: "map_of (map (map_prod id f) fs) k = map_option f (map_of fs k)"
  by (induction fs) auto

lemma map_fst_map_prod [simp]: "map fst (map (map_prod id f) fs) = map fst fs"
  by (induction fs) auto

lemma json_ok_obj: "json_ok (JObj fs) \<longleftrightarrow> distinct (map fst fs) \<and> (\<forall>k v. map_of fs k = Some v \<longrightarrow> json_ok v)"
proof -
  have "list_all (\<lambda>p. snd p) (map (map_prod id json_ok) fs) \<longleftrightarrow> (\<forall>(k, v)\<in>set fs. json_ok v)"
    by (auto simp: list_all_iff map_prod_def)
  then show ?thesis by (auto simp: map_of_eq_Some_iff)
qed

lemma json_ok_arr: "json_ok (JArr xs) \<longleftrightarrow> (\<forall>x\<in>set xs. json_ok x)"
  by (simp add: list_all_iff)

lemma jget_norm: "json_ok v \<Longrightarrow> jget (json_norm v) k = map_option json_norm (jget v k)"
  by (cases v) (simp_all add: map_of_js_sort map_of_map_prod)

lemma jget_ok: "json_ok v \<Longrightarrow> jget v k = Some x \<Longrightarrow> json_ok x"
  by (cases v) (auto simp: json_ok_obj simp del: json_ok.simps)

lemma json_norm_str [simp]: "json_norm v = JStr s \<longleftrightarrow> v = JStr s"
  by (cases v) auto

lemma json_norm_num [simp]: "json_norm v = JNum n \<longleftrightarrow> v = JNum n"
  by (cases v) auto

lemma jtext_norm: "json_ok v \<Longrightarrow> jtext (json_norm v) k = jtext v k"
proof -
  assume v: "json_ok v"
  show "jtext (json_norm v) k = jtext v k"
  proof (cases "jget v k")
    case (Some x)
    then show ?thesis by (cases x) (simp_all add: jtext_def jget_norm [OF v])
  qed (simp add: jtext_def jget_norm [OF v])
qed

subsection \<open>What the code relies on\<close>

named_theorems norm_stable \<open>tests of JSON values that do not depend on the order of keys\<close>

lemma norm_stable_basic [norm_stable]:
  "js_text p (json_norm v) = js_text p v" "js_int q (json_norm v) = js_int q v" "js_is s (json_norm v) = js_is s v"
  "js_one_of ss (json_norm v) = js_one_of ss v"
  by (cases v; simp add: js_text_def js_int_def js_is_def js_one_of_def)+

lemma strict_json_norm:
  assumes "json_ok v" and "\<And>k p x. (k, p) \<in> set table \<Longrightarrow> json_ok x \<Longrightarrow> p (json_norm x) = p x"
  shows "strict_json table (json_norm v) = strict_json table v"
proof (cases v)
  case (JObj fs)
  let ?gs = "js_sort key_le (map (map_prod id json_norm) fs)"
  have fs: "distinct (map fst fs)" "\<And>k x. map_of fs k = Some x \<Longrightarrow> json_ok x"
    using assms(1) unfolding JObj json_ok_obj by auto
  have keys: "set (map fst ?gs) = set (map fst fs)" "distinct (map fst ?gs)"
    using fs(1) by (force, simp)
  have "(case map_of ?gs k of None \<Rightarrow> False | Some x \<Rightarrow> p x) = (case map_of fs k of None \<Rightarrow> False | Some x \<Rightarrow> p x)"
    if "(k, p) \<in> set table" for k p
    using assms(2) [OF that] fs by (cases "map_of fs k") (simp_all add: map_of_js_sort map_of_map_prod)
  then have "list_all (\<lambda>(k, p). case map_of ?gs k of None \<Rightarrow> False | Some x \<Rightarrow> p x) table
      = list_all (\<lambda>(k, p). case map_of fs k of None \<Rightarrow> False | Some x \<Rightarrow> p x) table"
    by (intro list.pred_cong refl) auto
  then show ?thesis using keys fs(1) by (simp add: JObj strict_json_def list_all_iff)
qed (simp_all add: strict_json_def)

lemma js_digest_norm [norm_stable]: "json_ok v \<Longrightarrow> js_digest (json_norm v) = js_digest v"
  unfolding js_digest_def by (rule strict_json_norm) (auto simp: digest_table_def norm_stable)

lemma strict_json_field:
  assumes "strict_json table v" and "(k, p) \<in> set table"
  shows "\<exists>x. jget v k = Some x \<and> p x"
proof -
  obtain fs where v: "v = JObj fs" using assms(1) by (cases v) (auto simp: strict_json_def)
  have "case map_of fs k of None \<Rightarrow> False | Some x \<Rightarrow> p x"
    using assms unfolding v strict_json_def by (auto simp: list_all_iff)
  then show ?thesis by (cases "map_of fs k") (auto simp: v)
qed

lemma strict_json_text:
  assumes "strict_json table v" and "(k, js_text p) \<in> set table"
  shows "jget v k = Some (JStr (jtext v k)) \<and> p (jtext v k)"
proof -
  obtain x where x: "jget v k = Some x" "js_text p x" using strict_json_field [OF assms] by blast
  then show ?thesis by (cases x) (simp_all add: jtext_def js_text_def)
qed

lemma digest_json_ok [simp]: "json_ok (digest_json d)"
  by (simp add: digest_json_def)

lemma js_digest_json: "js_digest (digest_json d) \<longleftrightarrow> digest_ok d"
  by (simp add: js_digest_def digest_json_def strict_json_def digest_table_def js_is_def js_text_def digest_ok_def)

locale canonical_codec =
  fixes jc :: json_codec
  assumes canon_norm: "canonicalize jc (json_norm v) = canonicalize jc v"
    and parse_canon: "json_ok v \<Longrightarrow> json_parse jc (canonicalize jc v) = Some (json_norm v)"
begin

lemma canon_eq_iff: "json_ok v \<Longrightarrow> json_ok w \<Longrightarrow> canonicalize jc v = canonicalize jc w \<longleftrightarrow> json_norm v = json_norm w"
  using parse_canon canon_norm by (metis option.inject)

lemma bytes_eq_iff:
  "json_ok v \<Longrightarrow> json_ok w \<Longrightarrow> canonicalJsonBytes jc v = canonicalJsonBytes jc w \<longleftrightarrow> json_norm v = json_norm w"
  by (simp add: canonicalJsonBytes_def utf8_encode_inj canon_eq_iff)

lemma bytes_norm: "canonicalJsonBytes jc (json_norm v) = canonicalJsonBytes jc v"
  by (simp add: canonicalJsonBytes_def canon_norm)

lemma parse_exact: "json_ok v \<Longrightarrow> parseExactCanonicalJson jc (canonicalJsonBytes jc v) = Inr (json_norm v)"
  by (simp add: parseExactCanonicalJson_def canonicalJsonBytes_def parse_canon canon_norm)

text \<open>Whatever parses is the canonical text of its value, after a byte-order mark at most.\<close>

lemma parse_exact_Inr:
  assumes "parseExactCanonicalJson jc bs = Inr v"
  shows "utf8_decode bs = Some (canonicalize jc v)"
  using assms by (auto simp: parseExactCanonicalJson_def outcome_simps)

lemma parse_exact_mark:
  assumes "json_ok v"
  shows "parseExactCanonicalJson jc ([0xEF, 0xBB, 0xBF] @ canonicalJsonBytes jc v) = Inr (json_norm v)"
proof -
  have "utf8_decode ([0xEF, 0xBB, 0xBF] @ canonicalJsonBytes jc v) = Some (canonicalize jc v)"
    by (simp add: utf8_decode_def canonicalJsonBytes_def utf8_chars_encode numeral_3_eq_3)
  then show ?thesis by (simp add: parseExactCanonicalJson_def parse_canon [OF assms] canon_norm)
qed

end

end
