(* ===== verification/Encryption.thy ===== *)
theory Encryption
  imports Json
begin

text \<open>
  Protected content and key envelopes: \<open>src/protected-bundles/crypto/content.ts\<close>, \<open>recipient.ts\<close>, \<open>zeroize.ts\<close> and the
  schemas of \<open>src/schemas/crypto.ts\<close>. The objects that are written as canonical JSON are values of type \<open>json\<close> and their
  schemas tests of such values. The cipher (the package \<open>jose\<close>), SHA-256 and RSA-PSS are parameters, the record \<open>crypto\<close>; the locale
  \<open>encryption\<close> states what the code relies on: an envelope carries its header and its additional data in the clear, and opens
  with the key it was made for and never to another text; a signature verifies under the public key of its pair. The lemmas are the round trips through both kinds of envelope, and that what opens is
  bound to the expected context and commitments. The clearing of buffers has no effect on what is returned.
\<close>

subsection \<open>Schemas\<close>

definition token_char :: "char \<Rightarrow> bool" where
  "token_char c = (c \<in> set ''abcdefghijklmnopqrstuvwxyz0123456789!#$&^_.+-'')"

definition token_ok :: "string \<Rightarrow> bool" where
  "token_ok s = (s \<noteq> [] \<and> list_all token_char s)"

definition media_name_ok :: "string \<Rightarrow> bool" where
  "media_name_ok s = (token_ok s \<and> hd s \<in> set ''abcdefghijklmnopqrstuvwxyz0123456789'')"

definition mediaType_ok :: "string \<Rightarrow> bool" where
  "mediaType_ok s = (case split_on CHR '';'' s of
     [] \<Rightarrow> False
   | name # params \<Rightarrow>
       (let ns = split_on CHR ''/'' name in length ns = 2 \<and> list_all media_name_ok ns)
       \<and> list_all (\<lambda>p. let kv = split_on CHR ''='' p in length kv = 2 \<and> list_all token_ok kv) params)"

fun bundle_type_text :: "bundle_type \<Rightarrow> string" where
  "bundle_type_text BEvidence = ''evidence''"
| "bundle_type_text BVerification = ''verification''"
| "bundle_type_text BAssessment = ''assessment''"
| "bundle_type_text BAssistantSupport = ''assistant-support''"
| "bundle_type_text BListing = ''listing''"
| "bundle_type_text BAgreement = ''agreement''"
| "bundle_type_text BDispute = ''dispute''"
| "bundle_type_text BLogistics = ''logistics''"
| "bundle_type_text BAudit = ''audit''"
| "bundle_type_text BAuthoritativeSource = ''authoritative-source''"

definition bundleTypes :: "bundle_type list" where
  "bundleTypes = [BEvidence, BVerification, BAssessment, BAssistantSupport, BListing, BAgreement, BDispute, BLogistics,
     BAudit, BAuthoritativeSource]"

type_synonym json_table = "(string \<times> (json \<Rightarrow> bool)) list"

definition protectedPackage :: json_table where
  "protectedPackage = [(''schema'', js_is ''EVLLM_PROTECTED_PACKAGE_V1''), (''content_media_type'', js_text mediaType_ok),
     (''content_bytes'', js_text base64Url_ok), (''content_commitment_salt'', js_text base64Url32_ok),
     (''domain_payload_bytes'', js_text base64Url_ok), (''domain_payload_commitment_salt'', js_text base64Url32_ok)]"

definition protectedContentAadBase :: json_table where
  "protectedContentAadBase = [(''schema'', js_is ''EVLLM_PROTECTED_CONTENT_AAD_V1''), (''bundle_id'', js_text (urn_ok ''bundle'')),
     (''bundle_version'', js_int positiveSafeInteger_ok), (''domain_resource_version'', js_int positiveSafeInteger_ok),
     (''domain_payload_commitment'', js_digest), (''custody_controller_org_id'', js_text (urn_ok ''org'')),
     (''primary_repository_id'', js_text (urn_ok ''repository'')), (''content_schema_id'', js_text (urn_ok ''schema'')),
     (''content_schema_version'', js_text semver_ok), (''access_class'', js_is ''restricted''),
     (''initial_criticality_class'', js_one_of [''decision-critical'', ''supplementary'']),
     (''criticality_profile_id'', js_text (urn_ok ''profile'')), (''criticality_profile_version'', js_int positiveSafeInteger_ok)]"

definition protectedContentAadVariant :: "bundle_type \<Rightarrow> json_table" where
  "protectedContentAadVariant t = protectedContentAadBase @
     [(''bundle_type'', js_is (bundle_type_text t)), (''domain_resource_id'', js_text (urn_ok (domainKindByBundleType t)))]"

definition protectedContentAad :: "json \<Rightarrow> bool" where
  "protectedContentAad v = list_ex (\<lambda>t. strict_json (protectedContentAadVariant t) v) bundleTypes"

definition base64url_chars :: "nat \<Rightarrow> string \<Rightarrow> bool" where
  "base64url_chars n s = (length s = n \<and> list_all (\<lambda>c. c \<in> set base64url_alphabet) s)"

definition contentJwe :: json_table where
  "contentJwe = [(''protected'', js_text base64Url_ok), (''aad'', js_text base64Url_ok), (''iv'', js_text (base64url_chars 16)),
     (''ciphertext'', js_text base64Url_ok), (''tag'', js_text (base64url_chars 22))]"

definition recipientJwe :: json_table where
  "recipientJwe = [(''protected'', js_text base64Url_ok), (''aad'', js_text base64Url_ok),
     (''encrypted_key'', js_text base64Url_ok), (''iv'', js_text (base64url_chars 16)),
     (''ciphertext'', js_text base64Url_ok), (''tag'', js_text (base64url_chars 22))]"

definition recipientKid_ok :: "string \<Rightarrow> bool" where
  "recipientKid_ok s = (let p = ''urn:ietf:params:oauth:jwk-thumbprint:sha-256:'' in
     starts_with p s \<and> base64url_chars 43 (drop (length p) s))"

definition purpose_ok :: "string \<Rightarrow> bool" where
  "purpose_ok s = (s \<noteq> [] \<and> length s \<le> 64 \<and> hd s \<in> set ''abcdefghijklmnopqrstuvwxyz''
     \<and> list_all (\<lambda>c. c \<in> set ''abcdefghijklmnopqrstuvwxyz0123456789.-'') s)"

definition dekWrapContextBase :: json_table where
  "dekWrapContextBase = [(''schema'', js_is ''EVLLM_DEK_WRAP_CONTEXT_V1''), (''envelope_id'', js_text (urn_ok ''envelope'')),
     (''bundle_id'', js_text (urn_ok ''bundle'')), (''bundle_version'', js_int positiveSafeInteger_ok),
     (''bundle_type'', js_one_of (map bundle_type_text bundleTypes)), (''domain_resource_id'', js_text (\<lambda>s. True)),
     (''domain_resource_version'', js_int positiveSafeInteger_ok), (''domain_payload_commitment'', js_digest),
     (''content_commitment'', js_digest), (''content_envelope_digest'', js_digest), (''recipient_org_id'', js_text (urn_ok ''org'')),
     (''recipient_kid'', js_text recipientKid_ok)]"

definition controllerWrapContext :: json_table where
  "controllerWrapContext = dekWrapContextBase @ [(''authorization_id'', js_text (urn_ok ''authorization'')),
     (''scope'', js_is ''protected-bundle:key-administration''), (''purpose'', js_is ''controller-custody'')]"

definition grantWrapContext :: json_table where
  "grantWrapContext = dekWrapContextBase @ [(''authorization_id'', js_text (urn_ok ''grant'')),
     (''scope'', js_is ''protected-bundle:decrypt''), (''purpose'', js_text (\<lambda>s. purpose_ok s \<and> s \<noteq> ''controller-custody''))]"

definition dekWrapContext :: "json \<Rightarrow> bool" where
  "dekWrapContext v = ((strict_json controllerWrapContext v \<or> strict_json grantWrapContext v)
     \<and> list_ex (\<lambda>t. bundle_type_text t = jtext v ''bundle_type''
          \<and> urn_ok (domainKindByBundleType t) (jtext v ''domain_resource_id'')) bundleTypes)"

subsection \<open>Parameters\<close>

text \<open>
  A \<open>KeyObject\<close> by what the code asks of it. \<open>ko_spki\<close> is the exported public key; the two keys of a pair share it.
\<close>

record key_object =
  ko_private :: bool
  ko_asymmetricKeyType :: string
  ko_modulusLength :: nat
  ko_publicExponent :: nat
  ko_spki :: bytes

record jwe =
  jw_protected :: string
  jw_aad :: string
  jw_encrypted_key :: string
  jw_iv :: string
  jw_ciphertext :: string
  jw_tag :: string

text \<open>
  \<open>jo_encrypt\<close> is \<open>FlattenedEncrypt\<close> with a symmetric key: header, additional data, initialization vector, key and plaintext.
  \<open>jo_encrypt_to\<close> encrypts to a public key and takes the random bytes of the content key as well. Both and their inverses
  may reject.
\<close>

record crypto =
  cr_codec :: json_codec
  cr_sha256 :: "bytes \<Rightarrow> bytes"
  jo_encrypt :: "json \<Rightarrow> bytes \<Rightarrow> bytes \<Rightarrow> bytes \<Rightarrow> bytes \<Rightarrow> jwe option"
  jo_decrypt :: "jwe \<Rightarrow> bytes \<Rightarrow> bytes option"
  jo_encrypt_to :: "json \<Rightarrow> bytes \<Rightarrow> bytes \<Rightarrow> key_object \<Rightarrow> bytes \<Rightarrow> bytes \<Rightarrow> jwe option"
  jo_decrypt_with :: "jwe \<Rightarrow> key_object \<Rightarrow> bytes option"
  cr_sign :: "key_object \<Rightarrow> bytes \<Rightarrow> bytes \<Rightarrow> bytes" \<comment> \<open>key, random salt, data\<close>
  cr_verify :: "key_object \<Rightarrow> bytes \<Rightarrow> bytes \<Rightarrow> bool"

datatype crypto_error = CryptoTypeError | CryptoSchemaRejected | CryptoRejected

definition canonical :: "crypto \<Rightarrow> json \<Rightarrow> bytes" where
  "canonical cr v = canonicalJsonBytes (cr_codec cr) v"

definition parse_exact_json :: "crypto \<Rightarrow> bytes \<Rightarrow> crypto_error + json" where
  "parse_exact_json cr bs = map_error (\<lambda>_. CryptoTypeError) (parseExactCanonicalJson (cr_codec cr) bs)"

definition sha256_of :: "crypto \<Rightarrow> bytes \<Rightarrow> digest" where
  "sha256_of cr bs = \<lparr>digest_alg = ''SHA-256'', digest_value = base64url_encode (cr_sha256 cr bs)\<rparr>"

definition crypto_sha256 :: "crypto \<Rightarrow> bytes \<Rightarrow> crypto_error + digest" where
  "crypto_sha256 cr bs = parse_with digest_ok CryptoSchemaRejected (sha256_of cr bs)"

subsection \<open>Content\<close>

definition CONTENT_COMMITMENT_DOMAIN :: bytes where
  "CONTENT_COMMITMENT_DOMAIN = utf8_encode ''EVLLM_PROTECTED_CONTENT_COMMITMENT_V1''"

definition DOMAIN_COMMITMENT_DOMAIN :: bytes where
  "DOMAIN_COMMITMENT_DOMAIN = utf8_encode ''EVLLM_DOMAIN_PAYLOAD_COMMITMENT_V1''"

definition protectedContentHeader :: json where
  "protectedContentHeader = JObj [(''alg'', JStr ''dir''), (''cty'', JStr ''application/vnd.evllm.protected-package+json''),
     (''enc'', JStr ''A256GCM''), (''typ'', JStr ''application/vnd.evllm.protected-content+jwe'')]"

definition be64 :: "nat \<Rightarrow> bytes" where
  "be64 n = map (\<lambda>i. of_nat (n div 256 ^ i)) [7, 6, 5, 4, 3, 2, 1, 0]"

definition commitment_digest :: "crypto \<Rightarrow> bytes \<Rightarrow> bytes \<Rightarrow> bytes \<Rightarrow> digest" where
  "commitment_digest cr dom_tag salt v = sha256_of cr (dom_tag @ [0] @ salt @ be64 (length v) @ v)"

definition commitment :: "crypto \<Rightarrow> bytes \<Rightarrow> bytes \<Rightarrow> bytes \<Rightarrow> crypto_error + digest" where
  "commitment cr dom_tag salt v = parse_with digest_ok CryptoSchemaRejected (commitment_digest cr dom_tag salt v)"

definition exactRandom :: "bytes \<Rightarrow> nat \<Rightarrow> crypto_error + bytes" where
  "exactRandom v n = rbind (check (length v \<noteq> n) CryptoTypeError) (\<lambda>_. Inr v)"

definition assertCanonicalDomainPayload :: "crypto \<Rightarrow> bytes \<Rightarrow> crypto_error + unit" where
  "assertCanonicalDomainPayload cr v = rbind (parse_exact_json cr v) (\<lambda>_. Inr ())"

fun jset :: "string \<Rightarrow> json \<Rightarrow> json \<Rightarrow> json" where
  "jset k v (JObj fs) = JObj (jm_set k v fs)"
| "jset k v w = w"

definition content_jwe_json :: "jwe \<Rightarrow> json" where
  "content_jwe_json j = JObj [(''protected'', JStr (jw_protected j)), (''aad'', JStr (jw_aad j)), (''iv'', JStr (jw_iv j)),
     (''ciphertext'', JStr (jw_ciphertext j)), (''tag'', JStr (jw_tag j))]"

definition jwe_of_json :: "json \<Rightarrow> jwe" where
  "jwe_of_json v = \<lparr>jw_protected = jtext v ''protected'', jw_aad = jtext v ''aad'', jw_encrypted_key = jtext v ''encrypted_key'',
     jw_iv = jtext v ''iv'', jw_ciphertext = jtext v ''ciphertext'', jw_tag = jtext v ''tag''\<rparr>"

record protect_input =
  ci_aad :: json
  ci_content :: bytes
  ci_contentMediaType :: string
  ci_domainPayload :: bytes

record protect_random =
  cr_dek :: bytes
  cr_iv :: bytes
  cr_contentSalt :: bytes
  cr_domainSalt :: bytes

record protected_content =
  pc_aad :: json
  pc_contentCommitment :: digest
  pc_contentEnvelopeDigest :: digest
  pc_dek :: bytes
  pc_domainPayloadCommitment :: digest
  pc_envelopeBytes :: bytes
  pc_packageBytes :: bytes

definition package_json :: "protect_input \<Rightarrow> bytes \<Rightarrow> bytes \<Rightarrow> json" where
  "package_json input contentSalt domainSalt = JObj [(''schema'', JStr ''EVLLM_PROTECTED_PACKAGE_V1''),
     (''content_media_type'', JStr (ci_contentMediaType input)),
     (''content_bytes'', JStr (base64url_encode (ci_content input))),
     (''content_commitment_salt'', JStr (base64url_encode contentSalt)),
     (''domain_payload_bytes'', JStr (base64url_encode (ci_domainPayload input))),
     (''domain_payload_commitment_salt'', JStr (base64url_encode domainSalt))]"

definition protectContent :: "crypto \<Rightarrow> protect_random \<Rightarrow> protect_input \<Rightarrow> crypto_error + protected_content" where
  "protectContent cr rnd input =
     rbind (assertCanonicalDomainPayload cr (ci_domainPayload input)) (\<lambda>_.
     rbind (exactRandom (cr_dek rnd) 32) (\<lambda>dek.
     rbind (exactRandom (cr_iv rnd) 12) (\<lambda>iv.
     rbind (exactRandom (cr_contentSalt rnd) 32) (\<lambda>contentSalt.
     rbind (exactRandom (cr_domainSalt rnd) 32) (\<lambda>domainSalt.
     rbind (commitment cr CONTENT_COMMITMENT_DOMAIN contentSalt (ci_content input)) (\<lambda>contentCommitment.
     rbind (commitment cr DOMAIN_COMMITMENT_DOMAIN domainSalt (ci_domainPayload input)) (\<lambda>domainPayloadCommitment.
     rbind (parse_with protectedContentAad CryptoSchemaRejected
              (jset ''domain_payload_commitment'' (digest_json domainPayloadCommitment) (ci_aad input))) (\<lambda>aad.
     rbind (parse_with (strict_json protectedPackage) CryptoSchemaRejected (package_json input contentSalt domainSalt)) (\<lambda>package.
     let packageBytes = canonical cr package; aadBytes = canonical cr aad in
     rbind (from_option CryptoRejected (jo_encrypt cr protectedContentHeader aadBytes iv dek packageBytes)) (\<lambda>encrypted.
     rbind (parse_with (strict_json contentJwe) CryptoSchemaRejected (content_jwe_json encrypted)) (\<lambda>envelope.
     let envelopeBytes = canonical cr envelope in
     rbind (crypto_sha256 cr envelopeBytes) (\<lambda>envelopeDigest.
     Inr \<lparr>pc_aad = aad, pc_contentCommitment = contentCommitment, pc_contentEnvelopeDigest = envelopeDigest, pc_dek = dek,
          pc_domainPayloadCommitment = domainPayloadCommitment, pc_envelopeBytes = envelopeBytes,
          pc_packageBytes = packageBytes\<rparr>))))))))))))"

definition open_package :: "crypto \<Rightarrow> json \<Rightarrow> digest \<Rightarrow> bytes \<Rightarrow> crypto_error + (bytes \<times> bytes)" where
  "open_package cr aad expected plaintext =
     rbind (parse_exact_json cr plaintext) (\<lambda>p.
     rbind (parse_with (strict_json protectedPackage) CryptoSchemaRejected p) (\<lambda>package.
     let content = base64url_decode (jtext package ''content_bytes'');
         domainPayload = base64url_decode (jtext package ''domain_payload_bytes'') in
     rbind (assertCanonicalDomainPayload cr domainPayload) (\<lambda>_.
     rbind (commitment cr CONTENT_COMMITMENT_DOMAIN (base64url_decode (jtext package ''content_commitment_salt'')) content)
       (\<lambda>contentCommitment.
     rbind (commitment cr DOMAIN_COMMITMENT_DOMAIN (base64url_decode (jtext package ''domain_payload_commitment_salt''))
              domainPayload) (\<lambda>domainCommitment.
     rbind (check (Some (JStr (digest_value domainCommitment)) \<noteq> Option.bind (jget aad ''domain_payload_commitment'') (\<lambda>d. jget d ''value'')
                   \<or> digest_alg contentCommitment \<noteq> digest_alg expected
                   \<or> digest_value contentCommitment \<noteq> digest_value expected) CryptoTypeError) (\<lambda>_.
     Inr (content, domainPayload)))))))"

definition openProtectedContent ::
  "crypto \<Rightarrow> bytes \<Rightarrow> bytes \<Rightarrow> json \<Rightarrow> digest \<Rightarrow> crypto_error + (bytes \<times> bytes)" where
  "openProtectedContent cr envelopeBytes dek expectedAad expectedContentCommitment =
     rbind (check (length dek \<noteq> 32) CryptoTypeError) (\<lambda>_.
     rbind (parse_exact_json cr envelopeBytes) (\<lambda>e.
     rbind (parse_with (strict_json contentJwe) CryptoSchemaRejected e) (\<lambda>envelope.
     rbind (parse_exact_json cr (base64url_decode (jtext envelope ''protected''))) (\<lambda>header.
     rbind (check (canonical cr header \<noteq> canonical cr protectedContentHeader) CryptoTypeError) (\<lambda>_.
     rbind (parse_exact_json cr (base64url_decode (jtext envelope ''aad''))) (\<lambda>a.
     rbind (parse_with protectedContentAad CryptoSchemaRejected a) (\<lambda>aad.
     rbind (check (canonical cr aad \<noteq> canonical cr expectedAad) CryptoTypeError) (\<lambda>_.
     rbind (from_option CryptoRejected (jo_decrypt cr (jwe_of_json envelope) dek)) (\<lambda>plaintext.
     open_package cr aad expectedContentCommitment plaintext)))))))))"

subsection \<open>Key envelopes\<close>

definition is_rsa3072 :: "key_object \<Rightarrow> bool" where
  "is_rsa3072 k = (ko_asymmetricKeyType k = ''rsa'' \<and> ko_modulusLength k = 3072 \<and> ko_publicExponent k = 65537)"

definition assertRsa3072PublicKey :: "key_object \<Rightarrow> crypto_error + unit" where
  "assertRsa3072PublicKey k = check (\<not> is_rsa3072 k) CryptoTypeError"

definition rsaPublicKeySpkiSha256 :: "crypto \<Rightarrow> key_object \<Rightarrow> crypto_error + digest" where
  "rsaPublicKeySpkiSha256 cr k = rbind (assertRsa3072PublicKey k) (\<lambda>_. crypto_sha256 cr (ko_spki k))"

definition dek_header :: "string \<Rightarrow> json" where
  "dek_header kid = JObj [(''alg'', JStr ''RSA-OAEP-256''), (''cty'', JStr ''application/octet-stream''),
     (''enc'', JStr ''A256GCM''), (''kid'', JStr kid), (''typ'', JStr ''application/vnd.evllm.dek-envelope+jwe'')]"

definition recipient_jwe_json :: "jwe \<Rightarrow> json" where
  "recipient_jwe_json j = JObj [(''protected'', JStr (jw_protected j)), (''aad'', JStr (jw_aad j)),
     (''encrypted_key'', JStr (jw_encrypted_key j)), (''iv'', JStr (jw_iv j)), (''ciphertext'', JStr (jw_ciphertext j)),
     (''tag'', JStr (jw_tag j))]"

record wrapped_dek =
  wd_commitment :: digest
  wd_envelopeBytes :: bytes

text \<open>\<open>iv\<close> are the 12 random bytes of \<open>wrapDek\<close>, \<open>seed\<close> the random bytes \<open>jose\<close> draws.\<close>

definition wrapDek :: "crypto \<Rightarrow> bytes \<Rightarrow> bytes \<Rightarrow> json \<Rightarrow> bytes \<Rightarrow> key_object \<Rightarrow> crypto_error + wrapped_dek" where
  "wrapDek cr iv seed contextInput dek publicKey =
     rbind (check (length dek \<noteq> 32) CryptoTypeError) (\<lambda>_.
     rbind (assertRsa3072PublicKey publicKey) (\<lambda>_.
     rbind (parse_with dekWrapContext CryptoSchemaRejected contextInput) (\<lambda>context.
     rbind (from_option CryptoRejected
              (jo_encrypt_to cr (dek_header (jtext context ''recipient_kid'')) (canonical cr context) iv publicKey seed dek)) (\<lambda>encrypted.
     rbind (parse_with (strict_json recipientJwe) CryptoSchemaRejected (recipient_jwe_json encrypted)) (\<lambda>envelope.
     let envelopeBytes = canonical cr envelope in
     rbind (crypto_sha256 cr envelopeBytes) (\<lambda>d.
     Inr \<lparr>wd_commitment = d, wd_envelopeBytes = envelopeBytes\<rparr>))))))"

definition unwrapDek :: "crypto \<Rightarrow> bytes \<Rightarrow> key_object \<Rightarrow> json \<Rightarrow> crypto_error + bytes" where
  "unwrapDek cr envelopeBytes privateKey expectedContext =
     rbind (parse_exact_json cr envelopeBytes) (\<lambda>e.
     rbind (parse_with (strict_json recipientJwe) CryptoSchemaRejected e) (\<lambda>envelope.
     rbind (parse_exact_json cr (base64url_decode (jtext envelope ''aad''))) (\<lambda>c.
     rbind (parse_with dekWrapContext CryptoSchemaRejected c) (\<lambda>context.
     rbind (check (canonical cr context \<noteq> canonical cr expectedContext) CryptoTypeError) (\<lambda>_.
     rbind (parse_exact_json cr (base64url_decode (jtext envelope ''protected''))) (\<lambda>header.
     rbind (check (canonical cr header \<noteq> canonical cr (dek_header (jtext context ''recipient_kid''))) CryptoTypeError) (\<lambda>_.
     rbind (from_option CryptoRejected (jo_decrypt_with cr (jwe_of_json envelope) privateKey)) (\<lambda>plaintext.
     rbind (check (length plaintext \<noteq> 32) CryptoTypeError) (\<lambda>_.
     Inr plaintext)))))))))"

definition verify_envelope :: "crypto \<Rightarrow> digest \<Rightarrow> json \<Rightarrow> bytes \<Rightarrow> crypto_error + bool" where
  "verify_envelope cr expected expectedContext envelopeBytes =
     rbind (parse_exact_json cr envelopeBytes) (\<lambda>e.
     rbind (parse_with (strict_json recipientJwe) CryptoSchemaRejected e) (\<lambda>envelope.
     rbind (parse_exact_json cr (base64url_decode (jtext envelope ''aad''))) (\<lambda>c.
     rbind (parse_with dekWrapContext CryptoSchemaRejected c) (\<lambda>context.
     if canonical cr context \<noteq> canonical cr expectedContext then Inr False
     else rbind (parse_exact_json cr (base64url_decode (jtext envelope ''protected''))) (\<lambda>header.
       if canonical cr header \<noteq> canonical cr (dek_header (jtext context ''recipient_kid'')) then Inr False
       else if length (base64url_decode (jtext envelope ''encrypted_key'')) \<noteq> 384
          \<or> length (base64url_decode (jtext envelope ''iv'')) \<noteq> 12
          \<or> length (base64url_decode (jtext envelope ''ciphertext'')) \<noteq> 32
          \<or> length (base64url_decode (jtext envelope ''tag'')) \<noteq> 16 then Inr False
       else rbind (crypto_sha256 cr envelopeBytes) (\<lambda>d. Inr (digest_value d = digest_value expected)))))))"

definition verifyWrappedDekEnvelope :: "crypto \<Rightarrow> digest \<Rightarrow> json \<Rightarrow> bytes \<Rightarrow> bool" where
  "verifyWrappedDekEnvelope cr expected context envelopeBytes =
     (case verify_envelope cr expected context envelopeBytes of Inl e \<Rightarrow> False | Inr b \<Rightarrow> b)"

subsection \<open>Possession of a key\<close>

record signed_proof =
  sp_message :: json
  sp_signature :: string

record key_possession_proof =
  kp_algorithm :: string
  kp_signature :: string

definition keyPossessionPayload :: "crypto \<Rightarrow> signed_proof \<Rightarrow> bytes" where
  "keyPossessionPayload cr p = canonical cr (JObj [(''schema'', JStr ''EVLLM_RSA_KEY_POSSESSION_PROOF_V1''),
     (''acknowledgement_message'', sp_message p),
     (''identity_signature_sha256'', JStr (base64url_encode (cr_sha256 cr (hex_decode (drop 2 (sp_signature p))))))])"

definition assertRsa3072PrivateKey :: "key_object \<Rightarrow> crypto_error + unit" where
  "assertRsa3072PrivateKey k = check (\<not> ko_private k \<or> \<not> is_rsa3072 k) CryptoTypeError"

definition createRsaKeyPossessionProof ::
  "crypto \<Rightarrow> bytes \<Rightarrow> key_object \<Rightarrow> signed_proof \<Rightarrow> crypto_error + key_possession_proof" where
  "createRsaKeyPossessionProof cr salt privateKey acknowledgement =
     rbind (assertRsa3072PrivateKey privateKey) (\<lambda>_.
     Inr \<lparr>kp_algorithm = ''PS256'',
          kp_signature = base64url_encode (cr_sign cr privateKey salt (keyPossessionPayload cr acknowledgement))\<rparr>)"

definition verifyRsaKeyPossessionProof :: "crypto \<Rightarrow> key_object \<Rightarrow> signed_proof \<Rightarrow> key_possession_proof \<Rightarrow> bool" where
  "verifyRsaKeyPossessionProof cr publicKey acknowledgement pr =
     (if \<not> is_rsa3072 publicKey then False
      else if kp_algorithm pr \<noteq> ''PS256'' \<or> \<not> base64url_chars 512 (kp_signature pr) then False
      else cr_verify cr publicKey (keyPossessionPayload cr acknowledgement) (base64url_decode (kp_signature pr)))"

definition withZeroizedBytes :: "bytes \<Rightarrow> (bytes \<Rightarrow> 'a) \<Rightarrow> 'a \<times> bytes" where
  "withZeroizedBytes secret operation = (operation secret, replicate (length secret) 0)"

subsection \<open>Encodings and schemas\<close>

lemma base64Url_ok_encode [simp]: "base64Url_ok (base64url_encode bs)"
proof -
  have "(4 * n + 2) div 3 mod 4 \<noteq> 1" for n :: nat by presburger
  then show ?thesis
    unfolding base64Url_ok_def base64url_canonical_iff
    using base64url_encode_alphabet by (auto simp: base64url_encode_def length_sextets)
qed

lemma base64Url32_ok_encode [simp]: "length bs = 32 \<Longrightarrow> base64Url32_ok (base64url_encode bs)"
  by (auto simp: base64Url32_ok_iff)

lemma base64url_chars_encode: "(4 * length bs + 2) div 3 = n \<Longrightarrow> base64url_chars n (base64url_encode bs)"
  using base64url_encode_alphabet by (simp add: base64url_chars_def base64url_encode_def length_sextets)

lemma jtext_obj: "jtext (JObj fs) k = (case map_of fs k of Some (JStr s) \<Rightarrow> s | _ \<Rightarrow> [])"
  by (simp add: jtext_def)

lemma accepted_json_ok:
  assumes "strict_json table v" and "\<And>k p x. (k, p) \<in> set table \<Longrightarrow> p x \<Longrightarrow> json_ok x"
  shows "json_ok v"
proof -
  obtain fs where v: "v = JObj fs" and fs: "distinct (map fst fs)" "\<And>f. f \<in> set (map fst fs) \<Longrightarrow> f \<in> set (map fst table)"
    using assms(1) by (cases v) (auto simp: strict_json_def list_all_iff)
  have "json_ok x" if "map_of fs k = Some x" for k x
  proof -
    have "k \<in> set (map fst fs)" using that by (force dest: map_of_SomeD)
    then obtain p where "(k, p) \<in> set table" using fs(2) by force
    then show ?thesis using strict_json_field [OF assms(1)] assms(2) that by (fastforce simp: v)
  qed
  then show ?thesis unfolding v json_ok_obj using fs(1) by blast
qed

lemma basic_json_ok: "js_text p x \<Longrightarrow> json_ok x" "js_int q x \<Longrightarrow> json_ok x" "js_is s x \<Longrightarrow> json_ok x" "js_one_of ss x \<Longrightarrow> json_ok x"
  by (cases x; simp add: js_text_def js_int_def js_is_def js_one_of_def)+

lemma js_digest_ok: "js_digest v \<Longrightarrow> json_ok v"
  unfolding js_digest_def by (rule accepted_json_ok) (auto simp: digest_table_def intro: basic_json_ok)

lemmas accepted_ok = basic_json_ok js_digest_ok

lemma aad_json_ok: "protectedContentAad v \<Longrightarrow> json_ok v"
  unfolding protectedContentAad_def list_ex_iff
  by (elim bexE accepted_json_ok) (auto simp: protectedContentAadVariant_def protectedContentAadBase_def intro: accepted_ok)

lemma aad_norm: "json_ok v \<Longrightarrow> protectedContentAad (json_norm v) = protectedContentAad v"
proof -
  assume v: "json_ok v"
  have "strict_json (protectedContentAadVariant t) (json_norm v) = strict_json (protectedContentAadVariant t) v" for t
    by (rule strict_json_norm [OF v]) (auto simp: protectedContentAadVariant_def protectedContentAadBase_def norm_stable)
  then show ?thesis by (simp add: protectedContentAad_def)
qed

lemma context_json_ok: "dekWrapContext v \<Longrightarrow> json_ok v"
  unfolding dekWrapContext_def
  by (elim conjE disjE accepted_json_ok)
    (auto simp: controllerWrapContext_def grantWrapContext_def dekWrapContextBase_def intro: accepted_ok)

lemma context_norm: "json_ok v \<Longrightarrow> dekWrapContext (json_norm v) = dekWrapContext v"
proof -
  assume v: "json_ok v"
  have "strict_json controllerWrapContext (json_norm v) = strict_json controllerWrapContext v"
    by (rule strict_json_norm [OF v]) (auto simp: controllerWrapContext_def dekWrapContextBase_def norm_stable)
  moreover have "strict_json grantWrapContext (json_norm v) = strict_json grantWrapContext v"
    by (rule strict_json_norm [OF v]) (auto simp: grantWrapContext_def dekWrapContextBase_def norm_stable)
  ultimately show ?thesis by (simp add: dekWrapContext_def jtext_norm [OF v])
qed

lemma content_norm: "json_ok v \<Longrightarrow> strict_json contentJwe (json_norm v) = strict_json contentJwe v"
  by (rule strict_json_norm) (auto simp: contentJwe_def norm_stable)

lemma recipient_norm: "json_ok v \<Longrightarrow> strict_json recipientJwe (json_norm v) = strict_json recipientJwe v"
  by (rule strict_json_norm) (auto simp: recipientJwe_def norm_stable)

lemma package_norm: "json_ok v \<Longrightarrow> strict_json protectedPackage (json_norm v) = strict_json protectedPackage v"
  by (rule strict_json_norm) (auto simp: protectedPackage_def norm_stable)

lemmas table_norm = content_norm recipient_norm package_norm

lemma object_json_ok [simp]:
  "json_ok (content_jwe_json j)" "json_ok (recipient_jwe_json j)" "json_ok (package_json i s t)" "json_ok protectedContentHeader"
  "json_ok (dek_header kid)"
  by (simp_all add: content_jwe_json_def recipient_jwe_json_def package_json_def protectedContentHeader_def dek_header_def)

lemma package_texts:
  "jtext (package_json i s t) ''content_bytes'' = base64url_encode (ci_content i)"
  "jtext (package_json i s t) ''domain_payload_bytes'' = base64url_encode (ci_domainPayload i)"
  "jtext (package_json i s t) ''content_commitment_salt'' = base64url_encode s"
  "jtext (package_json i s t) ''domain_payload_commitment_salt'' = base64url_encode t"
  by (simp_all add: package_json_def jtext_obj)

lemma jwe_of_content: "jw_encrypted_key j = [] \<Longrightarrow> jwe_of_json (json_norm (content_jwe_json j)) = j"
  unfolding jwe_of_json_def jtext_norm [OF object_json_ok(1)] by (cases j) (simp add: content_jwe_json_def jtext_obj)

lemma jwe_of_recipient: "jwe_of_json (json_norm (recipient_jwe_json j)) = j"
  unfolding jwe_of_json_def jtext_norm [OF object_json_ok(2)] by (cases j) (simp add: recipient_jwe_json_def jtext_obj)

subsection \<open>What the code relies on\<close>

definition envelope_of :: "crypto \<Rightarrow> json \<Rightarrow> bytes \<Rightarrow> bytes \<Rightarrow> nat \<Rightarrow> jwe \<Rightarrow> bool" where
  "envelope_of cr h aad iv n j = (jw_protected j = base64url_encode (canonical cr h) \<and> jw_aad j = base64url_encode aad
     \<and> jw_iv j = base64url_encode iv \<and> (\<exists>c. length c = n \<and> jw_ciphertext j = base64url_encode c)
     \<and> (\<exists>t. length t = 16 \<and> jw_tag j = base64url_encode t))"

definition key_pair :: "key_object \<Rightarrow> key_object \<Rightarrow> bool" where
  "key_pair pub priv = (ko_private priv \<and> ko_spki priv = ko_spki pub)"

locale encryption = canonical_codec "cr_codec cr" for cr :: crypto +
  assumes sha_length: "length (cr_sha256 cr bs) = 32"
    and encrypt: "length iv = 12 \<Longrightarrow> length dek = 32 \<Longrightarrow> \<exists>j. jo_encrypt cr protectedContentHeader aad iv dek p = Some j
      \<and> envelope_of cr protectedContentHeader aad iv (length p) j \<and> jw_encrypted_key j = [] \<and> jo_decrypt cr j dek = Some p"
    and encrypt_to: "length iv = 12 \<Longrightarrow> is_rsa3072 pub \<Longrightarrow> \<exists>j. jo_encrypt_to cr (dek_header kid) aad iv pub seed p = Some j
      \<and> envelope_of cr (dek_header kid) aad iv (length p) j
      \<and> (\<exists>k. length k = 384 \<and> jw_encrypted_key j = base64url_encode k)
      \<and> (\<forall>priv. key_pair pub priv \<longrightarrow> jo_decrypt_with cr j priv = Some p)
      \<and> (\<forall>priv q. jo_decrypt_with cr j priv = Some q \<longrightarrow> q = p)"
    and sign_length: "length (cr_sign cr priv salt data) = 384"
    and sign_verify: "key_pair pub priv \<Longrightarrow> cr_verify cr pub data (cr_sign cr priv salt data)"
begin

lemma canonical_eq_iff: "json_ok v \<Longrightarrow> json_ok w \<Longrightarrow> canonical cr v = canonical cr w \<longleftrightarrow> json_norm v = json_norm w"
  by (simp add: canonical_def bytes_eq_iff)

lemma canonical_norm [simp]: "canonical cr (json_norm v) = canonical cr v"
  by (simp add: canonical_def bytes_norm)

lemma parse_canonical [simp]: "json_ok v \<Longrightarrow> parse_exact_json cr (canonical cr v) = Inr (json_norm v)"
  by (simp add: parse_exact_json_def canonical_def parse_exact)

lemma digest_ok_sha [simp]: "digest_ok (sha256_of cr bs)"
  by (simp add: digest_ok_def sha256_of_def sha_length)

lemma sha_total [simp]: "crypto_sha256 cr bs = Inr (sha256_of cr bs)"
  by (simp add: crypto_sha256_def parse_with_def)

lemma commitment_total [simp]: "commitment cr t s v = Inr (commitment_digest cr t s v)"
  by (simp add: commitment_def parse_with_def commitment_digest_def)

lemma envelope_tables:
  "envelope_of cr h aad iv n j \<Longrightarrow> length iv = 12 \<Longrightarrow> strict_json contentJwe (content_jwe_json j)"
  "envelope_of cr h aad iv n j \<Longrightarrow> length iv = 12 \<Longrightarrow> base64Url_ok (jw_encrypted_key j)
     \<Longrightarrow> strict_json recipientJwe (recipient_jwe_json j)"
  by (auto simp: envelope_of_def strict_json_def contentJwe_def recipientJwe_def content_jwe_json_def recipient_jwe_json_def
      js_text_def base64url_chars_encode)

lemma envelope_texts:
  assumes "envelope_of cr h aad iv n j"
  shows "jtext (content_jwe_json j) ''protected'' = base64url_encode (canonical cr h)"
    and "jtext (content_jwe_json j) ''aad'' = base64url_encode aad"
    and "jtext (recipient_jwe_json j) ''protected'' = base64url_encode (canonical cr h)"
    and "jtext (recipient_jwe_json j) ''aad'' = base64url_encode aad"
  using assms by (simp_all add: envelope_of_def content_jwe_json_def recipient_jwe_json_def jtext_obj)

lemma protect_Inr:
  assumes "protectContent cr rnd input = Inr r"
  shows "\<exists>j. length (cr_dek rnd) = 32 \<and> length (cr_iv rnd) = 12 \<and> pc_dek r = cr_dek rnd \<and> protectedContentAad (pc_aad r)
    \<and> strict_json protectedPackage (package_json input (cr_contentSalt rnd) (cr_domainSalt rnd))
    \<and> jo_encrypt cr protectedContentHeader (canonical cr (pc_aad r)) (cr_iv rnd) (cr_dek rnd)
        (canonical cr (package_json input (cr_contentSalt rnd) (cr_domainSalt rnd))) = Some j
    \<and> strict_json contentJwe (content_jwe_json j) \<and> pc_envelopeBytes r = canonical cr (content_jwe_json j)
    \<and> pc_contentEnvelopeDigest r = sha256_of cr (pc_envelopeBytes r)
    \<and> pc_contentCommitment r = commitment_digest cr CONTENT_COMMITMENT_DOMAIN (cr_contentSalt rnd) (ci_content input)
    \<and> pc_domainPayloadCommitment r = commitment_digest cr DOMAIN_COMMITMENT_DOMAIN (cr_domainSalt rnd) (ci_domainPayload input)
    \<and> pc_aad r = jset ''domain_payload_commitment'' (digest_json (pc_domainPayloadCommitment r)) (ci_aad input)
    \<and> assertCanonicalDomainPayload cr (ci_domainPayload input) = Inr ()"
  using assms by (auto simp: protectContent_def exactRandom_def Let_def outcome_simps)

lemma aad_commitment:
  assumes "protectedContentAad (jset ''domain_payload_commitment'' (digest_json d) a)"
  shows "jget (jset ''domain_payload_commitment'' (digest_json d) a) ''domain_payload_commitment'' = Some (digest_json d)"
proof (cases a)
  case (JObj fs)
  then show ?thesis by (simp add: jm_get_def [symmetric] jm_simps)
qed (use assms in \<open>auto simp: protectedContentAad_def list_ex_iff strict_json_def\<close>)

lemma open_own_package:
  assumes "protectContent cr rnd input = Inr r"
  shows "open_package cr (json_norm (pc_aad r)) (pc_contentCommitment r)
    (canonical cr (package_json input (cr_contentSalt rnd) (cr_domainSalt rnd))) = Inr (ci_content input, ci_domainPayload input)"
proof -
  let ?p = "package_json input (cr_contentSalt rnd) (cr_domainSalt rnd)"
  have r: "protectedContentAad (pc_aad r)" "strict_json protectedPackage ?p"
    "pc_contentCommitment r = commitment_digest cr CONTENT_COMMITMENT_DOMAIN (cr_contentSalt rnd) (ci_content input)"
    "pc_domainPayloadCommitment r = commitment_digest cr DOMAIN_COMMITMENT_DOMAIN (cr_domainSalt rnd) (ci_domainPayload input)"
    "pc_aad r = jset ''domain_payload_commitment'' (digest_json (pc_domainPayloadCommitment r)) (ci_aad input)"
    "assertCanonicalDomainPayload cr (ci_domainPayload input) = Inr ()"
    using protect_Inr [OF assms] by blast+
  have "jget (pc_aad r) ''domain_payload_commitment'' = Some (digest_json (pc_domainPayloadCommitment r))"
    using aad_commitment r(1) unfolding r(5) by blast
  then have "Option.bind (jget (json_norm (pc_aad r)) ''domain_payload_commitment'') (\<lambda>d. jget d ''value'')
      = Some (JStr (digest_value (pc_domainPayloadCommitment r)))"
    using jget_norm [OF aad_json_ok [OF r(1)]] by (simp add: jget_norm digest_json_ok) (simp add: digest_json_def)
  moreover have "jtext (json_norm ?p) k = jtext ?p k" for k by (rule jtext_norm) simp
  ultimately show ?thesis
    using r by (simp add: open_package_def parse_with_def package_norm package_texts base64url_roundtrip Let_def)
qed

text \<open>What \<open>protectContent\<close> made opens with its key, its context and its commitment, to the same content.\<close>

lemma protect_open:
  assumes "protectContent cr rnd input = Inr r"
  shows "openProtectedContent cr (pc_envelopeBytes r) (pc_dek r) (pc_aad r) (pc_contentCommitment r)
    = Inr (ci_content input, ci_domainPayload input)"
proof -
  let ?p = "canonical cr (package_json input (cr_contentSalt rnd) (cr_domainSalt rnd))"
  obtain j where r: "length (cr_dek rnd) = 32" "length (cr_iv rnd) = 12" "pc_dek r = cr_dek rnd" "protectedContentAad (pc_aad r)"
    "jo_encrypt cr protectedContentHeader (canonical cr (pc_aad r)) (cr_iv rnd) (cr_dek rnd) ?p = Some j"
    "strict_json contentJwe (content_jwe_json j)" "pc_envelopeBytes r = canonical cr (content_jwe_json j)"
    using protect_Inr [OF assms] by blast
  have j: "envelope_of cr protectedContentHeader (canonical cr (pc_aad r)) (cr_iv rnd) (length ?p) j"
    "jw_encrypted_key j = []" "jo_decrypt cr j (cr_dek rnd) = Some ?p"
    using encrypt [OF r(2,1), of "canonical cr (pc_aad r)" ?p] r(5) by auto
  have ok: "json_ok (pc_aad r)" using r(4) by (rule aad_json_ok)
  have "jtext (json_norm (content_jwe_json j)) k = jtext (content_jwe_json j) k" for k by (rule jtext_norm) simp
  with j(2) have "openProtectedContent cr (pc_envelopeBytes r) (pc_dek r) (pc_aad r) (pc_contentCommitment r)
      = open_package cr (json_norm (pc_aad r)) (pc_contentCommitment r) ?p"
    using r ok by (simp add: openProtectedContent_def parse_with_def content_norm aad_norm envelope_texts [OF j(1)] base64url_roundtrip
        jwe_of_content j(3))
  then show ?thesis using open_own_package [OF assms] by simp
qed

text \<open>Encryption succeeds on every input the schemas accept.\<close>

lemma protect_total:
  assumes "assertCanonicalDomainPayload cr (ci_domainPayload input) = Inr ()"
    and "length (cr_dek rnd) = 32" "length (cr_iv rnd) = 12" "length (cr_contentSalt rnd) = 32" "length (cr_domainSalt rnd) = 32"
    and "mediaType_ok (ci_contentMediaType input)"
    and "protectedContentAad (jset ''domain_payload_commitment'' (digest_json
      (commitment_digest cr DOMAIN_COMMITMENT_DOMAIN (cr_domainSalt rnd) (ci_domainPayload input))) (ci_aad input))"
  shows "\<exists>r. protectContent cr rnd input = Inr r"
proof -
  let ?a = "jset ''domain_payload_commitment'' (digest_json
      (commitment_digest cr DOMAIN_COMMITMENT_DOMAIN (cr_domainSalt rnd) (ci_domainPayload input))) (ci_aad input)"
  let ?p = "canonical cr (package_json input (cr_contentSalt rnd) (cr_domainSalt rnd))"
  obtain j where j: "jo_encrypt cr protectedContentHeader (canonical cr ?a) (cr_iv rnd) (cr_dek rnd) ?p = Some j"
    "envelope_of cr protectedContentHeader (canonical cr ?a) (cr_iv rnd) (length ?p) j"
    using encrypt [OF assms(3,2)] by blast
  have "strict_json contentJwe (content_jwe_json j)" using envelope_tables(1) j(2) assms(3) by blast
  moreover have "strict_json protectedPackage (package_json input (cr_contentSalt rnd) (cr_domainSalt rnd))"
    using assms by (simp add: strict_json_def protectedPackage_def package_json_def js_text_def js_is_def)
  ultimately show ?thesis using assms j by (simp add: protectContent_def exactRandom_def parse_with_def Let_def)
qed

text \<open>Whatever opens is bound to the expected context and to the expected commitment.\<close>

lemma open_sound:
  assumes "openProtectedContent cr bs dek aad c = Inr (content, payload)"
  shows "\<exists>salt. commitment_digest cr CONTENT_COMMITMENT_DOMAIN salt content = c"
    and "\<exists>salt a. protectedContentAad a \<and> canonical cr a = canonical cr aad
      \<and> Some (JStr (digest_value (commitment_digest cr DOMAIN_COMMITMENT_DOMAIN salt payload)))
          = Option.bind (jget a ''domain_payload_commitment'') (\<lambda>d. jget d ''value'')"
proof -
  obtain a p where a: "protectedContentAad a" "canonical cr a = canonical cr aad" and p: "open_package cr a c p = Inr (content, payload)"
    using assms by (auto simp: openProtectedContent_def parse_with_def outcome_simps split: if_splits)
  then show "\<exists>salt. commitment_digest cr CONTENT_COMMITMENT_DOMAIN salt content = c"
    by (auto simp: open_package_def parse_with_def outcome_simps Let_def intro!: exI digest.equality split: if_splits)
  show "\<exists>salt a. protectedContentAad a \<and> canonical cr a = canonical cr aad
      \<and> Some (JStr (digest_value (commitment_digest cr DOMAIN_COMMITMENT_DOMAIN salt payload)))
          = Option.bind (jget a ''domain_payload_commitment'') (\<lambda>d. jget d ''value'')"
    using a p by (simp add: open_package_def parse_with_def outcome_simps Let_def split: if_splits) blast
qed

lemma wrap_Inr:
  assumes "wrapDek cr iv seed ctx dek pub = Inr w"
  shows "\<exists>j. length dek = 32 \<and> is_rsa3072 pub \<and> dekWrapContext ctx
    \<and> jo_encrypt_to cr (dek_header (jtext ctx ''recipient_kid'')) (canonical cr ctx) iv pub seed dek = Some j
    \<and> strict_json recipientJwe (recipient_jwe_json j) \<and> wd_envelopeBytes w = canonical cr (recipient_jwe_json j)
    \<and> wd_commitment w = sha256_of cr (wd_envelopeBytes w)"
  using assms by (auto simp: wrapDek_def assertRsa3072PublicKey_def parse_with_def Let_def outcome_simps split: if_splits)

lemma wrap_envelope:
  assumes "wrapDek cr iv seed ctx dek pub = Inr w" and "length iv = 12"
  shows "\<exists>j. envelope_of cr (dek_header (jtext ctx ''recipient_kid'')) (canonical cr ctx) iv (length dek) j
    \<and> strict_json recipientJwe (recipient_jwe_json j) \<and> wd_envelopeBytes w = canonical cr (recipient_jwe_json j)
    \<and> wd_commitment w = sha256_of cr (wd_envelopeBytes w) \<and> dekWrapContext ctx \<and> json_ok ctx
    \<and> (\<exists>k. length k = 384 \<and> jw_encrypted_key j = base64url_encode k) \<and> length dek = 32
    \<and> (\<forall>priv. key_pair pub priv \<longrightarrow> jo_decrypt_with cr j priv = Some dek)
    \<and> (\<forall>priv q. jo_decrypt_with cr j priv = Some q \<longrightarrow> q = dek)"
proof -
  obtain j where w: "length dek = 32" "is_rsa3072 pub" "dekWrapContext ctx"
    "jo_encrypt_to cr (dek_header (jtext ctx ''recipient_kid'')) (canonical cr ctx) iv pub seed dek = Some j"
    "strict_json recipientJwe (recipient_jwe_json j)" "wd_envelopeBytes w = canonical cr (recipient_jwe_json j)"
    "wd_commitment w = sha256_of cr (wd_envelopeBytes w)"
    using wrap_Inr [OF assms(1)] by blast
  then show ?thesis
    using encrypt_to [OF assms(2) w(2), of "jtext ctx ''recipient_kid''" "canonical cr ctx" seed dek] context_json_ok by auto
qed

text \<open>A wrapped key unwraps with the private key of the pair it was wrapped for, and its envelope verifies.\<close>

lemma wrap_unwrap:
  assumes "wrapDek cr iv seed ctx dek pub = Inr w" and "length iv = 12" and "key_pair pub priv"
  shows "unwrapDek cr (wd_envelopeBytes w) priv ctx = Inr dek"
proof -
  obtain j where j: "envelope_of cr (dek_header (jtext ctx ''recipient_kid'')) (canonical cr ctx) iv (length dek) j"
    "strict_json recipientJwe (recipient_jwe_json j)" "wd_envelopeBytes w = canonical cr (recipient_jwe_json j)"
    "dekWrapContext ctx" "json_ok ctx" "length dek = 32" "jo_decrypt_with cr j priv = Some dek"
    using wrap_envelope [OF assms(1,2)] assms(3) by blast
  have "jtext (json_norm (recipient_jwe_json j)) k = jtext (recipient_jwe_json j) k" for k by (rule jtext_norm) simp
  then show ?thesis
    using j by (simp add: unwrapDek_def parse_with_def recipient_norm context_norm envelope_texts [OF j(1)] base64url_roundtrip
        jwe_of_recipient jtext_norm)
qed

text \<open>Whatever key opens the envelope, what comes out is the key that was wrapped.\<close>

lemma unwrap_authentic:
  assumes "wrapDek cr iv seed ctx dek pub = Inr w" and "length iv = 12" and "unwrapDek cr (wd_envelopeBytes w) priv ctx = Inr d"
  shows "d = dek"
proof -
  obtain j where j: "envelope_of cr (dek_header (jtext ctx ''recipient_kid'')) (canonical cr ctx) iv (length dek) j"
    "strict_json recipientJwe (recipient_jwe_json j)" "wd_envelopeBytes w = canonical cr (recipient_jwe_json j)"
    "\<And>priv q. jo_decrypt_with cr j priv = Some q \<Longrightarrow> q = dek"
    using wrap_envelope [OF assms(1,2)] by blast
  show ?thesis
    using assms(3) j(2,4) by (auto simp: j(3) unwrapDek_def parse_with_def recipient_norm outcome_simps jwe_of_recipient split: if_splits)
qed

lemma envelope_parts:
  assumes "envelope_of cr h aad iv n j"
  shows "length (base64url_decode (jtext (recipient_jwe_json j) ''iv'')) = length iv"
    and "length (base64url_decode (jtext (recipient_jwe_json j) ''ciphertext'')) = n"
    and "length (base64url_decode (jtext (recipient_jwe_json j) ''tag'')) = 16"
  using assms by (auto simp: envelope_of_def recipient_jwe_json_def jtext_obj base64url_roundtrip)

lemma wrap_verify:
  assumes "wrapDek cr iv seed ctx dek pub = Inr w" and "length iv = 12"
  shows "verifyWrappedDekEnvelope cr (wd_commitment w) ctx (wd_envelopeBytes w)"
proof -
  obtain j k where j: "envelope_of cr (dek_header (jtext ctx ''recipient_kid'')) (canonical cr ctx) iv (length dek) j"
    "strict_json recipientJwe (recipient_jwe_json j)" "wd_envelopeBytes w = canonical cr (recipient_jwe_json j)"
    "wd_commitment w = sha256_of cr (wd_envelopeBytes w)" "dekWrapContext ctx" "json_ok ctx" "length dek = 32"
    "length k = 384" "jw_encrypted_key j = base64url_encode k"
    using wrap_envelope [OF assms] by blast
  have "jtext (recipient_jwe_json j) ''encrypted_key'' = base64url_encode k" using j(9) by (simp add: recipient_jwe_json_def jtext_obj)
  moreover have "jtext (json_norm (recipient_jwe_json j)) k = jtext (recipient_jwe_json j) k" for k by (rule jtext_norm) simp
  ultimately have "verify_envelope cr (wd_commitment w) ctx (wd_envelopeBytes w) = Inr True"
    using j assms(2) by (simp add: verify_envelope_def parse_with_def recipient_norm context_norm envelope_texts [OF j(1)]
        envelope_parts [OF j(1)] base64url_roundtrip jtext_norm)
  then show ?thesis by (simp add: verifyWrappedDekEnvelope_def)
qed

lemma wrap_total:
  assumes "dekWrapContext ctx" "length dek = 32" "is_rsa3072 pub" "length iv = 12"
  shows "\<exists>w. wrapDek cr iv seed ctx dek pub = Inr w"
proof -
  obtain j where j: "jo_encrypt_to cr (dek_header (jtext ctx ''recipient_kid'')) (canonical cr ctx) iv pub seed dek = Some j"
    "envelope_of cr (dek_header (jtext ctx ''recipient_kid'')) (canonical cr ctx) iv (length dek) j"
    "\<exists>k. jw_encrypted_key j = base64url_encode k"
    using encrypt_to [OF assms(4,3), of "jtext ctx ''recipient_kid''" "canonical cr ctx" seed dek] by blast
  have "strict_json recipientJwe (recipient_jwe_json j)" using envelope_tables(2) [OF j(2) assms(4)] j(3) by auto
  then show ?thesis using assms j(1) by (simp add: wrapDek_def assertRsa3072PublicKey_def parse_with_def Let_def)
qed

text \<open>An envelope that verifies is the one with the expected digest, for the expected context.\<close>

lemma verify_sound:
  assumes "verifyWrappedDekEnvelope cr d ctx bs"
  shows "digest_value (sha256_of cr bs) = digest_value d" and "\<exists>c. dekWrapContext c \<and> canonical cr c = canonical cr ctx"
  using assms
  by (auto simp: verifyWrappedDekEnvelope_def verify_envelope_def parse_with_def outcome_simps split: if_splits sum.splits)

lemma unwrap_sound:
  assumes "unwrapDek cr bs priv ctx = Inr dek"
  shows "length dek = 32 \<and> (\<exists>c. dekWrapContext c \<and> canonical cr c = canonical cr ctx)"
  using assms by (auto simp: unwrapDek_def parse_with_def outcome_simps split: if_splits)

lemma possession_accepted:
  assumes "createRsaKeyPossessionProof cr salt priv ack = Inr pr" and "key_pair pub priv" and "is_rsa3072 pub"
  shows "verifyRsaKeyPossessionProof cr pub ack pr"
  using assms sign_length sign_verify
  by (auto simp: createRsaKeyPossessionProof_def verifyRsaKeyPossessionProof_def outcome_simps base64url_roundtrip
      intro!: base64url_chars_encode)

lemma payload_injective:
  assumes "json_ok (sp_message a)" "json_ok (sp_message b)" and "keyPossessionPayload cr a = keyPossessionPayload cr b"
  shows "json_norm (sp_message a) = json_norm (sp_message b)
    \<and> cr_sha256 cr (hex_decode (drop 2 (sp_signature a))) = cr_sha256 cr (hex_decode (drop 2 (sp_signature b)))"
proof -
  let ?v = "\<lambda>p. JObj [(''schema'', JStr ''EVLLM_RSA_KEY_POSSESSION_PROOF_V1''), (''acknowledgement_message'', sp_message p),
     (''identity_signature_sha256'', JStr (base64url_encode (cr_sha256 cr (hex_decode (drop 2 (sp_signature p))))))]"
  have ok: "json_ok (?v a)" "json_ok (?v b)" using assms(1,2) by simp_all
  then have "json_norm (?v a) = json_norm (?v b)" using assms(3) by (simp only: keyPossessionPayload_def canonical_eq_iff)
  then have "map_option json_norm (jget (?v a) k) = map_option json_norm (jget (?v b) k)" for k
    using jget_norm [OF ok(1), of k] jget_norm [OF ok(2), of k] by metis
  from this [of "''acknowledgement_message''"] this [of "''identity_signature_sha256''"] show ?thesis
    by (simp add: base64url_encode_inj)
qed

end

end
