(* ===== verification/Signatures.thy ===== *)
theory Signatures
  imports Schemas
begin

text \<open>
  Signed proofs: the EIP-712 message schemas and profiles of \<open>src/schemas/eip712.ts\<close>, the verification
  of a proof in \<open>src/protected-bundles/signatures/eip712.ts\<close> and the process-local store of consumed
  authorizations of \<open>src/evidence/key-operation-authorization-repository.ts\<close>. A message is the list of its
  fields. Address recovery and typed-data hashing (the \<open>ethers\<close> package) and SHA-256 are parameters.
  The locale \<open>once_store\<close> is the contract of a store that lets every key be consumed once.
\<close>

subsection \<open>Message schemas and profiles\<close>

datatype signature_type = DomainManifestAttestation | FinalizeProtectedBundle | ReplicateProtectedBundle
  | KeyOperationAuthorization | KeyMaterialAcknowledgement

datatype msg_value = MText string | MNum int

type_synonym message = "(string \<times> msg_value) list"

datatype field_schema = SBytes32 | SPositive | SUint256 | SAddress

type_synonym message_schema = "(string \<times> field_schema) list"

definition commonBundleFields :: message_schema where
  "commonBundleFields = [(''bundleId'', SBytes32), (''bundleVersion'', SPositive), (''bundleType'', SBytes32),
     (''domainResourceId'', SBytes32), (''domainResourceVersion'', SPositive)]"

definition proofWindowFields :: message_schema where
  "proofWindowFields = [(''nonce'', SUint256), (''issuedAt'', SPositive), (''expiresAt'', SPositive)]"

definition domainManifestAttestation :: message_schema where
  "domainManifestAttestation = commonBundleFields @
     [(''authorBindingProfileId'', SBytes32), (''authorBindingProfileVersion'', SPositive),
      (''domainPayloadCommitment'', SBytes32), (''signerActorId'', SBytes32), (''signerOrgId'', SBytes32),
      (''signerCredentialId'', SBytes32)] @ proofWindowFields"

definition finalizeProtectedBundle :: message_schema where
  "finalizeProtectedBundle =
     [(''commandId'', SBytes32), (''stagingDescriptorDigest'', SBytes32), (''domainManifestEnvelopeDigest'', SBytes32)]
     @ commonBundleFields @
     [(''controllerActorId'', SBytes32), (''controllerOrgId'', SBytes32), (''controllerCredentialId'', SBytes32),
      (''contentCommitment'', SBytes32), (''contentEnvelopeDigest'', SBytes32), (''storedEnvelopeLength'', SPositive),
      (''contentSchemaBindingDigest'', SBytes32), (''encryptionProfileId'', SBytes32),
      (''encryptionProfileVersion'', SPositive), (''criticalityProfileId'', SBytes32),
      (''criticalityProfileVersion'', SPositive), (''initialCriticalityClass'', SBytes32),
      (''replicaPolicyDigest'', SBytes32)] @ proofWindowFields @ [(''idempotencyKeyHash'', SBytes32)]"

definition replicateProtectedBundle :: message_schema where
  "replicateProtectedBundle = [(''commandId'', SBytes32)] @ commonBundleFields @
     [(''controllerActorId'', SBytes32), (''controllerOrgId'', SBytes32), (''controllerCredentialId'', SBytes32),
      (''contentEnvelopeDigest'', SBytes32), (''storedEnvelopeLength'', SPositive),
      (''criticalityProfileId'', SBytes32), (''criticalityProfileVersion'', SPositive),
      (''replicaPolicyDigest'', SBytes32), (''replicaRepositoryId'', SBytes32)]
     @ proofWindowFields @ [(''idempotencyKeyHash'', SBytes32)]"

definition keyOperationAuthorizationMessage :: message_schema where
  "keyOperationAuthorizationMessage =
     [(''authorizationId'', SBytes32), (''authorizationVersion'', SPositive), (''issuerServiceActorId'', SBytes32),
      (''issuerServiceOrgId'', SBytes32), (''issuerServiceCredentialId'', SBytes32),
      (''issuerServiceAddress'', SAddress), (''repositoryId'', SBytes32), (''operation'', SBytes32),
      (''requestingActorId'', SBytes32), (''requestingOrgId'', SBytes32), (''requestingCredentialId'', SBytes32)]
     @ commonBundleFields @
     [(''purposeId'', SBytes32), (''policyId'', SBytes32), (''policyVersion'', SPositive),
      (''sourceAuthorityDigest'', SBytes32), (''operationContextDigest'', SBytes32)]
     @ proofWindowFields @ [(''idempotencyKeyHash'', SBytes32)]"

definition keyMaterialAcknowledgementMessage :: message_schema where
  "keyMaterialAcknowledgementMessage =
     [(''acknowledgementId'', SBytes32), (''acknowledgementVersion'', SPositive), (''signerActorId'', SBytes32),
      (''signerOrgId'', SBytes32), (''signerCredentialId'', SBytes32), (''repositoryId'', SBytes32),
      (''operation'', SBytes32)] @ commonBundleFields @
     [(''authorityId'', SBytes32), (''envelopeId'', SBytes32), (''encryptionKeyId'', SBytes32),
      (''recipientKid'', SBytes32), (''publicKeySpkiSha256'', SBytes32), (''operationContextDigest'', SBytes32)]
     @ proofWindowFields"

fun message_schema_of :: "signature_type \<Rightarrow> message_schema" where
  "message_schema_of DomainManifestAttestation = domainManifestAttestation"
| "message_schema_of FinalizeProtectedBundle = finalizeProtectedBundle"
| "message_schema_of ReplicateProtectedBundle = replicateProtectedBundle"
| "message_schema_of KeyOperationAuthorization = keyOperationAuthorizationMessage"
| "message_schema_of KeyMaterialAcknowledgement = keyMaterialAcknowledgementMessage"

fun field_ok :: "field_schema \<Rightarrow> msg_value \<Rightarrow> bool" where
  "field_ok SBytes32 (MText s) = bytes32Hex_ok s"
| "field_ok SUint256 (MText s) = bytes32Hex_ok s"
| "field_ok SAddress (MText s) = canonicalAddress_ok s"
| "field_ok SPositive (MNum n) = positiveSafeInteger_ok n"
| "field_ok _ _ = False"

text \<open>A strict object schema: exactly the fields of the schema, each with a value it accepts.\<close>

definition strict_object_ok :: "message_schema \<Rightarrow> message \<Rightarrow> bool" where
  "strict_object_ok schema m = (distinct (map fst m)
     \<and> list_all (\<lambda>(f, _). f \<in> set (map fst schema)) m
     \<and> list_all (\<lambda>(f, k). case map_of m f of None \<Rightarrow> False | Some v \<Rightarrow> field_ok k v) schema)"

record eip712_profile =
  domainName :: string
  domainVersion :: string
  primaryType :: string
  profile_fields :: "(string \<times> string) list"

definition bundleFields :: "(string \<times> string) list" where
  "bundleFields = [(''bundleId'', ''bytes32''), (''bundleVersion'', ''uint64''), (''bundleType'', ''bytes32''),
     (''domainResourceId'', ''bytes32''), (''domainResourceVersion'', ''uint64'')]"

definition proofWindow :: "(string \<times> string) list" where
  "proofWindow = [(''nonce'', ''uint256''), (''issuedAt'', ''uint64''), (''expiresAt'', ''uint64'')]"

fun eip712Profiles :: "signature_type \<Rightarrow> eip712_profile" where
  "eip712Profiles DomainManifestAttestation = \<lparr>domainName = ''EVLLM Domain Manifest'', domainVersion = ''1'',
     primaryType = ''DomainManifestAttestation'',
     profile_fields = bundleFields @
       [(''authorBindingProfileId'', ''bytes32''), (''authorBindingProfileVersion'', ''uint64''),
        (''domainPayloadCommitment'', ''bytes32''), (''signerActorId'', ''bytes32''), (''signerOrgId'', ''bytes32''),
        (''signerCredentialId'', ''bytes32'')] @ proofWindow\<rparr>"
| "eip712Profiles FinalizeProtectedBundle = \<lparr>domainName = ''EVLLM Protected Bundle Command'', domainVersion = ''1'',
     primaryType = ''FinalizeProtectedBundle'',
     profile_fields =
       [(''commandId'', ''bytes32''), (''stagingDescriptorDigest'', ''bytes32''),
        (''domainManifestEnvelopeDigest'', ''bytes32'')] @ bundleFields @
       [(''controllerActorId'', ''bytes32''), (''controllerOrgId'', ''bytes32''), (''controllerCredentialId'', ''bytes32''),
        (''contentCommitment'', ''bytes32''), (''contentEnvelopeDigest'', ''bytes32''), (''storedEnvelopeLength'', ''uint64''),
        (''contentSchemaBindingDigest'', ''bytes32''), (''encryptionProfileId'', ''bytes32''),
        (''encryptionProfileVersion'', ''uint64''), (''criticalityProfileId'', ''bytes32''),
        (''criticalityProfileVersion'', ''uint64''), (''initialCriticalityClass'', ''bytes32''),
        (''replicaPolicyDigest'', ''bytes32'')] @ proofWindow @ [(''idempotencyKeyHash'', ''bytes32'')]\<rparr>"
| "eip712Profiles ReplicateProtectedBundle = \<lparr>domainName = ''EVLLM Protected Bundle Command'', domainVersion = ''1'',
     primaryType = ''ReplicateProtectedBundle'',
     profile_fields = [(''commandId'', ''bytes32'')] @ bundleFields @
       [(''controllerActorId'', ''bytes32''), (''controllerOrgId'', ''bytes32''), (''controllerCredentialId'', ''bytes32''),
        (''contentEnvelopeDigest'', ''bytes32''), (''storedEnvelopeLength'', ''uint64''),
        (''criticalityProfileId'', ''bytes32''), (''criticalityProfileVersion'', ''uint64''),
        (''replicaPolicyDigest'', ''bytes32''), (''replicaRepositoryId'', ''bytes32'')]
       @ proofWindow @ [(''idempotencyKeyHash'', ''bytes32'')]\<rparr>"
| "eip712Profiles KeyOperationAuthorization = \<lparr>domainName = ''EVLLM Key Operation Authorization'', domainVersion = ''1'',
     primaryType = ''KeyOperationAuthorization'',
     profile_fields =
       [(''authorizationId'', ''bytes32''), (''authorizationVersion'', ''uint64''), (''issuerServiceActorId'', ''bytes32''),
        (''issuerServiceOrgId'', ''bytes32''), (''issuerServiceCredentialId'', ''bytes32''),
        (''issuerServiceAddress'', ''address''), (''repositoryId'', ''bytes32''), (''operation'', ''bytes32''),
        (''requestingActorId'', ''bytes32''), (''requestingOrgId'', ''bytes32''), (''requestingCredentialId'', ''bytes32'')]
       @ bundleFields @
       [(''purposeId'', ''bytes32''), (''policyId'', ''bytes32''), (''policyVersion'', ''uint64''),
        (''sourceAuthorityDigest'', ''bytes32''), (''operationContextDigest'', ''bytes32'')]
       @ proofWindow @ [(''idempotencyKeyHash'', ''bytes32'')]\<rparr>"
| "eip712Profiles KeyMaterialAcknowledgement = \<lparr>domainName = ''EVLLM Key Material Acknowledgement'', domainVersion = ''1'',
     primaryType = ''KeyMaterialAcknowledgement'',
     profile_fields =
       [(''acknowledgementId'', ''bytes32''), (''acknowledgementVersion'', ''uint64''), (''signerActorId'', ''bytes32''),
        (''signerOrgId'', ''bytes32''), (''signerCredentialId'', ''bytes32''), (''repositoryId'', ''bytes32''),
        (''operation'', ''bytes32'')] @ bundleFields @
       [(''authorityId'', ''bytes32''), (''envelopeId'', ''bytes32''), (''encryptionKeyId'', ''bytes32''),
        (''recipientKid'', ''bytes32''), (''publicKeySpkiSha256'', ''bytes32''), (''operationContextDigest'', ''bytes32'')]
       @ proofWindow\<rparr>"

text \<open>
  The EIP-712 type a schema's values are meant for. Every field a message may carry is signed, in the
  same order and with the matching type.
\<close>

fun solidity_type :: "field_schema \<Rightarrow> string" where
  "solidity_type SBytes32 = ''bytes32''"
| "solidity_type SPositive = ''uint64''"
| "solidity_type SUint256 = ''uint256''"
| "solidity_type SAddress = ''address''"

lemmas schema_defs = commonBundleFields_def proofWindowFields_def domainManifestAttestation_def
  finalizeProtectedBundle_def replicateProtectedBundle_def keyOperationAuthorizationMessage_def
  keyMaterialAcknowledgementMessage_def bundleFields_def proofWindow_def

lemma profiles_match_schemas:
  "profile_fields (eip712Profiles ty) = map (\<lambda>(f, k). (f, solidity_type k)) (message_schema_of ty)"
  by (cases ty) (simp_all add: schema_defs)

lemma schema_fields_distinct: "distinct (map fst (message_schema_of ty))"
  by (cases ty) (simp_all add: schema_defs)

lemma strict_object_field:
  assumes "strict_object_ok schema m" and "(f, k) \<in> set schema"
  shows "\<exists>v. map_of m f = Some v \<and> field_ok k v"
proof -
  have "case map_of m f of None \<Rightarrow> False | Some v \<Rightarrow> field_ok k v"
    using bspec [of "set schema" "\<lambda>(f, k). case map_of m f of None \<Rightarrow> False | Some v \<Rightarrow> field_ok k v", OF _ assms(2)]
      assms(1) by (simp add: strict_object_ok_def list_all_iff)
  then show ?thesis by (cases "map_of m f") auto
qed

lemma strict_object_fields:
  assumes "strict_object_ok schema m"
  shows "set (map fst m) = set (map fst schema)"
proof
  show "set (map fst m) \<subseteq> set (map fst schema)"
    using assms by (auto simp: strict_object_ok_def list_all_iff)
  show "set (map fst schema) \<subseteq> set (map fst m)"
    using strict_object_field [OF assms] by (force dest: map_of_SomeD)
qed

subsection \<open>Stores that are consumed once\<close>

text \<open>The calls of a run that succeed.\<close>

primrec accepted :: "('s \<Rightarrow> 'c \<Rightarrow> 'e + 's) \<Rightarrow> 's \<Rightarrow> 'c list \<Rightarrow> 'c list" where
  "accepted consume s [] = []"
| "accepted consume s (c # cs) =
     (case consume s c of Inl e \<Rightarrow> accepted consume s cs | Inr t \<Rightarrow> c # accepted consume t cs)"

locale once_store =
  fixes consume :: "'s \<Rightarrow> 'c \<Rightarrow> 'e + 's"
    and claims :: "'c \<Rightarrow> 'k set"
    and used :: "'s \<Rightarrow> 'k set"
  assumes consume_ok: "claims c \<inter> used s = {} \<Longrightarrow> \<exists>t. consume s c = Inr t"
    and consume_Inr: "consume s c = Inr t \<Longrightarrow> claims c \<inter> used s = {} \<and> used t = used s \<union> claims c"
begin

lemma accepted_fresh: "c \<in> set (accepted consume s cs) \<Longrightarrow> claims c \<inter> used s = {}"
proof (induction cs arbitrary: s)
  case (Cons d cs)
  show ?case
  proof (cases "consume s d")
    case (Inl e)
    then show ?thesis using Cons by simp
  next
    case (Inr t)
    then show ?thesis using Cons.prems Cons.IH [of t] consume_Inr [OF Inr] by auto
  qed
qed simp

lemma accepted_disjoint:
  "sorted_wrt (\<lambda>c d. claims c \<inter> claims d = {}) (accepted consume s cs)"
proof (induction cs arbitrary: s)
  case (Cons d cs)
  show ?case
  proof (cases "consume s d")
    case (Inr t)
    have "claims d \<inter> claims c = {}" if "c \<in> set (accepted consume t cs)" for c
      using accepted_fresh [OF that] consume_Inr [OF Inr] by blast
    then show ?thesis using Inr Cons.IH by simp
  qed (simp add: Cons.IH)
qed simp

lemma consume_twice:
  assumes "consume s c = Inr t" and "claims c \<inter> claims d \<noteq> {}"
  shows "\<exists>e. consume t d = Inl e"
  using consume_Inr [OF assms(1)] consume_Inr [of t d] assms(2) by (cases "consume t d") auto

end

subsection \<open>The nonce store\<close>

datatype signature_error = SigAuthority | SigDomain | SigExpiry | SigReplay | SigSignature | SigSchemaRejected

type_synonym nonce_store = "string list" \<comment> \<open>the set \<open>#consumed\<close>\<close>

definition nonce_consume :: "nonce_store \<Rightarrow> string \<Rightarrow> signature_error + nonce_store" where
  "nonce_consume consumed scope = (if scope \<in> set consumed then Inl SigReplay else Inr (consumed @ [scope]))"

definition nonce_rollback :: "nonce_store \<Rightarrow> string \<Rightarrow> nonce_store" where
  "nonce_rollback consumed scope = filter (\<lambda>s. s \<noteq> scope) consumed"

definition nonce_has :: "nonce_store \<Rightarrow> string \<Rightarrow> bool" where
  "nonce_has consumed scope = (scope \<in> set consumed)"

interpretation nonces: once_store nonce_consume "\<lambda>scope. {scope}" set
  by unfold_locales (auto simp: nonce_consume_def split: if_splits)

lemma nonce_rollback_consume: "nonce_consume s scope = Inr t \<Longrightarrow> nonce_rollback t scope = s"
  by (auto simp: nonce_consume_def nonce_rollback_def filter_id_conv split: if_splits)

subsection \<open>Consumed key-operation authorizations\<close>

record 'a key_operation_record =
  kop_authorization_id :: string
  kop_authorization_version :: int
  kop_rest :: 'a

record 'a authorization_state_memory =
  am_authorizations :: "(string, 'a key_operation_record) jmap"
  am_nonceScopes :: "string list"

datatype repository_failure = RepoReplay | RepoDbUnavailable

definition authorizationKey :: "string \<Rightarrow> int \<Rightarrow> string" where
  "authorizationKey i v = i @ '':'' @ show_int v"

definition authorization_consume ::
  "'a authorization_state_memory \<Rightarrow> 'a key_operation_record \<times> string \<Rightarrow> repository_failure + 'a authorization_state_memory" where
  "authorization_consume s c = (case c of (r, nonceScope) \<Rightarrow>
     let key = authorizationKey (kop_authorization_id r) (kop_authorization_version r) in
     if jm_has (am_authorizations s) key \<or> nonceScope \<in> set (am_nonceScopes s) then Inl RepoReplay
     else Inr (s\<lparr>am_authorizations := jm_set key r (am_authorizations s),
                 am_nonceScopes := am_nonceScopes s @ [nonceScope]\<rparr>))"

definition authorization_find ::
  "'a authorization_state_memory \<Rightarrow> string \<Rightarrow> int \<Rightarrow> 'a key_operation_record option" where
  "authorization_find s i v = jm_get (am_authorizations s) (authorizationKey i v)"

definition authorization_claims :: "'a key_operation_record \<times> string \<Rightarrow> (string + string) set" where
  "authorization_claims c = (case c of (r, nonceScope) \<Rightarrow>
     {Inl (authorizationKey (kop_authorization_id r) (kop_authorization_version r)), Inr nonceScope})"

definition authorization_used :: "'a authorization_state_memory \<Rightarrow> (string + string) set" where
  "authorization_used s = Inl ` {k. jm_has (am_authorizations s) k} \<union> Inr ` set (am_nonceScopes s)"

interpretation authorizations: once_store authorization_consume authorization_claims authorization_used
proof unfold_locales
  fix c :: "'a key_operation_record \<times> string" and s t
  show "\<exists>t. authorization_consume s c = Inr t" if "authorization_claims c \<inter> authorization_used s = {}"
    using that by (cases c) (auto simp: authorization_consume_def authorization_claims_def authorization_used_def Let_def)
  show "authorization_claims c \<inter> authorization_used s = {} \<and> authorization_used t = authorization_used s \<union> authorization_claims c"
    if "authorization_consume s c = Inr t"
    using that by (cases c) (auto simp: authorization_consume_def authorization_claims_def authorization_used_def Let_def
        jm_has_def jm_simps split: if_splits)
qed

lemma authorizationKey_inj: "authorizationKey i v = authorizationKey j w \<longleftrightarrow> i = j \<and> v = w"
  using versionKey_inj [of i v j w] by (simp add: authorizationKey_def versionKey_def)

lemma authorization_find_consume:
  assumes "authorization_consume s (r, n) = Inr t"
  shows "authorization_find t i v =
    (if i = kop_authorization_id r \<and> v = kop_authorization_version r then Some r else authorization_find s i v)"
  using assms by (auto simp: authorization_consume_def authorization_find_def Let_def jm_simps authorizationKey_inj
      split: if_splits)

subsection \<open>Verification of a proof\<close>

record proof_domain =
  pd_chainId :: int
  pd_name :: string
  pd_verifyingContract :: string
  pd_version :: string

record credential_acceptance =
  ca_active :: bool
  ca_validFrom :: int
  ca_validUntil :: "int option"

datatype proof_mode = Execution int | ExternalExecution int | Validation int | Historical int

record verify_input =
  vi_credentialAt :: "string \<Rightarrow> int \<Rightarrow> credential_acceptance"
  vi_domain :: proof_domain
  vi_expectedSignerAddress :: string
  vi_maxLifetimeSeconds :: int
  vi_message :: message
  vi_mode :: proof_mode
  vi_signature :: string
  vi_type :: signature_type

record verified_proof =
  vp_recoveredAddress :: string
  vp_signatureDigest :: string
  vp_typedDataDigest :: string

text \<open>What \<open>ethers\<close> and the hash provide: recovery may throw.\<close>

record typed_data =
  td_recover :: "proof_domain \<Rightarrow> string \<times> (string \<times> string) list \<Rightarrow> message \<Rightarrow> string \<Rightarrow> string option"
  td_hash :: "proof_domain \<Rightarrow> string \<times> (string \<times> string) list \<Rightarrow> message \<Rightarrow> string"
  td_sha256_hex :: "string \<Rightarrow> string" \<comment> \<open>of the bytes of a hexadecimal text\<close>

definition hex_digit :: "char \<Rightarrow> int" where
  "hex_digit c = (case index_of c ''0123456789abcdef'' of None \<Rightarrow> 0 | Some i \<Rightarrow> int i)"

definition hex_value :: "string \<Rightarrow> int" where
  "hex_value s = foldl (\<lambda>n c. 16 * n + hex_digit c) 0 s"

definition SECP256K1_HALF_N :: int where
  "SECP256K1_HALF_N = 0x7fffffffffffffffffffffffffffffff5d576e7357a4501ddfe92f46681b20a0"

definition substring :: "nat \<Rightarrow> nat \<Rightarrow> string \<Rightarrow> string" where
  "substring a b s = take (b - a) (drop a s)"

definition validateCanonicalSignature :: "string \<Rightarrow> signature_error + string" where
  "validateCanonicalSignature sg =
     (if \<not> hex_text_ok 130 sg then Inl SigSignature
      else let r = hex_value (substring 2 66 sg); s = hex_value (substring 66 130 sg); v = hex_value (substring 130 132 sg) in
        if r = 0 \<or> s = 0 \<or> s > SECP256K1_HALF_N \<or> (v \<noteq> 27 \<and> v \<noteq> 28) then Inl SigSignature
        else Inr sg)"

definition to_lower_char :: "char \<Rightarrow> char" where
  "to_lower_char c = (let n = of_char c :: nat in if 65 \<le> n \<and> n \<le> 90 then char_of (n + 32) else c)"

definition readSafeInteger :: "message \<Rightarrow> string \<Rightarrow> signature_error + int" where
  "readSafeInteger m f = (case map_of m f of
     Some (MNum n) \<Rightarrow> if positiveSafeInteger_ok n then Inr n else Inl SigSchemaRejected
   | _ \<Rightarrow> Inl SigSchemaRejected)"

definition readString :: "message \<Rightarrow> string \<Rightarrow> signature_error + string" where
  "readString m f = (case map_of m f of Some (MText s) \<Rightarrow> Inr s | _ \<Rightarrow> Inl SigSignature)"

definition parseMessage :: "signature_type \<Rightarrow> message \<Rightarrow> signature_error + message" where
  "parseMessage ty m = parse_with (strict_object_ok (message_schema_of ty)) SigSchemaRejected m"

fun credentialField :: "signature_type \<Rightarrow> string" where
  "credentialField DomainManifestAttestation = ''signerCredentialId''"
| "credentialField FinalizeProtectedBundle = ''controllerCredentialId''"
| "credentialField ReplicateProtectedBundle = ''controllerCredentialId''"
| "credentialField KeyOperationAuthorization = ''issuerServiceCredentialId''"
| "credentialField KeyMaterialAcknowledgement = ''signerCredentialId''"

definition nonceScope :: "signature_type \<Rightarrow> string \<Rightarrow> string \<Rightarrow> string" where
  "nonceScope ty credentialId nonce = primaryType (eip712Profiles ty) @ '':'' @ credentialId @ '':'' @ nonce"

fun evaluation_time :: "proof_mode \<Rightarrow> int" where
  "evaluation_time (Execution t) = t"
| "evaluation_time (ExternalExecution t) = t"
| "evaluation_time (Validation t) = t"
| "evaluation_time (Historical t) = t"

definition expired_at :: "signature_type \<Rightarrow> int \<Rightarrow> int \<Rightarrow> bool" where
  "expired_at ty t expiresAt =
     (if ty = KeyOperationAuthorization \<or> ty = KeyMaterialAcknowledgement then t \<ge> expiresAt else t > expiresAt)"

definition credential_refused :: "credential_acceptance \<Rightarrow> int \<Rightarrow> bool" where
  "credential_refused c t = (\<not> ca_active c \<or> t < ca_validFrom c
     \<or> (case ca_validUntil c of None \<Rightarrow> False | Some u \<Rightarrow> t > u))"

definition check_window :: "verify_input \<Rightarrow> int \<Rightarrow> int \<Rightarrow> signature_error + unit" where
  "check_window i issuedAt expiresAt =
     rbind (check (issuedAt \<ge> expiresAt \<or> expiresAt - issuedAt > vi_maxLifetimeSeconds i \<or> vi_maxLifetimeSeconds i \<le> 0)
              SigExpiry) (\<lambda>_.
     check (evaluation_time (vi_mode i) < issuedAt \<or> expired_at (vi_type i) (evaluation_time (vi_mode i)) expiresAt)
       SigExpiry)"

definition recover_signer :: "typed_data \<Rightarrow> verify_input \<Rightarrow> string \<Rightarrow> signature_error + string" where
  "recover_signer td i sg =
     rbind (from_option SigSignature (td_recover td (vi_domain i)
        (primaryType (eip712Profiles (vi_type i)), profile_fields (eip712Profiles (vi_type i))) (vi_message i) sg)) (\<lambda>a.
     rbind (check (map to_lower_char a \<noteq> vi_expectedSignerAddress i) SigSignature) (\<lambda>_.
     Inr (map to_lower_char a)))"

definition consume_nonce ::
  "nonce_store \<Rightarrow> verify_input \<Rightarrow> int \<Rightarrow> string \<Rightarrow> signature_error + nonce_store" where
  "consume_nonce store i issuedAt credentialId =
     (case vi_mode i of
        Execution t \<Rightarrow>
          rbind (check (t < issuedAt) SigExpiry) (\<lambda>_.
          rbind (readString (vi_message i) ''nonce'') (\<lambda>nonce.
          nonce_consume store (nonceScope (vi_type i) credentialId nonce)))
      | _ \<Rightarrow> Inr store)"

definition verifyProtectedProof ::
  "typed_data \<Rightarrow> nonce_store \<Rightarrow> verify_input \<Rightarrow> signature_error + (verified_proof \<times> nonce_store)" where
  "verifyProtectedProof td store i =
     (let p = eip712Profiles (vi_type i); d = vi_domain i in
      rbind (check (pd_name d \<noteq> domainName p \<or> pd_version d \<noteq> domainVersion p) SigDomain) (\<lambda>_.
      rbind (parse_with canonicalAddress_ok SigSchemaRejected (pd_verifyingContract d)) (\<lambda>_.
      rbind (parse_with positiveSafeInteger_ok SigSchemaRejected (pd_chainId d)) (\<lambda>_.
      rbind (parse_with canonicalAddress_ok SigSchemaRejected (vi_expectedSignerAddress i)) (\<lambda>_.
      rbind (parseMessage (vi_type i) (vi_message i)) (\<lambda>m.
      rbind (readSafeInteger m ''issuedAt'') (\<lambda>issuedAt.
      rbind (readSafeInteger m ''expiresAt'') (\<lambda>expiresAt.
      rbind (check_window i issuedAt expiresAt) (\<lambda>_.
      rbind (readString m (credentialField (vi_type i))) (\<lambda>credentialId.
      rbind (check (credential_refused (vi_credentialAt i credentialId (evaluation_time (vi_mode i)))
                      (evaluation_time (vi_mode i))) SigAuthority) (\<lambda>_.
      rbind (validateCanonicalSignature (vi_signature i)) (\<lambda>sg.
      rbind (recover_signer td i sg) (\<lambda>a.
      rbind (consume_nonce store i issuedAt credentialId) (\<lambda>store'.
      Inr (\<lparr>vp_recoveredAddress = a, vp_signatureDigest = ''0x'' @ td_sha256_hex td (drop 2 sg),
            vp_typedDataDigest = td_hash td d (primaryType p, profile_fields p) m\<rparr>, store')))))))))))))))"

subsection \<open>What an accepted proof guarantees\<close>

lemma schema_has_nonce: "(''nonce'', SUint256) \<in> set (message_schema_of ty)"
  by (cases ty) (simp_all add: schema_defs)

lemma schema_has_credential: "(credentialField ty, SBytes32) \<in> set (message_schema_of ty)"
  by (cases ty) (simp_all add: schema_defs)

lemma message_text:
  assumes "strict_object_ok schema m" and "(f, k) \<in> set schema" and "k \<in> {SBytes32, SUint256}"
  shows "\<exists>s. readString m f = Inr s \<and> bytes32Hex_ok s"
proof -
  obtain v where v: "map_of m f = Some v" "field_ok k v" using strict_object_field [OF assms(1,2)] by blast
  then show ?thesis using assms(3) by (cases v) (auto simp: readString_def)
qed

lemma verify_Inr:
  assumes "verifyProtectedProof td store i = Inr (p, store')"
  shows "strict_object_ok (message_schema_of (vi_type i)) (vi_message i)
    \<and> pd_name (vi_domain i) = domainName (eip712Profiles (vi_type i))
    \<and> map_option (map to_lower_char) (td_recover td (vi_domain i) (primaryType (eip712Profiles (vi_type i)),
         profile_fields (eip712Profiles (vi_type i))) (vi_message i) (vi_signature i)) = Some (vi_expectedSignerAddress i)
    \<and> vp_recoveredAddress p = vi_expectedSignerAddress i
    \<and> validateCanonicalSignature (vi_signature i) = Inr (vi_signature i)
    \<and> (\<exists>issuedAt expiresAt credentialId. readSafeInteger (vi_message i) ''issuedAt'' = Inr issuedAt
        \<and> readSafeInteger (vi_message i) ''expiresAt'' = Inr expiresAt
        \<and> issuedAt \<le> evaluation_time (vi_mode i) \<and> \<not> expired_at (vi_type i) (evaluation_time (vi_mode i)) expiresAt
        \<and> expiresAt - issuedAt \<le> vi_maxLifetimeSeconds i
        \<and> readString (vi_message i) (credentialField (vi_type i)) = Inr credentialId
        \<and> \<not> credential_refused (vi_credentialAt i credentialId (evaluation_time (vi_mode i))) (evaluation_time (vi_mode i))
        \<and> consume_nonce store i issuedAt credentialId = Inr store')"
proof -
  have sg: "validateCanonicalSignature s = Inr t \<Longrightarrow> t = s" for s t
    by (auto simp: validateCanonicalSignature_def Let_def split: if_splits)
  from assms show ?thesis
    unfolding verifyProtectedProof_def Let_def parseMessage_def check_window_def recover_signer_def
    by (auto simp: outcome_simps dest: sg)
qed

text \<open>Scopes of well-formed messages are separate: neither the type nor the identifiers contain a colon.\<close>

lemma hex_no_colon: "bytes32Hex_ok s \<Longrightarrow> CHR '':'' \<notin> set s"
proof
  assume s: "bytes32Hex_ok s" and c: "CHR '':'' \<in> set s"
  have "\<not> is_hex_lower CHR '':''" by code_simp
  then have "CHR '':'' \<notin> set (drop 2 s)" using s by (auto simp: bytes32Hex_ok_def hex_text_ok_def list_all_iff)
  moreover have "take 2 s = ''0x''" using s
    by (simp add: bytes32Hex_ok_def hex_text_ok_def starts_with_def numeral_2_eq_2)
  moreover have "set s = set (take 2 s) \<union> set (drop 2 s)" by (metis append_take_drop_id set_append)
  ultimately show False using c by auto
qed

lemma first_sep_unique:
  "c \<notin> set a \<Longrightarrow> c \<notin> set b \<Longrightarrow> a @ c # s = b @ c # t \<longleftrightarrow> a = b \<and> s = t"
proof (induction a arbitrary: b)
  case Nil
  then show ?case by (cases b) auto
next
  case (Cons x a)
  then show ?case by (cases b) auto
qed

lemma nonceScope_inj:
  assumes "CHR '':'' \<notin> set c" and "CHR '':'' \<notin> set d"
  shows "nonceScope ty c n = nonceScope tz d m \<longleftrightarrow> ty = tz \<and> c = d \<and> n = m"
proof -
  have "CHR '':'' \<notin> set (primaryType (eip712Profiles ty))" for ty by (cases ty) simp_all
  moreover have "primaryType (eip712Profiles ty) = primaryType (eip712Profiles tz) \<longleftrightarrow> ty = tz"
    by (cases ty; cases tz) simp_all
  ultimately show ?thesis
    unfolding nonceScope_def append_Cons append_Nil using assms by (simp add: first_sep_unique)
qed

text \<open>The scope an executed proof consumes.\<close>

definition scope_of :: "verify_input \<Rightarrow> string" where
  "scope_of i = (case (readString (vi_message i) (credentialField (vi_type i)), readString (vi_message i) ''nonce'') of
     (Inr c, Inr n) \<Rightarrow> nonceScope (vi_type i) c n | _ \<Rightarrow> [])"

lemma verify_execution:
  assumes "verifyProtectedProof td store i = Inr (p, store')" and "vi_mode i = Execution t"
  shows "nonce_consume store (scope_of i) = Inr store'"
proof -
  obtain issuedAt credentialId where "consume_nonce store i issuedAt credentialId = Inr store'"
    "readString (vi_message i) (credentialField (vi_type i)) = Inr credentialId"
    using verify_Inr [OF assms(1)] by blast
  then show ?thesis using assms(2) by (auto simp: consume_nonce_def scope_of_def outcome_simps)
qed

lemma verify_other_modes:
  assumes "verifyProtectedProof td store i = Inr (p, store')" and "\<And>t. vi_mode i \<noteq> Execution t"
  shows "store' = store"
proof -
  obtain issuedAt credentialId where "consume_nonce store i issuedAt credentialId = Inr store'"
    using verify_Inr [OF assms(1)] by blast
  then show ?thesis using assms(2) by (cases "vi_mode i") (auto simp: consume_nonce_def)
qed

text \<open>The twin of a signature with \<open>n - s\<close> for \<open>s\<close> is refused, so an accepted signature has no second form.\<close>

lemma validate_low_s:
  assumes "validateCanonicalSignature sg = Inr sg'"
  shows "sg' = sg \<and> hex_text_ok 130 sg \<and> 0 < hex_value (substring 66 130 sg) \<and> hex_value (substring 66 130 sg) \<le> SECP256K1_HALF_N"
proof -
  have nonneg: "0 \<le> hex_value s" for s
  proof (induction s rule: rev_induct)
    case (snoc c s)
    then show ?case by (simp add: hex_value_def hex_digit_def split: option.splits)
  qed (simp add: hex_value_def)
  show ?thesis
    using assms nonneg [of "substring 66 130 sg"]
    by (auto simp: validateCanonicalSignature_def Let_def split: if_splits)
qed

end
