(* ===== verification/Bundle_Records.thy ===== *)
theory Bundle_Records
  imports Encryption Signatures Object_Operations Key_Lifecycle
begin

text \<open>
  The data of \<open>src/evidence/evidence-bundle-service.ts\<close>: the interfaces of the file, the state of the class
  \<open>EvidenceBundleService\<close>, the messages that are signed, and the schema \<open>keyOperationAuthorization\<close> of
  \<open>src/schemas/bundle-records.ts\<close>. The records of prepared bundles are objects of a heap, since \<open>#byIdempotency\<close> and
  \<open>#byBundle\<close> share them. The clock and every random value are inputs. \<open>keccak256\<close> is a parameter, with the ciphers
  and the recovery of signers in the record \<open>service_lib\<close>.
\<close>

subsection \<open>Interfaces\<close>

record principal =
  pn_actorId :: string
  pn_credentialId :: string
  pn_organizationId :: string

record service_proof =
  sv_message :: message
  sv_signature :: string

record operation_claims =
  oc_authorizationId :: string
  oc_authorizationVersion :: int
  oc_policyId :: string
  oc_policyVersion :: int
  oc_purposeId :: string
  oc_requester :: principal

record proof_window =
  pw_expiresAt :: int
  pw_issuedAt :: int
  pw_nonce :: string

record authorization_window = proof_window +
  pw_idempotencyKeyHash :: string

record acknowledgement_window = proof_window +
  pw_acknowledgementId :: string
  pw_acknowledgementVersion :: int

record command_window = proof_window +
  cw_idempotencyKeyHash :: string
  cw_commandId :: string

record signed_authorization =
  sa_claims :: operation_claims
  sa_proof :: service_proof

record signed_acknowledgement =
  sk_acknowledgementId :: string
  sk_acknowledgementVersion :: int
  sk_keyPossessionProof :: key_possession_proof
  sk_proof :: service_proof
  sk_signer :: principal

record grant_target =
  gt_bundleId :: string
  gt_effectiveAt :: int
  gt_expiresAt :: int
  gt_grantId :: string
  gt_purpose :: string
  gt_recipientEnvelopeId :: string
  gt_recipientKeyId :: string
  gt_recipientKid :: string
  gt_recipientOrganizationId :: string
  gt_recipientPublicKeySpkiSha256 :: digest

record rotation_target =
  rt_bundleId :: string
  rt_predecessorAuthorizationId :: string
  rt_successorAuthorizationId :: string
  rt_successorEnvelopeId :: string
  rt_successorKeyId :: string
  rt_successorKid :: string
  rt_successorPublicKeySpkiSha256 :: digest

text \<open>The field \<open>currentTime\<close> of a target is never read.\<close>

datatype operation_target =
  FinalizeTarget string service_proof
  | RotateTarget rotation_target
  | GrantTarget grant_target
  | DecryptTarget string string string \<comment> \<open>bundle, grant, recipient envelope\<close>

fun target_bundleId :: "operation_target \<Rightarrow> string" where
  "target_bundleId (FinalizeTarget b p) = b"
| "target_bundleId (RotateTarget t) = rt_bundleId t"
| "target_bundleId (GrantTarget t) = gt_bundleId t"
| "target_bundleId (DecryptTarget b g e) = b"

fun target_operation :: "operation_target \<Rightarrow> string" where
  "target_operation (FinalizeTarget b p) = ''verify-and-finalize-staging''"
| "target_operation (RotateTarget t) = ''rotate-controller-envelope''"
| "target_operation (GrantTarget t) = ''create-grant-envelope''"
| "target_operation (DecryptTarget b g e) = ''decrypt-with-grant''"

record 's bundle_config =
  bc_chainId :: int
  bc_controllerRepositoryId :: string
  bc_credentialAt :: "string \<Rightarrow> int \<Rightarrow> credential_acceptance"
  bc_keyOperationAuthorizer :: principal
  bc_authorizerAddress :: string
  bc_acknowledgementCredentialAt :: "principal \<Rightarrow> int \<Rightarrow> (credential_acceptance \<times> string) option"
  bc_maxProofLifetimeSeconds :: int
  bc_primaryStore :: "'s store_ops"
  bc_protectedBundleRegistryAddress :: string
  bc_replicaRepositoryId :: string
  bc_replicaStore :: "'s store_ops"

record prepare_input =
  pe_authorBindingProfileId :: string
  pe_authorBindingProfileVersion :: int
  pe_content :: bytes
  pe_contentMediaType :: string
  pe_controllerActorId :: string
  pe_controllerAuthorizationId :: string
  pe_controllerCredentialId :: string
  pe_controllerEncryptionKeyId :: string
  pe_controllerKid :: string
  pe_controllerOrganizationId :: string
  pe_controllerPublicKey :: key_object
  pe_evidencePayload :: evidence_payload
  pe_idempotencyKey :: bytes
  pe_initialCriticality :: criticality
  pe_intendedAuthorActorId :: string
  pe_intendedAuthorCredentialId :: string
  pe_intendedAuthorOrganizationId :: string

record prepared_evidence =
  pu_bundleId :: string
  pu_contentCommitment :: digest
  pu_contentEnvelopeDigest :: digest
  pu_controllerEnvelope :: bytes
  pu_controllerEnvelopeId :: string
  pu_descriptorDigest :: string
  pu_domainPayload :: bytes
  pu_domainPayloadCommitment :: digest
  pu_finalObjectId :: string
  pu_stagingId :: string
  pu_stagingObjectId :: string
  pu_storedEnvelopeLength :: nat

record prepared_internal = prepared_evidence +
  rc_aad :: json
  rc_authorBindingProfileId :: string
  rc_authorBindingProfileVersion :: int
  rc_controllerAuthorizationId :: string
  rc_controllerActorId :: string
  rc_controllerCredentialId :: string
  rc_controllerEncryptionKeyId :: string
  rc_controllerKid :: string
  rc_controllerPublicKeySpkiSha256 :: digest
  rc_controllerOrganizationId :: string
  rc_envelopeDigestBase64Url :: string
  rc_idempotencyFingerprint :: string
  rc_initialCriticality :: criticality
  rc_intendedAuthorActorId :: string
  rc_intendedAuthorCredentialId :: string
  rc_intendedAuthorOrganizationId :: string
  rc_resourceId :: string
  rc_resourceVersion :: int
  rc_signatureRecordId :: string
  rc_wrapContext :: json
  rc_finalized :: bool
  rc_critical :: bool
  rc_replicaObjectId :: "string option"

record recipient_envelope =
  re_bytes :: bytes
  re_commitment :: digest
  re_context :: json
  re_grantId :: string
  re_policyId :: string
  re_policyVersion :: int
  re_purpose :: string
  re_purposeId :: string
  re_recipientKeyId :: string
  re_recipientKid :: string
  re_recipientOrganizationId :: string
  re_recipientPublicKeySpkiSha256 :: digest

record finalized_bundle =
  fr_attestation :: service_proof
  fr_bundleId :: string
  fr_contentCommitment :: digest
  fr_contentEnvelopeDigest :: digest
  fr_domainPayloadCommitment :: digest
  fr_finalization :: service_proof
  fr_finalizedAt :: int
  fr_primaryObjectId :: string
  fr_replicaObjectId :: "string option"
  fr_storedEnvelopeLength :: nat

datatype service_error = SConflict | SInvalidProof | SInvalidState | SNotFound | SPolicyDenied
  | SSchemaRejected \<comment> \<open>a \<open>ZodError\<close>\<close>
  | SCrypto crypto_error | SKey key_error | SRepository repo_error | SStore store_error

record service_lib =
  sl_crypto :: crypto
  sl_keccak256 :: "bytes \<Rightarrow> string"
  sl_typed :: typed_data

text \<open>What a call draws at random, and which of its waits time out or find the repository down.\<close>

record service_env =
  en_protect :: protect_random
  en_stagingObjectId :: string
  en_finalObjectId :: string
  en_stagingId :: string
  en_envelopeId :: string
  en_assertionId :: string
  en_replicaObjectId :: string
  en_wrapIv :: bytes
  en_wrapSeed :: bytes
  en_promoteTimeout :: bool
  en_replicateTimeout :: bool
  en_fetchTimeout :: bool
  en_repositoryDown :: bool

record 's service_state =
  st_byIdempotency :: "(string, nat) jmap"
  st_byBundle :: "(string, nat) jmap"
  st_records :: "prepared_internal list"
  st_controllerNonces :: nonce_store
  st_domainNonces :: nonce_store
  st_acknowledgementNonces :: nonce_store
  st_finalizedRecords :: "(string, finalized_bundle) jmap"
  st_keys :: key_registry
  st_recipientEnvelopes :: "(string, recipient_envelope) jmap"
  st_authorizations :: "json authorization_state_memory"
  st_world :: 's

subsection \<open>Helpers\<close>

definition digestHex :: "digest \<Rightarrow> string" where
  "digestHex d = ''0x'' @ hex_encode (base64url_decode (digest_value d))"

definition sha256Hex :: "crypto \<Rightarrow> bytes \<Rightarrow> string" where
  "sha256Hex cr bs = ''0x'' @ hex_encode (cr_sha256 cr bs)"

definition digestObject :: "crypto \<Rightarrow> bytes \<Rightarrow> digest" where
  "digestObject cr bs = \<lparr>digest_alg = ''SHA-256'', digest_value = base64url_encode (cr_sha256 cr bs)\<rparr>"

definition digestFromHex :: "string \<Rightarrow> service_error + digest" where
  "digestFromHex v = rbind (check (\<not> hex_text_ok 64 v) SInvalidProof) (\<lambda>_.
     Inr \<lparr>digest_alg = ''SHA-256'', digest_value = base64url_encode (hex_decode (drop 2 v))\<rparr>)"

definition signatureBase64Url :: "string \<Rightarrow> service_error + string" where
  "signatureBase64Url v = rbind (check (\<not> hex_text_ok 130 v) SInvalidProof) (\<lambda>_.
     Inr (base64url_encode (hex_decode (drop 2 v))))"

definition idHash :: "service_lib \<Rightarrow> string \<Rightarrow> string" where
  "idHash lib v = sl_keccak256 lib (utf8_encode (''EVLLM_ID_V1'' @ [CHR 0x00] @ v))"

definition bundleTypeHash :: "service_lib \<Rightarrow> string \<Rightarrow> string" where
  "bundleTypeHash lib v = sl_keccak256 lib (utf8_encode (''EVLLM_LITERAL_V1'' @ [CHR 0x00] @ ''bundle-type'' @ [CHR 0x00] @ v))"

definition keyOperationHash :: "service_lib \<Rightarrow> string \<Rightarrow> string" where
  "keyOperationHash lib v = sl_keccak256 lib (utf8_encode (''EVLLM_LITERAL_V1'' @ [CHR 0x00] @ ''key-operation'' @ [CHR 0x00] @ v))"

definition stringField :: "message \<Rightarrow> string \<Rightarrow> service_error + string" where
  "stringField m f = (case map_of m f of Some (MText s) \<Rightarrow> Inr s | _ \<Rightarrow> Inl SInvalidProof)"

definition numberField :: "message \<Rightarrow> string \<Rightarrow> service_error + int" where
  "numberField m f = (case map_of m f of
     Some (MNum n) \<Rightarrow> if is_safe_integer (Some n) then Inr n else Inl SInvalidProof
   | _ \<Rightarrow> Inl SInvalidProof)"

fun msg_value_json :: "msg_value \<Rightarrow> json" where
  "msg_value_json (MText s) = JStr s"
| "msg_value_json (MNum n) = JNum n"

definition message_json :: "message \<Rightarrow> json" where
  "message_json m = JObj (map (map_prod id msg_value_json) m)"

definition proof_json :: "service_proof \<Rightarrow> json" where
  "proof_json p = JObj [(''message'', message_json (sv_message p)), (''signature'', JStr (sv_signature p))]"

definition signed_of :: "service_proof \<Rightarrow> signed_proof" where
  "signed_of p = \<lparr>sp_message = message_json (sv_message p), sp_signature = sv_signature p\<rparr>"

definition canonicalBytesEqual :: "crypto \<Rightarrow> message \<Rightarrow> message \<Rightarrow> bool" where
  "canonicalBytesEqual cr a b = (canonical cr (message_json a) = canonical cr (message_json b))"

definition publicPreparation :: "prepared_internal \<Rightarrow> prepared_evidence" where
  "publicPreparation r = prepared_evidence.truncate r"

definition pendingNonceConsumption :: "'o \<Rightarrow> signature_type \<Rightarrow> string \<Rightarrow> message \<Rightarrow> service_error + ('o \<times> string)" where
  "pendingNonceConsumption owner ty credential m =
     rbind (stringField m credential) (\<lambda>c. rbind (stringField m ''nonce'') (\<lambda>n. Inr (owner, nonceScope ty c n)))"

definition bundle_domain :: "'s bundle_config \<Rightarrow> string \<Rightarrow> proof_domain" where
  "bundle_domain cfg name = \<lparr>pd_chainId = bc_chainId cfg, pd_name = name,
     pd_verifyingContract = bc_protectedBundleRegistryAddress cfg, pd_version = ''1''\<rparr>"

definition record_address :: "'s service_state \<Rightarrow> string \<Rightarrow> service_error + nat" where
  "record_address st b = from_option SNotFound (jm_get (st_byBundle st) b)"

definition bundle_record :: "'s service_state \<Rightarrow> string \<Rightarrow> service_error + prepared_internal" where
  "bundle_record st b = rbind (record_address st b) (\<lambda>a. Inr (st_records st ! a))"

definition update_record :: "nat \<Rightarrow> (prepared_internal \<Rightarrow> prepared_internal) \<Rightarrow> 's service_state \<Rightarrow> 's service_state" where
  "update_record a f st = st\<lparr>st_records := (st_records st)[a := f (st_records st ! a)]\<rparr>"

subsection \<open>The JSON of an evidence payload\<close>

definition reference_json :: "reference \<Rightarrow> json" where
  "reference_json r = JObj [(''id'', JStr (ref_id r)), (''version'', JNum (ref_version r))]"

definition quantity_json :: "decimal_quantity \<Rightarrow> json" where
  "quantity_json q = JObj [(''value'', JStr (quantity_value q)), (''unit_id'', JStr (unit_id q)), (''unit_version'', JNum (unit_version q))]"

fun typed_value_json :: "typed_value \<Rightarrow> json" where
  "typed_value_json (QuantityValue q) = JObj [(''type'', JStr ''quantity''), (''quantity'', quantity_json q)]"
| "typed_value_json (TextValue s) = JObj [(''type'', JStr ''text''), (''value'', JStr s)]"
| "typed_value_json (BooleanValue b) = JObj [(''type'', JStr ''boolean''), (''value'', JBool b)]"

fun uncertainty_json :: "uncertainty \<Rightarrow> json" where
  "uncertainty_json NoUncertainty = JObj [(''type'', JStr ''none'')]"
| "uncertainty_json (RangeUncertainty r) = JObj [(''type'', JStr ''range''),
     (''range'', JObj [(''lower'', JStr (range_lower r)), (''upper'', JStr (range_upper r))])]"

fun granularity_text :: "granularity \<Rightarrow> string" where
  "granularity_text Pack = ''pack''"
| "granularity_text Module = ''module''"
| "granularity_text Cell = ''cell''"

fun source_class_text :: "source_class \<Rightarrow> string" where
  "source_class_text PrimarySource = ''primary''"
| "source_class_text SecondarySource = ''secondary''"
| "source_class_text DerivedSource = ''derived''"

fun criticality_text :: "criticality \<Rightarrow> string" where
  "criticality_text DecisionCritical = ''decision-critical''"
| "criticality_text Supplementary = ''supplementary''"

definition bundle_ref_json :: "protected_bundle_ref \<Rightarrow> json" where
  "bundle_ref_json r = JObj [(''schema'', JStr ''EVLLM_PROTECTED_BUNDLE_REF_V1''), (''bundle_id'', JStr (pb_bundle_id r)),
     (''bundle_version'', JNum (pb_bundle_version r)), (''domain_resource_version'', JNum (pb_domain_resource_version r)),
     (''custody_controller_org_id'', JStr (pb_custody_controller_org_id r)), (''content_schema_id'', JStr (pb_content_schema_id r)),
     (''content_schema_version'', JStr (pb_content_schema_version r)),
     (''initial_criticality_class'', JStr (criticality_text (pb_initial_criticality_class r))),
     (''criticality_profile_id'', JStr (pb_criticality_profile_id r)),
     (''criticality_profile_version'', JNum (pb_criticality_profile_version r)),
     (''bundle_type'', JStr (bundle_type_text (pb_bundle_type r))), (''domain_resource_id'', JStr (pb_domain_resource_id r))]"

definition evidence_json :: "evidence_payload \<Rightarrow> json" where
  "evidence_json p = JObj [(''schema'', JStr ''EVLLM_EVIDENCE_CLAIM_PAYLOAD_V1''), (''evidence_id'', JStr (evidence_id p)),
     (''evidence_version'', JNum (evidence_version p)), (''claim_id'', JStr (claim_id p)), (''claim_version'', JNum (claim_version p)),
     (''claim_type'', JStr (claim_type p)), (''subject_id'', JStr (subject_id p)),
     (''subject_granularity'', JStr (granularity_text (subject_granularity p))),
     (''issuer_organization_id'', JStr (issuer_organization_id p)), (''issuer_role_id'', JStr (issuer_role_id p)),
     (''observed_at'', JNum (observed_at p)), (''submitted_at'', JNum (submitted_at p)),
     (''capture_method'', reference_json (capture_method p)), (''value'', typed_value_json (claim_value p)),
     (''uncertainty'', uncertainty_json (claim_uncertainty p)), (''source_class'', JStr (source_class_text (evidence_source_class p))),
     (''provenance'', JArr (map reference_json (provenance p))), (''protected_bundle_ref'', bundle_ref_json (evidence_bundle_ref p))]"

subsection \<open>Bindings\<close>

text \<open>
  What a key operation is about: the record of its bundle, the authorities it draws on and the context the authorization
  and the acknowledgement are bound to.
\<close>

record binding =
  bi_operation :: string
  bi_operationContext :: json
  bi_record :: prepared_internal
  bi_sourceAuthorityIds :: "string list"

definition finalize_context :: "crypto \<Rightarrow> prepared_internal \<Rightarrow> service_proof \<Rightarrow> json" where
  "finalize_context cr r finalization = JObj [(''staging_id'', JStr (pu_stagingId r)),
     (''staging_object_id'', JStr (pu_stagingObjectId r)), (''staging_descriptor_digest'', JStr (pu_descriptorDigest r)),
     (''controller_authorization_id'', JStr (rc_controllerAuthorizationId r)),
     (''controller_envelope_id'', JStr (pu_controllerEnvelopeId r)),
     (''controller_encryption_key_id'', JStr (rc_controllerEncryptionKeyId r)),
     (''content_envelope_digest'', digest_json (pu_contentEnvelopeDigest r)),
     (''stored_envelope_length'', JNum (int (pu_storedEnvelopeLength r))),
     (''finalization_proof_digest'', digest_json (digestObject cr (canonical cr (proof_json finalization))))]"

definition rotate_context :: "prepared_internal \<Rightarrow> rotation_target \<Rightarrow> json" where
  "rotate_context r t = JObj [(''predecessor_authorization_id'', JStr (rt_predecessorAuthorizationId t)),
     (''predecessor_envelope_id'', JStr (pu_controllerEnvelopeId r)),
     (''predecessor_key_id'', JStr (rc_controllerEncryptionKeyId r)),
     (''predecessor_public_key_spki_sha256'', digest_json (rc_controllerPublicKeySpkiSha256 r)),
     (''successor_authorization_id'', JStr (rt_successorAuthorizationId t)),
     (''successor_envelope_id'', JStr (rt_successorEnvelopeId t)), (''successor_key_id'', JStr (rt_successorKeyId t)),
     (''successor_kid'', JStr (rt_successorKid t)),
     (''successor_public_key_spki_sha256'', digest_json (rt_successorPublicKeySpkiSha256 t))]"

definition grant_context :: "prepared_internal \<Rightarrow> grant_target \<Rightarrow> json" where
  "grant_context r t = JObj [(''controller_authorization_id'', JStr (rc_controllerAuthorizationId r)),
     (''controller_envelope_id'', JStr (pu_controllerEnvelopeId r)),
     (''content_envelope_digest'', digest_json (pu_contentEnvelopeDigest r)), (''effective_at'', JNum (gt_effectiveAt t)),
     (''expires_at'', JNum (gt_expiresAt t)), (''grant_id'', JStr (gt_grantId t)), (''purpose'', JStr (gt_purpose t)),
     (''recipient_envelope_id'', JStr (gt_recipientEnvelopeId t)), (''recipient_key_id'', JStr (gt_recipientKeyId t)),
     (''recipient_kid'', JStr (gt_recipientKid t)), (''recipient_organization_id'', JStr (gt_recipientOrganizationId t)),
     (''recipient_public_key_spki_sha256'', digest_json (gt_recipientPublicKeySpkiSha256 t))]"

definition decrypt_context :: "prepared_internal \<Rightarrow> recipient_envelope \<Rightarrow> string \<Rightarrow> json" where
  "decrypt_context r e envelopeId = JObj [(''content_envelope_digest'', digest_json (pu_contentEnvelopeDigest r)),
     (''grant_id'', JStr (re_grantId e)), (''policy_id'', JStr (re_policyId e)), (''policy_version'', JNum (re_policyVersion e)),
     (''purpose_id'', JStr (re_purposeId e)), (''recipient_envelope_commitment'', digest_json (re_commitment e)),
     (''recipient_envelope_id'', JStr envelopeId), (''recipient_key_id'', JStr (re_recipientKeyId e)),
     (''recipient_kid'', JStr (re_recipientKid e)), (''recipient_organization_id'', JStr (re_recipientOrganizationId e)),
     (''recipient_public_key_spki_sha256'', digest_json (re_recipientPublicKeySpkiSha256 e)),
     (''purpose'', JStr (re_purpose e)), (''release_mode'', JStr ''full'')]"

definition find_recipient :: "'s service_state \<Rightarrow> string \<Rightarrow> string \<Rightarrow> service_error + recipient_envelope" where
  "find_recipient st envelopeId grant = (case jm_get (st_recipientEnvelopes st) envelopeId of
     None \<Rightarrow> Inl SPolicyDenied | Some e \<Rightarrow> if re_grantId e \<noteq> grant then Inl SPolicyDenied else Inr e)"

definition keyOperationBinding :: "service_lib \<Rightarrow> 's service_state \<Rightarrow> operation_target \<Rightarrow> service_error + binding" where
  "keyOperationBinding lib st target =
     rbind (bundle_record st (target_bundleId target)) (\<lambda>r.
     case target of
       FinalizeTarget b finalization \<Rightarrow> Inr \<lparr>bi_operation = target_operation target,
         bi_operationContext = finalize_context (sl_crypto lib) r finalization, bi_record = r,
         bi_sourceAuthorityIds = [rc_controllerAuthorizationId r]\<rparr>
     | RotateTarget t \<Rightarrow> Inr \<lparr>bi_operation = target_operation target, bi_operationContext = rotate_context r t, bi_record = r,
         bi_sourceAuthorityIds = [rt_predecessorAuthorizationId t]\<rparr>
     | GrantTarget t \<Rightarrow> Inr \<lparr>bi_operation = target_operation target, bi_operationContext = grant_context r t, bi_record = r,
         bi_sourceAuthorityIds = js_sort str_le [rc_controllerAuthorizationId r, gt_grantId t]\<rparr>
     | DecryptTarget b grant envelopeId \<Rightarrow>
         rbind (find_recipient st envelopeId grant) (\<lambda>e.
         Inr \<lparr>bi_operation = target_operation target, bi_operationContext = decrypt_context r e envelopeId, bi_record = r,
              bi_sourceAuthorityIds = [re_grantId e]\<rparr>))"

definition context_digest :: "crypto \<Rightarrow> binding \<Rightarrow> digest" where
  "context_digest cr b = digestObject cr (canonical cr (bi_operationContext b))"

definition source_digest :: "crypto \<Rightarrow> binding \<Rightarrow> digest" where
  "source_digest cr b = digestObject cr (canonical cr (JArr (map JStr (bi_sourceAuthorityIds b))))"

subsection \<open>Messages\<close>

definition authorization_message ::
  "service_lib \<Rightarrow> 's bundle_config \<Rightarrow> binding \<Rightarrow> operation_claims \<Rightarrow> authorization_window \<Rightarrow> message" where
  "authorization_message lib cfg b c w =
     [(''authorizationId'', MText (idHash lib (oc_authorizationId c))), (''authorizationVersion'', MNum (oc_authorizationVersion c)),
      (''issuerServiceActorId'', MText (idHash lib (pn_actorId (bc_keyOperationAuthorizer cfg)))),
      (''issuerServiceOrgId'', MText (idHash lib (pn_organizationId (bc_keyOperationAuthorizer cfg)))),
      (''issuerServiceCredentialId'', MText (idHash lib (pn_credentialId (bc_keyOperationAuthorizer cfg)))),
      (''issuerServiceAddress'', MText (bc_authorizerAddress cfg)),
      (''repositoryId'', MText (idHash lib (bc_controllerRepositoryId cfg))),
      (''operation'', MText (keyOperationHash lib (bi_operation b))),
      (''requestingActorId'', MText (idHash lib (pn_actorId (oc_requester c)))),
      (''requestingOrgId'', MText (idHash lib (pn_organizationId (oc_requester c)))),
      (''requestingCredentialId'', MText (idHash lib (pn_credentialId (oc_requester c)))),
      (''bundleId'', MText (idHash lib (pu_bundleId (bi_record b)))), (''bundleVersion'', MNum 1),
      (''bundleType'', MText (bundleTypeHash lib ''evidence'')),
      (''domainResourceId'', MText (idHash lib (rc_resourceId (bi_record b)))),
      (''domainResourceVersion'', MNum (rc_resourceVersion (bi_record b))),
      (''purposeId'', MText (idHash lib (oc_purposeId c))), (''policyId'', MText (idHash lib (oc_policyId c))),
      (''policyVersion'', MNum (oc_policyVersion c)),
      (''sourceAuthorityDigest'', MText (digestHex (source_digest (sl_crypto lib) b))),
      (''operationContextDigest'', MText (digestHex (context_digest (sl_crypto lib) b))),
      (''nonce'', MText (pw_nonce w)), (''issuedAt'', MNum (pw_issuedAt w)), (''expiresAt'', MNum (pw_expiresAt w)),
      (''idempotencyKeyHash'', MText (pw_idempotencyKeyHash w))]"

definition serviceAuthorizationMessage ::
  "service_lib \<Rightarrow> 's bundle_config \<Rightarrow> 's service_state \<Rightarrow> operation_target \<Rightarrow> operation_claims \<Rightarrow> authorization_window
    \<Rightarrow> service_error + message" where
  "serviceAuthorizationMessage lib cfg st target c w =
     rbind (keyOperationBinding lib st target) (\<lambda>b. Inr (authorization_message lib cfg b c w))"

text \<open>The targets that bring key material, and its fields.\<close>

datatype material_target = RotationMaterial rotation_target | GrantMaterial grant_target

fun operation_of :: "material_target \<Rightarrow> operation_target" where
  "operation_of (RotationMaterial t) = RotateTarget t"
| "operation_of (GrantMaterial t) = GrantTarget t"

record material_fields =
  mf_authorityId :: string
  mf_encryptionKeyId :: string
  mf_envelopeId :: string
  mf_publicKeySpkiSha256 :: digest
  mf_recipientKid :: string

fun keyMaterialTargetFields :: "material_target \<Rightarrow> material_fields" where
  "keyMaterialTargetFields (GrantMaterial t) = \<lparr>mf_authorityId = gt_grantId t, mf_encryptionKeyId = gt_recipientKeyId t,
     mf_envelopeId = gt_recipientEnvelopeId t, mf_publicKeySpkiSha256 = gt_recipientPublicKeySpkiSha256 t,
     mf_recipientKid = gt_recipientKid t\<rparr>"
| "keyMaterialTargetFields (RotationMaterial t) = \<lparr>mf_authorityId = rt_successorAuthorizationId t,
     mf_encryptionKeyId = rt_successorKeyId t, mf_envelopeId = rt_successorEnvelopeId t,
     mf_publicKeySpkiSha256 = rt_successorPublicKeySpkiSha256 t, mf_recipientKid = rt_successorKid t\<rparr>"

definition acknowledgement_message ::
  "service_lib \<Rightarrow> 's bundle_config \<Rightarrow> binding \<Rightarrow> material_fields \<Rightarrow> principal \<Rightarrow> acknowledgement_window \<Rightarrow> message" where
  "acknowledgement_message lib cfg b f signer w =
     [(''acknowledgementId'', MText (idHash lib (pw_acknowledgementId w))),
      (''acknowledgementVersion'', MNum (pw_acknowledgementVersion w)),
      (''signerActorId'', MText (idHash lib (pn_actorId signer))), (''signerOrgId'', MText (idHash lib (pn_organizationId signer))),
      (''signerCredentialId'', MText (idHash lib (pn_credentialId signer))),
      (''repositoryId'', MText (idHash lib (bc_controllerRepositoryId cfg))),
      (''operation'', MText (keyOperationHash lib (bi_operation b))),
      (''bundleId'', MText (idHash lib (pu_bundleId (bi_record b)))), (''bundleVersion'', MNum 1),
      (''bundleType'', MText (bundleTypeHash lib ''evidence'')),
      (''domainResourceId'', MText (idHash lib (rc_resourceId (bi_record b)))),
      (''domainResourceVersion'', MNum (rc_resourceVersion (bi_record b))),
      (''authorityId'', MText (idHash lib (mf_authorityId f))), (''envelopeId'', MText (idHash lib (mf_envelopeId f))),
      (''encryptionKeyId'', MText (idHash lib (mf_encryptionKeyId f))), (''recipientKid'', MText (idHash lib (mf_recipientKid f))),
      (''publicKeySpkiSha256'', MText (digestHex (mf_publicKeySpkiSha256 f))),
      (''operationContextDigest'', MText (digestHex (context_digest (sl_crypto lib) b))),
      (''nonce'', MText (pw_nonce w)), (''issuedAt'', MNum (pw_issuedAt w)), (''expiresAt'', MNum (pw_expiresAt w))]"

definition serviceAcknowledgementMessage ::
  "service_lib \<Rightarrow> 's bundle_config \<Rightarrow> 's service_state \<Rightarrow> material_target \<Rightarrow> principal \<Rightarrow> acknowledgement_window
    \<Rightarrow> service_error + message" where
  "serviceAcknowledgementMessage lib cfg st target signer w =
     rbind (keyOperationBinding lib st (operation_of target)) (\<lambda>b.
     Inr (acknowledgement_message lib cfg b (keyMaterialTargetFields target) signer w))"

definition domainAttestationMessage ::
  "service_lib \<Rightarrow> 's service_state \<Rightarrow> string \<Rightarrow> principal \<Rightarrow> proof_window \<Rightarrow> service_error + message" where
  "domainAttestationMessage lib st bundleId signer w =
     rbind (bundle_record st bundleId) (\<lambda>r. Inr
     [(''bundleId'', MText (idHash lib (pu_bundleId r))), (''bundleVersion'', MNum 1),
      (''bundleType'', MText (bundleTypeHash lib ''evidence'')), (''domainResourceId'', MText (idHash lib (rc_resourceId r))),
      (''domainResourceVersion'', MNum (rc_resourceVersion r)),
      (''authorBindingProfileId'', MText (idHash lib (rc_authorBindingProfileId r))),
      (''authorBindingProfileVersion'', MNum (rc_authorBindingProfileVersion r)),
      (''domainPayloadCommitment'', MText (digestHex (pu_domainPayloadCommitment r))),
      (''signerActorId'', MText (idHash lib (pn_actorId signer))), (''signerOrgId'', MText (idHash lib (pn_organizationId signer))),
      (''signerCredentialId'', MText (idHash lib (pn_credentialId signer))),
      (''nonce'', MText (pw_nonce w)), (''issuedAt'', MNum (pw_issuedAt w)), (''expiresAt'', MNum (pw_expiresAt w))])"

definition jnum :: "json \<Rightarrow> string \<Rightarrow> int" where
  "jnum v k = (case jget v k of Some (JNum n) \<Rightarrow> n | _ \<Rightarrow> 0)"

definition finalization_fields ::
  "service_lib \<Rightarrow> 's bundle_config \<Rightarrow> prepared_internal \<Rightarrow> service_proof \<Rightarrow> principal \<Rightarrow> command_window \<Rightarrow> message" where
  "finalization_fields lib cfg r attestation controller w = (let cr = sl_crypto lib in
     [(''stagingDescriptorDigest'', MText (pu_descriptorDigest r)),
      (''domainManifestEnvelopeDigest'', MText (sha256Hex cr (canonical cr (proof_json attestation)))),
      (''bundleId'', MText (idHash lib (pu_bundleId r))), (''bundleVersion'', MNum 1),
      (''bundleType'', MText (bundleTypeHash lib ''evidence'')), (''domainResourceId'', MText (idHash lib (rc_resourceId r))),
      (''domainResourceVersion'', MNum (rc_resourceVersion r)),
      (''controllerActorId'', MText (idHash lib (pn_actorId controller))),
      (''controllerOrgId'', MText (idHash lib (pn_organizationId controller))),
      (''controllerCredentialId'', MText (idHash lib (pn_credentialId controller))),
      (''contentCommitment'', MText (digestHex (pu_contentCommitment r))),
      (''contentEnvelopeDigest'', MText (digestHex (pu_contentEnvelopeDigest r))),
      (''storedEnvelopeLength'', MNum (int (pu_storedEnvelopeLength r))),
      (''contentSchemaBindingDigest'', MText (sha256Hex cr (canonical cr (JObj
         [(''id'', JStr (jtext (rc_aad r) ''content_schema_id'')), (''version'', JStr (jtext (rc_aad r) ''content_schema_version''))])))),
      (''encryptionProfileId'', MText (idHash lib ''urn:evllm:profile:00000000-0000-4000-8000-000000000001'')),
      (''encryptionProfileVersion'', MNum 1),
      (''criticalityProfileId'', MText (idHash lib (jtext (rc_aad r) ''criticality_profile_id''))),
      (''criticalityProfileVersion'', MNum (jnum (rc_aad r) ''criticality_profile_version'')),
      (''initialCriticalityClass'', MText (sl_keccak256 lib (utf8_encode (''criticality-class:'' @ criticality_text (rc_initialCriticality r))))),
      (''replicaPolicyDigest'', MText (sha256Hex cr (canonical cr (JObj
         [(''repository_id'', JStr (bc_replicaRepositoryId cfg)), (''required'', JBool True)])))),
      (''nonce'', MText (pw_nonce w)), (''issuedAt'', MNum (pw_issuedAt w)), (''expiresAt'', MNum (pw_expiresAt w)),
      (''idempotencyKeyHash'', MText (cw_idempotencyKeyHash w))])"

definition finalizationMessage ::
  "service_lib \<Rightarrow> 's bundle_config \<Rightarrow> 's service_state \<Rightarrow> string \<Rightarrow> service_proof \<Rightarrow> principal \<Rightarrow> command_window
    \<Rightarrow> service_error + message" where
  "finalizationMessage lib cfg st bundleId attestation controller w =
     rbind (bundle_record st bundleId) (\<lambda>r.
     Inr ((''commandId'', MText (idHash lib (cw_commandId w))) # finalization_fields lib cfg r attestation controller w))"

subsection \<open>The schema of a consumed authorization\<close>

definition js_array :: "(json \<Rightarrow> bool) \<Rightarrow> nat \<Rightarrow> nat \<Rightarrow> json \<Rightarrow> bool" where
  "js_array p least most v = (case v of JArr xs \<Rightarrow> array_ok p least most xs | _ \<Rightarrow> False)"

definition signature_ok :: "string \<Rightarrow> bool" where
  "signature_ok s = (base64Url_ok s \<and> length (base64url_decode s) = 65)"

text \<open>The optional field \<open>result_ref\<close> is left out: the service never sets it.\<close>

definition keyOperationAuthorization :: json_table where
  "keyOperationAuthorization = [(''schema'', js_is ''EVLLM_KEY_OPERATION_AUTHORIZATION_V1''),
     (''authorization_id'', js_text (urn_ok ''authorization'')), (''authorization_version'', js_int positiveSafeInteger_ok),
     (''issuer_service_actor_id'', js_text (urn_ok ''actor'')), (''issuer_service_organization_id'', js_text (urn_ok ''org'')),
     (''issuer_service_credential_id'', js_text (urn_ok ''credential'')), (''issuer_service_address'', js_text canonicalAddress_ok),
     (''repository_id'', js_text (urn_ok ''repository'')), (''operation'', js_text shortText_ok),
     (''requesting_actor_id'', js_text (urn_ok ''actor'')), (''requesting_organization_id'', js_text (urn_ok ''org'')),
     (''requesting_credential_id'', js_text (urn_ok ''credential'')), (''bundle_id'', js_text (urn_ok ''bundle'')),
     (''bundle_version'', js_int positiveSafeInteger_ok), (''bundle_type'', js_one_of (map bundle_type_text bundleTypes)),
     (''domain_resource_id'', js_text (starts_with ''urn:evllm:'')), (''domain_resource_version'', js_int positiveSafeInteger_ok),
     (''purpose_id'', js_text (urn_ok ''policy'')), (''policy_id'', js_text (urn_ok ''policy'')),
     (''policy_version'', js_int positiveSafeInteger_ok),
     (''source_authority_ids'', js_array (js_text (starts_with ''urn:evllm:'')) 1 16),
     (''source_authority_digest'', js_digest), (''operation_context_digest'', js_digest), (''nonce'', js_text bytes32Hex_ok),
     (''issued_at'', js_int timestamp_ok), (''expires_at'', js_int timestamp_ok), (''idempotency_key_hash'', js_text bytes32Hex_ok),
     (''signature'', js_text signature_ok), (''typed_data_digest'', js_text bytes32Hex_ok), (''signature_digest'', js_digest),
     (''state'', js_one_of [''issued'', ''consumed'', ''expired'', ''rejected''])]"

definition consumed_json ::
  "service_lib \<Rightarrow> 's bundle_config \<Rightarrow> binding \<Rightarrow> operation_claims \<Rightarrow> authorization_window \<Rightarrow> string \<Rightarrow> string \<Rightarrow> digest \<Rightarrow> json" where
  "consumed_json lib cfg b c w sig typedDigest sigDigest = JObj [(''schema'', JStr ''EVLLM_KEY_OPERATION_AUTHORIZATION_V1''),
     (''authorization_id'', JStr (oc_authorizationId c)), (''authorization_version'', JNum (oc_authorizationVersion c)),
     (''issuer_service_actor_id'', JStr (pn_actorId (bc_keyOperationAuthorizer cfg))),
     (''issuer_service_organization_id'', JStr (pn_organizationId (bc_keyOperationAuthorizer cfg))),
     (''issuer_service_credential_id'', JStr (pn_credentialId (bc_keyOperationAuthorizer cfg))),
     (''issuer_service_address'', JStr (bc_authorizerAddress cfg)), (''repository_id'', JStr (bc_controllerRepositoryId cfg)),
     (''operation'', JStr (bi_operation b)), (''requesting_actor_id'', JStr (pn_actorId (oc_requester c))),
     (''requesting_organization_id'', JStr (pn_organizationId (oc_requester c))),
     (''requesting_credential_id'', JStr (pn_credentialId (oc_requester c))),
     (''bundle_id'', JStr (pu_bundleId (bi_record b))), (''bundle_version'', JNum 1), (''bundle_type'', JStr ''evidence''),
     (''domain_resource_id'', JStr (rc_resourceId (bi_record b))), (''domain_resource_version'', JNum (rc_resourceVersion (bi_record b))),
     (''purpose_id'', JStr (oc_purposeId c)), (''policy_id'', JStr (oc_policyId c)), (''policy_version'', JNum (oc_policyVersion c)),
     (''source_authority_ids'', JArr (map JStr (bi_sourceAuthorityIds b))),
     (''source_authority_digest'', digest_json (source_digest (sl_crypto lib) b)),
     (''operation_context_digest'', digest_json (context_digest (sl_crypto lib) b)), (''nonce'', JStr (pw_nonce w)),
     (''issued_at'', JNum (pw_issuedAt w)), (''expires_at'', JNum (pw_expiresAt w)),
     (''idempotency_key_hash'', JStr (pw_idempotencyKeyHash w)), (''signature'', JStr sig),
     (''typed_data_digest'', JStr typedDigest), (''signature_digest'', digest_json sigDigest), (''state'', JStr ''consumed'')]"

end
