(* ===== verification/Bundle_Service.thy ===== *)
theory Bundle_Service
  imports Bundle_Records
begin

text \<open>
  The operations of \<open>EvidenceBundleService\<close> (\<open>src/evidence/evidence-bundle-service.ts\<close>). A call takes the state and returns
  its outcome and the state it leaves, also when it throws: what a call stored or consumed before it failed
  stays. Calls run one after another. \<open>proof_check\<close> is a \<open>try\<close> block whose \<open>catch\<close> throws \<open>invalid-proof\<close>.
\<close>

definition then_do :: "('e + 'a) \<times> 's \<Rightarrow> ('a \<Rightarrow> 's \<Rightarrow> ('e + 'b) \<times> 's) \<Rightarrow> ('e + 'b) \<times> 's" where
  "then_do m f = (case m of (Inl e, s) \<Rightarrow> (Inl e, s) | (Inr x, s) \<Rightarrow> f x s)"

text \<open>A part of a call that reads the state only.\<close>

definition pure_do :: "'e + 'a \<Rightarrow> 's \<Rightarrow> ('a \<Rightarrow> ('e + 'b) \<times> 's) \<Rightarrow> ('e + 'b) \<times> 's" where
  "pure_do m s f = (case m of Inl e \<Rightarrow> (Inl e, s) | Inr x \<Rightarrow> f x)"

definition proof_check :: "'e + 'a \<Rightarrow> service_error + 'a" where
  "proof_check m = map_error (\<lambda>_. SInvalidProof) m"

subsection \<open>Authorizations and acknowledgements\<close>

definition authorization_window_of :: "message \<Rightarrow> service_error + authorization_window" where
  "authorization_window_of m =
     rbind (numberField m ''expiresAt'') (\<lambda>e.
     rbind (stringField m ''idempotencyKeyHash'') (\<lambda>k.
     rbind (numberField m ''issuedAt'') (\<lambda>i.
     rbind (stringField m ''nonce'') (\<lambda>n.
     Inr \<lparr>pw_expiresAt = e, pw_issuedAt = i, pw_nonce = n, pw_idempotencyKeyHash = k\<rparr>))))"

fun validateKeyOperationClaims :: "'s service_state \<Rightarrow> operation_target \<Rightarrow> operation_claims \<Rightarrow> service_error + unit" where
  "validateKeyOperationClaims st (DecryptTarget b grant envelopeId) c =
     (case jm_get (st_recipientEnvelopes st) envelopeId of
        None \<Rightarrow> Inl SInvalidProof
      | Some e \<Rightarrow> check (re_grantId e \<noteq> grant \<or> oc_policyId c \<noteq> re_policyId e \<or> oc_policyVersion c \<noteq> re_policyVersion e
          \<or> oc_purposeId c \<noteq> re_purposeId e \<or> pn_organizationId (oc_requester c) \<noteq> re_recipientOrganizationId e) SInvalidProof)"
| "validateKeyOperationClaims st _ c = Inr ()"

definition check_claims ::
  "service_lib \<Rightarrow> 's bundle_config \<Rightarrow> 's service_state \<Rightarrow> operation_target \<Rightarrow> signed_authorization
    \<Rightarrow> service_error + (binding \<times> authorization_window)" where
  "check_claims lib cfg st target a =
     rbind (authorization_window_of (sv_message (sa_proof a))) (\<lambda>w.
     rbind (validateKeyOperationClaims st target (sa_claims a)) (\<lambda>_.
     rbind (keyOperationBinding lib st target) (\<lambda>b.
     rbind (serviceAuthorizationMessage lib cfg st target (sa_claims a) w) (\<lambda>expected.
     rbind (check (\<not> canonicalBytesEqual (sl_crypto lib) expected (sv_message (sa_proof a))) SInvalidProof) (\<lambda>_.
     Inr (b, w))))))"

definition verify_with ::
  "service_lib \<Rightarrow> 's bundle_config \<Rightarrow> string \<Rightarrow> (string \<Rightarrow> int \<Rightarrow> credential_acceptance) \<Rightarrow> signature_type \<Rightarrow> string
    \<Rightarrow> proof_mode \<Rightarrow> service_proof \<Rightarrow> signature_error + verified_proof" where
  "verify_with lib cfg name credentialAt ty address mode p =
     rbind (verifyProtectedProof (sl_typed lib) [] \<lparr>vi_credentialAt = credentialAt,
       vi_domain = bundle_domain cfg name, vi_expectedSignerAddress = address,
       vi_maxLifetimeSeconds = bc_maxProofLifetimeSeconds cfg, vi_message = sv_message p, vi_mode = mode,
       vi_signature = sv_signature p, vi_type = ty\<rparr>) (\<lambda>r. Inr (fst r))"

definition consumed_record ::
  "service_lib \<Rightarrow> 's bundle_config \<Rightarrow> binding \<Rightarrow> authorization_window \<Rightarrow> signed_authorization \<Rightarrow> verified_proof
    \<Rightarrow> service_error + json" where
  "consumed_record lib cfg b w a v =
     rbind (signatureBase64Url (sv_signature (sa_proof a))) (\<lambda>sig.
     rbind (digestFromHex (vp_signatureDigest v)) (\<lambda>d.
     parse_with (strict_json keyOperationAuthorization) SInvalidProof
       (consumed_json lib cfg b (sa_claims a) w sig (vp_typedDataDigest v) d)))"

definition prepareKeyOperationAuthorization ::
  "service_lib \<Rightarrow> 's bundle_config \<Rightarrow> 's service_state \<Rightarrow> operation_target \<Rightarrow> signed_authorization \<Rightarrow> int
    \<Rightarrow> service_error + (json key_operation_record \<times> string)" where
  "prepareKeyOperationAuthorization lib cfg st target a now =
     rbind (proof_check (check_claims lib cfg st target a)) (\<lambda>(b, w).
     rbind (proof_check (verify_with lib cfg ''EVLLM Key Operation Authorization'' (bc_credentialAt cfg)
              KeyOperationAuthorization (bc_authorizerAddress cfg) (ExternalExecution now) (sa_proof a))) (\<lambda>v.
     rbind (proof_check (consumed_record lib cfg b w a v)) (\<lambda>consumed.
     rbind (stringField (sv_message (sa_proof a)) ''issuerServiceCredentialId'') (\<lambda>credential.
     Inr (\<lparr>kop_authorization_id = oc_authorizationId (sa_claims a),
           kop_authorization_version = oc_authorizationVersion (sa_claims a), kop_rest = consumed\<rparr>,
          nonceScope KeyOperationAuthorization credential (pw_nonce w))))))"

datatype nonce_owner = DomainNonces | ControllerNonces | AcknowledgementNonces

fun material_organization :: "'s service_state \<Rightarrow> material_target \<Rightarrow> service_error + string" where
  "material_organization st (GrantMaterial t) = Inr (gt_recipientOrganizationId t)"
| "material_organization st (RotationMaterial t) =
     rbind (bundle_record st (rt_bundleId t)) (\<lambda>r. Inr (rc_controllerOrganizationId r))"

definition acknowledgement_window_of :: "signed_acknowledgement \<Rightarrow> service_error + acknowledgement_window" where
  "acknowledgement_window_of a = (let m = sv_message (sk_proof a) in
     rbind (numberField m ''expiresAt'') (\<lambda>e.
     rbind (numberField m ''issuedAt'') (\<lambda>i.
     rbind (stringField m ''nonce'') (\<lambda>n.
     Inr \<lparr>pw_expiresAt = e, pw_issuedAt = i, pw_nonce = n, pw_acknowledgementId = sk_acknowledgementId a,
          pw_acknowledgementVersion = sk_acknowledgementVersion a\<rparr>))))"

definition verifyKeyMaterialAcknowledgement ::
  "service_lib \<Rightarrow> 's bundle_config \<Rightarrow> 's service_state \<Rightarrow> material_target \<Rightarrow> signed_acknowledgement \<Rightarrow> key_object \<Rightarrow> int
    \<Rightarrow> service_error + (nonce_owner \<times> string)" where
  "verifyKeyMaterialAcknowledgement lib cfg st target a publicKey now = proof_check (
     rbind (material_organization st target) (\<lambda>org.
     rbind (check (pn_organizationId (sk_signer a) \<noteq> org) SInvalidProof) (\<lambda>_.
     rbind (from_option SInvalidProof (bc_acknowledgementCredentialAt cfg (sk_signer a) now)) (\<lambda>(credential, address).
     rbind (acknowledgement_window_of a) (\<lambda>w.
     rbind (serviceAcknowledgementMessage lib cfg st target (sk_signer a) w) (\<lambda>expected.
     rbind (check (\<not> canonicalBytesEqual (sl_crypto lib) expected (sv_message (sk_proof a))) SInvalidProof) (\<lambda>_.
     rbind (check (\<not> verifyRsaKeyPossessionProof (sl_crypto lib) publicKey (signed_of (sk_proof a)) (sk_keyPossessionProof a))
              SInvalidProof) (\<lambda>_.
     rbind (proof_check (verify_with lib cfg ''EVLLM Key Material Acknowledgement'' (\<lambda>_ _. credential)
              KeyMaterialAcknowledgement address (Validation now) (sk_proof a))) (\<lambda>_.
     pendingNonceConsumption AcknowledgementNonces KeyMaterialAcknowledgement ''signerCredentialId''
       (sv_message (sk_proof a)))))))))))"

subsection \<open>Consuming proofs\<close>

fun nonces_of :: "nonce_owner \<Rightarrow> 's service_state \<Rightarrow> nonce_store" where
  "nonces_of DomainNonces st = st_domainNonces st"
| "nonces_of ControllerNonces st = st_controllerNonces st"
| "nonces_of AcknowledgementNonces st = st_acknowledgementNonces st"

fun set_nonces :: "nonce_owner \<Rightarrow> nonce_store \<Rightarrow> 's service_state \<Rightarrow> 's service_state" where
  "set_nonces DomainNonces n st = st\<lparr>st_domainNonces := n\<rparr>"
| "set_nonces ControllerNonces n st = st\<lparr>st_controllerNonces := n\<rparr>"
| "set_nonces AcknowledgementNonces n st = st\<lparr>st_acknowledgementNonces := n\<rparr>"

text \<open>The loop over the local nonces: whether it ended, what it consumed, and the state.\<close>

fun consume_locals ::
  "'s service_state \<Rightarrow> (nonce_owner \<times> string) list \<Rightarrow> bool \<times> (nonce_owner \<times> string) list \<times> 's service_state" where
  "consume_locals st [] = (True, [], st)"
| "consume_locals st ((owner, scope) # ps) =
     (case nonce_consume (nonces_of owner st) scope of
        Inl e \<Rightarrow> (False, [], st)
      | Inr n \<Rightarrow> (case consume_locals (set_nonces owner n st) ps of
          (ok, consumed, st') \<Rightarrow> (ok, (owner, scope) # consumed, st')))"

fun rollback_locals :: "(nonce_owner \<times> string) list \<Rightarrow> 's service_state \<Rightarrow> 's service_state" where
  "rollback_locals [] st = st"
| "rollback_locals ((owner, scope) # ps) st =
     rollback_locals ps (set_nonces owner (nonce_rollback (nonces_of owner st) scope) st)"

definition consumeValidatedProofs ::
  "bool \<Rightarrow> (nonce_owner \<times> string) list \<Rightarrow> json key_operation_record \<times> string \<Rightarrow> 's service_state
    \<Rightarrow> (service_error + unit) \<times> 's service_state" where
  "consumeValidatedProofs repositoryDown localNonces authorization st =
     (case consume_locals st localNonces of (ok, consumed, st1) \<Rightarrow>
        if \<not> ok then (Inl SInvalidProof, rollback_locals consumed st1)
        else (case (if repositoryDown then Inl RepoDbUnavailable
                    else authorization_consume (st_authorizations st1) authorization) of
                Inl e \<Rightarrow> (Inl SInvalidProof, rollback_locals consumed st1)
              | Inr m \<Rightarrow> (Inr (), st1\<lparr>st_authorizations := m\<rparr>)))"

definition consumedKeyOperationAuthorization ::
  "'s service_state \<Rightarrow> string \<Rightarrow> int \<Rightarrow> service_error + json key_operation_record" where
  "consumedKeyOperationAuthorization st i v = from_option SNotFound (authorization_find (st_authorizations st) i v)"

subsection \<open>Preparation\<close>

definition fingerprint_json :: "crypto \<Rightarrow> prepare_input \<Rightarrow> bytes \<Rightarrow> json" where
  "fingerprint_json cr i domainPayload = JObj [(''author_binding_profile_id'', JStr (pe_authorBindingProfileId i)),
     (''author_binding_profile_version'', JNum (pe_authorBindingProfileVersion i)),
     (''content_sha256'', JStr (sha256Hex cr (pe_content i))), (''controller_actor_id'', JStr (pe_controllerActorId i)),
     (''controller_authorization_id'', JStr (pe_controllerAuthorizationId i)),
     (''controller_encryption_key_id'', JStr (pe_controllerEncryptionKeyId i)),
     (''controller_organization_id'', JStr (pe_controllerOrganizationId i)),
     (''domain_payload_sha256'', JStr (sha256Hex cr domainPayload)),
     (''initial_criticality'', JStr (criticality_text (pe_initialCriticality i))),
     (''intended_author_actor_id'', JStr (pe_intendedAuthorActorId i)),
     (''intended_author_credential_id'', JStr (pe_intendedAuthorCredentialId i)),
     (''intended_author_organization_id'', JStr (pe_intendedAuthorOrganizationId i))]"

definition prepare_fingerprint :: "crypto \<Rightarrow> prepare_input \<Rightarrow> string" where
  "prepare_fingerprint cr i =
     sha256Hex cr (canonical cr (fingerprint_json cr i (canonical cr (evidence_json (pe_evidencePayload i)))))"

definition aad_input :: "'s bundle_config \<Rightarrow> prepare_input \<Rightarrow> json" where
  "aad_input cfg i = (let p = pe_evidencePayload i; ref = evidence_bundle_ref p in JObj
     [(''schema'', JStr ''EVLLM_PROTECTED_CONTENT_AAD_V1''), (''bundle_id'', JStr (pb_bundle_id ref)), (''bundle_version'', JNum 1),
      (''bundle_type'', JStr ''evidence''), (''domain_resource_id'', JStr (evidence_id p)),
      (''domain_resource_version'', JNum (evidence_version p)),
      (''custody_controller_org_id'', JStr (pe_controllerOrganizationId i)),
      (''primary_repository_id'', JStr (bc_controllerRepositoryId cfg)), (''content_schema_id'', JStr (pb_content_schema_id ref)),
      (''content_schema_version'', JStr (pb_content_schema_version ref)), (''access_class'', JStr ''restricted''),
      (''initial_criticality_class'', JStr (criticality_text (pe_initialCriticality i))),
      (''criticality_profile_id'', JStr (pb_criticality_profile_id ref)),
      (''criticality_profile_version'', JNum (pb_criticality_profile_version ref))])"

definition wrap_context :: "prepare_input \<Rightarrow> protected_content \<Rightarrow> string \<Rightarrow> json" where
  "wrap_context i r envelopeId = (let p = pe_evidencePayload i in JObj
     [(''schema'', JStr ''EVLLM_DEK_WRAP_CONTEXT_V1''), (''envelope_id'', JStr envelopeId),
      (''bundle_id'', JStr (pb_bundle_id (evidence_bundle_ref p))), (''bundle_version'', JNum 1), (''bundle_type'', JStr ''evidence''),
      (''domain_resource_id'', JStr (evidence_id p)), (''domain_resource_version'', JNum (evidence_version p)),
      (''domain_payload_commitment'', digest_json (pc_domainPayloadCommitment r)),
      (''content_commitment'', digest_json (pc_contentCommitment r)),
      (''content_envelope_digest'', digest_json (pc_contentEnvelopeDigest r)),
      (''recipient_org_id'', JStr (pe_controllerOrganizationId i)), (''recipient_kid'', JStr (pe_controllerKid i)),
      (''purpose'', JStr ''controller-custody''), (''authorization_id'', JStr (pe_controllerAuthorizationId i)),
      (''scope'', JStr ''protected-bundle:key-administration'')])"

definition descriptor_digest :: "crypto \<Rightarrow> service_env \<Rightarrow> prepare_input \<Rightarrow> protected_content \<Rightarrow> wrapped_dek \<Rightarrow> string" where
  "descriptor_digest cr en i r w = sha256Hex cr (canonical cr (JObj
     [(''bundle_id'', JStr (pb_bundle_id (evidence_bundle_ref (pe_evidencePayload i)))),
      (''content_envelope_digest'', digest_json (pc_contentEnvelopeDigest r)),
      (''controller_envelope_commitment'', digest_json (wd_commitment w)), (''final_object_id'', JStr (en_finalObjectId en)),
      (''staging_id'', JStr (en_stagingId en)), (''staging_object_id'', JStr (en_stagingObjectId en)),
      (''stored_envelope_length'', JNum (int (length (pc_envelopeBytes r))))]))"

definition new_record ::
  "crypto \<Rightarrow> service_env \<Rightarrow> prepare_input \<Rightarrow> protected_content \<Rightarrow> wrapped_dek \<Rightarrow> digest \<Rightarrow> prepared_internal" where
  "new_record cr en i r w spki = \<lparr>pu_bundleId = pb_bundle_id (evidence_bundle_ref (pe_evidencePayload i)),
     pu_contentCommitment = pc_contentCommitment r, pu_contentEnvelopeDigest = pc_contentEnvelopeDigest r,
     pu_controllerEnvelope = wd_envelopeBytes w, pu_controllerEnvelopeId = en_envelopeId en,
     pu_descriptorDigest = descriptor_digest cr en i r w,
     pu_domainPayload = canonical cr (evidence_json (pe_evidencePayload i)),
     pu_domainPayloadCommitment = pc_domainPayloadCommitment r, pu_finalObjectId = en_finalObjectId en,
     pu_stagingId = en_stagingId en, pu_stagingObjectId = en_stagingObjectId en,
     pu_storedEnvelopeLength = length (pc_envelopeBytes r), rc_aad = pc_aad r,
     rc_authorBindingProfileId = pe_authorBindingProfileId i, rc_authorBindingProfileVersion = pe_authorBindingProfileVersion i,
     rc_controllerAuthorizationId = pe_controllerAuthorizationId i, rc_controllerActorId = pe_controllerActorId i,
     rc_controllerCredentialId = pe_controllerCredentialId i, rc_controllerEncryptionKeyId = pe_controllerEncryptionKeyId i,
     rc_controllerKid = pe_controllerKid i, rc_controllerPublicKeySpkiSha256 = spki,
     rc_controllerOrganizationId = pe_controllerOrganizationId i,
     rc_envelopeDigestBase64Url = digest_value (pc_contentEnvelopeDigest r), rc_idempotencyFingerprint = prepare_fingerprint cr i,
     rc_initialCriticality = pe_initialCriticality i, rc_intendedAuthorActorId = pe_intendedAuthorActorId i,
     rc_intendedAuthorCredentialId = pe_intendedAuthorCredentialId i,
     rc_intendedAuthorOrganizationId = pe_intendedAuthorOrganizationId i, rc_resourceId = evidence_id (pe_evidencePayload i),
     rc_resourceVersion = evidence_version (pe_evidencePayload i), rc_signatureRecordId = en_assertionId en,
     rc_wrapContext = wrap_context i r (en_envelopeId en), rc_finalized = False,
     rc_critical = (pe_initialCriticality i = DecisionCritical), rc_replicaObjectId = None\<rparr>"

definition protect_of :: "'s bundle_config \<Rightarrow> prepare_input \<Rightarrow> crypto \<Rightarrow> protect_input" where
  "protect_of cfg i cr = \<lparr>ci_aad = aad_input cfg i, ci_content = pe_content i, ci_contentMediaType = pe_contentMediaType i,
     ci_domainPayload = canonical cr (evidence_json (pe_evidencePayload i))\<rparr>"

definition put_object :: "'s store_ops \<Rightarrow> string \<Rightarrow> bytes \<Rightarrow> 's service_state \<Rightarrow> (service_error + unit) \<times> 's service_state" where
  "put_object ops i bs st = (case so_put ops (st_world st) i [bs] of
     (Inl e, w) \<Rightarrow> (Inl (SStore e), st\<lparr>st_world := w\<rparr>) | (Inr _, w) \<Rightarrow> (Inr (), st\<lparr>st_world := w\<rparr>))"

definition add_record :: "string \<Rightarrow> prepared_internal \<Rightarrow> 's service_state \<Rightarrow> 's service_state" where
  "add_record idempotencyHash r st = st\<lparr>st_records := st_records st @ [r],
     st_byIdempotency := jm_set idempotencyHash (length (st_records st)) (st_byIdempotency st),
     st_byBundle := jm_set (pu_bundleId r) (length (st_records st)) (st_byBundle st)\<rparr>"

definition prepare_new ::
  "service_lib \<Rightarrow> 's bundle_config \<Rightarrow> service_env \<Rightarrow> prepare_input \<Rightarrow> 's service_state
    \<Rightarrow> (service_error + prepared_evidence) \<times> 's service_state" where
  "prepare_new lib cfg en i st = (let cr = sl_crypto lib in
     pure_do (map_error SCrypto (protectContent cr (en_protect en) (protect_of cfg i cr))) st (\<lambda>r.
     pure_do (map_error SCrypto (wrapDek cr (en_wrapIv en) (en_wrapSeed en) (wrap_context i r (en_envelopeId en)) (pc_dek r)
                (pe_controllerPublicKey i))) st (\<lambda>w.
     then_do (put_object (bc_primaryStore cfg) (en_stagingObjectId en) (pc_envelopeBytes r) st) (\<lambda>_ st1.
     pure_do (map_error SKey (stageControllerAuthorization (st_keys st1)
                \<lparr>authorizationId = pe_controllerAuthorizationId i, auth_envelopeId = en_envelopeId en,
                 auth_keyId = pe_controllerEncryptionKeyId i, auth_state = AStaged\<rparr>)) st1 (\<lambda>keys.
     let st2 = st1\<lparr>st_keys := keys\<rparr> in
     pure_do (map_error SCrypto (rsaPublicKeySpkiSha256 cr (pe_controllerPublicKey i))) st2 (\<lambda>spki.
     let record = new_record cr en i r w spki in
     (Inr (publicPreparation record), add_record (sha256Hex cr (pe_idempotencyKey i)) record st2)))))))"

definition bundle_prepare ::
  "service_lib \<Rightarrow> 's bundle_config \<Rightarrow> service_env \<Rightarrow> prepare_input \<Rightarrow> 's service_state
    \<Rightarrow> (service_error + prepared_evidence) \<times> 's service_state" where
  "bundle_prepare lib cfg en i st = (let cr = sl_crypto lib in
     pure_do (check (length (pe_idempotencyKey i) \<noteq> 32) SConflict) st (\<lambda>_.
     pure_do (parse_with evidenceClaimPayload_ok SSchemaRejected (pe_evidencePayload i)) st (\<lambda>_.
     case jm_get (st_byIdempotency st) (sha256Hex cr (pe_idempotencyKey i)) of
       Some a \<Rightarrow> let existing = st_records st ! a in
         if rc_idempotencyFingerprint existing \<noteq> prepare_fingerprint cr i then (Inl SConflict, st)
         else (Inr (publicPreparation existing), st)
     | None \<Rightarrow> prepare_new lib cfg en i st)))"

subsection \<open>Finalization\<close>

record finalize_input =
  fi_attestation :: service_proof
  fi_authorAddress :: string
  fi_bundleId :: string
  fi_controllerAddress :: string
  fi_controllerPrivateKey :: key_object
  fi_finalization :: service_proof
  fi_keyOperationAuthorization :: signed_authorization
  fi_now :: int

definition same_fields :: "message \<Rightarrow> message \<Rightarrow> bool" where
  "same_fields expected m = list_all (\<lambda>f. map_of m f = map_of expected f) (map fst expected)"

definition attestation_window_of :: "message \<Rightarrow> service_error + proof_window" where
  "attestation_window_of m =
     rbind (numberField m ''expiresAt'') (\<lambda>e.
     rbind (numberField m ''issuedAt'') (\<lambda>i.
     rbind (stringField m ''nonce'') (\<lambda>n. Inr \<lparr>pw_expiresAt = e, pw_issuedAt = i, pw_nonce = n\<rparr>)))"

definition command_window_of :: "message \<Rightarrow> service_error + command_window" where
  "command_window_of m =
     rbind (numberField m ''expiresAt'') (\<lambda>e.
     rbind (stringField m ''idempotencyKeyHash'') (\<lambda>k.
     rbind (numberField m ''issuedAt'') (\<lambda>i.
     rbind (stringField m ''nonce'') (\<lambda>n.
     Inr \<lparr>pw_expiresAt = e, pw_issuedAt = i, pw_nonce = n, cw_idempotencyKeyHash = k,
          cw_commandId = ''urn:evllm:command:00000000-0000-4000-8000-000000000000''\<rparr>))))"

definition check_attestation ::
  "service_lib \<Rightarrow> 's service_state \<Rightarrow> prepared_internal \<Rightarrow> message \<Rightarrow> service_error + unit" where
  "check_attestation lib st r m =
     rbind (attestation_window_of m) (\<lambda>w.
     rbind (domainAttestationMessage lib st (pu_bundleId r) \<lparr>pn_actorId = rc_intendedAuthorActorId r,
              pn_credentialId = rc_intendedAuthorCredentialId r, pn_organizationId = rc_intendedAuthorOrganizationId r\<rparr> w) (\<lambda>expected.
     check (\<not> same_fields expected m) SInvalidProof))"

definition check_finalization ::
  "service_lib \<Rightarrow> 's bundle_config \<Rightarrow> 's service_state \<Rightarrow> prepared_internal \<Rightarrow> service_proof \<Rightarrow> message \<Rightarrow> service_error + unit" where
  "check_finalization lib cfg st r attestation m =
     rbind (command_window_of m) (\<lambda>w.
     rbind (finalizationMessage lib cfg st (pu_bundleId r) attestation \<lparr>pn_actorId = rc_controllerActorId r,
              pn_credentialId = rc_controllerCredentialId r, pn_organizationId = rc_controllerOrganizationId r\<rparr> w) (\<lambda>expected.
     check (\<not> same_fields (filter (\<lambda>(f, _). f \<noteq> ''commandId'') expected) m) SInvalidProof))"

text \<open>Everything \<open>finalize\<close> checks before it consumes the proofs, and what it is going to consume.\<close>

definition finalize_checks ::
  "service_lib \<Rightarrow> 's bundle_config \<Rightarrow> finalize_input \<Rightarrow> 's service_state
    \<Rightarrow> service_error + (nat \<times> (nonce_owner \<times> string) list \<times> json key_operation_record \<times> string)" where
  "finalize_checks lib cfg i st =
     rbind (record_address st (fi_bundleId i)) (\<lambda>a.
     let r = st_records st ! a in
     rbind (check (rc_finalized r) SInvalidState) (\<lambda>_.
     rbind (proof_check (verify_with lib cfg ''EVLLM Domain Manifest'' (bc_credentialAt cfg) DomainManifestAttestation
              (fi_authorAddress i) (Validation (fi_now i)) (fi_attestation i))) (\<lambda>_.
     rbind (proof_check (verify_with lib cfg ''EVLLM Protected Bundle Command'' (bc_credentialAt cfg) FinalizeProtectedBundle
              (fi_controllerAddress i) (Validation (fi_now i)) (fi_finalization i))) (\<lambda>_.
     rbind (check_attestation lib st r (sv_message (fi_attestation i))) (\<lambda>_.
     rbind (check_finalization lib cfg st r (fi_attestation i) (sv_message (fi_finalization i))) (\<lambda>_.
     rbind (prepareKeyOperationAuthorization lib cfg st (FinalizeTarget (fi_bundleId i) (fi_finalization i))
              (fi_keyOperationAuthorization i) (fi_now i)) (\<lambda>authorization.
     rbind (pendingNonceConsumption DomainNonces DomainManifestAttestation ''signerCredentialId'' (sv_message (fi_attestation i))) (\<lambda>p1.
     rbind (pendingNonceConsumption ControllerNonces FinalizeProtectedBundle ''controllerCredentialId''
              (sv_message (fi_finalization i))) (\<lambda>p2.
     Inr (a, [p1, p2], authorization))))))))))"

definition object_sha :: "crypto \<Rightarrow> bytes \<Rightarrow> string" where
  "object_sha cr bs = base64url_encode (cr_sha256 cr bs)"

definition expected_of :: "prepared_internal \<Rightarrow> expected_object" where
  "expected_of r = \<lparr>exp_digest = rc_envelopeDigestBase64Url r, exp_length = pu_storedEnvelopeLength r\<rparr>"

definition open_staged :: "service_lib \<Rightarrow> 's bundle_config \<Rightarrow> key_object \<Rightarrow> prepared_internal \<Rightarrow> 's service_state \<Rightarrow> service_error + unit" where
  "open_staged lib cfg privateKey r st = (let cr = sl_crypto lib in
     rbind (map_error SCrypto (unwrapDek cr (pu_controllerEnvelope r) privateKey (rc_wrapContext r))) (\<lambda>dek.
     rbind (map_error SStore (so_get (bc_primaryStore cfg) (st_world st) (pu_stagingObjectId r))) (\<lambda>chunks.
     rbind (map_error SCrypto (openProtectedContent cr (concat chunks) dek (rc_aad r) (pu_contentCommitment r))) (\<lambda>_.
     Inr ()))))"

definition promote_record ::
  "service_lib \<Rightarrow> 's bundle_config \<Rightarrow> service_env \<Rightarrow> prepared_internal \<Rightarrow> 's service_state
    \<Rightarrow> (service_error + promotion_result) \<times> 's service_state" where
  "promote_record lib cfg en r st =
     (case promoteStagedObject (object_sha (sl_crypto lib)) (bc_primaryStore cfg) (en_promoteTimeout en) (st_world st)
        \<lparr>pi_expected = expected_of r, destinationObjectId = pu_finalObjectId r, sourceObjectId = pu_stagingObjectId r\<rparr> of
      (m, w) \<Rightarrow> (map_error SRepository m, st\<lparr>st_world := w\<rparr>))"

definition replicate_record ::
  "service_lib \<Rightarrow> 's bundle_config \<Rightarrow> service_env \<Rightarrow> nat \<Rightarrow> 's service_state
    \<Rightarrow> (service_error + promotion_result) \<times> 's service_state" where
  "replicate_record lib cfg en a st = (let r = st_records st ! a;
       st1 = update_record a (\<lambda>r. r\<lparr>rc_replicaObjectId := Some (en_replicaObjectId en)\<rparr>) st in
     case replicateExact (object_sha (sl_crypto lib)) (en_replicateTimeout en) (bc_primaryStore cfg) (pu_finalObjectId r)
        (bc_replicaStore cfg) (en_replicaObjectId en) (st_world st1) (expected_of r) of
      (m, w) \<Rightarrow> (map_error SRepository m, st1\<lparr>st_world := w\<rparr>))"

definition finalized_of :: "finalize_input \<Rightarrow> prepared_internal \<Rightarrow> finalized_bundle" where
  "finalized_of i r = \<lparr>fr_attestation = fi_attestation i, fr_bundleId = pu_bundleId r, fr_contentCommitment = pu_contentCommitment r,
     fr_contentEnvelopeDigest = pu_contentEnvelopeDigest r, fr_domainPayloadCommitment = pu_domainPayloadCommitment r,
     fr_finalization = fi_finalization i, fr_finalizedAt = fi_now i, fr_primaryObjectId = pu_finalObjectId r,
     fr_replicaObjectId = rc_replicaObjectId r, fr_storedEnvelopeLength = pu_storedEnvelopeLength r\<rparr>"

definition mark_finalized :: "finalize_input \<Rightarrow> nat \<Rightarrow> 's service_state \<Rightarrow> 's service_state" where
  "mark_finalized i a st = (let st1 = update_record a (\<lambda>r. r\<lparr>rc_finalized := True\<rparr>) st; r = st_records st1 ! a in
     st1\<lparr>st_finalizedRecords := jm_set (pu_bundleId r) (finalized_of i r) (st_finalizedRecords st1)\<rparr>)"

definition replicate_if_critical ::
  "service_lib \<Rightarrow> 's bundle_config \<Rightarrow> service_env \<Rightarrow> nat \<Rightarrow> 's service_state
    \<Rightarrow> (service_error + promotion_result option) \<times> 's service_state" where
  "replicate_if_critical lib cfg en a st =
     (if rc_critical (st_records st ! a)
      then then_do (replicate_record lib cfg en a st) (\<lambda>p st1. (Inr (Some p), st1))
      else (Inr None, st))"

definition activate_finalized :: "finalize_input \<Rightarrow> nat \<Rightarrow> 's service_state \<Rightarrow> (service_error + unit) \<times> 's service_state" where
  "activate_finalized i a st =
     pure_do (map_error SKey (activateControllerAuthorization (st_keys st) (rc_controllerAuthorizationId (st_records st ! a)))) st (\<lambda>keys.
     (Inr (), mark_finalized i a (st\<lparr>st_keys := keys\<rparr>)))"

definition bundle_finalize ::
  "service_lib \<Rightarrow> 's bundle_config \<Rightarrow> service_env \<Rightarrow> finalize_input \<Rightarrow> 's service_state
    \<Rightarrow> (service_error + promotion_result \<times> promotion_result option) \<times> 's service_state" where
  "bundle_finalize lib cfg en i st =
     pure_do (finalize_checks lib cfg i st) st (\<lambda>(a, pending, authorization).
     let r = st_records st ! a in
     then_do (consumeValidatedProofs (en_repositoryDown en) pending authorization st) (\<lambda>_ st1.
     pure_do (open_staged lib cfg (fi_controllerPrivateKey i) r st1) st1 (\<lambda>_.
     then_do (promote_record lib cfg en r st1) (\<lambda>primary st2.
     then_do (replicate_if_critical lib cfg en a st2) (\<lambda>replica st3.
     then_do (activate_finalized i a st3) (\<lambda>_ st4.
     (Inr (primary, replica), st4)))))))"

definition finalizedRecord :: "'s service_state \<Rightarrow> string \<Rightarrow> service_error + finalized_bundle" where
  "finalizedRecord st b = from_option SNotFound (jm_get (st_finalizedRecords st) b)"

subsection \<open>Rotation of the controller envelope\<close>

record rotate_input =
  ri_bundleId :: string
  ri_currentTime :: int
  ri_keyMaterialAcknowledgement :: signed_acknowledgement
  ri_keyOperationAuthorization :: signed_authorization
  ri_predecessorAuthorizationId :: string
  ri_predecessorPrivateKey :: key_object
  ri_successorAuthorizationId :: string
  ri_successorEnvelopeId :: string
  ri_successorKeyId :: string
  ri_successorKid :: string
  ri_successorPublicKey :: key_object

definition rotation_of :: "rotate_input \<Rightarrow> digest \<Rightarrow> rotation_target" where
  "rotation_of i spki = \<lparr>rt_bundleId = ri_bundleId i, rt_predecessorAuthorizationId = ri_predecessorAuthorizationId i,
     rt_successorAuthorizationId = ri_successorAuthorizationId i, rt_successorEnvelopeId = ri_successorEnvelopeId i,
     rt_successorKeyId = ri_successorKeyId i, rt_successorKid = ri_successorKid i, rt_successorPublicKeySpkiSha256 = spki\<rparr>"

definition successor_context :: "rotate_input \<Rightarrow> prepared_internal \<Rightarrow> json" where
  "successor_context i r = jset ''authorization_id'' (JStr (ri_successorAuthorizationId i))
     (jset ''recipient_kid'' (JStr (ri_successorKid i)) (jset ''envelope_id'' (JStr (ri_successorEnvelopeId i)) (rc_wrapContext r)))"

definition rotate_record :: "rotate_input \<Rightarrow> digest \<Rightarrow> wrapped_dek \<Rightarrow> prepared_internal \<Rightarrow> prepared_internal" where
  "rotate_record i spki w r = r\<lparr>rc_controllerAuthorizationId := ri_successorAuthorizationId i,
     pu_controllerEnvelope := wd_envelopeBytes w, pu_controllerEnvelopeId := ri_successorEnvelopeId i,
     rc_controllerEncryptionKeyId := ri_successorKeyId i, rc_controllerKid := ri_successorKid i,
     rc_controllerPublicKeySpkiSha256 := spki, rc_wrapContext := successor_context i r\<rparr>"

definition rotate_checks ::
  "service_lib \<Rightarrow> 's bundle_config \<Rightarrow> rotate_input \<Rightarrow> 's service_state
    \<Rightarrow> service_error + (nat \<times> digest \<times> (nonce_owner \<times> string) list \<times> json key_operation_record \<times> string)" where
  "rotate_checks lib cfg i st =
     rbind (record_address st (ri_bundleId i)) (\<lambda>a.
     let r = st_records st ! a in
     rbind (check (\<not> rc_finalized r \<or> rc_controllerAuthorizationId r \<noteq> ri_predecessorAuthorizationId i) SInvalidState) (\<lambda>_.
     rbind (map_error SCrypto (rsaPublicKeySpkiSha256 (sl_crypto lib) (ri_successorPublicKey i))) (\<lambda>spki.
     let t = rotation_of i spki in
     rbind (verifyKeyMaterialAcknowledgement lib cfg st (RotationMaterial t) (ri_keyMaterialAcknowledgement i)
              (ri_successorPublicKey i) (ri_currentTime i)) (\<lambda>p.
     rbind (prepareKeyOperationAuthorization lib cfg st (RotateTarget t) (ri_keyOperationAuthorization i) (ri_currentTime i)) (\<lambda>authorization.
     Inr (a, spki, [p], authorization))))))"

definition rotateControllerEnvelope ::
  "service_lib \<Rightarrow> 's bundle_config \<Rightarrow> service_env \<Rightarrow> rotate_input \<Rightarrow> 's service_state
    \<Rightarrow> (service_error + unit) \<times> 's service_state" where
  "rotateControllerEnvelope lib cfg en i st = (let cr = sl_crypto lib in
     pure_do (rotate_checks lib cfg i st) st (\<lambda>(a, spki, pending, authorization).
     let r = st_records st ! a; context = successor_context i r in
     then_do (consumeValidatedProofs (en_repositoryDown en) pending authorization st) (\<lambda>_ st1.
     pure_do (map_error SCrypto (unwrapDek cr (pu_controllerEnvelope r) (ri_predecessorPrivateKey i) (rc_wrapContext r))) st1 (\<lambda>dek.
     pure_do (map_error SCrypto (wrapDek cr (en_wrapIv en) (en_wrapSeed en) context dek (ri_successorPublicKey i))) st1 (\<lambda>w.
     pure_do (map_error SKey (key_call (st_keys st1) (RotateAuthorization (ri_predecessorAuthorizationId i)
                \<lparr>authorizationId = ri_successorAuthorizationId i, auth_envelopeId = ri_successorEnvelopeId i,
                 auth_keyId = ri_successorKeyId i, auth_state = AStaged\<rparr>
                (verifyWrappedDekEnvelope cr (wd_commitment w) context (wd_envelopeBytes w))))) st1 (\<lambda>keys.
     (Inr (), update_record a (rotate_record i spki w) (st1\<lparr>st_keys := keys\<rparr>))))))))"

subsection \<open>Grants\<close>

record grant_input =
  gi_bundleId :: string
  gi_controllerPrivateKey :: key_object
  gi_currentTime :: int
  gi_effectiveAt :: int
  gi_expiresAt :: int
  gi_grantId :: string
  gi_keyMaterialAcknowledgement :: signed_acknowledgement
  gi_keyOperationAuthorization :: signed_authorization
  gi_purpose :: string
  gi_recipientEnvelopeId :: string
  gi_recipientKeyId :: string
  gi_recipientKid :: string
  gi_recipientOrganizationId :: string
  gi_recipientPublicKey :: key_object

definition grant_of_input :: "grant_input \<Rightarrow> digest \<Rightarrow> grant_target" where
  "grant_of_input i spki = \<lparr>gt_bundleId = gi_bundleId i, gt_effectiveAt = gi_effectiveAt i, gt_expiresAt = gi_expiresAt i,
     gt_grantId = gi_grantId i, gt_purpose = gi_purpose i, gt_recipientEnvelopeId = gi_recipientEnvelopeId i,
     gt_recipientKeyId = gi_recipientKeyId i, gt_recipientKid = gi_recipientKid i,
     gt_recipientOrganizationId = gi_recipientOrganizationId i, gt_recipientPublicKeySpkiSha256 = spki\<rparr>"

definition recipient_context :: "grant_input \<Rightarrow> prepared_internal \<Rightarrow> json" where
  "recipient_context i r = jset ''scope'' (JStr ''protected-bundle:decrypt'') (jset ''authorization_id'' (JStr (gi_grantId i))
     (jset ''purpose'' (JStr (gi_purpose i)) (jset ''recipient_kid'' (JStr (gi_recipientKid i))
     (jset ''recipient_org_id'' (JStr (gi_recipientOrganizationId i)) (jset ''envelope_id'' (JStr (gi_recipientEnvelopeId i))
        (rc_wrapContext r))))))"

definition recipient_of :: "grant_input \<Rightarrow> json \<Rightarrow> digest \<Rightarrow> wrapped_dek \<Rightarrow> recipient_envelope" where
  "recipient_of i context spki w = (let c = sa_claims (gi_keyOperationAuthorization i) in
     \<lparr>re_bytes = wd_envelopeBytes w, re_commitment = wd_commitment w, re_context = context, re_grantId = gi_grantId i,
      re_policyId = oc_policyId c, re_policyVersion = oc_policyVersion c, re_purpose = gi_purpose i, re_purposeId = oc_purposeId c,
      re_recipientKeyId = gi_recipientKeyId i, re_recipientKid = gi_recipientKid i,
      re_recipientOrganizationId = gi_recipientOrganizationId i, re_recipientPublicKeySpkiSha256 = spki\<rparr>)"

definition grant_checks ::
  "service_lib \<Rightarrow> 's bundle_config \<Rightarrow> grant_input \<Rightarrow> 's service_state
    \<Rightarrow> service_error + (prepared_internal \<times> digest \<times> (nonce_owner \<times> string) list \<times> json key_operation_record \<times> string)" where
  "grant_checks lib cfg i st =
     rbind (bundle_record st (gi_bundleId i)) (\<lambda>r.
     rbind (check (\<not> rc_finalized r) SInvalidState) (\<lambda>_.
     rbind (map_error SCrypto (rsaPublicKeySpkiSha256 (sl_crypto lib) (gi_recipientPublicKey i))) (\<lambda>spki.
     let t = grant_of_input i spki in
     rbind (verifyKeyMaterialAcknowledgement lib cfg st (GrantMaterial t) (gi_keyMaterialAcknowledgement i)
              (gi_recipientPublicKey i) (gi_currentTime i)) (\<lambda>p.
     rbind (prepareKeyOperationAuthorization lib cfg st (GrantTarget t) (gi_keyOperationAuthorization i) (gi_currentTime i)) (\<lambda>authorization.
     Inr (r, spki, [p], authorization))))))"

definition grantRecipient ::
  "service_lib \<Rightarrow> 's bundle_config \<Rightarrow> service_env \<Rightarrow> grant_input \<Rightarrow> 's service_state \<Rightarrow> (service_error + unit) \<times> 's service_state" where
  "grantRecipient lib cfg en i st = (let cr = sl_crypto lib in
     pure_do (grant_checks lib cfg i st) st (\<lambda>(r, spki, pending, authorization).
     let context = recipient_context i r in
     then_do (consumeValidatedProofs (en_repositoryDown en) pending authorization st) (\<lambda>_ st1.
     pure_do (map_error SCrypto (unwrapDek cr (pu_controllerEnvelope r) (gi_controllerPrivateKey i) (rc_wrapContext r))) st1 (\<lambda>dek.
     pure_do (map_error SCrypto (wrapDek cr (en_wrapIv en) (en_wrapSeed en) context dek (gi_recipientPublicKey i))) st1 (\<lambda>w.
     pure_do (map_error SKey (prepareGrant (st_keys st1) \<lparr>effectiveAt = gi_effectiveAt i,
                grant_envelopeId = gi_recipientEnvelopeId i, expiresAt = gi_expiresAt i, grantId = gi_grantId i,
                recipientKeyId = gi_recipientKeyId i, grant_state = GPrepared\<rparr>)) st1 (\<lambda>keys.
     let st2 = st1\<lparr>st_keys := keys, st_recipientEnvelopes :=
           jm_set (gi_recipientEnvelopeId i) (recipient_of i context spki w) (st_recipientEnvelopes st1)\<rparr> in
     pure_do (map_error SKey (key_call keys (ActivateGrant (gi_grantId i) (gi_effectiveAt i)
                (verifyWrappedDekEnvelope cr (wd_commitment w) context (wd_envelopeBytes w))))) st2 (\<lambda>keys'.
     (Inr (), st2\<lparr>st_keys := keys'\<rparr>))))))))"

subsection \<open>Retrieval and promotion\<close>

record retrieve_input =
  rv_bundleId :: string
  rv_currentTime :: int
  rv_grantId :: string
  rv_keyOperationAuthorization :: signed_authorization
  rv_recipientEnvelopeId :: string
  rv_recipientPrivateKey :: key_object

definition retrieve_checks ::
  "service_lib \<Rightarrow> 's bundle_config \<Rightarrow> retrieve_input \<Rightarrow> 's service_state
    \<Rightarrow> service_error + (prepared_internal \<times> recipient_envelope \<times> json key_operation_record \<times> string)" where
  "retrieve_checks lib cfg i st =
     rbind (bundle_record st (rv_bundleId i)) (\<lambda>r.
     rbind (map_error SKey (authorizeRetrieval (st_keys st) (rv_grantId i) (rv_currentTime i))) (\<lambda>_.
     rbind (find_recipient st (rv_recipientEnvelopeId i) (rv_grantId i)) (\<lambda>e.
     rbind (prepareKeyOperationAuthorization lib cfg st (DecryptTarget (rv_bundleId i) (rv_grantId i) (rv_recipientEnvelopeId i))
              (rv_keyOperationAuthorization i) (rv_currentTime i)) (\<lambda>authorization.
     Inr (r, e, authorization)))))"

definition failover_of :: "'s bundle_config \<Rightarrow> prepared_internal \<Rightarrow> 's failover_input" where
  "failover_of cfg r = \<lparr>fo_expected = expected_of r, fo_critical = rc_critical r,
     fo_primary = (pu_finalObjectId r, bc_primaryStore cfg),
     fo_replica = map_option (\<lambda>i. (i, bc_replicaStore cfg)) (rc_replicaObjectId r)\<rparr>"

definition open_stored ::
  "service_lib \<Rightarrow> 's bundle_config \<Rightarrow> service_env \<Rightarrow> key_object \<Rightarrow> prepared_internal \<Rightarrow> recipient_envelope \<Rightarrow> 's service_state
    \<Rightarrow> service_error + (bytes \<times> bytes \<times> fetch_source)" where
  "open_stored lib cfg en privateKey r e st = (let cr = sl_crypto lib in
     rbind (map_error SCrypto (unwrapDek cr (re_bytes e) privateKey (re_context e))) (\<lambda>dek.
     rbind (map_error SRepository (fetchWithFailover (object_sha cr) (en_fetchTimeout en) (st_world st) (failover_of cfg r))) (\<lambda>(bytes, source).
     rbind (map_error SCrypto (openProtectedContent cr bytes dek (rc_aad r) (pu_contentCommitment r))) (\<lambda>(content, domainPayload).
     Inr (content, domainPayload, source)))))"

definition retrieveWithGrant ::
  "service_lib \<Rightarrow> 's bundle_config \<Rightarrow> service_env \<Rightarrow> retrieve_input \<Rightarrow> 's service_state
    \<Rightarrow> (service_error + bytes \<times> bytes \<times> fetch_source) \<times> 's service_state" where
  "retrieveWithGrant lib cfg en i st =
     pure_do (retrieve_checks lib cfg i st) st (\<lambda>(r, e, authorization).
     then_do (consumeValidatedProofs (en_repositoryDown en) [] authorization st) (\<lambda>_ st1.
     (open_stored lib cfg en (rv_recipientPrivateKey i) r e st1, st1)))"

definition promoteToDecisionCritical ::
  "service_lib \<Rightarrow> 's bundle_config \<Rightarrow> service_env \<Rightarrow> string \<Rightarrow> 's service_state
    \<Rightarrow> (service_error + promotion_result) \<times> 's service_state" where
  "promoteToDecisionCritical lib cfg en bundleId st =
     pure_do (record_address st bundleId) st (\<lambda>a.
     pure_do (check (\<not> rc_finalized (st_records st ! a) \<or> rc_critical (st_records st ! a)) SInvalidState) st (\<lambda>_.
     then_do (replicate_record lib cfg en a st) (\<lambda>result st1.
     (Inr result, update_record a (\<lambda>r. r\<lparr>rc_critical := True\<rparr>) st1))))"

subsection \<open>Sequences of calls\<close>

text \<open>The registry that \<open>keyLifecycle()\<close> hands out can be called in between.\<close>

datatype service_op =
  CallPrepare service_env prepare_input
  | CallFinalize service_env finalize_input
  | CallRotate service_env rotate_input
  | CallGrant service_env grant_input
  | CallRetrieve service_env retrieve_input
  | CallPromote service_env string
  | CallKeys key_op

fun service_step :: "service_lib \<Rightarrow> 's bundle_config \<Rightarrow> 's service_state \<Rightarrow> service_op \<Rightarrow> 's service_state" where
  "service_step lib cfg st (CallPrepare en i) = snd (bundle_prepare lib cfg en i st)"
| "service_step lib cfg st (CallFinalize en i) = snd (bundle_finalize lib cfg en i st)"
| "service_step lib cfg st (CallRotate en i) = snd (rotateControllerEnvelope lib cfg en i st)"
| "service_step lib cfg st (CallGrant en i) = snd (grantRecipient lib cfg en i st)"
| "service_step lib cfg st (CallRetrieve en i) = snd (retrieveWithGrant lib cfg en i st)"
| "service_step lib cfg st (CallPromote en b) = snd (promoteToDecisionCritical lib cfg en b st)"
| "service_step lib cfg st (CallKeys k) = st\<lparr>st_keys := key_step (st_keys st) k\<rparr>"

definition service_start :: "key_registry \<Rightarrow> json authorization_state_memory \<Rightarrow> 's \<Rightarrow> 's service_state" where
  "service_start keys authorizations w = \<lparr>st_byIdempotency = [], st_byBundle = [], st_records = [], st_controllerNonces = [],
     st_domainNonces = [], st_acknowledgementNonces = [], st_finalizedRecords = [], st_keys = keys, st_recipientEnvelopes = [],
     st_authorizations = authorizations, st_world = w\<rparr>"

end
