(* ===== verification/Bundle_Lemmas.thy ===== *)
theory Bundle_Lemmas
  imports Bundle_Service
begin

text \<open>
  Lemmas on the evidence bundle service. A call that does not consume its proofs leaves the state as it was; a call
  that does, consumes all of them at once. \<open>holds\<close> follows one prepared bundle through the later calls.
\<close>

subsection \<open>Calls\<close>

lemma then_do_Inr [outcome_simps]: "then_do m f = (Inr y, t) \<longleftrightarrow> (\<exists>x s. m = (Inr x, s) \<and> f x s = (Inr y, t))"
  by (cases m; cases "fst m") (auto simp: then_do_def)

lemma pure_do_Inr [outcome_simps]: "pure_do m s f = (Inr y, t) \<longleftrightarrow> (\<exists>x. m = Inr x \<and> f x = (Inr y, t))"
  by (cases m) (auto simp: pure_do_def)

lemma do_simps [simp]:
  "pure_do (Inr x) s f = f x" "pure_do (Inl e) s f = (Inl e, s)" "then_do (Inr x, s) g = g x s" "then_do (Inl e, s) g = (Inl e, s)"
  by (simp_all add: pure_do_def then_do_def)

lemma proof_check_Inr [outcome_simps]: "proof_check m = Inr x \<longleftrightarrow> m = Inr x"
  by (simp add: proof_check_def outcome_simps)

subsection \<open>Consuming proofs\<close>

definition rollback_one :: "nonce_owner \<times> string \<Rightarrow> 's service_state \<Rightarrow> 's service_state" where
  "rollback_one p st = set_nonces (fst p) (nonce_rollback (nonces_of (fst p) st) (snd p)) st"

lemma rollback_one_commute: "rollback_one p (rollback_one q st) = rollback_one q (rollback_one p st)"
  by (cases "fst p"; cases "fst q") (simp_all add: rollback_one_def nonce_rollback_def conj_commute)

lemma rollback_locals_one: "rollback_locals (p # ps) st = rollback_locals ps (rollback_one p st)"
  by (cases p) (simp add: rollback_one_def)

lemma rollback_locals_commute: "rollback_locals ps (rollback_one p st) = rollback_one p (rollback_locals ps st)"
proof (induction ps arbitrary: st)
  case (Cons q ps)
  then show ?case by (metis rollback_locals_one rollback_one_commute)
qed simp

lemma nonces_of_set [simp]: "nonces_of w (set_nonces w n st) = n" "set_nonces w (nonces_of w st) st = st"
  "set_nonces w n (set_nonces w n' st) = set_nonces w n st"
  by (cases w; simp)+

lemma rollback_one_consume:
  assumes "nonce_consume (nonces_of w st) scope = Inr n"
  shows "rollback_one (w, scope) (set_nonces w n st) = st"
  using nonce_rollback_consume [OF assms] by (simp add: rollback_one_def)

lemma rollback_consume:
  "consume_locals st ps = (ok, consumed, st') \<Longrightarrow> rollback_locals consumed st' = st"
proof (induction st ps arbitrary: ok consumed st' rule: consume_locals.induct)
  case (2 st w scope ps)
  show ?case
  proof (cases "nonce_consume (nonces_of w st) scope")
    case (Inr n)
    obtain consumed' where c: "consume_locals (set_nonces w n st) ps = (ok, consumed', st')" "consumed = (w, scope) # consumed'"
      using 2(2) Inr by (auto split: prod.splits)
    have "rollback_locals consumed st' = rollback_one (w, scope) (rollback_locals consumed' st')"
      unfolding c(2) rollback_locals_one by (rule rollback_locals_commute)
    then show ?thesis using 2(1) [OF Inr c(1)] rollback_one_consume [OF Inr] by simp
  qed (use 2 in simp)
qed simp

text \<open>A failed consumption leaves no trace.\<close>

lemma consume_Inl:
  assumes "consumeValidatedProofs d ps a st = (Inl e, st')"
  shows "e = SInvalidProof \<and> st' = st"
proof -
  obtain ok consumed st1 where c: "consume_locals st ps = (ok, consumed, st1)" by (metis prod_cases3)
  then show ?thesis using assms rollback_consume [OF c]
    by (auto simp: consumeValidatedProofs_def split: if_splits sum.splits)
qed

definition proofs_frame :: "'s service_state \<Rightarrow> 's service_state \<Rightarrow> bool" where
  "proofs_frame st st' = (st_byIdempotency st' = st_byIdempotency st \<and> st_byBundle st' = st_byBundle st
     \<and> st_records st' = st_records st \<and> st_finalizedRecords st' = st_finalizedRecords st \<and> st_keys st' = st_keys st
     \<and> st_recipientEnvelopes st' = st_recipientEnvelopes st \<and> st_world st' = st_world st)"

lemma set_nonces_frame: "proofs_frame st (set_nonces w n st) \<and> st_authorizations (set_nonces w n st) = st_authorizations st"
  by (cases w) (simp_all add: proofs_frame_def)

lemma consume_locals_Inr:
  "consume_locals st ps = (True, consumed, st') \<Longrightarrow> consumed = ps \<and> proofs_frame st st'
     \<and> st_authorizations st' = st_authorizations st
     \<and> (\<forall>(w, scope)\<in>set ps. scope \<notin> set (nonces_of w st) \<and> scope \<in> set (nonces_of w st'))
     \<and> (\<forall>w. set (nonces_of w st) \<subseteq> set (nonces_of w st'))"
proof (induction st ps arbitrary: consumed st' rule: consume_locals.induct)
  case (2 st w scope ps)
  obtain n where n: "nonce_consume (nonces_of w st) scope = Inr n" using 2(2) by (auto split: sum.splits)
  obtain consumed' where c: "consume_locals (set_nonces w n st) ps = (True, consumed', st')" "consumed = (w, scope) # consumed'"
    using 2(2) n by (auto split: prod.splits)
  have fresh: "scope \<notin> set (nonces_of w st)" "n = nonces_of w st @ [scope]"
    using n by (auto simp: nonce_consume_def split: if_splits)
  have grow: "set (nonces_of v st) \<subseteq> set (nonces_of v (set_nonces w n st))" for v
    using fresh by (cases w; cases v) auto
  show ?case using 2(1) [OF n c(1)] c(2) fresh grow set_nonces_frame [of st w n]
    by (fastforce simp: proofs_frame_def)
qed (simp add: proofs_frame_def)

lemma consume_Inr:
  assumes "consumeValidatedProofs d ps a st = (Inr u, st')"
  shows "proofs_frame st st' \<and> \<not> d \<and> authorization_consume (st_authorizations st) a = Inr (st_authorizations st')
     \<and> (\<forall>(w, scope)\<in>set ps. scope \<notin> set (nonces_of w st) \<and> scope \<in> set (nonces_of w st'))"
proof -
  obtain ok consumed st1 where c: "consume_locals st ps = (ok, consumed, st1)" by (metis prod_cases3)
  have "ok" "\<not> d" using assms c by (auto simp: consumeValidatedProofs_def split: if_splits)
  moreover from this obtain m where "authorization_consume (st_authorizations st1) a = Inr m" "st' = st1\<lparr>st_authorizations := m\<rparr>"
    using assms c by (auto simp: consumeValidatedProofs_def split: sum.splits)
  moreover have "nonces_of w (st1\<lparr>st_authorizations := m\<rparr>) = nonces_of w st1" for w m by (cases w) simp_all
  ultimately show ?thesis using consume_locals_Inr [of st ps consumed st1] c by (auto simp: proofs_frame_def)
qed

lemma consume_frame: "proofs_frame st (snd (consumeValidatedProofs d ps a st))"
proof (cases "consumeValidatedProofs d ps a st")
  case (Pair r st')
  then show ?thesis using consume_Inl [of d ps a st _ st'] consume_Inr [of d ps a st _ st']
    by (cases r) (auto simp: proofs_frame_def)
qed

lemma consume_succeeds:
  assumes "authorization_claims a \<inter> authorization_used (st_authorizations st) = {}"
    and "\<And>w scope. (w, scope) \<in> set ps \<Longrightarrow> scope \<notin> set (nonces_of w st)" and "distinct ps"
  shows "\<exists>st'. consumeValidatedProofs False ps a st = (Inr (), st')"
proof -
  have "\<exists>st1. consume_locals st ps = (True, ps, st1) \<and> st_authorizations st1 = st_authorizations st"
    using assms(2,3)
  proof (induction ps arbitrary: st)
    case (Cons p ps)
    obtain w scope where p: "p = (w, scope)" by fastforce
    have n: "nonce_consume (nonces_of w st) scope = Inr (nonces_of w st @ [scope])"
      using Cons.prems(1) p by (simp add: nonce_consume_def)
    let ?st = "set_nonces w (nonces_of w st @ [scope]) st"
    have "s \<notin> set (nonces_of v ?st)" if "(v, s) \<in> set ps" for v s
      using Cons.prems(1) [of v s] Cons.prems(2) p that by (cases v; cases w) auto
    then obtain st1 where "consume_locals ?st ps = (True, ps, st1)" "st_authorizations st1 = st_authorizations ?st"
      using Cons.IH [of ?st] Cons.prems(2) by auto
    then show ?case using n p set_nonces_frame [of st w] by simp
  qed simp
  then obtain st1 where "consume_locals st ps = (True, ps, st1)" "st_authorizations st1 = st_authorizations st" by blast
  moreover obtain m where "authorization_consume (st_authorizations st) a = Inr m"
    using authorizations.consume_ok [OF assms(1)] by blast
  ultimately show ?thesis by (simp add: consumeValidatedProofs_def)
qed

subsection \<open>The invariant\<close>

text \<open>A record without its mutable fields: what the interface \<open>PreparedInternal\<close> declares \<open>readonly\<close>.\<close>

definition frozen :: "prepared_internal \<Rightarrow> prepared_internal" where
  "frozen r = r\<lparr>pu_controllerEnvelope := [], pu_controllerEnvelopeId := [], rc_controllerAuthorizationId := [],
     rc_controllerEncryptionKeyId := [], rc_controllerKid := [],
     rc_controllerPublicKeySpkiSha256 := \<lparr>digest_alg = [], digest_value = []\<rparr>, rc_wrapContext := JNull,
     rc_finalized := False, rc_critical := False, rc_replicaObjectId := None\<rparr>"

lemma frozen_fields:
  assumes "frozen r = frozen s"
  shows "pu_bundleId r = pu_bundleId s" "pu_contentCommitment r = pu_contentCommitment s"
    "pu_contentEnvelopeDigest r = pu_contentEnvelopeDigest s" "pu_finalObjectId r = pu_finalObjectId s"
    "pu_stagingObjectId r = pu_stagingObjectId s" "pu_storedEnvelopeLength r = pu_storedEnvelopeLength s"
    "rc_aad r = rc_aad s" "rc_envelopeDigestBase64Url r = rc_envelopeDigestBase64Url s" "pu_domainPayload r = pu_domainPayload s"
    "rc_idempotencyFingerprint r = rc_idempotencyFingerprint s" "pu_domainPayloadCommitment r = pu_domainPayloadCommitment s"
    "expected_of r = expected_of s"
proof -
  have fields: "pu_bundleId (frozen x) = pu_bundleId x" "pu_contentCommitment (frozen x) = pu_contentCommitment x"
    "pu_contentEnvelopeDigest (frozen x) = pu_contentEnvelopeDigest x" "pu_finalObjectId (frozen x) = pu_finalObjectId x"
    "pu_stagingObjectId (frozen x) = pu_stagingObjectId x" "pu_storedEnvelopeLength (frozen x) = pu_storedEnvelopeLength x"
    "rc_aad (frozen x) = rc_aad x" "rc_envelopeDigestBase64Url (frozen x) = rc_envelopeDigestBase64Url x"
    "pu_domainPayload (frozen x) = pu_domainPayload x" "rc_idempotencyFingerprint (frozen x) = rc_idempotencyFingerprint x"
    "pu_domainPayloadCommitment (frozen x) = pu_domainPayloadCommitment x" for x
    by (simp_all add: frozen_def)
  show "pu_bundleId r = pu_bundleId s" "pu_contentCommitment r = pu_contentCommitment s"
    "pu_contentEnvelopeDigest r = pu_contentEnvelopeDigest s" "pu_finalObjectId r = pu_finalObjectId s"
    "pu_stagingObjectId r = pu_stagingObjectId s" "pu_storedEnvelopeLength r = pu_storedEnvelopeLength s"
    "rc_aad r = rc_aad s" "rc_envelopeDigestBase64Url r = rc_envelopeDigestBase64Url s" "pu_domainPayload r = pu_domainPayload s"
    "rc_idempotencyFingerprint r = rc_idempotencyFingerprint s" "pu_domainPayloadCommitment r = pu_domainPayloadCommitment s"
    using fields [of r] fields [of s] assms by simp_all
  then show "expected_of r = expected_of s" by (simp add: expected_of_def)
qed

text \<open>What every call keeps: records stay in place, \<open>readonly\<close> fields and both flags never go back, and nothing consumed is freed.\<close>

definition record_grows :: "prepared_internal \<Rightarrow> prepared_internal \<Rightarrow> bool" where
  "record_grows r s = (frozen s = frozen r \<and> (rc_finalized r \<longrightarrow> rc_finalized s) \<and> (rc_critical r \<longrightarrow> rc_critical s))"

definition service_grows :: "'s service_state \<Rightarrow> 's service_state \<Rightarrow> bool" where
  "service_grows st st' = (length (st_records st) \<le> length (st_records st')
     \<and> (\<forall>a<length (st_records st). record_grows (st_records st ! a) (st_records st' ! a))
     \<and> (\<forall>k a. jm_get (st_byIdempotency st) k = Some a \<longrightarrow> jm_get (st_byIdempotency st') k = Some a)
     \<and> authorization_used (st_authorizations st) \<subseteq> authorization_used (st_authorizations st')
     \<and> (\<forall>w. set (nonces_of w st) \<subseteq> set (nonces_of w st')))"

definition finalized_ok :: "'s service_state \<Rightarrow> string \<Rightarrow> finalized_bundle \<Rightarrow> bool" where
  "finalized_ok st b f = (fr_bundleId f = b \<and> (\<exists>a<length (st_records st). let r = st_records st ! a in rc_finalized r \<and> pu_bundleId r = b
     \<and> fr_contentCommitment f = pu_contentCommitment r \<and> fr_contentEnvelopeDigest f = pu_contentEnvelopeDigest r
     \<and> fr_primaryObjectId f = pu_finalObjectId r \<and> fr_storedEnvelopeLength f = pu_storedEnvelopeLength r))"

definition service_inv :: "'s service_state \<Rightarrow> bool" where
  "service_inv st = (key_inv (st_keys st)
     \<and> (\<forall>k a. jm_get (st_byIdempotency st) k = Some a \<longrightarrow> a < length (st_records st))
     \<and> (\<forall>b a. jm_get (st_byBundle st) b = Some a \<longrightarrow> a < length (st_records st) \<and> pu_bundleId (st_records st ! a) = b)
     \<and> (\<forall>b f. jm_get (st_finalizedRecords st) b = Some f \<longrightarrow> finalized_ok st b f))"

lemma record_grows_refl [simp]: "record_grows r r"
  by (simp add: record_grows_def)

lemma service_grows_refl [simp]: "service_grows st st"
  by (simp add: service_grows_def)

lemma service_grows_trans: "service_grows s t \<Longrightarrow> service_grows t u \<Longrightarrow> service_grows s u"
  unfolding service_grows_def record_grows_def by (auto; meson less_le_trans subset_iff)

lemma finalized_ok_grows:
  assumes "service_grows st st'" and "finalized_ok st b f"
  shows "finalized_ok st' b f"
proof -
  obtain a where a: "a < length (st_records st)" "rc_finalized (st_records st ! a)" "pu_bundleId (st_records st ! a) = b"
    "fr_contentCommitment f = pu_contentCommitment (st_records st ! a)"
    "fr_contentEnvelopeDigest f = pu_contentEnvelopeDigest (st_records st ! a)"
    "fr_primaryObjectId f = pu_finalObjectId (st_records st ! a)"
    "fr_storedEnvelopeLength f = pu_storedEnvelopeLength (st_records st ! a)" "fr_bundleId f = b"
    using assms(2) unfolding finalized_ok_def Let_def by blast
  have g: "a < length (st_records st')" "record_grows (st_records st ! a) (st_records st' ! a)"
    using assms(1) a(1) unfolding service_grows_def by (simp_all add: less_le_trans)
  then have f: "frozen (st_records st' ! a) = frozen (st_records st ! a)" "rc_finalized (st_records st' ! a)"
    using a(2) by (simp_all add: record_grows_def)
  then show ?thesis unfolding finalized_ok_def Let_def frozen_fields(1-6) [OF f(1), symmetric]
    using g(1) a frozen_fields(1-6) [OF f(1)] by (intro conjI exI [of _ a]) simp_all
qed

text \<open>\<open>good\<close> is the invariant together with growth from the state before the call; each kind of change keeps it.\<close>

definition good :: "'s service_state \<Rightarrow> 's service_state \<Rightarrow> bool" where
  "good st0 st = (service_inv st \<and> service_grows st0 st)"

lemma good_refl: "service_inv st \<Longrightarrow> good st st"
  by (simp add: good_def)

lemma good_change:
  assumes "good st0 st" and "service_grows st st'" and "key_inv (st_keys st')"
    and "\<And>k a. jm_get (st_byIdempotency st') k = Some a \<Longrightarrow> a < length (st_records st')"
    and "\<And>b a. jm_get (st_byBundle st') b = Some a \<Longrightarrow> a < length (st_records st') \<and> pu_bundleId (st_records st' ! a) = b"
    and "\<And>b f. jm_get (st_finalizedRecords st') b = Some f \<Longrightarrow> jm_get (st_finalizedRecords st) b = Some f \<or> finalized_ok st' b f"
  shows "good st0 st'"
proof -
  have "finalized_ok st' b f" if "jm_get (st_finalizedRecords st') b = Some f" for b f
    using assms(6) [OF that]
  proof
    assume "jm_get (st_finalizedRecords st) b = Some f"
    then have "finalized_ok st b f" using assms(1) by (auto simp: good_def service_inv_def)
    then show ?thesis by (rule finalized_ok_grows [OF assms(2)])
  qed
  then show ?thesis using assms service_grows_trans [of st0 st st'] by (auto simp: good_def service_inv_def)
qed

lemma good_same:
  assumes "good st0 st" and "st_records st' = st_records st" "st_byIdempotency st' = st_byIdempotency st"
    "st_byBundle st' = st_byBundle st" "st_finalizedRecords st' = st_finalizedRecords st" "key_inv (st_keys st')"
    and "authorization_used (st_authorizations st) \<subseteq> authorization_used (st_authorizations st')"
    and "\<And>w. set (nonces_of w st) \<subseteq> set (nonces_of w st')"
  shows "good st0 st'"
  using assms by (intro good_change [OF assms(1)]) (auto simp: service_grows_def good_def service_inv_def)

lemma nonces_of_frame [simp]:
  "nonces_of w (st\<lparr>st_world := x\<rparr>) = nonces_of w st" "nonces_of w (st\<lparr>st_keys := k\<rparr>) = nonces_of w st"
  "nonces_of w (st\<lparr>st_recipientEnvelopes := e\<rparr>) = nonces_of w st" "nonces_of w (st\<lparr>st_records := rs\<rparr>) = nonces_of w st"
  "nonces_of w (st\<lparr>st_finalizedRecords := f\<rparr>) = nonces_of w st" "nonces_of w (add_record h r st) = nonces_of w st"
  "nonces_of w (st\<lparr>st_authorizations := m\<rparr>) = nonces_of w st"
  by (cases w; simp add: add_record_def)+

lemma good_world: "good st0 st \<Longrightarrow> good st0 (st\<lparr>st_world := w\<rparr>)"
  using good_same [of st0 st] by (simp add: good_def service_inv_def)

lemma good_keys: "good st0 st \<Longrightarrow> key_inv k \<Longrightarrow> good st0 (st\<lparr>st_keys := k\<rparr>)"
  using good_same [of st0 st] by simp

lemma good_recipients: "good st0 st \<Longrightarrow> good st0 (st\<lparr>st_recipientEnvelopes := e\<rparr>)"
  using good_same [of st0 st] by (simp add: good_def service_inv_def)

lemma consume_locals_grows: "consume_locals st ps = (True, c, st') \<Longrightarrow> set (nonces_of w st) \<subseteq> set (nonces_of w st')"
  using consume_locals_Inr [of st ps c st'] by auto

lemma good_consume: "good st0 st \<Longrightarrow> good st0 (snd (consumeValidatedProofs d ps a st))"
proof (cases "consumeValidatedProofs d ps a st")
  case (Pair r st')
  assume g: "good st0 st"
  show ?thesis
  proof (cases r)
    case (Inl e)
    then show ?thesis using Pair consume_Inl [of d ps a st e st'] g by simp
  next
    case (Inr u)
    obtain ok c st1 where c: "consume_locals st ps = (ok, c, st1)" by (metis prod_cases3)
    have ok: "ok" "nonces_of w st' = nonces_of w st1" for w
      using Pair Inr c by (auto simp: consumeValidatedProofs_def split: if_splits sum.splits)
    have s: "proofs_frame st st'" "authorization_consume (st_authorizations st) a = Inr (st_authorizations st')"
      using consume_Inr [of d ps a st u st'] Pair Inr by auto
    have "good st0 st'"
    proof (rule good_same [OF g])
      show "authorization_used (st_authorizations st) \<subseteq> authorization_used (st_authorizations st')"
        using authorizations.consume_Inr [OF s(2)] by auto
      show "set (nonces_of w st) \<subseteq> set (nonces_of w st')" for w using consume_locals_grows c ok by metis
    qed (use s(1) g in \<open>auto simp: proofs_frame_def good_def service_inv_def\<close>)
    then show ?thesis using Pair by simp
  qed
qed

lemma good_add:
  assumes "good st0 st" and "jm_get (st_byIdempotency st) h = None"
  shows "good st0 (add_record h r st)"
proof (rule good_change [OF assms(1)])
  show "service_grows st (add_record h r st)"
    unfolding service_grows_def using assms(2) by (simp add: nth_append) (auto simp: add_record_def jm_simps nth_append)
  have i: "\<And>k a. jm_get (st_byIdempotency st) k = Some a \<Longrightarrow> a < length (st_records st)"
    "\<And>b a. jm_get (st_byBundle st) b = Some a \<Longrightarrow> a < length (st_records st) \<and> pu_bundleId (st_records st ! a) = b"
    using assms(1) by (auto simp: good_def service_inv_def)
  show "a < length (st_records (add_record h r st))" if "jm_get (st_byIdempotency (add_record h r st)) k = Some a" for k a
    using that i(1) [of k a] by (auto simp: add_record_def jm_simps split: if_splits)
  show "a < length (st_records (add_record h r st)) \<and> pu_bundleId (st_records (add_record h r st) ! a) = b"
    if "jm_get (st_byBundle (add_record h r st)) b = Some a" for b a
    using that i(2) [of b a] by (auto simp: add_record_def jm_simps nth_append split: if_splits)
qed (use assms(1) in \<open>auto simp: add_record_def good_def service_inv_def\<close>)

lemma update_record_records:
  "st_records (update_record a f st) = (st_records st)[a := f (st_records st ! a)]"
  by (simp add: update_record_def)

lemma good_update:
  assumes "good st0 st" and "\<And>r. record_grows r (f r)"
  shows "good st0 (update_record a f st)"
proof (rule good_change [OF assms(1)])
  have g: "record_grows (st_records st ! b) ((st_records st)[a := f (st_records st ! a)] ! b)"
    if "b < length (st_records st)" for b
    using assms(2) that by (cases "b = a") (auto simp: nth_list_update)
  then show "service_grows st (update_record a f st)"
    by (simp add: service_grows_def update_record_def)
  have b: "pu_bundleId ((st_records st)[a := f (st_records st ! a)] ! b) = pu_bundleId (st_records st ! b)"
    if "b < length (st_records st)" for b
    by (rule frozen_fields(1)) (use g [OF that] in \<open>simp add: record_grows_def\<close>)
  show "c < length (st_records (update_record a f st)) \<and> pu_bundleId (st_records (update_record a f st) ! c) = d"
    if "jm_get (st_byBundle (update_record a f st)) d = Some c" for d c
  proof -
    have "c < length (st_records st) \<and> pu_bundleId (st_records st ! c) = d"
      using that assms(1) by (auto simp: update_record_def good_def service_inv_def)
    then show ?thesis using b [of c] by (simp add: update_record_def)
  qed
qed (use assms(1) in \<open>auto simp: update_record_def good_def service_inv_def\<close>)

subsection \<open>Every call keeps the invariant\<close>

lemma good_pure_do: "good st0 s \<Longrightarrow> (\<And>x. m = Inr x \<Longrightarrow> good st0 (snd (f x))) \<Longrightarrow> good st0 (snd (pure_do m s f))"
  by (cases m) simp_all

lemma good_then_do:
  "good st0 (snd m) \<Longrightarrow> (\<And>x s. m = (Inr x, s) \<Longrightarrow> good st0 s \<Longrightarrow> good st0 (snd (f x s))) \<Longrightarrow> good st0 (snd (then_do m f))"
  by (cases m; cases "fst m") auto

lemma good_key_call: "good st0 st \<Longrightarrow> key_call (st_keys st) x = Inr k \<Longrightarrow> good st0 (st\<lparr>st_keys := k\<rparr>)"
  using key_call_inv [of "st_keys st" x k] good_keys [of st0 st k] by (auto simp: good_def service_inv_def)

lemma put_object_frame: "\<exists>w. snd (put_object ops i bs st) = st\<lparr>st_world := w\<rparr>"
  by (auto simp: put_object_def split: prod.splits sum.splits)

lemma good_put: "good st0 st \<Longrightarrow> good st0 (snd (put_object ops i bs st))"
  using put_object_frame [of ops i bs st] good_world by metis

lemma good_promote: "good st0 st \<Longrightarrow> good st0 (snd (promote_record lib cfg en r st))"
  using good_world by (auto simp: promote_record_def split: prod.splits)

lemma record_grows_flags:
  "record_grows r (r\<lparr>rc_replicaObjectId := x\<rparr>)" "record_grows r (r\<lparr>rc_finalized := True\<rparr>)" "record_grows r (r\<lparr>rc_critical := True\<rparr>)"
  "record_grows r (rotate_record i spki w r)"
  by (simp_all add: record_grows_def frozen_def rotate_record_def)

lemma good_replicate: "good st0 st \<Longrightarrow> good st0 (snd (replicate_record lib cfg en a st))"
  using good_world [OF good_update [of st0 st "\<lambda>r. r\<lparr>rc_replicaObjectId := Some (en_replicaObjectId en)\<rparr>" a]] record_grows_flags(1)
  by (auto simp: replicate_record_def Let_def split: prod.splits)

lemma good_stage:
  assumes "good st0 st1" and "map_error SKey (stageControllerAuthorization (st_keys st1) x) = Inr k"
  shows "good st0 (st1\<lparr>st_keys := k\<rparr>)"
  by (rule good_key_call [OF assms(1), of "StageAuthorization x"]) (use assms(2) in \<open>simp add: outcome_simps\<close>)

lemma put_object_same: "put_object ops i bs st = (r, st1) \<Longrightarrow> st_byIdempotency st1 = st_byIdempotency st"
  using put_object_frame [of ops i bs st] by auto

lemma good_prepare_new:
  assumes "good st0 st" and "jm_get (st_byIdempotency st) (sha256Hex (sl_crypto lib) (pe_idempotencyKey i)) = None"
  shows "good st0 (snd (prepare_new lib cfg en i st))"
  unfolding prepare_new_def Let_def
  by (intro good_pure_do good_then_do good_put assms(1))
    (auto intro!: good_add good_stage simp: put_object_same assms(2))

lemma good_prepare: "good st0 st \<Longrightarrow> good st0 (snd (bundle_prepare lib cfg en i st))"
  unfolding bundle_prepare_def Let_def
  by (intro good_pure_do) (auto split: option.split intro: good_prepare_new)

lemma good_finalize:
  assumes "service_inv st"
  shows "good st (snd (bundle_finalize lib cfg en i st))"
proof -
  have mark: "good st (mark_finalized i a (st1\<lparr>st_keys := k\<rparr>))"
    if "good st st1" "map_error SKey (activateControllerAuthorization (st_keys st1) x) = Inr k" "a < length (st_records st1)" for st1 k a x
  proof -
    let ?st = "update_record a (\<lambda>r. r\<lparr>rc_finalized := True\<rparr>) (st1\<lparr>st_keys := k\<rparr>)"
    have "good st (st1\<lparr>st_keys := k\<rparr>)"
      by (rule good_key_call [OF that(1), of "ActivateAuthorization x"]) (use that(2) in \<open>simp add: outcome_simps\<close>)
    then have g: "good st ?st" by (rule good_update) (rule record_grows_flags(2))
    have "finalized_ok (mark_finalized i a (st1\<lparr>st_keys := k\<rparr>)) (pu_bundleId (st_records ?st ! a)) (finalized_of i (st_records ?st ! a))"
      unfolding finalized_ok_def Let_def using that(3)
      by (intro conjI exI [of _ a]) (simp_all add: mark_finalized_def Let_def finalized_of_def update_record_def)
    then show ?thesis using g
      by (intro good_change [OF g]) (auto simp: mark_finalized_def Let_def jm_simps good_def service_inv_def service_grows_def split: if_splits)
  qed
  have a: "a < length (st_records st')" if "finalize_checks lib cfg i st = Inr (a, p, z)" "good st st'" for a p z st'
  proof -
    have "jm_get (st_byBundle st) (fi_bundleId i) = Some a"
      using that(1) by (auto simp: finalize_checks_def Let_def outcome_simps record_address_def)
    then have "a < length (st_records st)" using assms by (auto simp: service_inv_def)
    then show ?thesis using that(2) by (simp add: good_def service_grows_def)
  qed
  have rep: "good st (snd (replicate_if_critical lib cfg en a st2))" if "good st st2" for a st2
    using that unfolding replicate_if_critical_def by (auto intro!: good_then_do good_replicate)
  have act: "good st (snd (activate_finalized i a st3))" if "good st st3" "finalize_checks lib cfg i st = Inr (a, p, z)" for a st3 p z
    using that unfolding activate_finalized_def by (auto intro!: good_pure_do mark a)
  show ?thesis
    unfolding bundle_finalize_def
    by (rule good_pure_do [OF good_refl [OF assms]])
      (auto simp: Let_def intro!: good_then_do good_pure_do good_consume good_refl assms good_promote rep act)
qed

lemma good_rotate:
  assumes "service_inv st"
  shows "good st (snd (rotateControllerEnvelope lib cfg en i st))"
proof -
  have tail: "good st (update_record a (rotate_record i spki w) (st1\<lparr>st_keys := k\<rparr>))"
    if "good st st1" "map_error SKey (key_call (st_keys st1) x) = Inr k" for st1 k a spki w x
    using good_update [OF good_key_call [OF that(1)] record_grows_flags(4), of x k] that(2) by (simp add: outcome_simps)
  show ?thesis
    unfolding rotateControllerEnvelope_def Let_def
    by (rule good_pure_do [OF good_refl [OF assms]])
      (auto intro!: good_then_do good_pure_do good_consume good_refl assms tail simp del: key_call.simps)
qed

lemma good_grant:
  assumes "service_inv st"
  shows "good st (snd (grantRecipient lib cfg en i st))"
proof -
  have stored: "good st (st1\<lparr>st_keys := k, st_recipientEnvelopes := e\<rparr>)"
    if "good st st1" "map_error SKey (prepareGrant (st_keys st1) x) = Inr k" for st1 k e x
    using good_recipients [OF good_key_call [OF that(1), of "PrepareGrant x" k]] that(2) by (simp add: outcome_simps)
  have active: "good st (st1\<lparr>st_recipientEnvelopes := e, st_keys := k'\<rparr>)"
    if "good st st1" "map_error SKey (prepareGrant (st_keys st1) x) = Inr k" "map_error SKey (key_call k y) = Inr k'" for st1 k k' e x y
    using good_key_call [OF stored [OF that(1,2)], where x = y and k = k'] that(3) by (simp add: outcome_simps)
  show ?thesis
    unfolding grantRecipient_def Let_def
    by (rule good_pure_do [OF good_refl [OF assms]])
      (auto intro!: good_then_do good_pure_do good_consume good_refl assms stored active simp del: key_call.simps)
qed

lemma good_retrieve: "service_inv st \<Longrightarrow> good st (snd (retrieveWithGrant lib cfg en i st))"
  unfolding retrieveWithGrant_def
  by (rule good_pure_do) (auto intro!: good_then_do good_consume good_refl)

lemma good_promote_critical: "service_inv st \<Longrightarrow> good st (snd (promoteToDecisionCritical lib cfg en b st))"
  unfolding promoteToDecisionCritical_def
  by (intro good_pure_do good_then_do good_replicate good_refl) (auto intro!: good_update simp: record_grows_flags)

lemma good_step: "service_inv st \<Longrightarrow> good st (service_step lib cfg st x)"
proof (cases x)
  case (CallKeys k)
  assume st: "service_inv st"
  then have "key_inv (key_step (st_keys st) k)" using key_step_inv by (simp add: service_inv_def)
  then show ?thesis using CallKeys good_keys [OF good_refl [OF st]] by simp
qed (simp_all add: good_prepare good_refl good_finalize good_rotate good_grant good_retrieve good_promote_critical)

lemma service_inv_start: "key_inv keys \<Longrightarrow> service_inv (service_start keys authorizations w)"
  by (simp add: service_inv_def service_start_def)

interpretation service: guarded_system "service_start empty_keys authorizations w" "service_step lib cfg" service_inv
    for authorizations w lib cfg
  using good_step by unfold_locales (auto simp: good_def intro: service_inv_start key_inv_empty)

lemma service_run_grows: "service_inv st \<Longrightarrow> service_grows st (run (service_step lib cfg) st xs)"
  by (rule service.run_relation [where R = service_grows])
    (use good_step in \<open>auto simp: good_def dest: service_grows_trans\<close>)

subsection \<open>Calls that succeed\<close>

lemma prepare_authorization_Inr:
  assumes "prepareKeyOperationAuthorization lib cfg st target a now = Inr (rec, scope)"
  shows "\<exists>b w v c. check_claims lib cfg st target a = Inr (b, w)
    \<and> verify_with lib cfg ''EVLLM Key Operation Authorization'' (bc_credentialAt cfg) KeyOperationAuthorization
        (bc_authorizerAddress cfg) (ExternalExecution now) (sa_proof a) = Inr v
    \<and> consumed_record lib cfg b w a v = Inr (kop_rest rec) \<and> kop_authorization_id rec = oc_authorizationId (sa_claims a)
    \<and> kop_authorization_version rec = oc_authorizationVersion (sa_claims a)
    \<and> scope = nonceScope KeyOperationAuthorization c (pw_nonce w)"
  using assms unfolding prepareKeyOperationAuthorization_def by (auto simp: outcome_simps)

lemma finalize_Inr:
  assumes "bundle_finalize lib cfg en i st = (Inr (p, q), st')"
  shows "\<exists>a pend auth st1 st2 st3. finalize_checks lib cfg i st = Inr (a, pend, auth)
    \<and> consumeValidatedProofs (en_repositoryDown en) pend auth st = (Inr (), st1)
    \<and> open_staged lib cfg (fi_controllerPrivateKey i) (st_records st ! a) st1 = Inr ()
    \<and> promote_record lib cfg en (st_records st ! a) st1 = (Inr p, st2)
    \<and> replicate_if_critical lib cfg en a st2 = (Inr q, st3) \<and> activate_finalized i a st3 = (Inr (), st')"
  using assms unfolding bundle_finalize_def Let_def by (auto simp: outcome_simps)

lemma rotate_Inr:
  assumes "rotateControllerEnvelope lib cfg en i st = (Inr u, st')"
  shows "\<exists>a spki pend auth st1 dek w keys. rotate_checks lib cfg i st = Inr (a, spki, pend, auth)
    \<and> consumeValidatedProofs (en_repositoryDown en) pend auth st = (Inr (), st1)
    \<and> unwrapDek (sl_crypto lib) (pu_controllerEnvelope (st_records st ! a)) (ri_predecessorPrivateKey i)
        (rc_wrapContext (st_records st ! a)) = Inr dek
    \<and> wrapDek (sl_crypto lib) (en_wrapIv en) (en_wrapSeed en) (successor_context i (st_records st ! a)) dek
        (ri_successorPublicKey i) = Inr w
    \<and> st' = update_record a (rotate_record i spki w) (st1\<lparr>st_keys := keys\<rparr>)"
  using assms unfolding rotateControllerEnvelope_def Let_def by (auto simp: outcome_simps simp del: key_call.simps)

lemma grant_Inr:
  assumes "grantRecipient lib cfg en i st = (Inr u, st')"
  shows "\<exists>r spki pend auth st1 dek w keys keys'. grant_checks lib cfg i st = Inr (r, spki, pend, auth)
    \<and> consumeValidatedProofs (en_repositoryDown en) pend auth st = (Inr (), st1)
    \<and> unwrapDek (sl_crypto lib) (pu_controllerEnvelope r) (gi_controllerPrivateKey i) (rc_wrapContext r) = Inr dek
    \<and> wrapDek (sl_crypto lib) (en_wrapIv en) (en_wrapSeed en) (recipient_context i r) dek (gi_recipientPublicKey i) = Inr w
    \<and> prepareGrant (st_keys st1) \<lparr>effectiveAt = gi_effectiveAt i, grant_envelopeId = gi_recipientEnvelopeId i,
        expiresAt = gi_expiresAt i, grantId = gi_grantId i, recipientKeyId = gi_recipientKeyId i, grant_state = GPrepared\<rparr> = Inr keys
    \<and> key_call keys (ActivateGrant (gi_grantId i) (gi_effectiveAt i)
        (verifyWrappedDekEnvelope (sl_crypto lib) (wd_commitment w) (recipient_context i r) (wd_envelopeBytes w))) = Inr keys'
    \<and> st' = st1\<lparr>st_keys := keys', st_recipientEnvelopes :=
        jm_set (gi_recipientEnvelopeId i) (recipient_of i (recipient_context i r) spki w) (st_recipientEnvelopes st1)\<rparr>"
  using assms unfolding grantRecipient_def Let_def by (auto simp: outcome_simps simp del: key_call.simps)

lemma retrieve_Inr:
  assumes "retrieveWithGrant lib cfg en i st = (Inr x, st')"
  shows "\<exists>r e auth. retrieve_checks lib cfg i st = Inr (r, e, auth)
    \<and> consumeValidatedProofs (en_repositoryDown en) [] auth st = (Inr (), st')
    \<and> open_stored lib cfg en (rv_recipientPrivateKey i) r e st' = Inr x"
  using assms unfolding retrieveWithGrant_def by (auto simp: outcome_simps)

end
