(* ===== verification/Bundle_Acceptance.thy ===== *)
theory Bundle_Acceptance
  imports Bundle_Lemmas
begin

text \<open>
  Proofs that are accepted: whoever signs the message the evidence bundle service hands out for an operation gets through the
  checks of that operation. The locale \<open>service_library\<close> states what is relied on beside \<open>encryption\<close>: hashes are 32
  bytes, written in hexadecimal.
\<close>

locale service_library = encryption "sl_crypto lib" for lib :: service_lib +
  assumes keccak_hex: "bytes32Hex_ok (sl_keccak256 lib bs)"
    and hash_hex: "bytes32Hex_ok (td_hash (sl_typed lib) d t m)"
    and sha_hex: "bytes32Hex_ok (''0x'' @ td_sha256_hex (sl_typed lib) s)"

subsection \<open>Hexadecimal texts\<close>

lemma hex_text_encode: "hex_text_ok (2 * length bs) (''0x'' @ hex_encode bs)"
  by (simp add: hex_text_ok_def starts_with_def hex_encode_hex length_hex_encode)

lemma index_of_hex: "is_hex_lower c \<Longrightarrow> \<exists>n. index_of c hex_chars = Some n"
proof -
  have "list_all (\<lambda>c. index_of c hex_chars \<noteq> None) ''0123456789abcdef''" by code_simp
  then show "is_hex_lower c \<Longrightarrow> \<exists>n. index_of c hex_chars = Some n" by (auto simp: is_hex_lower_def list_all_iff)
qed

lemma length_hex_decode: "list_all is_hex_lower s \<Longrightarrow> length (hex_decode s) = length s div 2"
proof (induction s rule: hex_decode.induct)
  case (1 a b r)
  then obtain x y where "index_of a hex_chars = Some x" "index_of b hex_chars = Some y" using index_of_hex by fastforce
  then show ?case using 1 by simp
qed simp_all

subsection \<open>Objects in the order of their schema\<close>

lemma ordered_fields:
  assumes "map fst xs = map fst ys" and "distinct (map fst ys)" and "list_all2 (\<lambda>x y. P (snd x) (snd y)) ys xs" and "(k, q) \<in> set ys"
  shows "\<exists>v. map_of xs k = Some v \<and> P q v"
  using assms
proof (induction ys arbitrary: xs)
  case (Cons y ys)
  then obtain x zs where x: "xs = x # zs" "fst x = fst y" "P (snd y) (snd x)" "map fst zs = map fst ys"
    "list_all2 (\<lambda>x y. P (snd x) (snd y)) ys zs"
    by (cases xs) auto
  show ?case
  proof (cases "(k, q) = y")
    case True
    then show ?thesis using x by (cases x) auto
  next
    case False
    then have "(k, q) \<in> set ys" using Cons.prems(4) by auto
    moreover have "fst y \<notin> set (map fst ys)" using Cons.prems(2) by simp
    moreover from calculation(1) have "k \<in> set (map fst ys)" by force
    ultimately show ?thesis using Cons.IH [OF x(4) _ x(5)] Cons.prems(2) x by (cases x) (auto simp del: set_map)
  qed
qed simp

lemma strict_object_ordered:
  assumes "map fst m = map fst schema" and "distinct (map fst schema)" and "list_all2 (\<lambda>x y. field_ok (snd x) (snd y)) schema m"
  shows "strict_object_ok schema m"
proof -
  have "case map_of m f of None \<Rightarrow> False | Some v \<Rightarrow> field_ok k v" if "(f, k) \<in> set schema" for f k
    using ordered_fields [OF assms(1-3) that] by auto
  moreover have "f \<in> set (map fst schema)" if "(f, v) \<in> set m" for f v using that assms(1) by (metis fst_conv image_eqI list.set_map)
  ultimately show ?thesis using assms(1,2) by (auto simp: strict_object_ok_def list_all_iff)
qed

lemma strict_json_ordered:
  assumes "map fst fs = map fst table" and "distinct (map fst table)" and "list_all2 (\<lambda>x y. (snd x) (snd y)) table fs"
  shows "strict_json table (JObj fs)"
proof -
  have "case map_of fs f of None \<Rightarrow> False | Some v \<Rightarrow> q v" if "(f, q) \<in> set table" for f q
    using ordered_fields [where P = "\<lambda>q v. q v", OF assms(1-3) that] by auto
  then show ?thesis using assms(1,2) by (auto simp: strict_json_def list_all_iff)
qed

lemma same_fields_tail: "k \<notin> set (map fst m) \<Longrightarrow> same_fields m ((k, v) # m)"
  by (auto simp: same_fields_def list_all_iff)

subsection \<open>Accepted proofs\<close>

definition window_ok :: "'s bundle_config \<Rightarrow> int \<Rightarrow> 'a proof_window_scheme \<Rightarrow> bool" where
  "window_ok cfg now w = (positiveSafeInteger_ok (pw_issuedAt w) \<and> positiveSafeInteger_ok (pw_expiresAt w) \<and> pw_issuedAt w \<le> now
     \<and> now < pw_expiresAt w \<and> pw_expiresAt w - pw_issuedAt w \<le> bc_maxProofLifetimeSeconds cfg \<and> bytes32Hex_ok (pw_nonce w))"

text \<open>A signature the recovery attributes to \<open>address\<close>.\<close>

definition signed_by :: "service_lib \<Rightarrow> 's bundle_config \<Rightarrow> string \<Rightarrow> signature_type \<Rightarrow> string \<Rightarrow> service_proof \<Rightarrow> bool" where
  "signed_by lib cfg name ty address p = (validateCanonicalSignature (sv_signature p) = Inr (sv_signature p)
     \<and> map_option (map to_lower_char) (td_recover (sl_typed lib) (bundle_domain cfg name)
         (primaryType (eip712Profiles ty), profile_fields (eip712Profiles ty)) (sv_message p) (sv_signature p)) = Some address
     \<and> canonicalAddress_ok address)"

definition domain_ok :: "'s bundle_config \<Rightarrow> bool" where
  "domain_ok cfg = (canonicalAddress_ok (bc_protectedBundleRegistryAddress cfg) \<and> positiveSafeInteger_ok (bc_chainId cfg))"

lemma verify_with_accepts:
  assumes "domain_ok cfg" and "name = domainName (eip712Profiles ty)" and "signed_by lib cfg name ty address p"
    and "strict_object_ok (message_schema_of ty) (sv_message p)"
    and "map_of (sv_message p) ''issuedAt'' = Some (MNum (pw_issuedAt w))"
    and "map_of (sv_message p) ''expiresAt'' = Some (MNum (pw_expiresAt w))"
    and "map_of (sv_message p) (credentialField ty) = Some (MText c)"
    and "window_ok cfg now w" and "\<not> credential_refused (credentialAt c now) now"
    and "mode = ExternalExecution now \<or> mode = Validation now"
  shows "verify_with lib cfg name credentialAt ty address mode p = Inr \<lparr>vp_recoveredAddress = address,
    vp_signatureDigest = ''0x'' @ td_sha256_hex (sl_typed lib) (drop 2 (sv_signature p)),
    vp_typedDataDigest = td_hash (sl_typed lib) (bundle_domain cfg name)
      (primaryType (eip712Profiles ty), profile_fields (eip712Profiles ty)) (sv_message p)\<rparr>"
proof -
  obtain addr where addr: "td_recover (sl_typed lib) (bundle_domain cfg name)
      (primaryType (eip712Profiles ty), profile_fields (eip712Profiles ty)) (sv_message p) (sv_signature p) = Some addr"
    "map to_lower_char addr = address"
    using assms(3) by (auto simp: signed_by_def)
  have v: "domainVersion (eip712Profiles ty) = ''1''" by (cases ty) simp_all
  have t: "evaluation_time mode = now" "\<And>s i c d. consume_nonce s (i\<lparr>vi_mode := mode\<rparr>) c d = Inr s"
    using assms(10) by (auto simp: consume_nonce_def)
  have m: "parseMessage ty (sv_message p) = Inr (sv_message p)" using assms(4) by (simp add: parseMessage_def parse_with_def)
  show ?thesis
    using assms addr v t(1) t(2) [of "[]" "\<lparr>vi_credentialAt = credentialAt, vi_domain = bundle_domain cfg name,
        vi_expectedSignerAddress = address, vi_maxLifetimeSeconds = bc_maxProofLifetimeSeconds cfg, vi_message = sv_message p,
        vi_mode = mode, vi_signature = sv_signature p, vi_type = ty\<rparr>"]
    by (simp add: verify_with_def verifyProtectedProof_def Let_def bundle_domain_def parse_with_def domain_ok_def signed_by_def m
        readSafeInteger_def readString_def window_ok_def check_window_def recover_signer_def expired_at_def)
qed

text \<open>Identifiers a consumed authorization is stored with.\<close>

definition claims_ok :: "operation_claims \<Rightarrow> bool" where
  "claims_ok c = (urn_ok ''authorization'' (oc_authorizationId c) \<and> positiveSafeInteger_ok (oc_authorizationVersion c)
     \<and> urn_ok ''policy'' (oc_policyId c) \<and> positiveSafeInteger_ok (oc_policyVersion c) \<and> urn_ok ''policy'' (oc_purposeId c)
     \<and> urn_ok ''actor'' (pn_actorId (oc_requester c)) \<and> urn_ok ''org'' (pn_organizationId (oc_requester c))
     \<and> urn_ok ''credential'' (pn_credentialId (oc_requester c)))"

definition authorizer_ok :: "'s bundle_config \<Rightarrow> bool" where
  "authorizer_ok cfg = (urn_ok ''actor'' (pn_actorId (bc_keyOperationAuthorizer cfg))
     \<and> urn_ok ''org'' (pn_organizationId (bc_keyOperationAuthorizer cfg))
     \<and> urn_ok ''credential'' (pn_credentialId (bc_keyOperationAuthorizer cfg)) \<and> canonicalAddress_ok (bc_authorizerAddress cfg)
     \<and> urn_ok ''repository'' (bc_controllerRepositoryId cfg))"

definition record_ids_ok :: "prepared_internal \<Rightarrow> bool" where
  "record_ids_ok r = (urn_ok ''bundle'' (pu_bundleId r) \<and> starts_with ''urn:evllm:'' (rc_resourceId r)
     \<and> positiveSafeInteger_ok (rc_resourceVersion r))"

definition binding_ok :: "binding \<Rightarrow> bool" where
  "binding_ok b = (record_ids_ok (bi_record b) \<and> shortText_ok (bi_operation b)
     \<and> array_ok (starts_with ''urn:evllm:'') 1 16 (bi_sourceAuthorityIds b))"

definition finalization_ok :: "prepared_internal \<Rightarrow> bool" where
  "finalization_ok r = (record_ids_ok r \<and> digest_ok (pu_contentCommitment r) \<and> digest_ok (pu_contentEnvelopeDigest r)
     \<and> positiveSafeInteger_ok (int (pu_storedEnvelopeLength r)) \<and> positiveSafeInteger_ok (jnum (rc_aad r) ''criticality_profile_version'')
     \<and> bytes32Hex_ok (pu_descriptorDigest r))"

context service_library
begin

lemma id_hex [simp]: "bytes32Hex_ok (idHash lib v)" "bytes32Hex_ok (bundleTypeHash lib v)" "bytes32Hex_ok (keyOperationHash lib v)"
  by (simp_all add: idHash_def bundleTypeHash_def keyOperationHash_def keccak_hex)

lemma digest_ok_object [simp]: "digest_ok (digestObject (sl_crypto lib) bs)"
  by (simp add: digest_ok_def digestObject_def sha_length)

lemma digestHex_ok: "digest_ok d \<Longrightarrow> bytes32Hex_ok (digestHex d)"
proof -
  assume "digest_ok d"
  then obtain bs where "length bs = 32" "digest_value d = base64url_encode bs" by (auto simp: digest_ok_def base64Url32_ok_iff)
  then show "bytes32Hex_ok (digestHex d)"
    using hex_text_encode [of bs] by (simp add: digestHex_def base64url_roundtrip bytes32Hex_ok_def)
qed

lemma sha256Hex_ok [simp]: "bytes32Hex_ok (sha256Hex (sl_crypto lib) bs)"
  using hex_text_encode [of "cr_sha256 (sl_crypto lib) bs"] by (simp add: sha256Hex_def bytes32Hex_ok_def sha_length)

lemma binding_digests [simp]: "bytes32Hex_ok (digestHex (context_digest (sl_crypto lib) b))"
  "bytes32Hex_ok (digestHex (source_digest (sl_crypto lib) b))"
  "digest_ok (context_digest (sl_crypto lib) b)" "digest_ok (source_digest (sl_crypto lib) b)"
  by (simp_all add: digestHex_ok context_digest_def source_digest_def)

lemma one_positive [simp]: "positiveSafeInteger_ok 1"
  by (simp add: positiveSafeInteger_ok_def max_safe_integer_def)

lemma authorization_message_schema:
  assumes "binding_ok b" "claims_ok c" "authorizer_ok cfg" "window_ok cfg now w" "bytes32Hex_ok (pw_idempotencyKeyHash w)"
  shows "strict_object_ok (message_schema_of KeyOperationAuthorization) (authorization_message lib cfg b c w)"
  using assms
  by (intro strict_object_ordered schema_fields_distinct)
    (simp_all add: authorization_message_def schema_defs binding_ok_def record_ids_ok_def claims_ok_def authorizer_ok_def window_ok_def)

lemma consumed_json_accepted:
  assumes "binding_ok b" "claims_ok c" "authorizer_ok cfg" "window_ok cfg now w" "bytes32Hex_ok (pw_idempotencyKeyHash w)"
    and "signature_ok sig" "bytes32Hex_ok t" "digest_ok d"
  shows "strict_json keyOperationAuthorization (consumed_json lib cfg b c w sig t d)"
proof -
  have "timestamp_ok (pw_issuedAt w)" "timestamp_ok (pw_expiresAt w)"
    using assms(4) by (auto simp: window_ok_def positiveSafeInteger_ok_def timestamp_ok_def)
  moreover have "js_array (js_text (starts_with ''urn:evllm:'')) 1 16 (JArr (map JStr (bi_sourceAuthorityIds b)))"
    using assms(1) by (simp add: js_array_def binding_ok_def array_ok_def list_all_iff js_text_def)
  moreover have "distinct (map fst keyOperationAuthorization)" by code_simp
  ultimately show ?thesis
    unfolding consumed_json_def using assms
    by (intro strict_json_ordered)
      (simp_all add: keyOperationAuthorization_def js_text_def js_int_def js_is_def js_one_of_def
        js_digest_json binding_ok_def record_ids_ok_def claims_ok_def authorizer_ok_def window_ok_def bundleTypes_def)
qed

lemma signature_accepted:
  assumes "hex_text_ok 130 s"
  shows "\<exists>b. signatureBase64Url s = Inr b \<and> signature_ok b"
proof -
  have "length (hex_decode (drop 2 s)) = 65" using assms by (simp add: hex_text_ok_def length_hex_decode)
  then show ?thesis using assms by (simp add: signatureBase64Url_def signature_ok_def base64url_roundtrip)
qed

lemma digestFromHex_accepted: "bytes32Hex_ok s \<Longrightarrow> \<exists>d. digestFromHex s = Inr d \<and> digest_ok d"
  by (simp add: digestFromHex_def bytes32Hex_ok_def digest_ok_def hex_text_ok_def length_hex_decode)

text \<open>An authorization signed over the message of the service is accepted.\<close>

lemma authorization_accepted:
  assumes "keyOperationBinding lib st target = Inr b" "validateKeyOperationClaims st target (sa_claims a) = Inr ()"
    and ok: "binding_ok b" "claims_ok (sa_claims a)" "authorizer_ok cfg" "window_ok cfg now w"
      "bytes32Hex_ok (pw_idempotencyKeyHash w)" "domain_ok cfg"
    and m: "sv_message (sa_proof a) = authorization_message lib cfg b (sa_claims a) w"
    and s: "signed_by lib cfg ''EVLLM Key Operation Authorization'' KeyOperationAuthorization (bc_authorizerAddress cfg) (sa_proof a)"
    and cred: "\<not> credential_refused (bc_credentialAt cfg (idHash lib (pn_credentialId (bc_keyOperationAuthorizer cfg))) now) now"
  shows "\<exists>rec. prepareKeyOperationAuthorization lib cfg st target a now = Inr (rec, nonceScope KeyOperationAuthorization
      (idHash lib (pn_credentialId (bc_keyOperationAuthorizer cfg))) (pw_nonce w))
    \<and> kop_authorization_id rec = oc_authorizationId (sa_claims a) \<and> kop_authorization_version rec = oc_authorizationVersion (sa_claims a)"
proof -
  have i: "is_safe_integer (Some (pw_issuedAt w))" "is_safe_integer (Some (pw_expiresAt w))"
    using ok(4) by (auto simp: window_ok_def positiveSafeInteger_ok_def is_safe_integer_def)
  have c: "check_claims lib cfg st target a = Inr (b, w)"
    using assms(1,2) i by (cases w) (simp add: check_claims_def m authorization_window_of_def numberField_def stringField_def
        authorization_message_def serviceAuthorizationMessage_def canonicalBytesEqual_def)
  obtain v where v: "verify_with lib cfg ''EVLLM Key Operation Authorization'' (bc_credentialAt cfg) KeyOperationAuthorization
      (bc_authorizerAddress cfg) (ExternalExecution now) (sa_proof a) = Inr v"
    "bytes32Hex_ok (vp_signatureDigest v)" "bytes32Hex_ok (vp_typedDataDigest v)"
    using verify_with_accepts [where credentialAt = "bc_credentialAt cfg" and mode = "ExternalExecution now", OF ok(6) _ s _ _ _ _ ok(4) cred]
      authorization_message_schema [OF ok(1-5)] hash_hex sha_hex
    unfolding m by (simp add: authorization_message_def)
  have "hex_text_ok 130 (sv_signature (sa_proof a))"
    using s by (auto simp: signed_by_def validateCanonicalSignature_def split: if_splits)
  then obtain sig where sig: "signatureBase64Url (sv_signature (sa_proof a)) = Inr sig" "signature_ok sig"
    using signature_accepted by blast
  obtain d where d: "digestFromHex (vp_signatureDigest v) = Inr d" "digest_ok d" using digestFromHex_accepted [OF v(2)] by blast
  have "strict_json keyOperationAuthorization (consumed_json lib cfg b (sa_claims a) w sig (vp_typedDataDigest v) d)"
    by (rule consumed_json_accepted [OF ok(1-5) sig(2) v(3) d(2)])
  then have "consumed_record lib cfg b w a v = Inr (consumed_json lib cfg b (sa_claims a) w sig (vp_typedDataDigest v) d)"
    by (simp add: consumed_record_def sig d parse_with_def)
  moreover have "stringField (sv_message (sa_proof a)) ''issuerServiceCredentialId''
      = Inr (idHash lib (pn_credentialId (bc_keyOperationAuthorizer cfg)))"
    by (simp add: m stringField_def authorization_message_def)
  ultimately show ?thesis using c v(1) by (simp add: prepareKeyOperationAuthorization_def proof_check_def map_error_def)
qed

lemma acknowledgement_message_schema:
  assumes "record_ids_ok (bi_record b)" "window_ok cfg now w" "positiveSafeInteger_ok (pw_acknowledgementVersion w)"
    and "digest_ok (mf_publicKeySpkiSha256 f)"
  shows "strict_object_ok (message_schema_of KeyMaterialAcknowledgement) (acknowledgement_message lib cfg b f signer w)"
  using assms
  by (intro strict_object_ordered schema_fields_distinct)
    (simp_all add: acknowledgement_message_def schema_defs record_ids_ok_def window_ok_def digestHex_ok)

lemma acknowledgement_accepted:
  assumes b: "keyOperationBinding lib st (operation_of target) = Inr b"
    and org: "material_organization st target = Inr (pn_organizationId (sk_signer a))"
    and ok: "record_ids_ok (bi_record b)" "window_ok cfg now w" "positiveSafeInteger_ok (pw_acknowledgementVersion w)"
      "digest_ok (mf_publicKeySpkiSha256 (keyMaterialTargetFields target))" "domain_ok cfg"
    and ids: "pw_acknowledgementId w = sk_acknowledgementId a" "pw_acknowledgementVersion w = sk_acknowledgementVersion a"
    and m: "sv_message (sk_proof a) = acknowledgement_message lib cfg b (keyMaterialTargetFields target) (sk_signer a) w"
    and cred: "bc_acknowledgementCredentialAt cfg (sk_signer a) now = Some (credential, address)" "\<not> credential_refused credential now"
    and possession: "verifyRsaKeyPossessionProof (sl_crypto lib) publicKey (signed_of (sk_proof a)) (sk_keyPossessionProof a)"
    and s: "signed_by lib cfg ''EVLLM Key Material Acknowledgement'' KeyMaterialAcknowledgement address (sk_proof a)"
  shows "verifyKeyMaterialAcknowledgement lib cfg st target a publicKey now
    = Inr (AcknowledgementNonces, nonceScope KeyMaterialAcknowledgement (idHash lib (pn_credentialId (sk_signer a))) (pw_nonce w))"
proof -
  have i: "is_safe_integer (Some (pw_issuedAt w))" "is_safe_integer (Some (pw_expiresAt w))"
    using ok(2) by (auto simp: window_ok_def positiveSafeInteger_ok_def is_safe_integer_def)
  have w: "acknowledgement_window_of a = Inr w"
    using i ids by (cases w) (simp add: acknowledgement_window_of_def Let_def m numberField_def stringField_def acknowledgement_message_def)
  have "serviceAcknowledgementMessage lib cfg st target (sk_signer a) w = Inr (sv_message (sk_proof a))"
    by (simp add: serviceAcknowledgementMessage_def b m)
  moreover have "\<exists>v. verify_with lib cfg ''EVLLM Key Material Acknowledgement'' (\<lambda>_ _. credential) KeyMaterialAcknowledgement address
      (Validation now) (sk_proof a) = Inr v"
    using verify_with_accepts [where credentialAt = "\<lambda>_ _. credential" and mode = "Validation now" and
        c = "idHash lib (pn_credentialId (sk_signer a))", OF ok(5) _ s _ _ _ _ ok(2) cred(2)]
      acknowledgement_message_schema [OF ok(1-4)]
    unfolding m by (simp add: acknowledgement_message_def)
  moreover have "pendingNonceConsumption AcknowledgementNonces KeyMaterialAcknowledgement ''signerCredentialId'' (sv_message (sk_proof a))
      = Inr (AcknowledgementNonces, nonceScope KeyMaterialAcknowledgement (idHash lib (pn_credentialId (sk_signer a))) (pw_nonce w))"
    by (simp add: pendingNonceConsumption_def stringField_def m acknowledgement_message_def)
  ultimately show ?thesis
    using org cred w possession
    by (auto simp: verifyKeyMaterialAcknowledgement_def proof_check_def map_error_def canonicalBytesEqual_def)
qed

lemma attestation_accepted:
  assumes r: "bundle_record st (pu_bundleId r) = Inr r" and "window_ok cfg now w"
    and m: "domainAttestationMessage lib st (pu_bundleId r) \<lparr>pn_actorId = rc_intendedAuthorActorId r,
        pn_credentialId = rc_intendedAuthorCredentialId r, pn_organizationId = rc_intendedAuthorOrganizationId r\<rparr> w = Inr m"
  shows "check_attestation lib st r m = Inr ()
    \<and> pendingNonceConsumption v DomainManifestAttestation ''signerCredentialId'' m
        = Inr (v, nonceScope DomainManifestAttestation (idHash lib (rc_intendedAuthorCredentialId r)) (pw_nonce w))
    \<and> (record_ids_ok r \<and> positiveSafeInteger_ok (rc_authorBindingProfileVersion r) \<and> digest_ok (pu_domainPayloadCommitment r)
        \<longrightarrow> strict_object_ok (message_schema_of DomainManifestAttestation) m)
    \<and> map_of m ''issuedAt'' = Some (MNum (pw_issuedAt w)) \<and> map_of m ''expiresAt'' = Some (MNum (pw_expiresAt w))
    \<and> map_of m ''signerCredentialId'' = Some (MText (idHash lib (rc_intendedAuthorCredentialId r)))"
proof -
  have i: "is_safe_integer (Some (pw_issuedAt w))" "is_safe_integer (Some (pw_expiresAt w))"
    using assms(2) by (auto simp: window_ok_def positiveSafeInteger_ok_def is_safe_integer_def)
  have w: "attestation_window_of m = Inr w"
    using m i by (cases w) (auto simp: domainAttestationMessage_def r attestation_window_of_def numberField_def stringField_def)
  have "check_attestation lib st r m = Inr ()"
    by (simp add: check_attestation_def w m same_fields_def list_all_iff)
  moreover have "record_ids_ok r \<and> positiveSafeInteger_ok (rc_authorBindingProfileVersion r) \<and> digest_ok (pu_domainPayloadCommitment r)
      \<Longrightarrow> strict_object_ok (message_schema_of DomainManifestAttestation) m"
    using m assms(2)
    by (intro strict_object_ordered schema_fields_distinct)
      (auto simp: domainAttestationMessage_def r schema_defs record_ids_ok_def window_ok_def digestHex_ok)
  ultimately show ?thesis
    using m by (auto simp: domainAttestationMessage_def r pendingNonceConsumption_def stringField_def)
qed

lemma finalization_accepted:
  assumes r: "bundle_record st (pu_bundleId r) = Inr r" and "window_ok cfg now w" and "bytes32Hex_ok (cw_idempotencyKeyHash w)"
    and m: "finalizationMessage lib cfg st (pu_bundleId r) attestation \<lparr>pn_actorId = rc_controllerActorId r,
        pn_credentialId = rc_controllerCredentialId r, pn_organizationId = rc_controllerOrganizationId r\<rparr> w = Inr m"
  shows "check_finalization lib cfg st r attestation m = Inr ()
    \<and> pendingNonceConsumption v FinalizeProtectedBundle ''controllerCredentialId'' m
        = Inr (v, nonceScope FinalizeProtectedBundle (idHash lib (rc_controllerCredentialId r)) (pw_nonce w))
    \<and> (finalization_ok r \<longrightarrow> strict_object_ok (message_schema_of FinalizeProtectedBundle) m)
    \<and> map_of m ''issuedAt'' = Some (MNum (pw_issuedAt w)) \<and> map_of m ''expiresAt'' = Some (MNum (pw_expiresAt w))
    \<and> map_of m ''controllerCredentialId'' = Some (MText (idHash lib (rc_controllerCredentialId r)))"
proof -
  have i: "is_safe_integer (Some (pw_issuedAt w))" "is_safe_integer (Some (pw_expiresAt w))"
    using assms(2) by (auto simp: window_ok_def positiveSafeInteger_ok_def is_safe_integer_def)
  let ?f = "finalization_fields lib cfg r attestation \<lparr>pn_actorId = rc_controllerActorId r,
        pn_credentialId = rc_controllerCredentialId r, pn_organizationId = rc_controllerOrganizationId r\<rparr>"
  have me: "m = (''commandId'', MText (idHash lib (cw_commandId w))) # ?f w" using m by (simp add: finalizationMessage_def r)
  have f: "?f (w\<lparr>cw_commandId := c\<rparr>) = ?f w" for c by (simp add: finalization_fields_def Let_def)
  have nc: "''commandId'' \<notin> set (map fst (?f w))" by (simp add: finalization_fields_def Let_def)
  then have skip: "filter (\<lambda>(g, _). g \<noteq> ''commandId'') (?f w) = ?f w" by (force simp: filter_id_conv)
  have get: "map_of m ''issuedAt'' = Some (MNum (pw_issuedAt w))" "map_of m ''expiresAt'' = Some (MNum (pw_expiresAt w))"
    "map_of m ''controllerCredentialId'' = Some (MText (idHash lib (rc_controllerCredentialId r)))"
    "map_of m ''nonce'' = Some (MText (pw_nonce w))" "map_of m ''idempotencyKeyHash'' = Some (MText (cw_idempotencyKeyHash w))"
    by (simp_all add: me finalization_fields_def Let_def)
  have w: "command_window_of m = Inr (w\<lparr>cw_commandId := ''urn:evllm:command:00000000-0000-4000-8000-000000000000''\<rparr>)"
    using i by (cases w) (simp add: command_window_of_def numberField_def stringField_def get)
  have "check_finalization lib cfg st r attestation m = Inr ()"
    by (simp add: check_finalization_def w finalizationMessage_def r f skip) (simp add: me same_fields_tail [OF nc])
  moreover have "strict_object_ok (message_schema_of FinalizeProtectedBundle) m" if "finalization_ok r"
    using that assms(2,3) unfolding me
    by (intro strict_object_ordered schema_fields_distinct)
      (simp_all add: finalization_fields_def Let_def schema_defs finalization_ok_def record_ids_ok_def window_ok_def digestHex_ok keccak_hex)
  ultimately show ?thesis using get by (simp add: pendingNonceConsumption_def stringField_def)
qed

end

end
