(* ===== verification/Bundle_Flow.thy ===== *)
theory Bundle_Flow
  imports Bundle_Acceptance
begin

text \<open>
  A bundle from its preparation to its retrieval. \<open>holds\<close> says of a record that its ciphertext, its key and
  its content belong together and are where the record says they are; every later call keeps it. The locale \<open>bundle_flow\<close>
  puts the service on two stores that meet the contract \<open>replicated\<close> in both directions.
\<close>

subsection \<open>What promotion and replication write\<close>

lemma put_confirmed_put: "\<exists>r. so_put ops s i [b] = (r, snd (put_confirmed sha ops s i e b))"
  by (auto simp: put_confirmed_def split: prod.splits sum.splits)

lemma snd_with_timeout [simp]: "snd (with_timeout timed_out op) = snd op"
  by (simp add: with_timeout_def)

lemma promote_put:
  assumes "promoteStagedObject sha ops timed_out s p = (r, t)"
  shows "t = s \<or> (\<exists>b r'. readVerified sha ops s (sourceObjectId p) (pi_expected p) = Inr b
    \<and> so_put ops s (destinationObjectId p) [b] = (r', t))"
proof -
  have "t = snd (promote_locked sha ops s p)"
    using assms snd_with_timeout [of timed_out "promote_locked sha ops s p"] by (simp add: promoteStagedObject_def)
  then show ?thesis using put_confirmed_put [of ops s "destinationObjectId p"]
    by (simp add: promote_locked_def split: sum.splits option.splits)
qed

lemma replicate_put:
  assumes "replicateExact sha timed_out ops1 i ops2 j s e = (r, t)"
  shows "t = s \<or> (\<exists>b r'. readVerified sha ops1 s i e = Inr b \<and> so_put ops2 s j [b] = (r', t))"
proof -
  have "t = snd (replicate_object sha ops1 i ops2 j s e)"
    using assms snd_with_timeout [of timed_out "replicate_object sha ops1 i ops2 j s e"] by (simp add: replicateExact_def)
  then show ?thesis using put_confirmed_put [of ops2 s j] by (simp add: replicate_object_def split: sum.splits)
qed

subsection \<open>The setting\<close>

locale bundle_flow = encryption "sl_crypto lib"
    + primary: replicated "bc_primaryStore cfg" obj1 wf1 limit1 "bc_replicaStore cfg" obj2 wf2 limit2
    + replica: replicated "bc_replicaStore cfg" obj2 wf2 limit2 "bc_primaryStore cfg" obj1 wf1 limit1
  for lib :: service_lib and cfg :: "'s bundle_config" and obj1 wf1 limit1 obj2 wf2 limit2

definition wraps :: "crypto \<Rightarrow> json \<Rightarrow> bytes \<Rightarrow> key_object \<Rightarrow> bytes \<Rightarrow> bool" where
  "wraps cr ctx dek pub bs = (\<exists>iv seed w. length iv = 12 \<and> wrapDek cr iv seed ctx dek pub = Inr w \<and> wd_envelopeBytes w = bs)"

definition sealed :: "crypto \<Rightarrow> prepared_internal \<Rightarrow> bytes \<Rightarrow> bytes \<Rightarrow> bytes \<Rightarrow> bool" where
  "sealed cr r env dek content = (matches (object_sha cr) (expected_of r) env
     \<and> openProtectedContent cr env dek (rc_aad r) (pu_contentCommitment r) = Inr (content, pu_domainPayload r)
     \<and> (\<exists>pub. wraps cr (rc_wrapContext r) dek pub (pu_controllerEnvelope r)))"

definition stored :: "(string \<Rightarrow> bytes option) \<Rightarrow> (string \<Rightarrow> bytes option) \<Rightarrow> prepared_internal \<Rightarrow> bytes \<Rightarrow> bool" where
  "stored o1 o2 r env = (base64Url32_ok (pu_stagingObjectId r) \<and> base64Url32_ok (pu_finalObjectId r)
     \<and> o1 (pu_stagingObjectId r) = Some env \<and> o1 (pu_finalObjectId r) \<in> {None, Some env}
     \<and> (rc_finalized r \<longrightarrow> o1 (pu_finalObjectId r) = Some env)
     \<and> (rc_finalized r \<and> rc_critical r \<longrightarrow> (\<exists>j. rc_replicaObjectId r = Some j \<and> o2 j = Some env)))"

definition holds ::
  "crypto \<Rightarrow> ('s \<Rightarrow> string \<Rightarrow> bytes option) \<Rightarrow> ('s \<Rightarrow> string \<Rightarrow> bytes option) \<Rightarrow> 's service_state \<Rightarrow> nat \<Rightarrow> bytes \<Rightarrow> bytes \<Rightarrow> bytes \<Rightarrow> bool" where
  "holds cr o1 o2 st a env dek content = (a < length (st_records st) \<and> sealed cr (st_records st ! a) env dek content
     \<and> stored (o1 (st_world st)) (o2 (st_world st)) (st_records st ! a) env)"

text \<open>The identifiers of a call are drawn at random: they are not in use.\<close>

fun fresh_draws ::
  "('s \<Rightarrow> string \<Rightarrow> bytes option) \<Rightarrow> ('s \<Rightarrow> string \<Rightarrow> bytes option) \<Rightarrow> 's service_state \<Rightarrow> service_op \<Rightarrow> bool" where
  "fresh_draws o1 o2 st (CallPrepare en i) = (o1 (st_world st) (en_stagingObjectId en) = None
     \<and> o1 (st_world st) (en_finalObjectId en) = None \<and> base64Url32_ok (en_stagingObjectId en) \<and> base64Url32_ok (en_finalObjectId en)
     \<and> en_stagingObjectId en \<noteq> en_finalObjectId en \<and> length (en_wrapIv en) = 12
     \<and> en_finalObjectId en \<notin> pu_finalObjectId ` set (st_records st) \<and> en_stagingObjectId en \<notin> pu_finalObjectId ` set (st_records st))"
| "fresh_draws o1 o2 st (CallFinalize en i) = (o2 (st_world st) (en_replicaObjectId en) = None)"
| "fresh_draws o1 o2 st (CallPromote en b) = (o2 (st_world st) (en_replicaObjectId en) = None)"
| "fresh_draws o1 o2 st (CallRotate en i) = (length (en_wrapIv en) = 12)"
| "fresh_draws o1 o2 st (CallGrant en i) = (length (en_wrapIv en) = 12)"
| "fresh_draws o1 o2 st _ = True"

definition flow_inv :: "('s \<Rightarrow> bool) \<Rightarrow> ('s \<Rightarrow> bool) \<Rightarrow> 's service_state \<Rightarrow> bool" where
  "flow_inv w1 w2 st = (service_inv st \<and> w1 (st_world st) \<and> w2 (st_world st) \<and> distinct (map pu_finalObjectId (st_records st)))"

lemma wraps_unwrap:
  assumes "encryption cr" "wraps cr ctx dek pub bs"
  shows "key_pair pub priv \<Longrightarrow> unwrapDek cr bs priv ctx = Inr dek" and "unwrapDek cr bs priv ctx = Inr d \<Longrightarrow> d = dek"
  using assms(2) encryption.wrap_unwrap [OF assms(1)] encryption.unwrap_authentic [OF assms(1)] by (auto simp: wraps_def)

lemma sealed_frozen:
  assumes "sealed cr r env dek content" and "frozen s = frozen r" and "rc_wrapContext s = rc_wrapContext r"
    and "pu_controllerEnvelope s = pu_controllerEnvelope r"
  shows "sealed cr s env dek content"
  using assms frozen_fields [OF assms(2)] by (simp add: sealed_def)

lemma stored_more:
  assumes "stored o1 o2 r env" and "\<And>i b. o1 i = Some b \<Longrightarrow> o1' i = Some b" and "\<And>i b. o2 i = Some b \<Longrightarrow> o2' i = Some b"
    and "o1' (pu_finalObjectId r) \<in> {None, Some env}"
  shows "stored o1' o2' r env"
  using assms unfolding stored_def by blast

definition kept ::
  "('s \<Rightarrow> bool) \<Rightarrow> ('s \<Rightarrow> bool) \<Rightarrow> ('s \<Rightarrow> string \<Rightarrow> bytes option) \<Rightarrow> ('s \<Rightarrow> string \<Rightarrow> bytes option) \<Rightarrow> crypto
    \<Rightarrow> nat \<Rightarrow> bytes \<Rightarrow> bytes \<Rightarrow> bytes \<Rightarrow> 's service_state \<Rightarrow> bool" where
  "kept w1 w2 o1 o2 cr a env dek content st = (w1 (st_world st) \<and> w2 (st_world st)
     \<and> distinct (map pu_finalObjectId (st_records st)) \<and> holds cr o1 o2 st a env dek content)"

lemma kept_same:
  "kept w1 w2 o1 o2 cr a env dek content st \<Longrightarrow> st_records st' = st_records st \<Longrightarrow> st_world st' = st_world st
    \<Longrightarrow> kept w1 w2 o1 o2 cr a env dek content st'"
  by (simp add: kept_def holds_def)

lemma kept_keys: "kept w1 w2 o1 o2 cr a env dek content st \<Longrightarrow> kept w1 w2 o1 o2 cr a env dek content (st\<lparr>st_keys := k\<rparr>)"
  by (erule kept_same) simp_all

lemma kept_recipients:
  "kept w1 w2 o1 o2 cr a env dek content st \<Longrightarrow> kept w1 w2 o1 o2 cr a env dek content (st\<lparr>st_keys := k, st_recipientEnvelopes := e\<rparr>)"
  "kept w1 w2 o1 o2 cr a env dek content st \<Longrightarrow> kept w1 w2 o1 o2 cr a env dek content (st\<lparr>st_recipientEnvelopes := e, st_keys := k\<rparr>)"
  by (erule kept_same, simp_all)+

lemma kept_pure_do:
  "kept w1 w2 o1 o2 cr a env dek content s \<Longrightarrow> (\<And>x. m = Inr x \<Longrightarrow> kept w1 w2 o1 o2 cr a env dek content (snd (f x)))
    \<Longrightarrow> kept w1 w2 o1 o2 cr a env dek content (snd (pure_do m s f))"
  by (cases m) simp_all

lemma kept_then_do:
  "kept w1 w2 o1 o2 cr a env dek content (snd m)
    \<Longrightarrow> (\<And>x s. m = (Inr x, s) \<Longrightarrow> kept w1 w2 o1 o2 cr a env dek content s \<Longrightarrow> kept w1 w2 o1 o2 cr a env dek content (snd (f x s)))
    \<Longrightarrow> kept w1 w2 o1 o2 cr a env dek content (snd (then_do m f))"
  by (cases m; cases "fst m") auto

lemma kept_consume:
  "kept w1 w2 o1 o2 cr a env dek content st \<Longrightarrow> kept w1 w2 o1 o2 cr a env dek content (snd (consumeValidatedProofs d ps x st))"
  using consume_frame [of st d ps x] by (auto simp: proofs_frame_def intro: kept_same)

lemma kept_add:
  assumes "kept w1 w2 o1 o2 cr a env dek content st" and "pu_finalObjectId r \<notin> pu_finalObjectId ` set (st_records st)"
  shows "kept w1 w2 o1 o2 cr a env dek content (add_record h r st)"
  using assms by (auto simp: kept_def holds_def add_record_def nth_append)

lemma kept_update:
  assumes "kept w1 w2 o1 o2 cr a env dek content st" and "\<And>r. frozen (f r) = frozen r"
    and "b = a \<Longrightarrow> sealed cr (f (st_records st ! a)) env dek content
      \<and> stored (o1 (st_world st)) (o2 (st_world st)) (f (st_records st ! a)) env"
  shows "kept w1 w2 o1 o2 cr a env dek content (update_record b f st)"
proof -
  have "pu_finalObjectId (f r) = pu_finalObjectId r" for r by (rule frozen_fields(4)) (rule assms(2))
  then have "map pu_finalObjectId ((st_records st)[b := f (st_records st ! b)]) = map pu_finalObjectId (st_records st)"
    by (cases "b < length (st_records st)") (simp_all add: map_update list_update_beyond list_update_same_conv)
  then show ?thesis
    using assms(1,3) unfolding kept_def holds_def update_record_records by (cases "b = a") (simp_all add: update_record_def)
qed

context bundle_flow
begin

lemma put_primary:
  assumes "wf1 w" "wf2 w" "so_put (bc_primaryStore cfg) w i [b] = (r, w')"
  shows "wf1 w' \<and> wf2 w' \<and> obj2 w' = obj2 w \<and> (obj1 w' = obj1 w \<or> (obj1 w i = None \<and> obj1 w' = (obj1 w)(i \<mapsto> b)))"
  using primary.src.put_frame [OF assms(1,3)] replica.apart [OF assms(2,1,3)] by auto

lemma put_replica:
  assumes "wf1 w" "wf2 w" "so_put (bc_replicaStore cfg) w i [b] = (r, w')"
  shows "wf1 w' \<and> wf2 w' \<and> obj1 w' = obj1 w \<and> (obj2 w' = obj2 w \<or> (obj2 w i = None \<and> obj2 w' = (obj2 w)(i \<mapsto> b)))"
  using primary.rep.put_frame [OF assms(2,3)] primary.apart [OF assms(1,2,3)] by auto

lemma kept_put_primary:
  assumes k: "kept wf1 wf2 obj1 obj2 cr a env dek content st"
    and put: "so_put (bc_primaryStore cfg) (st_world st) i [b] = (r, w')"
    and i: "i = pu_finalObjectId (st_records st ! a) \<Longrightarrow> b = env"
  shows "kept wf1 wf2 obj1 obj2 cr a env dek content (st\<lparr>st_world := w'\<rparr>)"
proof -
  have w: "wf1 w'" "wf2 w'" "obj2 w' = obj2 (st_world st)"
    "obj1 w' = obj1 (st_world st) \<or> (obj1 (st_world st) i = None \<and> obj1 w' = (obj1 (st_world st))(i \<mapsto> b))"
    using put_primary [OF _ _ put] k by (auto simp: kept_def)
  have s: "stored (obj1 (st_world st)) (obj2 (st_world st)) (st_records st ! a) env" using k by (simp add: kept_def holds_def)
  have "stored (obj1 w') (obj2 w') (st_records st ! a) env"
    by (rule stored_more [OF s]) (use w i s in \<open>auto simp: stored_def split: if_splits\<close>)
  then show ?thesis using k w by (simp add: kept_def holds_def)
qed

lemma kept_put_replica:
  assumes k: "kept wf1 wf2 obj1 obj2 cr a env dek content st"
    and put: "so_put (bc_replicaStore cfg) (st_world st) i [b] = (r, w')"
  shows "kept wf1 wf2 obj1 obj2 cr a env dek content (st\<lparr>st_world := w'\<rparr>)"
proof -
  have w: "wf1 w'" "wf2 w'" "obj1 w' = obj1 (st_world st)"
    "obj2 w' = obj2 (st_world st) \<or> (obj2 (st_world st) i = None \<and> obj2 w' = (obj2 (st_world st))(i \<mapsto> b))"
    using put_replica [OF _ _ put] k by (auto simp: kept_def)
  have s: "stored (obj1 (st_world st)) (obj2 (st_world st)) (st_records st ! a) env" using k by (simp add: kept_def holds_def)
  have "stored (obj1 w') (obj2 w') (st_records st ! a) env"
    by (rule stored_more [OF s]) (use w s in \<open>auto simp: stored_def split: if_splits\<close>)
  then show ?thesis using k w by (simp add: kept_def holds_def)
qed

text \<open>A promotion writes what it read at the staging identifier of the same record.\<close>

lemma kept_promote:
  assumes k: "kept wf1 wf2 obj1 obj2 cr a env dek content st" and b: "b < length (st_records st)"
    and p: "promote_record lib cfg en (st_records st ! b) st = (m, st')"
  shows "kept wf1 wf2 obj1 obj2 cr a env dek content st'"
proof -
  let ?r = "st_records st ! b"
  obtain m' w where w: "promoteStagedObject (object_sha (sl_crypto lib)) (bc_primaryStore cfg) (en_promoteTimeout en) (st_world st)
      \<lparr>pi_expected = expected_of ?r, destinationObjectId = pu_finalObjectId ?r, sourceObjectId = pu_stagingObjectId ?r\<rparr> = (m', w)"
    and st': "st' = st\<lparr>st_world := w\<rparr>"
    using p by (auto simp: promote_record_def split: prod.splits)
  consider "w = st_world st" | c r' where "readVerified (object_sha (sl_crypto lib)) (bc_primaryStore cfg) (st_world st)
      (pu_stagingObjectId ?r) (expected_of ?r) = Inr c" "so_put (bc_primaryStore cfg) (st_world st) (pu_finalObjectId ?r) [c] = (r', w)"
    using promote_put [OF w] by auto
  then show ?thesis
  proof cases
    case 2
    have c: "obj1 (st_world st) (pu_stagingObjectId ?r) = Some c"
      using 2(1) k by (simp add: primary.src.readVerified_Inr_iff kept_def)
    have env: "obj1 (st_world st) (pu_stagingObjectId (st_records st ! a)) = Some env"
      using k by (simp add: kept_def holds_def stored_def)
    have "c = env" if "pu_finalObjectId ?r = pu_finalObjectId (st_records st ! a)"
    proof -
      have "a = b"
        using nth_eq_iff_index_eq [of "map pu_finalObjectId (st_records st)" a b] that k b by (simp add: kept_def holds_def)
      then show ?thesis using c env by simp
    qed
    then show ?thesis unfolding st' by (rule kept_put_primary [OF k 2(2)])
  qed (use k st' in simp)
qed

lemma promote_stored:
  assumes k: "kept wf1 wf2 obj1 obj2 cr a env dek content st"
    and p: "promote_record lib cfg en (st_records st ! a) st = (Inr q, st')"
  shows "obj1 (st_world st') (pu_finalObjectId (st_records st' ! a)) = Some env"
proof -
  let ?r = "st_records st ! a"
  let ?p = "\<lparr>pi_expected = expected_of ?r, destinationObjectId = pu_finalObjectId ?r, sourceObjectId = pu_stagingObjectId ?r\<rparr>"
  obtain w where w: "promote_locked (object_sha (sl_crypto lib)) (bc_primaryStore cfg) (st_world st) ?p = (Inr q, w)"
    and st': "st' = st\<lparr>st_world := w\<rparr>"
    using p by (auto simp: promote_record_def promoteStagedObject_def with_timeout_def outcome_simps split: prod.splits if_splits)
  have "\<exists>c. obj1 w (pu_finalObjectId ?r) = Some c"
    using primary.src.promote_safe [OF _ w] k by (auto simp: kept_def)
  moreover have "kept wf1 wf2 obj1 obj2 cr a env dek content st'"
    by (rule kept_promote [OF k _ p]) (use k in \<open>simp add: kept_def holds_def\<close>)
  ultimately show ?thesis by (auto simp: st' kept_def holds_def stored_def)
qed

lemma kept_replicate:
  assumes k: "kept wf1 wf2 obj1 obj2 cr a env dek content st"
    and b: "\<not> (rc_finalized (st_records st ! b) \<and> rc_critical (st_records st ! b))"
    and p: "replicate_record lib cfg en b st = (m, st')"
  shows "kept wf1 wf2 obj1 obj2 cr a env dek content st'"
proof -
  let ?f = "\<lambda>r. r\<lparr>rc_replicaObjectId := Some (en_replicaObjectId en)\<rparr>"
  let ?st = "update_record b ?f st"
  obtain m' w where w: "replicateExact (object_sha (sl_crypto lib)) (en_replicateTimeout en) (bc_primaryStore cfg)
      (pu_finalObjectId (st_records st ! b)) (bc_replicaStore cfg) (en_replicaObjectId en) (st_world ?st)
      (expected_of (st_records st ! b)) = (m', w)" and st': "st' = ?st\<lparr>st_world := w\<rparr>"
    using p by (auto simp: replicate_record_def Let_def split: prod.splits)
  have k': "kept wf1 wf2 obj1 obj2 cr a env dek content ?st"
  proof (rule kept_update [OF k])
    show "frozen (?f r) = frozen r" for r by (simp add: frozen_def)
    show "sealed cr (?f (st_records st ! a)) env dek content \<and> stored (obj1 (st_world st)) (obj2 (st_world st)) (?f (st_records st ! a)) env"
      if "b = a"
      using k b that by (auto simp: kept_def holds_def stored_def sealed_def expected_of_def)
  qed
  show ?thesis unfolding st'
    using replicate_put [OF w] kept_put_replica [OF k'] k' by auto
qed

lemma replicate_copies:
  assumes k: "kept wf1 wf2 obj1 obj2 cr a env dek content st" and final: "obj1 (st_world st) (pu_finalObjectId (st_records st ! a)) = Some env"
    and fresh: "obj2 (st_world st) (en_replicaObjectId en) = None"
    and p: "replicate_record lib cfg en a st = (Inr x, st')"
  shows "rc_replicaObjectId (st_records st' ! a) = Some (en_replicaObjectId en) \<and> obj2 (st_world st') (en_replicaObjectId en) = Some env
    \<and> obj1 (st_world st') = obj1 (st_world st)"
proof -
  let ?r = "st_records st ! a"
  obtain w where w: "replicate_object (object_sha (sl_crypto lib)) (bc_primaryStore cfg) (pu_finalObjectId ?r) (bc_replicaStore cfg)
      (en_replicaObjectId en) (st_world st) (expected_of ?r) = (Inr x, w)"
    and st': "st' = (update_record a (\<lambda>r. r\<lparr>rc_replicaObjectId := Some (en_replicaObjectId en)\<rparr>) st)\<lparr>st_world := w\<rparr>"
    using p by (auto simp: replicate_record_def replicateExact_def with_timeout_def Let_def update_record_def outcome_simps
        split: prod.splits if_splits)
  have wf: "wf1 (st_world st)" "wf2 (st_world st)" using k by (simp_all add: kept_def)
  obtain c where c: "obj2 w (en_replicaObjectId en) = Some c" "obj1 w = obj1 (st_world st)"
    using primary.replicate_Inr [OF wf w] by blast
  obtain b r' where b: "readVerified (object_sha (sl_crypto lib)) (bc_primaryStore cfg) (st_world st) (pu_finalObjectId ?r)
      (expected_of ?r) = Inr b" "so_put (bc_replicaStore cfg) (st_world st) (en_replicaObjectId en) [b] = (r', w)"
    using w put_confirmed_put [of "bc_replicaStore cfg" "st_world st" "en_replicaObjectId en"]
    by (auto simp: replicate_object_def split: sum.splits) (metis snd_conv)
  have "b = env" using b(1) wf final by (simp add: primary.src.readVerified_Inr_iff)
  then have "obj2 w (en_replicaObjectId en) = Some env" using put_replica [OF wf b(2)] c(1) fresh by auto
  moreover have "a < length (st_records st)" using k by (simp add: kept_def holds_def)
  ultimately show ?thesis using c(2) by (simp add: st' update_record_def)
qed

lemma kept_mark:
  assumes k: "kept wf1 wf2 obj1 obj2 cr a env dek content st"
    and b: "b = a \<Longrightarrow> obj1 (st_world st) (pu_finalObjectId (st_records st ! a)) = Some env
      \<and> (rc_critical (st_records st ! a) \<longrightarrow> (\<exists>j. rc_replicaObjectId (st_records st ! a) = Some j \<and> obj2 (st_world st) j = Some env))"
  shows "kept wf1 wf2 obj1 obj2 cr a env dek content (mark_finalized i b (st\<lparr>st_keys := keys\<rparr>))"
proof -
  let ?f = "\<lambda>r. r\<lparr>rc_finalized := True\<rparr>"
  have "kept wf1 wf2 obj1 obj2 cr a env dek content (update_record b ?f st)"
  proof (rule kept_update [OF k])
    show "frozen (?f r) = frozen r" for r by (simp add: frozen_def)
    show "sealed cr (?f (st_records st ! a)) env dek content \<and> stored (obj1 (st_world st)) (obj2 (st_world st)) (?f (st_records st ! a)) env"
      if "b = a"
      using k b [OF that] by (auto simp: kept_def holds_def stored_def sealed_def expected_of_def)
  qed
  then show ?thesis by (rule kept_same) (simp_all add: mark_finalized_def update_record_def Let_def)
qed

lemma kept_prepare:
  assumes k: "kept wf1 wf2 obj1 obj2 cr a env dek content st" and f: "fresh_draws obj1 obj2 st (CallPrepare en i)"
  shows "kept wf1 wf2 obj1 obj2 cr a env dek content (snd (bundle_prepare lib cfg en i st))"
proof -
  have put: "kept wf1 wf2 obj1 obj2 cr a env dek content (snd (put_object (bc_primaryStore cfg) (en_stagingObjectId en) bs st))" for bs
  proof -
    obtain r w where w: "so_put (bc_primaryStore cfg) (st_world st) (en_stagingObjectId en) [bs] = (r, w)" by fastforce
    have "pu_finalObjectId (st_records st ! a) \<in> pu_finalObjectId ` set (st_records st)" using k by (simp add: kept_def holds_def)
    then have "kept wf1 wf2 obj1 obj2 cr a env dek content (st\<lparr>st_world := w\<rparr>)"
      using f by (intro kept_put_primary [OF k w]) auto
    then show ?thesis using w by (cases r) (simp_all add: put_object_def)
  qed
  have tail: "kept wf1 wf2 obj1 obj2 cr a env dek content (add_record h (new_record c en i r x spki) (st1\<lparr>st_keys := keys\<rparr>))"
    if "put_object (bc_primaryStore cfg) (en_stagingObjectId en) bs st = (u, st1)" "kept wf1 wf2 obj1 obj2 cr a env dek content st1"
    for h c r x spki st1 keys u bs
  proof (rule kept_add)
    show "kept wf1 wf2 obj1 obj2 cr a env dek content (st1\<lparr>st_keys := keys\<rparr>)" by (rule kept_same [OF that(2)]) simp_all
    have "st_records st1 = st_records st" using put_object_frame [of "bc_primaryStore cfg" _ bs st] that(1) by (metis (no_types) snd_conv
          service_state.ext_inject service_state.surjective service_state.update_convs(11))
    then show "pu_finalObjectId (new_record c en i r x spki) \<notin> pu_finalObjectId ` set (st_records (st1\<lparr>st_keys := keys\<rparr>))"
      using f by (simp add: new_record_def)
  qed
  have new: "kept wf1 wf2 obj1 obj2 cr a env dek content (snd (prepare_new lib cfg en i st))"
    unfolding prepare_new_def Let_def
    by (intro kept_pure_do kept_then_do put k) (auto intro: tail kept_same)
  show ?thesis
    unfolding bundle_prepare_def Let_def by (intro kept_pure_do k) (auto split: option.split intro: k new)
qed

lemma promote_frame:
  assumes "promote_record lib cfg en r st = (m, st')" "wf1 (st_world st)" "wf2 (st_world st)"
  shows "st_records st' = st_records st \<and> obj2 (st_world st') = obj2 (st_world st)"
proof -
  let ?p = "\<lparr>pi_expected = expected_of r, destinationObjectId = pu_finalObjectId r, sourceObjectId = pu_stagingObjectId r\<rparr>"
  obtain m' w where w: "promoteStagedObject (object_sha (sl_crypto lib)) (bc_primaryStore cfg) (en_promoteTimeout en) (st_world st) ?p
      = (m', w)" "st' = st\<lparr>st_world := w\<rparr>"
    using assms(1) by (auto simp: promote_record_def split: prod.splits)
  then show ?thesis using promote_put [OF w(1)] put_primary [OF assms(2,3)] by auto
qed

lemma kept_replicate_if:
  assumes "kept wf1 wf2 obj1 obj2 cr a env dek content st" and "\<not> rc_finalized (st_records st ! b)"
  shows "kept wf1 wf2 obj1 obj2 cr a env dek content (snd (replicate_if_critical lib cfg en b st))"
proof -
  have "kept wf1 wf2 obj1 obj2 cr a env dek content (snd (replicate_record lib cfg en b st))"
    using kept_replicate [OF assms(1), of b en] assms(2) by (cases "replicate_record lib cfg en b st") simp
  then show ?thesis using assms(1) unfolding replicate_if_critical_def by (auto intro!: kept_then_do)
qed

lemma replicate_if_copies:
  assumes "kept wf1 wf2 obj1 obj2 cr a env dek content st" and "obj1 (st_world st) (pu_finalObjectId (st_records st ! a)) = Some env"
    and "obj2 (st_world st) (en_replicaObjectId en) = None" and "replicate_if_critical lib cfg en a st = (Inr q, st')"
  shows "obj1 (st_world st') (pu_finalObjectId (st_records st' ! a)) = Some env
    \<and> (rc_critical (st_records st' ! a) \<longrightarrow> (\<exists>j. rc_replicaObjectId (st_records st' ! a) = Some j \<and> obj2 (st_world st') j = Some env))"
proof (cases "rc_critical (st_records st ! a)")
  case True
  then obtain x where x: "replicate_record lib cfg en a st = (Inr x, st')"
    using assms(4) by (auto simp: replicate_if_critical_def outcome_simps)
  have "a < length (st_records st)" using assms(1) by (simp add: kept_def holds_def)
  then have "pu_finalObjectId (st_records st' ! a) = pu_finalObjectId (st_records st ! a)"
    using x by (auto simp: replicate_record_def Let_def update_record_def split: prod.splits)
  then show ?thesis using replicate_copies [OF assms(1,2,3) x] assms(2) by simp
qed (use assms in \<open>auto simp: replicate_if_critical_def\<close>)

lemma kept_finalize:
  assumes k: "kept wf1 wf2 obj1 obj2 cr a env dek content st" and f: "obj2 (st_world st) (en_replicaObjectId en) = None"
    and inv: "service_inv st"
  shows "kept wf1 wf2 obj1 obj2 cr a env dek content (snd (bundle_finalize lib cfg en i st))"
proof -
  have frame: "proofs_frame st st1" if "consumeValidatedProofs d ps x st = (r, st1)" for d ps x r st1
    using consume_frame [of st d ps x] that by simp
  have checks: "b < length (st_records st) \<and> \<not> rc_finalized (st_records st ! b)"
    if "finalize_checks lib cfg i st = Inr (b, z)" for b z
    using that inv by (cases z) (auto simp: finalize_checks_def Let_def outcome_simps record_address_def service_inv_def)
  have promote: "kept wf1 wf2 obj1 obj2 cr a env dek content (snd (promote_record lib cfg en (st_records st ! b) st1))"
    if "kept wf1 wf2 obj1 obj2 cr a env dek content st1" "proofs_frame st st1" "b < length (st_records st)" for b st1
    using kept_promote [OF that(1), of b en] that by (cases "promote_record lib cfg en (st_records st ! b) st1") (simp add: proofs_frame_def)
  have after: "st_records st2 = st_records st \<and> obj2 (st_world st2) (en_replicaObjectId en) = None"
    if "promote_record lib cfg en r st1 = (m, st2)" "proofs_frame st st1" "kept wf1 wf2 obj1 obj2 cr a env dek content st1" for r st1 m st2
    using promote_frame [OF that(1)] that(2,3) f by (simp add: proofs_frame_def kept_def)
  have act: "kept wf1 wf2 obj1 obj2 cr a env dek content (snd (activate_finalized i b st3))"
    if "kept wf1 wf2 obj1 obj2 cr a env dek content st1" "proofs_frame st st1"
      "promote_record lib cfg en (st_records st ! b) st1 = (Inr p, st2)" "kept wf1 wf2 obj1 obj2 cr a env dek content st2"
      "replicate_if_critical lib cfg en b st2 = (Inr q, st3)" "kept wf1 wf2 obj1 obj2 cr a env dek content st3" for b st1 st2 st3 p q
  proof -
    have "b = a \<Longrightarrow> obj1 (st_world st2) (pu_finalObjectId (st_records st2 ! a)) = Some env"
      using promote_stored [OF that(1), of en p st2] that(2,3) by (simp add: proofs_frame_def)
    then show ?thesis
      unfolding activate_finalized_def using replicate_if_copies [OF that(4)] that(5,6) after [OF that(3,2,1)]
      by (auto intro!: kept_pure_do kept_mark)
  qed
  have rep: "kept wf1 wf2 obj1 obj2 cr a env dek content (snd (replicate_if_critical lib cfg en b st2))"
    if "finalize_checks lib cfg i st = Inr (b, z)" "proofs_frame st st1" "kept wf1 wf2 obj1 obj2 cr a env dek content st1"
      "promote_record lib cfg en (st_records st ! b) st1 = (Inr p, st2)" "kept wf1 wf2 obj1 obj2 cr a env dek content st2"
    for b z st1 st2 p
    using kept_replicate_if [OF that(5)] checks [OF that(1)] after [OF that(4,2,3)] by simp
  show ?thesis
    unfolding bundle_finalize_def
    by (rule kept_pure_do [OF k])
      (auto simp: Let_def intro!: kept_then_do kept_consume k kept_pure_do promote rep act dest: frame checks)
qed

lemma kept_rotate:
  assumes k: "kept wf1 wf2 obj1 obj2 (sl_crypto lib) a env dek content st" and f: "length (en_wrapIv en) = 12"
  shows "kept wf1 wf2 obj1 obj2 (sl_crypto lib) a env dek content (snd (rotateControllerEnvelope lib cfg en i st))"
proof -
  have tail: "kept wf1 wf2 obj1 obj2 (sl_crypto lib) a env dek content (update_record b (rotate_record i spki w) (st1\<lparr>st_keys := keys\<rparr>))"
    if "kept wf1 wf2 obj1 obj2 (sl_crypto lib) a env dek content st1" "st_records st1 = st_records st"
      "unwrapDek (sl_crypto lib) (pu_controllerEnvelope (st_records st ! b)) priv (rc_wrapContext (st_records st ! b)) = Inr d"
      "wrapDek (sl_crypto lib) (en_wrapIv en) seed (successor_context i (st_records st ! b)) d pub = Inr w"
    for b spki w st1 keys priv d seed pub
  proof (rule kept_update)
    show k1: "kept wf1 wf2 obj1 obj2 (sl_crypto lib) a env dek content (st1\<lparr>st_keys := keys\<rparr>)" by (rule kept_same [OF that(1)]) simp_all
    show "frozen (rotate_record i spki w r) = frozen r" for r by (simp add: frozen_def rotate_record_def)
    assume b: "b = a"
    have s: "sealed (sl_crypto lib) (st_records st ! a) env dek content"
      "stored (obj1 (st_world st1)) (obj2 (st_world st1)) (st_records st ! a) env"
      using that(1,2) by (simp_all add: kept_def holds_def)
    obtain pub' where "wraps (sl_crypto lib) (rc_wrapContext (st_records st ! a)) dek pub' (pu_controllerEnvelope (st_records st ! a))"
      using s(1) by (auto simp: sealed_def)
    then have "d = dek" using wraps_unwrap(2) [OF encryption_axioms] that(3) b by blast
    then have "wraps (sl_crypto lib) (successor_context i (st_records st ! a)) dek pub (wd_envelopeBytes w)"
      using that(4) f b by (auto simp: wraps_def)
    then show "sealed (sl_crypto lib) (rotate_record i spki w (st_records (st1\<lparr>st_keys := keys\<rparr>) ! a)) env dek content
        \<and> stored (obj1 (st_world (st1\<lparr>st_keys := keys\<rparr>))) (obj2 (st_world (st1\<lparr>st_keys := keys\<rparr>)))
            (rotate_record i spki w (st_records (st1\<lparr>st_keys := keys\<rparr>) ! a)) env"
      using s that(2) by (auto simp: rotate_record_def sealed_def stored_def expected_of_def)
  qed
  have frame: "st_records st1 = st_records st" if "consumeValidatedProofs d ps x st = (r, st1)" for d ps x r st1
    using consume_frame [of st d ps x] that by (simp add: proofs_frame_def)
  show ?thesis
    unfolding rotateControllerEnvelope_def Let_def
    by (rule kept_pure_do [OF k])
      (auto intro!: kept_then_do kept_pure_do kept_consume k tail dest: frame simp: outcome_simps simp del: key_call.simps)
qed

lemma kept_grant: "kept wf1 wf2 obj1 obj2 cr a env dek content st \<Longrightarrow> kept wf1 wf2 obj1 obj2 cr a env dek content (snd (grantRecipient lib cfg en i st))"
  unfolding grantRecipient_def Let_def
  by (rule kept_pure_do, assumption)
    (auto intro!: kept_then_do kept_pure_do kept_consume kept_keys kept_recipients simp del: key_call.simps)

lemma kept_retrieve:
  "kept wf1 wf2 obj1 obj2 cr a env dek content st \<Longrightarrow> kept wf1 wf2 obj1 obj2 cr a env dek content (snd (retrieveWithGrant lib cfg en i st))"
  unfolding retrieveWithGrant_def
  by (rule kept_pure_do, assumption) (auto intro!: kept_then_do kept_consume)

lemma kept_promote_critical:
  assumes k: "kept wf1 wf2 obj1 obj2 cr a env dek content st" and f: "obj2 (st_world st) (en_replicaObjectId en) = None"
    and inv: "service_inv st"
  shows "kept wf1 wf2 obj1 obj2 cr a env dek content (snd (promoteToDecisionCritical lib cfg en b st))"
proof -
  let ?f = "\<lambda>r. r\<lparr>rc_critical := True\<rparr>"
  have rep: "kept wf1 wf2 obj1 obj2 cr a env dek content (snd (replicate_record lib cfg en c st))"
    if "\<not> (\<not> rc_finalized (st_records st ! c) \<or> rc_critical (st_records st ! c))" for c
    using kept_replicate [OF k, of c en] that by (cases "replicate_record lib cfg en c st") simp
  have tail: "kept wf1 wf2 obj1 obj2 cr a env dek content (update_record c ?f st1)"
    if r: "replicate_record lib cfg en c st = (Inr x, st1)" and k1: "kept wf1 wf2 obj1 obj2 cr a env dek content st1"
      and c: "rc_finalized (st_records st ! c)" for c x st1
  proof (rule kept_update [OF k1])
    show "frozen (?f r) = frozen r" for r by (simp add: frozen_def)
    assume ca: "c = a"
    have final: "obj1 (st_world st) (pu_finalObjectId (st_records st ! a)) = Some env"
      using k c ca by (simp add: kept_def holds_def stored_def)
    have "sealed cr (st_records st1 ! a) env dek content" "stored (obj1 (st_world st1)) (obj2 (st_world st1)) (st_records st1 ! a) env"
      using k1 by (simp_all add: kept_def holds_def)
    moreover have "rc_replicaObjectId (st_records st1 ! a) = Some (en_replicaObjectId en)"
      "obj2 (st_world st1) (en_replicaObjectId en) = Some env"
      using replicate_copies [OF k final f] r ca by auto
    ultimately show "sealed cr (?f (st_records st1 ! a)) env dek content
        \<and> stored (obj1 (st_world st1)) (obj2 (st_world st1)) (?f (st_records st1 ! a)) env"
      by (auto simp: sealed_def stored_def expected_of_def)
  qed
  show ?thesis
    unfolding promoteToDecisionCritical_def
    by (rule kept_pure_do [OF k], rule kept_pure_do [OF k]) (auto simp: outcome_simps intro!: kept_then_do rep tail)
qed

text \<open>Every later call keeps what a record stands for.\<close>

lemma kept_step:
  assumes "kept wf1 wf2 obj1 obj2 (sl_crypto lib) a env dek content st" and "service_inv st" and "fresh_draws obj1 obj2 st x"
  shows "kept wf1 wf2 obj1 obj2 (sl_crypto lib) a env dek content (service_step lib cfg st x)"
  using assms kept_keys
  by (cases x) (auto simp: kept_finalize kept_rotate kept_grant kept_retrieve kept_promote_critical
      intro!: kept_prepare simp del: fresh_draws.simps(1))

end

text \<open>Runs in which every identifier is fresh when it is drawn.\<close>

fun fresh_run ::
  "service_lib \<Rightarrow> 's bundle_config \<Rightarrow> ('s \<Rightarrow> string \<Rightarrow> bytes option) \<Rightarrow> ('s \<Rightarrow> string \<Rightarrow> bytes option) \<Rightarrow> 's service_state \<Rightarrow> service_op list \<Rightarrow> bool" where
  "fresh_run lib cfg o1 o2 st [] = True"
| "fresh_run lib cfg o1 o2 st (x # xs) = (fresh_draws o1 o2 st x \<and> fresh_run lib cfg o1 o2 (service_step lib cfg st x) xs)"

context bundle_flow
begin

lemma kept_run:
  "kept wf1 wf2 obj1 obj2 (sl_crypto lib) a env dek content st \<Longrightarrow> service_inv st \<Longrightarrow> fresh_run lib cfg obj1 obj2 st xs
    \<Longrightarrow> kept wf1 wf2 obj1 obj2 (sl_crypto lib) a env dek content (run (service_step lib cfg) st xs)"
proof (induction xs arbitrary: st)
  case (Cons x xs)
  then show ?case using kept_step [of a env dek content st x] service.inv_step [of st lib cfg x] by simp
qed simp

lemma put_object_new:
  assumes "wf1 (st_world st)" "wf2 (st_world st)" "base64Url32_ok i" "obj1 (st_world st) i = None"
    and "put_object (bc_primaryStore cfg) i bs st = (Inr u, st')"
  shows "\<exists>w. st' = st\<lparr>st_world := w\<rparr> \<and> wf1 w \<and> wf2 w \<and> obj1 w = (obj1 (st_world st))(i \<mapsto> bs) \<and> obj2 w = obj2 (st_world st)"
proof (cases "length bs \<le> limit1")
  case True
  obtain w where w: "so_put (bc_primaryStore cfg) (st_world st) i [bs] = (Inr \<lparr>put_length = length bs, put_status = Created\<rparr>, w)"
    "obj1 w = (obj1 (st_world st))(i \<mapsto> bs)"
    using primary.src.put_new [OF assms(1,3,4), of "[bs]"] True by auto
  then show ?thesis using assms(5) put_primary [OF assms(1,2) w(1)] by (auto simp: put_object_def)
next
  case False
  then show ?thesis using primary.src.put_large [OF assms(1,3,4), of "[bs]"] assms(5) by (auto simp: put_object_def)
qed

lemma prepare_kept:
  assumes base: "wf1 (st_world st)" "wf2 (st_world st)" "distinct (map pu_finalObjectId (st_records st))"
    and fresh: "fresh_draws obj1 obj2 st (CallPrepare en i)"
    and new: "jm_get (st_byIdempotency st) (sha256Hex (sl_crypto lib) (pe_idempotencyKey i)) = None"
    and p: "bundle_prepare lib cfg en i st = (Inr pub, st')"
  shows "\<exists>env dek. kept wf1 wf2 obj1 obj2 (sl_crypto lib) (length (st_records st)) env dek (pe_content i) st'
    \<and> jm_get (st_byBundle st') (pb_bundle_id (evidence_bundle_ref (pe_evidencePayload i))) = Some (length (st_records st))
    \<and> pu_domainPayload (st_records st' ! length (st_records st)) = canonical (sl_crypto lib) (evidence_json (pe_evidencePayload i))"
proof -
  let ?cr = "sl_crypto lib"
  obtain r w u st1 keys spki where r: "protectContent ?cr (en_protect en) (protect_of cfg i ?cr) = Inr r"
    and w: "wrapDek ?cr (en_wrapIv en) (en_wrapSeed en) (wrap_context i r (en_envelopeId en)) (pc_dek r) (pe_controllerPublicKey i) = Inr w"
    and put: "put_object (bc_primaryStore cfg) (en_stagingObjectId en) (pc_envelopeBytes r) st = (Inr u, st1)"
    and st': "st' = add_record (sha256Hex ?cr (pe_idempotencyKey i)) (new_record ?cr en i r w spki) (st1\<lparr>st_keys := keys\<rparr>)"
    using p new by (auto simp: bundle_prepare_def prepare_new_def Let_def outcome_simps)
  let ?rec = "new_record ?cr en i r w spki"
  obtain x where x: "st1 = st\<lparr>st_world := x\<rparr>" "wf1 x" "wf2 x" "obj2 x = obj2 (st_world st)"
    "obj1 x = (obj1 (st_world st))(en_stagingObjectId en \<mapsto> pc_envelopeBytes r)"
    using put_object_new [OF base(1,2) _ _ put] fresh by auto
  have "pc_contentEnvelopeDigest r = sha256_of ?cr (pc_envelopeBytes r)" using protect_Inr [OF r] by blast
  moreover have "wraps ?cr (wrap_context i r (en_envelopeId en)) (pc_dek r) (pe_controllerPublicKey i) (wd_envelopeBytes w)"
    using w fresh by (auto simp: wraps_def)
  ultimately have "sealed ?cr ?rec (pc_envelopeBytes r) (pc_dek r) (pe_content i)"
    using protect_open [OF r]
    by (auto simp: sealed_def new_record_def matches_def expected_of_def object_sha_def sha256_of_def protect_of_def)
  moreover have "stored (obj1 x) (obj2 x) ?rec (pc_envelopeBytes r)"
    using fresh x(5) by (simp add: stored_def new_record_def)
  moreover have "pu_finalObjectId ?rec \<notin> pu_finalObjectId ` set (st_records st)" using fresh by (simp add: new_record_def)
  ultimately show ?thesis
    using base(3) x by (auto simp: kept_def holds_def st' add_record_def jm_simps new_record_def)
qed

text \<open>A grant wraps the key of the record for the recipient.\<close>

lemma grant_wraps:
  assumes k: "kept wf1 wf2 obj1 obj2 (sl_crypto lib) a env dek content st" and b: "jm_get (st_byBundle st) (gi_bundleId i) = Some a"
    and g: "grantRecipient lib cfg en i st = (Inr u, st')" and iv: "length (en_wrapIv en) = 12"
  shows "\<exists>e. jm_get (st_recipientEnvelopes st') (gi_recipientEnvelopeId i) = Some e
    \<and> wraps (sl_crypto lib) (re_context e) dek (gi_recipientPublicKey i) (re_bytes e) \<and> re_grantId e = gi_grantId i
    \<and> rc_finalized (st_records st' ! a) \<and> st_byBundle st' = st_byBundle st"
proof -
  obtain r spki pend auth st1 d w keys keys' where c: "grant_checks lib cfg i st = Inr (r, spki, pend, auth)"
    and con: "consumeValidatedProofs (en_repositoryDown en) pend auth st = (Inr (), st1)"
    and d: "unwrapDek (sl_crypto lib) (pu_controllerEnvelope r) (gi_controllerPrivateKey i) (rc_wrapContext r) = Inr d"
    and w: "wrapDek (sl_crypto lib) (en_wrapIv en) (en_wrapSeed en) (recipient_context i r) d (gi_recipientPublicKey i) = Inr w"
    and st': "st' = st1\<lparr>st_keys := keys', st_recipientEnvelopes :=
        jm_set (gi_recipientEnvelopeId i) (recipient_of i (recipient_context i r) spki w) (st_recipientEnvelopes st1)\<rparr>"
    using grant_Inr [OF g] by blast
  have r: "r = st_records st ! a" "rc_finalized r"
    using c b by (auto simp: grant_checks_def Let_def outcome_simps bundle_record_def record_address_def)
  obtain pub where "wraps (sl_crypto lib) (rc_wrapContext r) dek pub (pu_controllerEnvelope r)"
    using k r(1) by (auto simp: kept_def holds_def sealed_def)
  then have "d = dek" using wraps_unwrap(2) [OF encryption_axioms] d by blast
  then have "wraps (sl_crypto lib) (recipient_context i r) dek (gi_recipientPublicKey i) (wd_envelopeBytes w)"
    using w iv by (auto simp: wraps_def)
  moreover have "st_records st1 = st_records st" "st_byBundle st1 = st_byBundle st"
    using consume_Inr [OF con] by (auto simp: proofs_frame_def)
  ultimately show ?thesis using r by (simp add: st' jm_simps recipient_of_def Let_def)
qed

text \<open>What a recipient with a wrapped key gets.\<close>

lemma open_stored_content:
  assumes k: "kept wf1 wf2 obj1 obj2 (sl_crypto lib) a env dek content st" and "rc_finalized (st_records st ! a)"
    and "wraps (sl_crypto lib) (re_context e) dek pub (re_bytes e)" and "key_pair pub priv" and "\<not> en_fetchTimeout en"
  shows "open_stored lib cfg en priv (st_records st ! a) e st = Inr (content, pu_domainPayload (st_records st ! a), FromPrimary)"
proof -
  let ?r = "st_records st ! a"
  have "unwrapDek (sl_crypto lib) (re_bytes e) priv (re_context e) = Inr dek"
    using wraps_unwrap(1) [OF encryption_axioms] assms(3,4) by blast
  moreover have "readVerified (object_sha (sl_crypto lib)) (bc_primaryStore cfg) (st_world st) (pu_finalObjectId ?r) (expected_of ?r) = Inr env"
    using k assms(2) by (auto simp: primary.src.readVerified_Inr_iff kept_def holds_def stored_def sealed_def)
  then have "fetchWithFailover (object_sha (sl_crypto lib)) (en_fetchTimeout en) (st_world st) (failover_of cfg ?r) = Inr (env, FromPrimary)"
    using assms(5) by (simp add: fetchWithFailover_def with_timeout_def fetch_object_def failover_of_def)
  moreover have "openProtectedContent (sl_crypto lib) env dek (rc_aad ?r) (pu_contentCommitment ?r) = Inr (content, pu_domainPayload ?r)"
    using k by (simp add: kept_def holds_def sealed_def)
  ultimately show ?thesis by (simp add: open_stored_def map_error_def)
qed

text \<open>Whatever comes out is the content, also from the replica.\<close>

lemma open_stored_only_content:
  assumes k: "kept wf1 wf2 obj1 obj2 (sl_crypto lib) a env dek content st" and f: "rc_finalized (st_records st ! a)"
    and w: "wraps (sl_crypto lib) (re_context e) dek pub (re_bytes e)"
    and o: "open_stored lib cfg en priv (st_records st ! a) e st = Inr (c, p, src)"
  shows "c = content \<and> p = pu_domainPayload (st_records st ! a)"
proof -
  let ?r = "st_records st ! a"
  obtain d bs where d: "unwrapDek (sl_crypto lib) (re_bytes e) priv (re_context e) = Inr d"
    and bs: "fetchWithFailover (object_sha (sl_crypto lib)) (en_fetchTimeout en) (st_world st) (failover_of cfg ?r) = Inr (bs, src)"
    and op: "openProtectedContent (sl_crypto lib) bs d (rc_aad ?r) (pu_contentCommitment ?r) = Inr (c, p)"
    using o by (auto simp: open_stored_def Let_def outcome_simps)
  have "d = dek" using wraps_unwrap(2) [OF encryption_axioms w d] .
  moreover have "readVerified (object_sha (sl_crypto lib)) (bc_primaryStore cfg) (st_world st) (pu_finalObjectId ?r) (expected_of ?r) = Inr env"
    using k f by (auto simp: primary.src.readVerified_Inr_iff kept_def holds_def stored_def sealed_def)
  then have "bs = env"
    using bs by (auto simp: fetchWithFailover_def with_timeout_def fetch_object_def failover_of_def split: if_splits)
  ultimately show ?thesis using op k by (simp add: kept_def holds_def sealed_def)
qed

end

end
