(* ===== verification/Bundle_Runs.thy ===== *)
theory Bundle_Runs
  imports Bundle_Flow
begin

text \<open>
  Whole runs of the evidence bundle service from its start: the two stores stay well formed and the final identifiers
  distinct, the entry of a bundle stays until the bundle is prepared again, and the envelope of a recipient until another
  grant uses its identifier. With them the theorem that a recipient gets what was prepared.
\<close>

subsection \<open>Frames\<close>

definition leaves :: "('s \<Rightarrow> bool) \<Rightarrow> ('e + 'a) \<times> 's \<Rightarrow> bool" where
  "leaves P m = P (snd m)"

lemma leaves_rules:
  "P s \<Longrightarrow> leaves P (r, s)"
  "P s \<Longrightarrow> (\<And>x. m = Inr x \<Longrightarrow> leaves P (f x)) \<Longrightarrow> leaves P (pure_do m s f)"
  "leaves P n \<Longrightarrow> (\<And>x t. n = (Inr x, t) \<Longrightarrow> P t \<Longrightarrow> leaves P (g x t)) \<Longrightarrow> leaves P (then_do n g)"
  by (auto simp: leaves_def pure_do_def then_do_def split: sum.splits prod.splits)

text \<open>What holds of the world only, or of the entries of bundles only, passes through most changes.\<close>

definition entries :: "'s service_state \<Rightarrow> (string, nat) jmap \<times> (string, recipient_envelope) jmap" where
  "entries st = (st_byBundle st, st_recipientEnvelopes st)"

lemma entries_simps [simp]:
  "entries (st\<lparr>st_world := w\<rparr>) = entries st" "entries (st\<lparr>st_keys := k\<rparr>) = entries st"
  "entries (st\<lparr>st_finalizedRecords := z\<rparr>) = entries st" "entries (update_record a f st) = entries st"
  by (simp_all add: entries_def update_record_def)

lemma world_simps [simp]:
  "st_world (update_record a f st) = st_world st" "st_world (add_record h r st) = st_world st"
  "st_byBundle (update_record a f st) = st_byBundle st" "st_recipientEnvelopes (update_record a f st) = st_recipientEnvelopes st"
  "st_recipientEnvelopes (add_record h r st) = st_recipientEnvelopes st"
  by (simp_all add: update_record_def add_record_def)

lemma leaves_consume:
  assumes "P st" and "\<And>t. proofs_frame st t \<Longrightarrow> P t"
  shows "leaves P (consumeValidatedProofs d ps a st)"
  using assms(2) consume_frame [of st d ps a] by (simp add: leaves_def)

lemma leaves_put: "(\<And>w. P (st\<lparr>st_world := w\<rparr>)) \<Longrightarrow> leaves P (put_object ops i bs st)"
  using put_object_frame [of ops i bs st] by (auto simp: leaves_def)

lemma consume_entries: "entries st = e \<Longrightarrow> leaves (\<lambda>s. entries s = e) (consumeValidatedProofs d ps a st)"
  by (rule leaves_consume) (auto simp: proofs_frame_def entries_def)

lemma promote_entries: "entries st = e \<Longrightarrow> leaves (\<lambda>s. entries s = e) (promote_record lib cfg en r st)"
  by (auto simp: promote_record_def leaves_def split: prod.splits)

lemma replicate_entries: "entries st = e \<Longrightarrow> leaves (\<lambda>s. entries s = e) (replicate_record lib cfg en a st)"
  by (auto simp: replicate_record_def leaves_def Let_def split: prod.splits)

lemmas entries_rules = leaves_rules consume_entries promote_entries replicate_entries

lemma finalize_entries: "leaves (\<lambda>s. entries s = entries st) (bundle_finalize lib cfg en i st)"
  unfolding bundle_finalize_def replicate_if_critical_def activate_finalized_def mark_finalized_def Let_def
  by (auto intro!: entries_rules)

lemma rotate_entries: "leaves (\<lambda>s. entries s = entries st) (rotateControllerEnvelope lib cfg en i st)"
  unfolding rotateControllerEnvelope_def Let_def by (auto intro!: entries_rules simp del: key_call.simps)

lemma retrieve_entries: "leaves (\<lambda>s. entries s = entries st) (retrieveWithGrant lib cfg en i st)"
  unfolding retrieveWithGrant_def by (auto intro!: entries_rules)

lemma critical_entries: "leaves (\<lambda>s. entries s = entries st) (promoteToDecisionCritical lib cfg en b st)"
  unfolding promoteToDecisionCritical_def by (auto intro!: entries_rules)

lemma prepare_entries:
  "leaves (\<lambda>s. st_recipientEnvelopes s = st_recipientEnvelopes st \<and> (b \<noteq> pb_bundle_id (evidence_bundle_ref (pe_evidencePayload i))
     \<longrightarrow> jm_get (st_byBundle s) b = jm_get (st_byBundle st) b)) (bundle_prepare lib cfg en i st)"
  unfolding bundle_prepare_def prepare_new_def Let_def
  by (auto intro!: leaves_rules leaves_put split: option.split simp: add_record_def new_record_def jm_simps)

lemma grant_entries:
  "leaves (\<lambda>s. st_byBundle s = st_byBundle st \<and> (e \<noteq> gi_recipientEnvelopeId i
     \<longrightarrow> jm_get (st_recipientEnvelopes s) e = jm_get (st_recipientEnvelopes st) e)) (grantRecipient lib cfg en i st)"
  unfolding grantRecipient_def Let_def
  by (auto intro!: leaves_rules leaves_consume simp: proofs_frame_def jm_simps simp del: key_call.simps)

fun prepares_bundle :: "string \<Rightarrow> service_op \<Rightarrow> bool" where
  "prepares_bundle b (CallPrepare en i) = (pb_bundle_id (evidence_bundle_ref (pe_evidencePayload i)) = b)"
| "prepares_bundle b _ = False"

fun grants_envelope :: "string \<Rightarrow> service_op \<Rightarrow> bool" where
  "grants_envelope e (CallGrant en i) = (gi_recipientEnvelopeId i = e)"
| "grants_envelope e _ = False"

lemmas step_entries = finalize_entries rotate_entries retrieve_entries critical_entries prepare_entries grant_entries

lemma step_bundle:
  "\<not> prepares_bundle b x \<Longrightarrow> jm_get (st_byBundle (service_step lib cfg st x)) b = jm_get (st_byBundle st) b"
  using step_entries [unfolded leaves_def entries_def, of lib cfg _ _ st] by (cases x) auto

lemma step_recipient:
  "\<not> grants_envelope e x \<Longrightarrow> jm_get (st_recipientEnvelopes (service_step lib cfg st x)) e = jm_get (st_recipientEnvelopes st) e"
  using step_entries [unfolded leaves_def entries_def, of lib cfg _ _ st] by (cases x) auto

lemma run_bundle:
  "list_all (\<lambda>x. \<not> prepares_bundle b x) xs
     \<Longrightarrow> jm_get (st_byBundle (run (service_step lib cfg) st xs)) b = jm_get (st_byBundle st) b"
  by (induction xs arbitrary: st) (simp_all add: step_bundle)

lemma run_recipient:
  "list_all (\<lambda>x. \<not> grants_envelope e x) xs
     \<Longrightarrow> jm_get (st_recipientEnvelopes (run (service_step lib cfg) st xs)) e = jm_get (st_recipientEnvelopes st) e"
  by (induction xs arbitrary: st) (simp_all add: step_recipient)

subsection \<open>Well-formed stores and distinct identifiers\<close>

definition steady :: "('s \<Rightarrow> bool) \<Rightarrow> ('s \<Rightarrow> bool) \<Rightarrow> string list \<Rightarrow> 's service_state \<Rightarrow> bool" where
  "steady w1 w2 ids st = (w1 (st_world st) \<and> w2 (st_world st) \<and> map pu_finalObjectId (st_records st) = ids)"

lemma steady_same:
  "steady w1 w2 ids st \<Longrightarrow> st_records t = st_records st \<Longrightarrow> st_world t = st_world st \<Longrightarrow> steady w1 w2 ids t"
  by (simp add: steady_def)

lemma steady_update:
  assumes "steady w1 w2 ids st" and "\<And>r. pu_finalObjectId (f r) = pu_finalObjectId r"
  shows "steady w1 w2 ids (update_record a f st)"
proof -
  have "map pu_finalObjectId ((st_records st)[a := f (st_records st ! a)]) = map pu_finalObjectId (st_records st)"
    using assms(2) by (cases "a < length (st_records st)") (simp_all add: map_update list_update_beyond list_update_same_conv)
  then show ?thesis using assms(1) by (simp add: steady_def update_record_def)
qed

lemma steady_consume: "steady w1 w2 ids st \<Longrightarrow> leaves (steady w1 w2 ids) (consumeValidatedProofs d ps a st)"
  by (rule leaves_consume) (auto simp: proofs_frame_def steady_def)

lemma steady_fields [simp]:
  "steady w1 w2 ids (st\<lparr>st_keys := k\<rparr>) = steady w1 w2 ids st" "steady w1 w2 ids (st\<lparr>st_recipientEnvelopes := e\<rparr>) = steady w1 w2 ids st"
  "steady w1 w2 ids (st\<lparr>st_finalizedRecords := z\<rparr>) = steady w1 w2 ids st"
  by (simp_all add: steady_def)

context bundle_flow
begin

lemma steady_put_primary:
  assumes "steady wf1 wf2 ids st" "so_put (bc_primaryStore cfg) (st_world st) i [b] = (r, w)"
  shows "steady wf1 wf2 ids (st\<lparr>st_world := w\<rparr>)"
  using assms put_primary [OF _ _ assms(2)] by (simp add: steady_def)

lemma steady_put_object: "steady wf1 wf2 ids st \<Longrightarrow> leaves (steady wf1 wf2 ids) (put_object (bc_primaryStore cfg) i bs st)"
  using steady_put_primary by (auto simp: leaves_def put_object_def split: prod.splits sum.splits)

lemma steady_promote:
  assumes "steady wf1 wf2 ids st"
  shows "leaves (steady wf1 wf2 ids) (promote_record lib cfg en r st)"
proof -
  obtain m w where w: "promoteStagedObject (object_sha (sl_crypto lib)) (bc_primaryStore cfg) (en_promoteTimeout en) (st_world st)
      \<lparr>pi_expected = expected_of r, destinationObjectId = pu_finalObjectId r, sourceObjectId = pu_stagingObjectId r\<rparr> = (m, w)"
    by fastforce
  have "steady wf1 wf2 ids (st\<lparr>st_world := w\<rparr>)"
    using promote_put [OF w] assms steady_put_primary [OF assms] by auto
  then show ?thesis by (simp add: leaves_def promote_record_def w)
qed

lemma steady_replicate:
  assumes "steady wf1 wf2 ids st"
  shows "leaves (steady wf1 wf2 ids) (replicate_record lib cfg en a st)"
proof -
  let ?st = "update_record a (\<lambda>r. r\<lparr>rc_replicaObjectId := Some (en_replicaObjectId en)\<rparr>) st"
  obtain m w where w: "replicateExact (object_sha (sl_crypto lib)) (en_replicateTimeout en) (bc_primaryStore cfg)
      (pu_finalObjectId (st_records st ! a)) (bc_replicaStore cfg) (en_replicaObjectId en) (st_world st) (expected_of (st_records st ! a)) = (m, w)"
    by fastforce
  have s: "steady wf1 wf2 ids ?st" by (rule steady_update [OF assms]) simp
  have "wf1 w \<and> wf2 w" using replicate_put [OF w] put_replica [of "st_world st"] assms by (auto simp: steady_def)
  then have "steady wf1 wf2 ids (?st\<lparr>st_world := w\<rparr>)" using s by (simp add: steady_def)
  then show ?thesis by (simp add: leaves_def replicate_record_def Let_def w)
qed

lemmas steady_rules = leaves_rules steady_consume steady_promote steady_replicate steady_update

lemma steady_step:
  assumes "steady wf1 wf2 ids st" and "\<nexists>en i. x = CallPrepare en i"
  shows "steady wf1 wf2 ids (service_step lib cfg st x)"
proof -
  have "leaves (steady wf1 wf2 ids) (bundle_finalize lib cfg en i st)" for en i
    unfolding bundle_finalize_def replicate_if_critical_def activate_finalized_def mark_finalized_def Let_def
    by (auto intro!: steady_rules assms(1))
  moreover have "leaves (steady wf1 wf2 ids) (rotateControllerEnvelope lib cfg en i st)" for en i
    unfolding rotateControllerEnvelope_def Let_def
    by (auto intro!: steady_rules assms(1) simp: rotate_record_def simp del: key_call.simps)
  moreover have "leaves (steady wf1 wf2 ids) (grantRecipient lib cfg en i st)" for en i
    unfolding grantRecipient_def Let_def by (auto intro!: steady_rules assms(1) simp del: key_call.simps)
  moreover have "leaves (steady wf1 wf2 ids) (retrieveWithGrant lib cfg en i st)" for en i
    unfolding retrieveWithGrant_def by (auto intro!: steady_rules assms(1))
  moreover have "leaves (steady wf1 wf2 ids) (promoteToDecisionCritical lib cfg en b st)" for en b
    unfolding promoteToDecisionCritical_def by (auto intro!: steady_rules assms(1))
  ultimately show ?thesis using assms by (cases x) (auto simp: leaves_def)
qed

lemma steady_prepare:
  assumes "steady wf1 wf2 ids st" and "distinct ids" and "fresh_draws obj1 obj2 st (CallPrepare en i)"
  shows "leaves (\<lambda>s. \<exists>ids'. steady wf1 wf2 ids' s \<and> distinct ids') (bundle_prepare lib cfg en i st)"
proof -
  have st: "\<exists>ids'. steady wf1 wf2 ids' t \<and> distinct ids'" if "steady wf1 wf2 ids t" for t using that assms(2) by blast
  have put: "steady wf1 wf2 ids t" if "put_object (bc_primaryStore cfg) j bs st = (r, t)" for j bs r t
    using steady_put_object [OF assms(1), of j bs] that by (simp add: leaves_def)
  have add: "\<exists>ids'. steady wf1 wf2 ids' (add_record h (new_record cr en i r w spki) t) \<and> distinct ids'"
    if "steady wf1 wf2 ids t" for h cr r w spki t
  proof (intro exI conjI)
    show "steady wf1 wf2 (ids @ [en_finalObjectId en]) (add_record h (new_record cr en i r w spki) t)"
      using that by (simp add: steady_def add_record_def new_record_def)
    show "distinct (ids @ [en_finalObjectId en])" using assms by (auto simp: steady_def)
  qed
  have put_leaves: "leaves (\<lambda>s. \<exists>ids'. steady wf1 wf2 ids' s \<and> distinct ids') (put_object (bc_primaryStore cfg) j bs st)" for j bs
    using put [of j bs] st by (cases "put_object (bc_primaryStore cfg) j bs st") (auto simp: leaves_def)
  show ?thesis
    unfolding bundle_prepare_def prepare_new_def Let_def
    by (auto intro!: leaves_rules put_leaves st add assms(1) split: option.split dest!: put)
qed

end

text \<open>Runs from the start, and what they keep.\<close>

lemma flow_inv_iff: "flow_inv w1 w2 st \<longleftrightarrow> service_inv st \<and> (\<exists>ids. steady w1 w2 ids st \<and> distinct ids)"
  by (auto simp: flow_inv_def steady_def)

context bundle_flow
begin

lemma flow_step: "flow_inv wf1 wf2 st \<Longrightarrow> fresh_draws obj1 obj2 st x \<Longrightarrow> flow_inv wf1 wf2 (service_step lib cfg st x)"
proof -
  assume a: "flow_inv wf1 wf2 st" "fresh_draws obj1 obj2 st x"
  then obtain ids where ids: "steady wf1 wf2 ids st" "distinct ids" by (auto simp: flow_inv_iff)
  have "\<exists>ids. steady wf1 wf2 ids (service_step lib cfg st x) \<and> distinct ids"
  proof (cases "\<exists>en i. x = CallPrepare en i")
    case True
    then show ?thesis using steady_prepare [OF ids] a(2) by (auto simp: leaves_def)
  qed (use steady_step [OF ids(1)] ids(2) in blast)
  moreover have "service_inv (service_step lib cfg st x)" using a(1) service.inv_step by (auto simp: flow_inv_def)
  ultimately show ?thesis by (simp add: flow_inv_iff)
qed

lemma flow_run: "flow_inv wf1 wf2 st \<Longrightarrow> fresh_run lib cfg obj1 obj2 st xs \<Longrightarrow> flow_inv wf1 wf2 (run (service_step lib cfg) st xs)"
  by (induction xs arbitrary: st) (simp_all add: flow_step)

lemma flow_start: "wf1 w \<Longrightarrow> wf2 w \<Longrightarrow> flow_inv wf1 wf2 (service_start empty_keys authorizations w)"
  by (simp add: flow_inv_def service_inv_start key_inv_empty) (simp add: service_start_def)

lemma record_stays: "service_grows s t \<Longrightarrow> a < length (st_records s) \<Longrightarrow> record_grows (st_records s ! a) (st_records t ! a)"
  by (simp add: service_grows_def)

text \<open>A prepared bundle after its grant, whatever happens in between.\<close>

lemma granted_kept:
  assumes st: "flow_inv wf1 wf2 st" and fresh: "fresh_draws obj1 obj2 st (CallPrepare en i)"
    and new: "jm_get (st_byIdempotency st) (sha256Hex (sl_crypto lib) (pe_idempotencyKey i)) = None"
    and p: "bundle_prepare lib cfg en i st = (Inr pub, st1)"
    and b: "b = pb_bundle_id (evidence_bundle_ref (pe_evidencePayload i))"
    and xs: "fresh_run lib cfg obj1 obj2 st1 xs" "list_all (\<lambda>x. \<not> prepares_bundle b x) xs"
    and g: "grantRecipient lib cfg en' j (run (service_step lib cfg) st1 xs) = (Inr (), st3)" "gi_bundleId j = b" "length (en_wrapIv en') = 12"
    and ys: "fresh_run lib cfg obj1 obj2 st3 ys" "list_all (\<lambda>x. \<not> prepares_bundle b x \<and> \<not> grants_envelope (gi_recipientEnvelopeId j) x) ys"
    and st4: "st4 = run (service_step lib cfg) st3 ys"
  shows "\<exists>a env dek e. kept wf1 wf2 obj1 obj2 (sl_crypto lib) a env dek (pe_content i) st4 \<and> jm_get (st_byBundle st4) b = Some a
    \<and> jm_get (st_recipientEnvelopes st4) (gi_recipientEnvelopeId j) = Some e
    \<and> wraps (sl_crypto lib) (re_context e) dek (gi_recipientPublicKey j) (re_bytes e) \<and> rc_finalized (st_records st4 ! a)
    \<and> pu_domainPayload (st_records st4 ! a) = canonical (sl_crypto lib) (evidence_json (pe_evidencePayload i))"
proof -
  let ?step = "service_step lib cfg" and ?cr = "sl_crypto lib" and ?a = "length (st_records st)"
  let ?st2 = "run ?step st1 xs"
  have base: "wf1 (st_world st)" "wf2 (st_world st)" "distinct (map pu_finalObjectId (st_records st))" using st by (simp_all add: flow_inv_def)
  obtain env dek where k1: "kept wf1 wf2 obj1 obj2 ?cr ?a env dek (pe_content i) st1"
    and b1: "jm_get (st_byBundle st1) b = Some ?a" and d1: "pu_domainPayload (st_records st1 ! ?a) = canonical ?cr (evidence_json (pe_evidencePayload i))"
    using prepare_kept [OF base fresh new p] b by blast
  have i1: "service_inv st1" using service.inv_step [of st lib cfg "CallPrepare en i"] st p by (simp add: flow_inv_def)
  have i2: "service_inv ?st2" by (rule service.inv_run_from [OF i1])
  have k2: "kept wf1 wf2 obj1 obj2 ?cr ?a env dek (pe_content i) ?st2" by (rule kept_run [OF k1 i1 xs(1)])
  have b2: "jm_get (st_byBundle ?st2) (gi_bundleId j) = Some ?a" by (simp add: run_bundle [OF xs(2)] b1 g(2))
  obtain e where e: "jm_get (st_recipientEnvelopes st3) (gi_recipientEnvelopeId j) = Some e"
    "wraps ?cr (re_context e) dek (gi_recipientPublicKey j) (re_bytes e)" "rc_finalized (st_records st3 ! ?a)" "st_byBundle st3 = st_byBundle ?st2"
    using grant_wraps [OF k2 b2 g(1,3)] by blast
  have k3: "kept wf1 wf2 obj1 obj2 ?cr ?a env dek (pe_content i) st3" using kept_grant [OF k2, of en' j] g(1) by simp
  have i3: "service_inv st3" using service.inv_step [OF i2, of lib cfg "CallGrant en' j"] g(1) by simp
  have k4: "kept wf1 wf2 obj1 obj2 ?cr ?a env dek (pe_content i) st4" unfolding st4 by (rule kept_run [OF k3 i3 ys(1)])
  have ys': "list_all (\<lambda>x. \<not> prepares_bundle b x) ys" "list_all (\<lambda>x. \<not> grants_envelope (gi_recipientEnvelopeId j) x) ys"
    using ys(2) by (simp_all add: list_all_iff)
  have b4: "jm_get (st_byBundle st4) b = Some ?a" using b2 g(2) by (simp add: run_bundle [OF ys'(1)] e(4) st4)
  have e4: "jm_get (st_recipientEnvelopes st4) (gi_recipientEnvelopeId j) = Some e" by (simp add: run_recipient [OF ys'(2)] e(1) st4)
  have g12: "service_grows st1 ?st2" and g23: "service_grows ?st2 st3" and g34: "service_grows st3 st4"
    using service_run_grows [OF i1] service_run_grows [OF i3] good_grant [OF i2, of lib cfg en' j] g(1) by (simp_all add: good_def st4)
  have a1: "?a < length (st_records st1)" using k1 by (simp add: kept_def holds_def)
  then have a3: "?a < length (st_records st3)" using g12 g23 by (simp add: service_grows_def)
  have "record_grows (st_records st1 ! ?a) (st_records st4 ! ?a)" "record_grows (st_records st3 ! ?a) (st_records st4 ! ?a)"
    using record_stays [OF service_grows_trans [OF service_grows_trans [OF g12 g23] g34] a1] record_stays [OF g34 a3] .
  then have "pu_domainPayload (st_records st4 ! ?a) = pu_domainPayload (st_records st1 ! ?a)" "rc_finalized (st_records st4 ! ?a)"
    using frozen_fields(9) [of "st_records st4 ! ?a" "st_records st1 ! ?a"] e(3) by (simp_all add: record_grows_def)
  then show ?thesis using k4 b4 e4 e(2) d1 by auto
qed

text \<open>What a retrieval returns is what was prepared.\<close>

lemma retrieved_content:
  assumes k: "kept wf1 wf2 obj1 obj2 (sl_crypto lib) a env dek content st" and b: "jm_get (st_byBundle st) (rv_bundleId i) = Some a"
    and e: "jm_get (st_recipientEnvelopes st) (rv_recipientEnvelopeId i) = Some e" "wraps (sl_crypto lib) (re_context e) dek pub (re_bytes e)"
    and f: "rc_finalized (st_records st ! a)" and r: "retrieveWithGrant lib cfg en i st = (Inr (c, payload, src), st')"
  shows "c = content \<and> payload = pu_domainPayload (st_records st ! a)"
proof -
  obtain rec e' auth where s: "retrieve_checks lib cfg i st = Inr (rec, e', auth)"
    and con: "consumeValidatedProofs (en_repositoryDown en) [] auth st = (Inr (), st')"
    and o: "open_stored lib cfg en (rv_recipientPrivateKey i) rec e' st' = Inr (c, payload, src)"
    using retrieve_Inr [OF r] by blast
  have same: "st_records st' = st_records st" using consume_Inr [OF con] by (simp add: proofs_frame_def)
  have rec: "rec = st_records st' ! a" "e' = e"
    using s b e(1) same by (auto simp: retrieve_checks_def outcome_simps bundle_record_def record_address_def find_recipient_def split: if_splits)
  have "kept wf1 wf2 obj1 obj2 (sl_crypto lib) a env dek content st'" using kept_consume [OF k, of _ "[]" auth] con by (metis snd_conv)
  then show ?thesis using open_stored_only_content [OF _ _ e(2) o [unfolded rec]] f same by simp
qed

end

end
