(* ===== verification/Bundle_Success.thy ===== *)
theory Bundle_Success
  imports Bundle_Flow
begin

text \<open>
  When the calls of the evidence bundle service succeed: a preparation on accepted inputs, and a finalization, a grant and a
  retrieval whose checks pass, whose proofs are new and whose keys fit. With the lemmas of \<open>Bundle_Acceptance\<close> the
  checks pass for whoever signs the messages of the service.
\<close>

locale bundle_success = bundle_flow lib cfg obj1 wf1 limit1 obj2 wf2 limit2 + service_library lib
  for lib :: service_lib and cfg :: "'s bundle_config" and obj1 wf1 limit1 obj2 wf2 limit2

subsection \<open>Accepted contexts\<close>

definition prepare_ok :: "'s bundle_config \<Rightarrow> service_env \<Rightarrow> prepare_input \<Rightarrow> bool" where
  "prepare_ok cfg en i = (length (pe_idempotencyKey i) = 32 \<and> evidenceClaimPayload_ok (pe_evidencePayload i)
     \<and> urn_ok ''org'' (pe_controllerOrganizationId i) \<and> urn_ok ''repository'' (bc_controllerRepositoryId cfg)
     \<and> mediaType_ok (pe_contentMediaType i) \<and> urn_ok ''authorization'' (pe_controllerAuthorizationId i)
     \<and> recipientKid_ok (pe_controllerKid i) \<and> is_rsa3072 (pe_controllerPublicKey i) \<and> urn_ok ''envelope'' (en_envelopeId en)
     \<and> length (cr_dek (en_protect en)) = 32 \<and> length (cr_iv (en_protect en)) = 12
     \<and> length (cr_contentSalt (en_protect en)) = 32 \<and> length (cr_domainSalt (en_protect en)) = 32)"

lemma payload_fields:
  assumes "evidenceClaimPayload_ok p"
  shows "urn_ok ''evidence'' (evidence_id p)" "positiveSafeInteger_ok (evidence_version p)"
    "urn_ok ''bundle'' (pb_bundle_id (evidence_bundle_ref p))" "urn_ok ''schema'' (pb_content_schema_id (evidence_bundle_ref p))"
    "semver_ok (pb_content_schema_version (evidence_bundle_ref p))" "urn_ok ''profile'' (pb_criticality_profile_id (evidence_bundle_ref p))"
    "positiveSafeInteger_ok (pb_criticality_profile_version (evidence_bundle_ref p))"
  using assms by (simp_all add: evidenceClaimPayload_ok_def bindReference_ok_def protectedBundleRef_ok_def)

lemma permuted_table:
  assumes "strict_json t v" and "set u = set t"
  shows "strict_json u v"
proof -
  have keys: "set (map fst u) = set (map fst t)" using assms(2) by simp
  show ?thesis using assms(1) unfolding strict_json_def list_all_iff assms(2) keys .
qed

definition aad_order :: json_table where
  "aad_order = [(''schema'', js_is ''EVLLM_PROTECTED_CONTENT_AAD_V1''), (''bundle_id'', js_text (urn_ok ''bundle'')),
     (''bundle_version'', js_int positiveSafeInteger_ok), (''bundle_type'', js_is ''evidence''),
     (''domain_resource_id'', js_text (urn_ok ''evidence'')), (''domain_resource_version'', js_int positiveSafeInteger_ok),
     (''custody_controller_org_id'', js_text (urn_ok ''org'')), (''primary_repository_id'', js_text (urn_ok ''repository'')),
     (''content_schema_id'', js_text (urn_ok ''schema'')), (''content_schema_version'', js_text semver_ok),
     (''access_class'', js_is ''restricted''), (''initial_criticality_class'', js_one_of [''decision-critical'', ''supplementary'']),
     (''criticality_profile_id'', js_text (urn_ok ''profile'')), (''criticality_profile_version'', js_int positiveSafeInteger_ok),
     (''domain_payload_commitment'', js_digest)]"

lemma aad_set:
  "jset ''domain_payload_commitment'' d (aad_input cfg i) =
    (case aad_input cfg i of JObj fs \<Rightarrow> JObj (fs @ [(''domain_payload_commitment'', d)]) | v \<Rightarrow> v)"
  by (simp add: aad_input_def Let_def)

lemma aad_accepted:
  assumes "prepare_ok cfg en i" and "digest_ok d"
  shows "protectedContentAad (jset ''domain_payload_commitment'' (digest_json d) (aad_input cfg i))"
proof -
  have "distinct (map fst aad_order)" by code_simp
  moreover have "criticality_text c = ''decision-critical'' \<or> criticality_text c = ''supplementary''" for c by (cases c) simp_all
  ultimately have "strict_json aad_order (jset ''domain_payload_commitment'' (digest_json d) (aad_input cfg i))"
    unfolding aad_set using assms payload_fields [of "pe_evidencePayload i"]
    by (simp add: aad_input_def Let_def, intro strict_json_ordered)
      (simp_all add: aad_order_def js_text_def js_int_def js_is_def js_one_of_def js_digest_json prepare_ok_def
        positiveSafeInteger_ok_def max_safe_integer_def)
  moreover have "set (protectedContentAadVariant BEvidence) = set aad_order"
    unfolding protectedContentAadVariant_def protectedContentAadBase_def aad_order_def by (simp add: insert_commute)
  ultimately show ?thesis
    unfolding protectedContentAad_def by (auto simp: list_ex_iff bundleTypes_def intro: permuted_table)
qed

definition context_order :: "(string \<Rightarrow> bool) \<Rightarrow> (string \<Rightarrow> bool) \<Rightarrow> (json \<Rightarrow> bool) \<Rightarrow> json_table" where
  "context_order auth purp scp = [(''schema'', js_is ''EVLLM_DEK_WRAP_CONTEXT_V1''), (''envelope_id'', js_text (urn_ok ''envelope'')),
     (''bundle_id'', js_text (urn_ok ''bundle'')), (''bundle_version'', js_int positiveSafeInteger_ok),
     (''bundle_type'', js_one_of (map bundle_type_text bundleTypes)), (''domain_resource_id'', js_text (\<lambda>s. True)),
     (''domain_resource_version'', js_int positiveSafeInteger_ok), (''domain_payload_commitment'', js_digest),
     (''content_commitment'', js_digest), (''content_envelope_digest'', js_digest), (''recipient_org_id'', js_text (urn_ok ''org'')),
     (''recipient_kid'', js_text recipientKid_ok), (''purpose'', js_text purp), (''authorization_id'', js_text auth), (''scope'', scp)]"

lemma context_accepted:
  assumes "strict_json (context_order auth purp scp) v" and "jget v ''bundle_type'' = Some (JStr ''evidence'')"
    and "urn_ok ''evidence'' (jtext v ''domain_resource_id'')"
    and "(auth = urn_ok ''authorization'' \<and> scp = js_is ''protected-bundle:key-administration''
        \<and> purp = (\<lambda>s. s = ''controller-custody''))
      \<or> (auth = urn_ok ''grant'' \<and> scp = js_is ''protected-bundle:decrypt''
        \<and> purp = (\<lambda>s. purpose_ok s \<and> s \<noteq> ''controller-custody''))"
  shows "dekWrapContext v"
proof -
  have is_text: "js_text (\<lambda>s. s = t) = js_is t" for t by (rule ext) (auto simp: js_text_def js_is_def split: json.splits)
  have "strict_json controllerWrapContext v \<or> strict_json grantWrapContext v"
    using assms(4)
  proof (elim disjE conjE)
    assume e: "auth = urn_ok ''authorization''" "scp = js_is ''protected-bundle:key-administration''" "purp = (\<lambda>s. s = ''controller-custody'')"
    have "set controllerWrapContext = set (context_order auth purp scp)"
      unfolding controllerWrapContext_def dekWrapContextBase_def context_order_def e is_text by (simp add: insert_commute)
    then show ?thesis using permuted_table [OF assms(1)] by blast
  next
    assume e: "auth = urn_ok ''grant''" "scp = js_is ''protected-bundle:decrypt''" "purp = (\<lambda>s. purpose_ok s \<and> s \<noteq> ''controller-custody'')"
    have "set grantWrapContext = set (context_order auth purp scp)"
      unfolding grantWrapContext_def dekWrapContextBase_def context_order_def e by (simp add: insert_commute)
    then show ?thesis using permuted_table [OF assms(1)] by blast
  qed
  then show ?thesis using assms(2,3) by (auto simp: dekWrapContext_def bundleTypes_def jtext_def)
qed

lemma context_order_distinct: "distinct (map fst (context_order auth purp scp))"
  by (simp add: context_order_def)

lemma wrap_context_accepted:
  assumes "prepare_ok cfg en i" and "digest_ok (pc_domainPayloadCommitment r)" "digest_ok (pc_contentCommitment r)"
    "digest_ok (pc_contentEnvelopeDigest r)"
  shows "dekWrapContext (wrap_context i r (en_envelopeId en))"
proof (rule context_accepted)
  show "strict_json (context_order (urn_ok ''authorization'') (\<lambda>s. s = ''controller-custody'') (js_is ''protected-bundle:key-administration''))
      (wrap_context i r (en_envelopeId en))"
    unfolding wrap_context_def Let_def using assms payload_fields [of "pe_evidencePayload i"]
    by (intro strict_json_ordered context_order_distinct)
      (simp_all add: context_order_def js_text_def js_int_def js_is_def js_one_of_def js_digest_json prepare_ok_def bundleTypes_def
        positiveSafeInteger_ok_def max_safe_integer_def)
qed (use assms payload_fields [of "pe_evidencePayload i"] in \<open>simp_all add: wrap_context_def Let_def prepare_ok_def jtext_def\<close>)

text \<open>The context of a recipient: the context of the record with the fields of the grant.\<close>

definition context_of :: "prepared_internal \<Rightarrow> string \<Rightarrow> string \<Rightarrow> string \<Rightarrow> string \<Rightarrow> string \<Rightarrow> string \<Rightarrow> json" where
  "context_of r envelopeId org kid purp auth scp = JObj
     [(''schema'', JStr ''EVLLM_DEK_WRAP_CONTEXT_V1''), (''envelope_id'', JStr envelopeId),
      (''bundle_id'', JStr (pu_bundleId r)), (''bundle_version'', JNum 1), (''bundle_type'', JStr ''evidence''),
      (''domain_resource_id'', JStr (rc_resourceId r)), (''domain_resource_version'', JNum (rc_resourceVersion r)),
      (''domain_payload_commitment'', digest_json (pu_domainPayloadCommitment r)),
      (''content_commitment'', digest_json (pu_contentCommitment r)),
      (''content_envelope_digest'', digest_json (pu_contentEnvelopeDigest r)),
      (''recipient_org_id'', JStr org), (''recipient_kid'', JStr kid),
      (''purpose'', JStr purp), (''authorization_id'', JStr auth), (''scope'', JStr scp)]"

lemma recipient_context_eq:
  assumes "rc_wrapContext r = context_of r e org kid purp auth scp"
  shows "recipient_context i r = context_of r (gi_recipientEnvelopeId i) (gi_recipientOrganizationId i) (gi_recipientKid i)
    (gi_purpose i) (gi_grantId i) ''protected-bundle:decrypt''"
  by (simp add: recipient_context_def assms context_of_def)

lemma context_of_accepted:
  assumes "urn_ok ''bundle'' (pu_bundleId r)" "urn_ok ''evidence'' (rc_resourceId r)" "positiveSafeInteger_ok (rc_resourceVersion r)"
    and "digest_ok (pu_domainPayloadCommitment r)" "digest_ok (pu_contentCommitment r)" "digest_ok (pu_contentEnvelopeDigest r)"
    and "urn_ok ''envelope'' e" "urn_ok ''org'' org" "recipientKid_ok kid" "urn_ok ''grant'' g"
    and "purpose_ok purp" "purp \<noteq> ''controller-custody''"
  shows "dekWrapContext (context_of r e org kid purp g ''protected-bundle:decrypt'')"
proof (rule context_accepted)
  show "strict_json (context_order (urn_ok ''grant'') (\<lambda>s. purpose_ok s \<and> s \<noteq> ''controller-custody'') (js_is ''protected-bundle:decrypt''))
      (context_of r e org kid purp g ''protected-bundle:decrypt'')"
    unfolding context_of_def using assms
    by (intro strict_json_ordered context_order_distinct)
      (simp_all add: context_order_def js_text_def js_int_def js_is_def js_one_of_def js_digest_json bundleTypes_def
        positiveSafeInteger_ok_def max_safe_integer_def)
qed (use assms in \<open>simp_all add: context_of_def jtext_def\<close>)

subsection \<open>Calls that succeed\<close>

text \<open>What a call consumes is new.\<close>

definition unspent :: "'s service_state \<Rightarrow> (nonce_owner \<times> string) list \<Rightarrow> json key_operation_record \<times> string \<Rightarrow> bool" where
  "unspent st ps auth = (authorization_claims auth \<inter> authorization_used (st_authorizations st) = {}
     \<and> (\<forall>(w, scope)\<in>set ps. scope \<notin> set (nonces_of w st)) \<and> distinct ps)"

lemma unspent_consume: "unspent st ps auth \<Longrightarrow> \<exists>st'. consumeValidatedProofs False ps auth st = (Inr (), st')"
  by (rule consume_succeeds) (auto simp: unspent_def)

context bundle_success
begin

lemma prepare_succeeds:
  assumes ok: "prepare_ok cfg en i" and base: "wf1 (st_world st)" "wf2 (st_world st)" and fresh: "fresh_draws obj1 obj2 st (CallPrepare en i)"
    and new: "jm_get (st_byIdempotency st) (sha256Hex (sl_crypto lib) (pe_idempotencyKey i)) = None"
    and fits: "\<And>r. protectContent (sl_crypto lib) (en_protect en) (protect_of cfg i (sl_crypto lib)) = Inr r
      \<Longrightarrow> length (pc_envelopeBytes r) \<le> limit1"
    and stage: "stageControllerAuthorization (st_keys st) \<lparr>authorizationId = pe_controllerAuthorizationId i,
      auth_envelopeId = en_envelopeId en, auth_keyId = pe_controllerEncryptionKeyId i, auth_state = AStaged\<rparr> = Inr keys"
    and payload: "json_ok (evidence_json (pe_evidencePayload i))"
  shows "\<exists>r w x spki. protectContent (sl_crypto lib) (en_protect en) (protect_of cfg i (sl_crypto lib)) = Inr r
    \<and> wrapDek (sl_crypto lib) (en_wrapIv en) (en_wrapSeed en) (wrap_context i r (en_envelopeId en)) (pc_dek r) (pe_controllerPublicKey i) = Inr w
    \<and> digest_ok (pc_domainPayloadCommitment r) \<and> digest_ok (pc_contentCommitment r) \<and> digest_ok (pc_contentEnvelopeDigest r)
    \<and> bundle_prepare lib cfg en i st = (Inr (publicPreparation (new_record (sl_crypto lib) en i r w spki)),
        add_record (sha256Hex (sl_crypto lib) (pe_idempotencyKey i)) (new_record (sl_crypto lib) en i r w spki)
          (st\<lparr>st_world := x, st_keys := keys\<rparr>))"
proof -
  let ?cr = "sl_crypto lib" and ?p = "protect_of cfg i (sl_crypto lib)"
  have "assertCanonicalDomainPayload ?cr (ci_domainPayload ?p) = Inr ()"
    using payload by (simp add: assertCanonicalDomainPayload_def protect_of_def)
  moreover have "protectedContentAad (jset ''domain_payload_commitment'' (digest_json
      (commitment_digest ?cr DOMAIN_COMMITMENT_DOMAIN (cr_domainSalt (en_protect en)) (ci_domainPayload ?p))) (ci_aad ?p))"
    using aad_accepted [OF ok] by (simp add: protect_of_def commitment_digest_def)
  ultimately obtain r where r: "protectContent ?cr (en_protect en) ?p = Inr r"
    using protect_total [of ?p "en_protect en"] ok by (auto simp: prepare_ok_def protect_of_def)
  have d: "digest_ok (pc_domainPayloadCommitment r)" "digest_ok (pc_contentCommitment r)" "digest_ok (pc_contentEnvelopeDigest r)"
    "length (pc_dek r) = 32"
    using protect_Inr [OF r] by (auto simp: commitment_digest_def)
  obtain w where w: "wrapDek ?cr (en_wrapIv en) (en_wrapSeed en) (wrap_context i r (en_envelopeId en)) (pc_dek r)
      (pe_controllerPublicKey i) = Inr w"
    using wrap_total [OF wrap_context_accepted [OF ok d(1-3)] d(4), of "pe_controllerPublicKey i" "en_wrapIv en" "en_wrapSeed en"] ok fresh
    by (auto simp: prepare_ok_def)
  obtain x where "so_put (bc_primaryStore cfg) (st_world st) (en_stagingObjectId en) [pc_envelopeBytes r]
      = (Inr \<lparr>put_length = length (pc_envelopeBytes r), put_status = Created\<rparr>, x)"
    using primary.src.put_new [OF base(1), of "en_stagingObjectId en" "[pc_envelopeBytes r]"] fresh fits [OF r] by auto
  then have "put_object (bc_primaryStore cfg) (en_stagingObjectId en) (pc_envelopeBytes r) st = (Inr (), st\<lparr>st_world := x\<rparr>)"
    by (simp add: put_object_def)
  moreover have "rsaPublicKeySpkiSha256 ?cr (pe_controllerPublicKey i) = Inr (sha256_of ?cr (ko_spki (pe_controllerPublicKey i)))"
    using ok by (simp add: rsaPublicKeySpkiSha256_def assertRsa3072PublicKey_def prepare_ok_def)
  ultimately have "bundle_prepare lib cfg en i st
      = (Inr (publicPreparation (new_record ?cr en i r w (sha256_of ?cr (ko_spki (pe_controllerPublicKey i))))),
        add_record (sha256Hex ?cr (pe_idempotencyKey i)) (new_record ?cr en i r w (sha256_of ?cr (ko_spki (pe_controllerPublicKey i))))
          (st\<lparr>st_world := x, st_keys := keys\<rparr>))"
    using ok r w stage new by (simp add: bundle_prepare_def prepare_new_def Let_def map_error_def prepare_ok_def parse_with_def)
  then show ?thesis using r w d by blast
qed

lemma open_staged_succeeds:
  assumes k: "kept wf1 wf2 obj1 obj2 (sl_crypto lib) a env dek content st"
    and "wraps (sl_crypto lib) (rc_wrapContext (st_records st ! a)) dek pub (pu_controllerEnvelope (st_records st ! a))" "key_pair pub priv"
  shows "open_staged lib cfg priv (st_records st ! a) st = Inr ()"
proof -
  let ?r = "st_records st ! a"
  have s: "wf1 (st_world st)" "base64Url32_ok (pu_stagingObjectId ?r)" "obj1 (st_world st) (pu_stagingObjectId ?r) = Some env"
    using k by (auto simp: kept_def holds_def stored_def)
  obtain cs where "so_get (bc_primaryStore cfg) (st_world st) (pu_stagingObjectId ?r) = Inr cs" "concat cs = env"
    using primary.src.get [OF s(1,2)] s(3) by auto
  moreover have "unwrapDek (sl_crypto lib) (pu_controllerEnvelope ?r) priv (rc_wrapContext ?r) = Inr dek"
    using wraps_unwrap(1) [OF encryption_axioms] assms(2,3) by blast
  moreover have "openProtectedContent (sl_crypto lib) env dek (rc_aad ?r) (pu_contentCommitment ?r) = Inr (content, pu_domainPayload ?r)"
    using k by (simp add: kept_def holds_def sealed_def)
  ultimately show ?thesis by (simp add: open_staged_def map_error_def)
qed

lemma promote_succeeds:
  assumes k: "kept wf1 wf2 obj1 obj2 (sl_crypto lib) a env dek content st" and "length env \<le> limit1" "\<not> en_promoteTimeout en"
  shows "\<exists>q x. promote_record lib cfg en (st_records st ! a) st = (Inr q, st\<lparr>st_world := x\<rparr>)"
proof -
  let ?r = "st_records st ! a"
  let ?p = "\<lparr>pi_expected = expected_of ?r, destinationObjectId = pu_finalObjectId ?r, sourceObjectId = pu_stagingObjectId ?r\<rparr>"
  have s: "wf1 (st_world st)" "base64Url32_ok (sourceObjectId ?p)" "base64Url32_ok (destinationObjectId ?p)"
    "obj1 (st_world st) (sourceObjectId ?p) = Some env" "matches (object_sha (sl_crypto lib)) (pi_expected ?p) env"
    "obj1 (st_world st) (destinationObjectId ?p) \<in> {None, Some env}"
    using k by (auto simp: kept_def holds_def stored_def sealed_def)
  have "\<exists>q x. promote_locked (object_sha (sl_crypto lib)) (bc_primaryStore cfg) (st_world st) ?p = (Inr q, x)"
    using primary.src.promote_eq [OF s(1-5) assms(2)] s(5,6) by auto
  then show ?thesis using assms(3) by (auto simp: promote_record_def promoteStagedObject_def with_timeout_def map_error_def)
qed

lemma replicate_succeeds:
  assumes k: "kept wf1 wf2 obj1 obj2 (sl_crypto lib) a env dek content st"
    and final: "obj1 (st_world st) (pu_finalObjectId (st_records st ! a)) = Some env"
    and j: "obj2 (st_world st) (en_replicaObjectId en) = None" "base64Url32_ok (en_replicaObjectId en)"
    and "length env \<le> limit2" "\<not> en_replicateTimeout en"
  shows "\<exists>q x f. replicate_if_critical lib cfg en a st = (Inr q, update_record a f (st\<lparr>st_world := x\<rparr>))
    \<and> (f = id \<or> f = (\<lambda>r. r\<lparr>rc_replicaObjectId := Some (en_replicaObjectId en)\<rparr>))"
proof (cases "rc_critical (st_records st ! a)")
  case True
  let ?r = "st_records st ! a"
  have wf: "wf1 (st_world st)" "wf2 (st_world st)" "matches (object_sha (sl_crypto lib)) (expected_of ?r) env"
    "base64Url32_ok (pu_finalObjectId ?r)"
    using k by (auto simp: kept_def holds_def stored_def sealed_def)
  have "readVerified (object_sha (sl_crypto lib)) (bc_primaryStore cfg) (st_world st) (pu_finalObjectId ?r) (expected_of ?r) = Inr env"
    using wf final by (simp add: primary.src.readVerified_Inr_iff)
  moreover obtain t where "put_confirmed (object_sha (sl_crypto lib)) (bc_replicaStore cfg) (st_world st) (en_replicaObjectId en)
      (expected_of ?r) env = (Inr \<lparr>pr_expected = expected_of ?r, pr_status = PCreated\<rparr>, t)"
    using primary.rep.put_confirmed_eq [OF wf(2) j(2) wf(3) assms(5)] j(1) by auto
  ultimately have "replicate_record lib cfg en a st = (Inr \<lparr>pr_expected = expected_of ?r, pr_status = PCreated\<rparr>,
      update_record a (\<lambda>r. r\<lparr>rc_replicaObjectId := Some (en_replicaObjectId en)\<rparr>) (st\<lparr>st_world := t\<rparr>))"
    using assms(6) by (simp add: replicate_record_def replicateExact_def with_timeout_def replicate_object_def update_record_def Let_def map_error_def)
  then show ?thesis using True by (auto simp: replicate_if_critical_def)
next
  case False
  have "update_record a id (st\<lparr>st_world := st_world st\<rparr>) = st" by (simp add: update_record_def)
  then have "replicate_if_critical lib cfg en a st = (Inr None, update_record a id (st\<lparr>st_world := st_world st\<rparr>))"
    using False by (simp add: replicate_if_critical_def)
  then show ?thesis by blast
qed

text \<open>A finalization whose checks pass and whose proofs are new succeeds.\<close>

lemma finalize_succeeds:
  assumes k: "kept wf1 wf2 obj1 obj2 (sl_crypto lib) a env dek content st"
    and c: "finalize_checks lib cfg i st = Inr (a, pend, auth)" and u: "unspent st pend auth"
    and key: "wraps (sl_crypto lib) (rc_wrapContext (st_records st ! a)) dek pub (pu_controllerEnvelope (st_records st ! a))"
      "key_pair pub (fi_controllerPrivateKey i)"
    and fits: "length env \<le> limit1" "length env \<le> limit2"
    and en: "\<not> en_promoteTimeout en" "\<not> en_replicateTimeout en" "\<not> en_repositoryDown en"
      "obj2 (st_world st) (en_replicaObjectId en) = None" "base64Url32_ok (en_replicaObjectId en)"
    and act: "activateControllerAuthorization (st_keys st) (rc_controllerAuthorizationId (st_records st ! a)) = Inr keys"
  shows "\<exists>p q st'. bundle_finalize lib cfg en i st = (Inr (p, q), st') \<and> st_keys st' = keys \<and> st_byBundle st' = st_byBundle st
    \<and> length (st_records st') = length (st_records st) \<and> rc_finalized (st_records st' ! a)
    \<and> record_grows (st_records st ! a) (st_records st' ! a)
    \<and> rc_wrapContext (st_records st' ! a) = rc_wrapContext (st_records st ! a)
    \<and> pu_controllerEnvelope (st_records st' ! a) = pu_controllerEnvelope (st_records st ! a)
    \<and> rc_controllerAuthorizationId (st_records st' ! a) = rc_controllerAuthorizationId (st_records st ! a)"
proof -
  obtain st1 where st1: "consumeValidatedProofs False pend auth st = (Inr (), st1)" using unspent_consume [OF u] by blast
  have fr: "proofs_frame st st1" using consume_Inr [OF st1] by simp
  then have same: "st_records st1 = st_records st" "st_keys st1 = st_keys st" "st_byBundle st1 = st_byBundle st" "st_world st1 = st_world st"
    by (simp_all add: proofs_frame_def)
  have k1: "kept wf1 wf2 obj1 obj2 (sl_crypto lib) a env dek content st1" by (rule kept_same [OF k]) (simp_all add: same)
  have op: "open_staged lib cfg (fi_controllerPrivateKey i) (st_records st ! a) st1 = Inr ()"
    using open_staged_succeeds [OF k1] key by (simp add: same)
  obtain p x where p: "promote_record lib cfg en (st_records st ! a) st1 = (Inr p, st1\<lparr>st_world := x\<rparr>)"
    using promote_succeeds [OF k1 fits(1) en(1)] by (auto simp: same)
  let ?st2 = "st1\<lparr>st_world := x\<rparr>"
  have a: "a < length (st_records st)" using k by (simp add: kept_def holds_def)
  have k2: "kept wf1 wf2 obj1 obj2 (sl_crypto lib) a env dek content ?st2" by (rule kept_promote [OF k1, of a en "Inr p"]) (use a p in \<open>simp_all add: same\<close>)
  have final: "obj1 (st_world ?st2) (pu_finalObjectId (st_records ?st2 ! a)) = Some env"
    by (rule promote_stored [OF k1, of en p]) (use p in \<open>simp add: same\<close>)
  have "obj2 (st_world ?st2) (en_replicaObjectId en) = None"
    using promote_frame [OF p] k en(4) by (simp add: same kept_def)
  then obtain q y f where q: "replicate_if_critical lib cfg en a ?st2 = (Inr q, update_record a f (?st2\<lparr>st_world := y\<rparr>))"
    and f: "f = id \<or> f = (\<lambda>r. r\<lparr>rc_replicaObjectId := Some (en_replicaObjectId en)\<rparr>)"
    using replicate_succeeds [OF k2 final _ en(5) fits(2) en(2)] by blast
  let ?st3 = "update_record a f (?st2\<lparr>st_world := y\<rparr>)"
  have "rc_controllerAuthorizationId (st_records ?st3 ! a) = rc_controllerAuthorizationId (st_records st ! a)"
    using f a by (auto simp: update_record_def same)
  then have "activate_finalized i a ?st3 = (Inr (), mark_finalized i a (?st3\<lparr>st_keys := keys\<rparr>))"
    using act by (simp add: activate_finalized_def map_error_def update_record_def same)
  then have "bundle_finalize lib cfg en i st = (Inr (p, q), mark_finalized i a (?st3\<lparr>st_keys := keys\<rparr>))"
    using c st1 op p q en(3) by (simp add: bundle_finalize_def)
  moreover have "frozen (f r\<lparr>rc_finalized := True\<rparr>) = frozen r" for r using f by (auto simp: frozen_def)
  ultimately show ?thesis
    using f a by (auto simp: mark_finalized_def update_record_def Let_def same record_grows_def)
qed

text \<open>A grant whose checks pass and whose proofs are new succeeds.\<close>

lemma grant_succeeds:
  assumes c: "grant_checks lib cfg i st = Inr (r, spki, pend, auth)" and u: "unspent st pend auth"
    and key: "wraps (sl_crypto lib) (rc_wrapContext r) dek pub (pu_controllerEnvelope r)" "key_pair pub (gi_controllerPrivateKey i)"
    and ctx: "dekWrapContext (recipient_context i r)" "is_rsa3072 (gi_recipientPublicKey i)"
    and en: "\<not> en_repositoryDown en" "length (en_wrapIv en) = 12"
    and prep: "prepareGrant (st_keys st) \<lparr>effectiveAt = gi_effectiveAt i, grant_envelopeId = gi_recipientEnvelopeId i,
        expiresAt = gi_expiresAt i, grantId = gi_grantId i, recipientKeyId = gi_recipientKeyId i, grant_state = GPrepared\<rparr> = Inr keys"
    and act: "key_call keys (ActivateGrant (gi_grantId i) (gi_effectiveAt i) True) = Inr keys'"
  shows "\<exists>st' w. grantRecipient lib cfg en i st = (Inr (), st') \<and> st_keys st' = keys' \<and> st_byBundle st' = st_byBundle st
    \<and> st_records st' = st_records st \<and> st_recipientEnvelopes st' = jm_set (gi_recipientEnvelopeId i)
        (recipient_of i (recipient_context i r) spki w) (st_recipientEnvelopes st)
    \<and> authorization_consume (st_authorizations st) auth = Inr (st_authorizations st')"
proof -
  obtain st1 where st1: "consumeValidatedProofs False pend auth st = (Inr (), st1)" using unspent_consume [OF u] by blast
  have fr: "proofs_frame st st1" "authorization_consume (st_authorizations st) auth = Inr (st_authorizations st1)"
    using consume_Inr [OF st1] by simp_all
  have d: "unwrapDek (sl_crypto lib) (pu_controllerEnvelope r) (gi_controllerPrivateKey i) (rc_wrapContext r) = Inr dek"
    using wraps_unwrap(1) [OF encryption_axioms] key by blast
  have "length dek = 32" using unwrap_sound [OF d] by simp
  then obtain w where w: "wrapDek (sl_crypto lib) (en_wrapIv en) (en_wrapSeed en) (recipient_context i r) dek (gi_recipientPublicKey i) = Inr w"
    using wrap_total [OF ctx(1) _ ctx(2) en(2), of dek "en_wrapSeed en"] by blast
  have "verifyWrappedDekEnvelope (sl_crypto lib) (wd_commitment w) (recipient_context i r) (wd_envelopeBytes w)"
    by (rule wrap_verify [OF w en(2)])
  then have "grantRecipient lib cfg en i st = (Inr (), st1\<lparr>st_recipientEnvelopes :=
      jm_set (gi_recipientEnvelopeId i) (recipient_of i (recipient_context i r) spki w) (st_recipientEnvelopes st1), st_keys := keys'\<rparr>)"
    using c st1 d w en(1) prep act fr(1)
    by (simp add: grantRecipient_def map_error_def proofs_frame_def del: key_call.simps)
  then show ?thesis using fr by (auto simp: proofs_frame_def)
qed

end

context bundle_flow
begin

text \<open>A retrieval whose checks pass and whose authorization is new returns the content.\<close>

lemma retrieve_succeeds:
  assumes k: "kept wf1 wf2 obj1 obj2 (sl_crypto lib) a env dek content st" and f: "rc_finalized (st_records st ! a)"
    and c: "retrieve_checks lib cfg i st = Inr (st_records st ! a, e, auth)" and u: "unspent st [] auth"
    and key: "wraps (sl_crypto lib) (re_context e) dek pub (re_bytes e)" "key_pair pub (rv_recipientPrivateKey i)"
    and en: "\<not> en_repositoryDown en" "\<not> en_fetchTimeout en"
  shows "\<exists>st'. retrieveWithGrant lib cfg en i st = (Inr (content, pu_domainPayload (st_records st ! a), FromPrimary), st')"
proof -
  obtain st1 where st1: "consumeValidatedProofs False [] auth st = (Inr (), st1)" using unspent_consume [OF u] by blast
  have same: "st_records st1 = st_records st" "st_world st1 = st_world st" using consume_Inr [OF st1] by (simp_all add: proofs_frame_def)
  have k1: "kept wf1 wf2 obj1 obj2 (sl_crypto lib) a env dek content st1" by (rule kept_same [OF k]) (simp_all add: same)
  have "open_stored lib cfg en (rv_recipientPrivateKey i) (st_records st ! a) e st1
      = Inr (content, pu_domainPayload (st_records st ! a), FromPrimary)"
    using open_stored_content [OF k1 _ key en(2)] f by (simp add: same)
  then show ?thesis using c st1 en(1) by (simp add: retrieveWithGrant_def)
qed

end

end
