(* ===== verification/Bundle_Once.thy ===== *)
theory Bundle_Once
  imports Bundle_Lemmas
begin

text \<open>
  No key-operation authorization is honoured twice: a call of the evidence bundle service that succeeds had a new
  authorization and leaves it used, whatever kind of operation it was signed for.
\<close>

definition claim_of :: "signed_authorization \<Rightarrow> string \<times> int" where
  "claim_of a = (oc_authorizationId (sa_claims a), oc_authorizationVersion (sa_claims a))"

text \<open>The authorization a call succeeds with, if it needs one.\<close>

fun honoured :: "service_lib \<Rightarrow> 's bundle_config \<Rightarrow> 's service_state \<Rightarrow> service_op \<Rightarrow> (string \<times> int) option" where
  "honoured lib cfg st (CallFinalize en i) =
     (if isl (fst (bundle_finalize lib cfg en i st)) then None else Some (claim_of (fi_keyOperationAuthorization i)))"
| "honoured lib cfg st (CallRotate en i) =
     (if isl (fst (rotateControllerEnvelope lib cfg en i st)) then None else Some (claim_of (ri_keyOperationAuthorization i)))"
| "honoured lib cfg st (CallGrant en i) =
     (if isl (fst (grantRecipient lib cfg en i st)) then None else Some (claim_of (gi_keyOperationAuthorization i)))"
| "honoured lib cfg st (CallRetrieve en i) =
     (if isl (fst (retrieveWithGrant lib cfg en i st)) then None else Some (claim_of (rv_keyOperationAuthorization i)))"
| "honoured lib cfg st _ = None"

fun honoured_in :: "service_lib \<Rightarrow> 's bundle_config \<Rightarrow> 's service_state \<Rightarrow> service_op list \<Rightarrow> (string \<times> int) list" where
  "honoured_in lib cfg st [] = []"
| "honoured_in lib cfg st (x # xs) =
     (case honoured lib cfg st x of None \<Rightarrow> [] | Some c \<Rightarrow> [c]) @ honoured_in lib cfg (service_step lib cfg st x) xs"

definition spent :: "'s service_state \<Rightarrow> string \<times> int \<Rightarrow> bool" where
  "spent st c = (Inl (authorizationKey (fst c) (snd c)) \<in> authorization_used (st_authorizations st))"

lemma consume_spends:
  assumes "prepareKeyOperationAuthorization lib cfg st target a now = Inr auth" and "consumeValidatedProofs d ps auth st = (Inr u, st1)"
  shows "\<not> spent st (claim_of a) \<and> spent st1 (claim_of a)"
proof -
  obtain rec scope where auth: "auth = (rec, scope)" by fastforce
  have "kop_authorization_id rec = oc_authorizationId (sa_claims a)" "kop_authorization_version rec = oc_authorizationVersion (sa_claims a)"
    using prepare_authorization_Inr assms(1) unfolding auth by blast+
  then have "Inl (authorizationKey (fst (claim_of a)) (snd (claim_of a))) \<in> authorization_claims auth"
    by (simp add: auth authorization_claims_def claim_of_def)
  moreover have "authorization_consume (st_authorizations st) auth = Inr (st_authorizations st1)" using consume_Inr [OF assms(2)] by simp
  ultimately show ?thesis using authorizations.consume_Inr unfolding spent_def by blast
qed

lemma replicate_authorizations: "replicate_record lib cfg en a st = (r, t) \<Longrightarrow> st_authorizations t = st_authorizations st"
  by (auto simp: replicate_record_def update_record_def Let_def split: prod.splits)

lemma finalize_authorizations:
  assumes "promote_record lib cfg en r st1 = (Inr p, st2)" "replicate_if_critical lib cfg en a st2 = (Inr q, st3)"
    "activate_finalized i a st3 = (Inr (), st4)"
  shows "st_authorizations st4 = st_authorizations st1"
proof -
  have "st_authorizations st2 = st_authorizations st1" using assms(1) by (auto simp: promote_record_def split: prod.splits)
  moreover have "st_authorizations st3 = st_authorizations st2"
    using assms(2) replicate_authorizations by (auto simp: replicate_if_critical_def outcome_simps split: if_splits)
  moreover have "st_authorizations st4 = st_authorizations st3"
    using assms(3) by (auto simp: activate_finalized_def mark_finalized_def update_record_def Let_def outcome_simps)
  ultimately show ?thesis by simp
qed

lemma spent_cong: "st_authorizations s = st_authorizations t \<Longrightarrow> spent s c = spent t c"
  by (simp add: spent_def)

lemma finalize_spends:
  assumes "bundle_finalize lib cfg en i st = (Inr (p, q), st')"
  shows "\<not> spent st (claim_of (fi_keyOperationAuthorization i)) \<and> spent st' (claim_of (fi_keyOperationAuthorization i))"
proof -
  obtain a pend auth st1 st2 st3 where s: "finalize_checks lib cfg i st = Inr (a, pend, auth)"
    "consumeValidatedProofs (en_repositoryDown en) pend auth st = (Inr (), st1)" "promote_record lib cfg en (st_records st ! a) st1 = (Inr p, st2)"
    "replicate_if_critical lib cfg en a st2 = (Inr q, st3)" "activate_finalized i a st3 = (Inr (), st')"
    using finalize_Inr [OF assms] by blast
  have "\<exists>t. prepareKeyOperationAuthorization lib cfg st t (fi_keyOperationAuthorization i) (fi_now i) = Inr auth"
    using s(1) by (auto simp: finalize_checks_def Let_def outcome_simps)
  then show ?thesis using consume_spends s(2) spent_cong [OF finalize_authorizations [OF s(3-5)]] by blast
qed

lemma rotate_spends:
  assumes "rotateControllerEnvelope lib cfg en i st = (Inr (), st')"
  shows "\<not> spent st (claim_of (ri_keyOperationAuthorization i)) \<and> spent st' (claim_of (ri_keyOperationAuthorization i))"
proof -
  obtain a spki pend auth st1 w keys where s: "rotate_checks lib cfg i st = Inr (a, spki, pend, auth)"
    "consumeValidatedProofs (en_repositoryDown en) pend auth st = (Inr (), st1)" "st' = update_record a (rotate_record i spki w) (st1\<lparr>st_keys := keys\<rparr>)"
    using rotate_Inr [OF assms] by blast
  have "\<exists>t. prepareKeyOperationAuthorization lib cfg st t (ri_keyOperationAuthorization i) (ri_currentTime i) = Inr auth"
    using s(1) by (auto simp: rotate_checks_def Let_def outcome_simps)
  moreover have "spent st' c = spent st1 c" for c by (rule spent_cong) (simp add: s(3) update_record_def)
  ultimately show ?thesis using consume_spends s(2) by blast
qed

lemma grant_spends:
  assumes "grantRecipient lib cfg en i st = (Inr (), st')"
  shows "\<not> spent st (claim_of (gi_keyOperationAuthorization i)) \<and> spent st' (claim_of (gi_keyOperationAuthorization i))"
proof -
  obtain r spki pend auth st1 keys env where s: "grant_checks lib cfg i st = Inr (r, spki, pend, auth)"
    "consumeValidatedProofs (en_repositoryDown en) pend auth st = (Inr (), st1)" "st' = st1\<lparr>st_keys := keys, st_recipientEnvelopes := env\<rparr>"
    using grant_Inr [OF assms] by blast
  have "\<exists>t. prepareKeyOperationAuthorization lib cfg st t (gi_keyOperationAuthorization i) (gi_currentTime i) = Inr auth"
    using s(1) by (auto simp: grant_checks_def Let_def outcome_simps)
  moreover have "spent st' c = spent st1 c" for c by (rule spent_cong) (simp add: s(3))
  ultimately show ?thesis using consume_spends s(2) by blast
qed

lemma retrieve_spends:
  assumes "retrieveWithGrant lib cfg en i st = (Inr y, st')"
  shows "\<not> spent st (claim_of (rv_keyOperationAuthorization i)) \<and> spent st' (claim_of (rv_keyOperationAuthorization i))"
proof -
  obtain r e auth where s: "retrieve_checks lib cfg i st = Inr (r, e, auth)"
    "consumeValidatedProofs (en_repositoryDown en) [] auth st = (Inr (), st')"
    using retrieve_Inr [OF assms] by blast
  have "\<exists>t. prepareKeyOperationAuthorization lib cfg st t (rv_keyOperationAuthorization i) (rv_currentTime i) = Inr auth"
    using s(1) by (auto simp: retrieve_checks_def outcome_simps)
  then show ?thesis using consume_spends s(2) by blast
qed

lemma call_Inr: "\<not> isl (fst m) \<Longrightarrow> \<exists>y. m = (Inr y, snd m)"
  by (cases m; cases "fst m") auto

lemma honoured_spends: "honoured lib cfg st x = Some c \<Longrightarrow> \<not> spent st c \<and> spent (service_step lib cfg st x) c"
  by (cases x) (auto split: if_splits dest!: call_Inr dest: finalize_spends rotate_spends grant_spends retrieve_spends)

lemma spent_step: "service_inv st \<Longrightarrow> spent st c \<Longrightarrow> spent (service_step lib cfg st x) c"
  using good_step [of st lib cfg x] by (auto simp: good_def service_grows_def spent_def)

lemma honoured_in_new: "service_inv st \<Longrightarrow> c \<in> set (honoured_in lib cfg st xs) \<Longrightarrow> \<not> spent st c"
proof (induction xs arbitrary: st)
  case (Cons x xs)
  show ?case
  proof (cases "honoured lib cfg st x = Some c")
    case True
    then show ?thesis using honoured_spends by blast
  next
    case False
    then have "c \<in> set (honoured_in lib cfg (service_step lib cfg st x) xs)" using Cons.prems(2) by (auto split: option.splits)
    then show ?thesis using Cons.IH [OF service.inv_step [OF Cons.prems(1)]] spent_step [OF Cons.prems(1)] by blast
  qed
qed simp

lemma honoured_in_distinct: "service_inv st \<Longrightarrow> distinct (honoured_in lib cfg st xs)"
proof (induction xs arbitrary: st)
  case (Cons x xs)
  have "c \<notin> set (honoured_in lib cfg (service_step lib cfg st x) xs)" if "honoured lib cfg st x = Some c" for c
    using honoured_in_new [OF service.inv_step [OF Cons.prems]] honoured_spends [OF that] by blast
  then show ?case using Cons.IH [OF service.inv_step [OF Cons.prems]] by (auto split: option.splits)
qed simp

end
