(* ===== verification/Json_Instance.thy ===== *)
theory Json_Instance
  imports Json
begin

text \<open>
  A concrete encoder that meets the contract \<open>canonical_codec\<close>: a value is written with sorted keys, every text and every
  list after its length in unary. It stands in for \<open>canonicalize\<close> and \<open>JSON.parse\<close> where a property with the contract as a
  hypothesis is applied to a concrete input.
\<close>

definition enc_nat :: "nat \<Rightarrow> string" where
  "enc_nat n = replicate n CHR ''1'' @ ''0''"

definition enc_text :: "string \<Rightarrow> string" where
  "enc_text s = enc_nat (length s) @ s"

primrec json_text :: "json \<Rightarrow> string" where
  "json_text JNull = ''n''"
| "json_text (JBool b) = (if b then ''t'' else ''f'')"
| "json_text (JNum n) = (if n < 0 then ''-'' else ''+'') @ enc_nat (nat \<bar>n\<bar>)"
| "json_text (JStr s) = ''s'' @ enc_text s"
| "json_text (JArr xs) = ''a'' @ enc_nat (length xs) @ concat (map json_text xs)"
| "json_text (JObj fs) = ''o'' @ enc_nat (length fs) @ concat (map (\<lambda>(k, t). enc_text k @ t) (map (map_prod id json_text) fs))"

fun dec_nat :: "string \<Rightarrow> (nat \<times> string) option" where
  "dec_nat [] = None"
| "dec_nat (c # r) = (if c = CHR ''1'' then map_option (map_prod Suc id) (dec_nat r) else Some (0, r))"

definition dec_string :: "string \<Rightarrow> (string \<times> string) option" where
  "dec_string s = (case dec_nat s of None \<Rightarrow> None | Some (n, r) \<Rightarrow> Some (take n r, drop n r))"

primrec dec_many :: "(string \<Rightarrow> ('a \<times> string) option) \<Rightarrow> nat \<Rightarrow> string \<Rightarrow> ('a list \<times> string) option" where
  "dec_many dec 0 s = Some ([], s)"
| "dec_many dec (Suc n) s = (case dec s of None \<Rightarrow> None
     | Some (x, r) \<Rightarrow> map_option (map_prod ((#) x) id) (dec_many dec n r))"

definition dec_pair :: "(string \<Rightarrow> ('a \<times> string) option) \<Rightarrow> string \<Rightarrow> ((string \<times> 'a) \<times> string) option" where
  "dec_pair dec s = (case dec_string s of None \<Rightarrow> None | Some (k, r) \<Rightarrow> map_option (map_prod (Pair k) id) (dec r))"

fun dec_json :: "nat \<Rightarrow> string \<Rightarrow> (json \<times> string) option" where
  "dec_json (Suc d) (c # r) =
     (if c = CHR ''n'' then Some (JNull, r)
      else if c = CHR ''t'' then Some (JBool True, r)
      else if c = CHR ''f'' then Some (JBool False, r)
      else if c = CHR ''-'' then map_option (map_prod (\<lambda>n. JNum (- int n)) id) (dec_nat r)
      else if c = CHR ''+'' then map_option (map_prod (\<lambda>n. JNum (int n)) id) (dec_nat r)
      else if c = CHR ''s'' then map_option (map_prod JStr id) (dec_string r)
      else case dec_nat r of None \<Rightarrow> None | Some (n, q) \<Rightarrow>
        if c = CHR ''a'' then map_option (map_prod JArr id) (dec_many (dec_json d) n q)
        else map_option (map_prod JObj id) (dec_many (dec_pair (dec_json d)) n q))"
| "dec_json _ _ = None"

definition plain_codec :: json_codec where
  "plain_codec = \<lparr>canonicalize = (\<lambda>v. json_text (json_norm v)),
     json_parse = (\<lambda>s. case dec_json (length s) s of Some (v, []) \<Rightarrow> Some v | _ \<Rightarrow> None)\<rparr>"

subsection \<open>Decoding undoes encoding\<close>

lemma dec_nat_enc [simp]: "dec_nat (enc_nat n @ r) = Some (n, r)"
  by (induction n) (simp_all add: enc_nat_def)

lemma dec_string_enc [simp]: "dec_string (enc_text s @ r) = Some (s, r)"
  by (simp add: dec_string_def enc_text_def)

lemma dec_many_enc:
  "(\<And>x r. x \<in> set xs \<Longrightarrow> dec (enc x @ r) = Some (x, r)) \<Longrightarrow>
     dec_many dec (length xs) (concat (map enc xs) @ r) = Some (xs, r)"
  by (induction xs) simp_all

lemma length_member_concat: "x \<in> set xs \<Longrightarrow> length (f x) \<le> length (concat (map f xs))"
  by (induction xs) auto

lemma dec_json_text: "length (json_text v) \<le> d \<Longrightarrow> dec_json d (json_text v @ r) = Some (v, r)"
proof (induction v arbitrary: d r)
  case (JArr xs)
  obtain e where d: "d = Suc e" using JArr.prems by (cases d) auto
  have "dec_json e (json_text x @ r) = Some (x, r)" if "x \<in> set xs" for x r
    using JArr.IH [OF that] length_member_concat [OF that, of json_text] JArr.prems d by simp
  then show ?case by (simp add: d dec_many_enc)
next
  case (JObj fs)
  obtain e where d: "d = Suc e" using JObj.prems by (cases d) auto
  let ?enc = "\<lambda>p. enc_text (fst p) @ json_text (snd p)"
  have enc: "concat (map (\<lambda>(k, t). enc_text k @ t) (map (map_prod id json_text) fs)) = concat (map ?enc fs)"
    by (simp add: comp_def case_prod_unfold)
  have "dec_pair (dec_json e) (?enc p @ r) = Some (p, r)" if p: "p \<in> set fs" for p r
  proof -
    have "dec_json e (json_text (snd p) @ r) = Some (snd p, r)"
      using JObj.IH [OF p, of "snd p" e r] length_member_concat [OF p, of ?enc] JObj.prems d enc
      by (cases p) (simp add: snds.simps)
    then show ?thesis by (simp add: dec_pair_def)
  qed
  then show ?case using enc by (simp add: d dec_many_enc)
qed (auto simp: Suc_le_eq dest: less_imp_Suc_add split: if_splits)

lemma dec_json_all: "dec_json (length (json_text v)) (json_text v) = Some (v, [])"
  using dec_json_text [of v "length (json_text v)" "[]"] by simp

subsection \<open>Normal forms\<close>

lemma js_sort_map_prod: "js_sort key_le (map (map_prod id f) xs) = map (map_prod id f) (js_sort key_le xs)"
proof -
  have "js_insert key_le (map_prod id f x) (map (map_prod id f) xs) = map (map_prod id f) (js_insert key_le x xs)" for x xs
    by (induction xs) (auto simp: key_le_def)
  then show ?thesis by (induction xs) (simp_all add: js_sort_def)
qed

lemma js_sort_sorted: "sorted_wrt key_le xs \<Longrightarrow> js_sort key_le xs = xs"
proof (induction xs)
  case (Cons x xs)
  then show ?case by (cases xs) (auto simp: js_sort_def)
qed (simp add: js_sort_def)

lemma js_sort_twice: "js_sort key_le (js_sort key_le xs) = js_sort key_le xs"
proof (rule js_sort_sorted, rule sorted_wrt_js_sort)
  show "\<And>a b. \<not> key_le a b \<Longrightarrow> key_le b a" using str_le_total by (auto simp: key_le_def)
  show "\<And>a b c. key_le a b \<Longrightarrow> key_le b c \<Longrightarrow> key_le a c" using str_le_trans by (auto simp: key_le_def)
qed

lemma json_norm_twice [simp]: "json_norm (json_norm v) = json_norm v"
proof (induction v)
  case (JObj fs)
  have "map_prod id (json_norm \<circ> json_norm) p = map_prod id json_norm p" if "p \<in> set fs" for p
    using JObj [OF that] by (cases p) (simp add: snds.simps)
  then have "map (map_prod id (json_norm \<circ> json_norm)) fs = map (map_prod id json_norm) fs" by simp
  moreover have "map (map_prod id json_norm) (map (map_prod id json_norm) fs) = map (map_prod id (json_norm \<circ> json_norm)) fs"
    by (simp add: map_prod.comp)
  ultimately have "map (map_prod id json_norm) (map (map_prod id json_norm) fs) = map (map_prod id json_norm) fs" by simp
  then show ?case by (simp only: json_norm.simps js_sort_map_prod [symmetric] js_sort_twice)
qed simp_all

interpretation plain: canonical_codec plain_codec
  by unfold_locales (simp_all add: plain_codec_def dec_json_all)

end
