(* ===== verification/Encryption_Instance.thy ===== *)
theory Encryption_Instance
  imports Encryption Json_Instance
begin

text \<open>
  A concrete record \<open>crypto\<close> that meets the contract \<open>encryption\<close>, for the properties that have the contract as a
  hypothesis. A checksum takes the place of SHA-256 and of the authentication tags; the text is not hidden, since the
  contract asks only that an envelope opens for whom it was made.
\<close>

definition plain_hash :: "bytes \<Rightarrow> bytes" where
  "plain_hash bs = replicate 28 0 @ map (\<lambda>i. of_nat (unat (foldl (\<lambda>h b. 31 * h + ucast b) 7 bs :: 32 word) div 256 ^ i)) [3, 2, 1, 0]"

definition plain_tag :: "bytes \<Rightarrow> bytes" where
  "plain_tag bs = drop 16 (plain_hash bs)"

definition plain_jwe :: "json \<Rightarrow> bytes \<Rightarrow> bytes \<Rightarrow> bytes \<Rightarrow> string \<Rightarrow> bytes \<Rightarrow> jwe" where
  "plain_jwe h aad iv p ek tag = \<lparr>jw_protected = base64url_encode (canonicalJsonBytes plain_codec h), jw_aad = base64url_encode aad,
     jw_encrypted_key = ek, jw_iv = base64url_encode iv, jw_ciphertext = base64url_encode p, jw_tag = base64url_encode tag\<rparr>"

definition plain_open :: "jwe \<Rightarrow> bytes \<Rightarrow> bytes option" where
  "plain_open j key = (let p = base64url_decode (jw_ciphertext j) in
     if jw_tag j = base64url_encode (plain_tag (key @ base64url_decode (jw_aad j) @ p)) then Some p else None)"

definition plain_crypto :: crypto where
  "plain_crypto = \<lparr>cr_codec = plain_codec, cr_sha256 = plain_hash,
     jo_encrypt = (\<lambda>h aad iv dek p. Some (plain_jwe h aad iv p [] (plain_tag (dek @ aad @ p)))),
     jo_decrypt = plain_open,
     jo_encrypt_to = (\<lambda>h aad iv pub seed p. Some (plain_jwe h aad iv p (base64url_encode (replicate 384 0))
       (plain_tag (ko_spki pub @ aad @ p)))),
     jo_decrypt_with = (\<lambda>j priv. if ko_private priv then plain_open j (ko_spki priv) else None),
     cr_sign = (\<lambda>priv salt d. replicate 352 0 @ plain_hash (ko_spki priv @ d)),
     cr_verify = (\<lambda>pub d s. s = replicate 352 0 @ plain_hash (ko_spki pub @ d))\<rparr>"

lemma plain_lengths [simp]: "length (plain_hash bs) = 32" "length (plain_tag bs) = 16"
  by (simp_all add: plain_hash_def plain_tag_def)

lemma plain_envelope: "length t = 16 \<Longrightarrow> envelope_of plain_crypto h aad iv (length p) (plain_jwe h aad iv p ek t)"
  by (auto simp: envelope_of_def plain_jwe_def canonical_def plain_crypto_def)

lemma plain_jwe_key [simp]: "jw_encrypted_key (plain_jwe h aad iv p ek t) = ek"
  by (simp add: plain_jwe_def)

lemma plain_open_Some: "plain_open (plain_jwe h aad iv p ek t) key = Some q \<Longrightarrow> q = p"
  by (auto simp: plain_open_def plain_jwe_def base64url_roundtrip Let_def split: if_splits)

lemma plain_open_own: "plain_open (plain_jwe h aad iv p ek (plain_tag (key @ aad @ p))) key = Some p"
  by (simp add: plain_open_def plain_jwe_def base64url_roundtrip Let_def)

lemma plain_crypto_encryption: "encryption plain_crypto"
proof unfold_locales
  show "canonicalize (cr_codec plain_crypto) (json_norm v) = canonicalize (cr_codec plain_crypto) v" for v
    by (simp add: plain_crypto_def plain.canon_norm)
  show "json_ok v \<Longrightarrow> json_parse (cr_codec plain_crypto) (canonicalize (cr_codec plain_crypto) v) = Some (json_norm v)" for v
    by (simp add: plain_crypto_def plain.parse_canon)
  show "length (cr_sha256 plain_crypto bs) = 32" for bs by (simp add: plain_crypto_def)
  show "length (cr_sign plain_crypto priv salt d) = 384" for priv salt d by (simp add: plain_crypto_def)
  show "key_pair pub priv \<Longrightarrow> cr_verify plain_crypto pub d (cr_sign plain_crypto priv salt d)" for pub priv d salt
    by (simp add: plain_crypto_def key_pair_def)
  show "\<exists>j. jo_encrypt plain_crypto protectedContentHeader aad iv dek p = Some j
      \<and> envelope_of plain_crypto protectedContentHeader aad iv (length p) j \<and> jw_encrypted_key j = []
      \<and> jo_decrypt plain_crypto j dek = Some p" for aad iv dek p
    using plain_envelope [of "plain_tag (dek @ aad @ p)" protectedContentHeader aad iv p "[]"]
    by (simp add: plain_crypto_def plain_open_own)
  show "\<exists>j. jo_encrypt_to plain_crypto (dek_header kid) aad iv pub seed p = Some j
      \<and> envelope_of plain_crypto (dek_header kid) aad iv (length p) j
      \<and> (\<exists>k. length k = 384 \<and> jw_encrypted_key j = base64url_encode k)
      \<and> (\<forall>priv. key_pair pub priv \<longrightarrow> jo_decrypt_with plain_crypto j priv = Some p)
      \<and> (\<forall>priv q. jo_decrypt_with plain_crypto j priv = Some q \<longrightarrow> q = p)" for kid aad iv pub seed p
    using plain_envelope [of "plain_tag (ko_spki pub @ aad @ p)" "dek_header kid" aad iv p "base64url_encode (replicate 384 0)"]
      plain_open_own
    by (simp add: plain_crypto_def key_pair_def)
      (auto dest: plain_open_Some intro: exI [of _ "replicate 384 0"] split: if_splits)
qed

interpretation plain_enc: encryption plain_crypto
  by (rule plain_crypto_encryption)

end
