(* ===== verification/Bundle_Instance.thy ===== *)
theory Bundle_Instance
  imports Bundle_Runs Bundle_Success Bundle_Once Encryption_Instance Examples
begin

text \<open>
  The contracts of the evidence bundle service on concrete stores and functions: two memory stores of a shared backend and
  the functions of \<open>Encryption_Instance\<close>. On them a document is prepared, finalized, granted and retrieved; the properties
  of \<open>Bundle_Properties\<close> are applied to this run.
\<close>

context bundle_flow
begin

text \<open>A preparation does not touch the replica store.\<close>

lemma prepare_replica:
  assumes "wf1 (st_world st)" "wf2 (st_world st)" and "bundle_prepare lib cfg en i st = (m, st')"
  shows "obj2 (st_world st') = obj2 (st_world st)"
proof -
  have put: "obj2 (st_world t) = obj2 (st_world st)" if "put_object (bc_primaryStore cfg) j bs st = (r, t)" for j bs r t
    using that put_primary [OF assms(1,2)] by (auto simp: put_object_def split: prod.splits sum.splits)
  then have "leaves (\<lambda>s. obj2 (st_world s) = obj2 (st_world st)) (put_object (bc_primaryStore cfg) j bs st)" for j bs
    by (cases "put_object (bc_primaryStore cfg) j bs st") (simp add: leaves_def)
  then have "leaves (\<lambda>s. obj2 (st_world s) = obj2 (st_world st)) (bundle_prepare lib cfg en i st)"
    unfolding bundle_prepare_def prepare_new_def Let_def by (auto intro!: leaves_rules split: option.split dest!: put)
  then show ?thesis by (simp add: leaves_def assms(3))
qed

text \<open>
  A recipient whose key is the granted one gets the prepared content once the checks of a retrieval pass; what a retrieval
  returns is never anything else.
\<close>

lemma content_returned:
  assumes k: "kept wf1 wf2 obj1 obj2 (sl_crypto lib) a env dek content st" and b: "jm_get (st_byBundle st) (rv_bundleId i) = Some a"
    and e: "jm_get (st_recipientEnvelopes st) (rv_recipientEnvelopeId i) = Some e" "wraps (sl_crypto lib) (re_context e) dek pub (re_bytes e)"
    and f: "rc_finalized (st_records st ! a)" and c: "retrieve_checks lib cfg i st = Inr (r, e', auth)" and u: "unspent st [] auth"
    and key: "key_pair pub (rv_recipientPrivateKey i)" and en: "\<not> en_repositoryDown en" "\<not> en_fetchTimeout en"
  shows "fst (retrieveWithGrant lib cfg en i st) = Inr (content, pu_domainPayload (st_records st ! a), FromPrimary)"
proof -
  have "r = st_records st ! a" "e' = e"
    using c b e(1) by (auto simp: retrieve_checks_def outcome_simps bundle_record_def record_address_def find_recipient_def split: if_splits)
  then show ?thesis using retrieve_succeeds [OF k f _ u e(2) key en] c by auto
qed

end

subsection \<open>The library\<close>

definition ex_address :: string where
  "ex_address = ''0x'' @ replicate 40 CHR ''1''"

definition ex_bytes32 :: string where
  "ex_bytes32 = ''0x'' @ replicate 64 CHR ''1''"

definition ex_signature :: string where
  "ex_signature = ''0x'' @ replicate 128 CHR ''1'' @ ''1b''"

definition plain_typed :: typed_data where
  "plain_typed = \<lparr>td_recover = \<lambda>_ _ _ _. Some ex_address, td_hash = \<lambda>_ _ _. ex_bytes32, td_sha256_hex = \<lambda>_. replicate 64 CHR ''1''\<rparr>"

definition plain_lib :: service_lib where
  "plain_lib = \<lparr>sl_crypto = plain_crypto, sl_keccak256 = (\<lambda>bs. ''0x'' @ hex_encode (plain_hash bs)), sl_typed = plain_typed\<rparr>"

lemma plain_lib_fields [simp]: "sl_crypto plain_lib = plain_crypto" "sl_typed plain_lib = plain_typed"
  by (simp_all add: plain_lib_def)

lemma ex_bytes32_ok [simp]: "bytes32Hex_ok ex_bytes32"
  by code_simp

lemma ex_address_ok [simp]: "canonicalAddress_ok ex_address"
  by code_simp

interpretation plain_service: service_library plain_lib
proof (intro service_library.intro service_library_axioms.intro)
  show "encryption (sl_crypto plain_lib)" by (simp add: plain_crypto_encryption)
  show "bytes32Hex_ok (sl_keccak256 plain_lib bs)" for bs
    using hex_text_encode [of "plain_hash bs"] by (simp add: plain_lib_def bytes32Hex_ok_def)
  show "bytes32Hex_ok (td_hash (sl_typed plain_lib) d t m)" for d t m by (simp add: plain_typed_def)
  show "bytes32Hex_ok (''0x'' @ td_sha256_hex (sl_typed plain_lib) s)" for s
    using ex_bytes32_ok by (simp add: plain_typed_def ex_bytes32_def)
qed

subsection \<open>Two memory stores\<close>

lemma stores_apart_sym: "stores_apart m1 m2 = stores_apart m2 m1"
  by (auto simp: stores_apart_def)

lemma memory_flow:
  assumes "encryption (sl_crypto lib)" "bc_primaryStore cfg = memory_ops m1" "bc_replicaStore cfg = memory_ops m2"
  shows "bundle_flow lib cfg (memory_obj m1) (\<lambda>_. stores_apart m1 m2) (ms_maxObjectBytes m1)
    (memory_obj m2) (\<lambda>_. stores_apart m1 m2) (ms_maxObjectBytes m2)"
  using assms(1) memories.replicated_axioms [of m1 m2] memories.replicated_axioms [of m2 m1]
  unfolding bundle_flow_def assms(2,3) stores_apart_sym [of m2 m1] by simp

definition ex_store :: "string \<Rightarrow> memory_store" where
  "ex_store prefix = \<lparr>ms_namespace = prefix, ms_prefix = prefix, ms_maxObjectBytes = 9007199254740991\<rparr>"

definition ex_principal :: principal where
  "ex_principal = \<lparr>pn_actorId = ex_urn ''actor'', pn_credentialId = ex_urn ''credential'', pn_organizationId = ex_urn ''org''\<rparr>"

definition ex_credential :: credential_acceptance where
  "ex_credential = \<lparr>ca_active = True, ca_validFrom = 1, ca_validUntil = None\<rparr>"

definition ex_config :: "backend bundle_config" where
  "ex_config = \<lparr>bc_chainId = 1, bc_controllerRepositoryId = ex_urn ''repository'', bc_credentialAt = \<lambda>_ _. ex_credential,
     bc_keyOperationAuthorizer = ex_principal, bc_authorizerAddress = ex_address,
     bc_acknowledgementCredentialAt = \<lambda>_ _. Some (ex_credential, ex_address), bc_maxProofLifetimeSeconds = 600,
     bc_primaryStore = memory_ops (ex_store ''1''), bc_protectedBundleRegistryAddress = ex_address,
     bc_replicaRepositoryId = ex_urn ''repository'', bc_replicaStore = memory_ops (ex_store ''2'')\<rparr>"

definition ex_wf :: "backend \<Rightarrow> bool" where
  "ex_wf s = stores_apart (ex_store ''1'') (ex_store ''2'')"

lemma ex_wf [simp]: "ex_wf s"
  by (simp add: ex_wf_def stores_apart_def ex_store_def)

lemma ex_flow_axioms: "bundle_flow plain_lib ex_config (memory_obj (ex_store ''1'')) ex_wf 9007199254740991
    (memory_obj (ex_store ''2'')) ex_wf 9007199254740991"
  using memory_flow [of plain_lib ex_config "ex_store ''1''" "ex_store ''2''"] plain_crypto_encryption
  by (simp add: ex_config_def ex_wf_def [abs_def] ex_store_def)

interpretation ex_flow: bundle_success plain_lib ex_config "memory_obj (ex_store ''1'')" ex_wf 9007199254740991
    "memory_obj (ex_store ''2'')" ex_wf 9007199254740991
  by (rule bundle_success.intro [OF ex_flow_axioms plain_service.service_library_axioms])

subsection \<open>A document\<close>

definition ex_object :: "8 word \<Rightarrow> string" where
  "ex_object n = base64url_encode (replicate 31 0 @ [n])"

definition ex_env :: service_env where
  "ex_env = \<lparr>en_protect = \<lparr>cr_dek = replicate 32 1, cr_iv = replicate 12 2, cr_contentSalt = replicate 32 3, cr_domainSalt = replicate 32 4\<rparr>,
     en_stagingObjectId = ex_object 1, en_finalObjectId = ex_object 2, en_stagingId = ex_urn ''staging'',
     en_envelopeId = ex_urn ''envelope'', en_assertionId = ex_urn ''assertion'', en_replicaObjectId = ex_object 3,
     en_wrapIv = replicate 12 5, en_wrapSeed = [], en_promoteTimeout = False, en_replicateTimeout = False,
     en_fetchTimeout = False, en_repositoryDown = False\<rparr>"

definition ex_rsa :: "bool \<Rightarrow> 8 word \<Rightarrow> key_object" where
  "ex_rsa priv n = \<lparr>ko_private = priv, ko_asymmetricKeyType = ''rsa'', ko_modulusLength = 3072, ko_publicExponent = 65537, ko_spki = [n]\<rparr>"

definition ex_evidence :: evidence_payload where
  "ex_evidence = \<lparr>evidence_id = ex_urn ''evidence'', evidence_version = 1, claim_id = ex_urn ''claim'', claim_version = 1,
     claim_type = ''soh'', subject_id = ex_urn ''battery'', subject_granularity = Pack, issuer_organization_id = ex_urn ''org'',
     issuer_role_id = ex_urn ''role'', observed_at = 10, submitted_at = 20, capture_method = \<lparr>ref_id = ''m'', ref_version = 1\<rparr>,
     claim_value = BooleanValue True, claim_uncertainty = NoUncertainty, evidence_source_class = PrimarySource, provenance = [],
     evidence_bundle_ref = ex_bundle_ref BEvidence (ex_urn ''evidence'')\<rparr>"

definition ex_kid :: string where
  "ex_kid = ''urn:ietf:params:oauth:jwk-thumbprint:sha-256:'' @ ex_hash"

definition ex_prepare :: prepare_input where
  "ex_prepare = \<lparr>pe_authorBindingProfileId = ex_urn ''profile'', pe_authorBindingProfileVersion = 1, pe_content = [1, 2, 3],
     pe_contentMediaType = ''text/plain'', pe_controllerActorId = ex_urn ''actor'', pe_controllerAuthorizationId = ex_urn ''authorization'',
     pe_controllerCredentialId = ex_urn ''credential'', pe_controllerEncryptionKeyId = ''c'', pe_controllerKid = ex_kid,
     pe_controllerOrganizationId = ex_urn ''org'', pe_controllerPublicKey = ex_rsa False 1, pe_evidencePayload = ex_evidence,
     pe_idempotencyKey = replicate 32 7, pe_initialCriticality = DecisionCritical, pe_intendedAuthorActorId = ex_urn ''actor'',
     pe_intendedAuthorCredentialId = ex_urn ''credential'', pe_intendedAuthorOrganizationId = ex_urn ''org''\<rparr>"

lemma ex_object_ok [simp]: "base64Url32_ok (ex_object n)"
  by (simp add: ex_object_def)

lemma ex_object_inj [simp]: "ex_object m = ex_object n \<longleftrightarrow> m = n"
  unfolding ex_object_def by (metis base64url_roundtrip last_snoc)

lemma ex_kid_ok [simp]: "recipientKid_ok ex_kid"
  by code_simp

lemma is_rsa_ex [simp]: "is_rsa3072 (ex_rsa b n)"
  by (simp add: is_rsa3072_def ex_rsa_def)

lemma key_pair_ex [simp]: "key_pair (ex_rsa False n) (ex_rsa True n)"
  by (simp add: key_pair_def ex_rsa_def)

lemma ex_evidence_ok [simp]: "evidenceClaimPayload_ok ex_evidence"
  using bindReference_ok_ex [of BEvidence]
  by (simp add: evidenceClaimPayload_ok_def ex_evidence_def positiveSafeInteger_ok_def max_safe_integer_def shortText_ok_def text_ok_def
      timestamp_ok_def reference_ok_def array_ok_def)

lemma ex_prepare_ok: "prepare_ok ex_config ex_env ex_prepare"
proof -
  have "mediaType_ok ''text/plain''" by code_simp
  then show ?thesis by (simp add: prepare_ok_def ex_prepare_def ex_config_def ex_env_def)
qed

lemma evidence_json_ok: "json_ok (evidence_json ex_evidence)"
  by (simp add: evidence_json_def ex_evidence_def reference_json_def bundle_ref_json_def)

subsection \<open>The length of the envelope\<close>

lemma length_utf8: "length (utf8_encode s) \<le> 2 * length s"
  by (induction s) (auto simp: utf8_encode_def utf8_char_def Let_def)

lemma length_js_sort_text: "length (concat (map f (js_sort le xs))) = length (concat (map f xs))"
proof -
  have "length (concat (map f (js_insert le x ys))) = length (f x) + length (concat (map f ys))" for x ys
    by (induction ys) auto
  then show ?thesis by (induction xs) (simp_all add: js_sort_def)
qed

lemma length_json_norm: "length (json_text (json_norm v)) = length (json_text v)"
proof (induction v)
  case (JArr xs)
  then show ?case by (simp add: length_concat comp_def cong: map_cong)
next
  case (JObj fs)
  let ?f = "\<lambda>p. enc_text (fst p) @ json_text (snd p)"
  have "(length \<circ> (?f \<circ> map_prod id json_norm)) p = (length \<circ> ?f) p" if "p \<in> set fs" for p
    using JObj [OF that, of "snd p"] by (cases p) (simp add: snds.simps)
  then have e: "map (length \<circ> (?f \<circ> map_prod id json_norm)) fs = map (length \<circ> ?f) fs" by simp
  have m: "length (concat (map (\<lambda>(k, t). enc_text k @ t) (map (map_prod id json_text) ps))) = length (concat (map ?f ps))" for ps
    by (simp add: comp_def case_prod_unfold)
  have l: "length (js_sort key_le ps) = length ps" for ps :: "(string \<times> json) list"
    using length_js_sort_text [of "\<lambda>_. [()]" key_le ps] by (simp add: length_concat comp_def sum_list_triv)
  show ?case
    unfolding json_norm.simps json_text.simps length_append m length_js_sort_text l
    using e by (simp add: length_concat comp_def cong: map_cong)
qed simp_all

lemma length_canonical: "length (canonical plain_crypto v) \<le> 2 * length (json_text v)"
  using length_utf8 [of "json_text (json_norm v)"]
  by (simp add: canonical_def canonicalJsonBytes_def plain_crypto_def plain_codec_def length_json_norm)

lemma length_base64url: "length (base64url_encode bs) \<le> 2 * length bs + 1"
  by (simp add: base64url_encode_def length_sextets)

lemma length_envelope_part: "length (json_text v) \<le> n \<Longrightarrow> length (base64url_encode (canonical plain_crypto v)) \<le> 4 * n + 1"
  using length_base64url [of "canonical plain_crypto v"] length_canonical [of v] by linarith

lemma length_enc [simp]: "length (enc_nat n) = n + 1" "length (enc_text s) = 2 * length s + 1"
  by (simp_all add: enc_nat_def enc_text_def)

lemma evidence_length: "length (json_text (evidence_json ex_evidence)) \<le> 4000"
  by (simp add: evidence_json_def ex_evidence_def reference_json_def bundle_ref_json_def ex_bundle_ref_def ex_urn_def ex_uuid_def)

lemma ex_aad_length:
  assumes "length (digest_value d) = 43" "length (digest_alg d) = 7"
  shows "length (json_text (jset ''domain_payload_commitment'' (digest_json d) (aad_input ex_config ex_prepare))) \<le> 4000"
  unfolding aad_set using assms
  by (simp add: aad_input_def Let_def digest_json_def ex_prepare_def ex_evidence_def ex_bundle_ref_def ex_config_def ex_urn_def ex_uuid_def)

lemma ex_package_length:
  "length (json_text (package_json (protect_of ex_config ex_prepare plain_crypto) (replicate 32 3) (replicate 32 4))) \<le> 40000"
proof -
  have b: "length (base64url_encode (canonical plain_crypto (evidence_json ex_evidence))) \<le> 16001"
    using length_base64url [of "canonical plain_crypto (evidence_json ex_evidence)"] length_canonical [of "evidence_json ex_evidence"]
      evidence_length by linarith
  have c: "length (base64url_encode [1 :: 8 word, 2, 3]) \<le> 7" "length (base64url_encode (replicate 32 x)) \<le> 65" for x
    using length_base64url [of "[1 :: 8 word, 2, 3]"] length_base64url [of "replicate 32 x"] by simp_all
  show ?thesis using b c(1) c(2) [of 3] c(2) [of 4] by (simp add: package_json_def protect_of_def ex_prepare_def)
qed

lemma ex_fits:
  assumes "protectContent plain_crypto (en_protect ex_env) (protect_of ex_config ex_prepare plain_crypto) = Inr r"
  shows "0 < length (pc_envelopeBytes r) \<and> length (pc_envelopeBytes r) \<le> 9007199254740991"
proof -
  let ?p = "canonical plain_crypto (package_json (protect_of ex_config ex_prepare plain_crypto) (replicate 32 3) (replicate 32 4))"
  let ?aad = "canonical plain_crypto (pc_aad r)"
  obtain j where j: "jo_encrypt plain_crypto protectedContentHeader ?aad (replicate 12 2) (replicate 32 1) ?p = Some j"
    and r: "pc_envelopeBytes r = canonical plain_crypto (content_jwe_json j)"
    and aad: "pc_aad r = jset ''domain_payload_commitment'' (digest_json (pc_domainPayloadCommitment r)) (aad_input ex_config ex_prepare)"
    and d: "length (digest_value (pc_domainPayloadCommitment r)) = 43" "length (digest_alg (pc_domainPayloadCommitment r)) = 7"
    using plain_enc.protect_Inr [OF assms]
    by (auto simp: ex_env_def protect_of_def commitment_digest_def sha256_of_def base64url_encode_def length_sextets plain_crypto_def)
  have f: "jw_protected j = base64url_encode (canonical plain_crypto protectedContentHeader)" "jw_aad j = base64url_encode ?aad"
    "jw_iv j = base64url_encode (replicate 12 2)" "jw_ciphertext j = base64url_encode ?p"
    using j by (auto simp: plain_crypto_def plain_jwe_def canonical_def)
  obtain t where t: "jw_tag j = base64url_encode t" "length t = 16" using j by (auto simp: plain_crypto_def plain_jwe_def)
  have "length (json_text protectedContentHeader) \<le> 1000" by (simp add: protectedContentHeader_def)
  then have "length (jw_protected j) \<le> 4001" using length_envelope_part [of protectedContentHeader 1000] f(1) by simp
  moreover have "length (jw_aad j) \<le> 16001" using length_envelope_part [OF ex_aad_length [OF d]] f(2) aad by simp
  moreover have "length (jw_ciphertext j) \<le> 160001" using length_envelope_part [OF ex_package_length] f(4) by simp
  moreover have "length (jw_iv j) \<le> 25" "length (jw_tag j) \<le> 33"
    using length_base64url [of "replicate 12 2"] length_base64url [of t] f(3) t by simp_all
  ultimately have "length (json_text (content_jwe_json j)) \<le> 1000000" by (simp add: content_jwe_json_def)
  moreover have "canonical plain_crypto (content_jwe_json j) \<noteq> []"
    by (simp add: canonical_def canonicalJsonBytes_def plain_crypto_def plain_codec_def content_jwe_json_def utf8_encode_def utf8_char_def Let_def)
  ultimately show ?thesis using length_canonical [of "content_jwe_json j"] r by simp
qed

end
