(* ===== verification/Bundle_Example.thy ===== *)
theory Bundle_Example
  imports Bundle_Instance
begin

text \<open>
  A run of the evidence bundle service on the concrete library and stores of \<open>Bundle_Instance\<close>: a document is
  prepared, finalized, granted and retrieved. Everybody signs the messages the service hands out, so by the
  lemmas of \<open>Bundle_Acceptance\<close> and \<open>Bundle_Success\<close> every call succeeds.
\<close>

subsection \<open>Proofs\<close>

definition ex_nonce :: "8 word \<Rightarrow> string" where
  "ex_nonce n = ''0x'' @ hex_encode (replicate 31 0 @ [n])"

definition ex_claims :: "int \<Rightarrow> operation_claims" where
  "ex_claims v = \<lparr>oc_authorizationId = ex_urn ''authorization'', oc_authorizationVersion = v, oc_policyId = ex_urn ''policy'',
     oc_policyVersion = 1, oc_purposeId = ex_urn ''policy'', oc_requester = ex_principal\<rparr>"

definition ex_window :: "int \<Rightarrow> authorization_window" where
  "ex_window v = \<lparr>pw_expiresAt = 150, pw_issuedAt = 50, pw_nonce = ex_nonce (of_int v), pw_idempotencyKeyHash = ex_bytes32\<rparr>"

definition ex_signed :: "message \<Rightarrow> service_proof" where
  "ex_signed m = \<lparr>sv_message = m, sv_signature = ex_signature\<rparr>"

definition ex_authorize :: "'s service_state \<Rightarrow> operation_target \<Rightarrow> int \<Rightarrow> signed_authorization" where
  "ex_authorize st target v = \<lparr>sa_claims = ex_claims v, sa_proof = ex_signed (case keyOperationBinding plain_lib st target of
     Inl e \<Rightarrow> [] | Inr b \<Rightarrow> authorization_message plain_lib ex_config b (ex_claims v) (ex_window v))\<rparr>"

definition ex_scope :: "int \<Rightarrow> string" where
  "ex_scope v = nonceScope KeyOperationAuthorization (idHash plain_lib (ex_urn ''credential'')) (ex_nonce (of_int v))"

definition ex_spends :: "int \<Rightarrow> (string + string) set" where
  "ex_spends v = {Inl (authorizationKey (ex_urn ''authorization'') v), Inr (ex_scope v)}"

lemma ex_nonce_ok [simp]: "bytes32Hex_ok (ex_nonce n)"
  using hex_text_encode [of "replicate 31 0 @ [n]"] by (simp add: ex_nonce_def bytes32Hex_ok_def)

lemma ex_window_ok:
  "pw_issuedAt w = 50 \<Longrightarrow> pw_expiresAt w = 150 \<Longrightarrow> bytes32Hex_ok (pw_nonce w) \<Longrightarrow> window_ok ex_config 100 w"
  by (simp add: window_ok_def ex_config_def positiveSafeInteger_ok_def max_safe_integer_def)

lemma ex_signed_by: "signed_by plain_lib ex_config name ty ex_address (ex_signed m)"
proof -
  have "validateCanonicalSignature ex_signature = Inr ex_signature" by code_simp
  moreover have "map to_lower_char ex_address = ex_address" by code_simp
  ultimately show ?thesis by (simp add: signed_by_def ex_signed_def plain_typed_def)
qed

lemma ex_domain_ok: "domain_ok ex_config"
  by (simp add: domain_ok_def ex_config_def positiveSafeInteger_ok_def max_safe_integer_def)

lemma ex_credential_accepted: "\<not> credential_refused ex_credential 100"
  by (simp add: credential_refused_def ex_credential_def)

lemma ex_authorized:
  assumes b: "keyOperationBinding plain_lib st target = Inr b" and "validateKeyOperationClaims st target (ex_claims v) = Inr ()"
    and "binding_ok b" and "0 < v" "v < 10"
  shows "\<exists>rec. prepareKeyOperationAuthorization plain_lib ex_config st target (ex_authorize st target v) 100 = Inr (rec, ex_scope v)
    \<and> authorization_claims (rec, ex_scope v) = ex_spends v"
proof -
  have "claims_ok (ex_claims v)" "authorizer_ok ex_config"
    using assms(4,5) by (simp_all add: claims_ok_def authorizer_ok_def ex_claims_def ex_principal_def ex_config_def
        positiveSafeInteger_ok_def max_safe_integer_def)
  moreover have "window_ok ex_config 100 (ex_window v)" "bytes32Hex_ok (pw_idempotencyKeyHash (ex_window v))"
    by (rule ex_window_ok) (simp_all add: ex_window_def)
  moreover have "sa_claims (ex_authorize st target v) = ex_claims v"
    "sv_message (sa_proof (ex_authorize st target v)) = authorization_message plain_lib ex_config b (ex_claims v) (ex_window v)"
    by (simp_all add: ex_authorize_def ex_signed_def b)
  moreover have "signed_by plain_lib ex_config ''EVLLM Key Operation Authorization'' KeyOperationAuthorization (bc_authorizerAddress ex_config)
      (sa_proof (ex_authorize st target v))"
    using ex_signed_by by (simp add: ex_authorize_def ex_config_def)
  moreover have "\<not> credential_refused (bc_credentialAt ex_config i 100) 100" for i
    using ex_credential_accepted by (simp add: ex_config_def)
  ultimately obtain rec where "prepareKeyOperationAuthorization plain_lib ex_config st target (ex_authorize st target v) 100
      = Inr (rec, nonceScope KeyOperationAuthorization (idHash plain_lib (pn_credentialId (bc_keyOperationAuthorizer ex_config))) (pw_nonce (ex_window v)))"
    and "kop_authorization_id rec = oc_authorizationId (ex_claims v)" "kop_authorization_version rec = oc_authorizationVersion (ex_claims v)"
    using plain_service.authorization_accepted [of st target b "ex_authorize st target v" ex_config 100 "ex_window v"] b assms(2,3) ex_domain_ok
    by auto
  then show ?thesis
    by (auto simp: ex_scope_def ex_spends_def authorization_claims_def ex_claims_def ex_window_def ex_config_def ex_principal_def)
qed

lemma ex_spends_apart: "ex_spends 1 \<inter> ex_spends 2 = {}" "ex_spends 1 \<inter> ex_spends 3 = {}" "ex_spends 2 \<inter> ex_spends 3 = {}"
proof -
  have "ex_nonce 1 \<noteq> ex_nonce 2" "ex_nonce 1 \<noteq> ex_nonce 3" "ex_nonce 2 \<noteq> ex_nonce 3" by code_simp+
  then show "ex_spends 1 \<inter> ex_spends 2 = {}" "ex_spends 1 \<inter> ex_spends 3 = {}" "ex_spends 2 \<inter> ex_spends 3 = {}"
    by (auto simp: ex_spends_def ex_scope_def nonceScope_def authorizationKey_inj)
qed

subsection \<open>Keys\<close>

definition ex_start :: "backend service_state" where
  "ex_start = run (service_step plain_lib ex_config)
     (service_start empty_keys \<lparr>am_authorizations = [], am_nonceScopes = []\<rparr> []) [CallKeys (AddKey (ex_key ''c'')), CallKeys (AddKey (ex_key ''r''))]"

definition ex_recipient_grant :: access_grant where
  "ex_recipient_grant = \<lparr>effectiveAt = 90, grant_envelopeId = ex_urn ''envelope'', expiresAt = 200, grantId = ex_urn ''grant'',
     recipientKeyId = ''r'', grant_state = GPrepared\<rparr>"

definition ex_controller :: controller_authorization where
  "ex_controller = \<lparr>authorizationId = ex_urn ''authorization'', auth_envelopeId = ex_urn ''envelope'', auth_keyId = ''c'', auth_state = AStaged\<rparr>"

lemma ex_keys:
  "\<exists>k1 k2 k3 k4. stageControllerAuthorization (st_keys ex_start) ex_controller = Inr k1
    \<and> activateControllerAuthorization k1 (ex_urn ''authorization'') = Inr k2 \<and> prepareGrant k2 ex_recipient_grant = Inr k3
    \<and> key_call k3 (ActivateGrant (ex_urn ''grant'') 90 True) = Inr k4 \<and> authorizeRetrieval k4 (ex_urn ''grant'') 100 = Inr ()"
proof -
  have keys: "st_keys ex_start = run key_step empty_keys [AddKey (ex_key ''c''), AddKey (ex_key ''r'')]"
    by (simp add: ex_start_def service_start_def)
  have "case stageControllerAuthorization (run key_step empty_keys [AddKey (ex_key ''c''), AddKey (ex_key ''r'')]) ex_controller of Inl _ \<Rightarrow> False
    | Inr k1 \<Rightarrow> (case activateControllerAuthorization k1 (ex_urn ''authorization'') of Inl _ \<Rightarrow> False
    | Inr k2 \<Rightarrow> (case prepareGrant k2 ex_recipient_grant of Inl _ \<Rightarrow> False
    | Inr k3 \<Rightarrow> (case key_call k3 (ActivateGrant (ex_urn ''grant'') 90 True) of Inl _ \<Rightarrow> False
    | Inr k4 \<Rightarrow> authorizeRetrieval k4 (ex_urn ''grant'') 100 = Inr ())))"
    by code_simp
  then show ?thesis unfolding keys by (auto simp del: key_call.simps split: sum.splits)
qed

lemma ex_start_fields [simp]: "st_records ex_start = []" "st_world ex_start = []" "st_byIdempotency ex_start = []"
  "st_domainNonces ex_start = []" "st_controllerNonces ex_start = []" "st_acknowledgementNonces ex_start = []"
  "authorization_used (st_authorizations ex_start) = {}"
  by (simp_all add: ex_start_def service_start_def authorization_used_def jm_has_def)

subsection \<open>Preparation\<close>

definition ex_record_ok :: "prepared_internal \<Rightarrow> bytes \<Rightarrow> bool" where
  "ex_record_ok rec dek = (pu_bundleId rec = ex_urn ''bundle'' \<and> rc_resourceId rec = ex_urn ''evidence'' \<and> rc_resourceVersion rec = 1
     \<and> rc_controllerAuthorizationId rec = ex_urn ''authorization'' \<and> digest_ok (pu_domainPayloadCommitment rec)
     \<and> digest_ok (pu_contentCommitment rec) \<and> digest_ok (pu_contentEnvelopeDigest rec)
     \<and> rc_wrapContext rec = context_of rec (ex_urn ''envelope'') (ex_urn ''org'') ex_kid ''controller-custody'' (ex_urn ''authorization'')
         ''protected-bundle:key-administration''
     \<and> wraps plain_crypto (rc_wrapContext rec) dek (ex_rsa False 1) (pu_controllerEnvelope rec))"

definition ex_kept :: "bytes \<Rightarrow> bytes \<Rightarrow> backend service_state \<Rightarrow> bool" where
  "ex_kept env dek st = (kept ex_wf ex_wf (memory_obj (ex_store ''1'')) (memory_obj (ex_store ''2'')) plain_crypto 0 env dek [1, 2, 3] st
     \<and> length env \<le> 9007199254740991 \<and> length (st_records st) = 1 \<and> jm_get (st_byBundle st) (ex_urn ''bundle'') = Some 0
     \<and> ex_record_ok (st_records st ! 0) dek)"

lemma ex_fresh: "fresh_draws (memory_obj (ex_store ''1'')) (memory_obj (ex_store ''2'')) ex_start (CallPrepare ex_env ex_prepare)"
  by (simp add: memory_obj_def ex_env_def)

lemma ex_new_record_ok:
  assumes "digest_ok (pc_domainPayloadCommitment r)" "digest_ok (pc_contentCommitment r)" "digest_ok (pc_contentEnvelopeDigest r)"
    and "wrapDek plain_crypto (en_wrapIv ex_env) (en_wrapSeed ex_env) (wrap_context ex_prepare r (en_envelopeId ex_env)) (pc_dek r)
      (pe_controllerPublicKey ex_prepare) = Inr w"
  shows "ex_record_ok (new_record plain_crypto ex_env ex_prepare r w spki) (pc_dek r)"
proof -
  have "wraps plain_crypto (wrap_context ex_prepare r (en_envelopeId ex_env)) (pc_dek r) (ex_rsa False 1) (wd_envelopeBytes w)"
    unfolding wraps_def using assms(4) by (intro exI conjI) (auto simp: ex_env_def ex_prepare_def)
  moreover have "wrap_context ex_prepare r (en_envelopeId ex_env) = context_of (new_record plain_crypto ex_env ex_prepare r w spki)
      (ex_urn ''envelope'') (ex_urn ''org'') ex_kid ''controller-custody'' (ex_urn ''authorization'') ''protected-bundle:key-administration''"
    by (simp add: wrap_context_def context_of_def new_record_def Let_def ex_prepare_def ex_evidence_def ex_bundle_ref_def ex_env_def)
  ultimately show ?thesis
    using assms(1-3) by (simp add: ex_record_ok_def) (simp add: new_record_def ex_prepare_def ex_evidence_def ex_bundle_ref_def)
qed

lemma ex_wraps_unique: "wraps plain_crypto ctx d (ex_rsa False n) bs \<Longrightarrow> wraps plain_crypto ctx e pub bs \<Longrightarrow> e = d"
  using wraps_unwrap(1) [OF plain_crypto_encryption _ key_pair_ex] wraps_unwrap(2) [OF plain_crypto_encryption] by blast

lemma ex_prepared:
  assumes k: "stageControllerAuthorization (st_keys ex_start) ex_controller = Inr k"
  shows "\<exists>r w spki st1 env pub. bundle_prepare plain_lib ex_config ex_env ex_prepare ex_start = (Inr pub, st1)
    \<and> protectContent plain_crypto (en_protect ex_env) (protect_of ex_config ex_prepare plain_crypto) = Inr r
    \<and> st_records st1 ! 0 = new_record plain_crypto ex_env ex_prepare r w spki \<and> ex_kept env (pc_dek r) st1
    \<and> st_keys st1 = k \<and> memory_obj (ex_store ''2'') (st_world st1) = Map.empty
    \<and> authorization_used (st_authorizations st1) = {} \<and> (\<forall>owner. nonces_of owner st1 = [])"
proof -
  have new: "jm_get (st_byIdempotency ex_start) (sha256Hex (sl_crypto plain_lib) (pe_idempotencyKey ex_prepare)) = None" by simp
  have stage: "stageControllerAuthorization (st_keys ex_start) \<lparr>authorizationId = pe_controllerAuthorizationId ex_prepare,
      auth_envelopeId = en_envelopeId ex_env, auth_keyId = pe_controllerEncryptionKeyId ex_prepare, auth_state = AStaged\<rparr> = Inr k"
    using k by (simp add: ex_prepare_def ex_env_def ex_controller_def)
  obtain r w x spki where r: "protectContent plain_crypto (en_protect ex_env) (protect_of ex_config ex_prepare plain_crypto) = Inr r"
    and w: "wrapDek plain_crypto (en_wrapIv ex_env) (en_wrapSeed ex_env) (wrap_context ex_prepare r (en_envelopeId ex_env)) (pc_dek r)
      (pe_controllerPublicKey ex_prepare) = Inr w"
    and d: "digest_ok (pc_domainPayloadCommitment r)" "digest_ok (pc_contentCommitment r)" "digest_ok (pc_contentEnvelopeDigest r)"
    and p: "bundle_prepare plain_lib ex_config ex_env ex_prepare ex_start
      = (Inr (publicPreparation (new_record plain_crypto ex_env ex_prepare r w spki)),
        add_record (sha256Hex plain_crypto (pe_idempotencyKey ex_prepare)) (new_record plain_crypto ex_env ex_prepare r w spki)
          (ex_start\<lparr>st_world := x, st_keys := k\<rparr>))"
    using ex_flow.prepare_succeeds [OF ex_prepare_ok ex_wf ex_wf ex_fresh new _ stage] ex_fits evidence_json_ok
    by (auto simp: ex_prepare_def)
  let ?st1 = "add_record (sha256Hex plain_crypto (pe_idempotencyKey ex_prepare)) (new_record plain_crypto ex_env ex_prepare r w spki)
      (ex_start\<lparr>st_world := x, st_keys := k\<rparr>)"
  obtain env dek where kept: "kept ex_wf ex_wf (memory_obj (ex_store ''1'')) (memory_obj (ex_store ''2'')) plain_crypto 0 env dek [1, 2, 3] ?st1"
    using ex_flow.prepare_kept [OF ex_wf ex_wf _ ex_fresh new p] by (auto simp: ex_prepare_def)
  have ok: "ex_record_ok (new_record plain_crypto ex_env ex_prepare r w spki) (pc_dek r)" by (rule ex_new_record_ok [OF d w])
  have rec: "st_records ?st1 ! 0 = new_record plain_crypto ex_env ex_prepare r w spki" "length (st_records ?st1) = 1"
    by (simp_all add: add_record_def)
  have sealed: "sealed plain_crypto (new_record plain_crypto ex_env ex_prepare r w spki) env dek [1, 2, 3]"
    using kept rec(1) by (simp add: kept_def holds_def)
  have "dek = pc_dek r" using ok sealed ex_wraps_unique unfolding ex_record_ok_def sealed_def by blast
  moreover have "length env = length (pc_envelopeBytes r)"
    using sealed by (simp add: sealed_def matches_def expected_of_def new_record_def)
  moreover have "jm_get (st_byBundle ?st1) (ex_urn ''bundle'') = Some 0"
    by (simp add: add_record_def jm_simps new_record_def ex_prepare_def ex_evidence_def ex_bundle_ref_def)
  ultimately have "ex_kept env (pc_dek r) ?st1" using kept ok rec ex_fits [OF r] by (simp add: ex_kept_def)
  moreover have "memory_obj (ex_store ''2'') (st_world ?st1) = Map.empty"
    using ex_flow.prepare_replica [OF ex_wf ex_wf p] by (simp add: memory_obj_def fun_eq_iff)
  moreover have "\<forall>owner. nonces_of owner ?st1 = []" 
  proof
    show "nonces_of owner ?st1 = []" for owner by (cases owner) (simp_all add: add_record_def)
  qed
  moreover have "st_keys ?st1 = k" "authorization_used (st_authorizations ?st1) = {}" by (simp_all add: add_record_def)
  ultimately show ?thesis using p r rec(1) by blast
qed

subsection \<open>Finalization\<close>

definition ex_attestation :: "backend service_state \<Rightarrow> service_proof" where
  "ex_attestation st = ex_signed (case domainAttestationMessage plain_lib st (ex_urn ''bundle'') ex_principal
     \<lparr>pw_expiresAt = 150, pw_issuedAt = 50, pw_nonce = ex_nonce 1\<rparr> of Inl e \<Rightarrow> [] | Inr m \<Rightarrow> m)"

definition ex_finalization :: "backend service_state \<Rightarrow> service_proof" where
  "ex_finalization st = ex_signed (case finalizationMessage plain_lib ex_config st (ex_urn ''bundle'') (ex_attestation st) ex_principal
     \<lparr>pw_expiresAt = 150, pw_issuedAt = 50, pw_nonce = ex_nonce 1, cw_idempotencyKeyHash = ex_bytes32, cw_commandId = ex_urn ''command''\<rparr>
     of Inl e \<Rightarrow> [] | Inr m \<Rightarrow> m)"

definition ex_finalize :: "backend service_state \<Rightarrow> finalize_input" where
  "ex_finalize st = \<lparr>fi_attestation = ex_attestation st, fi_authorAddress = ex_address, fi_bundleId = ex_urn ''bundle'',
     fi_controllerAddress = ex_address, fi_controllerPrivateKey = ex_rsa True 1, fi_finalization = ex_finalization st,
     fi_keyOperationAuthorization = ex_authorize st (FinalizeTarget (ex_urn ''bundle'') (ex_finalization st)) 1, fi_now = 100\<rparr>"

lemma ex_record_found: "ex_kept env dek st \<Longrightarrow> bundle_record st (ex_urn ''bundle'') = Inr (st_records st ! 0)"
  by (simp add: ex_kept_def bundle_record_def record_address_def)

lemma ex_record_ids: "ex_record_ok rec dek \<Longrightarrow> record_ids_ok rec"
  by (simp add: ex_record_ok_def record_ids_ok_def starts_with_def ex_urn_def [of "''evidence''"])

lemma ex_attested:
  assumes k: "ex_kept env dek st" and rec: "st_records st ! 0 = new_record plain_crypto ex_env ex_prepare r w spki"
  shows "check_attestation plain_lib st (st_records st ! 0) (sv_message (ex_attestation st)) = Inr ()"
    and "\<exists>v. verify_with plain_lib ex_config ''EVLLM Domain Manifest'' (bc_credentialAt ex_config) DomainManifestAttestation ex_address
      (Validation 100) (ex_attestation st) = Inr v"
    and "\<exists>scope. pendingNonceConsumption DomainNonces DomainManifestAttestation ''signerCredentialId'' (sv_message (ex_attestation st))
      = Inr (DomainNonces, scope)"
proof -
  let ?r = "st_records st ! 0" and ?w = "\<lparr>pw_expiresAt = 150, pw_issuedAt = 50, pw_nonce = ex_nonce 1\<rparr> :: proof_window"
  have b: "pu_bundleId ?r = ex_urn ''bundle''" "record_ids_ok ?r" "digest_ok (pu_domainPayloadCommitment ?r)"
    using k ex_record_ids by (auto simp: ex_kept_def ex_record_ok_def)
  have found: "bundle_record st (pu_bundleId ?r) = Inr ?r" using ex_record_found [OF k] b(1) by simp
  have p: "\<lparr>pn_actorId = rc_intendedAuthorActorId ?r, pn_credentialId = rc_intendedAuthorCredentialId ?r,
      pn_organizationId = rc_intendedAuthorOrganizationId ?r\<rparr> = ex_principal" "rc_authorBindingProfileVersion ?r = 1"
    "rc_intendedAuthorCredentialId ?r = ex_urn ''credential''"
    unfolding rec by (simp_all add: new_record_def ex_prepare_def ex_principal_def)
  have w: "window_ok ex_config 100 ?w" by (rule ex_window_ok) simp_all
  obtain m where m: "domainAttestationMessage plain_lib st (pu_bundleId ?r) ex_principal ?w = Inr m"
    using found by (simp add: domainAttestationMessage_def)
  then have sv: "sv_message (ex_attestation st) = m" using b(1) by (simp add: ex_attestation_def ex_signed_def)
  note a = plain_service.attestation_accepted [OF found w m [folded p(1)], of DomainNonces]
  show "check_attestation plain_lib st ?r (sv_message (ex_attestation st)) = Inr ()"
    "\<exists>scope. pendingNonceConsumption DomainNonces DomainManifestAttestation ''signerCredentialId'' (sv_message (ex_attestation st))
      = Inr (DomainNonces, scope)"
    using a unfolding sv by auto
  have "strict_object_ok (message_schema_of DomainManifestAttestation) m" using a b p(2) by auto
  moreover have "\<not> credential_refused (bc_credentialAt ex_config c 100) 100" for c using ex_credential_accepted by (simp add: ex_config_def)
  ultimately show "\<exists>v. verify_with plain_lib ex_config ''EVLLM Domain Manifest'' (bc_credentialAt ex_config) DomainManifestAttestation ex_address
      (Validation 100) (ex_attestation st) = Inr v"
    using verify_with_accepts [of ex_config "''EVLLM Domain Manifest''" DomainManifestAttestation plain_lib ex_address "ex_attestation st" ?w
        "idHash plain_lib (rc_intendedAuthorCredentialId ?r)" 100 "bc_credentialAt ex_config" "Validation 100"]
      ex_domain_ok ex_signed_by [of "''EVLLM Domain Manifest''" DomainManifestAttestation m] a w sv
    by (auto simp: ex_attestation_def ex_signed_def)
qed

lemma ex_finalization_ok:
  assumes k: "ex_kept env dek st" and rec: "st_records st ! 0 = new_record plain_crypto ex_env ex_prepare r w spki"
    and r: "protectContent plain_crypto (en_protect ex_env) (protect_of ex_config ex_prepare plain_crypto) = Inr r"
  shows "finalization_ok (st_records st ! 0)"
proof -
  have "pc_aad r = jset ''domain_payload_commitment'' (digest_json (pc_domainPayloadCommitment r)) (aad_input ex_config ex_prepare)"
    using plain_enc.protect_Inr [OF r] by (auto simp: protect_of_def)
  then have "jnum (rc_aad (st_records st ! 0)) ''criticality_profile_version'' = 1"
    unfolding rec aad_set by (simp add: new_record_def jnum_def aad_input_def Let_def ex_prepare_def ex_evidence_def ex_bundle_ref_def)
  moreover have "positiveSafeInteger_ok (int (pu_storedEnvelopeLength (st_records st ! 0)))"
    using ex_fits [OF r] unfolding rec by (simp add: new_record_def positiveSafeInteger_ok_def max_safe_integer_def)
  moreover have "bytes32Hex_ok (pu_descriptorDigest (st_records st ! 0))"
    using plain_service.sha256Hex_ok unfolding rec by (simp add: new_record_def descriptor_digest_def)
  moreover have "ex_record_ok (st_records st ! 0) dek" using k by (simp add: ex_kept_def)
  ultimately show ?thesis using ex_record_ids by (auto simp: finalization_ok_def ex_record_ok_def)
qed

lemma ex_commanded:
  assumes k: "ex_kept env dek st" and rec: "st_records st ! 0 = new_record plain_crypto ex_env ex_prepare r w spki"
    and r: "protectContent plain_crypto (en_protect ex_env) (protect_of ex_config ex_prepare plain_crypto) = Inr r"
  shows "check_finalization plain_lib ex_config st (st_records st ! 0) (ex_attestation st) (sv_message (ex_finalization st)) = Inr ()"
    and "\<exists>v. verify_with plain_lib ex_config ''EVLLM Protected Bundle Command'' (bc_credentialAt ex_config) FinalizeProtectedBundle ex_address
      (Validation 100) (ex_finalization st) = Inr v"
    and "\<exists>scope. pendingNonceConsumption ControllerNonces FinalizeProtectedBundle ''controllerCredentialId'' (sv_message (ex_finalization st))
      = Inr (ControllerNonces, scope)"
proof -
  let ?r = "st_records st ! 0" and ?w = "\<lparr>pw_expiresAt = 150, pw_issuedAt = 50, pw_nonce = ex_nonce 1, cw_idempotencyKeyHash = ex_bytes32,
     cw_commandId = ex_urn ''command''\<rparr> :: command_window"
  have b: "pu_bundleId ?r = ex_urn ''bundle''" using k by (auto simp: ex_kept_def ex_record_ok_def)
  have found: "bundle_record st (pu_bundleId ?r) = Inr ?r" using ex_record_found [OF k] b by simp
  have p: "\<lparr>pn_actorId = rc_controllerActorId ?r, pn_credentialId = rc_controllerCredentialId ?r,
      pn_organizationId = rc_controllerOrganizationId ?r\<rparr> = ex_principal"
    unfolding rec by (simp add: new_record_def ex_prepare_def ex_principal_def)
  have w: "window_ok ex_config 100 ?w" by (rule ex_window_ok) simp_all
  obtain m where m: "finalizationMessage plain_lib ex_config st (pu_bundleId ?r) (ex_attestation st) ex_principal ?w = Inr m"
    using found by (simp add: finalizationMessage_def)
  then have sv: "sv_message (ex_finalization st) = m" using b by (simp add: ex_finalization_def ex_signed_def)
  note a = plain_service.finalization_accepted [OF found w _ m [folded p], of ControllerNonces]
  show "check_finalization plain_lib ex_config st ?r (ex_attestation st) (sv_message (ex_finalization st)) = Inr ()"
    "\<exists>scope. pendingNonceConsumption ControllerNonces FinalizeProtectedBundle ''controllerCredentialId'' (sv_message (ex_finalization st))
      = Inr (ControllerNonces, scope)"
    using a unfolding sv by auto
  have "strict_object_ok (message_schema_of FinalizeProtectedBundle) m" using a ex_finalization_ok [OF assms] by auto
  moreover have "\<not> credential_refused (bc_credentialAt ex_config c 100) 100" for c using ex_credential_accepted by (simp add: ex_config_def)
  ultimately show "\<exists>v. verify_with plain_lib ex_config ''EVLLM Protected Bundle Command'' (bc_credentialAt ex_config) FinalizeProtectedBundle
      ex_address (Validation 100) (ex_finalization st) = Inr v"
    using verify_with_accepts [of ex_config "''EVLLM Protected Bundle Command''" FinalizeProtectedBundle plain_lib ex_address "ex_finalization st" ?w
        "idHash plain_lib (rc_controllerCredentialId ?r)" 100 "bc_credentialAt ex_config" "Validation 100"]
      ex_domain_ok ex_signed_by [of "''EVLLM Protected Bundle Command''" FinalizeProtectedBundle m] a w sv
    by (auto simp: ex_finalization_def ex_signed_def)
qed

end
