(* ===== verification/Bundle_Workflow.thy ===== *)
theory Bundle_Workflow
  imports Bundle_Example
begin

text \<open>
  The rest of the run of \<open>Bundle_Example\<close>: the finalization, the grant and the retrieval of the prepared document.
\<close>

subsection \<open>Nonces a call does not name\<close>

lemma consume_locals_others:
  "consume_locals st ps = (ok, c, st') \<Longrightarrow> v \<notin> fst ` set ps \<Longrightarrow> nonces_of v st' = nonces_of v st"
proof (induction st ps arbitrary: ok c st' rule: consume_locals.induct)
  case (2 st w scope ps)
  have "nonces_of v (set_nonces w n st) = nonces_of v st" for n using 2(3) by (cases v; cases w) auto
  then show ?case using 2 by (auto split: sum.splits prod.splits)
qed simp

lemma nonces_of_fields [simp]:
  "nonces_of v (st\<lparr>st_authorizations := m\<rparr>) = nonces_of v st" "nonces_of v (st\<lparr>st_world := w\<rparr>) = nonces_of v st"
  "nonces_of v (st\<lparr>st_keys := k\<rparr>) = nonces_of v st" "nonces_of v (st\<lparr>st_records := r\<rparr>) = nonces_of v st"
  "nonces_of v (st\<lparr>st_finalizedRecords := f\<rparr>) = nonces_of v st"
  by (cases v; simp)+

lemma consume_others:
  "consumeValidatedProofs d ps a st = (Inr u, st') \<Longrightarrow> v \<notin> fst ` set ps \<Longrightarrow> nonces_of v st' = nonces_of v st"
  using consume_locals_others [of st ps _ _ _ v] by (auto simp: consumeValidatedProofs_def split: prod.splits if_splits sum.splits)

lemma finalize_nonces:
  assumes "promote_record lib cfg en r st1 = (Inr p, st2)" "replicate_if_critical lib cfg en a st2 = (Inr q, st3)"
    "activate_finalized i a st3 = (Inr (), st4)"
  shows "nonces_of v st4 = nonces_of v st1"
proof -
  have "nonces_of v st2 = nonces_of v st1" using assms(1) by (auto simp: promote_record_def split: prod.splits)
  moreover have "nonces_of v st3 = nonces_of v st2"
    using assms(2) by (auto simp: replicate_if_critical_def replicate_record_def update_record_def Let_def outcome_simps split: if_splits prod.splits)
  moreover have "nonces_of v st4 = nonces_of v st3"
    using assms(3) by (auto simp: activate_finalized_def mark_finalized_def update_record_def Let_def outcome_simps)
  ultimately show ?thesis by simp
qed

text \<open>After a finalization the authorization is used and the acknowledgements are as before.\<close>

lemma finalize_consumed:
  assumes "bundle_finalize lib cfg en i st = (Inr (p, q), st')" and "finalize_checks lib cfg i st = Inr (a, pend, auth)"
  shows "authorization_used (st_authorizations st') = authorization_used (st_authorizations st) \<union> authorization_claims auth"
    and "v \<notin> fst ` set pend \<Longrightarrow> nonces_of v st' = nonces_of v st"
proof -
  obtain st1 st2 st3 where s: "consumeValidatedProofs (en_repositoryDown en) pend auth st = (Inr (), st1)"
    "promote_record lib cfg en (st_records st ! a) st1 = (Inr p, st2)"
    "replicate_if_critical lib cfg en a st2 = (Inr q, st3)" "activate_finalized i a st3 = (Inr (), st')"
    using finalize_Inr [OF assms(1)] assms(2) by auto
  have "authorization_consume (st_authorizations st) auth = Inr (st_authorizations st')"
    using consume_Inr [OF s(1)] finalize_authorizations [OF s(2-4)] by simp
  then show "authorization_used (st_authorizations st') = authorization_used (st_authorizations st) \<union> authorization_claims auth"
    using authorizations.consume_Inr by blast
  show "nonces_of v st' = nonces_of v st" if "v \<notin> fst ` set pend"
    using consume_others [OF s(1) that] finalize_nonces [OF s(2-4)] by simp
qed

subsection \<open>Finalization\<close>

lemma ex_source_ok [simp]: "starts_with ''urn:evllm:'' (ex_urn kind)"
  by (simp add: starts_with_def ex_urn_def)

lemma ex_finalize_checks:
  assumes k: "ex_kept env dek st" and rec: "st_records st ! 0 = new_record plain_crypto ex_env ex_prepare r w spki"
    and r: "protectContent plain_crypto (en_protect ex_env) (protect_of ex_config ex_prepare plain_crypto) = Inr r"
  shows "\<exists>s1 s2 auth. finalize_checks plain_lib ex_config (ex_finalize st) st = Inr (0, [(DomainNonces, s1), (ControllerNonces, s2)], auth)
    \<and> authorization_claims auth = ex_spends 1"
proof -
  let ?t = "FinalizeTarget (ex_urn ''bundle'') (ex_finalization st)" and ?r = "st_records st ! 0"
  have a: "record_address st (ex_urn ''bundle'') = Inr 0" using k by (simp add: ex_kept_def record_address_def)
  have f: "\<not> rc_finalized ?r" unfolding rec by (simp add: new_record_def)
  obtain b where b: "keyOperationBinding plain_lib st ?t = Inr b" "bi_record b = ?r" "bi_operation b = ''verify-and-finalize-staging''"
    "bi_sourceAuthorityIds b = [rc_controllerAuthorizationId ?r]"
    using ex_record_found [OF k] by (simp add: keyOperationBinding_def)
  have ok: "ex_record_ok ?r dek" using k by (simp add: ex_kept_def)
  have "shortText_ok ''verify-and-finalize-staging''" by code_simp
  then have "binding_ok b" using b ex_record_ids [OF ok] ok by (simp add: binding_ok_def array_ok_def ex_record_ok_def)
  then obtain rec' where p: "prepareKeyOperationAuthorization plain_lib ex_config st ?t (ex_authorize st ?t 1) 100 = Inr (rec', ex_scope 1)"
    "authorization_claims (rec', ex_scope 1) = ex_spends 1"
    using ex_authorized [OF b(1), of 1] by auto
  then show ?thesis
    using ex_attested [OF k rec] ex_commanded [OF k rec r] a f
    by (fastforce simp: finalize_checks_def ex_finalize_def proof_check_def map_error_def Let_def)
qed

lemma ex_record_kept:
  assumes "ex_record_ok r dek" and "record_grows r s" and "rc_wrapContext s = rc_wrapContext r"
    "pu_controllerEnvelope s = pu_controllerEnvelope r" "rc_controllerAuthorizationId s = rc_controllerAuthorizationId r"
  shows "ex_record_ok s dek"
proof -
  have f: "frozen s = frozen r" using assms(2) by (simp add: record_grows_def)
  have "rc_resourceId (frozen x) = rc_resourceId x" "rc_resourceVersion (frozen x) = rc_resourceVersion x" for x
    by (simp_all add: frozen_def)
  then have ids: "rc_resourceId s = rc_resourceId r" "rc_resourceVersion s = rc_resourceVersion r" using f by metis+
  show ?thesis
    using assms(1) unfolding ex_record_ok_def context_of_def assms(3-5) ids frozen_fields(1-3,11) [OF f] .
qed

lemma ex_finalized:
  assumes k: "ex_kept env dek st" and rec: "st_records st ! 0 = new_record plain_crypto ex_env ex_prepare r w spki"
    and r: "protectContent plain_crypto (en_protect ex_env) (protect_of ex_config ex_prepare plain_crypto) = Inr r"
    and new: "authorization_used (st_authorizations st) = {}" "\<forall>v. nonces_of v st = []" "memory_obj (ex_store ''2'') (st_world st) = Map.empty"
    and keys: "activateControllerAuthorization (st_keys st) (ex_urn ''authorization'') = Inr k2" and inv: "service_inv st"
  shows "\<exists>p q st'. bundle_finalize plain_lib ex_config ex_env (ex_finalize st) st = (Inr (p, q), st') \<and> ex_kept env dek st'
    \<and> rc_finalized (st_records st' ! 0) \<and> st_keys st' = k2 \<and> authorization_used (st_authorizations st') = ex_spends 1
    \<and> nonces_of AcknowledgementNonces st' = []"
proof -
  obtain s1 s2 auth where c: "finalize_checks plain_lib ex_config (ex_finalize st) st = Inr (0, [(DomainNonces, s1), (ControllerNonces, s2)], auth)"
    "authorization_claims auth = ex_spends 1"
    using ex_finalize_checks [OF k rec r] by blast
  have ok: "ex_record_ok (st_records st ! 0) dek" and kept: "kept ex_wf ex_wf (memory_obj (ex_store ''1'')) (memory_obj (ex_store ''2''))
      (sl_crypto plain_lib) 0 env dek [1, 2, 3] st" and fits: "length env \<le> 9007199254740991"
    using k by (simp_all add: ex_kept_def)
  have u: "unspent st [(DomainNonces, s1), (ControllerNonces, s2)] auth" using new by (simp add: unspent_def)
  have key: "wraps (sl_crypto plain_lib) (rc_wrapContext (st_records st ! 0)) dek (ex_rsa False 1) (pu_controllerEnvelope (st_records st ! 0))"
    "key_pair (ex_rsa False 1) (fi_controllerPrivateKey (ex_finalize st))"
    using ok by (auto simp: ex_record_ok_def ex_finalize_def simp del: plain_lib_fields(2))
  have act: "activateControllerAuthorization (st_keys st) (rc_controllerAuthorizationId (st_records st ! 0)) = Inr k2"
    using keys ok by (simp add: ex_record_ok_def)
  have en: "\<not> en_promoteTimeout ex_env" "\<not> en_replicateTimeout ex_env" "\<not> en_repositoryDown ex_env"
    "memory_obj (ex_store ''2'') (st_world st) (en_replicaObjectId ex_env) = None" "base64Url32_ok (en_replicaObjectId ex_env)"
    using new(3) by (simp_all add: ex_env_def)
  obtain p q st' where s: "bundle_finalize plain_lib ex_config ex_env (ex_finalize st) st = (Inr (p, q), st')" "st_keys st' = k2"
    "st_byBundle st' = st_byBundle st" "length (st_records st') = length (st_records st)" "rc_finalized (st_records st' ! 0)"
    "record_grows (st_records st ! 0) (st_records st' ! 0)" "rc_wrapContext (st_records st' ! 0) = rc_wrapContext (st_records st ! 0)"
    "pu_controllerEnvelope (st_records st' ! 0) = pu_controllerEnvelope (st_records st ! 0)"
    "rc_controllerAuthorizationId (st_records st' ! 0) = rc_controllerAuthorizationId (st_records st ! 0)"
    using ex_flow.finalize_succeeds [OF kept c(1) u key fits fits en act] by blast
  have "kept ex_wf ex_wf (memory_obj (ex_store ''1'')) (memory_obj (ex_store ''2'')) plain_crypto 0 env dek [1, 2, 3] st'"
    using ex_flow.kept_finalize [OF kept en(4) inv, of "ex_finalize st"] s(1) by simp
  then have "ex_kept env dek st'" using k s(3,4) ex_record_kept [OF ok s(6-9)] by (simp add: ex_kept_def)
  moreover have "authorization_used (st_authorizations st') = ex_spends 1" "nonces_of AcknowledgementNonces st' = []"
    using finalize_consumed(1) [OF s(1) c(1)] finalize_consumed(2) [OF s(1) c(1), of AcknowledgementNonces] new(1,2) c(2) by simp_all
  ultimately show ?thesis using s by blast
qed

subsection \<open>The grant\<close>

definition ex_grant_target :: grant_target where
  "ex_grant_target = \<lparr>gt_bundleId = ex_urn ''bundle'', gt_effectiveAt = 90, gt_expiresAt = 200, gt_grantId = ex_urn ''grant'',
     gt_purpose = ''audit'', gt_recipientEnvelopeId = ex_urn ''envelope'', gt_recipientKeyId = ''r'', gt_recipientKid = ex_kid,
     gt_recipientOrganizationId = ex_urn ''org'', gt_recipientPublicKeySpkiSha256 = sha256_of plain_crypto [2]\<rparr>"

definition ex_acknowledgement :: "backend service_state \<Rightarrow> signed_acknowledgement" where
  "ex_acknowledgement st = (let p = ex_signed (case serviceAcknowledgementMessage plain_lib ex_config st (GrantMaterial ex_grant_target) ex_principal
       \<lparr>pw_expiresAt = 150, pw_issuedAt = 50, pw_nonce = ex_nonce 1, pw_acknowledgementId = ex_urn ''acknowledgement'',
        pw_acknowledgementVersion = 1\<rparr> of Inl e \<Rightarrow> [] | Inr m \<Rightarrow> m) in
     \<lparr>sk_acknowledgementId = ex_urn ''acknowledgement'', sk_acknowledgementVersion = 1,
      sk_keyPossessionProof = (case createRsaKeyPossessionProof plain_crypto [] (ex_rsa True 2) (signed_of p) of
        Inl e \<Rightarrow> \<lparr>kp_algorithm = [], kp_signature = []\<rparr> | Inr q \<Rightarrow> q),
      sk_proof = p, sk_signer = ex_principal\<rparr>)"

definition ex_grant_input :: "backend service_state \<Rightarrow> grant_input" where
  "ex_grant_input st = \<lparr>gi_bundleId = ex_urn ''bundle'', gi_controllerPrivateKey = ex_rsa True 1, gi_currentTime = 100, gi_effectiveAt = 90,
     gi_expiresAt = 200, gi_grantId = ex_urn ''grant'', gi_keyMaterialAcknowledgement = ex_acknowledgement st,
     gi_keyOperationAuthorization = ex_authorize st (GrantTarget ex_grant_target) 2, gi_purpose = ''audit'',
     gi_recipientEnvelopeId = ex_urn ''envelope'', gi_recipientKeyId = ''r'', gi_recipientKid = ex_kid,
     gi_recipientOrganizationId = ex_urn ''org'', gi_recipientPublicKey = ex_rsa False 2\<rparr>"

lemma ex_grant_binding:
  assumes k: "ex_kept env dek st"
  shows "\<exists>b. keyOperationBinding plain_lib st (GrantTarget ex_grant_target) = Inr b \<and> binding_ok b"
proof -
  have ok: "ex_record_ok (st_records st ! 0) dek" using k by (simp add: ex_kept_def)
  have "shortText_ok ''create-grant-envelope''" by code_simp
  then show ?thesis
    using ex_record_found [OF k] ex_record_ids [OF ok] ok
    by (auto simp: keyOperationBinding_def ex_grant_target_def binding_ok_def array_ok_def ex_record_ok_def js_sort_def)
qed

lemma ex_acknowledged:
  assumes k: "ex_kept env dek st"
  shows "\<exists>scope. verifyKeyMaterialAcknowledgement plain_lib ex_config st (GrantMaterial ex_grant_target) (ex_acknowledgement st) (ex_rsa False 2) 100
    = Inr (AcknowledgementNonces, scope)"
proof -
  obtain b where b: "keyOperationBinding plain_lib st (GrantTarget ex_grant_target) = Inr b" "binding_ok b" using ex_grant_binding [OF k] by blast
  let ?w = "\<lparr>pw_expiresAt = 150, pw_issuedAt = 50, pw_nonce = ex_nonce 1, pw_acknowledgementId = ex_urn ''acknowledgement'',
        pw_acknowledgementVersion = 1\<rparr> :: acknowledgement_window" and ?a = "ex_acknowledgement st"
  have w: "window_ok ex_config 100 ?w" by (rule ex_window_ok) simp_all
  have p: "sk_proof ?a = ex_signed (acknowledgement_message plain_lib ex_config b (keyMaterialTargetFields (GrantMaterial ex_grant_target))
      ex_principal ?w)"
    by (simp add: ex_acknowledgement_def Let_def serviceAcknowledgementMessage_def b(1))
  have "assertRsa3072PrivateKey (ex_rsa True 2) = Inr ()"
    by (simp add: assertRsa3072PrivateKey_def ex_rsa_def is_rsa3072_def)
  then have "createRsaKeyPossessionProof plain_crypto [] (ex_rsa True 2) (signed_of (sk_proof ?a)) = Inr (sk_keyPossessionProof ?a)"
    by (simp add: ex_acknowledgement_def Let_def createRsaKeyPossessionProof_def)
  then have "verifyRsaKeyPossessionProof (sl_crypto plain_lib) (ex_rsa False 2) (signed_of (sk_proof ?a)) (sk_keyPossessionProof ?a)"
    using plain_enc.possession_accepted [OF _ key_pair_ex is_rsa_ex] by simp
  moreover have "signed_by plain_lib ex_config ''EVLLM Key Material Acknowledgement'' KeyMaterialAcknowledgement ex_address (sk_proof ?a)"
    unfolding p by (rule ex_signed_by)
  moreover have "digest_ok (sha256_of plain_crypto [2])" by simp
  ultimately show ?thesis
    using plain_service.acknowledgement_accepted [of st "GrantMaterial ex_grant_target" b ?a ex_config 100 ?w ex_credential ex_address "ex_rsa False 2"]
      b w p ex_domain_ok ex_credential_accepted
    by (auto simp: ex_grant_target_def ex_acknowledgement_def Let_def ex_signed_def binding_ok_def ex_config_def ex_principal_def)
qed

lemma ex_granted:
  assumes k: "ex_kept env dek st" and f: "rc_finalized (st_records st ! 0)"
    and used: "authorization_used (st_authorizations st) = ex_spends 1" "nonces_of AcknowledgementNonces st = []"
    and keys: "prepareGrant (st_keys st) ex_recipient_grant = Inr k3" "key_call k3 (ActivateGrant (ex_urn ''grant'') 90 True) = Inr k4"
  shows "\<exists>st' e. grantRecipient plain_lib ex_config ex_env (ex_grant_input st) st = (Inr (), st') \<and> ex_kept env dek st'
    \<and> rc_finalized (st_records st' ! 0) \<and> st_keys st' = k4 \<and> authorization_used (st_authorizations st') = ex_spends 1 \<union> ex_spends 2
    \<and> jm_get (st_recipientEnvelopes st') (ex_urn ''envelope'') = Some e \<and> wraps plain_crypto (re_context e) dek (ex_rsa False 2) (re_bytes e)
    \<and> re_grantId e = ex_urn ''grant'' \<and> re_policyId e = ex_urn ''policy'' \<and> re_policyVersion e = 1 \<and> re_purposeId e = ex_urn ''policy''
    \<and> re_recipientOrganizationId e = ex_urn ''org''"
proof -
  let ?i = "ex_grant_input st" and ?r = "st_records st ! 0" and ?spki = "sha256_of plain_crypto [2]"
  have ok: "ex_record_ok ?r dek" using k by (simp add: ex_kept_def)
  have t: "grant_of_input ?i ?spki = ex_grant_target" by (simp add: grant_of_input_def ex_grant_input_def ex_grant_target_def)
  have spki: "rsaPublicKeySpkiSha256 plain_crypto (ex_rsa False 2) = Inr ?spki"
    by (simp add: rsaPublicKeySpkiSha256_def assertRsa3072PublicKey_def) (simp add: ex_rsa_def)
  obtain s where s: "verifyKeyMaterialAcknowledgement plain_lib ex_config st (GrantMaterial ex_grant_target) (ex_acknowledgement st)
      (ex_rsa False 2) 100 = Inr (AcknowledgementNonces, s)"
    using ex_acknowledged [OF k] by blast
  obtain rec' where p: "prepareKeyOperationAuthorization plain_lib ex_config st (GrantTarget ex_grant_target)
      (ex_authorize st (GrantTarget ex_grant_target) 2) 100 = Inr (rec', ex_scope 2)" "authorization_claims (rec', ex_scope 2) = ex_spends 2"
    using ex_grant_binding [OF k] ex_authorized [of st "GrantTarget ex_grant_target" _ 2] by auto
  have c: "grant_checks plain_lib ex_config ?i st = Inr (?r, ?spki, [(AcknowledgementNonces, s)], (rec', ex_scope 2))"
    using ex_record_found [OF k] f spki s p(1) t
    by (simp add: grant_checks_def Let_def map_error_def) (simp add: ex_grant_input_def)
  have u: "unspent st [(AcknowledgementNonces, s)] (rec', ex_scope 2)"
    using used p(2) ex_spends_apart(1) by (auto simp: unspent_def)
  have "dekWrapContext (recipient_context ?i ?r)"
  proof -
    have "purpose_ok ''audit''" by code_simp
    moreover have "rc_wrapContext ?r = context_of ?r (ex_urn ''envelope'') (ex_urn ''org'') ex_kid ''controller-custody'' (ex_urn ''authorization'')
         ''protected-bundle:key-administration''" using ok by (simp only: ex_record_ok_def)
    ultimately show ?thesis
      unfolding recipient_context_eq [OF \<open>rc_wrapContext ?r = _\<close>]
      by (intro context_of_accepted) (use ok in \<open>auto simp: ex_record_ok_def ex_grant_input_def\<close>)
  qed
  moreover have "wraps (sl_crypto plain_lib) (rc_wrapContext ?r) dek (ex_rsa False 1) (pu_controllerEnvelope ?r)"
    using ok by (auto simp: ex_record_ok_def)
  moreover have "gi_controllerPrivateKey ?i = ex_rsa True 1" "gi_recipientPublicKey ?i = ex_rsa False 2" "\<not> en_repositoryDown ex_env"
    "length (en_wrapIv ex_env) = 12"
    by (simp_all add: ex_grant_input_def ex_env_def)
  moreover have "prepareGrant (st_keys st) \<lparr>effectiveAt = gi_effectiveAt ?i, grant_envelopeId = gi_recipientEnvelopeId ?i,
        expiresAt = gi_expiresAt ?i, grantId = gi_grantId ?i, recipientKeyId = gi_recipientKeyId ?i, grant_state = GPrepared\<rparr> = Inr k3"
    "key_call k3 (ActivateGrant (gi_grantId ?i) (gi_effectiveAt ?i) True) = Inr k4"
    using keys by (simp_all add: ex_grant_input_def ex_recipient_grant_def del: key_call.simps)
  ultimately obtain st' w where g: "grantRecipient plain_lib ex_config ex_env ?i st = (Inr (), st')" "st_keys st' = k4" "st_byBundle st' = st_byBundle st"
    "st_records st' = st_records st" "st_recipientEnvelopes st' = jm_set (gi_recipientEnvelopeId ?i)
        (recipient_of ?i (recipient_context ?i ?r) ?spki w) (st_recipientEnvelopes st)"
    "authorization_consume (st_authorizations st) (rec', ex_scope 2) = Inr (st_authorizations st')"
    using ex_flow.grant_succeeds [OF c u, of dek "ex_rsa False 1" ex_env k3 k4] key_pair_ex is_rsa_ex by auto
  have kept: "kept ex_wf ex_wf (memory_obj (ex_store ''1'')) (memory_obj (ex_store ''2'')) (sl_crypto plain_lib) 0 env dek [1, 2, 3] st"
    "jm_get (st_byBundle st) (gi_bundleId ?i) = Some 0"
    using k by (simp_all add: ex_kept_def ex_grant_input_def)
  obtain e where e: "jm_get (st_recipientEnvelopes st') (gi_recipientEnvelopeId ?i) = Some e"
    "wraps (sl_crypto plain_lib) (re_context e) dek (gi_recipientPublicKey ?i) (re_bytes e)"
    using ex_flow.grant_wraps [OF kept g(1)] by (auto simp: ex_env_def)
  have "e = recipient_of ?i (recipient_context ?i ?r) ?spki w" using e(1) g(5) by (simp add: jm_simps)
  moreover have "authorization_used (st_authorizations st') = ex_spends 1 \<union> ex_spends 2"
    using authorizations.consume_Inr [OF g(6)] used(1) p(2) by simp
  moreover have "ex_kept env dek st'"
    using ex_flow.kept_grant [OF kept(1), of ex_env ?i] g(1,3,4) k by (simp add: ex_kept_def)
  ultimately show ?thesis
    using g(1,2,4) e f by (intro exI conjI) (auto simp: ex_grant_input_def recipient_of_def Let_def ex_authorize_def ex_claims_def)
qed

subsection \<open>The retrieval\<close>

definition ex_retrieve :: "backend service_state \<Rightarrow> retrieve_input" where
  "ex_retrieve st = \<lparr>rv_bundleId = ex_urn ''bundle'', rv_currentTime = 100, rv_grantId = ex_urn ''grant'',
     rv_keyOperationAuthorization = ex_authorize st (DecryptTarget (ex_urn ''bundle'') (ex_urn ''grant'') (ex_urn ''envelope'')) 3,
     rv_recipientEnvelopeId = ex_urn ''envelope'', rv_recipientPrivateKey = ex_rsa True 2\<rparr>"

lemma ex_retrieved:
  assumes k: "ex_kept env dek st" and f: "rc_finalized (st_records st ! 0)" and key: "authorizeRetrieval (st_keys st) (ex_urn ''grant'') 100 = Inr ()"
    and used: "authorization_used (st_authorizations st) = ex_spends 1 \<union> ex_spends 2"
    and e: "jm_get (st_recipientEnvelopes st) (ex_urn ''envelope'') = Some e" "wraps plain_crypto (re_context e) dek (ex_rsa False 2) (re_bytes e)"
      "re_grantId e = ex_urn ''grant''" "re_policyId e = ex_urn ''policy''" "re_policyVersion e = 1" "re_purposeId e = ex_urn ''policy''"
      "re_recipientOrganizationId e = ex_urn ''org''"
  shows "\<exists>payload st'. retrieveWithGrant plain_lib ex_config ex_env (ex_retrieve st) st = (Inr ([1, 2, 3], payload, FromPrimary), st')"
proof -
  let ?t = "DecryptTarget (ex_urn ''bundle'') (ex_urn ''grant'') (ex_urn ''envelope'')" and ?r = "st_records st ! 0"
  have ok: "ex_record_ok ?r dek" using k by (simp add: ex_kept_def)
  have find: "find_recipient st (ex_urn ''envelope'') (ex_urn ''grant'') = Inr e" using e(1,3) by (simp add: find_recipient_def)
  obtain b where b: "keyOperationBinding plain_lib st ?t = Inr b" "bi_record b = ?r" "bi_operation b = ''decrypt-with-grant''"
    "bi_sourceAuthorityIds b = [ex_urn ''grant'']"
    using ex_record_found [OF k] find e(3) by (simp add: keyOperationBinding_def)
  have "shortText_ok ''decrypt-with-grant''" by code_simp
  then have "binding_ok b" using b ex_record_ids [OF ok] by (simp add: binding_ok_def array_ok_def)
  moreover have "validateKeyOperationClaims st ?t (ex_claims 3) = Inr ()" using e by (simp add: ex_claims_def ex_principal_def)
  ultimately obtain rec' where p: "prepareKeyOperationAuthorization plain_lib ex_config st ?t (ex_authorize st ?t 3) 100 = Inr (rec', ex_scope 3)"
    "authorization_claims (rec', ex_scope 3) = ex_spends 3"
    using ex_authorized [OF b(1), of 3] by auto
  have c: "retrieve_checks plain_lib ex_config (ex_retrieve st) st = Inr (?r, e, (rec', ex_scope 3))"
    using ex_record_found [OF k] key find p(1) by (simp add: retrieve_checks_def ex_retrieve_def map_error_def)
  have u: "unspent st [] (rec', ex_scope 3)" using used p(2) ex_spends_apart(2,3) by (auto simp: unspent_def)
  have kept: "kept ex_wf ex_wf (memory_obj (ex_store ''1'')) (memory_obj (ex_store ''2'')) (sl_crypto plain_lib) 0 env dek [1, 2, 3] st"
    using k by (simp add: ex_kept_def)
  show ?thesis
    using ex_flow.retrieve_succeeds [OF kept f c u, of "ex_rsa False 2" ex_env] e(2) by (auto simp: ex_retrieve_def ex_env_def)
qed

subsection \<open>The whole run\<close>

lemma ex_start_inv: "flow_inv ex_wf ex_wf ex_start"
  unfolding ex_start_def by (rule ex_flow.flow_run) (simp_all add: ex_flow.flow_start)

lemma ex_workflow:
  "\<exists>pub st1 st3 payload st5. bundle_prepare plain_lib ex_config ex_env ex_prepare ex_start = (Inr pub, st1)
    \<and> memory_obj (ex_store ''2'') (st_world st1) (en_replicaObjectId ex_env) = None
    \<and> grantRecipient plain_lib ex_config ex_env (ex_grant_input (service_step plain_lib ex_config st1 (CallFinalize ex_env (ex_finalize st1))))
        (service_step plain_lib ex_config st1 (CallFinalize ex_env (ex_finalize st1))) = (Inr (), st3)
    \<and> retrieveWithGrant plain_lib ex_config ex_env (ex_retrieve st3) st3 = (Inr ([1, 2, 3], payload, FromPrimary), st5)"
proof -
  obtain k1 k2 k3 k4 where k: "stageControllerAuthorization (st_keys ex_start) ex_controller = Inr k1"
    "activateControllerAuthorization k1 (ex_urn ''authorization'') = Inr k2" "prepareGrant k2 ex_recipient_grant = Inr k3"
    "key_call k3 (ActivateGrant (ex_urn ''grant'') 90 True) = Inr k4" "authorizeRetrieval k4 (ex_urn ''grant'') 100 = Inr ()"
    using ex_keys by blast
  obtain r w spki st1 env pub where p: "bundle_prepare plain_lib ex_config ex_env ex_prepare ex_start = (Inr pub, st1)"
    and r: "protectContent plain_crypto (en_protect ex_env) (protect_of ex_config ex_prepare plain_crypto) = Inr r"
    and rec: "st_records st1 ! 0 = new_record plain_crypto ex_env ex_prepare r w spki" and kept: "ex_kept env (pc_dek r) st1"
    and keys: "st_keys st1 = k1" and empty: "memory_obj (ex_store ''2'') (st_world st1) = Map.empty"
      "authorization_used (st_authorizations st1) = {}" "\<forall>owner. nonces_of owner st1 = []"
    using ex_prepared [OF k(1)] by blast
  have inv: "service_inv st1"
    using service.inv_step [of ex_start plain_lib ex_config "CallPrepare ex_env ex_prepare"] ex_start_inv p by (simp add: flow_inv_def)
  obtain m q st2 where f: "bundle_finalize plain_lib ex_config ex_env (ex_finalize st1) st1 = (Inr (m, q), st2)" "ex_kept env (pc_dek r) st2"
    "rc_finalized (st_records st2 ! 0)" "st_keys st2 = k2" "authorization_used (st_authorizations st2) = ex_spends 1"
    "nonces_of AcknowledgementNonces st2 = []"
    using ex_finalized [OF kept rec r empty(2,3,1) k(2) [folded keys] inv] by blast
  obtain st3 e where g: "grantRecipient plain_lib ex_config ex_env (ex_grant_input st2) st2 = (Inr (), st3)" "ex_kept env (pc_dek r) st3"
    "rc_finalized (st_records st3 ! 0)" "st_keys st3 = k4" "authorization_used (st_authorizations st3) = ex_spends 1 \<union> ex_spends 2"
    "jm_get (st_recipientEnvelopes st3) (ex_urn ''envelope'') = Some e" "wraps plain_crypto (re_context e) (pc_dek r) (ex_rsa False 2) (re_bytes e)"
    "re_grantId e = ex_urn ''grant''" "re_policyId e = ex_urn ''policy''" "re_policyVersion e = 1" "re_purposeId e = ex_urn ''policy''"
    "re_recipientOrganizationId e = ex_urn ''org''"
    using ex_granted [OF f(2,3,5,6) k(3) [folded f(4)] k(4)] by blast
  obtain payload st5 where "retrieveWithGrant plain_lib ex_config ex_env (ex_retrieve st3) st3 = (Inr ([1, 2, 3], payload, FromPrimary), st5)"
    using ex_retrieved [OF g(2,3) k(5) [folded g(4)] g(5-12)] by blast
  then show ?thesis using p f(1) g(1) empty(1) by (intro exI conjI) (assumption | simp)+
qed

end
