(* ===== verification/Bundle_Properties.thy ===== *)
theory Bundle_Properties
  imports Bundle_Workflow
begin

text \<open>
  The properties of the evidence bundle service and of the encryption below it.
\<close>

subsection \<open>The state of the service\<close>

text \<open>
  C26: whatever is called from the start on, the state is well formed (\<open>service_inv\<close>): every
  entry of an index refers to a record, that of a bundle to a record of this bundle, every finalized record belongs to a
  finalized bundle and repeats its commitments, and the key registry keeps its own invariant. From any state on,
  records stay in place, their \<open>readonly\<close> fields never change, \<open>finalized\<close> and \<open>critical\<close> are never reset,
  idempotency keys keep their record, and no consumed nonce or authorization becomes usable again (\<open>service_grows\<close>).
\<close>

theorem bundle_state_typed:
  "let st = run (service_step lib cfg) (service_start empty_keys authorizations w) calls in
     service_inv (run (service_step lib cfg) st later) \<and> service_grows st (run (service_step lib cfg) st later)"
proof -
  let ?st = "run (service_step lib cfg) (service_start empty_keys authorizations w) calls"
  have st: "service_inv ?st" by (rule service.inv_run)
  then show ?thesis unfolding Let_def using service.inv_run_from [OF st] service_run_grows [OF st] by blast
qed

text \<open>
  C27: in every sequence of calls the service finalizes, rotates, grants or releases at most
  once on a key-operation authorization, whatever other calls, failures and retries come in between.
\<close>

theorem authorization_honoured_once:
  "distinct (honoured_in lib cfg (service_start empty_keys authorizations w) calls)"
  by (rule honoured_in_distinct, rule service_inv_start, rule key_inv_empty)

text \<open>
  C28: \<open>consumeValidatedProofs\<close> consumes all the proofs of a call or none. When it fails, for a
  nonce that was used before or since the repository refuses, the state is as before the call; when it returns, every nonce and the
  authorization were new and are used now, and nothing else has changed.
\<close>

theorem proofs_consumed_atomically:
  "case consumeValidatedProofs repositoryDown localNonces authorization st of
     (Inl e, st') \<Rightarrow> e = SInvalidProof \<and> st' = st
   | (Inr u, st') \<Rightarrow> \<not> repositoryDown \<and> proofs_frame st st'
       \<and> authorization_consume (st_authorizations st) authorization = Inr (st_authorizations st')
       \<and> list_all (\<lambda>(owner, scope). scope \<notin> set (nonces_of owner st) \<and> scope \<in> set (nonces_of owner st')) localNonces"
proof (cases "consumeValidatedProofs repositoryDown localNonces authorization st")
  case (Pair r st')
  show ?thesis
  proof (cases r)
    case (Inl e)
    then show ?thesis using Pair consume_Inl by fastforce
  next
    case (Inr u)
    then show ?thesis using Pair consume_Inr [of repositoryDown localNonces authorization st u st'] by (simp add: list_all_iff)
  qed
qed

subsection \<open>From the preparation to the recipient\<close>

text \<open>
  C4: a document is prepared in any state of the service, any calls follow, a recipient is
  granted access, any calls follow, and the recipient asks for the document. A retrieval never returns
  anything but the content and the payload that were prepared. Once its checks pass on a new authorization, the private key
  belongs to the granted public key and the store answers, it returns them. In between other bundles may be
  prepared, and this one may be finalized, promoted, rotated and granted to others; only a second preparation of the same bundle and a
  second grant of the same envelope are excluded. The hypotheses on the environment are the contract of the two stores and of the
  cryptographic library (\<open>bundle_flow\<close>), and that identifiers and vectors drawn at random are new and of their length
  (\<open>fresh_run\<close>, \<open>fresh_draws\<close>).
\<close>

theorem content_comes_back:
  assumes flow: "bundle_flow lib cfg obj1 wf1 limit1 obj2 wf2 limit2" "wf1 w" "wf2 w"
    and st: "fresh_run lib cfg obj1 obj2 (service_start empty_keys authorizations w) ws"
      "st = run (service_step lib cfg) (service_start empty_keys authorizations w) ws"
    and p: "fresh_draws obj1 obj2 st (CallPrepare en i)" "bundle_prepare lib cfg en i st = (Inr pub, st1)"
      "jm_get (st_byIdempotency st) (sha256Hex (sl_crypto lib) (pe_idempotencyKey i)) = None"
      "b = pb_bundle_id (evidence_bundle_ref (pe_evidencePayload i))"
    and xs: "fresh_run lib cfg obj1 obj2 st1 xs" "list_all (\<lambda>x. \<not> prepares_bundle b x) xs"
    and g: "grantRecipient lib cfg en' j (run (service_step lib cfg) st1 xs) = (Inr (), st3)" "gi_bundleId j = b" "length (en_wrapIv en') = 12"
    and ys: "fresh_run lib cfg obj1 obj2 st3 ys" "list_all (\<lambda>x. \<not> prepares_bundle b x \<and> \<not> grants_envelope (gi_recipientEnvelopeId j) x) ys"
      "st4 = run (service_step lib cfg) st3 ys"
    and k: "rv_bundleId k = b" "rv_recipientEnvelopeId k = gi_recipientEnvelopeId j"
  shows "case fst (retrieveWithGrant lib cfg en'' k st4) of
      Inr (content, payload, source) \<Rightarrow> content = pe_content i \<and> payload = canonical (sl_crypto lib) (evidence_json (pe_evidencePayload i))
    | Inl e \<Rightarrow> \<not> (\<exists>r r' auth. retrieve_checks lib cfg k st4 = Inr (r, r', auth) \<and> unspent st4 [] auth
        \<and> key_pair (gi_recipientPublicKey j) (rv_recipientPrivateKey k) \<and> \<not> en_repositoryDown en'' \<and> \<not> en_fetchTimeout en'')"
proof -
  note inv = bundle_flow.flow_run [OF flow(1) bundle_flow.flow_start [OF flow] st(1), folded st(2)]
  obtain a env dek e where kept: "kept wf1 wf2 obj1 obj2 (sl_crypto lib) a env dek (pe_content i) st4"
    and a: "jm_get (st_byBundle st4) (rv_bundleId k) = Some a" and e: "jm_get (st_recipientEnvelopes st4) (rv_recipientEnvelopeId k) = Some e"
      "wraps (sl_crypto lib) (re_context e) dek (gi_recipientPublicKey j) (re_bytes e)"
    and f: "rc_finalized (st_records st4 ! a)"
    and d: "pu_domainPayload (st_records st4 ! a) = canonical (sl_crypto lib) (evidence_json (pe_evidencePayload i))"
    using bundle_flow.granted_kept [OF flow(1) inv p(1,3,2,4) xs g ys] k by auto
  show ?thesis
  proof (cases "fst (retrieveWithGrant lib cfg en'' k st4)")
    case (Inl x)
    then show ?thesis using bundle_flow.content_returned [OF flow(1) kept a e f, of _ _ _ en''] by auto
  next
    case (Inr y)
    then obtain c payload src st' where "retrieveWithGrant lib cfg en'' k st4 = (Inr (c, payload, src), st')" by (metis prod.collapse)
    then show ?thesis using bundle_flow.retrieved_content [OF flow(1) kept a e f] d by simp
  qed
qed

theorem content_comes_back_witness:
  "\<exists>st3 st5. retrieveWithGrant plain_lib ex_config ex_env (ex_retrieve st3) st3
     = (Inr ([1, 2, 3], canonical plain_crypto (evidence_json ex_evidence), FromPrimary), st5)"
proof -
  obtain pub st1 st3 payload st5 where p: "bundle_prepare plain_lib ex_config ex_env ex_prepare ex_start = (Inr pub, st1)"
    and empty: "memory_obj (ex_store ''2'') (st_world st1) (en_replicaObjectId ex_env) = None"
    and g: "grantRecipient plain_lib ex_config ex_env (ex_grant_input (service_step plain_lib ex_config st1 (CallFinalize ex_env (ex_finalize st1))))
        (run (service_step plain_lib ex_config) st1 [CallFinalize ex_env (ex_finalize st1)]) = (Inr (), st3)"
    and r: "retrieveWithGrant plain_lib ex_config ex_env (ex_retrieve st3) st3 = (Inr ([1, 2, 3], payload, FromPrimary), st5)"
    using ex_workflow by auto
  have c: "evidence_bundle_ref (pe_evidencePayload ex_prepare) = ex_bundle_ref BEvidence (ex_urn ''evidence'')"
    "pb_bundle_id (ex_bundle_ref BEvidence (ex_urn ''evidence'')) = ex_urn ''bundle''"
    by (simp_all add: ex_prepare_def ex_evidence_def ex_bundle_ref_def)
  have "case fst (retrieveWithGrant plain_lib ex_config ex_env (ex_retrieve st3) st3) of
      Inr (content, payload, source) \<Rightarrow> content = pe_content ex_prepare
        \<and> payload = canonical (sl_crypto plain_lib) (evidence_json (pe_evidencePayload ex_prepare))
    | Inl e \<Rightarrow> \<not> (\<exists>r r' auth. retrieve_checks plain_lib ex_config (ex_retrieve st3) st3 = Inr (r, r', auth) \<and> unspent st3 [] auth
        \<and> key_pair (gi_recipientPublicKey (ex_grant_input (service_step plain_lib ex_config st1 (CallFinalize ex_env (ex_finalize st1)))))
            (rv_recipientPrivateKey (ex_retrieve st3))
        \<and> \<not> en_repositoryDown ex_env \<and> \<not> en_fetchTimeout ex_env)"
    by (rule content_comes_back [OF ex_flow_axioms ex_wf ex_wf _ ex_start_def ex_fresh p _ _ _ _ g, where ys = "[]"])
      (use empty in \<open>simp_all add: c ex_grant_input_def ex_retrieve_def ex_env_def\<close>)
  then show ?thesis using r by (auto simp: ex_prepare_def)
qed

text \<open>
  C5: content leaves the service only under an active grant within its period, for an
  envelope of this grant, on an authorization whose policy, purpose and organisation are those the grant was made with, whose
  message is the one the service computes for this very bundle, grant and envelope, and which is signed by the
  configured authorizer and in its period. The authorization was new, and it is used up.
\<close>

theorem retrieval_requires_authorization:
  assumes "retrieveWithGrant lib cfg en i st = (Inr (content, payload, source), st')"
  shows "\<exists>e g w m issuedAt expiresAt'. jm_get (st_recipientEnvelopes st) (rv_recipientEnvelopeId i) = Some e \<and> re_grantId e = rv_grantId i
    \<and> grant_of (st_keys st) (rv_grantId i) = Some g \<and> grant_state g = GActive
    \<and> effectiveAt g \<le> rv_currentTime i \<and> rv_currentTime i < expiresAt g
    \<and> (let a = rv_keyOperationAuthorization i; c = sa_claims a; p = sa_proof a in
        oc_policyId c = re_policyId e \<and> oc_policyVersion c = re_policyVersion e \<and> oc_purposeId c = re_purposeId e
        \<and> pn_organizationId (oc_requester c) = re_recipientOrganizationId e
        \<and> serviceAuthorizationMessage lib cfg st (DecryptTarget (rv_bundleId i) (rv_grantId i) (rv_recipientEnvelopeId i)) c w = Inr m
        \<and> canonicalBytesEqual (sl_crypto lib) m (sv_message p)
        \<and> map_option (map to_lower_char) (td_recover (sl_typed lib) (bundle_domain cfg ''EVLLM Key Operation Authorization'')
            (primaryType (eip712Profiles KeyOperationAuthorization), profile_fields (eip712Profiles KeyOperationAuthorization))
            (sv_message p) (sv_signature p)) = Some (bc_authorizerAddress cfg)
        \<and> readSafeInteger (sv_message p) ''issuedAt'' = Inr issuedAt \<and> readSafeInteger (sv_message p) ''expiresAt'' = Inr expiresAt'
        \<and> issuedAt \<le> rv_currentTime i \<and> rv_currentTime i < expiresAt' \<and> expiresAt' - issuedAt \<le> bc_maxProofLifetimeSeconds cfg
        \<and> \<not> spent st (claim_of a) \<and> spent st' (claim_of a))"
proof -
  let ?a = "rv_keyOperationAuthorization i" and ?t = "DecryptTarget (rv_bundleId i) (rv_grantId i) (rv_recipientEnvelopeId i)"
  obtain r e rec scope where c: "retrieve_checks lib cfg i st = Inr (r, e, rec, scope)" using retrieve_Inr [OF assms] by auto
  have e: "jm_get (st_recipientEnvelopes st) (rv_recipientEnvelopeId i) = Some e" "re_grantId e = rv_grantId i"
    and key: "authorizeRetrieval (st_keys st) (rv_grantId i) (rv_currentTime i) = Inr ()"
    and auth: "prepareKeyOperationAuthorization lib cfg st ?t ?a (rv_currentTime i) = Inr (rec, scope)"
    using c by (auto simp: retrieve_checks_def outcome_simps find_recipient_def split: if_splits option.splits)
  obtain b w v where claims: "check_claims lib cfg st ?t ?a = Inr (b, w)"
    and v: "verify_with lib cfg ''EVLLM Key Operation Authorization'' (bc_credentialAt cfg) KeyOperationAuthorization
        (bc_authorizerAddress cfg) (ExternalExecution (rv_currentTime i)) (sa_proof ?a) = Inr v"
    using prepare_authorization_Inr [OF auth] by blast
  obtain s where p: "verifyProtectedProof (sl_typed lib) [] \<lparr>vi_credentialAt = bc_credentialAt cfg,
       vi_domain = bundle_domain cfg ''EVLLM Key Operation Authorization'', vi_expectedSignerAddress = bc_authorizerAddress cfg,
       vi_maxLifetimeSeconds = bc_maxProofLifetimeSeconds cfg, vi_message = sv_message (sa_proof ?a),
       vi_mode = ExternalExecution (rv_currentTime i), vi_signature = sv_signature (sa_proof ?a), vi_type = KeyOperationAuthorization\<rparr> = Inr (v, s)"
    using v by (auto simp: verify_with_def outcome_simps)
  obtain m where m: "serviceAuthorizationMessage lib cfg st ?t (sa_claims ?a) w = Inr m"
    "canonicalBytesEqual (sl_crypto lib) m (sv_message (sa_proof ?a))" "validateKeyOperationClaims st ?t (sa_claims ?a) = Inr ()"
    using claims by (auto simp: check_claims_def outcome_simps)
  have policy: "oc_policyId (sa_claims ?a) = re_policyId e" "oc_policyVersion (sa_claims ?a) = re_policyVersion e"
    "oc_purposeId (sa_claims ?a) = re_purposeId e" "pn_organizationId (oc_requester (sa_claims ?a)) = re_recipientOrganizationId e"
    using m(3) e(1) by (auto simp: outcome_simps)
  obtain g where g: "grant_of (st_keys st) (rv_grantId i) = Some g" "grant_state g = GActive" "effectiveAt g \<le> rv_currentTime i"
    "rv_currentTime i < expiresAt g"
    using authorizeRetrieval_Inr [OF key] by blast
  obtain x y where time: "readSafeInteger (sv_message (sa_proof ?a)) ''issuedAt'' = Inr x"
    "readSafeInteger (sv_message (sa_proof ?a)) ''expiresAt'' = Inr y" "x \<le> rv_currentTime i" "rv_currentTime i < y"
    "y - x \<le> bc_maxProofLifetimeSeconds cfg"
    using verify_Inr [OF p] by (auto simp: expired_at_def)
  show ?thesis
    unfolding Let_def by (intro exI conjI) (use e g policy m time verify_Inr [OF p] retrieve_spends [OF assms] in auto)
qed

theorem retrieval_requires_authorization_witness:
  "\<exists>st payload st'. retrieveWithGrant plain_lib ex_config ex_env (ex_retrieve st) st = (Inr ([1, 2, 3], payload, FromPrimary), st')
     \<and> spent st' (claim_of (rv_keyOperationAuthorization (ex_retrieve st)))"
proof -
  obtain st payload st' where r: "retrieveWithGrant plain_lib ex_config ex_env (ex_retrieve st) st = (Inr ([1, 2, 3], payload, FromPrimary), st')"
    using ex_workflow by blast
  show ?thesis using retrieval_requires_authorization [OF r] r by (auto simp: Let_def)
qed

subsection \<open>Encryption\<close>

text \<open>
  C25: what \<open>protectContent\<close> seals under a fresh key and \<open>wrapDek\<close> wraps for a recipient, the
  recipient's private key unwraps and \<open>openProtectedContent\<close> opens to the same content and payload; no private
  key unwraps another key from the envelope, the envelope verifies against its commitment, and whatever envelope and key are
  presented, only content with the committed digest is returned. Assumed of the library are the laws of \<open>encryption\<close>.
\<close>

theorem protected_content_roundtrip:
  assumes "encryption cr" and "protectContent cr rnd input = Inr r" and "wrapDek cr iv seed ctx (pc_dek r) pub = Inr w" and "length iv = 12"
  shows "(\<forall>priv. key_pair pub priv \<longrightarrow> unwrapDek cr (wd_envelopeBytes w) priv ctx = Inr (pc_dek r))
    \<and> (\<forall>priv d. unwrapDek cr (wd_envelopeBytes w) priv ctx = Inr d \<longrightarrow> d = pc_dek r)
    \<and> verifyWrappedDekEnvelope cr (wd_commitment w) ctx (wd_envelopeBytes w)
    \<and> openProtectedContent cr (pc_envelopeBytes r) (pc_dek r) (pc_aad r) (pc_contentCommitment r) = Inr (ci_content input, ci_domainPayload input)
    \<and> (\<forall>bs dek content payload. openProtectedContent cr bs dek (pc_aad r) (pc_contentCommitment r) = Inr (content, payload)
        \<longrightarrow> (\<exists>salt. commitment_digest cr CONTENT_COMMITMENT_DOMAIN salt content = pc_contentCommitment r))"
  using encryption.wrap_unwrap [OF assms(1,3,4)] encryption.unwrap_authentic [OF assms(1,3,4)] encryption.wrap_verify [OF assms(1,3,4)]
    encryption.protect_open [OF assms(1,2)] encryption.open_sound(1) [OF assms(1)]
  by blast

theorem protected_content_roundtrip_witness:
  "\<exists>r (w :: wrapped_dek) ctx. protectContent plain_crypto (en_protect ex_env) (protect_of ex_config ex_prepare plain_crypto) = Inr r
     \<and> unwrapDek plain_crypto (wd_envelopeBytes w) (ex_rsa True 1) ctx = Inr (pc_dek r)
     \<and> openProtectedContent plain_crypto (pc_envelopeBytes r) (pc_dek r) (pc_aad r) (pc_contentCommitment r)
       = Inr ([1, 2, 3], canonical plain_crypto (evidence_json ex_evidence))"
proof -
  obtain r env st1 where r: "protectContent plain_crypto (en_protect ex_env) (protect_of ex_config ex_prepare plain_crypto) = Inr r"
    and k: "ex_kept env (pc_dek r) st1"
    using ex_keys ex_prepared by blast
  then obtain iv seed w ctx where w: "length iv = 12" "wrapDek plain_crypto iv seed ctx (pc_dek r) (ex_rsa False 1) = Inr w"
    by (auto simp: ex_kept_def ex_record_ok_def wraps_def)
  have i: "ci_content (protect_of ex_config ex_prepare plain_crypto) = [1, 2, 3]"
    "ci_domainPayload (protect_of ex_config ex_prepare plain_crypto) = canonical plain_crypto (evidence_json ex_evidence)"
    by (simp_all add: protect_of_def ex_prepare_def)
  show ?thesis
    using protected_content_roundtrip [OF plain_crypto_encryption r w(2,1), unfolded i] r key_pair_ex [of 1]
    by (intro exI [of _ r] exI [of _ w] exI [of _ ctx]) simp
qed

end
