(* ===== verification/Transport_Journal.thy ===== *)
theory Transport_Journal
  imports Schemas
begin

text \<open>
  The journal of model invocations, \<open>src/evaluation/transport-attempt-journal.ts\<close>: an append-only, hash-chained file of attempts
  that a restarted evaluation reads back. Operations run one after another (\<open>enqueue\<close>). Parameters (\<open>journal_lib\<close>): the tests
  \<open>z.string().uuid()\<close> and \<open>datetime()\<close>, the SHA-256 of the canonical JSON of an unsigned event, \<open>JSON.stringify\<close> of an event and
  \<open>JSON.parse\<close> of a line, which yields no event where the line does not parse. Identifiers, times and what the file system does
  (\<open>io\<close>) are arguments. \<open>z.number().int()\<close> accepts safe integers. A write that fails has put a prefix of its line into the file.
\<close>

subsection \<open>Events\<close>

record journal_binding =
  jb_evaluation_set_id :: string
  jb_source_commit :: string
  jb_freeze_sha256 :: string
  jb_corpus_file_sha256 :: string
  jb_logical_corpus_sha256 :: string

record attempt_identity =
  at_observation_id :: string
  at_case_id :: string
  at_configuration_id :: string
  at_repetition :: int
  at_provider :: string
  at_model :: string

record attempt_reference =
  af_observation_id :: string
  af_case_id :: string
  af_configuration_id :: string
  af_repetition :: int
  af_attempt_sequence :: int
  af_cycle_id :: string
  af_cycle_attempt :: int

datatype error_category = Http408 | Http409 | Http429 | Http5xx | ConnectionReset | Timeout | DnsTemporary | ConnectionRefused
  | ConnectionError | ProviderError

record started_body =
  sb_provider :: string
  sb_model :: string
  sb_model_input_sha256 :: string
  sb_presented_support_ids :: "string list"
  sb_retry :: bool

record succeeded_body =
  cb_provider :: string
  cb_model :: string
  cb_response_id :: "string option"
  cb_input_tokens :: "int option"
  cb_output_tokens :: "int option"

datatype terminal_body = Succeeded succeeded_body | Failed bool error_category | Interrupted

datatype event_body = Started started_body | Ended string int terminal_body \<comment> \<open>\<open>started_event_id\<close>, \<open>duration_ms\<close>\<close>

record unsigned_attempt_event =
  ue_event_id :: string
  ue_previous_event_sha256 :: "string option"
  ue_binding :: journal_binding
  ue_reference :: attempt_reference
  ue_recorded_at :: string
  ue_body :: event_body

record attempt_event =
  ae_unsigned :: unsigned_attempt_event
  ae_event_sha256 :: string

record journal_lib =
  jl_uuid :: "string \<Rightarrow> bool"
  jl_datetime :: "string \<Rightarrow> bool"
  jl_digest :: "unsigned_attempt_event \<Rightarrow> string"
  jl_print :: "attempt_event \<Rightarrow> string"
  jl_parse :: "string \<Rightarrow> attempt_event option"

definition commit_ok :: "string \<Rightarrow> bool" where
  "commit_ok s = (length s = 40 \<and> list_all is_hex_lower s)"

definition binding_schema_ok :: "journal_binding \<Rightarrow> bool" where
  "binding_schema_ok b = (jb_evaluation_set_id b \<noteq> [] \<and> commit_ok (jb_source_commit b) \<and> bytes32Hex_ok (jb_freeze_sha256 b)
     \<and> bytes32Hex_ok (jb_corpus_file_sha256 b) \<and> bytes32Hex_ok (jb_logical_corpus_sha256 b))"

definition tokens_ok :: "int option \<Rightarrow> bool" where
  "tokens_ok t = (case t of None \<Rightarrow> True | Some n \<Rightarrow> 0 \<le> n \<and> n \<le> max_safe_integer)"

fun terminal_ok :: "terminal_body \<Rightarrow> bool" where
  "terminal_ok (Succeeded c) = (cb_provider c \<noteq> [] \<and> cb_model c \<noteq> [] \<and> tokens_ok (cb_input_tokens c) \<and> tokens_ok (cb_output_tokens c))"
| "terminal_ok (Failed transient category) = True"
| "terminal_ok Interrupted = True"

fun body_ok :: "journal_lib \<Rightarrow> event_body \<Rightarrow> bool" where
  "body_ok jl (Started s) = (sb_provider s \<noteq> [] \<and> sb_model s \<noteq> [] \<and> bytes32Hex_ok (sb_model_input_sha256 s))"
| "body_ok jl (Ended started duration t) = (jl_uuid jl started \<and> 0 \<le> duration \<and> duration \<le> max_safe_integer \<and> terminal_ok t)"

definition reference_schema_ok :: "journal_lib \<Rightarrow> attempt_reference \<Rightarrow> bool" where
  "reference_schema_ok jl r = (af_observation_id r \<noteq> [] \<and> af_case_id r \<noteq> [] \<and> af_configuration_id r \<noteq> []
     \<and> positiveSafeInteger_ok (af_repetition r) \<and> positiveSafeInteger_ok (af_attempt_sequence r) \<and> jl_uuid jl (af_cycle_id r) \<and> 1 \<le> af_cycle_attempt r \<and> af_cycle_attempt r \<le> 3)"

definition transportAttemptEventSchema :: "journal_lib \<Rightarrow> attempt_event \<Rightarrow> bool" where
  "transportAttemptEventSchema jl e = (let u = ae_unsigned e in jl_uuid jl (ue_event_id u)
     \<and> (case ue_previous_event_sha256 u of None \<Rightarrow> True | Some d \<Rightarrow> bytes32Hex_ok d) \<and> bytes32Hex_ok (ae_event_sha256 e)
     \<and> binding_schema_ok (ue_binding u) \<and> reference_schema_ok jl (ue_reference u) \<and> jl_datetime jl (ue_recorded_at u) \<and> body_ok jl (ue_body u))"

abbreviation event_id :: "attempt_event \<Rightarrow> string" where
  "event_id e \<equiv> ue_event_id (ae_unsigned e)"

abbreviation observation_of :: "attempt_event \<Rightarrow> string" where
  "observation_of e \<equiv> af_observation_id (ue_reference (ae_unsigned e))"

definition is_started :: "attempt_event \<Rightarrow> bool" where
  "is_started e = (case ue_body (ae_unsigned e) of Started _ \<Rightarrow> True | Ended _ _ _ \<Rightarrow> False)"

definition started_by :: "attempt_event \<Rightarrow> string option" where
  "started_by e = (case ue_body (ae_unsigned e) of Started _ \<Rightarrow> None | Ended i _ _ \<Rightarrow> Some i)"

subsection \<open>The journal\<close>

record attempt_journal =
  aj_file :: "string option"
  aj_binding :: journal_binding
  aj_events :: "attempt_event list"

datatype journal_error = InvalidLine nat | BindingMismatch nat | BrokenChain nat | InvalidDigest nat
  | DuplicateEvent | RepeatsSupport | NonSequential | InvalidRetry | InvalidTerminal | TerminalMismatch
  | JournalSchema | JournalIo | CannotResume | NotReconciled | JournalTypeError

definition newline :: char where
  "newline = CHR 0x0A"

text \<open>\<open>trim\<close> within Latin-1.\<close>

definition is_blank :: "string \<Rightarrow> bool" where
  "is_blank s = list_all (\<lambda>c. c \<in> {CHR 0x09, CHR 0x0A, CHR 0x0B, CHR 0x0C, CHR 0x0D, CHR 0x20, CHR 0xA0}) s"

definition parse_line :: "journal_lib \<Rightarrow> string \<Rightarrow> attempt_event option" where
  "parse_line jl s = (case jl_parse jl s of None \<Rightarrow> None | Some e \<Rightarrow> if transportAttemptEventSchema jl e then Some e else None)"

text \<open>The loop over the lines; events read before a bad line stay in the journal.\<close>

fun load_lines ::
  "journal_lib \<Rightarrow> journal_binding \<Rightarrow> nat \<Rightarrow> string option \<Rightarrow> string list \<Rightarrow> attempt_event list \<Rightarrow> (journal_error + unit) \<times> attempt_event list" where
  "load_lines jl b n previous [] events = (Inr (), events)"
| "load_lines jl b n previous (line # rest) events =
     (if is_blank line then load_lines jl b (n + 1) previous rest events
      else case parse_line jl line of
        None \<Rightarrow> (Inl (InvalidLine (n + 1)), events)
      | Some e \<Rightarrow>
          if ue_binding (ae_unsigned e) \<noteq> b then (Inl (BindingMismatch (n + 1)), events)
          else if ue_previous_event_sha256 (ae_unsigned e) \<noteq> previous then (Inl (BrokenChain (n + 1)), events)
          else if ae_event_sha256 e \<noteq> jl_digest jl (ae_unsigned e) then (Inl (InvalidDigest (n + 1)), events)
          else load_lines jl b (n + 1) (Some (ae_event_sha256 e)) rest (events @ [e]))"

record consistency_state =
  cs_eventIds :: "string list"
  cs_attempts :: "(string \<times> int) list"
  cs_starts :: "(string \<times> attempt_event) list"
  cs_terminals :: "string list"

definition sameAttempt :: "attempt_event \<Rightarrow> attempt_event \<Rightarrow> bool" where
  "sameAttempt s t = (let x = ue_reference (ae_unsigned s); y = ue_reference (ae_unsigned t) in
     af_observation_id x = af_observation_id y \<and> af_case_id x = af_case_id y \<and> af_configuration_id x = af_configuration_id y
     \<and> af_repetition x = af_repetition y \<and> af_attempt_sequence x = af_attempt_sequence y \<and> af_cycle_id x = af_cycle_id y
     \<and> af_cycle_attempt x = af_cycle_attempt y)"

definition check_started :: "started_body \<Rightarrow> attempt_event \<Rightarrow> consistency_state \<Rightarrow> journal_error + consistency_state" where
  "check_started b e s = (let r = ue_reference (ae_unsigned e);
       expected = (case jm_get (cs_attempts s) (af_observation_id r) of None \<Rightarrow> 0 | Some n \<Rightarrow> n) + 1 in
     rbind (check (\<not> distinct (sb_presented_support_ids b)) RepeatsSupport) (\<lambda>_.
     rbind (check (af_attempt_sequence r \<noteq> expected) NonSequential) (\<lambda>_.
     rbind (check (sb_retry b \<noteq> (af_attempt_sequence r > 1)) InvalidRetry) (\<lambda>_.
     Inr (s\<lparr>cs_attempts := jm_set (af_observation_id r) expected (cs_attempts s),
            cs_starts := jm_set (event_id e) e (cs_starts s)\<rparr>)))))"

definition check_ended :: "string \<Rightarrow> attempt_event \<Rightarrow> consistency_state \<Rightarrow> journal_error + consistency_state" where
  "check_ended i e s = (case jm_get (cs_starts s) i of
     None \<Rightarrow> Inl InvalidTerminal
   | Some st \<Rightarrow> if i \<in> set (cs_terminals s) then Inl InvalidTerminal
       else if \<not> sameAttempt st e then Inl TerminalMismatch
       else Inr (s\<lparr>cs_terminals := cs_terminals s @ [i]\<rparr>))"

definition check_event :: "consistency_state \<Rightarrow> attempt_event \<Rightarrow> journal_error + consistency_state" where
  "check_event s e =
     rbind (check (event_id e \<in> set (cs_eventIds s)) DuplicateEvent) (\<lambda>_.
     let s' = s\<lparr>cs_eventIds := cs_eventIds s @ [event_id e]\<rparr> in
     case ue_body (ae_unsigned e) of Started b \<Rightarrow> check_started b e s' | Ended i d t \<Rightarrow> check_ended i e s')"

fun check_events :: "consistency_state \<Rightarrow> attempt_event list \<Rightarrow> journal_error + consistency_state" where
  "check_events s [] = Inr s"
| "check_events s (e # es) = rbind (check_event s e) (\<lambda>s'. check_events s' es)"

definition consistency_start :: consistency_state where
  "consistency_start = \<lparr>cs_eventIds = [], cs_attempts = [], cs_starts = [], cs_terminals = []\<rparr>"

definition assertInternalConsistency :: "attempt_event list \<Rightarrow> journal_error + unit" where
  "assertInternalConsistency events = rbind (check_events consistency_start events) (\<lambda>_. Inr ())"

definition new_journal :: "string option \<Rightarrow> journal_binding \<Rightarrow> journal_error + attempt_journal" where
  "new_journal file b = rbind (parse_with binding_schema_ok JournalSchema b) (\<lambda>b. Inr \<lparr>aj_file = file, aj_binding = b, aj_events = []\<rparr>)"

definition journal_initialize :: "journal_lib \<Rightarrow> attempt_journal \<Rightarrow> (journal_error + unit) \<times> attempt_journal" where
  "journal_initialize jl j =
     (let content = (case aj_file j of None \<Rightarrow> [] | Some c \<Rightarrow> c) in
      case load_lines jl (aj_binding j) 0 None (split_on newline content) (aj_events j) of
        (Inl e, events) \<Rightarrow> (Inl e, j\<lparr>aj_events := events\<rparr>)
      | (Inr _, events) \<Rightarrow> (assertInternalConsistency events, j\<lparr>aj_events := events\<rparr>))"

subsection \<open>Reading the journal\<close>

definition startsFor :: "attempt_journal \<Rightarrow> string \<Rightarrow> attempt_event list" where
  "startsFor j obs = filter (\<lambda>e. is_started e \<and> observation_of e = obs) (aj_events j)"

definition terminalsFor :: "attempt_journal \<Rightarrow> string \<Rightarrow> attempt_event list" where
  "terminalsFor j obs = filter (\<lambda>e. \<not> is_started e \<and> observation_of e = obs) (aj_events j)"

definition terminalForStart :: "attempt_journal \<Rightarrow> string \<Rightarrow> attempt_event option" where
  "terminalForStart j i = find (\<lambda>e. started_by e = Some i) (aj_events j)"

definition openStarts :: "attempt_journal \<Rightarrow> attempt_event list" where
  "openStarts j = filter (\<lambda>e. is_started e \<and> terminalForStart j (event_id e) = None) (aj_events j)"

definition attemptsFor :: "attempt_journal \<Rightarrow> string \<Rightarrow> nat" where
  "attemptsFor j obs = length (startsFor j obs)"

definition is_success :: "attempt_event \<Rightarrow> bool" where
  "is_success e = (case ue_body (ae_unsigned e) of Ended _ _ (Succeeded _) \<Rightarrow> True | _ \<Rightarrow> False)"

definition is_interrupted :: "attempt_event \<Rightarrow> bool" where
  "is_interrupted e = (case ue_body (ae_unsigned e) of Ended _ _ Interrupted \<Rightarrow> True | _ \<Rightarrow> False)"

definition is_failure :: "attempt_event \<Rightarrow> bool" where
  "is_failure e = (case ue_body (ae_unsigned e) of Ended _ _ (Failed _ _) \<Rightarrow> True | _ \<Rightarrow> False)"

definition is_permanent :: "attempt_event \<Rightarrow> bool" where
  "is_permanent e = (case ue_body (ae_unsigned e) of Ended _ _ (Failed transient _) \<Rightarrow> \<not> transient | _ \<Rightarrow> False)"

definition remainingAttemptBudget :: "attempt_journal \<Rightarrow> string \<Rightarrow> int \<Rightarrow> int" where
  "remainingAttemptBudget j obs maximum =
     (if list_ex is_success (terminalsFor j obs) then 0
      else if list_ex is_interrupted (terminalsFor j obs) then 0
      else if list_ex is_permanent (terminalsFor j obs) then 0
      else max 0 (maximum - int (length (startsFor j obs))))"

definition assertCanResumeObservation :: "attempt_journal \<Rightarrow> string \<Rightarrow> int \<Rightarrow> journal_error + unit" where
  "assertCanResumeObservation j obs maximum =
     rbind (check (list_ex is_success (terminalsFor j obs)) CannotResume) (\<lambda>_.
     rbind (check (list_ex is_interrupted (terminalsFor j obs)) CannotResume) (\<lambda>_.
     rbind (check (list_ex is_permanent (terminalsFor j obs)) CannotResume) (\<lambda>_.
     check (int (length (startsFor j obs)) \<ge> maximum) CannotResume)))"

record journal_observation =
  jo_observation_id :: string
  jo_model_invoked :: bool
  jo_transport_attempts :: int
  jo_response_id :: "string option"
  jo_provider :: string
  jo_model :: string
  jo_input_tokens :: "int option"
  jo_output_tokens :: "int option"
  jo_model_input_sha256 :: "string option"
  jo_presented_support_ids :: "string list"

definition same_success :: "journal_observation \<Rightarrow> succeeded_body \<Rightarrow> bool" where
  "same_success obs c = (cb_provider c = jo_provider obs \<and> cb_model c = jo_model obs \<and> cb_response_id c = jo_response_id obs
     \<and> cb_input_tokens c = jo_input_tokens obs \<and> cb_output_tokens c = jo_output_tokens obs)"

definition same_input :: "journal_observation \<Rightarrow> attempt_event \<Rightarrow> bool" where
  "same_input obs start = (case ue_body (ae_unsigned start) of
     Started b \<Rightarrow> Some (sb_model_input_sha256 b) = jo_model_input_sha256 obs \<and> sb_presented_support_ids b = jo_presented_support_ids obs
   | Ended _ _ _ \<Rightarrow> False)"

definition reconcile_observation :: "attempt_journal \<Rightarrow> journal_observation \<Rightarrow> journal_error + unit" where
  "reconcile_observation j obs = (let starts = startsFor j (jo_observation_id obs);
       successes = filter is_success (terminalsFor j (jo_observation_id obs)) in
     if \<not> jo_model_invoked obs then check (starts \<noteq> []) NotReconciled
     else rbind (check (int (length starts) \<noteq> jo_transport_attempts obs \<or> length successes \<noteq> 1) NotReconciled) (\<lambda>_.
       case ue_body (ae_unsigned (hd successes)) of
         Ended i _ (Succeeded c) \<Rightarrow>
           rbind (check (\<not> same_success obs c) NotReconciled) (\<lambda>_.
           case find (\<lambda>e. event_id e = i) starts of
             None \<Rightarrow> Inl JournalTypeError
           | Some start \<Rightarrow> check (\<not> same_input obs start) NotReconciled)
       | _ \<Rightarrow> Inl NotReconciled))"

fun reconcile_all :: "attempt_journal \<Rightarrow> journal_observation list \<Rightarrow> journal_error + unit" where
  "reconcile_all j [] = Inr ()"
| "reconcile_all j (obs # rest) = rbind (reconcile_observation j obs) (\<lambda>_. reconcile_all j rest)"

definition assertReconciled :: "attempt_journal \<Rightarrow> journal_observation list \<Rightarrow> bool \<Rightarrow> journal_error + unit" where
  "assertReconciled j observations allow_unobserved =
     rbind (reconcile_all j observations) (\<lambda>_.
     check (list_ex (\<lambda>e. is_started e \<and> observation_of e \<notin> set (map jo_observation_id observations) \<and> \<not> allow_unobserved
       \<and> (case terminalForStart j (event_id e) of None \<Rightarrow> False | Some t \<Rightarrow> is_success t)) (aj_events j)) NotReconciled)"

record attempt_summary =
  su_observations_attempted :: nat
  su_transport_attempts :: nat
  su_retry_attempts :: int
  su_successful_invocations :: nat
  su_failed_attempts :: nat
  su_interrupted_attempts :: nat
  su_open_attempts :: nat
  su_input_tokens :: int
  su_output_tokens :: int

definition tokens_of :: "(succeeded_body \<Rightarrow> int option) \<Rightarrow> attempt_event \<Rightarrow> int" where
  "tokens_of f e = (case ue_body (ae_unsigned e) of Ended _ _ (Succeeded c) \<Rightarrow> (case f c of None \<Rightarrow> 0 | Some n \<Rightarrow> n) | _ \<Rightarrow> 0)"

definition journal_summary :: "attempt_journal \<Rightarrow> attempt_summary" where
  "journal_summary j = (let starts = filter is_started (aj_events j); terminals = filter (\<lambda>e. \<not> is_started e) (aj_events j);
       successes = filter is_success terminals; observed = length (remdups (map observation_of starts)) in
     \<lparr>su_observations_attempted = observed, su_transport_attempts = length starts,
      su_retry_attempts = int (length starts) - int observed, su_successful_invocations = length successes,
      su_failed_attempts = length (filter is_failure terminals), su_interrupted_attempts = length (filter is_interrupted terminals),
      su_open_attempts = length (openStarts j), su_input_tokens = sum_list (map (tokens_of cb_input_tokens) successes),
      su_output_tokens = sum_list (map (tokens_of cb_output_tokens) successes)\<rparr>)"

subsection \<open>Writing the journal\<close>

datatype io = IoOk | IoFails nat

record draw =
  dw_io :: io
  dw_event_id :: string
  dw_recorded_at :: string

definition journal_line :: "journal_lib \<Rightarrow> attempt_event \<Rightarrow> string" where
  "journal_line jl e = jl_print jl e @ [newline]"

definition write_file :: "string \<Rightarrow> attempt_journal \<Rightarrow> attempt_journal" where
  "write_file text j = j\<lparr>aj_file := Some ((case aj_file j of None \<Rightarrow> [] | Some c \<Rightarrow> c) @ text)\<rparr>"

definition appendEvent :: "journal_lib \<Rightarrow> io \<Rightarrow> attempt_event \<Rightarrow> attempt_journal \<Rightarrow> (journal_error + unit) \<times> attempt_journal" where
  "appendEvent jl d e j = (case d of
     IoFails n \<Rightarrow> (Inl JournalIo, write_file (take n (journal_line jl e)) j)
   | IoOk \<Rightarrow> (Inr (), (write_file (journal_line jl e) j)\<lparr>aj_events := aj_events j @ [e]\<rparr>))"

definition last_event_hash :: "attempt_event list \<Rightarrow> string option" where
  "last_event_hash es = (if es = [] then None else Some (ae_event_sha256 (last es)))"

definition makeEvent :: "journal_lib \<Rightarrow> attempt_journal \<Rightarrow> draw \<Rightarrow> attempt_reference \<Rightarrow> event_body \<Rightarrow> attempt_event" where
  "makeEvent jl j d r b = (let u = \<lparr>ue_event_id = dw_event_id d, ue_previous_event_sha256 = last_event_hash (aj_events j),
       ue_binding = aj_binding j, ue_reference = r, ue_recorded_at = dw_recorded_at d, ue_body = b\<rparr> in
     \<lparr>ae_unsigned = u, ae_event_sha256 = jl_digest jl u\<rparr>)"

definition record_event ::
  "journal_lib \<Rightarrow> draw \<Rightarrow> attempt_reference \<Rightarrow> event_body \<Rightarrow> attempt_journal \<Rightarrow> (journal_error + attempt_event) \<times> attempt_journal" where
  "record_event jl d r b j = (let e = makeEvent jl j d r b in
     if \<not> transportAttemptEventSchema jl e then (Inl JournalSchema, j)
     else (case appendEvent jl (dw_io d) e j of (Inl x, j') \<Rightarrow> (Inl x, j') | (Inr _, j') \<Rightarrow> (Inr e, j')))"

record model_input =
  mi_sha256 :: string
  mi_support_ids :: "string list"

record model_result =
  mr_provider :: string
  mr_model :: string
  mr_responseId :: "string option"
  mr_inputTokens :: "int option"
  mr_outputTokens :: "int option"

definition begin_reference :: "attempt_journal \<Rightarrow> attempt_identity \<Rightarrow> string \<Rightarrow> int \<Rightarrow> attempt_reference" where
  "begin_reference j a cycleId cycleAttempt = \<lparr>af_observation_id = at_observation_id a, af_case_id = at_case_id a,
     af_configuration_id = at_configuration_id a, af_repetition = at_repetition a,
     af_attempt_sequence = int (length (startsFor j (at_observation_id a))) + 1, af_cycle_id = cycleId, af_cycle_attempt = cycleAttempt\<rparr>"

definition beginAttempt ::
  "journal_lib \<Rightarrow> draw \<Rightarrow> attempt_identity \<Rightarrow> model_input \<Rightarrow> string \<Rightarrow> int \<Rightarrow> attempt_journal
    \<Rightarrow> (journal_error + attempt_event) \<times> attempt_journal" where
  "beginAttempt jl d a input cycleId cycleAttempt j =
     record_event jl d (begin_reference j a cycleId cycleAttempt)
       (Started \<lparr>sb_provider = at_provider a, sb_model = at_model a, sb_model_input_sha256 = mi_sha256 input,
          sb_presented_support_ids = mi_support_ids input, sb_retry = (startsFor j (at_observation_id a) \<noteq> [])\<rparr>) j"

definition completeSuccess ::
  "journal_lib \<Rightarrow> draw \<Rightarrow> attempt_event \<Rightarrow> model_result \<Rightarrow> int \<Rightarrow> attempt_journal \<Rightarrow> (journal_error + attempt_event) \<times> attempt_journal" where
  "completeSuccess jl d started result duration j =
     record_event jl d (ue_reference (ae_unsigned started)) (Ended (event_id started) duration
       (Succeeded \<lparr>cb_provider = mr_provider result, cb_model = mr_model result, cb_response_id = mr_responseId result,
          cb_input_tokens = mr_inputTokens result, cb_output_tokens = mr_outputTokens result\<rparr>)) j"

subsection \<open>Errors of the provider\<close>

text \<open>
  An error is a value or an object on a heap; causes may be cyclic. \<open>en_is_timeout\<close> and \<open>en_is_connection\<close> are the tests for
  OpenAI's classes, by class or by name.
\<close>

datatype error_value = PlainValue | ErrorObject nat

record error_node =
  en_is_timeout :: bool
  en_is_connection :: bool
  en_status :: "int option"
  en_code :: "string option"
  en_cause :: "error_value option"

definition own_category :: "error_node \<Rightarrow> error_category option" where
  "own_category n =
     (if en_status n = Some 408 then Some Http408 else if en_status n = Some 409 then Some Http409
      else if en_status n = Some 429 then Some Http429
      else if (case en_status n of None \<Rightarrow> False | Some s \<Rightarrow> s \<ge> 500) then Some Http5xx
      else if en_code n = Some ''ECONNRESET'' then Some ConnectionReset
      else if en_code n = Some ''ETIMEDOUT'' then Some Timeout
      else if en_code n = Some ''EAI_AGAIN'' then Some DnsTemporary
      else if en_code n = Some ''ECONNREFUSED'' then Some ConnectionRefused else None)"

function transientTransportCategory :: "error_node list \<Rightarrow> nat list \<Rightarrow> error_value \<Rightarrow> error_category option" where
  "transientTransportCategory heap visited PlainValue = None"
| "transientTransportCategory heap visited (ErrorObject a) =
     (if a \<in> set visited \<or> length heap \<le> a then None
      else let n = heap ! a;
               nested = (case en_cause n of None \<Rightarrow> None | Some c \<Rightarrow> transientTransportCategory heap (a # visited) c) in
        if en_is_timeout n then Some Timeout
        else if en_is_connection n then (case nested of None \<Rightarrow> Some ConnectionError | Some x \<Rightarrow> Some x)
        else case own_category n of Some x \<Rightarrow> Some x | None \<Rightarrow> nested)"
  by pat_completeness auto

termination
proof (relation "measure (\<lambda>(heap, visited, e). card ({..<length heap} - set visited))")
  fix heap :: "error_node list" and visited :: "nat list" and a c and n :: error_node
  assume "\<not> (a \<in> set visited \<or> length heap \<le> a)"
  then have a: "a \<in> {..<length heap} - set visited" by simp
  have "{..<length heap} - set (a # visited) = ({..<length heap} - set visited) - {a}" by (simp add: set_diff_eq) blast
  then have "card ({..<length heap} - set (a # visited)) < card ({..<length heap} - set visited)"
    using card_Diff1_less [OF _ a] by simp
  then show "((heap, a # visited, c), heap, visited, ErrorObject a) \<in> measure (\<lambda>(heap, visited, e). card ({..<length heap} - set visited))"
    by simp
qed simp

definition isTransientTransportError :: "error_node list \<Rightarrow> error_value \<Rightarrow> bool" where
  "isTransientTransportError heap e = (transientTransportCategory heap [] e \<noteq> None)"

definition transportErrorCategory :: "error_node list \<Rightarrow> error_value \<Rightarrow> error_category" where
  "transportErrorCategory heap e = (case transientTransportCategory heap [] e of None \<Rightarrow> ProviderError | Some c \<Rightarrow> c)"

definition completeFailure ::
  "journal_lib \<Rightarrow> draw \<Rightarrow> attempt_event \<Rightarrow> error_node list \<times> error_value \<Rightarrow> int \<Rightarrow> attempt_journal
    \<Rightarrow> (journal_error + attempt_event) \<times> attempt_journal" where
  "completeFailure jl d started err duration j =
     record_event jl d (ue_reference (ae_unsigned started)) (Ended (event_id started) duration
       (Failed (isTransientTransportError (fst err) (snd err)) (transportErrorCategory (fst err) (snd err)))) j"

subsection \<open>Interrupted attempts and the model that keeps the journal\<close>

definition interrupt :: "journal_lib \<Rightarrow> draw \<Rightarrow> int \<Rightarrow> attempt_event \<Rightarrow> attempt_journal \<Rightarrow> (journal_error + attempt_event) \<times> attempt_journal" where
  "interrupt jl d duration started j =
     record_event jl d (ue_reference (ae_unsigned started)) (Ended (event_id started) (max 0 duration) Interrupted) j"

text \<open>The loop of \<open>markOpenAttemptsInterrupted\<close>; \<open>draws\<close> gives the identifier, the time and the age of each event.\<close>

fun interrupt_all ::
  "journal_lib \<Rightarrow> (nat \<Rightarrow> draw \<times> int) \<Rightarrow> nat \<Rightarrow> attempt_event list \<Rightarrow> attempt_journal \<Rightarrow> (journal_error + unit) \<times> attempt_journal" where
  "interrupt_all jl draws n [] j = (Inr (), j)"
| "interrupt_all jl draws n (s # rest) j =
     (case interrupt jl (fst (draws n)) (snd (draws n)) s j of
        (Inl x, j') \<Rightarrow> (Inl x, j') | (Inr _, j') \<Rightarrow> interrupt_all jl draws (n + 1) rest j')"

definition markOpenAttemptsInterrupted ::
  "journal_lib \<Rightarrow> (nat \<Rightarrow> draw \<times> int) \<Rightarrow> attempt_journal \<Rightarrow> (journal_error + nat) \<times> attempt_journal" where
  "markOpenAttemptsInterrupted jl draws j = (let opened = openStarts j in
     case interrupt_all jl draws 0 opened j of (Inl x, j') \<Rightarrow> (Inl x, j') | (Inr _, j') \<Rightarrow> (Inr (length opened), j'))"

record journaled_model =
  jn_lastResult :: "model_result option"
  jn_lastInput :: "model_input option"
  jn_identity :: attempt_identity
  jn_cycleId :: string
  jn_cycleAttempt :: int

datatype generate_error = FromJournal journal_error | FromDelegate "error_node list \<times> error_value"

text \<open>\<open>generate\<close> up to the call of the delegate, and from its answer on.\<close>

definition generate_begin ::
  "journal_lib \<Rightarrow> draw \<Rightarrow> model_input \<Rightarrow> journaled_model \<Rightarrow> attempt_journal
    \<Rightarrow> (journal_error + attempt_event) \<times> journaled_model \<times> attempt_journal" where
  "generate_begin jl d input m j =
     (let m' = m\<lparr>jn_lastInput := Some input, jn_cycleAttempt := jn_cycleAttempt m + 1\<rparr> in
      case beginAttempt jl d (jn_identity m') input (jn_cycleId m') (jn_cycleAttempt m') j of (r, j') \<Rightarrow> (r, m', j'))"

definition generate_finish ::
  "journal_lib \<Rightarrow> draw \<Rightarrow> draw \<Rightarrow> int \<Rightarrow> attempt_event \<Rightarrow> (error_node list \<times> error_value) + model_result \<Rightarrow> journaled_model \<Rightarrow> attempt_journal
    \<Rightarrow> (generate_error + model_result) \<times> journaled_model \<times> attempt_journal" where
  "generate_finish jl d d' duration started answer m j =
     (let failed = (\<lambda>err x j. case completeFailure jl d' started err duration j of
            (Inl e, j') \<Rightarrow> (Inl (FromJournal e), m, j') | (Inr _, j') \<Rightarrow> (Inl x, m, j')) in
      case answer of
        Inl err \<Rightarrow> failed err (FromDelegate err) j
      | Inr result \<Rightarrow> (case completeSuccess jl d started result duration j of
            (Inr _, j') \<Rightarrow> (Inr result, m\<lparr>jn_lastResult := Some result\<rparr>, j')
          | (Inl e, j') \<Rightarrow> failed ([], PlainValue) (FromJournal e) j'))"

end
