(* ===== verification/Journal_Runs.thy ===== *)
theory Journal_Runs
  imports Transport_Journal
begin

text \<open>
  Runs of the journal of \<open>Transport_Journal\<close>: several models write to it, their calls interleave, and the process may die
  and start again. The locale \<open>journal_codec\<close> states what is relied on of \<open>JSON.stringify\<close> and \<open>JSON.parse\<close>: an event is
  printed on one line that is not blank, and read back.
\<close>

locale journal_codec =
  fixes jl :: journal_lib
  assumes print_parse: "transportAttemptEventSchema jl e \<Longrightarrow> jl_parse jl (jl_print jl e) = Some e"
    and print_line: "newline \<notin> set (jl_print jl e)"
    and print_visible: "\<not> is_blank (jl_print jl e)"

subsection \<open>Consistent events\<close>

lemma image_neq: "y \<notin> f ` A \<Longrightarrow> x \<in> A \<Longrightarrow> f x \<noteq> y"
  by auto

lemma check_events_append: "check_events s (xs @ ys) = rbind (check_events s xs) (\<lambda>t. check_events t ys)"
proof (induction xs arbitrary: s)
  case (Cons x xs)
  then show ?case by (cases "check_event s x") simp_all
qed simp

definition starts_in :: "attempt_event list \<Rightarrow> string \<Rightarrow> attempt_event list" where
  "starts_in es obs = filter (\<lambda>e. is_started e \<and> observation_of e = obs) es"

definition ended_in :: "attempt_event list \<Rightarrow> string set" where
  "ended_in es = {i. \<exists>e\<in>set es. started_by e = Some i}"

text \<open>What the maps and sets of the check hold after the events \<open>es\<close>.\<close>

definition describes :: "attempt_event list \<Rightarrow> consistency_state \<Rightarrow> bool" where
  "describes es s = (set (cs_eventIds s) = event_id ` set es
     \<and> (\<forall>obs. (case jm_get (cs_attempts s) obs of None \<Rightarrow> 0 | Some n \<Rightarrow> n) = int (length (starts_in es obs)))
     \<and> (\<forall>i t. jm_get (cs_starts s) i = Some t \<longleftrightarrow> t \<in> set es \<and> is_started t \<and> event_id t = i)
     \<and> set (cs_terminals s) = ended_in es)"

text \<open>The conditions under which one more event is consistent.\<close>

fun fits :: "attempt_event list \<Rightarrow> attempt_event \<Rightarrow> event_body \<Rightarrow> bool" where
  "fits es e (Started b) = (distinct (sb_presented_support_ids b)
     \<and> af_attempt_sequence (ue_reference (ae_unsigned e)) = int (length (starts_in es (observation_of e))) + 1
     \<and> sb_retry b = (af_attempt_sequence (ue_reference (ae_unsigned e)) > 1))"
| "fits es e (Ended i d t) = (i \<notin> ended_in es \<and> (\<exists>s\<in>set es. is_started s \<and> event_id s = i \<and> sameAttempt s e))"

lemma describes_start: "describes [] consistency_start"
  by (simp add: describes_def consistency_start_def starts_in_def ended_in_def)

lemma check_event_step:
  assumes d: "describes es s"
  shows "(\<exists>s'. check_event s e = Inr s') \<longleftrightarrow> event_id e \<notin> event_id ` set es \<and> fits es e (ue_body (ae_unsigned e))"
    and "check_event s e = Inr s' \<Longrightarrow> describes (es @ [e]) s'"
proof -
  have ids: "set (cs_eventIds s) = event_id ` set es" and ends: "set (cs_terminals s) = ended_in es"
    and att: "(case jm_get (cs_attempts s) obs of None \<Rightarrow> 0 | Some n \<Rightarrow> n) = int (length (starts_in es obs))"
    and starts: "jm_get (cs_starts s) i = Some t \<longleftrightarrow> t \<in> set es \<and> is_started t \<and> event_id t = i" for obs i t
    using d by (simp_all add: describes_def)
  show "(\<exists>s'. check_event s e = Inr s') \<longleftrightarrow> event_id e \<notin> event_id ` set es \<and> fits es e (ue_body (ae_unsigned e))"
  proof (cases "ue_body (ae_unsigned e)")
    case (Started b)
    then show ?thesis by (auto simp: check_event_def check_started_def Let_def ids att outcome_simps check_def)
  next
    case (Ended i dur t)
    show ?thesis
    proof (cases "jm_get (cs_starts s) i")
      case None
      then have "\<not> (\<exists>s\<in>set es. is_started s \<and> event_id s = i)" using starts [of i] by auto
      then show ?thesis using Ended None by (auto simp: check_event_def check_ended_def Let_def outcome_simps)
    next
      case (Some st)
      then have "x \<in> set es \<and> is_started x \<and> event_id x = i \<longleftrightarrow> x = st" for x using starts [of i x] by auto
      then have "(\<exists>s\<in>set es. is_started s \<and> event_id s = i \<and> sameAttempt s e) \<longleftrightarrow> sameAttempt st e" by metis
      then show ?thesis using Ended Some by (auto simp: check_event_def check_ended_def Let_def ids ends outcome_simps check_def)
    qed
  qed
  assume c: "check_event s e = Inr s'"
  show "describes (es @ [e]) s'"
  proof (cases "ue_body (ae_unsigned e)")
    case (Started b)
    let ?n = "int (length (starts_in es (observation_of e))) + 1"
    have s': "s' = s\<lparr>cs_eventIds := cs_eventIds s @ [event_id e], cs_attempts := jm_set (observation_of e) ?n (cs_attempts s),
        cs_starts := jm_set (event_id e) e (cs_starts s)\<rparr>" and new: "event_id e \<notin> event_id ` set es"
      using c Started by (auto simp: check_event_def check_started_def Let_def ids att outcome_simps)
    have "is_started e" "started_by e = None" using Started by (simp_all add: is_started_def started_by_def)
    moreover have "event_id t \<noteq> event_id e" if "t \<in> set es" for t using that new by (metis imageI)
    ultimately show ?thesis
      using att starts ids ends by (auto simp: describes_def s' jm_simps starts_in_def ended_in_def)
  next
    case (Ended i dur t)
    have s': "s' = s\<lparr>cs_eventIds := cs_eventIds s @ [event_id e], cs_terminals := cs_terminals s @ [i]\<rparr>"
      using c Ended by (auto simp: check_event_def check_ended_def Let_def outcome_simps split: option.splits if_splits)
    have "\<not> is_started e" "started_by e = Some i" using Ended by (simp_all add: is_started_def started_by_def)
    then show ?thesis using att starts ids ends by (auto simp: describes_def s' starts_in_def ended_in_def)
  qed
qed

definition consistent :: "attempt_event list \<Rightarrow> bool" where
  "consistent es = (\<exists>s. check_events consistency_start es = Inr s)"

lemma check_events_describes: "check_events consistency_start es = Inr s \<Longrightarrow> describes es s"
proof (induction es arbitrary: s rule: rev_induct)
  case (snoc e es)
  then show ?case using check_event_step(2) by (auto simp: check_events_append outcome_simps)
qed (use describes_start in \<open>simp add: consistency_start_def\<close>)

lemma consistent_Nil [simp]: "consistent []"
  by (simp add: consistent_def)

lemma consistent_snoc:
  "consistent (es @ [e]) \<longleftrightarrow> consistent es \<and> event_id e \<notin> event_id ` set es \<and> fits es e (ue_body (ae_unsigned e))"
proof (cases "check_events consistency_start es")
  case (Inr s)
  have d: "describes es s" by (rule check_events_describes [OF Inr])
  have "consistent (es @ [e]) \<longleftrightarrow> (\<exists>s'. check_event s e = Inr s')"
    by (cases "check_event s e") (simp_all add: consistent_def check_events_append Inr)
  moreover have "consistent es" by (simp add: consistent_def Inr)
  ultimately show ?thesis unfolding check_event_step(1) [OF d] by simp
qed (simp add: consistent_def check_events_append)

lemma assert_iff: "assertInternalConsistency es = Inr () \<longleftrightarrow> consistent es"
  by (cases "check_events consistency_start es") (simp_all add: assertInternalConsistency_def consistent_def)

lemma initialize_consistent: "journal_initialize jl j = (Inr (), j') \<Longrightarrow> consistent (aj_events j')"
  by (auto simp: journal_initialize_def Let_def assert_iff split: prod.splits sum.splits)

lemma consistent_distinct: "consistent es \<Longrightarrow> distinct (map event_id es)"
  by (induction es rule: rev_induct) (auto simp: consistent_snoc)

subsection \<open>The file\<close>

fun linked_events :: "journal_lib \<Rightarrow> journal_binding \<Rightarrow> string option \<Rightarrow> attempt_event list \<Rightarrow> bool" where
  "linked_events jl b previous [] = True"
| "linked_events jl b previous (e # es) = (ue_binding (ae_unsigned e) = b \<and> ue_previous_event_sha256 (ae_unsigned e) = previous
     \<and> ae_event_sha256 e = jl_digest jl (ae_unsigned e) \<and> linked_events jl b (Some (ae_event_sha256 e)) es)"

lemma events_linked_snoc:
  "linked_events jl b previous (es @ [e]) \<longleftrightarrow> linked_events jl b previous es \<and> ue_binding (ae_unsigned e) = b
     \<and> ue_previous_event_sha256 (ae_unsigned e) = (if es = [] then previous else last_event_hash es)
     \<and> ae_event_sha256 e = jl_digest jl (ae_unsigned e)"
  by (induction es arbitrary: previous) (auto simp: last_event_hash_def)

lemma split_line: "c \<notin> set s \<Longrightarrow> split_on c (s @ c # r) = s # split_on c r"
  by (induction s) auto

context journal_codec
begin

lemma split_lines: "split_on newline (concat (map (journal_line jl) es)) = map (jl_print jl) es @ [[]]"
  by (induction es) (simp_all add: journal_line_def split_line [OF print_line])

lemma load_back:
  assumes "linked_events jl b previous es" and "list_all (transportAttemptEventSchema jl) es"
  shows "load_lines jl b n previous (map (jl_print jl) es @ [[]]) acc = (Inr (), acc @ es)"
  using assms
proof (induction es arbitrary: n previous acc)
  case (Cons e es)
  then have "parse_line jl (jl_print jl e) = Some e" by (simp add: parse_line_def print_parse)
  moreover have "load_lines jl b (n + 1) (Some (ae_event_sha256 e)) (map (jl_print jl) es @ [[]]) (acc @ [e]) = (Inr (), (acc @ [e]) @ es)"
    by (rule Cons.IH) (use Cons.prems in auto)
  ultimately show ?case using Cons.prems print_visible [of e] by (auto simp del: One_nat_def)
qed (simp add: is_blank_def)

end

definition journal_ok :: "journal_lib \<Rightarrow> attempt_journal \<Rightarrow> bool" where
  "journal_ok jl j = ((case aj_file j of None \<Rightarrow> [] | Some c \<Rightarrow> c) = concat (map (journal_line jl) (aj_events j))
     \<and> linked_events jl (aj_binding j) None (aj_events j) \<and> list_all (transportAttemptEventSchema jl) (aj_events j) \<and> consistent (aj_events j))"


context journal_codec
begin

text \<open>A journal that is read back from its file has the same events.\<close>

lemma reload:
  assumes "journal_ok jl j"
  shows "journal_initialize jl (j\<lparr>aj_events := []\<rparr>) = (Inr (), j)"
proof -
  have "load_lines jl (aj_binding j) 0 None (split_on newline (concat (map (journal_line jl) (aj_events j)))) [] = (Inr (), aj_events j)"
    unfolding split_lines using load_back [of "aj_binding j" None "aj_events j" 0 "[]"] assms by (simp add: journal_ok_def)
  then show ?thesis using assms by (simp add: journal_initialize_def journal_ok_def assert_iff)
qed

end

subsection \<open>Operations\<close>

definition clean :: "io \<Rightarrow> bool" where
  "clean d = (d = IoOk \<or> d = IoFails 0)"

definition unused :: "attempt_journal \<Rightarrow> draw \<Rightarrow> bool" where
  "unused j d = (clean (dw_io d) \<and> dw_event_id d \<notin> event_id ` set (aj_events j))"

lemma record_event_cases:
  assumes "clean (dw_io d)"
  shows "(\<exists>x f. record_event jl d r b j = (Inl x, j\<lparr>aj_file := f\<rparr>) \<and> (case f of None \<Rightarrow> [] | Some c \<Rightarrow> c) = (case aj_file j of None \<Rightarrow> [] | Some c \<Rightarrow> c))
    \<or> (\<exists>e. e = makeEvent jl j d r b \<and> transportAttemptEventSchema jl e \<and> dw_io d = IoOk
        \<and> record_event jl d r b j = (Inr e, (write_file (journal_line jl e) j)\<lparr>aj_events := aj_events j @ [e]\<rparr>))"
proof (cases "transportAttemptEventSchema jl (makeEvent jl j d r b)")
  case True
  then show ?thesis using assms by (auto simp: record_event_def Let_def appendEvent_def clean_def write_file_def split: io.splits)
next
  case False
  then have "record_event jl d r b j = (Inl JournalSchema, j\<lparr>aj_file := aj_file j\<rparr>)" by (simp add: record_event_def Let_def)
  then show ?thesis by blast
qed

lemma make_fields [simp]:
  "event_id (makeEvent jl j d r b) = dw_event_id d" "ue_body (ae_unsigned (makeEvent jl j d r b)) = b"
  "ue_reference (ae_unsigned (makeEvent jl j d r b)) = r" "ue_binding (ae_unsigned (makeEvent jl j d r b)) = aj_binding j"
  "ue_previous_event_sha256 (ae_unsigned (makeEvent jl j d r b)) = last_event_hash (aj_events j)"
  "ae_event_sha256 (makeEvent jl j d r b) = jl_digest jl (ae_unsigned (makeEvent jl j d r b))"
  by (simp_all add: makeEvent_def Let_def)

lemma record_event_ok:
  assumes "journal_ok jl j" and "unused j d" and "fits (aj_events j) (makeEvent jl j d r b) b"
  shows "journal_ok jl (snd (record_event jl d r b j))"
proof -
  have "last_event_hash [] = None" by (simp add: last_event_hash_def)
  then show ?thesis
    using record_event_cases [of d jl r b j] assms
    by (auto simp: unused_def journal_ok_def events_linked_snoc consistent_snoc write_file_def)
qed

text \<open>What a recorded event changes.\<close>

lemma record_event_events:
  assumes "clean (dw_io d)"
  shows "record_event jl d r b j = (res, j') \<Longrightarrow> (case res of Inl x \<Rightarrow> aj_events j' = aj_events j
    | Inr e \<Rightarrow> e = makeEvent jl j d r b \<and> aj_events j' = aj_events j @ [e])"
  using record_event_cases [OF assms, of jl r b j] by auto

lemma open_iff: "s \<in> set (openStarts j) \<longleftrightarrow> s \<in> set (aj_events j) \<and> is_started s \<and> event_id s \<notin> ended_in (aj_events j)"
  by (auto simp: openStarts_def terminalForStart_def find_None_iff ended_in_def)

lemma beginAttempt_ok:
  assumes "journal_ok jl j" and "unused j d" and "distinct (mi_support_ids input)"
  shows "journal_ok jl (snd (beginAttempt jl d a input cycle n j))"
  unfolding beginAttempt_def
proof (rule record_event_ok [OF assms(1,2)])
qed (use assms(3) in \<open>auto simp: begin_reference_def startsFor_def starts_in_def\<close>)

lemma end_ok:
  assumes "journal_ok jl j" and "unused j d" and "s \<in> set (openStarts j)"
  shows "journal_ok jl (snd (record_event jl d (ue_reference (ae_unsigned s)) (Ended (event_id s) dur t) j))"
  by (rule record_event_ok [OF assms(1,2)]) (use assms(3) in \<open>auto simp: open_iff sameAttempt_def Let_def\<close>)

subsection \<open>Interleaved calls and restarts\<close>

text \<open>
  The models of a process and the calls whose provider has not answered yet. A restart ends the calls; the new process reads the
  file and marks what was left open. It ends without a model if one of these throws. A process that dies while it writes a line is a
  write that fails after as many characters (\<open>IoFails n\<close>), followed by a restart: the restart keeps nothing but the file.
\<close>

record journal_world =
  jw_journal :: attempt_journal
  jw_models :: "journaled_model list"
  jw_pending :: "(nat \<times> attempt_event) list"

datatype journal_op =
  GenerateBegin nat draw model_input
  | GenerateFinish nat draw draw int "(error_node list \<times> error_value) + model_result"
  | Restart "nat \<Rightarrow> draw \<times> int" "journaled_model list"

fun journal_step :: "journal_lib \<Rightarrow> journal_world \<Rightarrow> journal_op \<Rightarrow> journal_world" where
  "journal_step jl w (GenerateBegin k d input) =
     (if k < length (jw_models w)
      then case generate_begin jl d input (jw_models w ! k) (jw_journal w) of
        (r, m, j) \<Rightarrow> w\<lparr>jw_journal := j, jw_models := (jw_models w)[k := m],
          jw_pending := jw_pending w @ (case r of Inl _ \<Rightarrow> [] | Inr e \<Rightarrow> [(k, e)])\<rparr>
      else w)"
| "journal_step jl w (GenerateFinish n d d' duration answer) =
     (if n < length (jw_pending w)
      then case jw_pending w ! n of (k, s) \<Rightarrow>
        (case generate_finish jl d d' duration s answer (jw_models w ! k) (jw_journal w) of
           (r, m, j) \<Rightarrow> w\<lparr>jw_journal := j, jw_models := (jw_models w)[k := m],
             jw_pending := take n (jw_pending w) @ drop (n + 1) (jw_pending w)\<rparr>)
      else w)"
| "journal_step jl w (Restart draws models) =
     (case journal_initialize jl ((jw_journal w)\<lparr>aj_events := []\<rparr>) of
        (Inl _, j) \<Rightarrow> \<lparr>jw_journal = j, jw_models = [], jw_pending = []\<rparr>
      | (Inr _, j) \<Rightarrow> (case markOpenAttemptsInterrupted jl draws j of
          (Inl _, j') \<Rightarrow> \<lparr>jw_journal = j', jw_models = [], jw_pending = []\<rparr>
        | (Inr _, j') \<Rightarrow> \<lparr>jw_journal = j', jw_models = models, jw_pending = []\<rparr>))"

text \<open>
  Identifiers are new, a write that fails leaves nothing in the file, and the supports of an input are not repeated.
\<close>

fun orderly :: "journal_world \<Rightarrow> journal_op \<Rightarrow> bool" where
  "orderly w (GenerateBegin k d input) = (unused (jw_journal w) d \<and> distinct (mi_support_ids input))"
| "orderly w (GenerateFinish n d d' duration answer) =
     (unused (jw_journal w) d \<and> unused (jw_journal w) d' \<and> dw_event_id d \<noteq> dw_event_id d')"
| "orderly w (Restart draws models) =
     (let k = length (openStarts (jw_journal w)) in
      list_all (\<lambda>n. unused (jw_journal w) (fst (draws n))) [0..<k] \<and> distinct (map (\<lambda>n. dw_event_id (fst (draws n))) [0..<k]))"

fun orderly_run :: "journal_lib \<Rightarrow> journal_world \<Rightarrow> journal_op list \<Rightarrow> bool" where
  "orderly_run jl w [] = True"
| "orderly_run jl w (x # xs) = (orderly w x \<and> orderly_run jl (journal_step jl w x) xs)"

definition journal_world_ok :: "journal_lib \<Rightarrow> journal_world \<Rightarrow> bool" where
  "journal_world_ok jl w = (journal_ok jl (jw_journal w) \<and> distinct (map (event_id \<circ> snd) (jw_pending w))
     \<and> (\<forall>p\<in>set (jw_pending w). snd p \<in> set (openStarts (jw_journal w))))"

lemma ended_snoc: "ended_in (es @ [e]) = ended_in es \<union> set_option (started_by e)"
  by (auto simp: ended_in_def)

lemma ended_known: "consistent es \<Longrightarrow> i \<in> ended_in es \<Longrightarrow> i \<in> event_id ` set es"
proof (induction es rule: rev_induct)
  case (snoc e es)
  then show ?case by (cases "ue_body (ae_unsigned e)") (auto simp: consistent_snoc ended_snoc started_by_def)
qed (simp add: ended_in_def)

lemma began_open:
  assumes "unused j d" and "journal_ok jl j" and "beginAttempt jl d a input cycle n j = (r, j')"
  shows "set (openStarts j) \<subseteq> set (openStarts j')" and "r = Inr e \<Longrightarrow> e \<in> set (openStarts j') \<and> event_id e = dw_event_id d"
proof -
  have c: "clean (dw_io d)" and new: "dw_event_id d \<notin> event_id ` set (aj_events j)" using assms(1) by (simp_all add: unused_def)
  note ev = record_event_events [OF c assms(3) [unfolded beginAttempt_def]]
  show "set (openStarts j) \<subseteq> set (openStarts j')"
    using ev by (cases r) (auto simp: open_iff ended_snoc started_by_def)
  show "e \<in> set (openStarts j') \<and> event_id e = dw_event_id d" if "r = Inr e"
    using ev that ended_known [of "aj_events j" "dw_event_id d"] new assms(2)
    by (auto simp: journal_ok_def open_iff ended_snoc started_by_def is_started_def)
qed

text \<open>Ending one open attempt leaves the others open.\<close>

lemma ended_open:
  assumes "clean (dw_io d)" and "record_event jl d r (Ended (event_id s) dur t) j = (res, j')"
  shows "x \<in> set (openStarts j) \<Longrightarrow> event_id x \<noteq> event_id s \<Longrightarrow> x \<in> set (openStarts j')"
    and "res = Inl y \<Longrightarrow> set (openStarts j') = set (openStarts j)"
    and "res = Inr e \<Longrightarrow> set (openStarts j') = {x \<in> set (openStarts j). event_id x \<noteq> event_id s}"
    and "unused j d' \<Longrightarrow> dw_event_id d' \<noteq> dw_event_id d \<Longrightarrow> unused j' d'"
proof -
  note ev = record_event_events [OF assms]
  show "x \<in> set (openStarts j')" if "x \<in> set (openStarts j)" "event_id x \<noteq> event_id s"
    using ev that by (cases res) (auto simp: open_iff ended_snoc started_by_def)
  show "set (openStarts j') = set (openStarts j)" if "res = Inl y"
    using ev that by (auto simp: open_iff)
  show "set (openStarts j') = {x \<in> set (openStarts j). event_id x \<noteq> event_id s}" if "res = Inr e"
    using ev that by (auto simp: open_iff ended_snoc started_by_def is_started_def)
  show "unused j' d'" if "unused j d'" "dw_event_id d' \<noteq> dw_event_id d"
    using ev that by (cases res) (auto simp: unused_def)
qed

lemma finish_ok:
  assumes j: "journal_ok jl j" and s: "s \<in> set (openStarts j)" and d: "unused j d" "unused j d'" "dw_event_id d \<noteq> dw_event_id d'"
    and f: "generate_finish jl d d' dur s answer m j = (r, m', j')"
  shows "journal_ok jl j'" and "x \<in> set (openStarts j) \<Longrightarrow> event_id x \<noteq> event_id s \<Longrightarrow> x \<in> set (openStarts j')"
proof -
  have clean: "clean (dw_io d)" "clean (dw_io d')" using d by (simp_all add: unused_def)
  have failed: "journal_ok jl j2 \<and> (x \<in> set (openStarts j1) \<longrightarrow> event_id x \<noteq> event_id s \<longrightarrow> x \<in> set (openStarts j2))"
    if "journal_ok jl j1" "s \<in> set (openStarts j1)" "unused j1 d'" "completeFailure jl d' s err dur j1 = (res, j2)" for j1 j2 err res
    using end_ok [OF that(1,3,2), of dur] ended_open(1) [OF clean(2)] that(4) unfolding completeFailure_def by (metis snd_conv)
  have "journal_ok jl j' \<and> (x \<in> set (openStarts j) \<longrightarrow> event_id x \<noteq> event_id s \<longrightarrow> x \<in> set (openStarts j'))"
  proof (cases answer)
    case (Inl err)
    then show ?thesis
      using f failed [OF j s d(2)] by (cases "completeFailure jl d' s err dur j"; cases "fst (completeFailure jl d' s err dur j)")
        (auto simp: generate_finish_def Let_def)
  next
    case (Inr result)
    obtain res j1 where c: "completeSuccess jl d s result dur j = (res, j1)" by fastforce
    have j1: "journal_ok jl j1" using end_ok [OF j d(1) s, of dur] c unfolding completeSuccess_def by (metis snd_conv)
    note open1 = ended_open [OF clean(1) c [unfolded completeSuccess_def]]
    show ?thesis
    proof (cases res)
      case (Inr e)
      then show ?thesis using f c j1 open1(1) \<open>answer = Inr result\<close> by (auto simp: generate_finish_def Let_def)
    next
      case (Inl y)
      have "s \<in> set (openStarts j1)" "unused j1 d'" using open1(2) [OF Inl] s open1(4) [OF d(2)] d(3) by auto
      note failed [OF j1 this]
      then show ?thesis
        using f c Inl open1(1) \<open>answer = Inr result\<close>
        by (cases "completeFailure jl d' s ([], PlainValue) dur j1"; cases "fst (completeFailure jl d' s ([], PlainValue) dur j1)")
          (auto simp: generate_finish_def Let_def)
    qed
  qed
  then show "journal_ok jl j'" "x \<in> set (openStarts j) \<Longrightarrow> event_id x \<noteq> event_id s \<Longrightarrow> x \<in> set (openStarts j')" by blast+
qed

lemma interrupt_all_ok:
  assumes "journal_ok jl j" and "list_all (\<lambda>s. s \<in> set (openStarts j)) ss" and "distinct (map event_id ss)"
    and "\<And>i. n \<le> i \<Longrightarrow> i < n + length ss \<Longrightarrow> unused j (fst (draws i))"
    and "inj_on (\<lambda>i. dw_event_id (fst (draws i))) {n..<n + length ss}"
  shows "journal_ok jl (snd (interrupt_all jl draws n ss j))"
  using assms
proof (induction ss arbitrary: n j)
  case (Cons s ss)
  obtain d dur where d: "draws n = (d, dur)" by fastforce
  have u: "unused j d" using Cons.prems(4) [of n] d by simp
  obtain res j' where i: "interrupt jl d dur s j = (res, j')" by fastforce
  have j': "journal_ok jl j'"
    using end_ok [OF Cons.prems(1) u, of s "max 0 dur" Interrupted] i Cons.prems(2) by (simp add: interrupt_def)
  show ?case
  proof (cases res)
    case (Inr e)
    note o = ended_open [OF _ i [unfolded interrupt_def]]
    have "journal_ok jl (snd (interrupt_all jl draws (n + 1) ss j'))"
    proof (rule Cons.IH [OF j'])
      have "event_id x \<noteq> event_id s" if "x \<in> set ss" for x by (rule image_neq [OF _ that]) (use Cons.prems(3) in simp)
      then show "list_all (\<lambda>s. s \<in> set (openStarts j')) ss" "distinct (map event_id ss)"
        using o(1) u Cons.prems(2,3) by (simp_all add: list_all_iff unused_def)
      have "dw_event_id (fst (draws i)) \<noteq> dw_event_id d" if "n + 1 \<le> i" "i < n + 1 + length ss" for i
        using inj_onD [OF Cons.prems(5), of i n] that d by auto
      then show "unused j' (fst (draws i))" if "n + 1 \<le> i" "i < n + 1 + length ss" for i
        using o(4) u Cons.prems(4) [of i] that by (simp add: unused_def)
      show "inj_on (\<lambda>i. dw_event_id (fst (draws i))) {n + 1..<n + 1 + length ss}" by (rule inj_on_subset [OF Cons.prems(5)]) auto
    qed
    then show ?thesis using i d Inr by simp
  qed (use i j' d in simp)
qed simp

lemma pending_drop:
  assumes "distinct (map f xs)" and "n < length xs"
  shows "distinct (map f (take n xs @ drop (n + 1) xs))" and "x \<in> set (take n xs @ drop (n + 1) xs) \<Longrightarrow> x \<in> set xs \<and> f x \<noteq> f (xs ! n)"
proof -
  obtain ys zs where xs: "xs = ys @ xs ! n # zs" "ys = take n xs" "zs = drop (n + 1) xs" using assms(2) by (simp add: Cons_nth_drop_Suc)
  have "distinct (map f (ys @ xs ! n # zs))" by (subst xs(1) [symmetric]) (rule assms(1))
  then have d: "distinct (map f (ys @ zs))" "f (xs ! n) \<notin> f ` set (ys @ zs)" by auto
  show "distinct (map f (take n xs @ drop (n + 1) xs))" using d(1) unfolding xs(2,3) .
  assume x: "x \<in> set (take n xs @ drop (n + 1) xs)"
  have "x \<in> set xs" using x by (auto dest: in_set_takeD in_set_dropD)
  moreover have "f x \<noteq> f (xs ! n)" by (rule image_neq [OF d(2)]) (use x in \<open>simp add: xs(2,3)\<close>)
  ultimately show "x \<in> set xs \<and> f x \<noteq> f (xs ! n)" by simp
qed

context journal_codec
begin

lemma world_step:
  assumes w: "journal_world_ok jl w" and x: "orderly w x"
  shows "journal_world_ok jl (journal_step jl w x)"
proof (cases x)
  case (GenerateBegin k d input)
  show ?thesis
  proof (cases "k < length (jw_models w)")
    case True
    let ?j = "jw_journal w"
    obtain r m j where g: "generate_begin jl d input (jw_models w ! k) ?j = (r, m, j)" by (metis prod_cases3)
    obtain a cycle n where b: "beginAttempt jl d a input cycle n ?j = (r, j)"
      using g by (auto simp: generate_begin_def Let_def split: prod.splits)
    have j: "journal_ok jl ?j" "unused ?j d" "distinct (mi_support_ids input)" using w x GenerateBegin by (simp_all add: journal_world_ok_def)
    have ok: "journal_ok jl j" using beginAttempt_ok [OF j, of a cycle n] b by simp
    note o = began_open [OF j(2,1) b]
    have "snd ` set (jw_pending w) \<subseteq> set (aj_events ?j)" using w by (auto simp: journal_world_ok_def open_iff)
    then have "(event_id \<circ> snd) ` set (jw_pending w) \<subseteq> event_id ` set (aj_events ?j)" unfolding image_comp [symmetric] by (rule image_mono)
    then have "dw_event_id d \<notin> (event_id \<circ> snd) ` set (jw_pending w)" using j(2) by (auto simp: unused_def)
    then show ?thesis
      using w ok o True GenerateBegin g by (cases r) (auto simp: journal_world_ok_def)
  qed (use w GenerateBegin in simp)
next
  case (GenerateFinish n d d' dur answer)
  show ?thesis
  proof (cases "n < length (jw_pending w)")
    case True
    let ?j = "jw_journal w"
    obtain k s where p: "jw_pending w ! n = (k, s)" by fastforce
    obtain r m j where f: "generate_finish jl d d' dur s answer (jw_models w ! k) ?j = (r, m, j)" by (metis prod_cases3)
    have j: "journal_ok jl ?j" "s \<in> set (openStarts ?j)" "unused ?j d" "unused ?j d'" "dw_event_id d \<noteq> dw_event_id d'"
      using w x GenerateFinish nth_mem [OF True] p by (auto simp: journal_world_ok_def)
    have dist: "distinct (map (event_id \<circ> snd) (jw_pending w))" and opens: "\<forall>p\<in>set (jw_pending w). snd p \<in> set (openStarts ?j)"
      using w by (simp_all add: journal_world_ok_def)
    note drop = pending_drop [OF dist True]
    have "snd q \<in> set (openStarts j)" if "q \<in> set (take n (jw_pending w) @ drop (n + 1) (jw_pending w))" for q
      using finish_ok(2) [OF j f, of "snd q"] drop(2) [OF that] opens p by simp
    moreover note drop(1)
    ultimately show ?thesis
      using finish_ok(1) [OF j f] True GenerateFinish f p by (simp add: journal_world_ok_def)
  qed (use w GenerateFinish in simp)
next
  case (Restart draws models)
  let ?j = "jw_journal w"
  have j: "journal_ok jl ?j" "\<forall>n < length (openStarts ?j). unused ?j (fst (draws n))"
    "inj_on (\<lambda>n. dw_event_id (fst (draws n))) {0..<length (openStarts ?j)}"
    using w x Restart by (simp_all add: journal_world_ok_def Let_def list_all_iff distinct_map)
  have "distinct (map event_id (openStarts ?j))"
    using consistent_distinct [of "aj_events ?j"] j(1) by (simp add: journal_ok_def openStarts_def distinct_map_filter)
  then have "journal_ok jl (snd (interrupt_all jl draws 0 (openStarts ?j) ?j))"
    using interrupt_all_ok [OF j(1), of "openStarts ?j" 0 draws] j by (simp add: list_all_iff)
  then have "journal_ok jl (snd (markOpenAttemptsInterrupted jl draws ?j))"
    by (auto simp: markOpenAttemptsInterrupted_def Let_def split: prod.splits sum.splits)
  then show ?thesis using Restart reload [OF j(1)] by (auto simp: journal_world_ok_def split: prod.split sum.split)
qed

lemma world_run: "journal_world_ok jl w \<Longrightarrow> orderly_run jl w xs \<Longrightarrow> journal_world_ok jl (run (journal_step jl) w xs)"
  by (induction xs arbitrary: w) (simp_all add: world_step)

end

lemma world_start:
  assumes "new_journal None b = Inr j"
  shows "journal_world_ok jl \<lparr>jw_journal = j, jw_models = models, jw_pending = []\<rparr>"
proof -
  have "j = \<lparr>aj_file = None, aj_binding = b, aj_events = []\<rparr>" using assms by (auto simp: new_journal_def outcome_simps parse_with_def split: if_splits)
  then show ?thesis by (simp add: journal_world_ok_def journal_ok_def)
qed

subsection \<open>Totals\<close>

text \<open>In a consistent journal every attempt is open or has exactly one outcome.\<close>

lemma outcome_kinds: "\<not> is_started e \<Longrightarrow> (is_success e \<or> is_failure e \<or> is_interrupted e) \<and> \<not> (is_success e \<and> is_failure e)
    \<and> \<not> (is_success e \<and> is_interrupted e) \<and> \<not> (is_failure e \<and> is_interrupted e)"
  by (auto simp: is_started_def is_success_def is_failure_def is_interrupted_def split: event_body.splits terminal_body.splits)

lemma started_kinds: "is_started e \<Longrightarrow> \<not> is_success e \<and> \<not> is_failure e \<and> \<not> is_interrupted e"
  by (auto simp: is_started_def is_success_def is_failure_def is_interrupted_def split: event_body.splits)

definition open_in :: "attempt_event list \<Rightarrow> attempt_event list" where
  "open_in es = filter (\<lambda>e. is_started e \<and> event_id e \<notin> ended_in es) es"

lemma openStarts_in: "openStarts j = open_in (aj_events j)"
  unfolding openStarts_def open_in_def by (rule filter_cong) (auto simp: terminalForStart_def find_None_iff ended_in_def)

lemma open_snoc_ended:
  assumes c: "consistent (es @ [e])" and e: "ue_body (ae_unsigned e) = Ended i d t"
  shows "length (open_in (es @ [e])) + 1 = length (open_in es)"
proof -
  obtain s where s: "s \<in> set es" "is_started s" "event_id s = i" "i \<notin> ended_in es" "distinct (map event_id es)"
    using c e consistent_distinct [of es] by (auto simp: consistent_snoc)
  have "open_in (es @ [e]) = removeAll s (open_in es)"
  proof -
    have "inj_on event_id (set es)" using s(5) by (simp add: distinct_map)
    then have "event_id x = i \<longleftrightarrow> x = s" if "x \<in> set es" for x using inj_on_eq_iff [of event_id "set es" x s] that s(1,3) by auto
    moreover have "\<not> is_started e" "started_by e = Some i" using e by (simp_all add: is_started_def started_by_def)
    ultimately show ?thesis
      by (auto simp: open_in_def ended_snoc removeAll_filter_not_eq intro!: filter_cong)
  qed
  moreover have o: "distinct (open_in es)" "s \<in> set (open_in es)"
    using s by (auto simp: open_in_def distinct_map)
  moreover have "0 < length (open_in es)" using o(2) by (cases "open_in es") auto
  ultimately show ?thesis by (simp add: distinct_remove1_removeAll [symmetric] length_remove1)
qed

lemma totals:
  "consistent es \<Longrightarrow> length (filter is_started es)
     = length (filter is_success es) + length (filter is_failure es) + length (filter is_interrupted es) + length (open_in es)"
proof (induction es rule: rev_induct)
  case (snoc e es)
  then have IH: "length (filter is_started es)
     = length (filter is_success es) + length (filter is_failure es) + length (filter is_interrupted es) + length (open_in es)"
    and c: "consistent es" "event_id e \<notin> event_id ` set es"
    by (simp_all add: consistent_snoc)
  show ?case
  proof (cases "ue_body (ae_unsigned e)")
    case (Started b)
    then have e: "is_started e" "started_by e = None" by (simp_all add: is_started_def started_by_def)
    have "event_id e \<notin> ended_in es" using ended_known [OF c(1)] c(2) by blast
    then have "open_in (es @ [e]) = open_in es @ [e]" using e by (simp add: open_in_def ended_snoc)
    then show ?thesis using IH e started_kinds [OF e(1)] by simp
  next
    case (Ended i d t)
    then have "\<not> is_started e" by (simp add: is_started_def)
    then show ?thesis using IH open_snoc_ended [OF snoc.prems Ended] outcome_kinds [of e] by auto
  qed
qed (simp add: open_in_def)

lemma filter_terminal:
  "filter (\<lambda>e. \<not> is_started e \<and> is_success e) es = filter is_success es"
  "filter (\<lambda>e. \<not> is_started e \<and> is_failure e) es = filter is_failure es"
  "filter (\<lambda>e. \<not> is_started e \<and> is_interrupted e) es = filter is_interrupted es"
  by (rule filter_cong, simp, use started_kinds in blast)+

lemma summary_totals:
  assumes "consistent (aj_events j)"
  shows "su_transport_attempts (journal_summary j) = su_successful_invocations (journal_summary j) + su_failed_attempts (journal_summary j)
    + su_interrupted_attempts (journal_summary j) + su_open_attempts (journal_summary j)"
  using totals [OF assms] by (simp add: journal_summary_def Let_def openStarts_in filter_terminal)

text \<open>An observation may be resumed exactly when attempts are left.\<close>

lemma resume_iff_budget: "assertCanResumeObservation j obs maximum = Inr () \<longleftrightarrow> 0 < remainingAttemptBudget j obs maximum"
  by (auto simp: assertCanResumeObservation_def remainingAttemptBudget_def outcome_simps check_def)

text \<open>A started attempt has the next number of its observation, and the numbers have no gaps.\<close>

lemma attempts_numbered:
  "consistent es \<Longrightarrow> map (\<lambda>e. af_attempt_sequence (ue_reference (ae_unsigned e))) (starts_in es obs) = map int [1..<length (starts_in es obs) + 1]"
proof (induction es rule: rev_induct)
  case (snoc e es)
  then show ?case
    by (cases "ue_body (ae_unsigned e)") (auto simp: consistent_snoc starts_in_def is_started_def)
qed (simp add: starts_in_def)

end
