(* ===== verification/Journal_Crash.thy ===== *)
theory Journal_Crash
  imports Journal_Runs
begin

text \<open>
  Restarts after writes that stopped anywhere. A write of \<open>appendEvent\<close> may fail, or the process may die in it, after any number of
  characters; the file then holds pieces of lines, complete lines whose call was told that it failed, and pieces that run together.
  The locale \<open>torn_codec\<close> adds to \<open>journal_codec\<close> what the grammar of JSON says of such lines: the text of an object begins with a visible
  character, a proper prefix of it is not JSON, and neither are several such texts or prefixes run together. The lemmas show
  that whatever happened, a restart refuses the file or reads the events that were recorded, and at most one more, whose write was
  reported as failed.
\<close>

subsection \<open>Pieces of lines\<close>

text \<open>Prefixes of the texts of events, none of them empty.\<close>

definition pieces :: "journal_lib \<Rightarrow> string list \<Rightarrow> bool" where
  "pieces jl cs = list_all (\<lambda>c. c \<noteq> [] \<and> (\<exists>e n. transportAttemptEventSchema jl e \<and> c = take n (jl_print jl e))) cs"

locale torn_codec = journal_codec +
  assumes print_head: "\<not> is_blank (take 1 (jl_print jl e))"
    and print_proper: "transportAttemptEventSchema jl e \<Longrightarrow> n < length (jl_print jl e) \<Longrightarrow> jl_parse jl (take n (jl_print jl e)) = None"
    and print_joined: "pieces jl cs \<Longrightarrow> 2 \<le> length cs \<Longrightarrow> jl_parse jl (concat cs) = None"

text \<open>
  The layout of a file: the pieces of each line that was ended, and those of the last line. \<open>layout_lines\<close> are the lines that are not
  empty, \<open>layout_grow\<close> the effect of the first \<open>n\<close> characters of a line.
\<close>

type_synonym layout = "string list list \<times> string list"

definition layout_text :: "layout \<Rightarrow> string" where
  "layout_text x = concat (map (\<lambda>l. concat l @ [newline]) (fst x)) @ concat (snd x)"

definition layout_ok :: "journal_lib \<Rightarrow> layout \<Rightarrow> bool" where
  "layout_ok jl x = (list_all (\<lambda>l. l \<noteq> [] \<and> pieces jl l) (fst x) \<and> pieces jl (snd x))"

definition layout_lines :: "layout \<Rightarrow> string list list" where
  "layout_lines x = fst x @ (if snd x = [] then [] else [snd x])"

definition layout_grow :: "journal_lib \<Rightarrow> attempt_event \<Rightarrow> nat \<Rightarrow> layout \<Rightarrow> layout" where
  "layout_grow jl e n x = (if n = 0 then x
     else if n \<le> length (jl_print jl e) then (fst x, snd x @ [take n (jl_print jl e)])
     else (fst x @ [snd x @ [jl_print jl e]], []))"

abbreviation whole_lines :: "journal_lib \<Rightarrow> attempt_event list \<Rightarrow> string list list" where
  "whole_lines jl es \<equiv> map (\<lambda>e. [jl_print jl e]) es"

lemma layout_grow_text: "layout_text (layout_grow jl e n x) = layout_text x @ take n (journal_line jl e)"
  by (simp add: layout_text_def layout_grow_def journal_line_def)

lemma layout_grow_lines:
  "0 < n \<Longrightarrow> layout_lines (layout_grow jl e n x) = fst x @ [snd x @ [take n (jl_print jl e)]]"
  by (simp add: layout_lines_def layout_grow_def)

text \<open>Events that a restart may accept, if no two of them have the same digest.\<close>

definition good_events :: "journal_lib \<Rightarrow> journal_binding \<Rightarrow> attempt_event list \<Rightarrow> bool" where
  "good_events jl b es = (linked_events jl b None es \<and> list_all (transportAttemptEventSchema jl) es \<and> consistent es
     \<and> inj_on (jl_digest jl) (ae_unsigned ` set es))"

lemma good_events_snoc: "good_events jl b (es @ [e]) \<Longrightarrow> good_events jl b es"
  by (auto simp: good_events_def events_linked_snoc consistent_snoc intro: inj_on_subset)

text \<open>No two events of the journal are next to each other in the chain unless the one names the other.\<close>

lemma good_events_next:
  assumes "good_events jl b (es @ [e, e'])"
  shows "ue_previous_event_sha256 (ae_unsigned e') \<noteq> last_event_hash es"
proof
  assume eq: "ue_previous_event_sha256 (ae_unsigned e') = last_event_hash es"
  have linked: "linked_events jl b None ((es @ [e]) @ [e'])" and c: "consistent ((es @ [e]) @ [e'])"
    and inj: "inj_on (jl_digest jl) (ae_unsigned ` set (es @ [e, e']))"
    using assms by (simp_all add: good_events_def)
  have "ue_previous_event_sha256 (ae_unsigned e') = Some (ae_event_sha256 e)"
    and e: "ae_event_sha256 e = jl_digest jl (ae_unsigned e)" and l: "linked_events jl b None es"
    using linked unfolding events_linked_snoc by (auto simp: last_event_hash_def)
  with eq have es: "es \<noteq> []" "ae_event_sha256 (last es) = ae_event_sha256 e" by (auto simp: last_event_hash_def split: if_splits)
  then have "ae_event_sha256 (last es) = jl_digest jl (ae_unsigned (last es))"
    using l events_linked_snoc [of jl b None "butlast es" "last es"] by simp
  then have d: "jl_digest jl (ae_unsigned (last es)) = jl_digest jl (ae_unsigned e)" using es(2) e by simp
  have "ae_unsigned (last es) = ae_unsigned e" by (rule inj_onD [OF inj d]) (use es(1) in simp_all)
  then have "event_id e \<in> event_id ` set es" using es(1) by (metis image_eqI last_in_set)
  then show False using c unfolding consistent_snoc by blast
qed

subsection \<open>Files that no restart accepts\<close>

definition refused :: "journal_lib \<Rightarrow> journal_binding \<Rightarrow> layout \<Rightarrow> bool" where
  "refused jl b x = (\<forall>es. layout_lines x = whole_lines jl es \<longrightarrow> \<not> good_events jl b es)"

text \<open>What the file may hold while the events \<open>es\<close> are in memory.\<close>

definition file_of :: "journal_lib \<Rightarrow> journal_binding \<Rightarrow> attempt_event list \<Rightarrow> layout \<Rightarrow> bool" where
  "file_of jl b es x = (refused jl b x
     \<or> (list_all (transportAttemptEventSchema jl) es \<and> layout_lines x = whole_lines jl es)
     \<or> (\<exists>e. list_all (transportAttemptEventSchema jl) (es @ [e]) \<and> layout_lines x = whole_lines jl (es @ [e])))"

definition journal_safe :: "journal_lib \<Rightarrow> attempt_journal \<Rightarrow> bool" where
  "journal_safe jl j = (\<exists>x. layout_ok jl x \<and> (case aj_file j of None \<Rightarrow> [] | Some c \<Rightarrow> c) = layout_text x
     \<and> file_of jl (aj_binding j) (aj_events j) x)"

lemma joined_refused: "0 < n \<Longrightarrow> snd x \<noteq> [] \<Longrightarrow> refused jl b (layout_grow jl e n x)"
proof -
  assume n: "0 < n" and t: "snd x \<noteq> []"
  have "layout_lines (layout_grow jl e n x) \<noteq> whole_lines jl es" for es
  proof
    assume "layout_lines (layout_grow jl e n x) = whole_lines jl es"
    then have "last (fst x @ [snd x @ [take n (jl_print jl e)]]) \<in> set (whole_lines jl es)"
      unfolding layout_grow_lines [OF n] by (metis last_in_set snoc_eq_iff_butlast)
    then show False using t by auto
  qed
  then show ?thesis by (simp add: refused_def)
qed

lemma refused_grows:
  assumes "refused jl b x"
  shows "refused jl b (layout_grow jl e n x)"
proof (cases "n = 0 \<or> snd x \<noteq> []")
  case False
  have "\<not> good_events jl b es" if es: "layout_lines (layout_grow jl e n x) = whole_lines jl es" for es
  proof -
    have "fst x @ [[take n (jl_print jl e)]] = whole_lines jl es" using es False layout_grow_lines [of n jl e x] by simp
    then obtain fs f where "es = fs @ [f]" "fst x = whole_lines jl fs" by (cases es rule: rev_cases) auto
    then show ?thesis using assms False good_events_snoc [of jl b fs f] by (auto simp: refused_def layout_lines_def)
  qed
  then show ?thesis by (simp add: refused_def)
next
  case True
  then show ?thesis using assms joined_refused [of n x jl b e] by (cases "n = 0") (simp_all add: layout_grow_def)
qed

context torn_codec
begin

lemma print_nonempty: "jl_print jl e \<noteq> []"
  using print_head [of e] by (auto simp: is_blank_def)

lemma pieces_line: "pieces jl cs \<Longrightarrow> newline \<notin> set (concat cs)"
  using print_line by (fastforce simp: pieces_def list_all_iff dest: in_set_takeD)

lemma pieces_visible: "pieces jl cs \<Longrightarrow> cs \<noteq> [] \<Longrightarrow> \<not> is_blank (concat cs)"
proof -
  assume p: "pieces jl cs" "cs \<noteq> []"
  then obtain c cs' where cs: "cs = c # cs'" by (cases cs) auto
  with p obtain e n where c: "c \<noteq> []" "c = take n (jl_print jl e)" by (auto simp: pieces_def)
  then have "take 1 c = take 1 (jl_print jl e)" by (cases n; cases "jl_print jl e") auto
  then have "\<not> is_blank (take 1 c)" using print_head by simp
  with c(1) show ?thesis by (cases c) (auto simp: cs is_blank_def)
qed

lemma print_inj:
  assumes "transportAttemptEventSchema jl e" "transportAttemptEventSchema jl f" "jl_print jl e = jl_print jl f"
  shows "e = f"
  using assms print_parse by (metis option.inject)

lemma whole_lines_inj:
  "list_all (transportAttemptEventSchema jl) es \<Longrightarrow> list_all (transportAttemptEventSchema jl) fs \<Longrightarrow>
   whole_lines jl es = whole_lines jl fs \<Longrightarrow> es = fs"
proof (induction es arbitrary: fs)
  case (Cons e es)
  then show ?case by (cases fs) (auto dest: print_inj)
qed auto

text \<open>A piece that is the text of an event is the whole text of its event.\<close>

lemma whole_piece:
  assumes "transportAttemptEventSchema jl e" "transportAttemptEventSchema jl f" "take n (jl_print jl e) = jl_print jl f"
  shows "e = f \<and> length (jl_print jl e) \<le> n"
proof -
  have "\<not> n < length (jl_print jl e)" using print_proper [OF assms(1)] print_parse [OF assms(2)] assms(3) by fastforce
  with assms print_inj show ?thesis by simp
qed

lemma layout_split:
  assumes "layout_ok jl x"
  shows "split_on newline (layout_text x) = map concat (fst x) @ [concat (snd x)]"
proof -
  have last: "newline \<notin> set s \<Longrightarrow> split_on newline s = [s]" for s by (induction s) auto
  have "list_all (pieces jl) ls \<Longrightarrow> split_on newline (concat (map (\<lambda>l. concat l @ [newline]) ls) @ concat (snd x)) = map concat ls @ [concat (snd x)]" for ls
    using last [OF pieces_line] assms by (induction ls) (simp_all add: split_line [OF pieces_line] layout_ok_def del: set_concat)
  then show ?thesis using assms by (simp add: layout_text_def layout_ok_def list_all_iff)
qed

text \<open>A file is read without error exactly if its lines are the texts of linked events.\<close>

lemma one_piece:
  assumes "pieces jl cs" "cs \<noteq> []" and "parse_line jl (concat cs) = Some e"
  shows "cs = [jl_print jl e] \<and> transportAttemptEventSchema jl e"
proof -
  have p: "jl_parse jl (concat cs) = Some e" "transportAttemptEventSchema jl e"
    using assms(3) by (auto simp: parse_line_def split: option.splits if_splits)
  then have "\<not> 2 \<le> length cs" using print_joined [OF assms(1)] by auto
  then obtain c where cs: "cs = [c]" using assms(2) by (cases cs) (auto simp: Suc_le_eq)
  then obtain f n where f: "transportAttemptEventSchema jl f" "c = take n (jl_print jl f)" using assms(1) by (auto simp: pieces_def)
  then have "\<not> n < length (jl_print jl f)" using print_proper [of f n] p(1) cs by auto
  then show ?thesis using print_parse [OF f(1)] f p cs by simp
qed

lemma load_layout:
  assumes "list_all (\<lambda>l. l \<noteq> [] \<and> pieces jl l) ls" and "pieces jl t"
    and "load_lines jl b n previous (map concat ls @ [concat t]) acc = (Inr (), res)"
  shows "\<exists>es. res = acc @ es \<and> ls @ (if t = [] then [] else [t]) = whole_lines jl es \<and> linked_events jl b previous es
    \<and> list_all (transportAttemptEventSchema jl) es"
  using assms(1,3)
proof (induction ls arbitrary: n previous acc)
  case Nil
  show ?case
  proof (cases "t = []")
    case True
    then show ?thesis using Nil by (intro exI [of _ "[]"]) (simp add: is_blank_def)
  next
    case False
    note v = pieces_visible [OF assms(2) False]
    obtain e where e: "parse_line jl (concat t) = Some e" using Nil v by (auto split: option.splits)
    then show ?thesis
      using Nil v one_piece [OF assms(2) False e] False by (intro exI [of _ "[e]"]) (auto split: if_splits)
  qed
next
  case (Cons l ls)
  have l: "l \<noteq> []" "pieces jl l" using Cons.prems(1) by simp_all
  note v = pieces_visible [OF l(2,1)]
  obtain e where e: "parse_line jl (concat l) = Some e" using Cons.prems(2) v by (auto split: option.splits)
  have step: "ue_binding (ae_unsigned e) = b" "ue_previous_event_sha256 (ae_unsigned e) = previous"
    "ae_event_sha256 e = jl_digest jl (ae_unsigned e)"
    "load_lines jl b (n + 1) (Some (ae_event_sha256 e)) (map concat ls @ [concat t]) (acc @ [e]) = (Inr (), res)"
    using Cons.prems(2) v e by (simp_all split: if_splits)
  from Cons.IH [OF _ step(4)] Cons.prems(1) obtain es where "res = (acc @ [e]) @ es"
    "ls @ (if t = [] then [] else [t]) = whole_lines jl es" "linked_events jl b (Some (ae_event_sha256 e)) es"
    "list_all (transportAttemptEventSchema jl) es" by auto
  then show ?case using one_piece [OF l(2,1) e] step by (intro exI [of _ "e # es"]) auto
qed

lemma load_texts:
  assumes "linked_events jl b previous es" and "list_all (transportAttemptEventSchema jl) es"
  shows "load_lines jl b n previous (map (jl_print jl) es) acc = (Inr (), acc @ es)"
  using assms
proof (induction es arbitrary: n previous acc)
  case (Cons e es)
  then have "parse_line jl (jl_print jl e) = Some e" by (simp add: parse_line_def print_parse)
  then show ?case using Cons print_visible [of e] by auto
qed simp

lemma load_whole:
  assumes "linked_events jl b None es" and "list_all (transportAttemptEventSchema jl) es" and "layout_lines x = whole_lines jl es"
  shows "load_lines jl b 0 None (map concat (fst x) @ [concat (snd x)]) [] = (Inr (), es)"
proof -
  have m: "map concat (layout_lines x) = map (jl_print jl) es" by (simp add: assms(3) comp_def)
  show ?thesis
  proof (cases "snd x = []")
    case True
    then have "map concat (fst x) = map (jl_print jl) es" using m by (simp add: layout_lines_def)
    then show ?thesis using True load_back [OF assms(1,2), of 0 "[]"] by simp
  next
    case False
    then have "map concat (fst x) @ [concat (snd x)] = map (jl_print jl) es" using m by (simp add: layout_lines_def)
    then show ?thesis using load_texts [OF assms(1,2), of 0 "[]"] by simp
  qed
qed

text \<open>What \<open>initialize\<close> does with a file of a given layout.\<close>

lemma initialize_layout:
  assumes x: "layout_ok jl x" "(case aj_file j of None \<Rightarrow> [] | Some c \<Rightarrow> c) = layout_text x"
    and i: "journal_initialize jl (j\<lparr>aj_events := []\<rparr>) = (r, j')"
  shows "\<exists>es. j' = j\<lparr>aj_events := es\<rparr> \<and> (case r of
      Inl e \<Rightarrow> refused jl (aj_binding j) x
    | Inr _ \<Rightarrow> layout_lines x = whole_lines jl es \<and> linked_events jl (aj_binding j) None es
        \<and> list_all (transportAttemptEventSchema jl) es \<and> consistent es)"
proof -
  let ?load = "load_lines jl (aj_binding j) 0 None (map concat (fst x) @ [concat (snd x)]) []"
  have init: "journal_initialize jl (j\<lparr>aj_events := []\<rparr>) = (case ?load of (Inl e, es) \<Rightarrow> (Inl e, j\<lparr>aj_events := es\<rparr>)
      | (Inr _, es) \<Rightarrow> (assertInternalConsistency es, j\<lparr>aj_events := es\<rparr>))"
    unfolding journal_initialize_def Let_def using x by (simp add: layout_split split: prod.split sum.split)
  have good: "?load = (Inr (), es) \<and> assertInternalConsistency es = Inr ()"
    if "layout_lines x = whole_lines jl es" "good_events jl (aj_binding j) es" for es
    using that load_whole [of "aj_binding j" es x] by (simp add: good_events_def assert_iff)
  obtain l es where l: "?load = (l, es)" by fastforce
  have j': "j' = j\<lparr>aj_events := es\<rparr>" "r = (case l of Inl e \<Rightarrow> Inl e | Inr _ \<Rightarrow> assertInternalConsistency es)"
    using i unfolding init l by (auto split: sum.splits)
  show ?thesis
  proof (cases r)
    case (Inl e)
    then have "refused jl (aj_binding j) x" using good l j'(2) by (auto simp: refused_def)
    then show ?thesis using j'(1) Inl by (intro exI [of _ es]) simp
  next
    case (Inr u)
    then have "l = Inr ()" "assertInternalConsistency es = Inr ()" using j'(2) by (cases l; simp)+
    then have "layout_lines x = whole_lines jl es \<and> linked_events jl (aj_binding j) None es
        \<and> list_all (transportAttemptEventSchema jl) es \<and> consistent es"
      using l load_layout [of "fst x" "snd x" "aj_binding j" 0 None "[]" es] x(1)
      by (auto simp: layout_ok_def layout_lines_def assert_iff)
    then show ?thesis using j'(1) Inr by (intro exI [of _ es]) simp
  qed
qed


subsection \<open>Every operation keeps the file safe\<close>

text \<open>The first \<open>n\<close> characters of the line of an event whose previous hash is that of the last event in memory.\<close>

lemma file_of_failed:
  assumes f: "file_of jl b es x" and e: "transportAttemptEventSchema jl e" "ue_previous_event_sha256 (ae_unsigned e) = last_event_hash es"
  shows "file_of jl b es (layout_grow jl e n x)" and "length (jl_print jl e) < n \<Longrightarrow> file_of jl b (es @ [e]) (layout_grow jl e n x)"
proof -
  let ?y = "layout_grow jl e n x"
  have "n = 0 \<or> refused jl b ?y \<or> length (jl_print jl e) \<le> n \<and> list_all (transportAttemptEventSchema jl) (es @ [e])
      \<and> layout_lines ?y = whole_lines jl (es @ [e])"
  proof (cases "n = 0 \<or> refused jl b x \<or> snd x \<noteq> []")
    case True
    then show ?thesis using refused_grows joined_refused by blast
  next
    case False
    then have lines: "layout_lines ?y = layout_lines x @ [[take n (jl_print jl e)]]"
      by (simp add: layout_grow_lines) (simp add: layout_lines_def)
    have whole: "\<exists>fs. hs = fs @ [e] \<and> fs = gs \<and> length (jl_print jl e) \<le> n"
      if "layout_lines x = whole_lines jl gs" "list_all (transportAttemptEventSchema jl) gs" "layout_lines ?y = whole_lines jl hs"
        "list_all (transportAttemptEventSchema jl) hs" for gs hs
    proof -
      have "whole_lines jl hs = whole_lines jl gs @ [[take n (jl_print jl e)]]" using that lines by simp
      then obtain fs f where hs: "hs = fs @ [f]" "whole_lines jl fs = whole_lines jl gs" "take n (jl_print jl e) = jl_print jl f"
        by (cases hs rule: rev_cases) auto
      then show ?thesis using whole_piece [OF e(1), of f n] whole_lines_inj [of fs gs] that by auto
    qed
    consider (same) "list_all (transportAttemptEventSchema jl) es" "layout_lines x = whole_lines jl es"
      | (more) g where "list_all (transportAttemptEventSchema jl) (es @ [g])" "layout_lines x = whole_lines jl (es @ [g])"
      using f False by (auto simp: file_of_def)
    then show ?thesis
    proof cases
      case same
      show ?thesis
      proof (cases "length (jl_print jl e) \<le> n")
        case False
        then have "refused jl b ?y" using whole [OF same(2,1)] by (auto simp: refused_def good_events_def)
        then show ?thesis by blast
      qed (use same e lines in simp)
    next
      case more
      have "\<not> good_events jl b hs" if "layout_lines ?y = whole_lines jl hs" for hs
        using whole [OF more(2,1) that] good_events_next [of jl b es g e] e(2) by (auto simp: good_events_def)
      then show ?thesis by (simp add: refused_def)
    qed
  qed
  then show "file_of jl b es ?y" "length (jl_print jl e) < n \<Longrightarrow> file_of jl b (es @ [e]) ?y"
    using f by (auto simp: file_of_def layout_grow_def)
qed

lemma layout_grow_ok: "layout_ok jl x \<Longrightarrow> transportAttemptEventSchema jl e \<Longrightarrow> layout_ok jl (layout_grow jl e n x)"
proof -
  assume x: "layout_ok jl x" and e: "transportAttemptEventSchema jl e"
  have "0 < n \<Longrightarrow> pieces jl [take n (jl_print jl e)]" for n using e print_nonempty by (auto simp: pieces_def)
  from this [of n] this [of "length (jl_print jl e)"] x show ?thesis
    using print_nonempty by (auto simp: layout_ok_def layout_grow_def pieces_def)
qed

lemma appendEvent_safe:
  assumes j: "journal_safe jl j" and e: "transportAttemptEventSchema jl e" "ue_previous_event_sha256 (ae_unsigned e) = last_event_hash (aj_events j)"
  shows "journal_safe jl (snd (appendEvent jl d e j))"
proof -
  obtain x where x: "layout_ok jl x" "(case aj_file j of None \<Rightarrow> [] | Some c \<Rightarrow> c) = layout_text x"
    "file_of jl (aj_binding j) (aj_events j) x" using j by (auto simp: journal_safe_def)
  let ?n = "case d of IoOk \<Rightarrow> length (jl_print jl e) + 1 | IoFails n \<Rightarrow> n"
  have "take ?n (journal_line jl e) = (case d of IoOk \<Rightarrow> journal_line jl e | IoFails n \<Rightarrow> take n (journal_line jl e))"
    by (simp add: journal_line_def split: io.split)
  then have "aj_file (snd (appendEvent jl d e j)) = Some (layout_text (layout_grow jl e ?n x))"
    using x(2) unfolding layout_grow_text by (cases d) (simp_all add: appendEvent_def write_file_def)
  moreover have "file_of jl (aj_binding j) (aj_events (snd (appendEvent jl d e j))) (layout_grow jl e ?n x)"
    using file_of_failed [OF x(3) e, of ?n] by (cases d) (simp_all add: appendEvent_def write_file_def)
  moreover have "aj_binding (snd (appendEvent jl d e j)) = aj_binding j" by (simp add: appendEvent_def write_file_def split: io.split)
  ultimately show ?thesis
    using layout_grow_ok [OF x(1) e(1), of ?n] unfolding journal_safe_def by (intro exI [of _ "layout_grow jl e ?n x"]) simp
qed

lemma record_event_safe: "journal_safe jl j \<Longrightarrow> journal_safe jl (snd (record_event jl d r b j))"
  using appendEvent_safe [of j "makeEvent jl j d r b" "dw_io d"]
  by (simp add: record_event_def Let_def split: prod.split sum.split) (metis snd_conv)

lemma interrupt_all_safe: "journal_safe jl j \<Longrightarrow> journal_safe jl (snd (interrupt_all jl draws n ss j))"
proof (induction ss arbitrary: n j)
  case (Cons s ss)
  obtain r j' where i: "interrupt jl (fst (draws n)) (snd (draws n)) s j = (r, j')" by fastforce
  then have "journal_safe jl j'" using record_event_safe [OF Cons.prems] unfolding interrupt_def by (metis snd_conv)
  with i Cons.IH show ?case by (cases r) auto
qed simp

lemma generate_safe:
  assumes "journal_safe jl j"
  shows "journal_safe jl (snd (snd (generate_begin jl d input m j)))"
    and "journal_safe jl (snd (snd (generate_finish jl d d' dur s answer m j)))"
proof -
  show "journal_safe jl (snd (snd (generate_begin jl d input m j)))"
    using record_event_safe [OF assms] by (simp add: generate_begin_def beginAttempt_def Let_def split: prod.split) (metis snd_conv)
  have failed: "journal_safe jl (snd (completeFailure jl d' s err dur k))" if "journal_safe jl k" for k err
    unfolding completeFailure_def by (rule record_event_safe [OF that])
  have "journal_safe jl (snd (completeSuccess jl d s result dur j))" for result
    unfolding completeSuccess_def by (rule record_event_safe [OF assms])
  then show "journal_safe jl (snd (snd (generate_finish jl d d' dur s answer m j)))"
    using failed failed [OF assms]
    by (auto simp: generate_finish_def Let_def split: prod.split sum.split) (metis snd_conv)+
qed

text \<open>A restart that accepts the file reads its events; one that refuses it ends the process.\<close>

lemma initialize_safe:
  assumes "journal_safe jl j" and i: "journal_initialize jl (j\<lparr>aj_events := []\<rparr>) = (r, j')"
  shows "journal_safe jl j'"
proof -
  obtain x where x: "layout_ok jl x" "(case aj_file j of None \<Rightarrow> [] | Some c \<Rightarrow> c) = layout_text x"
    using assms(1) by (auto simp: journal_safe_def)
  from initialize_layout [OF this i] obtain es where "j' = j\<lparr>aj_events := es\<rparr>" "file_of jl (aj_binding j) es x"
    by (cases r) (auto simp: file_of_def)
  then show ?thesis using x unfolding journal_safe_def by (intro exI [of _ x]) simp
qed

lemma world_safe:
  assumes "journal_safe jl (jw_journal w)"
  shows "journal_safe jl (jw_journal (journal_step jl w x))"
proof (cases x)
  case (Restart draws models)
  obtain r j where i: "journal_initialize jl ((jw_journal w)\<lparr>aj_events := []\<rparr>) = (r, j)" by fastforce
  have "journal_safe jl (snd (markOpenAttemptsInterrupted jl draws j))"
    using interrupt_all_safe [OF initialize_safe [OF assms i]]
    by (simp add: markOpenAttemptsInterrupted_def Let_def split: prod.split sum.split) (metis snd_conv)
  then show ?thesis using initialize_safe [OF assms i] i Restart by (cases r) (auto split: prod.split sum.split)
next
  case (GenerateBegin k d input)
  then show ?thesis
    using generate_safe(1) [OF assms, of d input "jw_models w ! k"] assms by (auto split: prod.split)
next
  case (GenerateFinish n d d' dur answer)
  then show ?thesis
    using generate_safe(2) [OF assms, of d d' dur _ answer] assms by (auto split: prod.split) (metis snd_conv)
qed

lemma world_run_safe: "journal_safe jl (jw_journal w) \<Longrightarrow> journal_safe jl (jw_journal (run (journal_step jl) w xs))"
  by (induction xs arbitrary: w) (simp_all add: world_safe)

text \<open>What an accepted file holds.\<close>

lemma accepted_events:
  assumes "journal_safe jl j" and i: "journal_initialize jl (j\<lparr>aj_events := []\<rparr>) = (Inr u, j')"
    and inj: "inj_on (jl_digest jl) (ae_unsigned ` set (aj_events j'))"
  shows "consistent (aj_events j') \<and> (j' = j \<or> (\<exists>e. j' = j\<lparr>aj_events := aj_events j @ [e]\<rparr>))"
proof -
  obtain x where x: "layout_ok jl x" "(case aj_file j of None \<Rightarrow> [] | Some c \<Rightarrow> c) = layout_text x"
    "file_of jl (aj_binding j) (aj_events j) x" using assms(1) by (auto simp: journal_safe_def)
  from initialize_layout [OF x(1,2) i] obtain es where es: "j' = j\<lparr>aj_events := es\<rparr>" "layout_lines x = whole_lines jl es"
    "linked_events jl (aj_binding j) None es" "list_all (transportAttemptEventSchema jl) es" "consistent es" by auto
  then have "good_events jl (aj_binding j) es" using inj by (simp add: good_events_def)
  then have "\<not> refused jl (aj_binding j) x" using es(2) by (auto simp: refused_def)
  then have "es = aj_events j \<or> (\<exists>e. es = aj_events j @ [e])"
    using x(3) es(2) whole_lines_inj [OF es(4)] unfolding file_of_def by metis
  then show ?thesis using es by auto
qed

end

lemma journal_safe_start: "new_journal None b = Inr j \<Longrightarrow> journal_safe jl j"
  by (auto simp: new_journal_def outcome_simps parse_with_def journal_safe_def layout_ok_def layout_text_def pieces_def file_of_def
      layout_lines_def split: if_splits intro!: exI [of _ "[]"])

end
