(* ===== verification/Journal_Instance.thy ===== *)
theory Journal_Instance
  imports Journal_Crash Json_Instance
begin

text \<open>
  The contracts of \<open>Journal_Runs\<close> and \<open>Journal_Crash\<close> on a concrete encoding: an event is a JSON value, its text is that of \<open>Json_Instance\<close>
  and a line holds the text in hexadecimal, between braces. On it two runs of the journal: in one an
  attempt fails and another one is interrupted, in the other a write fails after its line has been written.
\<close>

definition categories :: "error_category list" where
  "categories = [Http408, Http409, Http429, Http5xx, ConnectionReset, Timeout, DnsTemporary, ConnectionRefused, ConnectionError, ProviderError]"

fun category_code :: "error_category \<Rightarrow> nat" where
  "category_code Http408 = 0" | "category_code Http409 = 1" | "category_code Http429 = 2" | "category_code Http5xx = 3"
| "category_code ConnectionReset = 4" | "category_code Timeout = 5" | "category_code DnsTemporary = 6"
| "category_code ConnectionRefused = 7" | "category_code ConnectionError = 8" | "category_code ProviderError = 9"

definition text_json :: "string option \<Rightarrow> json" where
  "text_json t = (case t of None \<Rightarrow> JNull | Some s \<Rightarrow> JStr s)"

definition count_json :: "int option \<Rightarrow> json" where
  "count_json t = (case t of None \<Rightarrow> JNull | Some n \<Rightarrow> JNum n)"

fun json_text_of :: "json \<Rightarrow> string option" where
  "json_text_of (JStr s) = Some s" | "json_text_of _ = None"

fun json_count :: "json \<Rightarrow> int option" where
  "json_count (JNum n) = Some n" | "json_count _ = None"

fun items :: "json \<Rightarrow> json list" where
  "items (JArr xs) = xs" | "items _ = []"

definition str_of :: "json \<Rightarrow> string" where
  "str_of v = (case json_text_of v of None \<Rightarrow> [] | Some s \<Rightarrow> s)"

definition num_of :: "json \<Rightarrow> int" where
  "num_of v = (case json_count v of None \<Rightarrow> 0 | Some n \<Rightarrow> n)"

definition bool_of :: "json \<Rightarrow> bool" where
  "bool_of v = (v = JBool True)"

fun terminal_json :: "terminal_body \<Rightarrow> json" where
  "terminal_json (Succeeded c) = JArr [JStr (cb_provider c), JStr (cb_model c), text_json (cb_response_id c), count_json (cb_input_tokens c),
     count_json (cb_output_tokens c)]"
| "terminal_json (Failed b c) = JArr [JBool b, JNum (int (category_code c))]"
| "terminal_json Interrupted = JNull"

definition json_terminal :: "json \<Rightarrow> terminal_body" where
  "json_terminal v = (let xs = items v in
     if length xs = 5 then Succeeded \<lparr>cb_provider = str_of (xs ! 0), cb_model = str_of (xs ! 1), cb_response_id = json_text_of (xs ! 2),
       cb_input_tokens = json_count (xs ! 3), cb_output_tokens = json_count (xs ! 4)\<rparr>
     else if length xs = 2 then Failed (bool_of (xs ! 0)) (categories ! nat (num_of (xs ! 1))) else Interrupted)"

fun body_json :: "event_body \<Rightarrow> json" where
  "body_json (Started s) = JArr [JStr (sb_provider s), JStr (sb_model s), JStr (sb_model_input_sha256 s),
     JArr (map JStr (sb_presented_support_ids s)), JBool (sb_retry s)]"
| "body_json (Ended i d t) = JArr [JStr i, JNum d, terminal_json t]"

definition json_body :: "json \<Rightarrow> event_body" where
  "json_body v = (let xs = items v in
     if length xs = 5 then Started \<lparr>sb_provider = str_of (xs ! 0), sb_model = str_of (xs ! 1), sb_model_input_sha256 = str_of (xs ! 2),
       sb_presented_support_ids = map str_of (items (xs ! 3)), sb_retry = bool_of (xs ! 4)\<rparr>
     else Ended (str_of (xs ! 0)) (num_of (xs ! 1)) (json_terminal (xs ! 2)))"

definition event_json :: "attempt_event \<Rightarrow> json" where
  "event_json e = (let u = ae_unsigned e; b = ue_binding u; r = ue_reference u in
     JArr [JStr (ae_event_sha256 e), JStr (ue_event_id u), text_json (ue_previous_event_sha256 u), JStr (ue_recorded_at u), body_json (ue_body u),
       JStr (jb_evaluation_set_id b), JStr (jb_source_commit b), JStr (jb_freeze_sha256 b), JStr (jb_corpus_file_sha256 b),
       JStr (jb_logical_corpus_sha256 b), JStr (af_observation_id r), JStr (af_case_id r), JStr (af_configuration_id r),
       JNum (af_repetition r), JNum (af_attempt_sequence r), JStr (af_cycle_id r), JNum (af_cycle_attempt r)])"

definition json_event :: "json \<Rightarrow> attempt_event" where
  "json_event v = (let xs = items v in \<lparr>ae_unsigned = \<lparr>ue_event_id = str_of (xs ! 1), ue_previous_event_sha256 = json_text_of (xs ! 2),
     ue_binding = \<lparr>jb_evaluation_set_id = str_of (xs ! 5), jb_source_commit = str_of (xs ! 6), jb_freeze_sha256 = str_of (xs ! 7),
       jb_corpus_file_sha256 = str_of (xs ! 8), jb_logical_corpus_sha256 = str_of (xs ! 9)\<rparr>,
     ue_reference = \<lparr>af_observation_id = str_of (xs ! 10), af_case_id = str_of (xs ! 11), af_configuration_id = str_of (xs ! 12),
       af_repetition = num_of (xs ! 13), af_attempt_sequence = num_of (xs ! 14), af_cycle_id = str_of (xs ! 15), af_cycle_attempt = num_of (xs ! 16)\<rparr>,
     ue_recorded_at = str_of (xs ! 3), ue_body = json_body (xs ! 4)\<rparr>, ae_event_sha256 = str_of (xs ! 0)\<rparr>)"

lemma json_optional [simp]: "json_text_of (text_json t) = t" "json_count (count_json n) = n" "str_of (JStr s) = s" "num_of (JNum k) = k"
  "bool_of (JBool b) = b"
  by (simp_all add: text_json_def count_json_def str_of_def num_of_def bool_of_def split: option.split)

lemma json_terminal_back [simp]: "json_terminal (terminal_json t) = t"
proof (cases t)
  case (Failed b c)
  then show ?thesis by (cases c) (simp_all add: json_terminal_def Let_def categories_def)
qed (simp_all add: json_terminal_def Let_def)

lemma json_body_back [simp]: "json_body (body_json b) = b"
  by (cases b) (simp_all add: json_body_def Let_def comp_def)

lemma json_event_back [simp]: "json_event (event_json e) = e"
  by (simp add: event_json_def json_event_def Let_def)

definition plain_line :: "attempt_event \<Rightarrow> string" where
  "plain_line e = ''{'' @ hex_encode (map (\<lambda>c. of_nat (of_char c)) (json_text (event_json e))) @ ''}''"

definition plain_event :: "string \<Rightarrow> attempt_event option" where
  "plain_event s = (let h = butlast (tl s); t = map (\<lambda>b. char_of (unat b)) (hex_decode h) in
     if 2 \<le> length s \<and> hd s = CHR ''{'' \<and> last s = CHR ''}'' \<and> list_all is_hex_lower h
     then (case dec_json (length t) t of Some (v, []) \<Rightarrow> Some (json_event v) | _ \<Rightarrow> None) else None)"

definition ex_journal_lib :: journal_lib where
  "ex_journal_lib = \<lparr>jl_uuid = \<lambda>_. True, jl_datetime = \<lambda>_. True, jl_digest = \<lambda>_. ''0x'' @ replicate 64 CHR ''1'', jl_print = plain_line,
     jl_parse = plain_event\<rparr>"

lemma hex_visible: "is_hex_lower c \<Longrightarrow> c \<noteq> newline \<and> c \<notin> {CHR 0x09, CHR 0x0A, CHR 0x0B, CHR 0x0C, CHR 0x0D, CHR 0x20, CHR 0xA0}"
  by (auto simp: is_hex_lower_def newline_def)

lemma plain_line_back: "plain_event (plain_line e) = Some e"
proof -
  have "(of_char c :: nat) < 256" for c by (rule of_char_less_256)
  then have "char_of (unat (of_nat (of_char c) :: 8 word)) = c" for c by (simp add: unat_of_nat take_bit_nat_eq_self)
  then have t: "map (\<lambda>b. char_of (unat b)) (map (\<lambda>c. of_nat (of_char c) :: 8 word) s) = s" for s by (simp add: comp_def)
  show ?thesis
    using dec_json_all [of "event_json e"] hex_encode_hex
    by (simp add: plain_line_def plain_event_def t Let_def butlast_append del: map_map)
qed

text \<open>Only the whole text of an event is framed by braces that do not occur in it.\<close>

lemma plain_prefix:
  assumes "n < length (plain_line e)"
  shows "plain_event (take n (plain_line e)) = None"
proof (cases "n < 2")
  case False
  let ?h = "hex_encode (map (\<lambda>c. of_nat (of_char c)) (json_text (event_json e)))"
  have "take n (plain_line e) = CHR ''{'' # take (n - 1) ?h" "take (n - 1) ?h \<noteq> []"
    using False assms by (cases n; auto simp: plain_line_def)+
  then have "last (take n (plain_line e)) \<in> set ?h" by (metis in_set_takeD last.simps last_in_set)
  then have "is_hex_lower (last (take n (plain_line e)))" using hex_encode_hex by (simp add: list_all_iff)
  then have "last (take n (plain_line e)) \<noteq> CHR ''}''" by (auto simp: is_hex_lower_def)
  then show ?thesis by (simp add: plain_event_def Let_def)
qed (use assms in \<open>simp add: plain_event_def Let_def\<close>)

lemma plain_joined:
  assumes "c \<noteq> []" and "d \<noteq> []" "hd d = CHR ''{''"
  shows "plain_event (c @ d @ s) = None"
proof (cases "last (c @ d @ s) = CHR ''}''")
  case True
  obtain d' where d: "d = CHR ''{'' # d'" using assms(2,3) by (cases d) auto
  have "d' @ s \<noteq> []" using True d by (auto simp: last_append split: if_splits)
  then have "CHR ''{'' \<in> set (butlast (tl (c @ d @ s)))" using assms(1) d by (cases c) (auto simp: butlast_append)
  moreover have "\<not> is_hex_lower CHR ''{''" by (simp add: is_hex_lower_def)
  ultimately show ?thesis by (auto simp: plain_event_def Let_def list_all_iff)
qed (simp add: plain_event_def Let_def)

interpretation plain_journal: torn_codec ex_journal_lib
proof
  fix e n cs
  show "jl_parse ex_journal_lib (jl_print ex_journal_lib e) = Some e" by (simp add: ex_journal_lib_def plain_line_back)
  show "newline \<notin> set (jl_print ex_journal_lib e)" "\<not> is_blank (jl_print ex_journal_lib e)" "\<not> is_blank (take 1 (jl_print ex_journal_lib e))"
    using hex_visible hex_encode_hex by (auto simp: ex_journal_lib_def plain_line_def newline_def is_blank_def list_all_iff)
  show "n < length (jl_print ex_journal_lib e) \<Longrightarrow> jl_parse ex_journal_lib (take n (jl_print ex_journal_lib e)) = None"
    using plain_prefix by (simp add: ex_journal_lib_def)
  assume cs: "pieces ex_journal_lib cs" "2 \<le> length cs"
  obtain c d r where r: "cs = c # d # r" using cs(2) by (cases cs; cases "tl cs") auto
  then have "c \<noteq> []" "d \<noteq> []" "hd d = CHR ''{''"
    using cs(1) by (auto simp: pieces_def ex_journal_lib_def plain_line_def hd_take split: if_splits)
  then show "jl_parse ex_journal_lib (concat cs) = None" using plain_joined r by (simp add: ex_journal_lib_def)
qed

subsection \<open>A run\<close>

definition ex_binding :: journal_binding where
  "ex_binding = \<lparr>jb_evaluation_set_id = ''set'', jb_source_commit = replicate 40 CHR ''a'', jb_freeze_sha256 = ''0x'' @ replicate 64 CHR ''1'',
     jb_corpus_file_sha256 = ''0x'' @ replicate 64 CHR ''1'', jb_logical_corpus_sha256 = ''0x'' @ replicate 64 CHR ''1''\<rparr>"

definition ex_attempt_identity :: attempt_identity where
  "ex_attempt_identity = \<lparr>at_observation_id = ''o'', at_case_id = ''c'', at_configuration_id = ''f'', at_repetition = 1, at_provider = ''p'', at_model = ''m''\<rparr>"

definition ex_model :: journaled_model where
  "ex_model = \<lparr>jn_lastResult = None, jn_lastInput = None, jn_identity = ex_attempt_identity, jn_cycleId = ''y'', jn_cycleAttempt = 0\<rparr>"

definition ex_input :: model_input where
  "ex_input = \<lparr>mi_sha256 = ''0x'' @ replicate 64 CHR ''1'', mi_support_ids = [''s'']\<rparr>"

definition ex_draw :: "nat \<Rightarrow> draw" where
  "ex_draw n = \<lparr>dw_io = IoOk, dw_event_id = replicate n CHR ''a'', dw_recorded_at = ''t''\<rparr>"

definition ex_world :: journal_world where
  "ex_world = \<lparr>jw_journal = \<lparr>aj_file = None, aj_binding = ex_binding, aj_events = []\<rparr>, jw_models = [ex_model], jw_pending = []\<rparr>"

definition ex_calls :: "journal_op list" where
  "ex_calls = [GenerateBegin 0 (ex_draw 0) ex_input,
     GenerateFinish 0 (ex_draw 1) (ex_draw 2) 5 (Inl ([\<lparr>en_is_timeout = False, en_is_connection = True, en_status = None, en_code = None,
       en_cause = Some (ErrorObject 0)\<rparr>], ErrorObject 0)),
     GenerateBegin 0 (ex_draw 3) ex_input, Restart (\<lambda>n. (ex_draw (4 + n), 7)) [ex_model]]"

lemma ex_hex: "bytes32Hex_ok (''0x'' @ replicate 64 CHR ''1'')" "commit_ok (replicate 40 CHR ''a'')"
  by code_simp+

lemma ex_unused:
  "unused j (ex_draw n) \<longleftrightarrow> list_all (\<lambda>e. event_id e \<noteq> replicate n CHR ''a'') (aj_events j)"
  by (fastforce simp: unused_def clean_def ex_draw_def list_all_iff image_iff)

lemma ex_recorded:
  assumes "aj_binding j = ex_binding" "reference_schema_ok ex_journal_lib r" "body_ok ex_journal_lib b"
    and "list_all (\<lambda>e. ae_event_sha256 e = ''0x'' @ replicate 64 CHR ''1'') (aj_events j)"
  shows "\<exists>f u. record_event ex_journal_lib (ex_draw n) r b j = (Inr \<lparr>ae_unsigned = u, ae_event_sha256 = ''0x'' @ replicate 64 CHR ''1''\<rparr>,
      j\<lparr>aj_file := f, aj_events := aj_events j @ [\<lparr>ae_unsigned = u, ae_event_sha256 = ''0x'' @ replicate 64 CHR ''1''\<rparr>]\<rparr>)
    \<and> ue_event_id u = replicate n CHR ''a'' \<and> ue_reference u = r \<and> ue_body u = b"
proof -
  have "case last_event_hash (aj_events j) of None \<Rightarrow> True | Some d \<Rightarrow> bytes32Hex_ok d"
    using assms(4) ex_hex by (cases "aj_events j" rule: rev_cases) (simp_all add: last_event_hash_def)
  then have "transportAttemptEventSchema ex_journal_lib (makeEvent ex_journal_lib j (ex_draw n) r b)"
    using assms ex_hex by (simp add: transportAttemptEventSchema_def makeEvent_def Let_def ex_journal_lib_def binding_schema_ok_def ex_binding_def)
  then show ?thesis
    by (auto simp: record_event_def Let_def appendEvent_def write_file_def makeEvent_def ex_draw_def ex_journal_lib_def)
qed

text \<open>The states between the calls, up to what is in the file.\<close>

definition ex_journal :: "attempt_event list \<Rightarrow> string option \<Rightarrow> attempt_journal" where
  "ex_journal es f = \<lparr>aj_file = f, aj_binding = ex_binding, aj_events = es\<rparr>"

definition ex_event :: "nat \<Rightarrow> attempt_reference \<Rightarrow> event_body \<Rightarrow> attempt_event \<Rightarrow> bool" where
  "ex_event n r b e = (event_id e = replicate n CHR ''a'' \<and> ue_reference (ae_unsigned e) = r \<and> ue_body (ae_unsigned e) = b
     \<and> ae_event_sha256 e = ''0x'' @ replicate 64 CHR ''1'')"

definition ex_reference :: "int \<Rightarrow> attempt_reference" where
  "ex_reference n = \<lparr>af_observation_id = ''o'', af_case_id = ''c'', af_configuration_id = ''f'', af_repetition = 1, af_attempt_sequence = n,
     af_cycle_id = ''y'', af_cycle_attempt = n\<rparr>"

definition ex_started :: "bool \<Rightarrow> event_body" where
  "ex_started retry = Started \<lparr>sb_provider = ''p'', sb_model = ''m'', sb_model_input_sha256 = ''0x'' @ replicate 64 CHR ''1'',
     sb_presented_support_ids = [''s''], sb_retry = retry\<rparr>"

lemma ex_append:
  assumes "list_all (\<lambda>e. ae_event_sha256 e = ''0x'' @ replicate 64 CHR ''1'') es" "reference_schema_ok ex_journal_lib r" "body_ok ex_journal_lib b"
  shows "\<exists>g e. record_event ex_journal_lib (ex_draw n) r b (ex_journal es f) = (Inr e, ex_journal (es @ [e]) g) \<and> ex_event n r b e"
  using ex_recorded [of "ex_journal es f" r b n] assms by (auto simp: ex_journal_def ex_event_def)

lemma ex_began:
  assumes "list_all (\<lambda>e. ae_event_sha256 e = ''0x'' @ replicate 64 CHR ''1'') es" "length (starts_in es ''o'') = k" "k < 3" "jn_identity m = ex_attempt_identity"
    "jn_cycleId m = ''y''" "jn_cycleAttempt m = int k"
  shows "\<exists>g e. generate_begin ex_journal_lib (ex_draw n) ex_input m (ex_journal es f)
      = (Inr e, m\<lparr>jn_lastInput := Some ex_input, jn_cycleAttempt := int k + 1\<rparr>, ex_journal (es @ [e]) g)
    \<and> ex_event n (ex_reference (int k + 1)) (ex_started (0 < k)) e"
proof -
  have "startsFor (ex_journal es f) ''o'' = starts_in es ''o''" by (simp add: startsFor_def starts_in_def ex_journal_def)
  moreover have "reference_schema_ok ex_journal_lib (ex_reference (int k + 1))" "body_ok ex_journal_lib (ex_started (0 < k))"
    using assms(3) ex_hex by (simp_all add: reference_schema_ok_def ex_reference_def ex_started_def ex_journal_lib_def positiveSafeInteger_ok_def max_safe_integer_def)
  moreover have "(starts_in es ''o'' \<noteq> []) = (0 < k)" using assms(2) by auto
  ultimately show ?thesis
    using ex_append [OF assms(1), of "ex_reference (int k + 1)" "ex_started (0 < k)" n f] assms
    by (auto simp: generate_begin_def Let_def beginAttempt_def begin_reference_def ex_attempt_identity_def ex_input_def ex_reference_def ex_started_def)
qed

lemma ex_orderly: "orderly_run ex_journal_lib ex_world ex_calls"
proof -
  have w0: "ex_world = \<lparr>jw_journal = ex_journal [] None, jw_models = [ex_model], jw_pending = []\<rparr>" by (simp add: ex_world_def ex_journal_def)
  obtain g1 e1 where s1: "generate_begin ex_journal_lib (ex_draw 0) ex_input ex_model (ex_journal [] None)
      = (Inr e1, ex_model\<lparr>jn_lastInput := Some ex_input, jn_cycleAttempt := 1\<rparr>, ex_journal [e1] g1)" "ex_event 0 (ex_reference 1) (ex_started False) e1"
    using ex_began [of "[]" 0 ex_model 0 None] by (auto simp: starts_in_def ex_model_def)
  let ?err = "([\<lparr>en_is_timeout = False, en_is_connection = True, en_status = None, en_code = None, en_cause = Some (ErrorObject 0)\<rparr>], ErrorObject 0)"
  let ?m1 = "ex_model\<lparr>jn_lastInput := Some ex_input, jn_cycleAttempt := 1\<rparr>"
  have ok: "reference_schema_ok ex_journal_lib (ex_reference 1)" by (simp add: reference_schema_ok_def ex_reference_def ex_journal_lib_def positiveSafeInteger_ok_def max_safe_integer_def)
  obtain g2 e2 c where s2: "completeFailure ex_journal_lib (ex_draw 2) e1 ?err 5 (ex_journal [e1] g1) = (Inr e2, ex_journal [e1, e2] g2)"
    "ex_event 2 (ex_reference 1) (Ended [] 5 c) e2"
    using ex_append [of "[e1]" "ex_reference 1" "Ended [] 5 (Failed (isTransientTransportError (fst ?err) (snd ?err)) (transportErrorCategory (fst ?err) (snd ?err)))" 2 g1]
      s1(2) ok by (auto simp: completeFailure_def ex_event_def ex_journal_lib_def max_safe_integer_def)
  obtain g3 e3 where s3: "generate_begin ex_journal_lib (ex_draw 3) ex_input ?m1 (ex_journal [e1, e2] g2)
      = (Inr e3, ?m1\<lparr>jn_lastInput := Some ex_input, jn_cycleAttempt := 2\<rparr>, ex_journal [e1, e2, e3] g3)" "ex_event 3 (ex_reference 2) (ex_started True) e3"
    using ex_began [of "[e1, e2]" 1 ?m1 3 g2] s1(2) s2(2)
    by (auto simp: starts_in_def ex_model_def ex_event_def is_started_def ex_started_def ex_reference_def)
  have "list_all (\<lambda>n. unused (ex_journal [e1, e2, e3] g3) (ex_draw (4 + n))) ns" for ns
    using s1(2) s2(2) s3(2) by (simp add: ex_unused ex_journal_def ex_event_def list_all_iff)
  moreover have "distinct (map (\<lambda>n. dw_event_id (ex_draw (4 + n))) ns)" if "distinct ns" for ns
    using that by (auto simp: distinct_map ex_draw_def inj_on_def)
  moreover have "''a'' \<noteq> replicate 2 CHR ''a''" by (simp add: numeral_2_eq_2)
  ultimately show ?thesis
    using s1 s2 s3 ex_unused [of "ex_journal [] None"] ex_unused [of "ex_journal [e1] g1"] ex_unused [of "ex_journal [e1, e2] g2"]
    by (simp add: w0 ex_calls_def generate_finish_def Let_def) (simp add: ex_journal_def ex_event_def ex_input_def ex_draw_def)
qed
text \<open>A write that is reported as failed after its line has been written.\<close>

definition ex_first_event :: attempt_event where
  "ex_first_event = makeEvent ex_journal_lib (ex_journal [] None) (ex_draw 0) (ex_reference 1) (ex_started False)"

definition ex_failed_call :: journal_op where
  "ex_failed_call = GenerateBegin 0 ((ex_draw 0)\<lparr>dw_io := IoFails (length (journal_line ex_journal_lib ex_first_event))\<rparr>) ex_input"

lemma ex_unconfirmed:
  "jw_journal (run (journal_step ex_journal_lib) ex_world [ex_failed_call]) = ex_journal [] (Some (journal_line ex_journal_lib ex_first_event))"
  "journal_initialize ex_journal_lib (ex_journal [] (Some (journal_line ex_journal_lib ex_first_event)))
     = (Inr (), ex_journal [ex_first_event] (Some (journal_line ex_journal_lib ex_first_event)))"
proof -
  let ?line = "journal_line ex_journal_lib ex_first_event" and ?j = "ex_journal [] None"
  have schema: "transportAttemptEventSchema ex_journal_lib ex_first_event" by code_simp
  have make: "makeEvent ex_journal_lib ?j (d\<lparr>dw_io := x\<rparr>) r b = makeEvent ex_journal_lib ?j d r b" for d x r b
    by (simp add: makeEvent_def)
  have start: "beginAttempt ex_journal_lib ((ex_draw 0)\<lparr>dw_io := x\<rparr>) ex_attempt_identity ex_input ''y'' 1 ?j
      = (case appendEvent ex_journal_lib x ex_first_event ?j of (Inl y, k) \<Rightarrow> (Inl y, k) | (Inr _, k) \<Rightarrow> (Inr ex_first_event, k))" for x
  proof -
    have "startsFor ?j obs = []" for obs by (simp add: startsFor_def ex_journal_def)
    then have "beginAttempt ex_journal_lib ((ex_draw 0)\<lparr>dw_io := x\<rparr>) ex_attempt_identity ex_input ''y'' 1 ?j
        = record_event ex_journal_lib ((ex_draw 0)\<lparr>dw_io := x\<rparr>) (ex_reference 1) (ex_started False) ?j"
      by (simp add: beginAttempt_def begin_reference_def ex_attempt_identity_def ex_input_def ex_reference_def ex_started_def)
    then show ?thesis using schema by (simp add: record_event_def Let_def make flip: ex_first_event_def)
  qed
  show "jw_journal (run (journal_step ex_journal_lib) ex_world [ex_failed_call]) = ex_journal [] (Some ?line)"
    using start [of "IoFails (length ?line)"]
    by (simp add: ex_world_def ex_failed_call_def ex_model_def generate_begin_def appendEvent_def write_file_def ex_journal_def)
  have "journal_ok ex_journal_lib (snd (beginAttempt ex_journal_lib (ex_draw 0) ex_attempt_identity ex_input ''y'' 1 ?j))"
    by (rule beginAttempt_ok) (simp_all add: journal_ok_def ex_unused ex_journal_def ex_input_def)
  moreover have "beginAttempt ex_journal_lib (ex_draw 0) ex_attempt_identity ex_input ''y'' 1 ?j = (Inr ex_first_event, ex_journal [ex_first_event] (Some ?line))"
    using start [of IoOk] by (simp add: ex_draw_def appendEvent_def write_file_def ex_journal_def)
  ultimately have "journal_ok ex_journal_lib (ex_journal [ex_first_event] (Some ?line))" by simp
  from plain_journal.reload [OF this]
  show "journal_initialize ex_journal_lib (ex_journal [] (Some ?line)) = (Inr (), ex_journal [ex_first_event] (Some ?line))"
    by (simp add: ex_journal_def)
qed

end
