(* ===== verification/Decision_Support.thy ===== *)
theory Decision_Support
  imports Assessment Evidence_Ledger
begin

text \<open>
  Issued assessments and what is cited for them: \<open>src/decision/queries.ts\<close> and \<open>src/decision/support.ts\<close>. A history of an
  assessment input holds its results in order of issue; the lemmas show that exactly the last one is active and that no result is
  issued twice. An audit bundle is built only when every component of every route is cited. The digest of an unsigned bundle and
  \<open>localeCompare\<close> are parameters. The copies of \<open>structuredClone\<close> are values here.
\<close>

subsection \<open>The assessment ledger\<close>

datatype assessment_status = AssessmentActive | AssessmentRevoked | AssessmentSuperseded

record assessment_record =
  ar_createdAt :: int
  ar_result :: assessment_result
  ar_status :: assessment_status

type_synonym assessment_ledger = "(string \<times> assessment_record list) list"

datatype query_error = AssessmentExists | AssessmentNotFound | QueryLedger ledger_error | QueryRule rule_error

definition assessment_history :: "assessment_ledger \<Rightarrow> string \<Rightarrow> assessment_record list" where
  "assessment_history l inputId = (case jm_get l inputId of None \<Rightarrow> [] | Some h \<Rightarrow> h)"

definition reproduction_of :: "assessment_record \<Rightarrow> string" where
  "reproduction_of r = digest_value (reproductionHash (ar_result r))"

definition issue :: "assessment_ledger \<Rightarrow> assessment_result \<Rightarrow> int \<Rightarrow> query_error + assessment_record \<times> assessment_ledger" where
  "issue l result createdAt =
     (let h = assessment_history l (assessmentInputId result) in
      rbind (check (list_ex (\<lambda>prior. reproduction_of prior = digest_value (reproductionHash result)) h) AssessmentExists) (\<lambda>_.
      let h' = (if h = [] then h else h[length h - 1 := (last h)\<lparr>ar_status := AssessmentSuperseded\<rparr>]);
          r = \<lparr>ar_createdAt = createdAt, ar_result = result, ar_status = AssessmentActive\<rparr>
      in Inr (r, jm_set (assessmentInputId result) (h' @ [r]) l)))"

definition assessment_current :: "assessment_ledger \<Rightarrow> string \<Rightarrow> query_error + assessment_record" where
  "assessment_current l inputId =
     (let h = assessment_history l inputId in if h = [] then Inl AssessmentNotFound else Inr (last h))"

record decision_query_service =
  dq_evidence :: evidence_ledger
  dq_assessments :: assessment_ledger
  dq_rules :: rule_registry

definition evidenceCurrent :: "decision_query_service \<Rightarrow> string \<Rightarrow> query_error + evidence_record" where
  "evidenceCurrent q claimId = map_error QueryLedger (current_evidence (dq_evidence q) claimId)"

definition evidenceHistory :: "decision_query_service \<Rightarrow> string \<Rightarrow> evidence_record list" where
  "evidenceHistory q claimId = history (dq_evidence q) claimId"

definition assessmentCurrent :: "decision_query_service \<Rightarrow> string \<Rightarrow> query_error + assessment_record" where
  "assessmentCurrent q inputId = assessment_current (dq_assessments q) inputId"

definition assessmentHistory :: "decision_query_service \<Rightarrow> string \<Rightarrow> assessment_record list" where
  "assessmentHistory q inputId = assessment_history (dq_assessments q) inputId"

definition authoritativeSource :: "decision_query_service \<Rightarrow> string \<Rightarrow> int \<Rightarrow> query_error + registered_source" where
  "authoritativeSource q sourceId version = map_error QueryRule (lookup_source (dq_rules q) sourceId version)"

subsection \<open>Citations and the audit bundle\<close>

datatype citation_status = CitedActive | CitedSuperseded | CitedRevoked

record support_citation =
  sc_asOf :: int
  sc_commitment :: string
  sc_custodianOrganizationId :: string
  sc_issuerOrganizationId :: string
  sc_resourceId :: string
  sc_resourceVersion :: int
  sc_status :: citation_status
  sc_supports :: "string list"

record rule_citation =
  rq_asOf :: int
  rq_jurisdiction :: string
  rq_ruleId :: string
  rq_ruleVersion :: int
  rq_sourceId :: string
  rq_sourceVersion :: int
  rq_supports :: "string list"

record unsigned_bundle =
  ub_auditId :: string
  ub_assessmentInputId :: string
  ub_assessmentInputVersion :: int
  ub_assessmentReproductionHash :: string
  ub_evidenceCitations :: "support_citation list"
  ub_ruleCitations :: "rule_citation list"
  ub_createdAt :: int

record assessment_audit_bundle = unsigned_bundle +
  ub_bundleHash :: string

datatype support_error = SupportIncomplete | SupportInvalid | SupportStale

record bundle_input =
  bn_assessment :: assessment_result
  bn_auditId :: string
  bn_createdAt :: int
  bn_evidenceCitations :: "support_citation list"
  bn_ruleCitations :: "rule_citation list"

datatype route_component = CompA | CompC | CompE | CompG | CompI | CompU

fun route_id_text :: "formal_route \<Rightarrow> string" where
  "route_id_text ContinuedCompatibleEvUse = ''continued-compatible-ev-use''"
| "route_id_text StationaryStorageRepurposing = ''stationary-storage-repurposing''"
| "route_id_text Recycling = ''recycling''"

fun component_text :: "route_component \<Rightarrow> string" where
  "component_text CompA = ''A''" | "component_text CompC = ''C''" | "component_text CompE = ''E''"
| "component_text CompG = ''G''" | "component_text CompI = ''I''" | "component_text CompU = ''U''"

definition componentPath :: "formal_route \<Rightarrow> route_component \<Rightarrow> string" where
  "componentPath route component = ''routes.'' @ route_id_text route @ ''.'' @ component_text component"

definition citation_incomplete :: "support_citation \<Rightarrow> bool" where
  "citation_incomplete c = (sc_commitment c = [] \<or> sc_custodianOrganizationId c = [] \<or> sc_issuerOrganizationId c = []
     \<or> sc_resourceId c = [] \<or> sc_supports c = [])"

definition rule_citation_incomplete :: "rule_citation \<Rightarrow> bool" where
  "rule_citation_incomplete c = (rq_jurisdiction c = [] \<or> rq_ruleId c = [] \<or> rq_sourceId c = [] \<or> rq_supports c = [])"

definition required_paths :: "assessment_result \<Rightarrow> string list" where
  "required_paths a = concat (map (\<lambda>r. map (componentPath (routeId r)) [CompG, CompC, CompI, CompE, CompA, CompU]) (routes a))"

definition validateAssessmentSupport ::
  "assessment_result \<Rightarrow> support_citation list \<Rightarrow> rule_citation list \<Rightarrow> support_error + unit" where
  "validateAssessmentSupport a evidenceCitations ruleCitations =
     rbind (check (list_ex (\<lambda>c. sc_status c \<noteq> CitedActive) evidenceCitations) SupportStale) (\<lambda>_.
     rbind (check (list_ex citation_incomplete evidenceCitations \<or> list_ex rule_citation_incomplete ruleCitations) SupportInvalid) (\<lambda>_.
     let supported = concat (map sc_supports evidenceCitations) @ concat (map rq_supports ruleCitations) in
     check (list_ex (\<lambda>path. path \<notin> set supported) (required_paths a)) SupportIncomplete))"

text \<open>The comparators: \<open>||\<close> goes on to the next key when a comparison gives 0.\<close>

definition evidence_before :: "(string \<Rightarrow> string \<Rightarrow> int) \<Rightarrow> support_citation \<Rightarrow> support_citation \<Rightarrow> bool" where
  "evidence_before localeCompare l r =
     (let x = localeCompare (sc_resourceId l) (sc_resourceId r); y = sc_resourceVersion l - sc_resourceVersion r in
      (if x \<noteq> 0 then x else if y \<noteq> 0 then y
       else localeCompare (join [CHR 0x00] (sc_supports l)) (join [CHR 0x00] (sc_supports r))) \<le> 0)"

definition rule_before :: "(string \<Rightarrow> string \<Rightarrow> int) \<Rightarrow> rule_citation \<Rightarrow> rule_citation \<Rightarrow> bool" where
  "rule_before localeCompare l r =
     (let x = localeCompare (rq_ruleId l) (rq_ruleId r); y = rq_ruleVersion l - rq_ruleVersion r in
      (if x \<noteq> 0 then x else if y \<noteq> 0 then y
       else localeCompare (join [CHR 0x00] (rq_supports l)) (join [CHR 0x00] (rq_supports r))) \<le> 0)"

definition sortedEvidence :: "(string \<Rightarrow> string \<Rightarrow> int) \<Rightarrow> support_citation list \<Rightarrow> support_citation list" where
  "sortedEvidence localeCompare cs = js_sort (evidence_before localeCompare) cs"

definition sortedRules :: "(string \<Rightarrow> string \<Rightarrow> int) \<Rightarrow> rule_citation list \<Rightarrow> rule_citation list" where
  "sortedRules localeCompare cs = js_sort (rule_before localeCompare) cs"

definition auditId_ok :: "string \<Rightarrow> bool" where
  "auditId_ok s = (urn_ok ''audit'' s \<and> (let u = drop (length ''urn:evllm:audit:'') s in u ! 14 = CHR ''4'' \<and> u ! 19 \<in> set ''89ab''))"

definition buildAssessmentAuditBundle ::
  "(unsigned_bundle \<Rightarrow> string) \<Rightarrow> (string \<Rightarrow> string \<Rightarrow> int) \<Rightarrow> bundle_input \<Rightarrow> support_error + assessment_audit_bundle" where
  "buildAssessmentAuditBundle digest localeCompare i =
     rbind (check (\<not> auditId_ok (bn_auditId i)) SupportInvalid) (\<lambda>_.
     rbind (validateAssessmentSupport (bn_assessment i) (bn_evidenceCitations i) (bn_ruleCitations i)) (\<lambda>_.
     let u = \<lparr>ub_auditId = bn_auditId i, ub_assessmentInputId = assessmentInputId (bn_assessment i),
              ub_assessmentInputVersion = assessmentInputVersion (bn_assessment i),
              ub_assessmentReproductionHash = digest_value (reproductionHash (bn_assessment i)),
              ub_evidenceCitations = sortedEvidence localeCompare (bn_evidenceCitations i),
              ub_ruleCitations = sortedRules localeCompare (bn_ruleCitations i), ub_createdAt = bn_createdAt i\<rparr> in
     Inr (unsigned_bundle.extend u \<lparr>ub_bundleHash = digest u\<rparr>)))"

subsection \<open>Histories\<close>

definition history_ok :: "string \<Rightarrow> assessment_record list \<Rightarrow> bool" where
  "history_ok k h = (h \<noteq> [] \<and> ar_status (last h) = AssessmentActive \<and> list_all (\<lambda>r. ar_status r = AssessmentSuperseded) (butlast h)
     \<and> list_all (\<lambda>r. assessmentInputId (ar_result r) = k) h \<and> distinct (map reproduction_of h))"

definition assessments_ok :: "assessment_ledger \<Rightarrow> bool" where
  "assessments_ok l = (\<forall>k h. jm_get l k = Some h \<longrightarrow> history_ok k h)"

fun issue_step :: "assessment_ledger \<Rightarrow> assessment_result \<times> int \<Rightarrow> assessment_ledger" where
  "issue_step l (result, t) = (case issue l result t of Inl e \<Rightarrow> l | Inr (r, l') \<Rightarrow> l')"

lemma history_ok_snoc:
  assumes "h = [] \<or> history_ok k h" and "assessmentInputId result = k"
    and "\<not> list_ex (\<lambda>prior. reproduction_of prior = digest_value (reproductionHash result)) h"
  shows "history_ok k ((if h = [] then h else h[length h - 1 := (last h)\<lparr>ar_status := AssessmentSuperseded\<rparr>])
    @ [\<lparr>ar_createdAt = t, ar_result = result, ar_status = AssessmentActive\<rparr>])"
proof (cases h rule: rev_cases)
  case (snoc xs x)
  then have "list_all (\<lambda>r. ar_status r = AssessmentSuperseded) xs" "list_all (\<lambda>r. assessmentInputId (ar_result r) = k) (xs @ [x])"
    "distinct (map reproduction_of (xs @ [x]))"
    using assms(1) by (auto simp: history_ok_def)
  then show ?thesis using assms(2,3) snoc by (auto simp: history_ok_def list_all_iff list_ex_iff reproduction_of_def butlast_append)
qed (use assms in \<open>simp add: history_ok_def\<close>)

lemma issue_Inr_iff:
  "(\<exists>y. issue l result t = Inr y) \<longleftrightarrow> digest_value (reproductionHash result) \<notin> set (map reproduction_of (assessment_history l (assessmentInputId result)))"
  by (force simp: issue_def Let_def check_def list_ex_iff)

lemma issue_Inr:
  assumes "issue l result t = Inr (r, l')"
  shows "r = \<lparr>ar_createdAt = t, ar_result = result, ar_status = AssessmentActive\<rparr>
    \<and> assessment_current l' (assessmentInputId result) = Inr r
    \<and> map ar_result (assessment_history l' (assessmentInputId result)) = map ar_result (assessment_history l (assessmentInputId result)) @ [result]
    \<and> (\<forall>k. k \<noteq> assessmentInputId result \<longrightarrow> assessment_history l' k = assessment_history l k)"
proof -
  let ?h = "assessment_history l (assessmentInputId result)"
  have "map ar_result (?h[length ?h - 1 := (last ?h)\<lparr>ar_status := AssessmentSuperseded\<rparr>]) = map ar_result ?h" if "?h \<noteq> []"
    using that by (cases ?h rule: rev_cases) auto
  then show ?thesis
    using assms by (auto simp: issue_def Let_def outcome_simps assessment_current_def assessment_history_def [of "jm_set _ _ _"] jm_simps)
      (simp_all add: assessment_history_def)
qed

interpretation assessments: guarded_system "[]" issue_step assessments_ok
proof
  show "assessments_ok (issue_step l x)" if l: "assessments_ok l" for l x
  proof (cases x)
    case (Pair result t)
    let ?h = "assessment_history l (assessmentInputId result)"
    have "?h = [] \<or> history_ok (assessmentInputId result) ?h"
      using l by (auto simp: assessments_ok_def assessment_history_def split: option.splits)
    from history_ok_snoc [OF this] show ?thesis
      using l Pair by (cases "issue l result t") (auto simp: assessments_ok_def issue_def Let_def outcome_simps jm_simps)
  qed
qed (simp add: assessments_ok_def)

text \<open>In every reachable ledger: the current assessment is the active one, and there is no other.\<close>

lemma history_active_unique:
  assumes "history_ok k h" and "r \<in> set h" and "ar_status r = AssessmentActive"
  shows "r = last h"
proof -
  have "set h = insert (last h) (set (butlast h))"
    using assms(1) by (metis Un_insert_right append_butlast_last_id history_ok_def list.simps(15) list.set(1) set_append sup_bot_right)
  then show ?thesis using assms by (auto simp: history_ok_def list_all_iff)
qed

subsection \<open>Support\<close>

lemma validate_iff:
  "validateAssessmentSupport a es rs = Inr () \<longleftrightarrow> list_all (\<lambda>c. sc_status c = CitedActive \<and> \<not> citation_incomplete c) es
     \<and> list_all (\<lambda>c. \<not> rule_citation_incomplete c) rs
     \<and> (\<forall>r\<in>set (routes a). \<forall>c. (\<exists>e\<in>set es. componentPath (routeId r) c \<in> set (sc_supports e))
         \<or> (\<exists>e\<in>set rs. componentPath (routeId r) c \<in> set (rq_supports e)))"
proof -
  have all: "(\<forall>c\<in>set [CompG, CompC, CompI, CompE, CompA, CompU]. P c) \<longleftrightarrow> (\<forall>c. P c)" for P
    by (auto intro: route_component.induct)
  have "(\<forall>path\<in>set (required_paths a). P path) \<longleftrightarrow> (\<forall>r\<in>set (routes a). \<forall>c. P (componentPath (routeId r) c))" for P
    unfolding required_paths_def set_concat set_map UN_simps using all [of "\<lambda>c. P (componentPath _ c)"] by (simp only: ball_UN Ball_image_comp o_def)
  then show ?thesis
    by (auto simp: validateAssessmentSupport_def Let_def outcome_simps list_ex_iff list_all_iff)
qed

lemma bundle_Inr:
  assumes "buildAssessmentAuditBundle digest localeCompare i = Inr b"
  shows "validateAssessmentSupport (bn_assessment i) (bn_evidenceCitations i) (bn_ruleCitations i) = Inr () \<and> auditId_ok (bn_auditId i)
    \<and> mset (ub_evidenceCitations b) = mset (bn_evidenceCitations i) \<and> mset (ub_ruleCitations b) = mset (bn_ruleCitations i)
    \<and> ub_bundleHash b = digest (unsigned_bundle.truncate b)
    \<and> ub_assessmentReproductionHash b = digest_value (reproductionHash (bn_assessment i))"
  using assms by (auto simp: buildAssessmentAuditBundle_def Let_def outcome_simps unsigned_bundle.defs sortedEvidence_def sortedRules_def)

end
