(* ===== verification/Evaluation_Properties.thy ===== *)
theory Evaluation_Properties
  imports Journal_Instance Decision_Support
begin

text \<open>
  The properties of the journal of model invocations and of issued assessments.
\<close>

subsection \<open>The journal\<close>

text \<open>
  C29: calls of several models interleave, with answers, errors and restarts in any order, and every write may
  fail, or the process die in it, after any number of characters. A process that starts on the file that is left refuses it, or
  it reads the events recorded in memory and at most one more, the line of a write that was reported as failed: no recorded event is
  lost, changed or reordered (unless two different events of the file have the same SHA-256). In a file that is accepted
  every attempt is open or has exactly one outcome, so the totals of the summary add up, and the attempts of an observation
  are numbered without gaps. The file is accepted, and exactly the recorded events are read, if the identifiers are new, no failed write
  left text in the file and the supports of an input are not repeated (\<open>orderly_run\<close>). Assumed of JSON (\<open>torn_codec\<close>): \<open>JSON.parse\<close>
  undoes \<open>JSON.stringify\<close>, which puts no newline into the text of an object, and refuses a proper prefix of such a text and several
  texts or prefixes run together.
\<close>

theorem journal_survives_restart:
  assumes "torn_codec jl" and "new_journal None b = Inr j0"
    and "w = run (journal_step jl) \<lparr>jw_journal = j0, jw_models = models, jw_pending = []\<rparr> calls"
    and "journal_initialize jl ((jw_journal w)\<lparr>aj_events := []\<rparr>) = (r, j)"
  shows "(r = Inr () \<and> inj_on (jl_digest jl) (ae_unsigned ` set (aj_events j))
        \<longrightarrow> j = jw_journal w \<or> (\<exists>e. j = (jw_journal w)\<lparr>aj_events := aj_events (jw_journal w) @ [e]\<rparr>))
    \<and> (orderly_run jl \<lparr>jw_journal = j0, jw_models = models, jw_pending = []\<rparr> calls \<longrightarrow> r = Inr () \<and> j = jw_journal w)
    \<and> (r = Inr () \<longrightarrow> (let s = journal_summary j in
        su_transport_attempts s = su_successful_invocations s + su_failed_attempts s + su_interrupted_attempts s + su_open_attempts s)
      \<and> map (\<lambda>e. af_attempt_sequence (ue_reference (ae_unsigned e))) (startsFor j obs) = map int [1..<attemptsFor j obs + 1])"
proof -
  let ?w0 = "\<lparr>jw_journal = j0, jw_models = models, jw_pending = []\<rparr>"
  have codec: "journal_codec jl" by (rule torn_codec.axioms(1) [OF assms(1)])
  have safe: "journal_safe jl (jw_journal w)"
    unfolding assms(3) by (rule torn_codec.world_run_safe [OF assms(1)]) (simp add: journal_safe_start [OF assms(2)])
  have "r = Inr () \<and> j = jw_journal w" if "orderly_run jl ?w0 calls"
    using journal_codec.world_run [OF codec world_start [OF assms(2)] that] journal_codec.reload [OF codec] assms(3,4)
    by (simp add: journal_world_ok_def)
  moreover have "j = jw_journal w \<or> (\<exists>e. j = (jw_journal w)\<lparr>aj_events := aj_events (jw_journal w) @ [e]\<rparr>)"
    if "r = Inr ()" "inj_on (jl_digest jl) (ae_unsigned ` set (aj_events j))"
    using torn_codec.accepted_events [OF assms(1) safe _ that(2)] assms(4) that(1) by blast
  moreover have "consistent (aj_events j)" if "r = Inr ()" by (rule initialize_consistent [OF assms(4) [unfolded that]])
  ultimately show ?thesis
    using summary_totals [of j] attempts_numbered [of "aj_events j" obs]
    unfolding Let_def startsFor_def attemptsFor_def starts_in_def by blast
qed

theorem journal_survives_restart_witness:
  "journal_initialize ex_journal_lib ((jw_journal (run (journal_step ex_journal_lib) ex_world ex_calls))\<lparr>aj_events := []\<rparr>)
      = (Inr (), jw_journal (run (journal_step ex_journal_lib) ex_world ex_calls))
   \<and> (let j = jw_journal (run (journal_step ex_journal_lib) ex_world [ex_failed_call]) in
      aj_events j = [] \<and> (\<exists>e. journal_initialize ex_journal_lib (j\<lparr>aj_events := []\<rparr>) = (Inr (), j\<lparr>aj_events := aj_events j @ [e]\<rparr>)))"
proof
  have n: "new_journal None ex_binding = Inr (jw_journal ex_world)" by code_simp
  have w: "\<lparr>jw_journal = jw_journal ex_world, jw_models = [ex_model], jw_pending = []\<rparr> = ex_world" by (simp add: ex_world_def)
  note restart = journal_survives_restart [OF plain_journal.torn_codec_axioms n refl, where models = "[ex_model]", unfolded w]
  let ?w = "run (journal_step ex_journal_lib) ex_world ex_calls"
  obtain r j where r: "journal_initialize ex_journal_lib ((jw_journal ?w)\<lparr>aj_events := []\<rparr>) = (r, j)" by fastforce
  then show "journal_initialize ex_journal_lib ((jw_journal ?w)\<lparr>aj_events := []\<rparr>) = (Inr (), jw_journal ?w)"
    using restart [OF r] ex_orderly by simp
  let ?v = "run (journal_step ex_journal_lib) ex_world [ex_failed_call]"
  have v: "journal_initialize ex_journal_lib ((jw_journal ?v)\<lparr>aj_events := []\<rparr>)
      = (Inr (), ex_journal [ex_first_event] (Some (journal_line ex_journal_lib ex_first_event)))"
    "aj_events (jw_journal ?v) = []"
    unfolding ex_unconfirmed(1) using ex_unconfirmed(2) by (simp_all add: ex_journal_def)
  have "ex_journal [ex_first_event] f \<noteq> jw_journal ?v" for f unfolding ex_unconfirmed(1) by (simp add: ex_journal_def)
  then show "let j = jw_journal ?v in aj_events j = []
      \<and> (\<exists>e. journal_initialize ex_journal_lib (j\<lparr>aj_events := []\<rparr>) = (Inr (), j\<lparr>aj_events := aj_events j @ [e]\<rparr>))"
    using restart [OF v(1)] v by (auto simp: Let_def ex_journal_def)
qed

text \<open>An observation may be resumed exactly when its budget of attempts is not used up.\<close>

theorem resume_iff_budget_left: "assertCanResumeObservation j obs maximum = Inr () \<longleftrightarrow> 0 < remainingAttemptBudget j obs maximum"
  by (rule resume_iff_budget)

subsection \<open>Assessments\<close>

text \<open>
  Of the assessments issued for an input exactly the last one is active, and it is the current one; a result is refused exactly when
  it was issued before for this input.
\<close>

theorem issued_assessments:
  "let l = run issue_step [] calls; h = assessment_history l k in
     (h \<noteq> [] \<longrightarrow> assessment_current l k = Inr (last h) \<and> ar_status (last h) = AssessmentActive
        \<and> list_all (\<lambda>r. ar_status r = AssessmentSuperseded) (butlast h) \<and> distinct (map reproduction_of h))
     \<and> ((\<exists>y. issue l result t = Inr y) \<longleftrightarrow> digest_value (reproductionHash result)
         \<notin> set (map reproduction_of (assessment_history l (assessmentInputId result))))"
proof -
  have "assessments_ok (run issue_step [] calls)" by (rule assessments.inv_run)
  then show ?thesis unfolding Let_def issue_Inr_iff
    by (auto simp: assessments_ok_def history_ok_def assessment_current_def assessment_history_def Let_def split: option.splits)
qed

text \<open>
  An audit bundle is built exactly when the identifier is well formed, every cited piece of
  evidence is active and complete, every cited rule is complete, and each of the six components of each assessed route is supported by a
  citation. The bundle holds the citations that were given, in the order of the comparators, and the digest of all its other fields.
\<close>

theorem audit_bundle_complete:
  "((\<exists>b. buildAssessmentAuditBundle digest localeCompare i = Inr b) \<longleftrightarrow> auditId_ok (bn_auditId i)
     \<and> list_all (\<lambda>c. sc_status c = CitedActive \<and> \<not> citation_incomplete c) (bn_evidenceCitations i)
     \<and> list_all (\<lambda>c. \<not> rule_citation_incomplete c) (bn_ruleCitations i)
     \<and> list_all (\<lambda>r. \<forall>c. list_ex (\<lambda>e. componentPath (routeId r) c \<in> set (sc_supports e)) (bn_evidenceCitations i)
         \<or> list_ex (\<lambda>e. componentPath (routeId r) c \<in> set (rq_supports e)) (bn_ruleCitations i)) (routes (bn_assessment i)))
   \<and> buildAssessmentAuditBundle digest localeCompare i \<in> Inr ` {b. mset (ub_evidenceCitations b) = mset (bn_evidenceCitations i)
     \<and> mset (ub_ruleCitations b) = mset (bn_ruleCitations i) \<and> ub_bundleHash b = digest (unsigned_bundle.truncate b)} \<union> range Inl"
proof -
  have "(\<exists>b. buildAssessmentAuditBundle digest localeCompare i = Inr b) \<longleftrightarrow> auditId_ok (bn_auditId i)
      \<and> validateAssessmentSupport (bn_assessment i) (bn_evidenceCitations i) (bn_ruleCitations i) = Inr ()"
    by (cases "validateAssessmentSupport (bn_assessment i) (bn_evidenceCitations i) (bn_ruleCitations i)")
      (auto simp: buildAssessmentAuditBundle_def Let_def check_def)
  moreover have "buildAssessmentAuditBundle digest localeCompare i \<in> Inr ` {b. mset (ub_evidenceCitations b) = mset (bn_evidenceCitations i)
     \<and> mset (ub_ruleCitations b) = mset (bn_ruleCitations i) \<and> ub_bundleHash b = digest (unsigned_bundle.truncate b)} \<union> range Inl"
    using bundle_Inr [of digest localeCompare i] by (cases "buildAssessmentAuditBundle digest localeCompare i") auto
  ultimately show ?thesis unfolding validate_iff by (simp add: list_all_iff list_ex_iff conj_assoc)
qed

end
