(* ===== verification/Sessions.thy ===== *)
theory Sessions
  imports Schemas
begin

text \<open>
  Wallet sessions, \<open>src/assistant/session.ts\<close>. The signature check, the credential check, the digest of
  a token, the clock and the random values are parameters of a call. \<open>verify\<close> is split at its \<open>await\<close>s:
  \<open>verify_begin\<close> consumes the challenge before anything is awaited, \<open>verify_finish\<close> opens the session on
  the state as it is by then. The lemmas show the bounds on stored challenges and sessions, that a
  challenge is used at most once even by interleaved calls, and that a session never outlives its time
  or belongs to anybody but the challenged identity.
\<close>

record identity =
  id_actorId :: string
  id_organizationId :: string
  id_credentialId :: string
  id_address :: string

record challenge =
  ch_identity :: identity
  ch_challengeId :: string
  ch_message :: string
  ch_expiresAt :: int

record actor_session =
  as_sessionId :: string
  as_identity :: identity
  as_issuedAt :: int
  as_expiresAt :: int

datatype session_error = SCapacity | SExpired | SInvalid | SReplay | SSchemaRejected

record session_manager =
  sm_challenges :: "(string, challenge) jmap"
  sm_sessions :: "(string, actor_session) jmap"
  challengeLifetimeSeconds :: int
  maxChallenges :: int
  maxSessions :: int
  sessionLifetimeSeconds :: int

definition positiveInteger_ok :: "int \<Rightarrow> bool" where
  "positiveInteger_ok v = (\<not> (v > max_safe_integer \<or> v \<le> 0))"

definition new_session_manager :: "int \<Rightarrow> int option \<Rightarrow> int option \<Rightarrow> int option \<Rightarrow> session_manager option" where
  "new_session_manager sessionLifetime challengeLifetime mChallenges mSessions =
     (let cl = (case challengeLifetime of None \<Rightarrow> 300 | Some v \<Rightarrow> v);
          mc = (case mChallenges of None \<Rightarrow> 1024 | Some v \<Rightarrow> v);
          ms = (case mSessions of None \<Rightarrow> 1024 | Some v \<Rightarrow> v) in
      if positiveInteger_ok cl \<and> positiveInteger_ok mc \<and> positiveInteger_ok ms \<and> positiveInteger_ok sessionLifetime
      then Some \<lparr>sm_challenges = [], sm_sessions = [], challengeLifetimeSeconds = cl, maxChallenges = mc,
                 maxSessions = ms, sessionLifetimeSeconds = sessionLifetime\<rparr>
      else None)"

definition identity_ok :: "identity \<Rightarrow> bool" where
  "identity_ok i = (starts_with ''urn:evllm:actor:'' (id_actorId i)
     \<and> starts_with ''urn:evllm:org:'' (id_organizationId i)
     \<and> starts_with ''urn:evllm:credential:'' (id_credentialId i)
     \<and> hex_text_ok 40 (id_address i))"

definition removeExpired :: "int \<Rightarrow> string option \<Rightarrow> session_manager \<Rightarrow> session_manager" where
  "removeExpired currentTime retained m = m\<lparr>
     sm_challenges := jm_filter (\<lambda>_ c. \<not> ch_expiresAt c \<le> currentTime) (sm_challenges m),
     sm_sessions := jm_filter (\<lambda>k s. \<not> (Some k \<noteq> retained \<and> as_expiresAt s \<le> currentTime)) (sm_sessions m)\<rparr>"

definition challenge_message :: "identity \<Rightarrow> string \<Rightarrow> string \<Rightarrow> int \<Rightarrow> string" where
  "challenge_message i challengeId nonce expiresAt = join [CHR 0x0A]
     [''EVLLM wallet session v1'', ''challenge='' @ challengeId, ''actor='' @ id_actorId i,
      ''organization='' @ id_organizationId i, ''credential='' @ id_credentialId i,
      ''address='' @ id_address i, ''nonce='' @ nonce, ''expires_at='' @ show_int expiresAt]"

definition issue_challenge ::
  "session_manager \<Rightarrow> int \<Rightarrow> string \<Rightarrow> string \<Rightarrow> identity \<Rightarrow> (session_error + challenge) \<times> session_manager" where
  "issue_challenge m now challengeId nonce raw =
     (if \<not> identity_ok raw then (Inl SSchemaRejected, m)
      else let m1 = removeExpired now None m in
        if int (length (sm_challenges m1)) \<ge> maxChallenges m1 then (Inl SCapacity, m1)
        else let expiresAt = now + challengeLifetimeSeconds m1;
                 c = \<lparr>ch_identity = raw, ch_challengeId = challengeId,
                      ch_message = challenge_message raw challengeId nonce expiresAt, ch_expiresAt = expiresAt\<rparr>
             in (Inr c, m1\<lparr>sm_challenges := jm_set challengeId c (sm_challenges m1)\<rparr>))"

definition verify_begin :: "session_manager \<Rightarrow> int \<Rightarrow> string \<Rightarrow> (session_error + challenge) \<times> session_manager" where
  "verify_begin m now challengeId =
     (case jm_get (sm_challenges m) challengeId of
        None \<Rightarrow> (Inl SReplay, m)
      | Some c \<Rightarrow>
          let m1 = removeExpired now None (m\<lparr>sm_challenges := jm_del challengeId (sm_challenges m)\<rparr>) in
          (if ch_expiresAt c \<le> now then Inl SExpired else Inr c, m1))"

text \<open>\<open>now1\<close> is the clock after the awaited checks, \<open>now2\<close> the clock when the session is issued.\<close>

record finish_input =
  fi_credentialCurrent :: bool
  fi_signatureValid :: bool
  fi_now1 :: int
  fi_now2 :: int
  fi_token :: string
  fi_uuid :: string

definition session_for :: "session_manager \<Rightarrow> challenge \<Rightarrow> finish_input \<Rightarrow> actor_session" where
  "session_for m c f = \<lparr>as_sessionId = ''urn:evllm:session:'' @ fi_uuid f, as_identity = ch_identity c,
     as_issuedAt = fi_now2 f, as_expiresAt = fi_now2 f + sessionLifetimeSeconds m\<rparr>"

definition verify_finish ::
  "(string \<Rightarrow> string) \<Rightarrow> session_manager \<Rightarrow> challenge \<Rightarrow> finish_input
    \<Rightarrow> (session_error + (string \<times> actor_session)) \<times> session_manager" where
  "verify_finish digest m c f =
     (if \<not> fi_credentialCurrent f then (Inl SInvalid, m)
      else if \<not> fi_signatureValid f then (Inl SInvalid, m)
      else if ch_expiresAt c \<le> fi_now1 f then (Inl SExpired, m)
      else let m1 = removeExpired (fi_now2 f) None m in
        if int (length (sm_sessions m1)) \<ge> maxSessions m1 then (Inl SCapacity, m1)
        else (Inr (fi_token f, session_for m1 c f),
              m1\<lparr>sm_sessions := jm_set (digest (fi_token f)) (session_for m1 c f) (sm_sessions m1)\<rparr>))"

definition verify_session ::
  "(string \<Rightarrow> string) \<Rightarrow> session_manager \<Rightarrow> int \<Rightarrow> string \<Rightarrow> finish_input
    \<Rightarrow> (session_error + (string \<times> actor_session)) \<times> session_manager" where
  "verify_session digest m now challengeId f =
     (case verify_begin m now challengeId of
        (Inl e, m1) \<Rightarrow> (Inl e, m1)
      | (Inr c, m1) \<Rightarrow> verify_finish digest m1 c f)"

definition require_session ::
  "(string \<Rightarrow> string) \<Rightarrow> session_manager \<Rightarrow> int \<Rightarrow> string \<Rightarrow> (session_error + actor_session) \<times> session_manager" where
  "require_session digest m now token =
     (case jm_get (sm_sessions m) (digest token) of
        None \<Rightarrow> (Inl SInvalid, m)
      | Some s \<Rightarrow>
          let m1 = removeExpired now (Some (digest token)) m in
          if as_expiresAt s \<le> now then (Inl SExpired, m1\<lparr>sm_sessions := jm_del (digest token) (sm_sessions m1)\<rparr>)
          else (Inr s, m1))"

definition logout :: "(string \<Rightarrow> string) \<Rightarrow> session_manager \<Rightarrow> int \<Rightarrow> string \<Rightarrow> session_manager" where
  "logout digest m now token =
     (let m1 = removeExpired now None m in m1\<lparr>sm_sessions := jm_del (digest token) (sm_sessions m1)\<rparr>)"

subsection \<open>Interleaved calls\<close>

text \<open>
  \<open>sw_pending\<close> holds the challenges whose verification is between its two halves; \<open>sw_used\<close> lists the
  challenges that were consumed, oldest first.
\<close>

record session_world =
  sw_manager :: session_manager
  sw_pending :: "challenge list"
  sw_issued :: "challenge list"
  sw_used :: "challenge list"
  sw_opened :: "(challenge \<times> actor_session) list"

datatype session_op =
  OpChallenge int string string identity
  | OpVerifyBegin int string
  | OpVerifyFinish nat finish_input
  | OpRequire int string
  | OpLogout int string

fun session_step :: "(string \<Rightarrow> string) \<Rightarrow> session_world \<Rightarrow> session_op \<Rightarrow> session_world" where
  "session_step digest w (OpChallenge now i nonce raw) =
     (case issue_challenge (sw_manager w) now i nonce raw of
        (Inl _, m) \<Rightarrow> w\<lparr>sw_manager := m\<rparr>
      | (Inr c, m) \<Rightarrow> w\<lparr>sw_manager := m, sw_issued := sw_issued w @ [c]\<rparr>)"
| "session_step digest w (OpVerifyBegin now i) =
     (case verify_begin (sw_manager w) now i of
        (Inl _, m) \<Rightarrow> w\<lparr>sw_manager := m\<rparr>
      | (Inr c, m) \<Rightarrow> w\<lparr>sw_manager := m, sw_pending := sw_pending w @ [c], sw_used := sw_used w @ [c]\<rparr>)"
| "session_step digest w (OpVerifyFinish n f) =
     (if n < length (sw_pending w) then
        let c = sw_pending w ! n; rest = take n (sw_pending w) @ drop (Suc n) (sw_pending w) in
        (case verify_finish digest (sw_manager w) c f of
           (Inl _, m) \<Rightarrow> w\<lparr>sw_manager := m, sw_pending := rest\<rparr>
         | (Inr (_, s), m) \<Rightarrow> w\<lparr>sw_manager := m, sw_pending := rest, sw_opened := sw_opened w @ [(c, s)]\<rparr>)
      else w)"
| "session_step digest w (OpRequire now token) = w\<lparr>sw_manager := snd (require_session digest (sw_manager w) now token)\<rparr>"
| "session_step digest w (OpLogout now token) = w\<lparr>sw_manager := logout digest (sw_manager w) now token\<rparr>"

definition session_world_of :: "session_manager \<Rightarrow> session_world" where
  "session_world_of m = \<lparr>sw_manager = m, sw_pending = [], sw_issued = [], sw_used = [], sw_opened = []\<rparr>"

subsection \<open>What a session manager keeps\<close>

text \<open>
  Every stored challenge is filed under its own identifier and was issued to a well-formed identity;
  the maps stay within their configured sizes.
\<close>

definition challenges_ok :: "session_manager \<Rightarrow> bool" where
  "challenges_ok m = (jm_ok (sm_challenges m) \<and> int (length (sm_challenges m)) \<le> maxChallenges m
     \<and> (\<forall>i c. jm_get (sm_challenges m) i = Some c \<longrightarrow> ch_challengeId c = i \<and> identity_ok (ch_identity c)))"

definition sessions_ok :: "session_manager \<Rightarrow> bool" where
  "sessions_ok m = (jm_ok (sm_sessions m) \<and> int (length (sm_sessions m)) \<le> maxSessions m
     \<and> (\<forall>k s. jm_get (sm_sessions m) k = Some s \<longrightarrow> identity_ok (as_identity s)
          \<and> as_expiresAt s = as_issuedAt s + sessionLifetimeSeconds m))"

definition manager_ok :: "session_manager \<Rightarrow> bool" where
  "manager_ok m = (challenges_ok m \<and> sessions_ok m)"

lemma length_jm_del: "length (jm_del k m) \<le> length m"
  by (simp add: jm_del_filter length_jm_filter)

lemma jm_set_bound: "int (length m) < n \<Longrightarrow> int (length (jm_set k v m)) \<le> n"
  by (simp add: length_jm_set)

lemma jm_get_filter_Some:
  "jm_ok m \<Longrightarrow> jm_get (jm_filter P m) k = Some v \<Longrightarrow> jm_get m k = Some v \<and> P k v"
  by (auto simp: jm_get_filter split: option.splits if_splits)

lemma removeExpired_ok: "manager_ok m \<Longrightarrow> manager_ok (removeExpired t r m)"
  unfolding manager_ok_def challenges_ok_def sessions_ok_def
  by (auto simp: removeExpired_def jm_ok_filter dest: jm_get_filter_Some
      intro: order_trans [OF of_nat_mono [OF length_jm_filter]])

lemma removeExpired_fields [simp]:
  "maxChallenges (removeExpired t r m) = maxChallenges m" "maxSessions (removeExpired t r m) = maxSessions m"
  "sessionLifetimeSeconds (removeExpired t r m) = sessionLifetimeSeconds m"
  "challengeLifetimeSeconds (removeExpired t r m) = challengeLifetimeSeconds m"
  by (simp_all add: removeExpired_def)

lemma delete_challenge_ok: "manager_ok m \<Longrightarrow> manager_ok (m\<lparr>sm_challenges := jm_del i (sm_challenges m)\<rparr>)"
  by (auto simp: manager_ok_def challenges_ok_def sessions_ok_def jm_simps jm_ok_del split: if_splits
      intro: order_trans [OF of_nat_mono [OF length_jm_del]])

lemma delete_session_ok: "manager_ok m \<Longrightarrow> manager_ok (m\<lparr>sm_sessions := jm_del i (sm_sessions m)\<rparr>)"
  by (auto simp: manager_ok_def challenges_ok_def sessions_ok_def jm_simps jm_ok_del split: if_splits
      intro: order_trans [OF of_nat_mono [OF length_jm_del]])

lemma issue_challenge_ok:
  assumes "manager_ok m"
  shows "manager_ok (snd (issue_challenge m now i nonce raw))"
proof -
  let ?m = "removeExpired now None m"
  have ok: "manager_ok ?m" by (rule removeExpired_ok [OF assms])
  then show ?thesis
    using assms jm_set_bound [of "sm_challenges ?m" "maxChallenges m"]
    by (auto simp: issue_challenge_def Let_def manager_ok_def challenges_ok_def sessions_ok_def jm_simps jm_ok_set)
qed

lemma verify_begin_ok: "manager_ok m \<Longrightarrow> manager_ok (snd (verify_begin m now i))"
  by (auto simp: verify_begin_def Let_def removeExpired_ok delete_challenge_ok split: option.splits)

lemma verify_begin_Inr:
  assumes "verify_begin m now i = (Inr c, m1)" and "manager_ok m"
  shows "jm_get (sm_challenges m) i = Some c \<and> jm_get (sm_challenges m1) i = None \<and> now < ch_expiresAt c
    \<and> ch_challengeId c = i \<and> identity_ok (ch_identity c)"
proof -
  have c: "jm_get (sm_challenges m) i = Some c" and now: "now < ch_expiresAt c"
    and m1: "m1 = removeExpired now None (m\<lparr>sm_challenges := jm_del i (sm_challenges m)\<rparr>)"
    using assms(1) by (auto simp: verify_begin_def Let_def split: option.splits if_splits)
  have "jm_get (sm_challenges m1) i = None"
    using assms(2) by (simp add: m1 removeExpired_def jm_get_filter jm_ok_del jm_get_del manager_ok_def challenges_ok_def)
  with c now assms(2) show ?thesis by (auto simp: manager_ok_def challenges_ok_def)
qed

lemma verify_finish_ok:
  assumes "manager_ok m" and "identity_ok (ch_identity c)"
  shows "manager_ok (snd (verify_finish digest m c f))"
proof -
  let ?m = "removeExpired (fi_now2 f) None m"
  have "manager_ok ?m" by (rule removeExpired_ok [OF assms(1)])
  then show ?thesis
    using assms jm_set_bound [of "sm_sessions ?m" "maxSessions m"]
    by (auto simp: verify_finish_def Let_def manager_ok_def challenges_ok_def sessions_ok_def session_for_def
        jm_simps jm_ok_set)
qed

lemma verify_finish_Inr:
  assumes "verify_finish digest m c f = (Inr (token, s), m1)"
  shows "fi_credentialCurrent f \<and> fi_signatureValid f \<and> fi_now1 f < ch_expiresAt c \<and> as_identity s = ch_identity c
    \<and> as_issuedAt s = fi_now2 f \<and> as_expiresAt s = fi_now2 f + sessionLifetimeSeconds m
    \<and> jm_get (sm_sessions m1) (digest token) = Some s"
  using assms by (auto simp: verify_finish_def Let_def session_for_def jm_simps split: if_splits)

lemma require_session_ok: "manager_ok m \<Longrightarrow> manager_ok (snd (require_session digest m now token))"
  by (auto simp: require_session_def Let_def removeExpired_ok delete_session_ok split: option.splits)

lemma logout_ok: "manager_ok m \<Longrightarrow> manager_ok (logout digest m now token)"
  by (simp add: logout_def Let_def removeExpired_ok delete_session_ok)

text \<open>
  A token is accepted exactly when its session is stored and still runs; afterwards, only expired
  sessions are gone.
\<close>

lemma require_session_Inr:
  assumes "manager_ok m"
  shows "(\<exists>m1. require_session digest m now token = (Inr s, m1))
    \<longleftrightarrow> jm_get (sm_sessions m) (digest token) = Some s \<and> now < as_expiresAt s"
  by (auto simp: require_session_def Let_def split: option.splits if_splits)

lemma logout_forgets:
  assumes "manager_ok m"
  shows "fst (require_session digest (logout digest m now token) later token) = Inl SInvalid"
  by (simp add: logout_def Let_def require_session_def jm_get_del)

subsection \<open>Interleavings use a challenge once\<close>

text \<open>
  Challenge identifiers are random: \<open>fresh_ids\<close> says that no two challenges issued so far share one.
  Every session opened and every pending verification accounts for a use of its challenge; under fresh
  identifiers no challenge is used twice.
\<close>

definition ids :: "challenge list \<Rightarrow> string list" where
  "ids cs = map ch_challengeId cs"

definition fresh_ids :: "session_world \<Rightarrow> bool" where
  "fresh_ids w = distinct (ids (sw_issued w))"

definition uses_ok :: "session_world \<Rightarrow> bool" where
  "uses_ok w = (mset (map fst (sw_opened w)) + mset (sw_pending w) \<subseteq># mset (sw_used w)
     \<and> set (sw_used w) \<subseteq> set (sw_issued w)
     \<and> (\<forall>i c. jm_get (sm_challenges (sw_manager w)) i = Some c \<longrightarrow> c \<in> set (sw_issued w))
     \<and> (fresh_ids w \<longrightarrow> distinct (ids (sw_used w))
          \<and> (\<forall>i c. jm_get (sm_challenges (sw_manager w)) i = Some c \<longrightarrow> i \<notin> set (ids (sw_used w)))))"

definition world_ok :: "session_world \<Rightarrow> bool" where
  "world_ok w = (manager_ok (sw_manager w)
     \<and> (\<forall>c\<in>set (sw_pending w). identity_ok (ch_identity c))
     \<and> (\<forall>(c, s)\<in>set (sw_opened w). as_identity s = ch_identity c)
     \<and> uses_ok w)"

lemma world_ok_start: "manager_ok m \<Longrightarrow> sm_challenges m = [] \<Longrightarrow> world_ok (session_world_of m)"
  by (simp add: world_ok_def uses_ok_def session_world_of_def fresh_ids_def ids_def)

text \<open>A manager whose challenges are among the old ones keeps the accounts.\<close>

lemma uses_ok_fewer:
  assumes "uses_ok w" and "\<And>i c. jm_get (sm_challenges m) i = Some c \<Longrightarrow> jm_get (sm_challenges (sw_manager w)) i = Some c"
  shows "uses_ok (w\<lparr>sw_manager := m\<rparr>)"
  using assms(1) unfolding uses_ok_def fresh_ids_def by simp (metis assms(2))

lemma world_ok_fewer:
  assumes "world_ok w" and "manager_ok m"
    and "\<And>i c. jm_get (sm_challenges m) i = Some c \<Longrightarrow> jm_get (sm_challenges (sw_manager w)) i = Some c"
  shows "world_ok (w\<lparr>sw_manager := m\<rparr>)"
  using assms uses_ok_fewer [of w m] by (simp add: world_ok_def)

lemma removeExpired_challenges:
  "manager_ok m \<Longrightarrow> jm_get (sm_challenges (removeExpired t r m)) i = Some c \<Longrightarrow> jm_get (sm_challenges m) i = Some c"
  by (auto simp: removeExpired_def manager_ok_def challenges_ok_def dest: jm_get_filter_Some)

lemma challenge_world_ok:
  assumes w: "world_ok w"
  shows "world_ok (session_step digest w (OpChallenge now i nonce raw))"
proof -
  let ?m = "sw_manager w" and ?r = "issue_challenge (sw_manager w) now i nonce raw"
  have m: "manager_ok ?m" using w by (simp add: world_ok_def)
  note ok = issue_challenge_ok [OF m, of now i nonce raw]
  show ?thesis
  proof (cases ?r)
    case (Pair a m1)
    show ?thesis
    proof (cases a)
      case (Inl e)
      have "jm_get (sm_challenges ?m) j = Some c" if "jm_get (sm_challenges m1) j = Some c" for j c
        using that Pair Inl removeExpired_challenges [OF m]
        by (auto simp: issue_challenge_def Let_def split: if_splits)
      then show ?thesis using world_ok_fewer [OF w, of m1] ok Pair Inl by simp
    next
      case (Inr c)
      have c: "ch_challengeId c = i" and m1: "m1 = (removeExpired now None ?m)\<lparr>sm_challenges :=
          jm_set i c (sm_challenges (removeExpired now None ?m))\<rparr>"
        using Pair Inr by (auto simp: issue_challenge_def Let_def split: if_splits)
      have old: "j = i \<and> d = c \<or> jm_get (sm_challenges ?m) j = Some d" if "jm_get (sm_challenges m1) j = Some d" for j d
        using that removeExpired_challenges [OF m] by (auto simp: m1 jm_simps split: if_splits)
      have u: "uses_ok w" using w by (simp add: world_ok_def)
      let ?w = "w\<lparr>sw_manager := m1, sw_issued := sw_issued w @ [c]\<rparr>"
      have fr: "fresh_ids w \<and> i \<notin> set (ids (sw_issued w))" if "fresh_ids ?w"
        using that c by (simp add: fresh_ids_def ids_def)
      have "set (ids (sw_used w)) \<subseteq> set (ids (sw_issued w))" using u by (auto simp: uses_ok_def ids_def)
      with fr old u have "uses_ok ?w" unfolding uses_ok_def by simp blast
      then show ?thesis using w ok Pair Inr by (simp add: world_ok_def)
    qed
  qed
qed

lemma verify_begin_world_ok:
  assumes w: "world_ok w"
  shows "world_ok (session_step digest w (OpVerifyBegin now i))"
proof -
  let ?m = "sw_manager w"
  have m: "manager_ok ?m" and u: "uses_ok w" using w by (simp_all add: world_ok_def)
  note ok = verify_begin_ok [OF m, of now i]
  have fewer: "jm_get (sm_challenges ?m) j = Some c"
    if "jm_get (sm_challenges (snd (verify_begin ?m now i))) j = Some c" for j c
  proof (cases "jm_get (sm_challenges ?m) i")
    case None
    then show ?thesis using that by (simp add: verify_begin_def)
  next
    case (Some d)
    then have "jm_get (sm_challenges (removeExpired now None (?m\<lparr>sm_challenges := jm_del i (sm_challenges ?m)\<rparr>))) j = Some c"
      using that by (simp add: verify_begin_def Let_def)
    from removeExpired_challenges [OF delete_challenge_ok [OF m] this] show ?thesis
      by (simp add: jm_get_del split: if_splits)
  qed
  show ?thesis
  proof (cases "verify_begin ?m now i")
    case (Pair a m1)
    show ?thesis
    proof (cases a)
      case (Inl e)
      then show ?thesis using world_ok_fewer [OF w, of m1] ok fewer Pair by simp
    next
      case (Inr c)
      have c: "jm_get (sm_challenges ?m) i = Some c" "jm_get (sm_challenges m1) i = None"
        "ch_challengeId c = i" "identity_ok (ch_identity c)"
        using verify_begin_Inr [of ?m now i c m1] Pair Inr m by auto
      have "j \<noteq> i" if "jm_get (sm_challenges m1) j = Some d" for j d using that c(2) by auto
      then have "uses_ok (w\<lparr>sw_manager := m1, sw_pending := sw_pending w @ [c], sw_used := sw_used w @ [c]\<rparr>)"
        using u c fewer Pair unfolding uses_ok_def fresh_ids_def ids_def by (simp add: fun_eq_iff) blast
      then show ?thesis using w ok c Pair Inr by (simp add: world_ok_def)
    qed
  qed
qed

lemma mset_drop_nth: "n < length xs \<Longrightarrow> mset xs = add_mset (xs ! n) (mset (take n xs @ drop (Suc n) xs))"
  by (subst id_take_nth_drop [of n xs]) auto

lemma verify_finish_world_ok:
  assumes w: "world_ok w"
  shows "world_ok (session_step digest w (OpVerifyFinish n f))"
proof (cases "n < length (sw_pending w)")
  case True
  let ?m = "sw_manager w" and ?c = "sw_pending w ! n" and ?rest = "take n (sw_pending w) @ drop (Suc n) (sw_pending w)"
  have m: "manager_ok ?m" and u: "uses_ok w" and c: "identity_ok (ch_identity ?c)"
    using w True by (auto simp: world_ok_def)
  note ok = verify_finish_ok [OF m c, of digest f]
  have ms: "mset (sw_pending w) = add_mset ?c (mset ?rest)" using mset_drop_nth [OF True] .
  have rest: "set ?rest \<subseteq> set (sw_pending w)" by (auto dest: in_set_takeD in_set_dropD)
  have fewer: "jm_get (sm_challenges ?m) j = Some d"
    if "jm_get (sm_challenges (snd (verify_finish digest ?m ?c f))) j = Some d" for j d
    using that removeExpired_challenges [OF m]
    by (auto simp: verify_finish_def Let_def split: if_splits)
  show ?thesis
  proof (cases "verify_finish digest ?m ?c f")
    case (Pair a m1)
    show ?thesis
    proof (cases a)
      case (Inl e)
      have "mset (map fst (sw_opened w)) + mset ?rest \<subseteq># mset (map fst (sw_opened w)) + mset (sw_pending w)"
        unfolding ms by simp
      then have acc: "mset (map fst (sw_opened w)) + mset ?rest \<subseteq># mset (sw_used w)"
        using u subset_mset.order_trans unfolding uses_ok_def by blast
      have "uses_ok (w\<lparr>sw_manager := m1\<rparr>)" using uses_ok_fewer [OF u] fewer Pair by simp
      then have "uses_ok (w\<lparr>sw_manager := m1, sw_pending := ?rest\<rparr>)"
        using acc by (simp add: uses_ok_def fresh_ids_def)
      then show ?thesis using w ok rest True Pair Inl by (auto simp: world_ok_def Let_def)
    next
      case (Inr ts)
      obtain token s where ts: "ts = (token, s)" by fastforce
      have s: "as_identity s = ch_identity ?c" using verify_finish_Inr [of digest ?m ?c f token s m1] Pair Inr ts by simp
      have acc: "mset (map fst (sw_opened w @ [(?c, s)])) + mset ?rest \<subseteq># mset (sw_used w)"
        using u unfolding uses_ok_def ms by simp
      have "uses_ok (w\<lparr>sw_manager := m1\<rparr>)" using uses_ok_fewer [OF u] fewer Pair by simp
      then have "uses_ok (w\<lparr>sw_manager := m1, sw_pending := ?rest, sw_opened := sw_opened w @ [(?c, s)]\<rparr>)"
        using acc by (simp add: uses_ok_def fresh_ids_def)
      then show ?thesis using w ok rest s True Pair Inr ts by (auto simp: world_ok_def Let_def)
    qed
  qed
qed (use w in simp)

lemma session_step_ok: "world_ok w \<Longrightarrow> world_ok (session_step digest w x)"
proof (cases x)
  case (OpRequire now token)
  assume w: "world_ok w"
  have m: "manager_ok (sw_manager w)" using w by (simp add: world_ok_def)
  have "jm_get (sm_challenges (sw_manager w)) i = Some c"
    if "jm_get (sm_challenges (snd (require_session digest (sw_manager w) now token))) i = Some c" for i c
    using that removeExpired_challenges [OF m] by (auto simp: require_session_def Let_def split: option.splits if_splits)
  then show ?thesis using OpRequire world_ok_fewer [OF w] require_session_ok [OF m] by simp
next
  case (OpLogout now token)
  assume w: "world_ok w"
  have m: "manager_ok (sw_manager w)" using w by (simp add: world_ok_def)
  show ?thesis
    using OpLogout world_ok_fewer [OF w logout_ok [OF m]] removeExpired_challenges [OF m] by (simp add: logout_def Let_def)
qed (auto simp del: session_step.simps intro: challenge_world_ok verify_begin_world_ok verify_finish_world_ok)

text \<open>The manager of the constructor, with any configuration it accepts.\<close>

definition configured_manager :: "int \<Rightarrow> int \<Rightarrow> int \<Rightarrow> int \<Rightarrow> session_manager" where
  "configured_manager sl cl mc ms = (case new_session_manager sl (Some cl) (Some mc) (Some ms) of
     Some m \<Rightarrow> m
   | None \<Rightarrow> \<lparr>sm_challenges = [], sm_sessions = [], challengeLifetimeSeconds = 300, maxChallenges = 1024,
       maxSessions = 1024, sessionLifetimeSeconds = 900\<rparr>)"

lemma new_session_manager_ok:
  "new_session_manager sl cl mc ms = Some m \<Longrightarrow> manager_ok m \<and> sm_challenges m = []"
  by (auto simp: new_session_manager_def Let_def manager_ok_def challenges_ok_def sessions_ok_def positiveInteger_ok_def
      split: if_splits)

interpretation wallet: guarded_system "session_world_of (configured_manager sl cl mc ms)" "session_step digest" world_ok
  for sl cl mc ms digest
proof unfold_locales
  have "manager_ok (configured_manager sl cl mc ms) \<and> sm_challenges (configured_manager sl cl mc ms) = []"
    using new_session_manager_ok [of sl "Some cl" "Some mc" "Some ms"]
    by (cases "new_session_manager sl (Some cl) (Some mc) (Some ms)")
      (simp_all add: configured_manager_def manager_ok_def challenges_ok_def sessions_ok_def)
  then show "world_ok (session_world_of (configured_manager sl cl mc ms))" by (simp add: world_ok_start)
qed (rule session_step_ok)

lemma distinct_ids: "distinct (ids cs) \<Longrightarrow> distinct cs"
  by (simp add: ids_def distinct_map)

lemma distinct_submset:
  assumes "mset xs \<subseteq># mset ys" and "distinct ys"
  shows "distinct xs"
  unfolding distinct_count_atmost_1
proof
  fix a
  have "count (mset xs) a \<le> count (mset ys) a" "count (mset ys) a \<le> 1"
    using mset_subset_eq_count [OF assms(1), of a] assms(2) by (auto simp: distinct_count_atmost_1)
  then have "count (mset xs) a = (if count (mset xs) a \<noteq> 0 then 1 else 0)" by presburger
  then show "count (mset xs) a = (if a \<in> set xs then 1 else 0)" unfolding count_mset_0_iff by simp
qed

lemma world_ok_single_use:
  assumes "world_ok w" and "fresh_ids w"
  shows "distinct (map fst (sw_opened w) @ sw_pending w)"
proof -
  have "mset (map fst (sw_opened w) @ sw_pending w) \<subseteq># mset (sw_used w)" "distinct (sw_used w)"
    using assms distinct_ids by (auto simp: world_ok_def uses_ok_def)
  then show ?thesis by (rule distinct_submset)
qed

end
