(* ===== verification/Audit_Ledger.thy ===== *)
theory Audit_Ledger
  imports Sessions
begin

text \<open>
  The assistant's audit ledger, \<open>src/assistant/audit.ts\<close>: a hash-chained list of events. The digest of
  a question, the digest of the canonical JSON of an unsigned event and \<open>localeCompare\<close> are
  parameters. The lemmas show that what \<open>append\<close> writes always verifies, and that a verifying list
  is determined by its last hash, so that no recorded event can be changed, dropped or reordered
  unnoticed.
\<close>

datatype assistant_outcome = OAnswer | OAbstain | OExternal
datatype assistant_tool = TFacts | THistory | TRules | TAssessment | TAudit | TProtectedSearch
datatype query_mode = ExplainRecords | ExplainRecordedDecision
datatype decision_source = TypedRecord | DeterministicControl | ModelCandidate | ValidationFallback

record recorded_decision =
  rd_outcome :: assistant_outcome
  rd_code :: string
  rd_reason_codes :: "string list"

record decision_reference =
  dr_support_id :: string
  dr_resource_id :: string
  dr_resource_version :: int
  dr_commitment :: string
  dr_recorded_decision :: recorded_decision

record unsigned_event =
  ev_event_id :: string
  ev_sequence :: nat
  ev_request_id :: string
  ev_correlation_id :: string
  ev_actor_id :: string
  ev_organization_id :: string
  ev_session_id :: string
  ev_purpose_id :: string
  ev_query_mode :: query_mode
  ev_question_digest :: string
  ev_tool_names :: "assistant_tool list"
  ev_support_ids :: "string list"
  ev_outcome :: assistant_outcome
  ev_decision_code :: "string option"
  ev_decision_source :: decision_source
  ev_recorded_decision_support_ids :: "string list"
  ev_recorded_decision_support_references :: "decision_reference list"
  ev_model :: string
  ev_provider :: string
  ev_validation_codes :: "string list"
  ev_recorded_at :: int
  ev_previous_event_hash :: "string option"

record audit_event =
  au_unsigned :: unsigned_event
  au_event_hash :: string

record audit_input =
  ai_requestId :: string
  ai_correlationId :: string
  ai_session :: actor_session
  ai_purposeId :: string
  ai_queryMode :: query_mode
  ai_question :: string
  ai_toolNames :: "assistant_tool list"
  ai_supportIds :: "string list"
  ai_model :: string
  ai_provider :: string
  ai_outcome :: assistant_outcome
  ai_decisionCode :: "string option"
  ai_decisionSource :: decision_source
  ai_references :: "decision_reference list"
  ai_validationCodes :: "string list"
  ai_recordedAt :: int

record audit_digests =
  ad_text :: "string \<Rightarrow> string"
  ad_event :: "unsigned_event \<Rightarrow> string"

definition sort_reasons :: "decision_reference \<Rightarrow> decision_reference" where
  "sort_reasons r = r\<lparr>dr_recorded_decision := (dr_recorded_decision r)\<lparr>rd_reason_codes :=
     js_sort str_le (rd_reason_codes (dr_recorded_decision r))\<rparr>\<rparr>"

definition reference_key :: "decision_reference \<Rightarrow> string" where
  "reference_key r = join [CHR 0x00] [dr_support_id r, dr_resource_id r, show_int (dr_resource_version r), dr_commitment r]"

definition decision_references ::
  "(string \<Rightarrow> string \<Rightarrow> bool) \<Rightarrow> decision_reference list \<Rightarrow> decision_reference list" where
  "decision_references localeLe rs =
     js_sort (\<lambda>l r. localeLe (reference_key l) (reference_key r)) (map sort_reasons rs)"

definition last_hash :: "audit_event list \<Rightarrow> string option" where
  "last_hash events = (if events = [] then None else Some (au_event_hash (last events)))"

definition unsigned_of ::
  "audit_digests \<Rightarrow> (string \<Rightarrow> string \<Rightarrow> bool) \<Rightarrow> string \<Rightarrow> audit_event list \<Rightarrow> audit_input \<Rightarrow> unsigned_event" where
  "unsigned_of dg localeLe uuid events input =
     (let refs = decision_references localeLe (ai_references input) in
      \<lparr>ev_event_id = ''urn:evllm:event:'' @ uuid,
       ev_sequence = length events + 1,
       ev_request_id = ai_requestId input,
       ev_correlation_id = ai_correlationId input,
       ev_actor_id = id_actorId (as_identity (ai_session input)),
       ev_organization_id = id_organizationId (as_identity (ai_session input)),
       ev_session_id = as_sessionId (ai_session input),
       ev_purpose_id = ai_purposeId input,
       ev_query_mode = ai_queryMode input,
       ev_question_digest = ad_text dg (ai_question input),
       ev_tool_names = ai_toolNames input,
       ev_support_ids = js_sort str_le (ai_supportIds input),
       ev_outcome = ai_outcome input,
       ev_decision_code = ai_decisionCode input,
       ev_decision_source = ai_decisionSource input,
       ev_recorded_decision_support_ids = map dr_support_id refs,
       ev_recorded_decision_support_references = refs,
       ev_model = ai_model input,
       ev_provider = ai_provider input,
       ev_validation_codes = ai_validationCodes input,
       ev_recorded_at = ai_recordedAt input,
       ev_previous_event_hash = last_hash events\<rparr>)"

definition audit_append ::
  "audit_digests \<Rightarrow> (string \<Rightarrow> string \<Rightarrow> bool) \<Rightarrow> string \<Rightarrow> audit_event list \<Rightarrow> audit_input
    \<Rightarrow> audit_event \<times> audit_event list" where
  "audit_append dg localeLe uuid events input =
     (let u = unsigned_of dg localeLe uuid events input;
          event = \<lparr>au_unsigned = u, au_event_hash = ad_event dg u\<rparr>
      in (event, events @ [event]))"

definition forRequest :: "audit_event list \<Rightarrow> string \<Rightarrow> actor_session \<Rightarrow> audit_event list" where
  "forRequest events requestId session = filter (\<lambda>e.
     ev_request_id (au_unsigned e) = requestId
     \<and> ev_actor_id (au_unsigned e) = id_actorId (as_identity session)
     \<and> ev_organization_id (au_unsigned e) = id_organizationId (as_identity session)) events"

text \<open>\<open>events.every(...)\<close>; \<open>events[index - 1]?.event_hash ?? null\<close> is the hash before position \<open>index\<close>.\<close>

definition event_verifies :: "audit_digests \<Rightarrow> audit_event list \<Rightarrow> nat \<Rightarrow> bool" where
  "event_verifies dg events i =
     (ev_sequence (au_unsigned (events ! i)) = i + 1
      \<and> ev_previous_event_hash (au_unsigned (events ! i)) = last_hash (take i events)
      \<and> au_event_hash (events ! i) = ad_event dg (au_unsigned (events ! i)))"

definition verifyAssistantAuditEvents :: "audit_digests \<Rightarrow> audit_event list \<Rightarrow> bool" where
  "verifyAssistantAuditEvents dg events = list_all (event_verifies dg events) [0..<length events]"

subsection \<open>The chain\<close>

lemma verifies_iff: "verifyAssistantAuditEvents dg events \<longleftrightarrow> (\<forall>i < length events. event_verifies dg events i)"
  by (auto simp: verifyAssistantAuditEvents_def list_all_iff)

lemma verifies_snoc:
  "verifyAssistantAuditEvents dg (events @ [e]) \<longleftrightarrow> verifyAssistantAuditEvents dg events
     \<and> ev_sequence (au_unsigned e) = length events + 1 \<and> ev_previous_event_hash (au_unsigned e) = last_hash events
     \<and> au_event_hash e = ad_event dg (au_unsigned e)"
proof -
  have "event_verifies dg (events @ [e]) i = event_verifies dg events i" if "i < length events" for i
    using that by (simp add: event_verifies_def nth_append)
  then show ?thesis by (auto simp: verifies_iff less_Suc_eq) (auto simp: event_verifies_def)
qed

lemma append_verifies:
  "verifyAssistantAuditEvents dg events \<Longrightarrow>
     verifyAssistantAuditEvents dg (snd (audit_append dg localeLe uuid events input))"
  by (simp add: audit_append_def Let_def verifies_snoc unsigned_of_def)

interpretation audit: guarded_system "[]"
    "\<lambda>events (uuid, input). snd (audit_append dg localeLe uuid events input)" "verifyAssistantAuditEvents dg"
  for dg localeLe
  by unfold_locales (auto intro: append_verifies simp: verifies_iff [of _ "[]"])

text \<open>
  With a digest that separates the events in question, two verifying lists of one length and with one
  last hash are the same list.
\<close>

lemma chain_determined:
  assumes "verifyAssistantAuditEvents dg xs" and "verifyAssistantAuditEvents dg ys"
    and "length xs = length ys" and "last_hash xs = last_hash ys"
    and "inj_on (ad_event dg) (au_unsigned ` (set xs \<union> set ys))"
  shows "xs = ys"
  using assms
proof (induction xs arbitrary: ys rule: rev_induct)
  case (snoc x xs)
  obtain zs y where ys: "ys = zs @ [y]" using snoc.prems(3) by (cases ys rule: rev_cases) auto
  have hash: "ad_event dg (au_unsigned x) = ad_event dg (au_unsigned y)"
    "au_event_hash x = ad_event dg (au_unsigned x)" "au_event_hash y = ad_event dg (au_unsigned y)"
    using snoc.prems(1,2,4) ys by (auto simp: verifies_snoc last_hash_def)
  then have "au_unsigned x = au_unsigned y"
    using snoc.prems(5) ys by (intro inj_onD [OF snoc.prems(5) hash(1)]) auto
  with hash have xy: "x = y" by (cases x; cases y) simp
  moreover have "xs = zs"
  proof (rule snoc.IH)
    show "verifyAssistantAuditEvents dg xs" "verifyAssistantAuditEvents dg zs" "length xs = length zs"
      using snoc.prems(1-3) ys by (auto simp: verifies_snoc)
    show "last_hash xs = last_hash zs" using snoc.prems(1,2) ys xy by (auto simp: verifies_snoc)
    show "inj_on (ad_event dg) (au_unsigned ` (set xs \<union> set zs))"
      using snoc.prems(5) ys by (auto intro: inj_on_subset)
  qed
  ultimately show ?case using ys by simp
qed simp

lemma forRequest_own:
  "e \<in> set (forRequest events requestId session) \<Longrightarrow> e \<in> set events
     \<and> ev_actor_id (au_unsigned e) = id_actorId (as_identity session)
     \<and> ev_organization_id (au_unsigned e) = id_organizationId (as_identity session)"
  by (simp add: forRequest_def)

lemma append_found:
  "ai_requestId input = r \<Longrightarrow> as_identity (ai_session input) = as_identity s \<Longrightarrow>
     forRequest (snd (audit_append dg localeLe uuid events input)) r s
       = forRequest events r s @ [fst (audit_append dg localeLe uuid events input)]"
  by (simp add: forRequest_def audit_append_def Let_def unsigned_of_def)

end
