(* ===== verification/Text_Patterns.thy ===== *)
theory Text_Patterns
  imports Prelude
begin

text \<open>
  The regular expressions of the assistant's source: a datatype with the constructs its literals use, the declarative meaning
  \<open>pattern_rel\<close> of a pattern on a text (from which position to which it matches), and a matcher \<open>pattern_ends\<close> that lists the end
  positions in the order in which JavaScript's backtracking tries them, so that its first answer is the match that
  \<open>replace\<close> uses. The lemma \<open>pattern_ends_iff\<close> shows that the matcher finds exactly the matches. Characters are those of
  Latin-1; patterns with the flag \<open>i\<close> are written in lower case and tested on the text in lower case.
\<close>

datatype pattern =
    PEmpty
  | PSym "char \<Rightarrow> bool"
  | PStart
  | PEnd
  | PBound
  | PSeq pattern pattern
  | PAlt pattern pattern
  | PRep pattern nat "nat option"

definition word_char :: "char \<Rightarrow> bool" where
  "word_char c = (c \<in> set ''abcdefghijklmnopqrstuvwxyzABCDEFGHIJKLMNOPQRSTUVWXYZ0123456789_'')"

definition word_at :: "string \<Rightarrow> nat \<Rightarrow> bool" where
  "word_at s i = (i < length s \<and> word_char (s ! i))"

text \<open>A boundary \<open>\b\<close>: a word character on exactly one side.\<close>

definition bound_at :: "string \<Rightarrow> nat \<Rightarrow> bool" where
  "bound_at s i = ((0 < i \<and> word_at s (i - 1)) \<noteq> word_at s i)"

subsection \<open>Meaning\<close>

primrec pattern_rel :: "string \<Rightarrow> pattern \<Rightarrow> (nat \<times> nat) set" where
  "pattern_rel s PEmpty = {(i, j). i = j}"
| "pattern_rel s (PSym p) = {(i, j). i < length s \<and> p (s ! i) \<and> j = Suc i}"
| "pattern_rel s PStart = {(i, j). i = j \<and> i = 0}"
| "pattern_rel s PEnd = {(i, j). i = j \<and> i = length s}"
| "pattern_rel s PBound = {(i, j). i = j \<and> bound_at s i}"
| "pattern_rel s (PSeq p q) = pattern_rel s p O pattern_rel s q"
| "pattern_rel s (PAlt p q) = pattern_rel s p \<union> pattern_rel s q"
| "pattern_rel s (PRep p lo hi) = (\<Union>n\<in>{n. lo \<le> n \<and> (case hi of None \<Rightarrow> True | Some h \<Rightarrow> n \<le> h)}. pattern_rel s p ^^ n)"

subsection \<open>The matcher\<close>

text \<open>The iterations that a quantifier requires, and the further ones it may take, each of which has to consume something.\<close>

primrec required_ends :: "(nat \<Rightarrow> nat list) \<Rightarrow> nat \<Rightarrow> nat \<Rightarrow> nat list" where
  "required_ends f 0 i = [i]"
| "required_ends f (Suc n) i = concat (map (required_ends f n) (f i))"

primrec further_ends :: "(nat \<Rightarrow> nat list) \<Rightarrow> nat \<Rightarrow> nat \<Rightarrow> nat list" where
  "further_ends f 0 i = [i]"
| "further_ends f (Suc n) i = concat (map (\<lambda>j. if i < j then further_ends f n j else []) (f i)) @ [i]"

primrec pattern_ends :: "string \<Rightarrow> pattern \<Rightarrow> nat \<Rightarrow> nat list" where
  "pattern_ends s PEmpty i = [i]"
| "pattern_ends s (PSym p) i = (if i < length s \<and> p (s ! i) then [Suc i] else [])"
| "pattern_ends s PStart i = (if i = 0 then [i] else [])"
| "pattern_ends s PEnd i = (if i = length s then [i] else [])"
| "pattern_ends s PBound i = (if bound_at s i then [i] else [])"
| "pattern_ends s (PSeq p q) i = concat (map (pattern_ends s q) (pattern_ends s p i))"
| "pattern_ends s (PAlt p q) i = pattern_ends s p i @ pattern_ends s q i"
| "pattern_ends s (PRep p lo hi) i =
     (case hi of
        None \<Rightarrow> concat (map (\<lambda>j. further_ends (pattern_ends s p) (length s - j) j) (required_ends (pattern_ends s p) lo i))
      | Some h \<Rightarrow> if lo \<le> h then concat (map (further_ends (pattern_ends s p) (h - lo)) (required_ends (pattern_ends s p) lo i))
          else [])"

text \<open>\<open>pattern.test(s)\<close>: some position has a match.\<close>

definition pattern_test :: "pattern \<Rightarrow> string \<Rightarrow> bool" where
  "pattern_test p s = list_ex (\<lambda>i. pattern_ends s p i \<noteq> []) [0..<Suc (length s)]"

text \<open>
  The matches of \<open>matchAll\<close> and of \<open>replace\<close> with the flag \<open>g\<close>, for patterns that match no empty text: from left to right,
  each by the first answer of the matcher, and after a match from its end.
\<close>

function matches_from :: "pattern \<Rightarrow> string \<Rightarrow> nat \<Rightarrow> (nat \<times> nat) list" where
  "matches_from p s i =
     (if length s \<le> i then []
      else (case pattern_ends s p i of
              j # _ \<Rightarrow> if i < j then (i, j) # matches_from p s j else matches_from p s (Suc i)
            | [] \<Rightarrow> matches_from p s (Suc i)))"
  by pat_completeness auto
termination by (relation "measure (\<lambda>(p, s, i). length s - i)") auto

definition slice :: "nat \<Rightarrow> nat \<Rightarrow> string \<Rightarrow> string" where
  "slice i j s = take (j - i) (drop i s)"

fun replace_matches :: "(string \<Rightarrow> string) \<Rightarrow> string \<Rightarrow> nat \<Rightarrow> (nat \<times> nat) list \<Rightarrow> string" where
  "replace_matches new s k [] = drop k s"
| "replace_matches new s k ((i, j) # ms) = slice k i s @ new (slice i j s) @ replace_matches new s j ms"

text \<open>\<open>s.replace(pattern, new)\<close>, where the new text may depend on the match.\<close>

definition replace_all :: "pattern \<Rightarrow> (string \<Rightarrow> string) \<Rightarrow> string \<Rightarrow> string" where
  "replace_all p new s = replace_matches new s 0 (matches_from p s 0)"

text \<open>\<open>s.split(/[...]+/u)\<close> at the runs of a class of characters.\<close>

function split_runs :: "(char \<Rightarrow> bool) \<Rightarrow> string \<Rightarrow> string list" where
  "split_runs p s = (let w = takeWhile (\<lambda>c. \<not> p c) s; rest = dropWhile (\<lambda>c. \<not> p c) s in
     if rest = [] then [w] else w # split_runs p (dropWhile p rest))"
  by pat_completeness auto
termination
proof (relation "measure (\<lambda>(p, s). length s)")
  fix p :: "char \<Rightarrow> bool" and s w rest :: string
  assume rest: "rest = dropWhile (\<lambda>c. \<not> p c) s" and ne: "rest \<noteq> []"
  then have "p (hd rest)" using hd_dropWhile [of "\<lambda>c. \<not> p c" s] by auto
  then have "length (dropWhile p rest) < length rest"
    using ne length_dropWhile_le [of p "tl rest"] by (cases rest) auto
  then show "((p, dropWhile p rest), (p, s)) \<in> measure (\<lambda>(p, s). length s)"
    using rest length_dropWhile_le [of "\<lambda>c. \<not> p c" s] by simp
qed simp

definition has_part :: "string \<Rightarrow> string \<Rightarrow> bool" where
  "has_part part s = list_ex (\<lambda>i. starts_with part (drop i s)) [0..<Suc (length s)]"

definition ends_with :: "string \<Rightarrow> string \<Rightarrow> bool" where
  "ends_with part s = (length part \<le> length s \<and> drop (length s - length part) s = part)"

definition position_of :: "string \<Rightarrow> string \<Rightarrow> nat option" where
  "position_of part s = List.find (\<lambda>i. starts_with part (drop i s)) [0..<Suc (length s)]"

subsection \<open>Writing patterns\<close>

definition lit :: "string \<Rightarrow> pattern" where
  "lit s = foldr (\<lambda>c p. PSeq (PSym (\<lambda>d. d = c)) p) s PEmpty"

definition seqs :: "pattern list \<Rightarrow> pattern" where
  "seqs ps = foldr PSeq ps PEmpty"

text \<open>A choice between at least one pattern; of no patterns nothing matches.\<close>

definition alts :: "pattern list \<Rightarrow> pattern" where
  "alts ps = (if ps = [] then PSym (\<lambda>_. False) else foldr PAlt (butlast ps) (last ps))"

definition words :: "string list \<Rightarrow> pattern" where
  "words ws = alts (map lit ws)"

definition opt :: "pattern \<Rightarrow> pattern" where
  "opt p = PRep p 0 (Some 1)"

definition chars :: "string \<Rightarrow> pattern" where
  "chars cs = PSym (\<lambda>c. c \<in> set cs)"

definition lower_alnum :: string where
  "lower_alnum = ''abcdefghijklmnopqrstuvwxyz0123456789''"

definition any_up_to :: "nat \<Rightarrow> pattern" where
  "any_up_to n = PRep (PSym (\<lambda>c. c \<noteq> CHR 0x0A \<and> c \<noteq> CHR 0x0D)) 0 (Some n)"

text \<open>White space, \<open>\s\<close>.\<close>

definition is_space :: "char \<Rightarrow> bool" where
  "is_space c = (c \<in> {CHR 0x09, CHR 0x0A, CHR 0x0B, CHR 0x0C, CHR 0x0D, CHR 0x20, CHR 0xA0})"

definition trim :: "string \<Rightarrow> string" where
  "trim s = rev (dropWhile is_space (rev (dropWhile is_space s)))"

definition trimEnd :: "string \<Rightarrow> string" where
  "trimEnd s = rev (dropWhile is_space (rev s))"

definition trimStart :: "string \<Rightarrow> string" where
  "trimStart s = dropWhile is_space s"

definition lower_table :: "(char \<times> char) list" where
  "lower_table = zip ''ABCDEFGHIJKLMNOPQRSTUVWXYZ'' ''abcdefghijklmnopqrstuvwxyz'' @
    [(CHR 0xC0, CHR 0xE0), (CHR 0xC1, CHR 0xE1), (CHR 0xC2, CHR 0xE2), (CHR 0xC3, CHR 0xE3), (CHR 0xC4, CHR 0xE4), (CHR
     0xC5, CHR 0xE5), (CHR 0xC6, CHR 0xE6), (CHR 0xC7, CHR 0xE7), (CHR 0xC8, CHR 0xE8), (CHR 0xC9, CHR 0xE9), (CHR 0xCA,
     CHR 0xEA), (CHR 0xCB, CHR 0xEB), (CHR 0xCC, CHR 0xEC), (CHR 0xCD, CHR 0xED), (CHR 0xCE, CHR 0xEE), (CHR 0xCF, CHR
     0xEF), (CHR 0xD0, CHR 0xF0), (CHR 0xD1, CHR 0xF1), (CHR 0xD2, CHR 0xF2), (CHR 0xD3, CHR 0xF3), (CHR 0xD4, CHR 0xF4),
     (CHR 0xD5, CHR 0xF5), (CHR 0xD6, CHR 0xF6), (CHR 0xD8, CHR 0xF8), (CHR 0xD9, CHR 0xF9), (CHR 0xDA, CHR 0xFA), (CHR
     0xDB, CHR 0xFB), (CHR 0xDC, CHR 0xFC), (CHR 0xDD, CHR 0xFD), (CHR 0xDE, CHR 0xFE)]"

definition to_lower :: "char \<Rightarrow> char" where
  "to_lower c = (case map_of lower_table c of None \<Rightarrow> c | Some d \<Rightarrow> d)"

definition toLowerCase :: "string \<Rightarrow> string" where
  "toLowerCase s = map to_lower s"

definition spaces :: pattern where
  "spaces = PRep (PSym is_space) 1 None"

definition some_spaces :: pattern where
  "some_spaces = PRep (PSym is_space) 0 None"

text \<open>\<open>pattern.test(s)\<close> with the flag \<open>i\<close>.\<close>

definition test_i :: "pattern \<Rightarrow> string \<Rightarrow> bool" where
  "test_i p s = pattern_test p (toLowerCase s)"

subsection \<open>The matcher finds exactly the matches\<close>

lemma relpow_first: "(i, j) \<in> R ^^ Suc n \<longleftrightarrow> (\<exists>k. (i, k) \<in> R \<and> (k, j) \<in> R ^^ n)"
proof -
  have "R ^^ Suc n = R O R ^^ n" by (simp add: relpow_commute)
  then show ?thesis by (simp only: relcomp_unfold) auto
qed

lemma pattern_rel_forward: "(i, j) \<in> pattern_rel s p \<Longrightarrow> i \<le> length s \<Longrightarrow> i \<le> j \<and> j \<le> length s"
proof (induction p arbitrary: i j)
  case (PSeq p q)
  then show ?case by (fastforce dest: le_trans)
next
  case (PRep p lo hi)
  have "(i, j) \<in> pattern_rel s p ^^ n \<Longrightarrow> i \<le> j \<and> j \<le> length s" for n
    using PRep.prems(2)
  proof (induction n arbitrary: i)
    case (Suc n)
    then obtain k where "(i, k) \<in> pattern_rel s p" "(k, j) \<in> pattern_rel s p ^^ n"
      unfolding relpow_first by blast
    then show ?case using Suc.IH [of k] PRep.IH [of i k] Suc.prems by auto
  qed simp
  then show ?case using PRep.prems by auto
qed auto

locale ends_of =
  fixes f :: "nat \<Rightarrow> nat list" and R :: "(nat \<times> nat) set" and m :: nat
  assumes ends: "i \<le> m \<Longrightarrow> j \<in> set (f i) \<longleftrightarrow> (i, j) \<in> R"
    and forward: "(i, j) \<in> R \<Longrightarrow> i \<le> m \<Longrightarrow> i \<le> j \<and> j \<le> m"
begin

lemma required: "i \<le> m \<Longrightarrow> j \<in> set (required_ends f n i) \<longleftrightarrow> (i, j) \<in> R ^^ n"
proof (induction n arbitrary: i)
  case (Suc n)
  have "j \<in> set (required_ends f (Suc n) i) \<longleftrightarrow> (\<exists>k. (i, k) \<in> R \<and> (k, j) \<in> R ^^ n)"
    using Suc forward by (auto simp: ends)
  then show ?case unfolding relpow_first .
qed auto

lemma forward_power: "(i, j) \<in> R ^^ n \<Longrightarrow> i \<le> m \<Longrightarrow> i \<le> j \<and> j \<le> m"
proof (induction n arbitrary: i)
  case (Suc n)
  then obtain k where "(i, k) \<in> R" "(k, j) \<in> R ^^ n" unfolding relpow_first by blast
  then show ?case using Suc.IH [of k] forward [of i k] Suc.prems by auto
qed simp

text \<open>Iterations that consume nothing can be left out, and at most as many are left as there are characters.\<close>

lemma further_sound: "j \<in> set (further_ends f n i) \<Longrightarrow> i \<le> m \<Longrightarrow> \<exists>k \<le> n. (i, j) \<in> R ^^ k"
proof (induction n arbitrary: i)
  case (Suc n)
  then consider "j = i" | l where "i < l" "l \<in> set (f i)" "j \<in> set (further_ends f n l)" by (auto split: if_splits)
  then show ?case
  proof cases
    case 1
    then show ?thesis by (intro exI [of _ 0]) auto
  next
    case 2
    then have "(i, l) \<in> R" "l \<le> m" using ends forward Suc.prems by auto
    moreover obtain k where "k \<le> n" "(l, j) \<in> R ^^ k" using Suc.IH [of l] 2 calculation by blast
    ultimately have "Suc k \<le> Suc n \<and> (i, j) \<in> R ^^ Suc k" unfolding relpow_first by blast
    then show ?thesis by blast
  qed
qed auto

lemma further_complete:
  "(i, j) \<in> R ^^ k \<Longrightarrow> i \<le> m \<Longrightarrow> k \<le> n \<or> m - i \<le> n \<Longrightarrow> j \<in> set (further_ends f n i)"
proof (induction k arbitrary: i n)
  case 0
  then show ?case by (cases n) auto
next
  case (Suc k)
  obtain l where l: "(i, l) \<in> R" "(l, j) \<in> R ^^ k" using Suc.prems(1) unfolding relpow_first by blast
  have b: "i \<le> l" "l \<le> m" using forward l Suc.prems by auto
  show ?case
  proof (cases "l = i")
    case True
    then show ?thesis using Suc.IH [of i n] l Suc.prems by auto
  next
    case False
    then obtain n' where n: "n = Suc n'" using Suc.prems b by (cases n) auto
    have "j \<in> set (further_ends f n' l)" using Suc.IH [of l n'] l b False Suc.prems(2,3) n by linarith
    then show ?thesis using l b False ends Suc.prems n by (auto intro!: bexI [of _ l])
  qed
qed

lemma repeated_unbounded:
  assumes "i \<le> m"
  shows "j \<in> set (concat (map (\<lambda>k. further_ends f (m - k) k) (required_ends f lo i))) \<longleftrightarrow> (\<exists>n \<ge> lo. (i, j) \<in> R ^^ n)"
proof
  assume "j \<in> set (concat (map (\<lambda>k. further_ends f (m - k) k) (required_ends f lo i)))"
  then obtain k where "(i, k) \<in> R ^^ lo" "j \<in> set (further_ends f (m - k) k)" using required assms by auto
  moreover have "k \<le> m" using calculation forward_power assms by blast
  ultimately obtain n where "(i, j) \<in> R ^^ lo O R ^^ n" using further_sound by blast
  then have "(i, j) \<in> R ^^ (lo + n)" by (simp add: relpow_add)
  then show "\<exists>n \<ge> lo. (i, j) \<in> R ^^ n" by (intro exI [of _ "lo + n"]) simp
next
  assume "\<exists>n \<ge> lo. (i, j) \<in> R ^^ n"
  then obtain n where "(i, j) \<in> R ^^ lo O R ^^ n" by (auto simp: le_iff_add relpow_add)
  then obtain k where k: "(i, k) \<in> R ^^ lo" "(k, j) \<in> R ^^ n" by blast
  then have "k \<le> m" using forward_power assms by blast
  then show "j \<in> set (concat (map (\<lambda>k. further_ends f (m - k) k) (required_ends f lo i)))"
    using k further_complete [of k j n "m - k"] required assms by auto
qed

lemma repeated_bounded:
  assumes "i \<le> m" and "lo \<le> hi"
  shows "j \<in> set (concat (map (further_ends f (hi - lo)) (required_ends f lo i))) \<longleftrightarrow> (\<exists>n. lo \<le> n \<and> n \<le> hi \<and> (i, j) \<in> R ^^ n)"
proof
  assume "j \<in> set (concat (map (further_ends f (hi - lo)) (required_ends f lo i)))"
  then obtain k where "(i, k) \<in> R ^^ lo" "j \<in> set (further_ends f (hi - lo) k)" using required assms by auto
  moreover have "k \<le> m" using calculation forward_power assms by blast
  ultimately obtain n where n: "n \<le> hi - lo" "(i, j) \<in> R ^^ lo O R ^^ n" using further_sound by blast
  then have "(i, j) \<in> R ^^ (lo + n)" by (simp add: relpow_add)
  then show "\<exists>n. lo \<le> n \<and> n \<le> hi \<and> (i, j) \<in> R ^^ n" using n assms by (intro exI [of _ "lo + n"]) simp
next
  assume "\<exists>n. lo \<le> n \<and> n \<le> hi \<and> (i, j) \<in> R ^^ n"
  then obtain n where n: "lo \<le> n" "n \<le> hi" "(i, j) \<in> R ^^ n" by blast
  define d where "d = n - lo"
  have d: "d \<le> hi - lo" "(i, j) \<in> R ^^ lo O R ^^ d" using n relpow_add [of lo d R] by (simp_all add: d_def)
  then obtain k where k: "(i, k) \<in> R ^^ lo" "(k, j) \<in> R ^^ d" by blast
  then have "k \<le> m" using forward_power assms by blast
  then show "j \<in> set (concat (map (further_ends f (hi - lo)) (required_ends f lo i)))"
    using k d further_complete [of k j d "hi - lo"] required assms by auto
qed

end

lemma pattern_ends_iff: "i \<le> length s \<Longrightarrow> j \<in> set (pattern_ends s p i) \<longleftrightarrow> (i, j) \<in> pattern_rel s p"
proof (induction p arbitrary: i j)
  case (PSeq p q)
  then show ?case using pattern_rel_forward [of i _ s p] by auto
next
  case (PRep p lo hi)
  have r: "ends_of (pattern_ends s p) (pattern_rel s p) (length s)"
    by unfold_locales (auto simp: PRep.IH dest: pattern_rel_forward)
  show ?case
  proof (cases hi)
    case None
    then show ?thesis using ends_of.repeated_unbounded [OF r PRep.prems] by auto
  next
    case (Some h)
    then show ?thesis using ends_of.repeated_bounded [OF r PRep.prems, of lo h] by auto
  qed
qed auto

lemma pattern_test_iff: "pattern_test p s \<longleftrightarrow> (\<exists>i j. i \<le> length s \<and> (i, j) \<in> pattern_rel s p)"
proof -
  have "pattern_test p s \<longleftrightarrow> (\<exists>i \<le> length s. set (pattern_ends s p i) \<noteq> {})"
    unfolding pattern_test_def list_ex_iff set_upt atLeastLessThan_iff Bex_def less_Suc_eq_le by auto
  also have "\<dots> \<longleftrightarrow> (\<exists>i \<le> length s. \<exists>j. j \<in> set (pattern_ends s p i))"
    by (simp only: ex_in_conv)
  also have "\<dots> \<longleftrightarrow> (\<exists>i \<le> length s. \<exists>j. (i, j) \<in> pattern_rel s p)" 
    by (simp only: pattern_ends_iff cong: conj_cong)
  finally show ?thesis by blast
qed

interpretation pattern: ends_of "pattern_ends s p" "pattern_rel s p" "length s" for s p
  by unfold_locales (auto simp: pattern_ends_iff dest: pattern_rel_forward)

text \<open>The relations of the pieces patterns are written with.\<close>

lemma rel_lit [simp]: "(i, j) \<in> pattern_rel s (lit w) \<longleftrightarrow> i + length w = j \<and> take (length w) (drop i s) = w \<and> (w = [] \<or> i < length s)"
proof (induction w arbitrary: i)
  case (Cons c w)
  have step: "lit (c # w) = PSeq (PSym (\<lambda>d. d = c)) (lit w)" by (simp add: lit_def)
  show ?case unfolding step using Cons.IH [of "Suc i"]
    by (cases "i < length s") (auto simp: relcomp_unfold Cons_nth_drop_Suc [symmetric])
qed (auto simp: lit_def)

lemma rel_opt [simp]: "(i, j) \<in> pattern_rel s (opt p) \<longleftrightarrow> i = j \<or> (i, j) \<in> pattern_rel s p"
proof -
  have "{n. n \<le> Suc 0} = {0, 1}" by auto
  then show ?thesis by (auto simp: opt_def)
qed

end
