(* ===== verification/Assistant_Tools.thy ===== *)
theory Assistant_Tools
  imports Audit_Ledger Json Text_Patterns
begin

text \<open>
  The queries, support records and tools of the assistant: \<open>src/assistant/types.ts\<close>, \<open>src/assistant/support-commitment.ts\<close> and
  \<open>src/assistant/tools.ts\<close>. A query names the tools to call; the registry asks for the authorization of each request, calls
  the tool and admits only well-formed supports that are named once. SHA-256 in base64url, canonical JSON and the UUID check of
  zod are parameters (\<open>assistant_lib\<close>); so are the callbacks of the registry, which are given the position of the request they
  answer, since two calls with the same arguments may be answered differently.
\<close>

subsection \<open>Codes and schemas\<close>

definition slug :: pattern where
  "slug = seqs [PRep (chars lower_alnum) 1 None, PRep (PSeq (lit ''-'') (PRep (chars lower_alnum) 1 None)) 0 None]"

definition whole :: "pattern list \<Rightarrow> string \<Rightarrow> bool" where
  "whole ps s = pattern_test (seqs (PStart # ps @ [PEnd])) s"

definition hex_digits :: "nat \<Rightarrow> pattern" where
  "hex_digits n = PRep (chars ''0123456789abcdef'') n (Some n)"

definition assistant_urn_ok :: "string \<Rightarrow> bool" where
  "assistant_urn_ok s = whole [lit ''urn:evllm:'', chars ''abcdefghijklmnopqrstuvwxyz'', PRep (chars (lower_alnum @ ''-'')) 0 None,
     lit '':'', hex_digits 8, lit ''-'', hex_digits 4, lit ''-4'', hex_digits 3, lit ''-'', chars ''89ab'', hex_digits 3, lit ''-'',
     hex_digits 12] s"

definition evidenceReasonCodes :: "string list" where
  "evidenceReasonCodes = [''missing-evidence'', ''conflicting-evidence'', ''inactive-evidence'', ''access-denied'',
     ''prompt-injection'', ''external-decision-required'']"

definition assistantDecisionCode_ok :: "string \<Rightarrow> bool" where
  "assistantDecisionCode_ok s = (whole [slug] s \<and> length s \<le> 128)"

definition isSupportedAnswerDecisionCode :: "string \<Rightarrow> bool" where
  "isSupportedAnswerDecisionCode code = (whole [lit ''eligible-for-'', slug] code
     \<or> whole [slug, lit ''-'', words [''preferred'', ''recommended'', ''selected'', ''permitted'', ''allowed'', ''authorized'',
          ''applicable'']] code)"

definition recordedDecision_ok :: "recorded_decision \<Rightarrow> bool" where
  "recordedDecision_ok d = (assistantDecisionCode_ok (rd_code d)
     \<and> array_ok (\<lambda>c. c \<in> set evidenceReasonCodes) 0 8 (rd_reason_codes d)
     \<and> length (js_set (rd_reason_codes d)) = length (rd_reason_codes d)
     \<and> \<not> (rd_outcome d = OAnswer \<and> length (rd_reason_codes d) > 0)
     \<and> \<not> (rd_outcome d = OAnswer \<and> \<not> isSupportedAnswerDecisionCode (rd_code d))
     \<and> \<not> (rd_outcome d = OAbstain \<and> length (rd_reason_codes d) = 0)
     \<and> \<not> (rd_outcome d = OAbstain \<and> rd_code d \<noteq> ''insufficient-evidence'')
     \<and> \<not> (rd_outcome d = OAbstain \<and> ''external-decision-required'' \<in> set (rd_reason_codes d))
     \<and> \<not> (rd_outcome d = OExternal \<and> ''external-decision-required'' \<notin> set (rd_reason_codes d))
     \<and> \<not> (rd_outcome d = OExternal \<and> rd_code d \<noteq> ''external-decision-required''))"

datatype support_state = Active | Missing | Restricted | Stale | Revoked | Superseded | Conflicting

record assistant_support =
  sp_support_id :: string
  sp_resource_id :: string
  sp_resource_version :: int
  sp_issuer_organization_id :: string
  sp_custodian_organization_id :: string
  sp_as_of :: int
  sp_status :: support_state
  sp_commitment :: string
  sp_chain_reference :: "string option"
  sp_content :: string
  sp_recorded_decision :: "recorded_decision option"

record assistant_lib =
  al_codec :: json_codec
  al_digest :: "bytes \<Rightarrow> string"
  al_uuid_ok :: "string \<Rightarrow> bool"
  al_audit :: audit_digests
  al_localeLe :: "string \<Rightarrow> string \<Rightarrow> bool"

subsection \<open>Commitments of recorded decisions\<close>

fun outcome_text :: "assistant_outcome \<Rightarrow> string" where
  "outcome_text OAnswer = ''answer''"
| "outcome_text OAbstain = ''abstain''"
| "outcome_text OExternal = ''requires_external_decision''"

definition committed_json :: "assistant_support \<Rightarrow> recorded_decision \<Rightarrow> json" where
  "committed_json s d = JObj [(''domain'', JStr ''EVLLM_RECORDED_DECISION_SUPPORT_COMMITMENT_V1''),
     (''resource_id'', JStr (sp_resource_id s)), (''resource_version'', JNum (sp_resource_version s)),
     (''issuer_organization_id'', JStr (sp_issuer_organization_id s)), (''content'', JStr (sp_content s)),
     (''recorded_decision'', JObj [(''outcome'', JStr (outcome_text (rd_outcome d))), (''code'', JStr (rd_code d)),
        (''reason_codes'', JArr (map JStr (js_sort str_le (rd_reason_codes d))))])]"

definition recordedDecisionSupportCommitment :: "assistant_lib \<Rightarrow> assistant_support \<Rightarrow> recorded_decision \<Rightarrow> string" where
  "recordedDecisionSupportCommitment al s d =
     ''sha256:'' @ al_digest al (canonicalJsonBytes (al_codec al) (committed_json s d))"

definition text_between :: "nat \<Rightarrow> nat \<Rightarrow> string \<Rightarrow> bool" where
  "text_between least most s = (least \<le> length s \<and> length s \<le> most)"

definition assistantSupport_ok :: "assistant_lib \<Rightarrow> assistant_support \<Rightarrow> bool" where
  "assistantSupport_ok al s = (text_between 1 128 (sp_support_id s) \<and> assistant_urn_ok (sp_resource_id s)
     \<and> positiveSafeInteger_ok (sp_resource_version s) \<and> assistant_urn_ok (sp_issuer_organization_id s)
     \<and> assistant_urn_ok (sp_custodian_organization_id s) \<and> positiveSafeInteger_ok (sp_as_of s)
     \<and> text_between 16 256 (sp_commitment s) \<and> opt_ok (text_between 0 256) (sp_chain_reference s)
     \<and> text_between 0 4000 (sp_content s) \<and> opt_ok recordedDecision_ok (sp_recorded_decision s)
     \<and> (case sp_recorded_decision s of None \<Rightarrow> True
         | Some d \<Rightarrow> sp_commitment s = recordedDecisionSupportCommitment al s d))"

subsection \<open>Queries\<close>

type_synonym arguments = "(string \<times> json) list"

record tool_request =
  tr_tool :: assistant_tool
  tr_arguments :: arguments

record raw_query =
  rq_question :: string
  rq_mode :: "query_mode option"
  rq_purpose_id :: string
  rq_as_of :: int
  rq_idempotency_key :: "string option"
  rq_requests :: "tool_request list"

record assistant_query =
  aq_question :: string
  aq_mode :: query_mode
  aq_purpose_id :: string
  aq_as_of :: int
  aq_idempotency_key :: "string option"
  aq_requests :: "tool_request list"

fun argument_ok :: "json \<Rightarrow> bool" where
  "argument_ok (JStr s) = True"
| "argument_ok (JNum n) = True"
| "argument_ok (JBool b) = True"
| "argument_ok _ = False"

datatype assistant_error = ToolAuthorizationError | ProtectedRetrievalError | AssistantSupportValidationError
  | AssistantIdempotencyError | SchemaRejected | OtherError

definition parse_query :: "assistant_lib \<Rightarrow> raw_query \<Rightarrow> assistant_error + assistant_query" where
  "parse_query al r =
     (let q = \<lparr>aq_question = trim (rq_question r), aq_mode = (case rq_mode r of None \<Rightarrow> ExplainRecords | Some m \<Rightarrow> m),
            aq_purpose_id = rq_purpose_id r, aq_as_of = rq_as_of r, aq_idempotency_key = rq_idempotency_key r,
            aq_requests = rq_requests r\<rparr> in
      if text_between 1 4000 (aq_question q) \<and> assistant_urn_ok (aq_purpose_id q) \<and> positiveSafeInteger_ok (aq_as_of q)
         \<and> opt_ok (al_uuid_ok al) (aq_idempotency_key q)
         \<and> array_ok (\<lambda>t. list_all (argument_ok \<circ> snd) (tr_arguments t)) 1 12 (aq_requests q)
      then Inr q else Inl SchemaRejected)"

subsection \<open>Tools\<close>

text \<open>\<open>looksLikeEmbeddedInstruction\<close> of \<open>src/assistant/semantic-support.ts\<close>.\<close>

definition instruction_pattern :: pattern where
  "instruction_pattern = alts [
     seqs [PBound, words [''ignore'', ''disregard'', ''override''], PBound, any_up_to 80, PBound,
       alts [PSeq (lit ''instruction'') (opt (lit ''s'')), lit ''prompt'', PSeq (lit ''rule'') (opt (lit ''s''))], PBound],
     seqs [PBound, words [''reveal'', ''print'', ''return'', ''expose''], PBound, any_up_to 80, PBound,
       alts [lit ''system prompt'', lit ''developer message'', lit ''private key'', lit ''secret'',
         PSeq (lit ''credential'') (opt (lit ''s''))], PBound],
     seqs [PBound, words [''system prompt'', ''developer message''], PBound],
     seqs [lit ''<script'', PBound],
     seqs [PBound, words [''assistant'', ''system''], PRep (PSym is_space) 0 None, lit '':'']]"

definition looksLikeEmbeddedInstruction :: "string \<Rightarrow> bool" where
  "looksLikeEmbeddedInstruction s = test_i instruction_pattern s"

record tool_context =
  tc_session :: actor_session
  tc_purposeId :: string
  tc_asOf :: int
  tc_arguments :: arguments

record protected_retrieval =
  pv_authorizationAllowed :: bool
  pv_repositoryAvailable :: bool
  pv_envelopeDigestVerified :: bool
  pv_packageCommitmentsVerified :: bool
  pv_domainSignatureVerified :: bool
  pv_keyReleaseAllowed :: bool
  pv_decryptedInsideCustodyBoundary :: bool
  pv_supports :: "assistant_support list"

datatype tool_impl =
    ProtectedSearchTool "nat \<Rightarrow> tool_context \<Rightarrow> assistant_error + protected_retrieval"
  | TypedQueryTool assistant_tool "nat \<Rightarrow> tool_context \<Rightarrow> assistant_error + assistant_support list"

fun tool_name :: "tool_impl \<Rightarrow> assistant_tool" where
  "tool_name (ProtectedSearchTool r) = TProtectedSearch"
| "tool_name (TypedQueryTool n q) = n"

fun tool_execute :: "tool_impl \<Rightarrow> nat \<Rightarrow> tool_context \<Rightarrow> assistant_error + assistant_support list" where
  "tool_execute (ProtectedSearchTool retrieve) n c =
     rbind (retrieve n c) (\<lambda>r.
     rbind (check (\<not> pv_authorizationAllowed r \<or> \<not> pv_repositoryAvailable r \<or> \<not> pv_envelopeDigestVerified r
         \<or> \<not> pv_packageCommitmentsVerified r \<or> \<not> pv_domainSignatureVerified r \<or> \<not> pv_keyReleaseAllowed r
         \<or> \<not> pv_decryptedInsideCustodyBoundary r) ProtectedRetrievalError) (\<lambda>_. Inr (pv_supports r)))"
| "tool_execute (TypedQueryTool name query) n c = query n c"

type_synonym tool_registry = "(assistant_tool, tool_impl) jmap"
type_synonym authorization = "nat \<Rightarrow> actor_session \<Rightarrow> string \<Rightarrow> assistant_tool \<Rightarrow> arguments \<Rightarrow> assistant_error + bool"

definition new_registry :: "tool_impl list \<Rightarrow> assistant_error + tool_registry" where
  "new_registry tools = rfold (\<lambda>m t. if jm_has m (tool_name t) then Inl OtherError else Inr (jm_set (tool_name t) t m)) [] tools"

fun tool_text :: "assistant_tool \<Rightarrow> string" where
  "tool_text TFacts = ''facts''"
| "tool_text THistory = ''history''"
| "tool_text TRules = ''rules''"
| "tool_text TAssessment = ''assessment''"
| "tool_text TAudit = ''audit''"
| "tool_text TProtectedSearch = ''protected-search''"

definition registry_names :: "tool_registry \<Rightarrow> string list" where
  "registry_names reg = js_sort str_le (map tool_text (jm_keys reg))"

record tool_execution =
  tx_supports :: "assistant_support list"
  tx_supportIds :: "string list"
  tx_resourceVersions :: "(string \<times> int) list"
  tx_injectionDetected :: bool

definition no_supports :: tool_execution where
  "no_supports = \<lparr>tx_supports = [], tx_supportIds = [], tx_resourceVersions = [], tx_injectionDetected = False\<rparr>"

definition admit_support :: "assistant_lib \<Rightarrow> tool_execution \<Rightarrow> assistant_support \<Rightarrow> assistant_error + tool_execution" where
  "admit_support al x s =
     rbind (parse_with (assistantSupport_ok al) AssistantSupportValidationError s) (\<lambda>_.
     if sp_support_id s \<in> set (tx_supportIds x) \<or> (sp_resource_id s, sp_resource_version s) \<in> set (tx_resourceVersions x)
     then Inl AssistantSupportValidationError
     else Inr (x\<lparr>tx_supports := tx_supports x @ [s], tx_supportIds := tx_supportIds x @ [sp_support_id s],
       tx_resourceVersions := tx_resourceVersions x @ [(sp_resource_id s, sp_resource_version s)],
       tx_injectionDetected := (tx_injectionDetected x \<or> looksLikeEmbeddedInstruction (sp_content s))\<rparr>))"

definition request_context :: "assistant_query \<Rightarrow> actor_session \<Rightarrow> tool_request \<Rightarrow> tool_context" where
  "request_context q s r = \<lparr>tc_session = s, tc_purposeId = aq_purpose_id q, tc_asOf = aq_as_of q, tc_arguments = tr_arguments r\<rparr>"

definition execute_request ::
  "assistant_lib \<Rightarrow> tool_registry \<Rightarrow> authorization \<Rightarrow> assistant_query \<Rightarrow> actor_session \<Rightarrow> tool_execution \<Rightarrow> nat \<times> tool_request
    \<Rightarrow> assistant_error + tool_execution" where
  "execute_request al reg authorize q s x nr = (case nr of (n, r) \<Rightarrow>
     rbind (from_option ToolAuthorizationError (jm_get reg (tr_tool r))) (\<lambda>tool.
     rbind (authorize n s (aq_purpose_id q) (tr_tool r) (tr_arguments r)) (\<lambda>allowed.
     rbind (check (\<not> allowed) ToolAuthorizationError) (\<lambda>_.
     rbind (tool_execute tool n (request_context q s r)) (\<lambda>result. rfold (admit_support al) x result)))))"

definition execute_tools ::
  "assistant_lib \<Rightarrow> tool_registry \<Rightarrow> authorization \<Rightarrow> assistant_query \<Rightarrow> actor_session \<Rightarrow> assistant_error + tool_execution \<times> assistant_tool list" where
  "execute_tools al reg authorize q s =
     rbind (rfold (execute_request al reg authorize q s) no_supports (enumerate 0 (aq_requests q))) (\<lambda>x.
     Inr (x, map tr_tool (aq_requests q)))"

subsection \<open>What an execution guarantees\<close>

text \<open>What the tool of an authorized request answered, and the supports that such answers bring.\<close>

definition answered ::
  "tool_registry \<Rightarrow> authorization \<Rightarrow> assistant_query \<Rightarrow> actor_session \<Rightarrow> nat \<Rightarrow> tool_request \<Rightarrow> assistant_support list \<Rightarrow> bool" where
  "answered reg authorize q s n r result = (\<exists>tool. jm_get reg (tr_tool r) = Some tool
     \<and> authorize n s (aq_purpose_id q) (tr_tool r) (tr_arguments r) = Inr True
     \<and> tool_execute tool n (request_context q s r) = Inr result)"

definition obtained ::
  "tool_registry \<Rightarrow> authorization \<Rightarrow> assistant_query \<Rightarrow> actor_session \<Rightarrow> assistant_support \<Rightarrow> bool" where
  "obtained reg authorize q s p = (\<exists>n < length (aq_requests q). \<exists>result.
     answered reg authorize q s n (aq_requests q ! n) result \<and> p \<in> set result)"

definition execution_ok :: "assistant_lib \<Rightarrow> (assistant_support \<Rightarrow> bool) \<Rightarrow> tool_execution \<Rightarrow> bool" where
  "execution_ok al P x = (tx_supportIds x = map sp_support_id (tx_supports x)
     \<and> tx_resourceVersions x = map (\<lambda>s. (sp_resource_id s, sp_resource_version s)) (tx_supports x)
     \<and> distinct (tx_supportIds x) \<and> distinct (tx_resourceVersions x)
     \<and> tx_injectionDetected x = list_ex (looksLikeEmbeddedInstruction \<circ> sp_content) (tx_supports x)
     \<and> (\<forall>s\<in>set (tx_supports x). assistantSupport_ok al s \<and> P s))"

lemma admit_ok:
  assumes "execution_ok al P x" and "admit_support al x s = Inr y" and "P s"
  shows "execution_ok al P y"
  using assms by (auto simp: admit_support_def execution_ok_def outcome_simps split: if_splits)

lemma admit_all_ok:
  assumes "execution_ok al P x" and "rfold (admit_support al) x ss = Inr y" and "\<forall>s\<in>set ss. P s"
  shows "execution_ok al P y"
  using assms
proof (induction ss arbitrary: x)
  case (Cons s ss)
  then obtain z where "admit_support al x s = Inr z" "rfold (admit_support al) z ss = Inr y" by (auto simp: outcome_simps)
  then show ?case using Cons admit_ok [of al P x s z] by auto
qed simp

lemma request_ok:
  assumes "execution_ok al P x" and "execute_request al reg authorize q s x (n, r) = Inr y"
    and "\<forall>result. answered reg authorize q s n r result \<longrightarrow> (\<forall>p\<in>set result. P p)"
  shows "execution_ok al P y \<and> (\<exists>result. answered reg authorize q s n r result)"
proof -
  obtain result where "answered reg authorize q s n r result" "rfold (admit_support al) x result = Inr y"
    using assms(2) by (auto simp: execute_request_def answered_def outcome_simps)
  then show ?thesis using admit_all_ok [OF assms(1)] assms(3) by blast
qed

lemma requests_ok:
  assumes "execution_ok al P x" and "rfold (execute_request al reg authorize q s) x nrs = Inr y"
    and "\<forall>(n, r)\<in>set nrs. \<forall>result. answered reg authorize q s n r result \<longrightarrow> (\<forall>p\<in>set result. P p)"
  shows "execution_ok al P y \<and> (\<forall>(n, r)\<in>set nrs. \<exists>result. answered reg authorize q s n r result)"
  using assms
proof (induction nrs arbitrary: x)
  case (Cons nr nrs)
  obtain n r where nr: "nr = (n, r)" by (cases nr)
  obtain z where z: "execute_request al reg authorize q s x (n, r) = Inr z"
    "rfold (execute_request al reg authorize q s) z nrs = Inr y"
    using Cons.prems(2) nr by (auto simp: outcome_simps)
  have "execution_ok al P z \<and> (\<exists>result. answered reg authorize q s n r result)"
    using request_ok [OF Cons.prems(1) z(1)] Cons.prems(3) nr by simp
  then show ?case using Cons.IH [OF _ z(2)] Cons.prems(3) nr by simp
qed simp

text \<open>Every request of a completed execution was authorized, and its supports are well formed, distinct and obtained.\<close>

lemma execute_Inr:
  assumes "execute_tools al reg authorize q s = Inr (x, names)"
  shows "execution_ok al (obtained reg authorize q s) x \<and> names = map tr_tool (aq_requests q)
    \<and> (\<forall>n < length (aq_requests q). \<exists>result. answered reg authorize q s n (aq_requests q ! n) result)"
proof -
  have f: "rfold (execute_request al reg authorize q s) no_supports (enumerate 0 (aq_requests q)) = Inr x"
    and n: "names = map tr_tool (aq_requests q)"
    using assms by (auto simp: execute_tools_def outcome_simps)
  have start: "execution_ok al (obtained reg authorize q s) no_supports" by (simp add: execution_ok_def no_supports_def)
  have "\<forall>(n, r)\<in>set (enumerate 0 (aq_requests q)). \<forall>result. answered reg authorize q s n r result
      \<longrightarrow> (\<forall>p\<in>set result. obtained reg authorize q s p)"
    unfolding obtained_def by (clarsimp simp: in_set_enumerate_eq) blast
  from requests_ok [OF start f this] show ?thesis using n by (force simp: in_set_enumerate_eq)
qed

end
