(* ===== verification/Assistant_Prose.thy ===== *)
theory Assistant_Prose
  imports Assistant_Tools
begin

text \<open>
  The tests on text of \<open>src/assistant/service.ts\<close> and \<open>src/assistant/semantic-support.ts\<close> that are regular expressions over
  a text and a decision code: the boundaries of a question, secrets in an output, exact and alternate decision codes, the
  repudiation of a code, and the sentence that renders a recorded decision. The heuristics that compare two texts by their
  words (\<open>hasJointSemanticSupport\<close>, \<open>semanticDisclosureMatch\<close>) and that read assertions out of prose (\<open>decisionAssertions\<close>
  and what rests on it) are parameters, the record \<open>prose\<close>: what is proved holds whatever they answer.
\<close>

subsection \<open>Questions and outputs\<close>

definition optionally :: "string \<Rightarrow> pattern" where
  "optionally w = opt (lit w)"

definition isNonFactualBoilerplate :: "string \<Rightarrow> bool" where
  "isNonFactualBoilerplate s = test_i (seqs [PStart,
     alts [lit ''supported'', lit ''response supported'', lit ''none'', seqs [lit ''n'', optionally ''/'', lit ''a''],
       lit ''not applicable'', seqs [lit ''no '', alts [PSeq (lit ''warning'') (optionally ''s''),
         PSeq (lit ''missing requirement'') (optionally ''s''), PSeq (lit ''issue'') (optionally ''s'')]]],
     optionally ''.'', PEnd]) (trim s)"

definition looksLikeAuthorityEscalation :: "string \<Rightarrow> bool" where
  "looksLikeAuthorityEscalation s = test_i (alts [
     seqs [lit ''sign '', optionally ''the '', lit ''transaction''],
     seqs [lit ''submit '', optionally ''the '', lit ''transaction''],
     seqs [lit ''fund '', optionally ''the '', words [''agreement'', ''escrow'', ''transaction'']],
     seqs [lit ''settle '', optionally ''the '', words [''agreement'', ''escrow'', ''transaction'']],
     seqs [lit ''refund '', optionally ''the '', words [''buyer'', ''payment'', ''funds'', ''escrow'']],
     seqs [lit ''send '', optionally ''the '', words [''payment'', ''funds'']],
     lit ''release escrow'',
     lit ''transfer ownership'',
     seqs [lit ''resolve '', optionally ''the '', lit ''dispute''],
     seqs [lit ''reveal '', optionally ''the '', words [''key'', ''token'', ''system prompt'']]]) s"

definition isExternalDecisionRequest :: "string \<Rightarrow> bool" where
  "isExternalDecisionRequest s = test_i (alts [
     seqs [words [''can'', ''could'', ''will'', ''would''], lit '' '', words [''you'', ''the system'', ''the assistant''], lit '' '',
       any_up_to 60, opt (words [''legally '', ''formally '']), words [''certify'', ''approve'', ''accredit'']],
     seqs [lit ''should '', any_up_to 80, opt (words [''legally '', ''formally '']), words [''certify'', ''approve'', ''accredit'']],
     seqs [opt (words [''legal '', ''formal '']), words [''certification'', ''accreditation'', ''liability'', ''arbitration''],
       lit '' decision'']]) s"

text \<open>Tested on the JSON text of a candidate.\<close>

definition secret_like :: "string \<Rightarrow> bool" where
  "secret_like s = test_i (alts [
     seqs [lit ''-----begin '', opt (words [''rsa '', ''ec '']), lit ''private key-----''],
     seqs [lit ''sk-'', PRep (chars (lower_alnum @ ''_-'')) 16 None],
     seqs [lit ''0x'', hex_digits 64, PBound],
     lit ''document_encryption_key'',
     lit ''openai_api_key'']) s"

definition fraction_of_100 :: pattern where
  "fraction_of_100 = seqs [PRep (chars digit_chars) 1 None, opt (PSeq (lit ''.'') (PRep (chars digit_chars) 1 None)), some_spaces,
     lit ''/'', some_spaces, lit ''100'', PBound]"

definition ambiguous_score :: "string \<Rightarrow> bool" where
  "ambiguous_score s = (test_i (seqs [PBound, opt (seqs [lit ''score'', optionally '' of'', spaces]), fraction_of_100]) s
     \<and> \<not> test_i (alts [seqs [PBound, lit ''circularity'', PBound],
          seqs [PBound, lit ''c'', some_spaces, alts [lit ''='', PSeq (opt (PSeq (lit ''component'') spaces)) (lit ''is'')], some_spaces,
            fraction_of_100]]) s)"

definition no_score_statement :: pattern where
  "no_score_statement = alts [
     seqs [lit ''no overall sustainability score'',
       opt (seqs [lit '' '', opt (words [''is '', ''was '']), words [''calculated'', ''computed'', ''reported'', ''produced'']])],
     seqs [lit ''does not '', words [''calculate'', ''compute'', ''report'', ''produce''], lit '' a'', optionally ''n'',
       lit '' overall sustainability score'']]"

definition component_inference :: pattern where
  "component_inference = seqs [PBound, words [''circularity'', ''component''], PBound, any_up_to 100, PBound,
     words [''indicat'', ''show'', ''demonstrat''], PRep (chars ''abcdefghijklmnopqrstuvwxyz'') 0 None, PBound, any_up_to 80, PBound,
     alts [lit ''sustainability performance'', lit ''overall performance'', lit ''more sustainable'', lit ''most sustainable'',
       PSeq (lit ''optimal'') (optionally ''ity'')], PBound]"

definition overall_score :: pattern where
  "overall_score = alts [
     seqs [lit ''score'', optionally ''s'', lit '' '', optionally ''the '', lit ''highest overall''],
     lit ''highest overall score'',
     seqs [lit ''overall sustainability score '', words [''of'', ''is'', ''equals'']],
     seqs [lit ''overall score '', words [''of'', ''is'', ''equals'']]]"

text \<open>The second half of \<open>claimsUnsupportedCompositeScore\<close>, on the JSON text and the claims of a candidate.\<close>

definition composite_score_in :: "string \<Rightarrow> string list \<Rightarrow> bool" where
  "composite_score_in json claims =
     (let text = replace_all no_score_statement (\<lambda>_. []) (toLowerCase json) in
      list_ex ambiguous_score claims \<or> pattern_test component_inference text \<or> pattern_test overall_score text)"

subsection \<open>Decision codes in prose\<close>

text \<open>The verb of a contraction: \<open>doesn't\<close> and \<open>doesnt\<close> become \<open>does not\<close>.\<close>

definition expand_contraction :: "string \<Rightarrow> string" where
  "expand_contraction m = take (length m - (if ends_with (''n'' @ [CHR 0x27] @ ''t'') m then 3 else 2)) m @ '' not''"

definition apostrophe :: pattern where
  "apostrophe = optionally [CHR 0x27]"

definition normalizeDecisionProse :: "string \<Rightarrow> string" where
  "normalizeDecisionProse s =
     trim (replace_all (PRep (PSym (\<lambda>c. c \<notin> set lower_alnum)) 1 None) (\<lambda>_. '' '')
      (replace_all (seqs [PBound, words [''does'', ''do'', ''is'', ''are'', ''was'', ''were'', ''could'', ''should'', ''must'', ''would'',
           ''may''], lit ''n'', apostrophe, lit ''t'', PBound]) expand_contraction
       (replace_all (seqs [PBound, lit ''cannot'', PBound]) (\<lambda>_. ''can not'')
        (replace_all (seqs [PBound, lit ''won'', apostrophe, lit ''t'', PBound]) (\<lambda>_. ''will not'')
         (replace_all (seqs [PBound, lit ''can'', apostrophe, lit ''t'', PBound]) (\<lambda>_. ''can not'') (toLowerCase s))))))"

definition containsExactDecisionCode :: "string \<Rightarrow> string \<Rightarrow> bool" where
  "containsExactDecisionCode text code =
     test_i (seqs [PAlt PStart (PSym (\<lambda>c. c \<notin> set (lower_alnum @ ''-''))), lit (toLowerCase code),
       PAlt PEnd (PSym (\<lambda>c. c \<notin> set (lower_alnum @ ''-'')))]) text"

definition names_decision_code :: "string \<Rightarrow> bool" where
  "names_decision_code text = test_i (seqs [PBound, opt (PSeq (lit ''recorded'') spaces), lit ''decision'', spaces, lit ''code'', PBound]) text"

definition isQualifiedDecisionBoundaryCaveat :: "string \<Rightarrow> bool" where
  "isQualifiedDecisionBoundaryCaveat tail =
     (let n = trim tail in
      pattern_test (seqs [PStart, lit ''without'', spaces, opt (PSeq (alts [lit ''the'', PSeq (lit ''a'') (optionally ''n'')]) spaces),
        PRep (PSeq (words [''responsible'', ''accountable'', ''authorized'', ''legal'', ''regulatory'', ''safety'', ''transaction'',
          ''ownership'']) spaces) 0 None,
        words [''organization'', ''authority'', ''actor'', ''approval'', ''review'', ''decision'', ''authorization'', ''confirmation''],
        PBound]) n
      \<or> pattern_test (seqs [PStart, words [''until'', ''unless'', ''before'', ''pending''], PBound]) n
      \<or> pattern_test (seqs [PStart, lit ''as'', spaces, words [''legal'', ''regulatory'', ''safety'', ''transaction'', ''ownership''],
          PBound]) n)"

text \<open>Words with white space between them.\<close>

fun phrase :: "string list \<Rightarrow> pattern" where
  "phrase [] = PEmpty"
| "phrase [w] = lit w"
| "phrase (w # v # ws) = seqs [lit w, spaces, phrase (v # ws)]"

definition modals :: pattern where
  "modals = words [''should'', ''must'', ''can'', ''may'', ''will'']"

definition followed :: pattern where
  "followed = alts [lit ''followed'', phrase [''acted'', ''on''], lit ''applied'', lit ''implemented'', lit ''used'', lit ''executed'',
     phrase [''relied'', ''on''], lit ''accepted'', lit ''adopted'', lit ''observed'']"

definition code_noun :: pattern where
  "code_noun = words [''decision'', ''outcome'', ''code'']"

definition direct_prefix :: pattern where
  "direct_prefix = seqs [
     opt (seqs [opt (PSeq (lit ''is'') spaces), lit ''the'', spaces, opt (PSeq (lit ''recorded'') spaces), code_noun, spaces]),
     opt (PSeq (words [''and'', ''but'', ''yet'', ''however'']) spaces),
     opt (PSeq (alts [lit ''it'', lit ''this'', lit ''that'', seqs [lit ''the'', spaces, code_noun]]) spaces)]"

definition direct_repudiation :: pattern where
  "direct_repudiation = seqs [alts [
     seqs [modals, spaces, lit ''not'', spaces, opt (PSeq (lit ''be'') spaces), followed],
     seqs [words [''is'', ''was'', ''remains''], spaces, phrase [''not'', ''to'', ''be''], spaces, followed],
     seqs [modals, spaces, lit ''be'', spaces, words [''ignored'', ''disregarded'', ''rejected'', ''overridden'', ''dismissed'']]], PBound]"

definition gerund_repudiation :: pattern where
  "gerund_repudiation = seqs [
     alts [lit ''is'', lit ''was'', lit ''remains'', phrase [''would'', ''be''], phrase [''should'', ''be''], phrase [''must'', ''be'']],
     spaces,
     alts (seqs [words [''not'', ''never''], spaces, words [''appropriate'', ''recommended'', ''permitted'', ''allowed'', ''authorized'',
        ''valid'', ''advisable'', ''acceptable'']] # map lit [''prohibited'', ''forbidden'', ''invalid'', ''inappropriate'',
        ''inadvisable'', ''unacceptable'']),
     PBound]"

text \<open>\<open>text.match(/^...\b(.*)$/u)\<close>: the rest of the text after the pattern at its start; the texts have no line ends.\<close>

definition rest_after :: "pattern \<Rightarrow> string \<Rightarrow> string option" where
  "rest_after p s = (case pattern_ends s p 0 of [] \<Rightarrow> None | j # _ \<Rightarrow> Some (drop j s))"

definition start_or_space :: pattern where
  "start_or_space = PAlt PStart (PSym is_space)"

definition repudiated_by :: "pattern \<Rightarrow> string \<Rightarrow> bool" where
  "repudiated_by p s = (case rest_after p s of None \<Rightarrow> False | Some tail \<Rightarrow> \<not> isQualifiedDecisionBoundaryCaveat tail)"

definition repudiatesExactDecisionCode :: "string \<Rightarrow> string \<Rightarrow> bool" where
  "repudiatesExactDecisionCode before after =
     (let direct = (case rest_after direct_prefix after of None \<Rightarrow> after | Some d \<Rightarrow> d) in
      if repudiated_by direct_repudiation direct then True
      else if pattern_test (seqs [start_or_space, opt (seqs [words [''do'', ''does'', ''should'', ''must'', ''can'', ''may'', ''will''], spaces,
           lit ''not'', spaces]), alts [lit ''follow'', phrase [''act'', ''on''], lit ''apply'', lit ''implement'', lit ''use'', lit ''execute'',
           phrase [''rely'', ''on''], lit ''accept'', lit ''adopt'', lit ''observe'', lit ''ignore'', lit ''disregard'', lit ''reject'',
           lit ''override'', lit ''dismiss''], some_spaces, PEnd]) before then True
      else if \<not> pattern_test (seqs [start_or_space, alts [lit ''following'', phrase [''acting'', ''on''], lit ''applying'', lit ''implementing'',
           lit ''using'', lit ''executing'', phrase [''relying'', ''on''], lit ''accepting'', lit ''adopting'', lit ''observing''],
           some_spaces, PEnd]) before then False
      else repudiated_by gerund_repudiation after)"

definition negated_verbs :: "string list \<Rightarrow> pattern" where
  "negated_verbs vs = seqs [words vs, spaces, lit ''not'']"

definition sentence_contradicts :: "string \<Rightarrow> string \<Rightarrow> bool" where
  "sentence_contradicts code sentence = (case position_of code sentence of None \<Rightarrow> False | Some i \<Rightarrow>
     let before = trim (take i sentence); after = trim (drop (i + length code) sentence) in
     pattern_test (seqs [PStart, opt (PSeq (words [''is'', ''was'', ''remains'']) spaces),
       words [''incorrect'', ''invalid'', ''wrong'', ''false'', ''inapplicable''], PBound]) after
     \<or> repudiatesExactDecisionCode before after
     \<or> pattern_test (seqs [start_or_space, alts [negated_verbs [''is'', ''was'', ''were'', ''does'', ''do'', ''can''], lit ''cannot'',
          lit ''never'', lit ''not''], PEnd]) before
     \<or> pattern_test (seqs [PStart, PRep (PSeq (PRep (chars lower_alnum) 1 None) spaces) 0 (Some 4),
          alts [negated_verbs [''does'', ''do'', ''is'', ''was'', ''were'', ''can''], lit ''cannot'', lit ''never''], spaces,
          alts (map lit [''apply'', ''applies'', ''applicable'', ''valid'', ''supported'', ''recorded'', ''correct''] @
            [seqs [opt (PSeq (lit ''the'') spaces), opt (PSeq (lit ''recorded'') spaces), code_noun]]), PBound]) after)"

definition contradictsRecordedDecision :: "string \<Rightarrow> string \<Rightarrow> bool" where
  "contradictsRecordedDecision text decisionCode =
     (let code = normalizeDecisionProse decisionCode in
      code \<noteq> [] \<and> list_ex (sentence_contradicts code)
        (map normalizeDecisionProse (split_runs (\<lambda>c. c \<in> set (''.!?;'' @ [CHR 0x0A])) text)))"

definition containsAffirmativeAutomaticApproval :: "string \<Rightarrow> bool" where
  "containsAffirmativeAutomaticApproval s =
     list_ex (\<lambda>(i, j).
       \<not> pattern_test (seqs [PBound, words [''no'', ''not'', ''never'', ''without'', ''cannot'', ''does not'', ''is not'', ''will not''], PEnd])
           (trimEnd (slice (i - 35) i s))
       \<and> \<not> pattern_test (seqs [PStart, words [''is'', ''was'', ''remains''], spaces, words [''not'', ''prohibited'', ''forbidden'', ''blocked''],
           PBound]) (trimStart (drop j s)))
     (matches_from (seqs [PBound, alts [lit ''automatic approval'', PSeq (lit ''automatically approve'') (opt (words [''d'', ''s''])),
        lit ''approved automatically'', lit ''approves automatically''], PBound]) s 0)"

text \<open>A plain object; a token \<open>constructor\<close>, which every object has as a member, is left aside.\<close>

definition opposites :: "(string \<times> string list) list" where
  "opposites = [(''sufficient'', [''insufficient'']), (''insufficient'', [''sufficient'']), (''eligible'', [''ineligible'']),
     (''ineligible'', [''eligible'']), (''permitted'', [''prohibited'']), (''prohibited'', [''permitted'']),
     (''accepted'', [''rejected'']), (''rejected'', [''accepted'', ''approved'']), (''approved'', [''rejected'']),
     (''available'', [''unavailable'']), (''unavailable'', [''available'']), (''pass'', [''fail'']), (''fail'', [''pass''])]"

definition alternate_codes :: "string list \<Rightarrow> string list list" where
  "alternate_codes tokens = concat (map (\<lambda>(i, t). map (\<lambda>opposite. tokens[i := opposite])
     (case map_of opposites t of None \<Rightarrow> [] | Some os \<Rightarrow> os)) (enumerate 0 tokens))"

definition code_mention :: pattern where
  "code_mention = seqs [PBound, alts [seqs [opt (PSeq (lit ''recorded'') spaces), lit ''decision'', spaces, lit ''code'',
       opt (PSeq spaces (lit ''is''))], seqs [lit ''the'', spaces, lit ''code'']], spaces, opt (chars [CHR 0x27, CHR 0x22])]"

definition mentioned_code :: pattern where
  "mentioned_code = seqs [PRep (chars lower_alnum) 1 None, PRep (PSeq (lit ''-'') (PRep (chars lower_alnum) 1 None)) 1 None, PBound]"

text \<open>The group of a match of \<open>code_mention\<close> followed by \<open>mentioned_code\<close>, as the matcher finds it first.\<close>

definition captured_code :: "string \<Rightarrow> nat \<Rightarrow> string" where
  "captured_code s i = (case concat (map (\<lambda>k. map (\<lambda>j. slice k j s) (pattern_ends s mentioned_code k)) (pattern_ends s code_mention i)) of
     [] \<Rightarrow> [] | c # _ \<Rightarrow> c)"

definition containsAlternateDecisionCode :: "string \<Rightarrow> string \<Rightarrow> bool" where
  "containsAlternateDecisionCode text expectedCode =
     (let normalized = '' '' @ normalizeDecisionProse text @ '' ''; lowered = toLowerCase text in
      (expectedCode = ''external-decision-required'' \<and> containsAffirmativeAutomaticApproval normalized)
      \<or> list_ex (\<lambda>alternate. has_part ('' '' @ join '' '' alternate @ '' '') normalized)
           (alternate_codes (split_on CHR ''-'' (toLowerCase expectedCode)))
      \<or> list_ex (\<lambda>(i, j). captured_code lowered i \<noteq> toLowerCase expectedCode)
           (matches_from (PSeq code_mention mentioned_code) lowered 0))"

subsection \<open>Rendering a recorded decision\<close>

datatype decision_relation = RPreferred | REligible | RPermitted | RApplicable

definition suffix_target :: "decision_relation \<Rightarrow> string \<Rightarrow> string \<Rightarrow> (decision_relation \<times> string) option option" where
  "suffix_target rel suffix s = (if ends_with (''-'' @ suffix) s then
     let target = take (length s - (length suffix + 1)) s in Some (if target = [] then None else Some (rel, target)) else None)"

text \<open>The first case that applies decides; its target may be missing.\<close>

fun first_case :: "'a option list \<Rightarrow> 'a option" where
  "first_case [] = None"
| "first_case (Some x # xs) = Some x"
| "first_case (None # xs) = first_case xs"

definition eligible_target :: "string \<Rightarrow> (decision_relation \<times> string) option option" where
  "eligible_target s = (if starts_with ''eligible-for-'' s then
     let target = drop (length ''eligible-for-'') s in Some (if target = [] then None else Some (REligible, target)) else None)"

definition expectation_cases :: "string \<Rightarrow> (decision_relation \<times> string) option option list" where
  "expectation_cases n = map (\<lambda>x. suffix_target RPreferred x n) [''preferred'', ''recommended'', ''selected''] @ [eligible_target n]
     @ map (\<lambda>x. suffix_target RPermitted x n) [''permitted'', ''allowed'', ''authorized''] @ [suffix_target RApplicable ''applicable'' n]"

definition answerDecisionExpectation :: "string \<Rightarrow> (decision_relation \<times> string) option" where
  "answerDecisionExpectation decisionCode =
     (case first_case (expectation_cases (toLowerCase decisionCode)) of None \<Rightarrow> None | Some e \<Rightarrow> e)"

definition dashes_to_spaces :: "string \<Rightarrow> string" where
  "dashes_to_spaces s = map (\<lambda>c. if c = CHR ''-'' then CHR '' '' else c) s"

definition humanizeDecisionTarget :: "string \<Rightarrow> string" where
  "humanizeDecisionTarget t = dashes_to_spaces
     (if t = ''continued-compatible-ev-use'' then ''continued compatible EV use''
      else if t = ''battery-passport-requirement'' then ''the battery passport requirement'' else t)"

text \<open>\<open>toUpperCase\<close> of the first character; only letters, digits and dashes occur in targets.\<close>

definition capitalizeSentence :: "string \<Rightarrow> string" where
  "capitalizeSentence s = (case s of [] \<Rightarrow> [] | c # cs \<Rightarrow>
     (case map_of (zip ''abcdefghijklmnopqrstuvwxyz'' ''ABCDEFGHIJKLMNOPQRSTUVWXYZ'') c of None \<Rightarrow> c | Some d \<Rightarrow> d) # cs)"

definition recordedDecisionStatement :: "recorded_decision \<Rightarrow> assistant_error + string" where
  "recordedDecisionStatement d =
     (let code = ''The recorded decision code is '' @ rd_code d @ ''.'' in
      case rd_outcome d of
        OAbstain \<Rightarrow> Inr (''The recorded decision withholds an answer because required evidence is insufficient. '' @ code)
      | OExternal \<Rightarrow> Inr (''The recorded decision requires review by a responsible organization. '' @ code)
      | OAnswer \<Rightarrow> rbind (from_option OtherError (answerDecisionExpectation (rd_code d))) (\<lambda>(rel, t).
          let target = humanizeDecisionTarget t in
          Inr ((case rel of
             RPreferred \<Rightarrow> capitalizeSentence target @ '' is the recorded preferred route.''
           | REligible \<Rightarrow> ''The battery is recorded as eligible for '' @ target @ ''.''
           | RApplicable \<Rightarrow> capitalizeSentence target @ '' is recorded as applicable.''
           | RPermitted \<Rightarrow> capitalizeSentence target @ '' is recorded as permitted.'') @ '' '' @ code)))"

end
