(* ===== verification/Assistant_Validation.thy ===== *)
theory Assistant_Validation
  imports Assistant_Prose
begin

text \<open>
  How \<open>src/assistant/service.ts\<close> binds a model's candidate to the recorded decision of its supports and validates it before
  release. The heuristics on prose are the record \<open>prose\<close>, \<open>JSON.stringify\<close> of a candidate is one of its fields. An
  exception that a rendering throws is an error of the result.
\<close>

record prose =
  ps_jointSupport :: "string \<Rightarrow> string list \<Rightarrow> bool \<Rightarrow> bool" \<comment> \<open>\<open>hasJointSemanticSupport(statement, contents, eachContributes)\<close>\<close>
  ps_disclosure :: "string \<Rightarrow> string \<Rightarrow> bool" \<comment> \<open>\<open>semanticDisclosureMatch(secret, output)\<close>\<close>
  ps_operative :: "string \<Rightarrow> bool" \<comment> \<open>\<open>containsUnboundOperativeDecision(text)\<close>\<close>
  ps_contradicts :: "string \<Rightarrow> recorded_decision \<Rightarrow> bool" \<comment> \<open>\<open>contradictsRecordedDecisionSemantics(text, decision)\<close>\<close>

record assistant_claim =
  cl_claim_id :: string
  cl_text :: string
  cl_citation_ids :: "string list"

record candidate =
  ca_outcome :: assistant_outcome
  ca_decision_code :: "string option"
  ca_summary :: string
  ca_claims :: "assistant_claim list"
  ca_reason_codes :: "string list"
  ca_warnings :: "string list"
  ca_missing_requirements :: "string list"

record assistant_model_result =
  am_candidate :: candidate
  am_model :: string
  am_provider :: string
  am_responseId :: "string option"
  am_inputTokens :: "int option"
  am_outputTokens :: "int option"

record screening =
  sc_lib :: assistant_lib
  sc_prose :: prose
  sc_stringify :: "candidate \<Rightarrow> string"

subsection \<open>Recorded decisions\<close>

definition supportsForQueryMode :: "assistant_support list \<Rightarrow> query_mode \<Rightarrow> assistant_support list" where
  "supportsForQueryMode ss mode = (if mode = ExplainRecordedDecision then ss else filter (\<lambda>s. sp_recorded_decision s = None) ss)"

definition normalizeRecordedDecision :: "recorded_decision \<Rightarrow> recorded_decision" where
  "normalizeRecordedDecision d = d\<lparr>rd_reason_codes := js_sort str_le (js_set (rd_reason_codes d))\<rparr>"

text \<open>\<open>recordedDecisionKey\<close> is the JSON text of the normalized decision: two keys are equal when these are.\<close>

definition same_decision :: "recorded_decision \<Rightarrow> recorded_decision \<Rightarrow> bool" where
  "same_decision d e = (normalizeRecordedDecision d = normalizeRecordedDecision e)"

datatype decision_resolution = DAbsent | DConsistent recorded_decision | DConflicting

definition active_decision :: "assistant_support \<Rightarrow> recorded_decision option" where
  "active_decision s = (if sp_status s = Active then sp_recorded_decision s else None)"

definition active_decisions :: "assistant_support list \<Rightarrow> recorded_decision list" where
  "active_decisions ss = map normalizeRecordedDecision (List.map_filter active_decision ss)"

definition resolveActiveRecordedDecision :: "assistant_support list \<Rightarrow> decision_resolution" where
  "resolveActiveRecordedDecision ss = (case active_decisions ss of
     [] \<Rightarrow> DAbsent
   | d # ds \<Rightarrow> if list_ex (\<lambda>e. \<not> same_decision e d) (d # ds) then DConflicting else DConsistent d)"

definition activeRecordedDecisionSupportReferences :: "assistant_support list \<Rightarrow> decision_reference list" where
  "activeRecordedDecisionSupportReferences ss = List.map_filter (\<lambda>s. map_option (\<lambda>d.
     \<lparr>dr_support_id = sp_support_id s, dr_resource_id = sp_resource_id s, dr_resource_version = sp_resource_version s,
      dr_commitment = sp_commitment s, dr_recorded_decision = normalizeRecordedDecision d\<rparr>) (active_decision s)) ss"

definition decision_supports :: "recorded_decision \<Rightarrow> assistant_support list \<Rightarrow> assistant_support list" where
  "decision_supports d ss = filter (\<lambda>s. case active_decision s of None \<Rightarrow> False | Some e \<Rightarrow> same_decision e d) ss"

definition sameReasonCodes :: "string list \<Rightarrow> string list \<Rightarrow> bool" where
  "sameReasonCodes left right = (length left = length right \<and> js_sort str_le left = js_sort str_le right)"

subsection \<open>The claims of a candidate\<close>

definition support_text :: "assistant_support \<Rightarrow> assistant_error + string" where
  "support_text s = (case sp_recorded_decision s of None \<Rightarrow> Inr (sp_content s)
     | Some d \<Rightarrow> rbind (recordedDecisionStatement d) (\<lambda>t. Inr (sp_content s @ [CHR 0x0A] @ t)))"

text \<open>A \<open>Map\<close> from identifiers to supports: of two supports with one identifier the later one.\<close>

definition cited_support :: "assistant_support list \<Rightarrow> string \<Rightarrow> assistant_support option" where
  "cited_support ss i = map_of (rev (map (\<lambda>s. (sp_support_id s, s)) ss)) i"

definition active_citation :: "assistant_support list \<Rightarrow> string \<Rightarrow> assistant_support option" where
  "active_citation ss i = (case cited_support ss i of None \<Rightarrow> None | Some s \<Rightarrow> if sp_status s \<noteq> Active then None else Some s)"

definition code_list :: "string list \<Rightarrow> string list" where
  "code_list codes = js_sort str_le (js_set codes)"

definition validateAssistantClaim :: "prose \<Rightarrow> assistant_support list \<Rightarrow> assistant_claim \<Rightarrow> assistant_error + string list" where
  "validateAssistantClaim ps ss claim =
     (let ids = js_set (cl_citation_ids claim) in
      if ids = [] then Inr [''uncited-claim''] else
      let cited = List.map_filter (active_citation ss) ids;
          invalid = List.map_filter (\<lambda>i. if active_citation ss i = None then Some ''invalid-citation'' else None) ids in
      if length cited = length ids then
        rbind (rmap support_text cited) (\<lambda>texts.
        Inr (code_list (invalid @ (if ps_jointSupport ps (cl_text claim) texts True then [] else [''unsupported-claim'']))))
      else Inr (code_list invalid))"

subsection \<open>Checks of a candidate\<close>

definition claimsUnsupportedCompositeScore :: "screening \<Rightarrow> candidate \<Rightarrow> assistant_support list \<Rightarrow> bool" where
  "claimsUnsupportedCompositeScore sc c ss = (list_ex (\<lambda>s. test_i (lit ''no overall sustainability score'') (sp_content s)) ss
     \<and> composite_score_in (sc_stringify sc c) (map cl_text (ca_claims c)))"

definition outcome_phrase :: pattern where
  "outcome_phrase = seqs [words [''recorded deterministic outcome code'', ''exact decision code''], lit '' is '', lit [CHR 0x27]]"

text \<open>\<open>content.match(/... is '([a-z0-9-]+)'/iu)?.[1]\<close> of the content in lower case.\<close>

definition quoted_outcome :: "string \<Rightarrow> string option" where
  "quoted_outcome s = first_case (map (\<lambda>i. first_case (map (\<lambda>j.
       let w = takeWhile (\<lambda>c. c \<in> set (lower_alnum @ ''-'')) (drop j s); rest = drop (j + length w) s in
       if w \<noteq> [] \<and> starts_with [CHR 0x27] rest then Some w else None)
     (pattern_ends s outcome_phrase i))) [0..<Suc (length s)])"

definition expectedDeterministicOutcome :: "assistant_support list \<Rightarrow> string option" where
  "expectedDeterministicOutcome ss = (case resolveActiveRecordedDecision ss of
     DConsistent d \<Rightarrow> Some (rd_code d)
   | _ \<Rightarrow> first_case (map (\<lambda>s. quoted_outcome (toLowerCase (sp_content s))) ss))"

definition missing_phrase :: pattern where
  "missing_phrase = seqs [PBound, words [''missing'', ''no current''], PBound, any_up_to 80, PBound,
     words [''evidence'', ''record'', ''report'', ''inspection''], PBound]"

definition conflict_phrase :: pattern where
  "conflict_phrase = seqs [PBound, words [''conflict'', ''conflicting'', ''disagree'', ''incompatible''], PBound]"

definition expected_reasons :: "candidate \<Rightarrow> assistant_support list \<Rightarrow> string list" where
  "expected_reasons c ss =
     (let recordedOutcome = expectedDeterministicOutcome ss; statuses = map sp_status ss; contents = map sp_content ss in
      (if ss = [] \<or> Missing \<in> set statuses then [''missing-evidence''] else [])
      @ (if Conflicting \<in> set statuses then [''conflicting-evidence''] else [])
      @ (if list_ex (\<lambda>s. s \<in> {Restricted, Stale, Revoked, Superseded}) statuses then [''inactive-evidence''] else [])
      @ (if list_ex looksLikeEmbeddedInstruction contents then [''prompt-injection''] else [])
      @ (if recordedOutcome = Some ''insufficient-evidence'' \<or> list_ex (test_i missing_phrase) contents then [''missing-evidence''] else [])
      @ (if recordedOutcome = Some ''external-decision-required'' \<or> list_ex (test_i conflict_phrase) contents
         then [''conflicting-evidence''] else [])
      @ (if ca_outcome c = OExternal then [''external-decision-required''] else []))"

definition reasonCodesAreCoherent :: "candidate \<Rightarrow> assistant_support list \<Rightarrow> bool" where
  "reasonCodesAreCoherent c ss = (case resolveActiveRecordedDecision ss of
     DConflicting \<Rightarrow> False
   | typed \<Rightarrow>
      \<not> (case typed of DConsistent d \<Rightarrow> \<not> sameReasonCodes (ca_reason_codes c) (rd_reason_codes d) | _ \<Rightarrow> False)
      \<and> \<not> (ca_outcome c = OAnswer \<and> ca_reason_codes c \<noteq> [])
      \<and> list_all (\<lambda>code. code \<in> set (expected_reasons c ss)) (ca_reason_codes c)
      \<and> \<not> (ca_outcome c = OExternal \<and> ''external-decision-required'' \<notin> set (ca_reason_codes c)
           \<and> ''conflicting-evidence'' \<notin> set (ca_reason_codes c)))"

definition containsSecretLikeOutput :: "screening \<Rightarrow> candidate \<Rightarrow> bool" where
  "containsSecretLikeOutput sc c = secret_like (sc_stringify sc c)"

definition containsProhibitedSupportDisclosure :: "screening \<Rightarrow> candidate \<Rightarrow> assistant_support list \<Rightarrow> bool" where
  "containsProhibitedSupportDisclosure sc c ss =
     list_ex (\<lambda>s. sp_status s \<noteq> Active \<and> ps_disclosure (sc_prose sc) (sp_content s) (sc_stringify sc c)) ss"

definition visible_texts :: "candidate \<Rightarrow> string list" where
  "visible_texts c = ca_summary c # map cl_text (ca_claims c) @ ca_warnings c @ ca_missing_requirements c"

definition active_contents :: "assistant_support list \<Rightarrow> string list" where
  "active_contents ss = map sp_content (filter (\<lambda>s. sp_status s = Active) ss)"

text \<open>The codes for the summary, the warnings and the missing requirements that no visible support carries.\<close>

definition unsupported_texts :: "prose \<Rightarrow> candidate \<Rightarrow> string list \<Rightarrow> string list" where
  "unsupported_texts ps c visible = List.map_filter (\<lambda>text.
     if length (trim text) > 0 \<and> \<not> isNonFactualBoilerplate text \<and> \<not> ps_jointSupport ps text visible False
     then Some ''unsupported-user-visible-text'' else None) (ca_summary c # ca_warnings c @ ca_missing_requirements c)"

definition disclosure_codes :: "screening \<Rightarrow> candidate \<Rightarrow> assistant_support list \<Rightarrow> string list" where
  "disclosure_codes sc c ss = (if containsSecretLikeOutput sc c then [''prohibited-disclosure''] else [])
     @ (if containsProhibitedSupportDisclosure sc c ss then [''prohibited-disclosure''] else [])
     @ (if claimsUnsupportedCompositeScore sc c ss then [''composite-score-claim''] else [])"

definition code_if :: "bool \<Rightarrow> string \<Rightarrow> string list" where
  "code_if b code = (if b then [code] else [])"

text \<open>The codes that depend on the recorded decision; \<open>valid\<close> are the claims without codes.\<close>

definition decision_codes :: "prose \<Rightarrow> candidate \<Rightarrow> assistant_support list \<Rightarrow> assistant_claim list \<Rightarrow> string list" where
  "decision_codes ps c ss valid = (case resolveActiveRecordedDecision ss of
     DConflicting \<Rightarrow> [''conflicting-recorded-decision'']
   | DAbsent \<Rightarrow> code_if (ca_decision_code c \<noteq> None) ''unexpected-decision-code''
       @ code_if (list_ex (ps_operative ps) (visible_texts c)) ''unbound-decision-assertion''
   | DConsistent d \<Rightarrow>
       code_if (ca_outcome c \<noteq> rd_outcome d \<or> ca_decision_code c \<noteq> Some (rd_code d)
           \<or> \<not> sameReasonCodes (ca_reason_codes c) (rd_reason_codes d)) ''recorded-decision-mismatch''
       @ code_if (list_ex (\<lambda>t. contradictsRecordedDecision t (rd_code d)) (visible_texts c)) ''recorded-decision-contradiction''
       @ code_if (\<not> containsExactDecisionCode (ca_summary c) (rd_code d)) ''recorded-decision-summary-code-missing''
       @ code_if (\<not> list_ex (\<lambda>claim. containsExactDecisionCode (cl_text claim) (rd_code d)
             \<and> \<not> contradictsRecordedDecision (cl_text claim) (rd_code d)
             \<and> list_ex (\<lambda>i. i \<in> set (map sp_support_id (decision_supports d ss))) (cl_citation_ids claim)) valid)
           ''recorded-decision-cited-claim-missing''
       @ code_if (list_ex (\<lambda>t. containsAlternateDecisionCode t (rd_code d)) (visible_texts c))
           ''recorded-decision-user-visible-code-mismatch''
       @ code_if (list_ex (\<lambda>t. ps_contradicts ps t d) (ca_summary c # map cl_text valid @ ca_warnings c @ ca_missing_requirements c))
           ''recorded-decision-semantic-contradiction'')"

definition outcome_mismatch :: "candidate \<Rightarrow> assistant_support list \<Rightarrow> string \<Rightarrow> bool" where
  "outcome_mismatch c ss question = (case expectedDeterministicOutcome ss of None \<Rightarrow> False | Some expected \<Rightarrow>
     let normalized = trim (replace_all (PRep (PSym (\<lambda>c. c \<notin> set lower_alnum)) 1 None) (\<lambda>_. '' '') (toLowerCase (ca_summary c)));
         preferred = ends_with ''-preferred'' expected;
         natural = dashes_to_spaces (if preferred then take (length expected - length ''-preferred'') expected else expected) in
     test_i (words [''route'', ''assessment'', ''workflow'', ''lifecycle'']) question
     \<and> \<not> has_part expected (toLowerCase (ca_summary c))
     \<and> \<not> (has_part natural normalized
          \<and> (\<not> preferred \<or> test_i (seqs [PBound, words [''preferred'', ''recommended'', ''selected''], PBound]) normalized))
     \<and> \<not> (expected = ''lifecycle-action-permitted''
          \<and> test_i (seqs [PBound, words [''lifecycle'', ''workflow'', ''action''], PBound, any_up_to 50, PBound, optionally ''is '',
              lit ''permitted'', PBound]) normalized))"

definition decision_text :: "assistant_support list \<Rightarrow> assistant_error + string list" where
  "decision_text ss = (case resolveActiveRecordedDecision ss of
     DConsistent d \<Rightarrow> rbind (recordedDecisionStatement d) (\<lambda>t. Inr [t]) | _ \<Rightarrow> Inr [])"

definition validateAssistantCandidate ::
  "screening \<Rightarrow> candidate \<Rightarrow> assistant_support list \<Rightarrow> string \<Rightarrow> assistant_error + string list" where
  "validateAssistantCandidate sc c ss question =
     rbind (rmap (validateAssistantClaim (sc_prose sc) ss) (ca_claims c)) (\<lambda>claimCodes.
     rbind (decision_text ss) (\<lambda>decisionText.
     let valid = map fst (filter (\<lambda>(claim, codes). codes = []) (zip (ca_claims c) claimCodes)) in
     Inr (code_list (code_if (ca_outcome c = OAnswer \<and> ca_claims c = []) ''empty-answer''
       @ concat claimCodes @ decision_codes (sc_prose sc) c ss valid
       @ unsupported_texts (sc_prose sc) c (active_contents ss @ map cl_text valid @ decisionText)
       @ code_if (\<not> reasonCodesAreCoherent c ss) ''incoherent-reason-code''
       @ disclosure_codes sc c ss
       @ code_if (outcome_mismatch c ss question) ''deterministic-outcome-mismatch''))))"

definition validateAssistantExplanationCandidate ::
  "screening \<Rightarrow> candidate \<Rightarrow> assistant_support list \<Rightarrow> assistant_error + string list" where
  "validateAssistantExplanationCandidate sc c ss =
     rbind (rmap (validateAssistantClaim (sc_prose sc) ss) (ca_claims c)) (\<lambda>claimCodes.
     let valid = map fst (filter (\<lambda>(claim, codes). codes = []) (zip (ca_claims c) claimCodes)) in
     Inr (code_list (code_if (ca_claims c = []) ''empty-explanation'' @ concat claimCodes
       @ code_if (list_ex (ps_operative (sc_prose sc)) (visible_texts c)) ''model-authored-decision-assertion''
       @ unsupported_texts (sc_prose sc) c (active_contents ss @ map cl_text valid) @ disclosure_codes sc c ss)))"

subsection \<open>Binding and release\<close>

definition isModelAuthoredExplanation :: "prose \<Rightarrow> string \<Rightarrow> string \<Rightarrow> bool" where
  "isModelAuthoredExplanation ps text code =
     (\<not> containsExactDecisionCode text code \<and> \<not> names_decision_code text \<and> \<not> ps_operative ps text)"

definition number_claims :: "nat \<Rightarrow> assistant_claim list \<Rightarrow> assistant_claim list" where
  "number_claims first claims = map (\<lambda>(n, c). c\<lparr>cl_claim_id := ''claim-'' @ show_nat n\<rparr>) (enumerate first claims)"

definition screen_claims :: "prose \<Rightarrow> assistant_support list \<Rightarrow> bool \<Rightarrow> assistant_claim list \<Rightarrow> assistant_error + assistant_claim list" where
  "screen_claims ps ss screen claims = (if screen then
       rbind (rmap (validateAssistantClaim ps ss) claims) (\<lambda>codes. Inr (map fst (filter (\<lambda>(c, k). k = []) (zip claims codes))))
     else Inr claims)"

definition materializeAssistantCandidateWithRecordedDecision ::
  "screening \<Rightarrow> candidate \<Rightarrow> assistant_support list \<Rightarrow> bool \<Rightarrow> assistant_error + candidate \<times> decision_resolution" where
  "materializeAssistantCandidateWithRecordedDecision sc c ss screen =
     (case resolveActiveRecordedDecision ss of
        DConsistent d \<Rightarrow>
          rbind (recordedDecisionStatement d) (\<lambda>fixedDecisionText.
          rbind (screen_claims (sc_prose sc) ss screen
            (filter (\<lambda>claim. isModelAuthoredExplanation (sc_prose sc) (cl_text claim) (rd_code d)) (ca_claims c))) (\<lambda>explanatory.
          let ids = map sp_support_id (js_sort (\<lambda>l r. al_localeLe (sc_lib sc) (sp_support_id l) (sp_support_id r)) (decision_supports d ss));
              retain = (\<lambda>text. isModelAuthoredExplanation (sc_prose sc) text (rd_code d)
                \<and> (\<not> screen \<or> isNonFactualBoilerplate text
                   \<or> ps_jointSupport (sc_prose sc) text (active_contents ss @ [fixedDecisionText]) False)) in
          Inr (\<lparr>ca_outcome = rd_outcome d, ca_decision_code = Some (rd_code d), ca_summary = fixedDecisionText,
             ca_claims = \<lparr>cl_claim_id = ''claim-1'', cl_text = fixedDecisionText, cl_citation_ids = ids\<rparr> # number_claims 2 explanatory,
             ca_reason_codes = rd_reason_codes d, ca_warnings = filter retain (ca_warnings c),
             ca_missing_requirements = filter retain (ca_missing_requirements c)\<rparr>, DConsistent d)))
      | resolution \<Rightarrow> Inr (c, resolution))"

definition bindAssistantCandidateToRecordedDecision ::
  "screening \<Rightarrow> candidate \<Rightarrow> assistant_support list \<Rightarrow> assistant_error + candidate \<times> decision_resolution" where
  "bindAssistantCandidateToRecordedDecision sc c ss = materializeAssistantCandidateWithRecordedDecision sc c ss False"

definition emptyExplanationCandidate :: candidate where
  "emptyExplanationCandidate = \<lparr>ca_outcome = OAbstain, ca_decision_code = None, ca_summary = [], ca_claims = [],
     ca_reason_codes = [''missing-evidence''], ca_warnings = [], ca_missing_requirements = []\<rparr>"

record release =
  re_candidate :: candidate
  re_codes :: "string list"
  re_resolution :: decision_resolution
  re_withheld :: bool

definition releaseAssistantCandidateWithRecordedDecision ::
  "screening \<Rightarrow> candidate \<Rightarrow> assistant_support list \<Rightarrow> string \<Rightarrow> bool \<Rightarrow> assistant_error + release" where
  "releaseAssistantCandidateWithRecordedDecision sc c ss question screen =
     rbind (materializeAssistantCandidateWithRecordedDecision sc c ss screen) (\<lambda>(m, resolution).
     if \<not> screen then Inr \<lparr>re_candidate = m, re_codes = [], re_resolution = resolution, re_withheld = False\<rparr>
     else rbind (validateAssistantCandidate sc m ss question) (\<lambda>codes.
       if codes = [] \<or> (case resolution of DConsistent d \<Rightarrow> False | _ \<Rightarrow> True)
       then Inr \<lparr>re_candidate = m, re_codes = codes, re_resolution = resolution, re_withheld = False\<rparr>
       else rbind (materializeAssistantCandidateWithRecordedDecision sc emptyExplanationCandidate ss True) (\<lambda>(fixedOnly, _).
            rbind (validateAssistantCandidate sc fixedOnly ss question) (\<lambda>fixedCodes.
            rbind (check (fixedCodes \<noteq> []) OtherError) (\<lambda>_.
            Inr \<lparr>re_candidate = fixedOnly, re_codes = [], re_resolution = resolution, re_withheld = True\<rparr>)))))"

end
