(* ===== verification/Assistant_Service.thy ===== *)
theory Assistant_Service
  imports Assistant_Validation
begin

text \<open>
  \<open>GovernedAssistantService\<close> and \<open>AssistantRequestStore\<close> of \<open>src/assistant/service.ts\<close>. \<open>answerOnce\<close> obtains supports, applies the
  deterministic controls, consults the model and screens its candidate (\<open>gather\<close>, which touches no state), and then records
  the outcome in the audit ledger and the request store without a further \<open>await\<close> (\<open>commit\<close>). What the callbacks answer during
  a call, the identifiers drawn and the times read are the record \<open>answer_env\<close>. \<open>answer\<close> adds the idempotent answers;
  \<open>assistant_step\<close> interleaves its calls, the ends of the answers they started and the delivery of the results.
\<close>

subsection \<open>Deterministic controls\<close>

definition reasonCodesForOutcome :: "assistant_outcome \<Rightarrow> string \<Rightarrow> string list" where
  "reasonCodesForOutcome outcome summary =
     (if test_i (lit ''conflict'') summary then [''conflicting-evidence'']
      else if test_i (words [''missing'', ''no authorized support'']) summary then [''missing-evidence'']
      else if test_i (words [''inactive'', ''restricted'', ''stale'', ''revoked'', ''superseded'']) summary then [''inactive-evidence'']
      else if test_i (lit ''injection'') summary then [''prompt-injection'']
      else if outcome = OExternal then [''external-decision-required''] else [])"

definition deterministic_result ::
  "assistant_outcome \<Rightarrow> string \<Rightarrow> assistant_claim list \<Rightarrow> string list \<Rightarrow> assistant_model_result" where
  "deterministic_result outcome summary claims reasons =
     \<lparr>am_candidate = \<lparr>ca_outcome = outcome, ca_decision_code = None, ca_summary = summary, ca_claims = claims,
        ca_reason_codes = reasons, ca_warnings = [summary], ca_missing_requirements = []\<rparr>,
      am_model = ''deterministic-precondition-engine-v1'', am_provider = ''evllm'', am_responseId = None, am_inputTokens = None,
      am_outputTokens = None\<rparr>"

text \<open>With the reason codes that the function finds by default; no call passes a decision code.\<close>

definition deterministicResult :: "assistant_outcome \<Rightarrow> string \<Rightarrow> assistant_claim list \<Rightarrow> assistant_model_result" where
  "deterministicResult outcome summary claims =
     deterministic_result outcome summary claims (reasonCodesForOutcome outcome summary)"

definition precondition :: "assistant_support list \<Rightarrow> bool \<Rightarrow> (assistant_outcome \<times> string \<times> string) option" where
  "precondition ss injection =
     (if injection then Some (OAbstain, ''prompt-injection'', ''Untrusted support contained instruction-like content.'')
      else if ss = [] then Some (OAbstain, ''missing-support'', ''No authorized support was available.'')
      else if list_ex (\<lambda>s. sp_status s = Missing) ss
        then Some (OAbstain, ''missing-support'', ''A required current support record is missing.'')
      else if list_ex (\<lambda>s. sp_status s = Conflicting) ss
        then Some (OExternal, ''conflicting-support'', ''Conflicting support requires accountable external review.'')
      else if list_ex (\<lambda>s. sp_status s \<noteq> Active) ss
        then Some (OAbstain, ''inactive-support'', ''Required support is missing, restricted, stale, revoked, or superseded.'')
      else None)"

definition totalContent :: "assistant_support list \<Rightarrow> int" where
  "totalContent ss = foldl (\<lambda>total s. total + int (length (sp_content s))) 0 ss"

definition citedActiveClaims :: "assistant_support list \<Rightarrow> assistant_claim list" where
  "citedActiveClaims ss = number_claims 1 (map (\<lambda>s. \<lparr>cl_claim_id = [], cl_text = sp_content s, cl_citation_ids = [sp_support_id s]\<rparr>)
     (filter (\<lambda>s. sp_status s = Active) ss))"

subsection \<open>Finding an answer\<close>

record assistant_model_input =
  mx_question :: string
  mx_purposeId :: string
  mx_asOf :: int
  mx_session :: actor_session
  mx_supports :: "assistant_support list"

record answer_env =
  ax_registry :: tool_registry
  ax_authorize :: authorization
  ax_model :: "assistant_model_input \<Rightarrow> assistant_error + assistant_model_result"
  ax_request_uuid :: string
  ax_event_uuid :: string
  ax_recordedAt :: int
  ax_createdAt :: int

record gathered =
  ga_supports :: "assistant_support list"
  ga_toolNames :: "assistant_tool list"
  ga_codes :: "string list"
  ga_result :: assistant_model_result
  ga_source :: decision_source

type_synonym finding = "string list \<times> assistant_model_result \<times> decision_source"

definition consult_model ::
  "screening \<Rightarrow> answer_env \<Rightarrow> assistant_query \<Rightarrow> actor_session \<Rightarrow> assistant_support list \<Rightarrow> assistant_error + finding" where
  "consult_model sc env q s ss =
     rbind (ax_model env \<lparr>mx_question = aq_question q, mx_purposeId = aq_purpose_id q, mx_asOf = aq_as_of q, mx_session = s,
        mx_supports = ss\<rparr>) (\<lambda>result.
     rbind (releaseAssistantCandidateWithRecordedDecision sc (am_candidate result) ss (aq_question q) True) (\<lambda>release.
     Inr (if re_codes release \<noteq> [] then
            (re_codes release, deterministicResult OAbstain ''The generated response failed support validation.'' [], ValidationFallback)
          else ([], result\<lparr>am_candidate := re_candidate release\<rparr>,
            case re_resolution release of DConsistent d \<Rightarrow> TypedRecord | _ \<Rightarrow> ModelCandidate))))"

text \<open>The controls before the model is consulted, with the code and the answer of the one that refuses.\<close>

definition control_finding :: "int \<Rightarrow> assistant_query \<Rightarrow> assistant_support list \<Rightarrow> (string \<times> assistant_model_result) option" where
  "control_finding maxContext q ss =
     (case precondition ss (list_ex (looksLikeEmbeddedInstruction \<circ> sp_content) ss) of
        Some (outcome, code, message) \<Rightarrow> Some (code, deterministicResult outcome message [])
      | None \<Rightarrow>
        if totalContent ss > maxContext then
          Some (''context-limit'', deterministicResult OAbstain ''Authorized support exceeds the bounded model context.'' [])
        else if looksLikeAuthorityEscalation (aq_question q) then
          Some (''authority-boundary'', deterministicResult OAbstain ''The request crosses the read-only assistant authority boundary.'' [])
        else if isExternalDecisionRequest (aq_question q) then
          Some (''external-decision-boundary'', deterministicResult OExternal
            ''The request requires a decision by an accountable external authority.'' (citedActiveClaims ss))
        else if aq_mode q = ExplainRecordedDecision \<and> resolveActiveRecordedDecision ss = DAbsent then
          Some (''missing-recorded-decision'', deterministicResult OAbstain ''No active recorded decision is available for explanation.'' [])
        else if resolveActiveRecordedDecision ss = DConflicting then
          Some (''conflicting-recorded-decision'', deterministic_result OExternal
            ''Active supports contain conflicting recorded decisions and require accountable external review.'' []
            [''conflicting-evidence'', ''external-decision-required''])
        else None)"

definition find_answer ::
  "screening \<Rightarrow> int \<Rightarrow> answer_env \<Rightarrow> assistant_query \<Rightarrow> actor_session \<Rightarrow> assistant_support list \<Rightarrow> assistant_error + finding" where
  "find_answer sc maxContext env q s ss = (case control_finding maxContext q ss of
     Some (code, result) \<Rightarrow> Inr ([code], result, DeterministicControl) | None \<Rightarrow> consult_model sc env q s ss)"

fun recovery_code :: "assistant_error \<Rightarrow> string option" where
  "recovery_code ProtectedRetrievalError = Some ''retrieval-verification-failed''"
| "recovery_code AssistantSupportValidationError = Some ''invalid-support''"
| "recovery_code ToolAuthorizationError = Some ''access-denied''"
| "recovery_code _ = None"

definition recover :: "assistant_support list \<Rightarrow> assistant_tool list \<Rightarrow> assistant_error \<Rightarrow> assistant_error + gathered" where
  "recover ss names e = (case recovery_code e of None \<Rightarrow> Inl e | Some code \<Rightarrow>
     Inr \<lparr>ga_supports = ss, ga_toolNames = names, ga_codes = [code],
       ga_result = deterministicResult OAbstain ''Authorized support is unavailable for this request.'' [], ga_source = DeterministicControl\<rparr>)"

definition gather ::
  "screening \<Rightarrow> int \<Rightarrow> answer_env \<Rightarrow> assistant_query \<Rightarrow> actor_session \<Rightarrow> assistant_error + gathered" where
  "gather sc maxContext env q s =
     (case execute_tools (sc_lib sc) (ax_registry env) (ax_authorize env) q s of
        Inl e \<Rightarrow> recover [] [] e
      | Inr (x, names) \<Rightarrow> let ss = supportsForQueryMode (tx_supports x) (aq_mode q) in
          (case find_answer sc maxContext env q s ss of
             Inl e \<Rightarrow> recover ss names e
           | Inr (codes, result, source) \<Rightarrow>
               Inr \<lparr>ga_supports = ss, ga_toolNames = names, ga_codes = codes, ga_result = result, ga_source = source\<rparr>))"

subsection \<open>Recording and returning it\<close>

datatype response_state = Completed | Refused

record request_record =
  qr_request_id :: string
  qr_request_version :: int
  qr_requesting_actor_id :: string
  qr_requesting_organization_id :: string
  qr_question_metadata :: "string list"
  qr_result_metadata :: "string list"
  qr_response_state :: response_state
  qr_validation_event_ids :: "string list"
  qr_audit_event_id :: string
  qr_created_at :: int

definition assistantRequest_ok :: "request_record \<Rightarrow> bool" where
  "assistantRequest_ok r = (urn_ok ''assistant'' (qr_request_id r) \<and> positiveSafeInteger_ok (qr_request_version r)
     \<and> urn_ok ''actor'' (qr_requesting_actor_id r) \<and> urn_ok ''org'' (qr_requesting_organization_id r)
     \<and> array_ok shortText_ok 0 64 (qr_question_metadata r) \<and> array_ok shortText_ok 0 64 (qr_result_metadata r)
     \<and> array_ok (urn_ok ''event'') 0 256 (qr_validation_event_ids r) \<and> urn_ok ''event'' (qr_audit_event_id r)
     \<and> timestamp_ok (qr_created_at r))"

type_synonym request_store = "(string, request_record) jmap"

definition request_put :: "request_record \<Rightarrow> request_store \<Rightarrow> assistant_error + request_store" where
  "request_put r m = rbind (parse_with assistantRequest_ok SchemaRejected r) (\<lambda>_.
     if jm_has m (qr_request_id r) then Inl OtherError else Inr (jm_set (qr_request_id r) r m))"

definition request_get :: "request_store \<Rightarrow> string \<Rightarrow> assistant_error + request_record" where
  "request_get m requestId = from_option OtherError (jm_get m requestId)"

record assistant_state =
  st_events :: "audit_event list"
  st_requests :: request_store

text \<open>A support without its content.\<close>

record citation =
  ct_support_id :: string
  ct_resource_id :: string
  ct_resource_version :: int
  ct_issuer_organization_id :: string
  ct_custodian_organization_id :: string
  ct_as_of :: int
  ct_status :: support_state
  ct_commitment :: string
  ct_chain_reference :: "string option"
  ct_recorded_decision :: "recorded_decision option"

definition stripContent :: "assistant_support \<Rightarrow> citation" where
  "stripContent s = \<lparr>ct_support_id = sp_support_id s, ct_resource_id = sp_resource_id s, ct_resource_version = sp_resource_version s,
     ct_issuer_organization_id = sp_issuer_organization_id s, ct_custodian_organization_id = sp_custodian_organization_id s,
     ct_as_of = sp_as_of s, ct_status = sp_status s, ct_commitment = sp_commitment s, ct_chain_reference = sp_chain_reference s,
     ct_recorded_decision = sp_recorded_decision s\<rparr>"

datatype evidence_state = ActiveEvidence | DefectiveEvidence | NotEvaluated

record assistant_response =
  rp_request_id :: string
  rp_correlation_id :: string
  rp_outcome :: assistant_outcome
  rp_decision_code :: "string option"
  rp_summary :: string
  rp_claims :: "assistant_claim list"
  rp_citations :: "citation list"
  rp_as_of :: int
  rp_evidence_state :: evidence_state
  rp_warnings :: "string list"
  rp_missing_requirements :: "string list"
  rp_reason_codes :: "string list"
  rp_validation_passed :: bool
  rp_validation_codes :: "string list"
  rp_provider :: string
  rp_model :: string
  rp_response_id :: "string option"
  rp_input_tokens :: "int option"
  rp_output_tokens :: "int option"
  rp_audit_event_id :: string

fun mode_text :: "query_mode \<Rightarrow> string" where
  "mode_text ExplainRecords = ''explain_records''"
| "mode_text ExplainRecordedDecision = ''explain_recorded_decision''"

fun source_text :: "decision_source \<Rightarrow> string" where
  "source_text TypedRecord = ''typed-record''"
| "source_text DeterministicControl = ''deterministic-control''"
| "source_text ModelCandidate = ''model-candidate''"
| "source_text ValidationFallback = ''validation-fallback''"

definition request_id_of :: "answer_env \<Rightarrow> string" where
  "request_id_of env = ''urn:evllm:assistant:'' @ ax_request_uuid env"

definition audit_input_of ::
  "answer_env \<Rightarrow> assistant_query \<Rightarrow> actor_session \<Rightarrow> string \<Rightarrow> gathered \<Rightarrow> audit_input" where
  "audit_input_of env q s correlationId g = (let c = am_candidate (ga_result g) in
     \<lparr>ai_requestId = request_id_of env, ai_correlationId = correlationId, ai_session = s, ai_purposeId = aq_purpose_id q,
      ai_queryMode = aq_mode q, ai_question = aq_question q, ai_toolNames = ga_toolNames g,
      ai_supportIds = map sp_support_id (ga_supports g), ai_model = am_model (ga_result g), ai_provider = am_provider (ga_result g),
      ai_outcome = ca_outcome c, ai_decisionCode = ca_decision_code c, ai_decisionSource = ga_source g,
      ai_references = activeRecordedDecisionSupportReferences (ga_supports g), ai_validationCodes = ga_codes g,
      ai_recordedAt = ax_recordedAt env\<rparr>)"

definition request_of ::
  "assistant_lib \<Rightarrow> answer_env \<Rightarrow> assistant_query \<Rightarrow> actor_session \<Rightarrow> gathered \<Rightarrow> string \<Rightarrow> request_record" where
  "request_of al env q s g eventId = (let c = am_candidate (ga_result g) in
     \<lparr>qr_request_id = request_id_of env, qr_request_version = 1, qr_requesting_actor_id = id_actorId (as_identity s),
      qr_requesting_organization_id = id_organizationId (as_identity s),
      qr_question_metadata = [ad_text (al_audit al) (aq_question q), aq_purpose_id q, ''query-mode:'' @ mode_text (aq_mode q)]
        @ map tool_text (ga_toolNames g),
      qr_result_metadata = [outcome_text (ca_outcome c),
        ''decision-code:'' @ (case ca_decision_code c of None \<Rightarrow> ''none'' | Some d \<Rightarrow> d),
        ''decision-source:'' @ source_text (ga_source g), am_provider (ga_result g), am_model (ga_result g)],
      qr_response_state = (if ca_outcome c = OAnswer then Completed else Refused),
      qr_validation_event_ids = [eventId], qr_audit_event_id = eventId, qr_created_at = ax_createdAt env\<rparr>)"

definition response_of ::
  "answer_env \<Rightarrow> assistant_query \<Rightarrow> string \<Rightarrow> gathered \<Rightarrow> string \<Rightarrow> assistant_response" where
  "response_of env q correlationId g eventId = (let c = am_candidate (ga_result g) in
     \<lparr>rp_request_id = request_id_of env, rp_correlation_id = correlationId, rp_outcome = ca_outcome c,
      rp_decision_code = ca_decision_code c, rp_summary = ca_summary c, rp_claims = ca_claims c,
      rp_citations = map stripContent (filter (\<lambda>s. list_ex (\<lambda>cl. sp_support_id s \<in> set (cl_citation_ids cl)) (ca_claims c)) (ga_supports g)),
      rp_as_of = aq_as_of q,
      rp_evidence_state = (if ga_supports g = [] then NotEvaluated
        else if list_all (\<lambda>s. sp_status s = Active) (ga_supports g) then ActiveEvidence else DefectiveEvidence),
      rp_warnings = ca_warnings c, rp_missing_requirements = ca_missing_requirements c, rp_reason_codes = ca_reason_codes c,
      rp_validation_passed = (ga_codes g = []), rp_validation_codes = ga_codes g,
      rp_provider = am_provider (ga_result g), rp_model = am_model (ga_result g), rp_response_id = am_responseId (ga_result g),
      rp_input_tokens = am_inputTokens (ga_result g), rp_output_tokens = am_outputTokens (ga_result g),
      rp_audit_event_id = eventId\<rparr>)"

definition commit ::
  "assistant_lib \<Rightarrow> answer_env \<Rightarrow> assistant_query \<Rightarrow> actor_session \<Rightarrow> string \<Rightarrow> gathered \<Rightarrow> assistant_state
    \<Rightarrow> (assistant_error + assistant_response) \<times> assistant_state" where
  "commit al env q s correlationId g st =
     (case audit_append (al_audit al) (al_localeLe al) (ax_event_uuid env) (st_events st) (audit_input_of env q s correlationId g) of
        (event, events) \<Rightarrow> let eventId = ev_event_id (au_unsigned event) in
        (case request_put (request_of al env q s g eventId) (st_requests st) of
           Inl e \<Rightarrow> (Inl e, st\<lparr>st_events := events\<rparr>)
         | Inr requests \<Rightarrow> (Inr (response_of env q correlationId g eventId), \<lparr>st_events = events, st_requests = requests\<rparr>)))"

definition answerOnce ::
  "screening \<Rightarrow> int \<Rightarrow> answer_env \<Rightarrow> assistant_query \<Rightarrow> actor_session \<Rightarrow> string \<Rightarrow> assistant_state
    \<Rightarrow> (assistant_error + assistant_response) \<times> assistant_state" where
  "answerOnce sc maxContext env q s correlationId st =
     (case gather sc maxContext env q s of Inl e \<Rightarrow> (Inl e, st) | Inr g \<Rightarrow> commit (sc_lib sc) env q s correlationId g st)"

subsection \<open>Idempotent answers\<close>

definition answer_key :: "actor_session \<Rightarrow> string \<Rightarrow> string" where
  "answer_key s idempotencyKey = join [CHR 0x00] [id_actorId (as_identity s), id_organizationId (as_identity s),
     id_credentialId (as_identity s), idempotencyKey]"

definition request_json :: "tool_request \<Rightarrow> json" where
  "request_json r = JObj [(''tool'', JStr (tool_text (tr_tool r))), (''arguments'', JObj (tr_arguments r))]"

definition query_json :: "assistant_query \<Rightarrow> json" where
  "query_json q = JObj ([(''question'', JStr (aq_question q)), (''mode'', JStr (mode_text (aq_mode q))),
     (''purpose_id'', JStr (aq_purpose_id q)), (''as_of'', JNum (aq_as_of q))]
     @ (case aq_idempotency_key q of None \<Rightarrow> [] | Some k \<Rightarrow> [(''idempotency_key'', JStr k)])
     @ [(''requests'', JArr (map request_json (aq_requests q)))])"

definition fingerprint_of :: "assistant_lib \<Rightarrow> assistant_query \<Rightarrow> actor_session \<Rightarrow> string" where
  "fingerprint_of al q s = al_digest al (canonicalJsonBytes (al_codec al) (JObj [(''query'', query_json q),
     (''actor_id'', JStr (id_actorId (as_identity s))), (''organization_id'', JStr (id_organizationId (as_identity s))),
     (''credential_id'', JStr (id_credentialId (as_identity s)))]))"

datatype promise_status = Running | Fulfilled assistant_response | Rejected assistant_error

record promise =
  pm_query :: assistant_query
  pm_session :: actor_session
  pm_correlationId :: string
  pm_key :: "string option"
  pm_fingerprint :: string
  pm_status :: promise_status

text \<open>A call that waits for an answer, started by itself or by an earlier call with its key.\<close>

record caller =
  wc_key :: "string option"
  wc_fingerprint :: string
  wc_promise :: nat
  wc_starter :: bool

record assistant_world =
  aw_state :: assistant_state
  aw_answers :: "(string, string \<times> nat) jmap"
  aw_promises :: "promise list"
  aw_waiting :: "caller list"
  aw_replies :: "(caller \<times> (assistant_error + assistant_response)) list"

definition no_answers :: assistant_world where
  "no_answers = \<lparr>aw_state = \<lparr>st_events = [], st_requests = []\<rparr>, aw_answers = [], aw_promises = [], aw_waiting = [], aw_replies = []\<rparr>"

definition start_answer ::
  "assistant_query \<Rightarrow> actor_session \<Rightarrow> string \<Rightarrow> string option \<Rightarrow> string \<Rightarrow> assistant_world \<Rightarrow> assistant_world" where
  "start_answer q s correlationId key fingerprint w = (let n = length (aw_promises w) in
     w\<lparr>aw_promises := aw_promises w @ [\<lparr>pm_query = q, pm_session = s, pm_correlationId = correlationId, pm_key = key,
          pm_fingerprint = fingerprint, pm_status = Running\<rparr>],
       aw_waiting := aw_waiting w @ [\<lparr>wc_key = key, wc_fingerprint = fingerprint, wc_promise = n, wc_starter = True\<rparr>],
       aw_answers := (case key of None \<Rightarrow> aw_answers w | Some k \<Rightarrow> jm_set k (fingerprint, n) (aw_answers w))\<rparr>)"

text \<open>\<open>answer\<close> until it awaits: the call is refused, waits for an answer under way, or starts one.\<close>

definition answer_begin ::
  "assistant_lib \<Rightarrow> raw_query \<Rightarrow> actor_session \<Rightarrow> string \<Rightarrow> assistant_world \<Rightarrow> assistant_error + assistant_world" where
  "answer_begin al raw s correlationId w =
     rbind (parse_query al raw) (\<lambda>q.
     let fingerprint = fingerprint_of al q s in
     case aq_idempotency_key q of
       None \<Rightarrow> Inr (start_answer q s correlationId None fingerprint w)
     | Some k \<Rightarrow> (let key = answer_key s k in
         case jm_get (aw_answers w) key of
           Some (f, n) \<Rightarrow> if f \<noteq> fingerprint then Inl AssistantIdempotencyError
             else Inr (w\<lparr>aw_waiting := aw_waiting w @ [\<lparr>wc_key = Some key, wc_fingerprint = fingerprint, wc_promise = n, wc_starter = False\<rparr>]\<rparr>)
         | None \<Rightarrow> Inr (start_answer q s correlationId (Some key) fingerprint w)))"

definition finish_promise :: "screening \<Rightarrow> int \<Rightarrow> nat \<Rightarrow> answer_env \<Rightarrow> assistant_world \<Rightarrow> assistant_world" where
  "finish_promise sc maxContext n env w = (let p = aw_promises w ! n in
     case answerOnce sc maxContext env (pm_query p) (pm_session p) (pm_correlationId p) (aw_state w) of
       (r, st) \<Rightarrow> w\<lparr>aw_state := st, aw_promises := (aw_promises w)[n := p\<lparr>pm_status :=
         (case r of Inl e \<Rightarrow> Rejected e | Inr x \<Rightarrow> Fulfilled x)\<rparr>]\<rparr>)"

text \<open>A waiting call gets its result; when the answer it started was rejected, it removes the entry of that answer.\<close>

definition forget_answer :: "caller \<Rightarrow> assistant_world \<Rightarrow> assistant_world" where
  "forget_answer c w = (case wc_key c of None \<Rightarrow> w | Some k \<Rightarrow>
     if wc_starter c \<and> map_option snd (jm_get (aw_answers w) k) = Some (wc_promise c) then w\<lparr>aw_answers := jm_del k (aw_answers w)\<rparr> else w)"

definition deliver :: "nat \<Rightarrow> assistant_world \<Rightarrow> assistant_world" where
  "deliver i w = (let c = aw_waiting w ! i; v = w\<lparr>aw_waiting := take i (aw_waiting w) @ drop (Suc i) (aw_waiting w)\<rparr> in
     case pm_status (aw_promises w ! wc_promise c) of
       Running \<Rightarrow> w
     | Fulfilled r \<Rightarrow> v\<lparr>aw_replies := aw_replies w @ [(c, Inr r)]\<rparr>
     | Rejected e \<Rightarrow> forget_answer c (v\<lparr>aw_replies := aw_replies w @ [(c, Inl e)]\<rparr>))"

datatype assistant_op = Ask raw_query actor_session string | Finish nat answer_env | Deliver nat

fun assistant_step :: "screening \<Rightarrow> int \<Rightarrow> assistant_world \<Rightarrow> assistant_op \<Rightarrow> assistant_world" where
  "assistant_step sc maxContext w (Ask raw s correlationId) = settle w (answer_begin (sc_lib sc) raw s correlationId w)"
| "assistant_step sc maxContext w (Finish n env) =
     (if n < length (aw_promises w) \<and> pm_status (aw_promises w ! n) = Running then finish_promise sc maxContext n env w else w)"
| "assistant_step sc maxContext w (Deliver i) = (if i < length (aw_waiting w) then deliver i w else w)"

end
