(* ===== verification/Assistant_Lemmas.thy ===== *)
theory Assistant_Lemmas
  imports Assistant_Service
begin

text \<open>
  What the screening of a candidate and the controls of the service establish: a recorded decision of a well-formed support can
  be rendered and its rendering names its code; a candidate without validation codes has only claims that cite active supports
  which the analysis of prose accepts together; and a finding is either a refusal by a control or a screened candidate.
\<close>

subsection \<open>Rendering a well-formed decision\<close>

text \<open>A pattern whose symbols are all in a class matches only texts over the class.\<close>

primrec over :: "(char \<Rightarrow> bool) \<Rightarrow> pattern \<Rightarrow> bool" where
  "over C PEmpty = True"
| "over C (PSym p) = (\<forall>c. p c \<longrightarrow> C c)"
| "over C PStart = True"
| "over C PEnd = True"
| "over C PBound = True"
| "over C (PSeq p q) = (over C p \<and> over C q)"
| "over C (PAlt p q) = (over C p \<and> over C q)"
| "over C (PRep p lo hi) = over C p"

lemma over_matches:
  "over C p \<Longrightarrow> (i, j) \<in> pattern_rel s p \<Longrightarrow> i \<le> k \<Longrightarrow> k < j \<Longrightarrow> C (s ! k)"
proof (induction p arbitrary: i j)
  case (PSeq p q)
  then show ?case by (force simp: not_le [symmetric])
next
  case (PRep p lo hi)
  have "(i, j) \<in> pattern_rel s p ^^ n \<Longrightarrow> C (s ! k)" for n
    using PRep.prems(3)
  proof (induction n arbitrary: i)
    case 0
    then show ?case using PRep.prems(4) by simp
  next
    case (Suc n)
    then obtain l where l: "(i, l) \<in> pattern_rel s p" "(l, j) \<in> pattern_rel s p ^^ n" unfolding relpow_first by blast
    show ?case
    proof (cases "k < l")
      case True
      then show ?thesis using PRep.IH [of i l] l Suc.prems PRep.prems(1) by simp
    qed (use Suc.IH [of l] l in simp)
  qed
  then show ?case using PRep.prems(2) by auto
qed (auto simp: le_less_Suc_eq)

lemma over_words [simp]: "over C (lit w) = list_all C w"
  by (induction w) (auto simp: lit_def)

definition code_char :: "char \<Rightarrow> bool" where
  "code_char c = (c \<in> set (lower_alnum @ ''-''))"

lemma over_slug: "over code_char slug"
  by (auto simp: slug_def seqs_def chars_def code_char_def)

lemma rel_seqs: "pattern_rel s (seqs []) = {(i, j). i = j}"
  "pattern_rel s (seqs (p # ps)) = pattern_rel s p O pattern_rel s (seqs ps)"
  by (simp_all add: seqs_def)

lemma slug_start:
  assumes "(i, j) \<in> pattern_rel s slug"
  shows "i < length s \<and> s ! i \<in> set lower_alnum \<and> i < j"
proof -
  obtain k n where k: "(i, k) \<in> pattern_rel s (chars lower_alnum) ^^ Suc n"
      and kj: "(k, j) \<in> pattern_rel s (PRep (PSeq (lit ''-'') (PRep (chars lower_alnum) 1 None)) 0 None)"
    using assms by (auto simp: slug_def rel_seqs Suc_le_eq gr0_conv_Suc simp del: relpow.simps pattern_rel.simps(6))
  obtain l where l: "(i, l) \<in> pattern_rel s (chars lower_alnum)" "(l, k) \<in> pattern_rel s (chars lower_alnum) ^^ n"
    using k unfolding relpow_first by blast
  then have i: "i < length s" "s ! i \<in> set lower_alnum" "l = Suc i" by (auto simp: chars_def)
  then have "l \<le> k" "k \<le> length s" using pattern.forward_power [of l k n s "chars lower_alnum"] l by auto
  moreover have "k \<le> j" using pattern_rel_forward [OF kj] calculation by simp
  ultimately show ?thesis using i by simp
qed

lemma words_match:
  assumes "(i, j) \<in> pattern_rel s (words ws)" and "i \<le> length s"
  shows "\<exists>w\<in>set ws. slice i j s = w \<and> j = i + length w"
proof -
  have "(i, j) \<in> pattern_rel s (alts ps) \<Longrightarrow> \<exists>p\<in>set ps. (i, j) \<in> pattern_rel s p" for ps
  proof (induction ps)
    case (Cons p ps)
    then show ?case by (cases ps) (auto simp: alts_def)
  qed (simp add: alts_def)
  then obtain w where "w \<in> set ws" "(i, j) \<in> pattern_rel s (lit w)" using assms by (fastforce simp: words_def)
  then show ?thesis by (intro bexI [of _ w]) (auto simp: slice_def)
qed

lemma whole_iff: "whole ps s \<longleftrightarrow> (0, length s) \<in> pattern_rel s (seqs ps)"
proof -
  have split: "pattern_rel s (seqs (ps @ [PEnd])) = pattern_rel s (seqs ps) O pattern_rel s PEnd" for ps
    by (induction ps) (auto simp: seqs_def O_assoc)
  show ?thesis by (auto simp: whole_def pattern_test_iff rel_seqs(2) split)
qed

lemma code_text_lower: "list_all code_char s \<Longrightarrow> toLowerCase s = s"
proof -
  have "list_all (\<lambda>c. to_lower c = c) (lower_alnum @ ''-'')" by code_simp
  then have lower: "to_lower c = c" if "code_char c" for c using that unfolding code_char_def list_all_iff by blast
  show "list_all code_char s \<Longrightarrow> toLowerCase s = s"
    unfolding toLowerCase_def list_all_iff using lower by (intro map_idI) blast
qed

lemma decision_code_chars:
  assumes "assistantDecisionCode_ok code"
  shows "list_all code_char code \<and> code \<noteq> [] \<and> hd code \<noteq> CHR ''-''"
proof -
  have m: "(0, length code) \<in> pattern_rel code slug"
    using assms by (auto simp: assistantDecisionCode_ok_def whole_iff rel_seqs)
  have "CHR ''-'' \<notin> set lower_alnum" by (simp add: lower_alnum_def)
  then have "code \<noteq> [] \<and> hd code \<noteq> CHR ''-''" using slug_start [OF m] by (cases code) auto
  then show ?thesis using over_matches [OF over_slug m] by (auto simp: list_all_length)
qed

lemma first_case_hit: "x \<in> set xs \<Longrightarrow> x \<noteq> None \<Longrightarrow> \<exists>y. first_case xs = Some y \<and> Some y \<in> set xs"
  by (induction xs rule: first_case.induct) auto

definition answer_suffixes :: "string list" where
  "answer_suffixes = [''preferred'', ''recommended'', ''selected'', ''permitted'', ''allowed'', ''authorized'', ''applicable'']"

lemma supported_code_shape:
  assumes "isSupportedAnswerDecisionCode code"
  shows "(\<exists>x. code = ''eligible-for-'' @ x \<and> x \<noteq> []) \<or> (\<exists>x. \<exists>w\<in>set answer_suffixes. code = x @ ''-'' @ w)"
proof -
  consider "whole [lit ''eligible-for-'', slug] code" | "whole [slug, lit ''-'', words answer_suffixes] code"
    using assms by (auto simp: isSupportedAnswerDecisionCode_def answer_suffixes_def)
  then show ?thesis
  proof cases
    case 1
    then have "(length ''eligible-for-'', length code) \<in> pattern_rel code slug" "take (length ''eligible-for-'') code = ''eligible-for-''"
      by (auto simp: whole_iff rel_seqs)
    then have "code = ''eligible-for-'' @ drop (length ''eligible-for-'') code" "drop (length ''eligible-for-'') code \<noteq> []"
      using slug_start [of "length ''eligible-for-''" "length code" code] by (metis append_take_drop_id, auto)
    then show ?thesis by blast
  next
    case 2
    then obtain a where a: "take 1 (drop a code) = ''-''" "(a + 1, length code) \<in> pattern_rel code (words answer_suffixes)" "a < length code"
      by (auto simp: whole_iff rel_seqs)
    then obtain w where "w \<in> set answer_suffixes" "slice (a + 1) (length code) code = w" using words_match [OF a(2)] by auto
    moreover have "code = take a code @ take 1 (drop a code) @ drop (a + 1) code"
      by (metis append_take_drop_id drop_drop add.commute)
    ultimately have "w \<in> set answer_suffixes" "code = take a code @ ''-'' @ w" using a by (auto simp: slice_def)
    then show ?thesis by blast
  qed
qed

lemma suffix_target_some:
  assumes "suffix_target rel w n = Some y" and "n \<noteq> []" and "hd n \<noteq> CHR ''-''"
  shows "y \<noteq> None"
  using assms by (cases n) (auto simp: suffix_target_def ends_with_def Let_def split: if_splits)

lemma in_expectation_cases:
  "w \<in> set answer_suffixes \<Longrightarrow> \<exists>rel. suffix_target rel w n \<in> set (expectation_cases n)"
  "eligible_target n \<in> set (expectation_cases n)"
  by (auto simp: expectation_cases_def answer_suffixes_def)

lemma expectation_case:
  "x \<in> set (expectation_cases n) \<Longrightarrow> x = eligible_target n \<or> (\<exists>rel w. x = suffix_target rel w n)"
  by (auto simp: expectation_cases_def)

lemma suffix_target_hit: "suffix_target rel w (x @ ''-'' @ w) \<noteq> None"
  by (simp add: suffix_target_def ends_with_def Let_def)

lemma eligible_target_some:
  assumes "isSupportedAnswerDecisionCode code"
  shows "eligible_target code \<noteq> Some None"
proof
  assume "eligible_target code = Some None"
  then have code: "code = ''eligible-for-''" by (auto simp: eligible_target_def starts_with_def Let_def split: if_splits)
  have "last (x @ ''-'' @ w) \<noteq> last ''eligible-for-''" if "w \<in> set answer_suffixes" for x w
    using that by (auto simp: answer_suffixes_def)
  moreover obtain x w where "w \<in> set answer_suffixes" "code = x @ ''-'' @ w"
    using supported_code_shape [OF assms] code by auto
  ultimately show False using code by metis
qed

lemma expectation_exists:
  assumes "assistantDecisionCode_ok code" and "isSupportedAnswerDecisionCode code"
  shows "\<exists>e. answerDecisionExpectation code = Some e"
proof -
  have chars: "list_all code_char code" "code \<noteq> []" "hd code \<noteq> CHR ''-''" using decision_code_chars [OF assms(1)] by auto
  then have low: "toLowerCase code = code" by (simp add: code_text_lower)
  have "eligible_target (''eligible-for-'' @ x) \<noteq> None" for x by (simp add: eligible_target_def starts_with_def Let_def)
  then obtain x where "x \<in> set (expectation_cases code)" "x \<noteq> None"
    using supported_code_shape [OF assms(2)] in_expectation_cases suffix_target_hit by metis
  then obtain y where y: "first_case (expectation_cases code) = Some y" "Some y \<in> set (expectation_cases code)"
    using first_case_hit by blast
  have "y \<noteq> None"
    using expectation_case [OF y(2)] suffix_target_some [OF _ chars(2,3)] eligible_target_some [OF assms(2)] by metis
  then show ?thesis using y(1) low by (auto simp: answerDecisionExpectation_def)
qed

text \<open>The statement of a decision that satisfies its schema exists, and names the decision's code.\<close>

lemma statement_exists:
  assumes "recordedDecision_ok d"
  shows "\<exists>p. recordedDecisionStatement d = Inr (p @ '' '' @ rd_code d @ ''.'')"
proof (cases "rd_outcome d")
  case OAnswer
  then obtain e where "answerDecisionExpectation (rd_code d) = Some e"
    using assms expectation_exists [of "rd_code d"] by (auto simp: recordedDecision_ok_def)
  then show ?thesis using OAnswer by (cases e) (auto simp: recordedDecisionStatement_def Let_def)
qed (auto simp: recordedDecisionStatement_def Let_def)

lemma names_its_code: "containsExactDecisionCode (p @ '' '' @ code @ ''.'') code"
proof -
  let ?s = "toLowerCase (p @ '' '' @ code @ ''.'')" and ?i = "length p"
  have s: "?s = toLowerCase p @ '' '' @ toLowerCase code @ ''.''" by (simp add: toLowerCase_def to_lower_def lower_table_def)
  have len: "length (toLowerCase t) = length t" for t by (simp add: toLowerCase_def)
  have "(?i, ?i + 1) \<in> pattern_rel ?s (PAlt PStart (PSym (\<lambda>c. c \<notin> set (lower_alnum @ ''-''))))"
    unfolding s by (simp add: nth_append len lower_alnum_def)
  moreover have "(?i + 1, ?i + 1 + length code) \<in> pattern_rel ?s (lit (toLowerCase code))"
    unfolding s by (simp add: len)
  moreover have "(?i + 1 + length code, ?i + 2 + length code) \<in> pattern_rel ?s (PAlt PEnd (PSym (\<lambda>c. c \<notin> set (lower_alnum @ ''-''))))"
    unfolding s by (simp add: nth_append len lower_alnum_def)
  moreover have "?i \<le> length ?s" unfolding s by (simp add: len)
  ultimately show ?thesis unfolding containsExactDecisionCode_def test_i_def pattern_test_iff rel_seqs by blast
qed

subsection \<open>Candidates without validation codes\<close>

lemma code_list_Nil [simp]: "code_list xs = [] \<longleftrightarrow> xs = []"
  by (metis code_list_def set_js_sort set_js_set set_empty)

lemma code_if_Nil [simp]: "code_if b c = [] \<longleftrightarrow> \<not> b"
  by (simp add: code_if_def)

lemma map_filter_all:
  "length (List.map_filter f xs) = length xs \<Longrightarrow> map f xs = map Some (List.map_filter f xs)"
proof (induction xs)
  case (Cons x xs)
  have "length (List.map_filter f xs) \<le> length xs" by (simp add: map_filter_def)
  then show ?case using Cons by (cases "f x") (auto simp: map_filter_simps)
qed (simp add: map_filter_simps)

lemma active_citation_Some:
  assumes "active_citation ss i = Some p"
  shows "p \<in> set ss \<and> sp_support_id p = i \<and> sp_status p = Active"
proof -
  have "map_of (rev (map (\<lambda>s. (sp_support_id s, s)) ss)) i = Some p" "sp_status p = Active"
    using assms by (auto simp: active_citation_def cited_support_def split: option.splits if_splits)
  then show ?thesis using map_of_SomeD by fastforce
qed

text \<open>A claim that cites supports, all of them active ones of the query, which together carry its text.\<close>

definition claim_supported :: "prose \<Rightarrow> assistant_support list \<Rightarrow> assistant_claim \<Rightarrow> bool" where
  "claim_supported ps ss claim = (cl_citation_ids claim \<noteq> [] \<and> (\<exists>cited texts. set cited \<subseteq> set ss
     \<and> map sp_support_id cited = js_set (cl_citation_ids claim) \<and> (\<forall>p\<in>set cited. sp_status p = Active)
     \<and> rmap support_text cited = Inr texts \<and> ps_jointSupport ps (cl_text claim) texts True))"

lemma valid_claim_supported:
  assumes "validateAssistantClaim ps ss claim = Inr []"
  shows "claim_supported ps ss claim"
proof -
  let ?ids = "js_set (cl_citation_ids claim)" and ?cited = "List.map_filter (active_citation ss) (js_set (cl_citation_ids claim))"
  have ids: "?ids \<noteq> []" using assms by (auto simp: validateAssistantClaim_def Let_def)
  have all: "length ?cited = length ?ids"
  proof (rule ccontr)
    assume "length ?cited \<noteq> length ?ids"
    then have "List.map_filter (\<lambda>i. if active_citation ss i = None then Some ''invalid-citation'' else None) ?ids = []"
      using assms ids by (auto simp: validateAssistantClaim_def Let_def)
    then have "\<forall>i\<in>set ?ids. active_citation ss i \<noteq> None" by (auto simp: map_filter_def filter_empty_conv split: if_splits)
    then have "filter (\<lambda>i. active_citation ss i \<noteq> None) ?ids = ?ids" by (simp add: filter_id_conv)
    then show False using \<open>length ?cited \<noteq> length ?ids\<close> by (simp add: map_filter_def)
  qed
  then obtain texts where texts: "rmap support_text ?cited = Inr texts" "ps_jointSupport ps (cl_text claim) texts True"
    using assms ids by (auto simp: validateAssistantClaim_def Let_def outcome_simps split: if_splits)
  have cited: "map (active_citation ss) ?ids = map Some ?cited" by (rule map_filter_all [OF all])
  have each: "active_citation ss (?ids ! k) = Some (?cited ! k)" if "k < length ?ids" for k
    using arg_cong [OF cited, of "\<lambda>xs. xs ! k"] that all by simp
  have "map sp_support_id ?cited = ?ids"
    using all each active_citation_Some by (intro nth_equalityI) fastforce+
  moreover have "p \<in> set ss \<and> sp_status p = Active" if "p \<in> set ?cited" for p
  proof -
    have "Some p \<in> set (map (active_citation ss) ?ids)" unfolding cited using that by simp
    then obtain i where "active_citation ss i = Some p" by force
    then show ?thesis using active_citation_Some by blast
  qed
  moreover have "cl_citation_ids claim \<noteq> []" using ids by (auto simp: js_set_def)
  ultimately show ?thesis using texts unfolding claim_supported_def by blast
qed

lemma valid_candidate:
  assumes "validateAssistantCandidate sc c ss question = Inr []"
  shows "(\<forall>claim\<in>set (ca_claims c). claim_supported (sc_prose sc) ss claim)"
    and "ca_outcome c = OAnswer \<Longrightarrow> ca_claims c \<noteq> []"
    and "resolveActiveRecordedDecision ss = DAbsent \<Longrightarrow> ca_decision_code c = None"
    and "reasonCodesAreCoherent c ss"
    and "\<not> containsSecretLikeOutput sc c"
    and "\<not> containsProhibitedSupportDisclosure sc c ss"
proof -
  obtain claimCodes where codes: "rmap (validateAssistantClaim (sc_prose sc) ss) (ca_claims c) = Inr claimCodes"
    and nil: "concat claimCodes = []" "\<not> (ca_outcome c = OAnswer \<and> ca_claims c = [])" "reasonCodesAreCoherent c ss"
      "disclosure_codes sc c ss = []"
    and dec: "\<exists>valid. decision_codes (sc_prose sc) c ss valid = []"
    using assms by (auto simp: validateAssistantCandidate_def outcome_simps Let_def)
  have "validateAssistantClaim (sc_prose sc) ss claim = Inr []" if member: "claim \<in> set (ca_claims c)" for claim
  proof -
    obtain k where k: "k < length (ca_claims c)" "ca_claims c ! k = claim" using member unfolding in_set_conv_nth by blast
    then have "claimCodes ! k \<in> set claimCodes" using rmap_Inr_length [OF codes] by simp
    then have "claimCodes ! k = []" using nil(1) by simp
    then show ?thesis using rmap_Inr_nth [OF codes k(1)] k(2) by simp
  qed
  then show "\<forall>claim\<in>set (ca_claims c). claim_supported (sc_prose sc) ss claim" using valid_claim_supported by blast
  show "ca_outcome c = OAnswer \<Longrightarrow> ca_claims c \<noteq> []" "reasonCodesAreCoherent c ss" using nil by auto
  show "\<not> containsSecretLikeOutput sc c" "\<not> containsProhibitedSupportDisclosure sc c ss"
    using nil(4) by (auto simp: disclosure_codes_def split: if_splits)
  show "resolveActiveRecordedDecision ss = DAbsent \<Longrightarrow> ca_decision_code c = None" using dec by (auto simp: decision_codes_def)
qed

subsection \<open>Recorded decisions\<close>

lemma js_set_distinct: "distinct xs \<Longrightarrow> js_set xs = xs"
  by (simp add: js_set_def distinct_remdups_id)

lemma normalize_twice [simp]: "normalizeRecordedDecision (normalizeRecordedDecision d) = normalizeRecordedDecision d"
proof -
  have "sorted_wrt str_le xs \<Longrightarrow> js_sort str_le xs = xs" for xs
  proof (induction xs)
    case (Cons x xs)
    then show ?case by (cases xs) (auto simp: js_sort_def)
  qed (simp add: js_sort_def)
  then have "js_sort str_le (js_set (js_sort str_le (js_set xs))) = js_sort str_le (js_set xs)" for xs
    by (simp add: js_set_distinct sorted_wrt_str_sort)
  then show ?thesis by (simp add: normalizeRecordedDecision_def)
qed

lemma active_decisions_iff:
  "d \<in> set (active_decisions ss) \<longleftrightarrow> (\<exists>p\<in>set ss. sp_status p = Active \<and> (\<exists>e. sp_recorded_decision p = Some e \<and> d = normalizeRecordedDecision e))"
  by (auto simp: active_decisions_def map_filter_def active_decision_def image_iff split: if_splits)

lemma resolve_absent: "resolveActiveRecordedDecision ss = DAbsent \<longleftrightarrow> active_decisions ss = []"
  by (simp add: resolveActiveRecordedDecision_def split: list.splits)

lemma resolve_consistent:
  "resolveActiveRecordedDecision ss = DConsistent d \<longleftrightarrow> d \<in> set (active_decisions ss) \<and> (\<forall>e\<in>set (active_decisions ss). e = d)"
proof -
  have norm: "normalizeRecordedDecision e = e" if "e \<in> set (active_decisions ss)" for e using that active_decisions_iff by auto
  show ?thesis
  proof (cases "active_decisions ss")
    case (Cons e es)
    then have "same_decision x e \<longleftrightarrow> x = e" if "x \<in> set (e # es)" for x
      using that norm [of x] norm [of e] by (simp add: same_decision_def)
    then have "list_ex (\<lambda>x. \<not> same_decision x e) (e # es) \<longleftrightarrow> (\<exists>x\<in>set (e # es). x \<noteq> e)"
      by (auto simp: list_ex_iff)
    then show ?thesis using Cons by (auto simp: resolveActiveRecordedDecision_def)
  qed (simp add: resolveActiveRecordedDecision_def)
qed

text \<open>Queries that explain records see no recorded decision.\<close>

lemma records_mode_absent: "mode = ExplainRecords \<Longrightarrow> resolveActiveRecordedDecision (supportsForQueryMode ss mode) = DAbsent"
  by (auto simp: resolve_absent supportsForQueryMode_def active_decisions_def map_filter_def active_decision_def filter_empty_conv)

end
