(* ===== verification/Assistant_Runs.thy ===== *)
theory Assistant_Runs
  imports Assistant_Lemmas
begin

text \<open>
  Whole answers and runs of the governed assistant. A finding is a refusal by a control, which the model cannot influence, or a
  candidate that passed the screening; a recorded decision is rendered by the service, whatever the model wrote. The invariant
  \<open>assistant_inv\<close> of interleaved calls ties every answer to its audit event, its stored request and its idempotency key.
\<close>

subsection \<open>Controls\<close>

definition controls_passed :: "int \<Rightarrow> assistant_query \<Rightarrow> assistant_support list \<Rightarrow> bool" where
  "controls_passed maxContext q ss = (ss \<noteq> [] \<and> (\<forall>p\<in>set ss. sp_status p = Active \<and> \<not> looksLikeEmbeddedInstruction (sp_content p))
     \<and> totalContent ss \<le> maxContext \<and> \<not> looksLikeAuthorityEscalation (aq_question q) \<and> \<not> isExternalDecisionRequest (aq_question q)
     \<and> \<not> (aq_mode q = ExplainRecordedDecision \<and> resolveActiveRecordedDecision ss = DAbsent)
     \<and> resolveActiveRecordedDecision ss \<noteq> DConflicting)"

lemma precondition_None:
  "precondition ss (list_ex (looksLikeEmbeddedInstruction \<circ> sp_content) ss) = None
     \<longleftrightarrow> ss \<noteq> [] \<and> (\<forall>p\<in>set ss. sp_status p = Active \<and> \<not> looksLikeEmbeddedInstruction (sp_content p))"
  by (auto simp: precondition_def list_ex_iff)

lemma control_None: "control_finding maxContext q ss = None \<longleftrightarrow> controls_passed maxContext q ss"
proof (cases "precondition ss (list_ex (looksLikeEmbeddedInstruction \<circ> sp_content) ss)")
  case None
  then show ?thesis using precondition_None [of ss] by (auto simp: control_finding_def controls_passed_def)
next
  case (Some d)
  then have "\<not> (ss \<noteq> [] \<and> (\<forall>p\<in>set ss. sp_status p = Active \<and> \<not> looksLikeEmbeddedInstruction (sp_content p)))"
    using precondition_None [of ss] by (simp del: not_None_eq)
  then show ?thesis using Some by (cases d) (auto simp: control_finding_def controls_passed_def)
qed

text \<open>The answer of a control gives no decision; the model has no part in it.\<close>

definition refusal :: "assistant_model_result \<Rightarrow> bool" where
  "refusal r = (ca_outcome (am_candidate r) \<noteq> OAnswer \<and> ca_decision_code (am_candidate r) = None)"

lemma refusal_deterministic: "refusal (deterministic_result outcome text claims reasons) \<longleftrightarrow> outcome \<noteq> OAnswer"
  "refusal (deterministicResult outcome text claims) \<longleftrightarrow> outcome \<noteq> OAnswer"
  by (simp_all add: refusal_def deterministic_result_def deterministicResult_def)

lemma control_Some: "control_finding maxContext q ss = Some (code, result) \<Longrightarrow> refusal result"
  by (auto simp: control_finding_def refusal_deterministic precondition_def split: option.splits if_splits)

subsection \<open>Screened candidates\<close>

lemma materialize_resolution:
  "materializeAssistantCandidateWithRecordedDecision sc c ss screen = Inr (m, r) \<Longrightarrow> r = resolveActiveRecordedDecision ss"
  by (auto simp: materializeAssistantCandidateWithRecordedDecision_def outcome_simps Let_def split: decision_resolution.splits)

lemma materialize_decision:
  assumes "resolveActiveRecordedDecision ss = DConsistent d"
    and "materializeAssistantCandidateWithRecordedDecision sc c ss screen = Inr (m, r)"
  shows "ca_outcome m = rd_outcome d \<and> ca_decision_code m = Some (rd_code d) \<and> ca_reason_codes m = rd_reason_codes d
    \<and> recordedDecisionStatement d = Inr (ca_summary m)"
  using assms by (auto simp: materializeAssistantCandidateWithRecordedDecision_def outcome_simps Let_def)

text \<open>A candidate that carries the recorded decision of its supports, when they have one.\<close>

definition carries_decision :: "assistant_support list \<Rightarrow> candidate \<Rightarrow> bool" where
  "carries_decision ss c = (case resolveActiveRecordedDecision ss of
     DAbsent \<Rightarrow> ca_decision_code c = None
   | DConsistent d \<Rightarrow> ca_outcome c = rd_outcome d \<and> ca_decision_code c = Some (rd_code d) \<and> ca_reason_codes c = rd_reason_codes d
       \<and> recordedDecisionStatement d = Inr (ca_summary c)
   | DConflicting \<Rightarrow> False)"

lemma release_valid:
  assumes "releaseAssistantCandidateWithRecordedDecision sc c ss question True = Inr r"
  shows "re_resolution r = resolveActiveRecordedDecision ss
    \<and> (re_codes r = [] \<longrightarrow> validateAssistantCandidate sc (re_candidate r) ss question = Inr [] \<and> carries_decision ss (re_candidate r))
    \<and> (re_codes r \<noteq> [] \<longrightarrow> \<not> (\<exists>d. resolveActiveRecordedDecision ss = DConsistent d))"
proof -
  obtain m res codes where m: "materializeAssistantCandidateWithRecordedDecision sc c ss True = Inr (m, res)"
    and codes: "validateAssistantCandidate sc m ss question = Inr codes"
    and cases: "(codes = [] \<or> (\<forall>d. res \<noteq> DConsistent d)) \<and> re_candidate r = m \<and> re_codes r = codes \<and> re_resolution r = res
      \<or> (\<exists>d fixedOnly res'. res = DConsistent d \<and> re_resolution r = res \<and> re_codes r = [] \<and> re_candidate r = fixedOnly
          \<and> materializeAssistantCandidateWithRecordedDecision sc emptyExplanationCandidate ss True = Inr (fixedOnly, res')
          \<and> validateAssistantCandidate sc fixedOnly ss question = Inr [])"
    using assms
    by (auto simp: releaseAssistantCandidateWithRecordedDecision_def outcome_simps split: if_splits decision_resolution.splits prod.splits)
  have res: "res = resolveActiveRecordedDecision ss" by (rule materialize_resolution [OF m])
  have carried: "carries_decision ss n"
    if n: "materializeAssistantCandidateWithRecordedDecision sc c' ss True = Inr (n, res')"
      and valid: "validateAssistantCandidate sc n ss question = Inr []" for c' n res'
  proof (cases "resolveActiveRecordedDecision ss")
    case DAbsent
    then show ?thesis using valid_candidate(3) [OF valid] by (simp add: carries_decision_def)
  next
    case (DConsistent d)
    then show ?thesis using materialize_decision [OF DConsistent n] by (simp add: carries_decision_def)
  next
    case DConflicting
    then show ?thesis using valid_candidate(4) [OF valid] by (simp add: reasonCodesAreCoherent_def)
  qed
  show ?thesis using cases res carried [OF m] carried codes by fastforce
qed

lemma consult_cases:
  assumes "consult_model sc env q s ss = Inr (codes, result, source)"
  shows "(codes = [] \<and> validateAssistantCandidate sc (am_candidate result) ss (aq_question q) = Inr []
        \<and> carries_decision ss (am_candidate result))
    \<or> (codes \<noteq> [] \<and> refusal result \<and> \<not> (\<exists>d. resolveActiveRecordedDecision ss = DConsistent d))"
proof -
  obtain a r where r: "releaseAssistantCandidateWithRecordedDecision sc (am_candidate a) ss (aq_question q) True = Inr r"
    "(codes, result, source) = (if re_codes r \<noteq> [] then
        (re_codes r, deterministicResult OAbstain ''The generated response failed support validation.'' [], ValidationFallback)
      else ([], a\<lparr>am_candidate := re_candidate r\<rparr>, case re_resolution r of DConsistent d \<Rightarrow> TypedRecord | _ \<Rightarrow> ModelCandidate))"
    using assms by (auto simp: consult_model_def outcome_simps)
  show ?thesis using r(2) release_valid [OF r(1)] refusal_deterministic(2) [of OAbstain] by (cases "re_codes r = []") auto
qed

subsection \<open>Whole answers\<close>

text \<open>The supports that an answer rests on.\<close>

definition supports_of ::
  "screening \<Rightarrow> answer_env \<Rightarrow> assistant_query \<Rightarrow> actor_session \<Rightarrow> assistant_support list \<Rightarrow> bool" where
  "supports_of sc env q s ss = (\<exists>x names. execute_tools (sc_lib sc) (ax_registry env) (ax_authorize env) q s = Inr (x, names)
     \<and> ss = supportsForQueryMode (tx_supports x) (aq_mode q))"

lemma supports_obtained:
  assumes "supports_of sc env q s ss"
  shows "(\<forall>p\<in>set ss. assistantSupport_ok (sc_lib sc) p \<and> obtained (ax_registry env) (ax_authorize env) q s p)
    \<and> (\<forall>n < length (aq_requests q). \<exists>result. answered (ax_registry env) (ax_authorize env) q s n (aq_requests q ! n) result)"
proof -
  obtain x names where x: "execute_tools (sc_lib sc) (ax_registry env) (ax_authorize env) q s = Inr (x, names)"
    "ss = supportsForQueryMode (tx_supports x) (aq_mode q)"
    using assms by (auto simp: supports_of_def)
  then show ?thesis using execute_Inr [OF x(1)] by (auto simp: execution_ok_def supportsForQueryMode_def split: if_splits)
qed

text \<open>A gathered answer: a refusal, or a screened candidate on obtained supports that passed the controls.\<close>

definition screened ::
  "screening \<Rightarrow> int \<Rightarrow> answer_env \<Rightarrow> assistant_query \<Rightarrow> actor_session \<Rightarrow> gathered \<Rightarrow> bool" where
  "screened sc maxContext env q s g = (ga_codes g = [] \<and> supports_of sc env q s (ga_supports g)
     \<and> controls_passed maxContext q (ga_supports g)
     \<and> validateAssistantCandidate sc (am_candidate (ga_result g)) (ga_supports g) (aq_question q) = Inr []
     \<and> carries_decision (ga_supports g) (am_candidate (ga_result g)))"

lemma recover_refuses: "recover ss names e = Inr g \<Longrightarrow> ga_codes g \<noteq> [] \<and> refusal (ga_result g)"
  by (auto simp: recover_def refusal_deterministic split: option.splits)

lemma gather_cases:
  assumes "gather sc maxContext env q s = Inr g"
  shows "screened sc maxContext env q s g \<or> (ga_codes g \<noteq> [] \<and> refusal (ga_result g))"
proof (cases "execute_tools (sc_lib sc) (ax_registry env) (ax_authorize env) q s")
  case (Inl e)
  then show ?thesis using assms recover_refuses by (auto simp: gather_def)
next
  case (Inr xn)
  obtain x names where xn: "xn = (x, names)" by (cases xn)
  let ?ss = "supportsForQueryMode (tx_supports x) (aq_mode q)"
  show ?thesis
  proof (cases "find_answer sc maxContext env q s ?ss")
    case (Inl e)
    then show ?thesis using assms recover_refuses Inr xn by (auto simp: gather_def Let_def)
  next
    case found: (Inr f)
    obtain codes result source where f: "f = (codes, result, source)" by (cases f)
    have g: "ga_supports g = ?ss" "ga_codes g = codes" "ga_result g = result"
      using assms Inr xn found f by (auto simp: gather_def Let_def)
    show ?thesis
    proof (cases "control_finding maxContext q ?ss")
      case None
      then have "consult_model sc env q s ?ss = Inr (codes, result, source)" using found f by (simp add: find_answer_def)
      moreover have "supports_of sc env q s ?ss" using Inr xn by (auto simp: supports_of_def)
      ultimately show ?thesis using consult_cases [of sc env q s ?ss codes result source] g control_None None
        by (auto simp: screened_def)
    next
      case (Some cr)
      then show ?thesis using found f g control_Some [of maxContext q ?ss] by (cases cr) (auto simp: find_answer_def)
    qed
  qed
qed

lemma answer_gathered:
  assumes "answerOnce sc maxContext env q s correlationId st = (Inr r, st')"
  shows "\<exists>g eventId. gather sc maxContext env q s = Inr g \<and> r = response_of env q correlationId g eventId"
  using assms by (auto simp: answerOnce_def commit_def Let_def split: sum.splits prod.splits)

text \<open>The screening throws no error but the plain one.\<close>

lemma rbind_Inl_iff: "rbind m f = Inl e \<longleftrightarrow> m = Inl e \<or> (\<exists>x. m = Inr x \<and> f x = Inl e)"
  by (cases m) auto

lemma rmap_Inl: "rmap f xs = Inl e \<Longrightarrow> \<exists>x\<in>set xs. f x = Inl e"
  by (induction xs) (auto simp: rbind_Inl_iff)

lemma statement_error: "recordedDecisionStatement d = Inl e \<Longrightarrow> e = OtherError"
  by (auto simp: recordedDecisionStatement_def rbind_Inl_iff from_option_def Let_def split: assistant_outcome.splits option.splits prod.splits)

lemma claim_error: "validateAssistantClaim ps ss c = Inl e \<Longrightarrow> e = OtherError"
  by (auto simp: validateAssistantClaim_def support_text_def rbind_Inl_iff Let_def
      dest!: rmap_Inl statement_error split: if_splits option.splits)

lemma claims_error: "rmap (validateAssistantClaim ps ss) cs = Inl e \<Longrightarrow> e = OtherError"
  by (auto dest!: rmap_Inl claim_error)

lemma candidate_error: "validateAssistantCandidate sc c ss question = Inl e \<Longrightarrow> e = OtherError"
  by (auto simp: validateAssistantCandidate_def decision_text_def rbind_Inl_iff Let_def
      dest!: claims_error statement_error split: decision_resolution.splits)

lemma materialize_error: "materializeAssistantCandidateWithRecordedDecision sc c ss screen = Inl e \<Longrightarrow> e = OtherError"
  by (auto simp: materializeAssistantCandidateWithRecordedDecision_def screen_claims_def rbind_Inl_iff Let_def
      dest!: claims_error statement_error split: decision_resolution.splits if_splits)

lemma release_error: "releaseAssistantCandidateWithRecordedDecision sc c ss question screen = Inl e \<Longrightarrow> e = OtherError"
  by (auto simp: releaseAssistantCandidateWithRecordedDecision_def rbind_Inl_iff check_def
      dest!: materialize_error candidate_error split: if_splits prod.splits)

text \<open>A decision code comes from the record, and with a record every response carries its decision.\<close>

lemma decided_by_record:
  assumes "gather sc maxContext env q s = Inr g" and "c = am_candidate (ga_result g)"
  shows "ca_decision_code c \<noteq> None \<longrightarrow> aq_mode q = ExplainRecordedDecision \<and> (\<exists>ss d p. supports_of sc env q s ss
      \<and> resolveActiveRecordedDecision ss = DConsistent d \<and> ca_decision_code c = Some (rd_code d) \<and> ca_outcome c = rd_outcome d
      \<and> ca_reason_codes c = rd_reason_codes d \<and> recordedDecisionStatement d = Inr (ca_summary c)
      \<and> p \<in> set ss \<and> assistantSupport_ok (sc_lib sc) p \<and> map_option normalizeRecordedDecision (sp_recorded_decision p) = Some d)"
proof
  assume code: "ca_decision_code c \<noteq> None"
  let ?ss = "ga_supports g"
  have scr: "screened sc maxContext env q s g" using gather_cases [OF assms(1)] code assms(2) by (auto simp: refusal_def)
  then have ss: "supports_of sc env q s ?ss" and cd: "carries_decision ?ss c" using assms(2) by (simp_all add: screened_def)
  obtain d where d: "resolveActiveRecordedDecision ?ss = DConsistent d"
    using cd code by (cases "resolveActiveRecordedDecision ?ss") (auto simp: carries_decision_def)
  have "resolveActiveRecordedDecision ?ss = DAbsent" if "aq_mode q = ExplainRecords"
    using ss records_mode_absent [OF that] by (auto simp: supports_of_def)
  then have mode: "aq_mode q = ExplainRecordedDecision" using d by (cases "aq_mode q") auto
  obtain p where "p \<in> set ?ss" "map_option normalizeRecordedDecision (sp_recorded_decision p) = Some d"
    using d unfolding resolve_consistent active_decisions_iff by auto
  then show "aq_mode q = ExplainRecordedDecision \<and> (\<exists>ss d p. supports_of sc env q s ss
      \<and> resolveActiveRecordedDecision ss = DConsistent d \<and> ca_decision_code c = Some (rd_code d) \<and> ca_outcome c = rd_outcome d
      \<and> ca_reason_codes c = rd_reason_codes d \<and> recordedDecisionStatement d = Inr (ca_summary c)
      \<and> p \<in> set ss \<and> assistantSupport_ok (sc_lib sc) p \<and> map_option normalizeRecordedDecision (sp_recorded_decision p) = Some d)"
    using mode ss d cd supports_obtained [OF ss]
    by (intro conjI exI [of _ ?ss] exI [of _ d] exI [of _ p]) (auto simp: carries_decision_def)
qed

lemma typed_decision_released:
  assumes "gather sc maxContext env q s = Inr g"
  shows "\<forall>ss d result. supports_of sc env q s ss \<and> controls_passed maxContext q ss \<and> resolveActiveRecordedDecision ss = DConsistent d
      \<and> ax_model env \<lparr>mx_question = aq_question q, mx_purposeId = aq_purpose_id q, mx_asOf = aq_as_of q, mx_session = s, mx_supports = ss\<rparr>
        = Inr result
      \<longrightarrow> ca_decision_code (am_candidate (ga_result g)) = Some (rd_code d) \<and> ca_outcome (am_candidate (ga_result g)) = rd_outcome d
        \<and> ga_codes g = []"
proof (intro allI impI, elim conjE)
  fix ss d result
  assume ss: "supports_of sc env q s ss" and c: "controls_passed maxContext q ss" and d: "resolveActiveRecordedDecision ss = DConsistent d"
    and m: "ax_model env \<lparr>mx_question = aq_question q, mx_purposeId = aq_purpose_id q, mx_asOf = aq_as_of q, mx_session = s, mx_supports = ss\<rparr> = Inr result"
  have f: "find_answer sc maxContext env q s ss = consult_model sc env q s ss" using c control_None [of maxContext q ss] by (simp add: find_answer_def)
  have "e = OtherError" if "consult_model sc env q s ss = Inl e" for e using that m by (auto simp: consult_model_def rbind_Inl_iff dest: release_error)
  then obtain codes res source where k: "consult_model sc env q s ss = Inr (codes, res, source)" "ga_codes g = codes" "ga_result g = res"
    using ss assms f by (cases "consult_model sc env q s ss") (auto simp: supports_of_def gather_def recover_def Let_def)
  then show "ca_decision_code (am_candidate (ga_result g)) = Some (rd_code d) \<and> ca_outcome (am_candidate (ga_result g)) = rd_outcome d
      \<and> ga_codes g = []"
    using consult_cases [OF k(1)] d by (auto simp: carries_decision_def)
qed

subsection \<open>Recorded decisions that cannot be released\<close>

definition unexpected_reasons :: "string list" where
  "unexpected_reasons = [''access-denied'', ''inactive-evidence'', ''prompt-injection'']"

lemma reasons_on_active:
  assumes "\<forall>p\<in>set ss. sp_status p = Active \<and> \<not> looksLikeEmbeddedInstruction (sp_content p)" and "r \<in> set unexpected_reasons"
  shows "r \<notin> set (expected_reasons c ss)"
proof -
  have "set (expected_reasons c ss) \<subseteq> {''missing-evidence'', ''conflicting-evidence'', ''external-decision-required''}"
    using assms(1) by (auto simp: expected_reasons_def Let_def list_ex_iff)
  then show ?thesis using assms(2) by (auto simp: unexpected_reasons_def)
qed

lemma release_fails:
  assumes d: "resolveActiveRecordedDecision ss = DConsistent d"
    and ok: "\<forall>p\<in>set ss. sp_status p = Active \<and> \<not> looksLikeEmbeddedInstruction (sp_content p)"
    and r: "r \<in> set (rd_reason_codes d)" "r \<in> set unexpected_reasons"
  shows "releaseAssistantCandidateWithRecordedDecision sc c ss question True = Inl OtherError"
proof (cases "releaseAssistantCandidateWithRecordedDecision sc c ss question True")
  case (Inl e)
  then show ?thesis using release_error by simp
next
  case (Inr x)
  have x: "validateAssistantCandidate sc (re_candidate x) ss question = Inr []" "carries_decision ss (re_candidate x)"
    using release_valid [OF Inr] d by auto
  then have "r \<in> set (ca_reason_codes (re_candidate x))" using r(1) d by (simp add: carries_decision_def)
  moreover have "reasonCodesAreCoherent (re_candidate x) ss" by (rule valid_candidate(4) [OF x(1)])
  ultimately have "r \<in> set (expected_reasons (re_candidate x) ss)"
    using d by (auto simp: reasonCodesAreCoherent_def list_all_iff)
  then show ?thesis using reasons_on_active [OF ok r(2)] by blast
qed

subsection \<open>Records of an answer\<close>

text \<open>The audit event and the stored request of an answer to a session.\<close>

definition audited :: "assistant_state \<Rightarrow> actor_session \<Rightarrow> assistant_response \<Rightarrow> bool" where
  "audited st s r = ((\<exists>u\<in>au_unsigned ` set (st_events st). ev_event_id u = rp_audit_event_id r \<and> ev_request_id u = rp_request_id r
       \<and> ev_actor_id u = id_actorId (as_identity s) \<and> ev_organization_id u = id_organizationId (as_identity s)
       \<and> ev_outcome u = rp_outcome r \<and> ev_decision_code u = rp_decision_code r \<and> ev_validation_codes u = rp_validation_codes r)
     \<and> (\<exists>q. jm_get (st_requests st) (rp_request_id r) = Some q \<and> assistantRequest_ok q \<and> qr_audit_event_id q = rp_audit_event_id r
       \<and> qr_requesting_actor_id q = id_actorId (as_identity s)
       \<and> (qr_response_state q = Completed \<longleftrightarrow> rp_outcome r = OAnswer)))"

definition state_grows :: "assistant_state \<Rightarrow> assistant_state \<Rightarrow> bool" where
  "state_grows st st' = (set (st_events st) \<subseteq> set (st_events st')
     \<and> (\<forall>k v. jm_get (st_requests st) k = Some v \<longrightarrow> jm_get (st_requests st') k = Some v))"

lemma audited_grows: "audited st s r \<Longrightarrow> state_grows st st' \<Longrightarrow> audited st' s r"
  unfolding audited_def state_grows_def by blast

lemma request_put_Inr:
  "request_put r m = Inr m' \<longleftrightarrow> assistantRequest_ok r \<and> jm_get m (qr_request_id r) = None \<and> m' = jm_set (qr_request_id r) r m"
  by (auto simp: request_put_def outcome_simps jm_has_def)

lemma answer_recorded:
  assumes "answerOnce sc maxContext env q s correlationId st = (res, st')"
  shows "state_grows st st'"
    and "verifyAssistantAuditEvents (al_audit (sc_lib sc)) (st_events st) \<Longrightarrow> verifyAssistantAuditEvents (al_audit (sc_lib sc)) (st_events st')"
    and "res = Inr r \<Longrightarrow> audited st' s r \<and> jm_get (st_requests st) (rp_request_id r) = None"
proof -
  let ?append = "audit_append (al_audit (sc_lib sc)) (al_localeLe (sc_lib sc)) (ax_event_uuid env) (st_events st)"
  have "state_grows st st' \<and> (verifyAssistantAuditEvents (al_audit (sc_lib sc)) (st_events st)
      \<longrightarrow> verifyAssistantAuditEvents (al_audit (sc_lib sc)) (st_events st'))
    \<and> (\<forall>r. res = Inr r \<longrightarrow> audited st' s r \<and> jm_get (st_requests st) (rp_request_id r) = None)"
  proof (cases "gather sc maxContext env q s")
    case (Inl e)
    then show ?thesis using assms by (auto simp: answerOnce_def state_grows_def)
  next
    case (Inr g)
    define i where "i = audit_input_of env q s correlationId g"
    define e where "e = fst (?append i)"
    define req where "req = request_of (sc_lib sc) env q s g (ev_event_id (au_unsigned e))"
    have ap: "?append i = (e, st_events st @ [e])" by (simp add: e_def audit_append_def Let_def)
    have verify: "verifyAssistantAuditEvents (al_audit (sc_lib sc)) (st_events st)
        \<longrightarrow> verifyAssistantAuditEvents (al_audit (sc_lib sc)) (st_events st @ [e])"
      using append_verifies [of "al_audit (sc_lib sc)" "st_events st" "al_localeLe (sc_lib sc)" "ax_event_uuid env" i] ap by simp
    have e: "ev_request_id (au_unsigned e) = request_id_of env" "ev_actor_id (au_unsigned e) = id_actorId (as_identity s)"
      "ev_organization_id (au_unsigned e) = id_organizationId (as_identity s)" "ev_outcome (au_unsigned e) = ca_outcome (am_candidate (ga_result g))"
      "ev_decision_code (au_unsigned e) = ca_decision_code (am_candidate (ga_result g))" "ev_validation_codes (au_unsigned e) = ga_codes g"
      by (simp_all add: e_def i_def audit_append_def unsigned_of_def audit_input_of_def Let_def)
    have req: "qr_request_id req = request_id_of env" "qr_requesting_actor_id req = id_actorId (as_identity s)"
      "qr_audit_event_id req = ev_event_id (au_unsigned e)"
      "qr_response_state req = (if ca_outcome (am_candidate (ga_result g)) = OAnswer then Completed else Refused)"
      by (simp_all add: req_def request_of_def Let_def)
    have c: "(res, st') = (case request_put req (st_requests st) of Inl e' \<Rightarrow> (Inl e', st\<lparr>st_events := st_events st @ [e]\<rparr>)
        | Inr requests \<Rightarrow> (Inr (response_of env q correlationId g (ev_event_id (au_unsigned e))),
            \<lparr>st_events = st_events st @ [e], st_requests = requests\<rparr>))"
      using assms Inr ap by (simp add: answerOnce_def commit_def i_def req_def Let_def)
    show ?thesis
    proof (cases "request_put req (st_requests st)")
      case (Inl e')
      then show ?thesis using c verify by (auto simp: state_grows_def)
    next
      case put: (Inr requests)
      then have m: "assistantRequest_ok req" "jm_get (st_requests st) (request_id_of env) = None"
        "requests = jm_set (request_id_of env) req (st_requests st)"
        using request_put_Inr [of req] req(1) by auto
      let ?r = "response_of env q correlationId g (ev_event_id (au_unsigned e))"
      have r: "rp_request_id ?r = request_id_of env" "rp_audit_event_id ?r = ev_event_id (au_unsigned e)"
        "rp_outcome ?r = ca_outcome (am_candidate (ga_result g))" "rp_decision_code ?r = ca_decision_code (am_candidate (ga_result g))"
        "rp_validation_codes ?r = ga_codes g"
        by (simp_all add: response_of_def Let_def)
      have "audited \<lparr>st_events = st_events st @ [e], st_requests = requests\<rparr> s ?r"
        using e req m r by (simp add: audited_def jm_get_set)
      then show ?thesis using c put verify m r by (auto simp: state_grows_def jm_get_set)
    qed
  qed
  then show "state_grows st st'"
    and "verifyAssistantAuditEvents (al_audit (sc_lib sc)) (st_events st) \<Longrightarrow> verifyAssistantAuditEvents (al_audit (sc_lib sc)) (st_events st')"
    and "res = Inr r \<Longrightarrow> audited st' s r \<and> jm_get (st_requests st) (rp_request_id r) = None" by auto
qed

subsection \<open>Interleaved calls\<close>

text \<open>The entry of a key is its only answer that is not rejected; a call waits for an answer to its key and fingerprint.\<close>

definition caller_ok :: "promise list \<Rightarrow> caller \<Rightarrow> bool" where
  "caller_ok ps c = (wc_promise c < length ps \<and> pm_key (ps ! wc_promise c) = wc_key c \<and> pm_fingerprint (ps ! wc_promise c) = wc_fingerprint c)"

definition rejected :: "promise \<Rightarrow> bool" where
  "rejected p = (\<exists>e. pm_status p = Rejected e)"

definition entries_ok :: "(string, string \<times> nat) jmap \<Rightarrow> promise list \<Rightarrow> bool" where
  "entries_ok m ps = ((\<forall>k f n. jm_get m k = Some (f, n) \<longrightarrow> n < length ps \<and> pm_key (ps ! n) = Some k \<and> pm_fingerprint (ps ! n) = f)
     \<and> (\<forall>n k. n < length ps \<longrightarrow> pm_key (ps ! n) = Some k \<longrightarrow> \<not> rejected (ps ! n) \<longrightarrow> map_option snd (jm_get m k) = Some n))"

definition assistant_inv :: "assistant_lib \<Rightarrow> assistant_world \<Rightarrow> bool" where
  "assistant_inv al w = (verifyAssistantAuditEvents (al_audit al) (st_events (aw_state w))
     \<and> entries_ok (aw_answers w) (aw_promises w)
     \<and> (\<forall>c\<in>set (aw_waiting w). caller_ok (aw_promises w) c)
     \<and> (\<forall>(c, x)\<in>set (aw_replies w). caller_ok (aw_promises w) c \<and> pm_status (aw_promises w ! wc_promise c)
          = (case x of Inl e \<Rightarrow> Rejected e | Inr r \<Rightarrow> Fulfilled r))
     \<and> (\<forall>p\<in>set (aw_promises w). \<forall>r. pm_status p = Fulfilled r \<longrightarrow> audited (aw_state w) (pm_session p) r))"

lemma entries_start:
  assumes "entries_ok m ps" and "\<And>k. pm_key p = Some k \<Longrightarrow> jm_get m k = None"
  shows "entries_ok (case pm_key p of None \<Rightarrow> m | Some k \<Rightarrow> jm_set k (pm_fingerprint p, length ps) m) (ps @ [p])"
proof -
  let ?m = "case pm_key p of None \<Rightarrow> m | Some k \<Rightarrow> jm_set k (pm_fingerprint p, length ps) m"
  have m: "jm_get ?m k = (if pm_key p = Some k then Some (pm_fingerprint p, length ps) else jm_get m k)" for k
    by (cases "pm_key p") (auto simp: jm_get_set)
  show ?thesis unfolding entries_ok_def
  proof (intro conjI allI impI)
    fix k f n assume "jm_get ?m k = Some (f, n)"
    then have "n < length ps \<and> pm_key (ps ! n) = Some k \<and> pm_fingerprint (ps ! n) = f \<or> n = length ps \<and> pm_key p = Some k \<and> f = pm_fingerprint p"
      using assms(1) unfolding m by (auto simp: entries_ok_def split: if_splits)
    then show "n < length (ps @ [p])" "pm_key ((ps @ [p]) ! n) = Some k" "pm_fingerprint ((ps @ [p]) ! n) = f"
      by (auto simp: nth_append)
  next
    fix n k assume n: "n < length (ps @ [p])" "pm_key ((ps @ [p]) ! n) = Some k" "\<not> rejected ((ps @ [p]) ! n)"
    show "map_option snd (jm_get ?m k) = Some n"
    proof (cases "n < length ps")
      case True
      then have "map_option snd (jm_get m k) = Some n" using n assms(1) by (auto simp: entries_ok_def nth_append)
      then show ?thesis using assms(2) [of k] unfolding m by auto
    next
      case False
      then have "n = length ps" "pm_key p = Some k" using n by (auto simp: less_Suc_eq nth_append)
      then show ?thesis unfolding m by simp
    qed
  qed
qed

lemma caller_append: "caller_ok ps c \<Longrightarrow> caller_ok (ps @ [p]) c \<and> (ps @ [p]) ! wc_promise c = ps ! wc_promise c"
  by (simp add: caller_ok_def nth_append)

lemma start_inv:
  assumes inv: "assistant_inv al w" and new: "\<And>k. key = Some k \<Longrightarrow> jm_get (aw_answers w) k = None"
  shows "assistant_inv al (start_answer q s correlationId key fingerprint w)"
proof -
  let ?p = "\<lparr>pm_query = q, pm_session = s, pm_correlationId = correlationId, pm_key = key, pm_fingerprint = fingerprint, pm_status = Running\<rparr>"
  let ?w = "start_answer q s correlationId key fingerprint w"
  have w: "aw_promises ?w = aw_promises w @ [?p]" "aw_state ?w = aw_state w" "aw_replies ?w = aw_replies w"
    "set (aw_waiting ?w) = insert \<lparr>wc_key = key, wc_fingerprint = fingerprint, wc_promise = length (aw_promises w), wc_starter = True\<rparr> (set (aw_waiting w))"
    "aw_answers ?w = (case pm_key ?p of None \<Rightarrow> aw_answers w | Some k \<Rightarrow> jm_set k (pm_fingerprint ?p, length (aw_promises w)) (aw_answers w))"
    by (simp_all add: start_answer_def Let_def split: option.split)
  have "entries_ok (aw_answers ?w) (aw_promises ?w)" unfolding w using inv new by (intro entries_start) (auto simp: assistant_inv_def)
  moreover have "caller_ok (aw_promises w @ [?p]) \<lparr>wc_key = key, wc_fingerprint = fingerprint, wc_promise = length (aw_promises w), wc_starter = True\<rparr>"
    by (simp add: caller_ok_def)
  ultimately show ?thesis using inv caller_append [of "aw_promises w" _ ?p] unfolding assistant_inv_def w(1-4)
    by (auto split: prod.splits)
qed

lemma ask_inv:
  assumes inv: "assistant_inv al w" and "answer_begin al raw s correlationId w = Inr w'"
  shows "assistant_inv al w'"
proof -
  obtain q where q: "parse_query al raw = Inr q" using assms(2) by (auto simp: answer_begin_def outcome_simps)
  show ?thesis
  proof (cases "aq_idempotency_key q")
    case None
    then show ?thesis using assms q start_inv [OF inv, of None] by (auto simp: answer_begin_def Let_def)
  next
    case (Some k)
    let ?key = "answer_key s k"
    show ?thesis
    proof (cases "jm_get (aw_answers w) ?key")
      case None
      then show ?thesis using assms q Some start_inv [OF inv, of "Some ?key"] by (auto simp: answer_begin_def Let_def)
    next
      case entry: (Some fn)
      obtain f n where fn: "fn = (f, n)" by (cases fn)
      then have f: "f = fingerprint_of al q s" and w': "w' = w\<lparr>aw_waiting := aw_waiting w @
          [\<lparr>wc_key = Some ?key, wc_fingerprint = fingerprint_of al q s, wc_promise = n, wc_starter = False\<rparr>]\<rparr>"
        using assms(2) q Some entry by (auto simp: answer_begin_def Let_def split: if_splits)
      have "caller_ok (aw_promises w) \<lparr>wc_key = Some ?key, wc_fingerprint = fingerprint_of al q s, wc_promise = n, wc_starter = False\<rparr>"
        using inv entry fn f by (auto simp: assistant_inv_def entries_ok_def caller_ok_def)
      then show ?thesis using inv unfolding w' by (auto simp: assistant_inv_def)
    qed
  qed
qed

lemma entries_update:
  assumes "entries_ok m ps" and "length qs = length ps"
    and "\<And>i. i < length ps \<Longrightarrow> pm_key (qs ! i) = pm_key (ps ! i) \<and> pm_fingerprint (qs ! i) = pm_fingerprint (ps ! i)
      \<and> (rejected (ps ! i) \<longrightarrow> rejected (qs ! i))"
  shows "entries_ok m qs"
proof -
  have "n < length qs \<and> pm_key (qs ! n) = Some k \<and> pm_fingerprint (qs ! n) = f" if "jm_get m k = Some (f, n)" for k f n
    using assms that by (auto simp: entries_ok_def)
  moreover have "map_option snd (jm_get m k) = Some n"
    if "n < length qs" "pm_key (qs ! n) = Some k" "\<not> rejected (qs ! n)" for n k
    using that assms(1,2) assms(3) [of n] unfolding entries_ok_def by auto
  ultimately show ?thesis unfolding entries_ok_def by blast
qed

lemma answer_finish_inv:
  assumes inv: "assistant_inv (sc_lib sc) w" and n: "n < length (aw_promises w)" "pm_status (aw_promises w ! n) = Running"
  shows "assistant_inv (sc_lib sc) (finish_promise sc maxContext n env w)"
proof -
  let ?p = "aw_promises w ! n"
  obtain res st' where a: "answerOnce sc maxContext env (pm_query ?p) (pm_session ?p) (pm_correlationId ?p) (aw_state w) = (res, st')"
    by fastforce
  define p where "p = ?p\<lparr>pm_status := (case res of Inl e \<Rightarrow> Rejected e | Inr x \<Rightarrow> Fulfilled x)\<rparr>"
  let ?ps = "(aw_promises w)[n := p]"
  have w: "finish_promise sc maxContext n env w = w\<lparr>aw_state := st', aw_promises := ?ps\<rparr>"
    using a by (simp add: finish_promise_def p_def Let_def)
  have keeps: "pm_key (?ps ! i) = pm_key (aw_promises w ! i)" "pm_fingerprint (?ps ! i) = pm_fingerprint (aw_promises w ! i)"
    "rejected (aw_promises w ! i) \<Longrightarrow> rejected (?ps ! i)"
    if "i < length (aw_promises w)" for i using that n by (auto simp: nth_list_update p_def rejected_def)
  have entries: "entries_ok (aw_answers w) ?ps"
    by (rule entries_update [of _ "aw_promises w"]) (use inv keeps in \<open>auto simp: assistant_inv_def\<close>)
  have callers: "caller_ok ?ps c = caller_ok (aw_promises w) c" for c using keeps by (auto simp: caller_ok_def)
  have settled: "?ps ! wc_promise c = aw_promises w ! wc_promise c" if "(c, x) \<in> set (aw_replies w)" for c x
  proof -
    have "pm_status (aw_promises w ! wc_promise c) \<noteq> Running" using inv that by (cases x) (auto simp: assistant_inv_def)
    then have "wc_promise c \<noteq> n" using n(2) by auto
    then show ?thesis by simp
  qed
  have "audited st' (pm_session x) r" if "x \<in> set ?ps" "pm_status x = Fulfilled r" for x r
  proof -
    have "x = p \<or> x \<in> set (aw_promises w)" using that(1) set_update_subset_insert by fastforce
    then show ?thesis
    proof
      assume "x = p"
      then have "res = Inr r" "pm_session x = pm_session ?p" using that(2) by (auto simp: p_def split: sum.splits)
      then show ?thesis using answer_recorded(3) [OF a] by simp
    next
      assume "x \<in> set (aw_promises w)"
      then show ?thesis using inv that(2) audited_grows [OF _ answer_recorded(1) [OF a]] by (auto simp: assistant_inv_def)
    qed
  qed
  moreover have "verifyAssistantAuditEvents (al_audit (sc_lib sc)) (st_events st')"
    using inv answer_recorded(2) [OF a] by (simp add: assistant_inv_def)
  moreover have "\<forall>(c, x)\<in>set (aw_replies w). caller_ok ?ps c \<and> pm_status (?ps ! wc_promise c)
      = (case x of Inl e \<Rightarrow> Rejected e | Inr r \<Rightarrow> Fulfilled r)"
    using inv settled callers by (auto simp: assistant_inv_def)
  ultimately show ?thesis using inv entries callers unfolding w by (simp add: assistant_inv_def)
qed

lemma entries_forget:
  assumes "entries_ok m ps" and "map_option snd (jm_get m k) = Some n" and "rejected (ps ! n)"
  shows "entries_ok (jm_del k m) ps"
proof -
  have "map_option snd (jm_get (jm_del k m) k') = Some i"
    if i: "i < length ps" "pm_key (ps ! i) = Some k'" "\<not> rejected (ps ! i)" for i k'
  proof -
    have "map_option snd (jm_get m k') = Some i" using assms(1) i by (auto simp: entries_ok_def)
    moreover have "k' \<noteq> k" using calculation assms(2,3) i(3) by auto
    ultimately show ?thesis by (simp add: jm_get_del)
  qed
  moreover have "n' < length ps \<and> pm_key (ps ! n') = Some k' \<and> pm_fingerprint (ps ! n') = f"
    if "jm_get (jm_del k m) k' = Some (f, n')" for k' f n'
    using that assms(1) by (auto simp: entries_ok_def jm_get_del split: if_splits)
  ultimately show ?thesis unfolding entries_ok_def by blast
qed

lemma deliver_inv:
  assumes inv: "assistant_inv al w" and i: "i < length (aw_waiting w)"
  shows "assistant_inv al (deliver i w)"
proof -
  let ?c = "aw_waiting w ! i" and ?rest = "take i (aw_waiting w) @ drop (Suc i) (aw_waiting w)"
  let ?p = "aw_promises w ! wc_promise ?c"
  have c: "caller_ok (aw_promises w) ?c" using inv i by (simp add: assistant_inv_def)
  have rest: "set ?rest \<subseteq> set (aw_waiting w)" by (auto dest: in_set_takeD in_set_dropD)
  have reply: "assistant_inv al (w\<lparr>aw_waiting := ?rest, aw_replies := aw_replies w @ [(?c, x)]\<rparr>)"
    if "pm_status ?p = (case x of Inl e \<Rightarrow> Rejected e | Inr r \<Rightarrow> Fulfilled r)" for x
    using inv c rest that by (auto simp: assistant_inv_def)
  show ?thesis
  proof (cases "pm_status ?p")
    case Running
    then show ?thesis using inv by (simp add: deliver_def Let_def)
  next
    case (Fulfilled r)
    then show ?thesis using reply [of "Inr r"] by (simp add: deliver_def Let_def)
  next
    case (Rejected e)
    define v where "v = w\<lparr>aw_waiting := ?rest, aw_replies := aw_replies w @ [(?c, Inl e)]\<rparr>"
    have v: "assistant_inv al v" using reply [of "Inl e"] Rejected by (simp add: v_def)
    have d: "deliver i w = forget_answer ?c v" using Rejected by (simp add: deliver_def v_def Let_def)
    show ?thesis
    proof (cases "\<exists>k. wc_key ?c = Some k \<and> wc_starter ?c \<and> map_option snd (jm_get (aw_answers v) k) = Some (wc_promise ?c)")
      case True
      then obtain k where k: "wc_key ?c = Some k" "wc_starter ?c" "map_option snd (jm_get (aw_answers v) k) = Some (wc_promise ?c)" by blast
      have "rejected (aw_promises v ! wc_promise ?c)" using Rejected by (simp add: rejected_def v_def)
      then have "entries_ok (jm_del k (aw_answers v)) (aw_promises v)" using v k entries_forget by (auto simp: assistant_inv_def)
      then show ?thesis using v k d by (simp add: forget_answer_def assistant_inv_def)
    next
      case False
      then show ?thesis using v d by (auto simp: forget_answer_def split: option.splits)
    qed
  qed
qed

interpretation assistant: guarded_system no_answers "assistant_step sc maxContext" "assistant_inv (sc_lib sc)" for sc maxContext
proof unfold_locales
  show "assistant_inv (sc_lib sc) no_answers"
    by (simp add: assistant_inv_def no_answers_def entries_ok_def verifies_iff)
  show "assistant_inv (sc_lib sc) (assistant_step sc maxContext w x)" if "assistant_inv (sc_lib sc) w" for w x
    using that by (cases x) (auto intro: ask_inv answer_finish_inv deliver_inv settle_cases)
qed

end
