(* ===== verification/Assistant_Example.thy ===== *)
theory Assistant_Example
  imports Assistant_Runs
begin

text \<open>
  One query to the assistant on concrete data: a protected search returns a support with the recorded decision that route
  \<open>a\<close> is preferred, and a model adds a claim of its own. The analysis of prose finds every text supported, and the digest is a constant.
\<close>

definition ex_uuid4 :: string where
  "ex_uuid4 = ''00000000-0000-4000-8000-000000000000''"

definition ex_urn4 :: "string \<Rightarrow> string" where
  "ex_urn4 kind = ''urn:evllm:'' @ kind @ '':'' @ ex_uuid4"

definition ex_session :: actor_session where
  "ex_session = \<lparr>as_sessionId = ''s'', as_identity = \<lparr>id_actorId = ex_urn4 ''actor'', id_organizationId = ex_urn4 ''org'',
     id_credentialId = ex_urn4 ''credential'', id_address = ''0x0''\<rparr>, as_issuedAt = 1, as_expiresAt = 2\<rparr>"

definition ex_digest :: string where
  "ex_digest = ''aaaaaaaaaaaaaaaaaaaaaaaaaaaaaaaaaaaaaaaaaaa''"

definition ex_screening :: screening where
  "ex_screening = \<lparr>sc_lib = \<lparr>al_codec = \<lparr>canonicalize = (\<lambda>_. []), json_parse = (\<lambda>_. None)\<rparr>, al_digest = (\<lambda>_. ex_digest),
       al_uuid_ok = (\<lambda>_. True), al_audit = \<lparr>ad_text = (\<lambda>_. ex_digest), ad_event = (\<lambda>_. ex_digest)\<rparr>, al_localeLe = str_le\<rparr>,
     sc_prose = \<lparr>ps_jointSupport = (\<lambda>_ _ _. True), ps_disclosure = (\<lambda>_ _. False), ps_operative = (\<lambda>_. False),
       ps_contradicts = (\<lambda>_ _. False)\<rparr>,
     sc_stringify = ca_summary\<rparr>"

definition ex_code :: string where
  "ex_code = ''a-preferred''"

definition ex_decision :: recorded_decision where
  "ex_decision = \<lparr>rd_outcome = OAnswer, rd_code = ex_code, rd_reason_codes = []\<rparr>"

definition ex_statement :: string where
  "ex_statement = ''A is the recorded preferred route. The recorded decision code is a-preferred.''"

definition ex_support :: assistant_support where
  "ex_support = \<lparr>sp_support_id = ''s1'', sp_resource_id = ex_urn4 ''assessment'', sp_resource_version = 1,
     sp_issuer_organization_id = ex_urn4 ''org'', sp_custodian_organization_id = ex_urn4 ''org'', sp_as_of = 5, sp_status = Active,
     sp_commitment = ''sha256:'' @ ex_digest, sp_chain_reference = None, sp_content = ''Done.'', sp_recorded_decision = Some ex_decision\<rparr>"

definition ex_assistant_query :: assistant_query where
  "ex_assistant_query = \<lparr>aq_question = ''Why?'', aq_mode = ExplainRecordedDecision, aq_purpose_id = ex_urn4 ''policy'', aq_as_of = 5,
     aq_idempotency_key = Some ex_uuid4, aq_requests = [\<lparr>tr_tool = TProtectedSearch, tr_arguments = []\<rparr>]\<rparr>"

definition ex_raw_query :: raw_query where
  "ex_raw_query = \<lparr>rq_question = '' Why?'', rq_mode = Some ExplainRecordedDecision, rq_purpose_id = ex_urn4 ''policy'', rq_as_of = 5,
     rq_idempotency_key = Some ex_uuid4, rq_requests = [\<lparr>tr_tool = TProtectedSearch, tr_arguments = []\<rparr>]\<rparr>"

definition ex_claim :: assistant_claim where
  "ex_claim = \<lparr>cl_claim_id = ''claim-1'', cl_text = ''Done.'', cl_citation_ids = [''s1'']\<rparr>"

definition ex_model_result :: assistant_model_result where
  "ex_model_result = \<lparr>am_candidate = \<lparr>ca_outcome = OAbstain, ca_decision_code = None, ca_summary = ''No.'', ca_claims = [ex_claim],
       ca_reason_codes = [], ca_warnings = [], ca_missing_requirements = []\<rparr>,
     am_model = ''m'', am_provider = ''p'', am_responseId = None, am_inputTokens = None, am_outputTokens = None\<rparr>"

definition ex_tool :: tool_impl where
  "ex_tool = ProtectedSearchTool (\<lambda>_ _. Inr \<lparr>pv_authorizationAllowed = True, pv_repositoryAvailable = True,
     pv_envelopeDigestVerified = True, pv_packageCommitmentsVerified = True, pv_domainSignatureVerified = True,
     pv_keyReleaseAllowed = True, pv_decryptedInsideCustodyBoundary = True, pv_supports = [ex_support]\<rparr>)"

definition ex_answer_env :: answer_env where
  "ex_answer_env = \<lparr>ax_registry = [(TProtectedSearch, ex_tool)], ax_authorize = (\<lambda>_ _ _ _ _. Inr True), ax_model = (\<lambda>_. Inr ex_model_result),
     ax_request_uuid = ex_uuid4, ax_event_uuid = ex_uuid4, ax_recordedAt = 6, ax_createdAt = 7\<rparr>"

text \<open>The candidate that is released: the statement of the decision, and the model's claim behind it.\<close>

definition ex_released :: candidate where
  "ex_released = \<lparr>ca_outcome = OAnswer, ca_decision_code = Some ex_code, ca_summary = ex_statement,
     ca_claims = [\<lparr>cl_claim_id = ''claim-1'', cl_text = ex_statement, cl_citation_ids = [''s1'']\<rparr>,
       \<lparr>cl_claim_id = ''claim-2'', cl_text = ''Done.'', cl_citation_ids = [''s1'']\<rparr>],
     ca_reason_codes = [], ca_warnings = [], ca_missing_requirements = []\<rparr>"

subsection \<open>The tests on its texts\<close>

lemma ex_urns_ok: "list_all (assistant_urn_ok \<circ> ex_urn4) [''assessment'', ''org'', ''policy'']"
  "list_all (\<lambda>k. urn_ok k (ex_urn4 k)) [''assistant'', ''actor'', ''org'', ''event'']"
  by code_simp+

lemma ex_decision_ok: "recordedDecision_ok ex_decision"
  by code_simp

lemma ex_statement_is: "recordedDecisionStatement ex_decision = Inr ex_statement"
  by code_simp

lemma ex_question_ok: "\<not> looksLikeAuthorityEscalation ''Why?''" "\<not> isExternalDecisionRequest ''Why?''"
  "\<not> test_i (words [''route'', ''assessment'', ''workflow'', ''lifecycle'']) ''Why?''"
  by code_simp+

lemma ex_content_ok: "\<not> looksLikeEmbeddedInstruction ''Done.''" "\<not> test_i (lit ''no overall sustainability score'') ''Done.''"
  by code_simp+

lemma ex_not_contradicted: "\<not> contradictsRecordedDecision ex_statement ex_code" "\<not> contradictsRecordedDecision ''Done.'' ex_code"
  by code_simp+

lemma ex_no_alternate: "\<not> containsAlternateDecisionCode ex_statement ex_code" "\<not> containsAlternateDecisionCode ''Done.'' ex_code"
  by code_simp+

lemma ex_exact: "containsExactDecisionCode ex_statement ex_code" "\<not> containsExactDecisionCode ''Done.'' ex_code" "\<not> names_decision_code ''Done.''"
  by code_simp+

lemma ex_not_secret: "\<not> secret_like ex_statement"
  by code_simp

subsection \<open>Its answer\<close>

lemma ex_lib: "sc_lib ex_screening = \<lparr>al_codec = \<lparr>canonicalize = (\<lambda>_. []), json_parse = (\<lambda>_. None)\<rparr>, al_digest = (\<lambda>_. ex_digest),
    al_uuid_ok = (\<lambda>_. True), al_audit = \<lparr>ad_text = (\<lambda>_. ex_digest), ad_event = (\<lambda>_. ex_digest)\<rparr>, al_localeLe = str_le\<rparr>"
  "sc_stringify ex_screening = ca_summary"
  "ps_jointSupport (sc_prose ex_screening) t ts b" "\<not> ps_disclosure (sc_prose ex_screening) t u"
  "\<not> ps_operative (sc_prose ex_screening) t" "\<not> ps_contradicts (sc_prose ex_screening) t d"
  by (simp_all add: ex_screening_def)

lemma ex_support_ok: "assistantSupport_ok (sc_lib ex_screening) ex_support"
  using ex_urns_ok(1) ex_decision_ok
  by (simp add: assistantSupport_ok_def ex_support_def ex_lib text_between_def positiveSafeInteger_ok_def max_safe_integer_def
      recordedDecisionSupportCommitment_def ex_digest_def opt_ok_def)

lemma ex_executed: "execute_tools (sc_lib ex_screening) (ax_registry ex_answer_env) (ax_authorize ex_answer_env) ex_assistant_query ex_session
    = Inr (\<lparr>tx_supports = [ex_support], tx_supportIds = [''s1''], tx_resourceVersions = [(ex_urn4 ''assessment'', 1)],
        tx_injectionDetected = False\<rparr>, [TProtectedSearch])"
  using ex_support_ok ex_content_ok(1)
  by (simp add: execute_tools_def execute_request_def ex_answer_env_def ex_assistant_query_def ex_tool_def jm_get_def no_supports_def
      admit_support_def parse_with_def check_def ex_support_def)

lemma ex_fields: "sp_status ex_support = Active" "sp_content ex_support = ''Done.''" "sp_support_id ex_support = ''s1''"
  "sp_recorded_decision ex_support = Some ex_decision" "rd_code ex_decision = ex_code" "rd_outcome ex_decision = OAnswer"
  "rd_reason_codes ex_decision = []" "aq_question ex_assistant_query = ''Why?''" "aq_mode ex_assistant_query = ExplainRecordedDecision"
  by (simp_all add: ex_support_def ex_decision_def ex_assistant_query_def)

lemma ex_resolved: "resolveActiveRecordedDecision [ex_support] = DConsistent ex_decision"
  by (simp add: resolveActiveRecordedDecision_def active_decisions_def map_filter_simps active_decision_def ex_fields same_decision_def
      normalizeRecordedDecision_def js_set_def js_sort_def)

lemma ex_decision_supports: "decision_supports ex_decision [ex_support] = [ex_support]"
  by (simp add: decision_supports_def active_decision_def ex_fields same_decision_def)

lemma ex_claim_valid: "cl_citation_ids c = [''s1''] \<Longrightarrow> validateAssistantClaim (sc_prose ex_screening) [ex_support] c = Inr []"
  by (simp add: validateAssistantClaim_def js_set_def map_filter_simps active_citation_def cited_support_def ex_fields support_text_def
      ex_statement_is ex_lib code_list_def js_sort_def)

lemma ex_materialized:
  "materializeAssistantCandidateWithRecordedDecision ex_screening (am_candidate ex_model_result) [ex_support] True = Inr (ex_released, DConsistent ex_decision)"
  using ex_claim_valid [of ex_claim]
  by (simp add: materializeAssistantCandidateWithRecordedDecision_def ex_resolved ex_statement_is ex_model_result_def ex_claim_def
      isModelAuthoredExplanation_def ex_exact ex_fields ex_lib screen_claims_def ex_decision_supports js_sort_def number_claims_def
      ex_released_def show_nat.simps digit_char_def digit_chars_def)

lemma ex_valid: "validateAssistantCandidate ex_screening ex_released [ex_support] ''Why?'' = Inr []"
  by (simp add: validateAssistantCandidate_def ex_released_def ex_claim_valid decision_text_def ex_resolved ex_statement_is decision_codes_def
      sameReasonCodes_def visible_texts_def ex_fields ex_not_contradicted ex_exact ex_decision_supports ex_no_alternate ex_lib
      unsupported_texts_def map_filter_simps reasonCodesAreCoherent_def disclosure_codes_def containsSecretLikeOutput_def ex_not_secret
      containsProhibitedSupportDisclosure_def claimsUnsupportedCompositeScore_def ex_content_ok outcome_mismatch_def
      expectedDeterministicOutcome_def ex_question_ok code_if_def code_list_def js_set_def js_sort_def Let_def)

definition ex_gathered :: gathered where
  "ex_gathered = \<lparr>ga_supports = [ex_support], ga_toolNames = [TProtectedSearch], ga_codes = [],
     ga_result = ex_model_result\<lparr>am_candidate := ex_released\<rparr>, ga_source = TypedRecord\<rparr>"

lemma ex_gather: "gather ex_screening 12000 ex_answer_env ex_assistant_query ex_session = Inr ex_gathered"
proof -
  have "controls_passed 12000 ex_assistant_query [ex_support]"
    by (simp add: controls_passed_def ex_fields ex_content_ok totalContent_def ex_question_ok ex_resolved)
  then have c: "control_finding 12000 ex_assistant_query [ex_support] = None" by (simp add: control_None)
  have "releaseAssistantCandidateWithRecordedDecision ex_screening (am_candidate ex_model_result) [ex_support] ''Why?'' True
      = Inr \<lparr>re_candidate = ex_released, re_codes = [], re_resolution = DConsistent ex_decision, re_withheld = False\<rparr>"
    by (simp add: releaseAssistantCandidateWithRecordedDecision_def ex_materialized ex_valid)
  then have "find_answer ex_screening 12000 ex_answer_env ex_assistant_query ex_session [ex_support]
      = Inr ([], ex_model_result\<lparr>am_candidate := ex_released\<rparr>, TypedRecord)"
    using c by (simp add: find_answer_def consult_model_def ex_answer_env_def ex_fields)
  then show ?thesis by (simp add: gather_def ex_executed supportsForQueryMode_def ex_fields ex_gathered_def Let_def)
qed

definition ex_response :: assistant_response where
  "ex_response = response_of ex_answer_env ex_assistant_query ''c'' ex_gathered (ex_urn4 ''event'')"

lemma ex_answered:
  "\<exists>st. answerOnce ex_screening 12000 ex_answer_env ex_assistant_query ex_session ''c'' \<lparr>st_events = [], st_requests = []\<rparr> = (Inr ex_response, st)"
proof -
  have "assistantRequest_ok (request_of (sc_lib ex_screening) ex_answer_env ex_assistant_query ex_session ex_gathered (ex_urn4 ''event''))"
    using ex_urns_ok(2)
    by (simp add: assistantRequest_ok_def request_of_def request_id_of_def ex_answer_env_def ex_session_def
        positiveSafeInteger_ok_def timestamp_ok_def max_safe_integer_def array_ok_def shortText_ok_def ex_lib ex_digest_def
        ex_assistant_query_def ex_urn4_def ex_uuid4_def ex_gathered_def ex_released_def ex_model_result_def ex_code_def Let_def)
  moreover obtain e events where "audit_append (al_audit (sc_lib ex_screening)) (al_localeLe (sc_lib ex_screening)) (ax_event_uuid ex_answer_env) []
      (audit_input_of ex_answer_env ex_assistant_query ex_session ''c'' ex_gathered) = (e, events)" "ev_event_id (au_unsigned e) = ex_urn4 ''event''"
    by (simp add: audit_append_def unsigned_of_def ex_answer_env_def ex_urn4_def Let_def)
  ultimately show ?thesis
    by (simp add: answerOnce_def ex_gather commit_def request_put_def parse_with_def jm_has_def ex_response_def Let_def)
qed

text \<open>Two calls with one key: the second one waits for the answer that the first one started.\<close>

definition ex_ops :: "assistant_op list" where
  "ex_ops = [Ask ex_raw_query ex_session ''c'', Ask ex_raw_query ex_session ''d'', Finish 0 ex_answer_env, Deliver 0, Deliver 0]"

lemma ex_parsed: "parse_query (sc_lib ex_screening) ex_raw_query = Inr ex_assistant_query"
proof -
  have "trim '' Why?'' = ''Why?''" by code_simp
  then show ?thesis using ex_urns_ok(1)
    by (simp add: parse_query_def ex_raw_query_def ex_assistant_query_def text_between_def positiveSafeInteger_ok_def max_safe_integer_def opt_ok_def
        ex_lib array_ok_def Let_def)
qed

lemma ex_run:
  "\<exists>c c' p. aw_replies (run (assistant_step ex_screening 12000) no_answers ex_ops) = [(c, Inr ex_response), (c', Inr ex_response)]
    \<and> aw_promises (run (assistant_step ex_screening 12000) no_answers ex_ops) = [p] \<and> pm_session p = ex_session \<and> wc_promise c = 0
    \<and> c \<noteq> c' \<and> wc_key c = Some (answer_key ex_session ex_uuid4) \<and> wc_key c' = wc_key c"
proof -
  obtain st where "answerOnce ex_screening 12000 ex_answer_env ex_assistant_query ex_session ''c'' \<lparr>st_events = [], st_requests = []\<rparr> = (Inr ex_response, st)"
    using ex_answered by blast
  moreover have "aq_idempotency_key ex_assistant_query = Some ex_uuid4" by (simp add: ex_assistant_query_def)
  ultimately show ?thesis
    by (simp add: ex_ops_def answer_begin_def ex_parsed no_answers_def start_answer_def jm_get_def finish_promise_def deliver_def Let_def)
qed

end
