(* ===== verification/Assistant_Properties.thy ===== *)
theory Assistant_Properties
  imports Assistant_Example
begin

text \<open>
  The properties of the governed assistant. They hold for every behaviour of the model, of the tools' callbacks and of the
  heuristics on prose.
\<close>

subsection \<open>Answers\<close>

text \<open>
  C3: an answer is given only when every tool request of the query was authorized and answered, the supports passed all
  controls (there are some, all are active, none looks like an instruction, they fit into the context, and the question stays within
  the boundaries), and the candidate passed the validation: it has claims, and each claim cites supports of the query only,
  each of them well formed, active and obtained from an authorized tool, which the analysis of prose accepts together. Only
  these supports are cited.
\<close>

theorem answer_is_supported:
  assumes "answerOnce sc maxContext env q s correlationId st = (Inr r, st')" and "rp_outcome r = OAnswer"
  shows "\<exists>ss. supports_of sc env q s ss \<and> controls_passed maxContext q ss
    \<and> (\<forall>n < length (aq_requests q). \<exists>result. answered (ax_registry env) (ax_authorize env) q s n (aq_requests q ! n) result)
    \<and> (\<forall>p\<in>set ss. assistantSupport_ok (sc_lib sc) p \<and> obtained (ax_registry env) (ax_authorize env) q s p \<and> sp_status p = Active)
    \<and> rp_validation_passed r \<and> rp_claims r \<noteq> [] \<and> (\<forall>c\<in>set (rp_claims r). claim_supported (sc_prose sc) ss c)
    \<and> set (rp_citations r) \<subseteq> stripContent ` set ss"
proof -
  obtain g eventId where g: "gather sc maxContext env q s = Inr g" and r: "r = response_of env q correlationId g eventId"
    using answer_gathered [OF assms(1)] by blast
  have "ca_outcome (am_candidate (ga_result g)) = OAnswer" using assms(2) r by (simp add: response_of_def Let_def)
  then have scr: "screened sc maxContext env q s g" using gather_cases [OF g] by (auto simp: refusal_def)
  then have "supports_of sc env q s (ga_supports g)" "controls_passed maxContext q (ga_supports g)"
    and valid: "validateAssistantCandidate sc (am_candidate (ga_result g)) (ga_supports g) (aq_question q) = Inr []"
    and "ga_codes g = []" by (simp_all add: screened_def)
  moreover have "rp_claims r = ca_claims (am_candidate (ga_result g))" "rp_validation_passed r = (ga_codes g = [])"
    "set (rp_citations r) \<subseteq> stripContent ` set (ga_supports g)" using r by (auto simp: response_of_def Let_def)
  ultimately show ?thesis
    using valid_candidate(1,2) [OF valid] \<open>ca_outcome (am_candidate (ga_result g)) = OAnswer\<close> supports_obtained [of sc env q s "ga_supports g"]
    by (intro exI [of _ "ga_supports g"]) (auto simp: controls_passed_def)
qed

theorem answer_is_supported_witness:
  "rp_outcome ex_response = OAnswer \<and> length (rp_claims ex_response) = 2 \<and> rp_validation_passed ex_response
    \<and> (\<exists>ss. supports_of ex_screening ex_answer_env ex_assistant_query ex_session ss \<and> (\<forall>c\<in>set (rp_claims ex_response). claim_supported (sc_prose ex_screening) ss c))"
proof -
  obtain st where a: "answerOnce ex_screening 12000 ex_answer_env ex_assistant_query ex_session ''c'' \<lparr>st_events = [], st_requests = []\<rparr> = (Inr ex_response, st)"
    using ex_answered by blast
  have f: "rp_outcome ex_response = OAnswer" "length (rp_claims ex_response) = 2"
    by (simp_all add: ex_response_def response_of_def ex_gathered_def ex_released_def Let_def)
  from answer_is_supported [OF a f(1)] f show ?thesis by blast
qed



text \<open>
  A query that a control refuses gets the same finding whatever the model, the tools' answers being the same: the model has no
  influence on it.
\<close>

theorem controls_need_no_model:
  assumes "\<not> controls_passed maxContext q ss"
  shows "find_answer sc maxContext env q s ss = find_answer sc maxContext (env\<lparr>ax_model := m\<rparr>) q s ss"
  using assms control_None [of maxContext q ss] by (auto simp: find_answer_def split: option.splits)

text \<open>
  A decision that is well formed, but gives access denial, inactive evidence or an injection as a reason, can never be
  explained: its rendering fails the check of the reason codes, and the call ends in an error that leaves no audit event.
\<close>

theorem decision_never_explained:
  assumes "supports_of sc env q s ss" and "controls_passed maxContext q ss" and "resolveActiveRecordedDecision ss = DConsistent d"
    and "c \<in> set (rd_reason_codes d)" and "c \<in> {''access-denied'', ''inactive-evidence'', ''prompt-injection''}"
    and "ax_model env \<lparr>mx_question = aq_question q, mx_purposeId = aq_purpose_id q, mx_asOf = aq_as_of q, mx_session = s, mx_supports = ss\<rparr>
      = Inr result"
  shows "answerOnce sc maxContext env q s correlationId st = (Inl OtherError, st)"
proof -
  have "\<forall>p\<in>set ss. sp_status p = Active \<and> \<not> looksLikeEmbeddedInstruction (sp_content p)" using assms(2) by (simp add: controls_passed_def)
  then have "releaseAssistantCandidateWithRecordedDecision sc (am_candidate result) ss (aq_question q) True = Inl OtherError"
    using assms(3-5) by (intro release_fails) (auto simp: unexpected_reasons_def)
  then have "consult_model sc env q s ss = Inl OtherError" using assms(6) by (simp add: consult_model_def)
  then have "find_answer sc maxContext env q s ss = Inl OtherError" using assms(2) control_None [of maxContext q ss] by (simp add: find_answer_def)
  then show ?thesis using assms(1) by (auto simp: supports_of_def answerOnce_def gather_def recover_def Let_def)
qed

text \<open>
  The reason codes of two refusals do not name their reason: an inactive support is reported as missing evidence, and an
  embedded instruction without any reason.
\<close>

theorem refusal_reasons:
  "precondition [p\<lparr>sp_status := Stale\<rparr>] False = Some (o1, c1, m1) \<Longrightarrow> c1 = ''inactive-support'' \<and> reasonCodesForOutcome o1 m1 = [''missing-evidence'']"
  "precondition ss True = Some (o2, c2, m2) \<Longrightarrow> c2 = ''prompt-injection'' \<and> reasonCodesForOutcome o2 m2 = []"
proof -
  have "reasonCodesForOutcome OAbstain ''Required support is missing, restricted, stale, revoked, or superseded.'' = [''missing-evidence'']"
    "reasonCodesForOutcome OAbstain ''Untrusted support contained instruction-like content.'' = []"
    by code_simp+
  then show "precondition [p\<lparr>sp_status := Stale\<rparr>] False = Some (o1, c1, m1) \<Longrightarrow> c1 = ''inactive-support'' \<and> reasonCodesForOutcome o1 m1 = [''missing-evidence'']"
    "precondition ss True = Some (o2, c2, m2) \<Longrightarrow> c2 = ''prompt-injection'' \<and> reasonCodesForOutcome o2 m2 = []"
    by (auto simp: precondition_def)
qed

subsection \<open>Runs\<close>

text \<open>
  C7: under every interleaving of calls, ends of answers and deliveries, the audit ledger verifies, and every response a
  caller got has an audit event of its session with its outcome, its decision code and its validation codes, and a well-formed stored
  request that names this event.
\<close>

theorem answers_audited:
  "let w = run (assistant_step sc maxContext) no_answers ops in
    verifyAssistantAuditEvents (al_audit (sc_lib sc)) (st_events (aw_state w))
    \<and> (\<forall>c r. (c, Inr r) \<in> set (aw_replies w) \<longrightarrow> audited (aw_state w) (pm_session (aw_promises w ! wc_promise c)) r)"
proof -
  let ?w = "run (assistant_step sc maxContext) no_answers ops"
  have w: "assistant_inv (sc_lib sc) ?w" by (rule assistant.inv_run)
  have "audited (aw_state ?w) (pm_session (aw_promises ?w ! wc_promise c)) r" if "(c, Inr r) \<in> set (aw_replies ?w)" for c r
  proof -
    have "caller_ok (aw_promises ?w) c" "pm_status (aw_promises ?w ! wc_promise c) = Fulfilled r"
      using w that by (auto simp: assistant_inv_def)
    then show ?thesis using w by (auto simp: assistant_inv_def caller_ok_def)
  qed
  then show ?thesis using w by (simp add: assistant_inv_def Let_def)
qed

theorem answers_audited_witness:
  "(let w = run (assistant_step ex_screening 12000) no_answers ex_ops in map snd (aw_replies w) = [Inr ex_response, Inr ex_response]
    \<and> audited (aw_state w) ex_session ex_response)"
proof -
  obtain c1 c2 p where w: "aw_replies (run (assistant_step ex_screening 12000) no_answers ex_ops) = [(c1, Inr ex_response), (c2, Inr ex_response)]"
    "aw_promises (run (assistant_step ex_screening 12000) no_answers ex_ops) = [p]" "pm_session p = ex_session" "wc_promise c1 = 0"
    using ex_run by blast
  then have "audited (aw_state (run (assistant_step ex_screening 12000) no_answers ex_ops)) ex_session ex_response"
    using answers_audited [of ex_screening 12000 ex_ops] unfolding Let_def by fastforce
  then show ?thesis using w by (simp add: Let_def)
qed

text \<open>
  C6: under every interleaving, two responses for one idempotency key of an identity are the same, were asked for with the same
  fingerprint, and at most one answer of a key is not rejected: a query is not answered twice, however calls overlap.
\<close>

theorem answers_idempotent:
  "let w = run (assistant_step sc maxContext) no_answers ops in
    (\<forall>c r c' r' k. (c, Inr r) \<in> set (aw_replies w) \<and> (c', Inr r') \<in> set (aw_replies w) \<and> wc_key c = Some k \<and> wc_key c' = Some k
      \<longrightarrow> r = r' \<and> wc_fingerprint c = wc_fingerprint c')
    \<and> (\<forall>i j k. i < length (aw_promises w) \<and> j < length (aw_promises w) \<and> pm_key (aw_promises w ! i) = Some k
        \<and> pm_key (aw_promises w ! j) = Some k \<and> \<not> rejected (aw_promises w ! i) \<and> \<not> rejected (aw_promises w ! j) \<longrightarrow> i = j)"
proof -
  let ?w = "run (assistant_step sc maxContext) no_answers ops"
  have w: "assistant_inv (sc_lib sc) ?w" by (rule assistant.inv_run)
  have once: "i = j" if "i < length (aw_promises ?w)" "j < length (aw_promises ?w)" "pm_key (aw_promises ?w ! i) = Some k"
    "pm_key (aw_promises ?w ! j) = Some k" "\<not> rejected (aw_promises ?w ! i)" "\<not> rejected (aw_promises ?w ! j)" for i j k
  proof -
    have "map_option snd (jm_get (aw_answers ?w) k) = Some i" "map_option snd (jm_get (aw_answers ?w) k) = Some j"
      using w that unfolding assistant_inv_def entries_ok_def by blast+
    then show ?thesis by simp
  qed
  have reply: "caller_ok (aw_promises ?w) c \<and> pm_status (aw_promises ?w ! wc_promise c) = Fulfilled r" if "(c, Inr r) \<in> set (aw_replies ?w)" for c r
    using w that by (auto simp: assistant_inv_def)
  have "r = r' \<and> wc_fingerprint c = wc_fingerprint c'"
    if "(c, Inr r) \<in> set (aw_replies ?w)" "(c', Inr r') \<in> set (aw_replies ?w)" "wc_key c = Some k" "wc_key c' = Some k" for c r c' r' k
  proof -
    have "wc_promise c = wc_promise c'"
      using reply [OF that(1)] reply [OF that(2)] that(3,4) by (intro once [of _ _ k]) (auto simp: caller_ok_def rejected_def)
    then show ?thesis using reply [OF that(1)] reply [OF that(2)] by (auto simp: caller_ok_def)
  qed
  then show ?thesis using once unfolding Let_def by blast
qed

theorem answers_idempotent_witness:
  "(let w = run (assistant_step ex_screening 12000) no_answers ex_ops in
     \<exists>c c'. c \<noteq> c' \<and> wc_key c = wc_key c' \<and> (c, Inr ex_response) \<in> set (aw_replies w) \<and> (c', Inr ex_response) \<in> set (aw_replies w)
       \<and> wc_fingerprint c = wc_fingerprint c')"
proof -
  let ?w = "run (assistant_step ex_screening 12000) no_answers ex_ops"
  obtain c c' where c: "aw_replies ?w = [(c, Inr ex_response), (c', Inr ex_response)]" and ne: "c \<noteq> c'"
    and key: "wc_key c = Some (answer_key ex_session ex_uuid4)" "wc_key c' = wc_key c"
    using ex_run by blast
  have "(c, Inr ex_response) \<in> set (aw_replies ?w) \<and> (c', Inr ex_response) \<in> set (aw_replies ?w)
      \<and> wc_key c = Some (answer_key ex_session ex_uuid4) \<and> wc_key c' = Some (answer_key ex_session ex_uuid4)"
    using key unfolding c by simp
  with answers_idempotent [of ex_screening 12000 ex_ops, unfolded Let_def, THEN conjunct1, rule_format,
      of c ex_response c' ex_response "answer_key ex_session ex_uuid4"]
  have "wc_fingerprint c = wc_fingerprint c'" by blast
  then show ?thesis using ne key unfolding Let_def c by (intro exI [of _ c] exI [of _ c']) simp
qed

end
