(* ===== verification/Http_Controls.thy ===== *)
theory Http_Controls
  imports Schemas
begin

text \<open>
  \<open>src/operations/http-controls.ts\<close>: the request-rate limiter, the operational counters and the retry
  loop; and \<open>src/health/readiness.ts\<close>. The clock, the request and \<open>localeCompare\<close> are parameters. The
  lemmas bound the limiter's memory and the requests it lets through per window, and show what the
  retry loop returns after how many calls.
\<close>

subsection \<open>Rate limiting\<close>

record bucket =
  bk_count :: nat
  bk_resetAt :: int

record limiter =
  lm_buckets :: "(string, bucket) jmap"
  lm_requestCount :: nat
  lm_limit :: int
  lm_windowMs :: int
  lm_maxBuckets :: int
  lm_cleanupEvery :: int

definition positive_ok :: "int \<Rightarrow> bool" where
  "positive_ok v = (\<not> (v > max_safe_integer \<or> v \<le> 0))"

definition rateLimit :: "int \<Rightarrow> int \<Rightarrow> int option \<Rightarrow> int option \<Rightarrow> limiter option" where
  "rateLimit limit windowMs maxBuckets cleanupEvery =
     (let mb = (case maxBuckets of None \<Rightarrow> 10000 | Some v \<Rightarrow> v);
          ce = (case cleanupEvery of None \<Rightarrow> 256 | Some v \<Rightarrow> v) in
      if positive_ok mb \<and> positive_ok ce \<and> positive_ok limit \<and> positive_ok windowMs
      then Some \<lparr>lm_buckets = [], lm_requestCount = 0, lm_limit = limit, lm_windowMs = windowMs,
                 lm_maxBuckets = mb, lm_cleanupEvery = ce\<rparr>
      else None)"

datatype limit_reply =
  LimitPass int \<comment> \<open>the header \<open>ratelimit-remaining\<close>\<close>
  | LimitReject int \<comment> \<open>status 429, the header \<open>retry-after\<close>\<close>

definition limit_key :: "string \<Rightarrow> string \<Rightarrow> string" where
  "limit_key ip path = ip @ '':'' @ (if starts_with ''/api/v1/auth'' path then ''auth'' else ''api'')"

definition removeExpiredBuckets :: "int \<Rightarrow> (string, bucket) jmap \<Rightarrow> (string, bucket) jmap" where
  "removeExpiredBuckets time bs = jm_filter (\<lambda>_ b. \<not> bk_resetAt b \<le> time) bs"

definition retry_after :: "int \<Rightarrow> int \<Rightarrow> int" where
  "retry_after resetAt time = max 1 (- ((time - resetAt) div 1000))"

definition earliest_reset :: "(string, bucket) jmap \<Rightarrow> int" where
  "earliest_reset bs = Min (set (map bk_resetAt (jm_values bs)))"

text \<open>The part of the handler before the bucket is charged: the periodic and the emergency cleanup.\<close>

definition limiter_clean :: "limiter \<Rightarrow> string \<Rightarrow> int \<Rightarrow> limiter" where
  "limiter_clean m key time =
     (let n = lm_requestCount m + 1;
          bs1 = (if int n mod lm_cleanupEvery m = 0 then removeExpiredBuckets time (lm_buckets m) else lm_buckets m);
          bs2 = (if jm_get bs1 key = None \<and> int (length bs1) \<ge> lm_maxBuckets m
                 then removeExpiredBuckets time bs1 else bs1)
      in m\<lparr>lm_requestCount := n, lm_buckets := bs2\<rparr>)"

definition charge :: "limiter \<Rightarrow> bucket option \<Rightarrow> int \<Rightarrow> bucket" where
  "charge m current time =
     (case current of
        Some b \<Rightarrow> if bk_resetAt b \<le> time then \<lparr>bk_count = 1, bk_resetAt = time + lm_windowMs m\<rparr>
                  else b\<lparr>bk_count := bk_count b + 1\<rparr>
      | None \<Rightarrow> \<lparr>bk_count = 1, bk_resetAt = time + lm_windowMs m\<rparr>)"

definition limiter_request :: "limiter \<Rightarrow> string \<Rightarrow> int \<Rightarrow> limit_reply \<times> limiter" where
  "limiter_request m key time =
     (let m1 = limiter_clean m key time; bs = lm_buckets m1; current = jm_get bs key in
      if current = None \<and> int (length bs) \<ge> lm_maxBuckets m1
      then (LimitReject (retry_after (max (time + 1000) (earliest_reset bs)) time), m1)
      else let b = charge m1 current time; m2 = m1\<lparr>lm_buckets := jm_set key b bs\<rparr> in
        (if int (bk_count b) > lm_limit m1 then LimitReject (retry_after (bk_resetAt b) time)
         else LimitPass (max 0 (lm_limit m1 - int (bk_count b))), m2))"

subsection \<open>Counters\<close>

type_synonym metrics = "(string, nat) jmap"

definition label_char_ok :: "char \<Rightarrow> bool" where
  "label_char_ok c = (c \<in> set ''abcdefghijklmnopqrstuvwxyzABCDEFGHIJKLMNOPQRSTUVWXYZ0123456789_.-'')"

definition label_value :: "string \<Rightarrow> string" where
  "label_value v = map (\<lambda>c. if label_char_ok c then c else CHR ''_'') v"

definition label_text :: "string \<times> string \<Rightarrow> string" where
  "label_text l = fst l @ ''='' @ [CHR 0x22] @ label_value (snd l) @ [CHR 0x22]"

definition metric_key :: "(string \<Rightarrow> string \<Rightarrow> bool) \<Rightarrow> string \<Rightarrow> (string \<times> string) list \<Rightarrow> string" where
  "metric_key localeLe metric labels =
     (let suffix = join '','' (map label_text (js_sort (\<lambda>l r. localeLe (fst l) (fst r)) labels)) in
      if suffix = [] then metric else metric @ ''{'' @ suffix @ ''}'')"

definition increment :: "(string \<Rightarrow> string \<Rightarrow> bool) \<Rightarrow> metrics \<Rightarrow> string \<times> (string \<times> string) list \<Rightarrow> metrics" where
  "increment localeLe counts m =
     (let key = metric_key localeLe (fst m) (snd m) in
      jm_set key ((case jm_get counts key of None \<Rightarrow> 0 | Some n \<Rightarrow> n) + 1) counts)"

definition render_metrics :: "(string \<Rightarrow> string \<Rightarrow> bool) \<Rightarrow> metrics \<Rightarrow> string" where
  "render_metrics localeLe counts =
     join [CHR 0x0A] (map (\<lambda>(k, n). k @ '' '' @ show_nat n) (js_sort (\<lambda>l r. localeLe (fst l) (fst r)) counts))"

definition request_finished :: "(string \<Rightarrow> string \<Rightarrow> bool) \<Rightarrow> metrics \<Rightarrow> string \<Rightarrow> nat \<Rightarrow> int \<Rightarrow> metrics" where
  "request_finished localeLe counts method status elapsedMs =
     (let c1 = increment localeLe counts (''evllm_http_requests_total'', [(''method'', method), (''status'', show_nat status)]) in
      if elapsedMs \<ge> 5000 then increment localeLe c1 (''evllm_http_slow_total'', []) else c1)"

subsection \<open>Retries\<close>

text \<open>
  \<open>outcome attempt\<close> is what the operation does on that attempt. The result carries the delays waited;
  an error of \<open>None\<close> is the \<open>undefined\<close> thrown when no attempt is allowed.
\<close>

function retry_from :: "(int \<Rightarrow> 'e + 'a) \<Rightarrow> int \<Rightarrow> int \<Rightarrow> int \<Rightarrow> 'e option \<Rightarrow> ('e option + 'a) \<times> int list" where
  "retry_from outcome attempts baseDelayMs attempt lastError =
     (if attempt \<le> attempts then
        (case outcome attempt of
           Inr v \<Rightarrow> (Inr v, [])
         | Inl e \<Rightarrow>
             if attempt = attempts then (Inl (Some e), [])
             else let (r, delays) = retry_from outcome attempts baseDelayMs (attempt + 1) (Some e)
                  in (r, baseDelayMs * attempt # delays))
      else (Inl lastError, []))"
  by pat_completeness auto

termination
  by (relation "measure (\<lambda>(outcome, attempts, b, attempt, l). nat (attempts + 1 - attempt))") auto

declare retry_from.simps [simp del]

definition retryTransient :: "(int \<Rightarrow> 'e + 'a) \<Rightarrow> int \<Rightarrow> int \<Rightarrow> ('e option + 'a) \<times> int list" where
  "retryTransient outcome attempts baseDelayMs = retry_from outcome attempts baseDelayMs 1 None"

subsection \<open>Readiness\<close>

datatype probe_outcome = ProbeFulfilled | ProbeRejected | ProbeTimedOut
datatype readiness_status = Ready | NotReady

record readiness_result =
  rr_checks :: "(string \<times> readiness_status) list"
  rr_status :: readiness_status

definition evaluateReadiness :: "(string \<times> probe_outcome) list \<Rightarrow> readiness_result" where
  "evaluateReadiness checks =
     (let evaluated = map (\<lambda>(n, p). (n, if p = ProbeFulfilled then Ready else NotReady)) checks in
      \<lparr>rr_checks = evaluated,
       rr_status = (if list_all (\<lambda>c. snd c = Ready) evaluated then Ready else NotReady)\<rparr>)"

lemma evaluateReadiness_Ready:
  "rr_status (evaluateReadiness checks) = Ready \<longleftrightarrow> (\<forall>(n, p)\<in>set checks. p = ProbeFulfilled)"
  by (auto simp: evaluateReadiness_def Let_def list_all_iff split: prod.splits)

subsection \<open>What the retry loop does\<close>

text \<open>The first attempt that succeeds, if any, is the last one made.\<close>

lemma retry_from_success:
  assumes "attempt \<le> k" and "k \<le> attempts" and "outcome k = Inr v"
    and "\<And>j. attempt \<le> j \<Longrightarrow> j < k \<Longrightarrow> \<exists>e. outcome j = Inl e"
  shows "retry_from outcome attempts b attempt l = (Inr v, map (\<lambda>j. b * j) [attempt..k - 1])"
  using assms
proof (induction "nat (k - attempt)" arbitrary: attempt l)
  case 0
  then show ?case by (subst retry_from.simps) simp
next
  case (Suc n)
  have lt: "attempt < k" using Suc.hyps(2) by linarith
  then obtain e where e: "outcome attempt = Inl e" using Suc.prems(4) by blast
  have "retry_from outcome attempts b (attempt + 1) (Some e) = (Inr v, map (\<lambda>j. b * j) [attempt + 1..k - 1])"
    using Suc lt by (intro Suc.hyps(1)) auto
  then show ?case using e lt Suc.prems by (subst retry_from.simps) (simp add: upto_rec1 [of attempt])
qed

lemma retry_from_failure:
  assumes "attempt \<le> attempts" and "\<And>j. attempt \<le> j \<Longrightarrow> j \<le> attempts \<Longrightarrow> outcome j = Inl (err j)"
  shows "retry_from outcome attempts b attempt l = (Inl (Some (err attempts)), map (\<lambda>j. b * j) [attempt..attempts - 1])"
  using assms
proof (induction "nat (attempts - attempt)" arbitrary: attempt l)
  case 0
  then have "attempt = attempts" by simp
  then show ?case using 0 by (subst retry_from.simps) simp
next
  case (Suc n)
  have lt: "attempt < attempts" using Suc.hyps(2) by linarith
  have "retry_from outcome attempts b (attempt + 1) (Some (err attempt)) =
      (Inl (Some (err attempts)), map (\<lambda>j. b * j) [attempt + 1..attempts - 1])"
    using Suc lt by (intro Suc.hyps(1)) auto
  then show ?case using lt Suc.prems by (subst retry_from.simps) (simp add: upto_rec1 [of attempt])
qed

subsection \<open>Counters count\<close>

lemma increment_get:
  "jm_get (increment localeLe counts m) k =
     (if k = metric_key localeLe (fst m) (snd m)
      then Some ((case jm_get counts k of None \<Rightarrow> 0 | Some n \<Rightarrow> n) + 1) else jm_get counts k)"
  by (simp add: increment_def Let_def jm_simps)

lemma increments_count:
  "(case jm_get (foldl (increment localeLe) counts ms) k of None \<Rightarrow> 0 | Some n \<Rightarrow> n) =
     (case jm_get counts k of None \<Rightarrow> 0 | Some n \<Rightarrow> n)
       + length (filter (\<lambda>m. metric_key localeLe (fst m) (snd m) = k) ms)"
  by (induction ms arbitrary: counts) (auto simp: increment_get)

lemma label_value_safe: "c \<in> set (label_value v) \<Longrightarrow> label_char_ok c"
  by (auto simp: label_value_def label_char_ok_def)

subsection \<open>What the limiter lets through\<close>

text \<open>
  \<open>lw_log\<close> records the requests that passed, with their times. \<open>passed_since lg k a\<close> counts those of one
  key from time \<open>a\<close> on, \<open>passed_between lg k a c\<close> those from \<open>a\<close> until before \<open>c\<close>. Since the windows of a key
  start with a request, an interval as long as a window meets at most two of them, and never the start of both.
\<close>

record limit_world =
  lw_limiter :: limiter
  lw_log :: "(string \<times> int) list"
  lw_time :: int

definition passed_since :: "(string \<times> int) list \<Rightarrow> string \<Rightarrow> int \<Rightarrow> nat" where
  "passed_since lg k a = length (filter (\<lambda>(k', t). k' = k \<and> a \<le> t) lg)"

definition passed_between :: "(string \<times> int) list \<Rightarrow> string \<Rightarrow> int \<Rightarrow> int \<Rightarrow> nat" where
  "passed_between lg k a c = length (filter (\<lambda>(k', t). k' = k \<and> a \<le> t \<and> t < c) lg)"

fun limit_step :: "limit_world \<Rightarrow> string \<times> int \<Rightarrow> limit_world" where
  "limit_step w (key, time) =
     (case limiter_request (lw_limiter w) key time of
        (LimitPass _, m) \<Rightarrow> \<lparr>lw_limiter = m, lw_log = lw_log w @ [(key, time)], lw_time = time\<rparr>
      | (LimitReject _, m) \<Rightarrow> \<lparr>lw_limiter = m, lw_log = lw_log w, lw_time = time\<rparr>)"

definition bucket_ok :: "int \<Rightarrow> int \<Rightarrow> (string \<times> int) list \<Rightarrow> int \<Rightarrow> string \<Rightarrow> bucket option \<Rightarrow> bool" where
  "bucket_ok limit window lg time k b =
     ((\<forall>a. int (passed_between lg k a (a + window)) \<le> 2 * limit - 1)
      \<and> (case b of
           None \<Rightarrow> (\<forall>t. (k, t) \<in> set lg \<longrightarrow> t < time) \<and> int (passed_since lg k (time - window + 1)) \<le> limit - 1
         | Some b \<Rightarrow> bk_resetAt b - window \<le> time \<and> (\<forall>t. (k, t) \<in> set lg \<longrightarrow> t < bk_resetAt b)
             \<and> int (passed_since lg k (bk_resetAt b - window)) = min (int (bk_count b)) limit
             \<and> (k, bk_resetAt b - window) \<in> set lg
             \<and> int (passed_between lg k (bk_resetAt b - 2 * window + 1) (bk_resetAt b - window)) \<le> limit - 1))"

definition limiter_ok :: "limit_world \<Rightarrow> bool" where
  "limiter_ok w = (let m = lw_limiter w in
     0 < lm_limit m \<and> 0 < lm_windowMs m \<and> 0 < lm_maxBuckets m \<and> jm_ok (lm_buckets m)
     \<and> int (length (lm_buckets m)) \<le> lm_maxBuckets m
     \<and> (\<forall>k. bucket_ok (lm_limit m) (lm_windowMs m) (lw_log w) (lw_time w) k (jm_get (lm_buckets m) k)))"

lemma passed_since_none: "(\<And>t. (k, t) \<in> set lg \<Longrightarrow> t < a) \<Longrightarrow> passed_since lg k a = 0"
  by (force simp: passed_since_def filter_empty_conv)

lemma passed_since_snoc:
  "passed_since (lg @ [(k', t)]) k a = passed_since lg k a + (if k' = k \<and> a \<le> t then 1 else 0)"
  by (simp add: passed_since_def)

lemma passed_between_snoc:
  "passed_between (lg @ [(k', t)]) k a c = passed_between lg k a c + (if k' = k \<and> a \<le> t \<and> t < c then 1 else 0)"
  by (simp add: passed_between_def)

lemma length_filter_mono: "(\<And>x. P x \<Longrightarrow> Q x) \<Longrightarrow> length (filter P xs) \<le> length (filter Q xs)"
  by (induction xs) auto

lemma passed_since_antimono: "a \<le> c \<Longrightarrow> passed_since lg k c \<le> passed_since lg k a"
  unfolding passed_since_def by (rule length_filter_mono) auto

lemma passed_since_strict: "(k, a) \<in> set lg \<Longrightarrow> passed_since lg k (a + 1) < passed_since lg k a"
proof (induction lg)
  case (Cons x lg)
  then show ?case using passed_since_antimono [of a "a + 1" lg k] by (auto simp: passed_since_def split: prod.splits)
qed simp

lemma passed_between_since: "a \<le> c \<Longrightarrow> passed_between lg k c d \<le> passed_since lg k a"
  unfolding passed_since_def passed_between_def by (rule length_filter_mono) auto

lemma passed_between_split: "a \<le> a' \<Longrightarrow> passed_between lg k a' d \<le> passed_between lg k a c + passed_since lg k c"
  by (induction lg) (auto simp: passed_between_def passed_since_def)

lemma bucket_ok_later: "bucket_ok l w lg t k b \<Longrightarrow> t \<le> t' \<Longrightarrow> bucket_ok l w lg t' k b"
  using passed_since_antimono [of "t - w + 1" "t' - w + 1" lg k]
  by (cases b) (auto simp: bucket_ok_def dest: order_less_le_trans)

text \<open>A bucket that has expired leaves at most a window's worth of recent requests.\<close>

lemma bucket_ok_drop:
  assumes "bucket_ok l w lg t k (Some b)" and "bk_resetAt b \<le> t'"
  shows "bucket_ok l w lg t' k None"
proof -
  have "int (passed_since lg k (t' - w + 1)) \<le> l - 1"
    using assms passed_since_antimono [of "bk_resetAt b - w + 1" "t' - w + 1" lg k]
      passed_since_strict [of k "bk_resetAt b - w" lg] by (auto simp: bucket_ok_def)
  with assms show ?thesis by (fastforce simp: bucket_ok_def)
qed

lemma bucket_ok_expire:
  assumes "jm_ok bs" and "bucket_ok l w lg t k (jm_get bs k)" and "t \<le> t'"
  shows "bucket_ok l w lg t' k (jm_get (removeExpiredBuckets t' bs) k)"
  using bucket_ok_later [OF assms(2,3)] bucket_ok_drop [of l w lg t k _ t'] assms(1,2)
  by (cases "jm_get bs k") (simp_all add: removeExpiredBuckets_def jm_get_filter)

lemma limiter_clean_ok:
  assumes "limiter_ok w" and "lw_time w \<le> t"
  shows "limiter_ok (w\<lparr>lw_limiter := limiter_clean (lw_limiter w) key t, lw_time := t\<rparr>)"
proof -
  let ?m = "lw_limiter w" and ?R = "removeExpiredBuckets t"
  have len: "length (?R bs) \<le> length bs" "jm_ok bs \<Longrightarrow> jm_ok (?R bs)" for bs
    by (simp_all add: removeExpiredBuckets_def length_jm_filter jm_ok_filter)
  have b: "jm_ok (lm_buckets ?m)" "int (length (lm_buckets ?m)) \<le> lm_maxBuckets ?m"
    "\<And>k. bucket_ok (lm_limit ?m) (lm_windowMs ?m) (lw_log w) (lw_time w) k (jm_get (lm_buckets ?m) k)"
    using assms(1) by (auto simp: limiter_ok_def Let_def)
  define P where "P bs \<longleftrightarrow> jm_ok bs \<and> int (length bs) \<le> lm_maxBuckets ?m
      \<and> (\<forall>k. bucket_ok (lm_limit ?m) (lm_windowMs ?m) (lw_log w) t k (jm_get bs k))" for bs
  have R: "P (?R bs)" if "P bs" for bs
    using that len [of bs] bucket_ok_expire [of bs _ _ _ t _ t] by (fastforce simp: P_def)
  have "P (lm_buckets ?m)" using b(1,2) bucket_ok_later [OF b(3) assms(2)] by (simp add: P_def)
  then have "P (lm_buckets (limiter_clean ?m key t))" using R by (simp add: limiter_clean_def Let_def)
  moreover have "lm_limit (limiter_clean ?m key t) = lm_limit ?m" "lm_windowMs (limiter_clean ?m key t) = lm_windowMs ?m"
    "lm_maxBuckets (limiter_clean ?m key t) = lm_maxBuckets ?m" by (simp_all add: limiter_clean_def Let_def)
  ultimately show ?thesis using assms(1) by (simp add: limiter_ok_def Let_def P_def)
qed

text \<open>Charging a request to a new bucket, and to one that still runs.\<close>

lemma charge_new_ok:
  assumes ok: "bucket_ok l win lg t key None" and pos: "0 < l" "0 < win"
  shows "bucket_ok l win (lg @ [(key, t)]) t key (Some \<lparr>bk_count = 1, bk_resetAt = t + win\<rparr>)"
proof -
  have old: "u < t" if "(key, u) \<in> set lg" for u using that ok by (simp add: bucket_ok_def)
  then have "passed_since lg key t = 0" by (rule passed_since_none)
  moreover have recent: "int (passed_between lg key a c) \<le> l - 1" if "t - win + 1 \<le> a" for a c
    using passed_between_since [OF that, of lg key c] ok by (simp add: bucket_ok_def)
  moreover have "int (passed_between (lg @ [(key, t)]) key a (a + win)) \<le> 2 * l - 1" for a
    using recent [of a "a + win"] ok pos by (auto simp: bucket_ok_def passed_between_snoc)
  ultimately show ?thesis using pos old
    by (force simp: bucket_ok_def passed_since_snoc passed_between_snoc)
qed

lemma charge_old_ok:
  assumes ok: "bucket_ok l win lg t key (Some c)" and t: "t < bk_resetAt c" and pos: "0 < l" "0 < win"
  shows "bucket_ok l win (if int (bk_count c + 1) > l then lg else lg @ [(key, t)]) t key (Some (c\<lparr>bk_count := bk_count c + 1\<rparr>))"
proof (cases "int (bk_count c + 1) > l")
  case True
  then show ?thesis using ok by (auto simp: bucket_ok_def)
next
  case False
  let ?st = "bk_resetAt c - win"
  have c: "int (passed_since lg key ?st) = int (bk_count c)" "int (passed_between lg key (?st - win + 1) ?st) \<le> l - 1" "?st \<le> t"
    using ok False by (auto simp: bucket_ok_def algebra_simps)
  have "int (passed_between (lg @ [(key, t)]) key a (a + win)) \<le> 2 * l - 1" for a
  proof (cases "a \<le> t \<and> t < a + win")
    case True
    then have "passed_between lg key a (a + win) \<le> passed_between lg key (?st - win + 1) ?st + passed_since lg key ?st"
      using c(3) by (intro passed_between_split) linarith
    then show ?thesis using True c False by (simp add: passed_between_snoc)
  next
    case False
    then show ?thesis using ok by (auto simp: passed_between_snoc bucket_ok_def)
  qed
  then show ?thesis using ok t False pos by (auto simp: bucket_ok_def passed_since_snoc passed_between_snoc)
qed

lemma charge_ok:
  assumes ok: "bucket_ok l win lg t key current" and pos: "0 < l" "0 < win" "lm_windowMs m = win"
    and b: "b = charge m current t"
  shows "bucket_ok l win (if int (bk_count b) > l then lg else lg @ [(key, t)]) t key (Some b)"
proof (cases "current = None \<or> bk_resetAt (the current) \<le> t")
  case True
  then have b: "b = \<lparr>bk_count = 1, bk_resetAt = t + win\<rparr>" using b pos(3) by (auto simp: charge_def split: option.splits)
  have "bucket_ok l win lg t key None" using ok True bucket_ok_drop by (cases current) auto
  then show ?thesis using b pos charge_new_ok [of l win lg t key] by simp
next
  case False
  then obtain c where c: "current = Some c" "t < bk_resetAt c" by auto
  then have "b = c\<lparr>bk_count := bk_count c + 1\<rparr>" using b by (simp add: charge_def)
  then show ?thesis using ok c pos charge_old_ok [of l win lg t key c] by simp
qed

lemma limit_step_ok:
  assumes ok: "limiter_ok w" and t: "lw_time w \<le> t"
  shows "limiter_ok (limit_step w (key, t))"
proof -
  let ?m = "limiter_clean (lw_limiter w) key t"
  let ?bs = "lm_buckets ?m"
  let ?current = "jm_get ?bs key"
  define b where "b = charge ?m ?current t"
  have w1: "limiter_ok (w\<lparr>lw_limiter := ?m, lw_time := t\<rparr>)" by (rule limiter_clean_ok [OF ok t])
  show ?thesis
  proof (cases "?current = None \<and> int (length ?bs) \<ge> lm_maxBuckets ?m")
    case True
    then show ?thesis using w1 by (simp add: limiter_request_def Let_def limiter_ok_def)
  next
    case False
    let ?lg = "if int (bk_count b) > lm_limit ?m then lw_log w else lw_log w @ [(key, t)]"
    have buckets: "bucket_ok (lm_limit ?m) (lm_windowMs ?m) (lw_log w) t k (jm_get ?bs k)" for k
      using w1 by (simp add: limiter_ok_def Let_def)
    have "bucket_ok (lm_limit ?m) (lm_windowMs ?m) ?lg t k (jm_get (jm_set key b ?bs) k)" for k
    proof (cases "k = key")
      case True
      then show ?thesis
        using charge_ok [OF buckets [of key] _ _ refl b_def] w1 by (simp add: jm_get_set limiter_ok_def Let_def)
    next
      case other: False
      then show ?thesis using buckets [of k]
        by (cases "jm_get ?bs k") (auto simp: jm_get_set bucket_ok_def passed_since_snoc passed_between_snoc)
    qed
    moreover have "jm_ok (jm_set key b ?bs)" "int (length (jm_set key b ?bs)) \<le> lm_maxBuckets ?m"
      using w1 False by (auto simp: limiter_ok_def Let_def jm_ok_set length_jm_set jm_has_def)
    ultimately have "limiter_ok \<lparr>lw_limiter = ?m\<lparr>lm_buckets := jm_set key b ?bs\<rparr>, lw_log = ?lg, lw_time = t\<rparr>"
      using w1 by (simp add: limiter_ok_def Let_def)
    then show ?thesis using False by (auto simp: limiter_request_def Let_def b_def [symmetric] split: if_splits)
  qed
qed

lemma limit_run_ok:
  assumes "limiter_ok w" and "sorted (lw_time w # map snd reqs)"
  shows "limiter_ok (run limit_step w reqs)"
  using assms
proof (induction reqs arbitrary: w)
  case (Cons r reqs)
  obtain key t where r: "r = (key, t)" by fastforce
  have "lw_time (limit_step w r) = t" by (simp add: r split: prod.splits limit_reply.splits)
  then show ?case using Cons limit_step_ok [OF Cons.prems(1), of t key] by (simp add: r)
qed simp

definition limit_world_of :: "limiter \<Rightarrow> int \<Rightarrow> limit_world" where
  "limit_world_of m t = \<lparr>lw_limiter = m, lw_log = [], lw_time = t\<rparr>"

lemma rateLimit_ok: "rateLimit l w mb ce = Some m \<Longrightarrow> limiter_ok (limit_world_of m t)"
  by (auto simp: rateLimit_def limiter_ok_def limit_world_of_def Let_def positive_ok_def bucket_ok_def passed_since_def
      passed_between_def split: if_splits)

lemma limit_run_settings:
  "lm_limit (lw_limiter (run limit_step w reqs)) = lm_limit (lw_limiter w)
   \<and> lm_windowMs (lw_limiter (run limit_step w reqs)) = lm_windowMs (lw_limiter w)
   \<and> lm_maxBuckets (lw_limiter (run limit_step w reqs)) = lm_maxBuckets (lw_limiter w)"
proof (induction reqs arbitrary: w)
  case (Cons r reqs)
  show ?case
    using Cons [of "limit_step w r"]
    by (cases r) (auto simp: limiter_request_def limiter_clean_def Let_def split: prod.splits limit_reply.splits if_splits)
qed simp

lemma limiter_ok_bounds:
  assumes "limiter_ok w"
  shows "int (length (lm_buckets (lw_limiter w))) \<le> lm_maxBuckets (lw_limiter w)
    \<and> int (passed_between (lw_log w) k a (a + lm_windowMs (lw_limiter w))) \<le> 2 * lm_limit (lw_limiter w) - 1"
  using assms by (simp add: limiter_ok_def Let_def bucket_ok_def)

text \<open>Requests that find a running bucket with room, or room for a bucket, pass.\<close>

lemma limiter_passes:
  assumes "jm_get (lm_buckets m) key = Some b" and "time < bk_resetAt b" and "int (bk_count b) < lm_limit m"
    and "jm_ok (lm_buckets m)"
  shows "fst (limiter_request m key time) = LimitPass (lm_limit m - int (bk_count b) - 1)"
proof -
  have "jm_get (lm_buckets (limiter_clean m key time)) key = Some b"
    using assms by (auto simp: limiter_clean_def Let_def removeExpiredBuckets_def jm_get_filter jm_ok_filter)
  moreover have "lm_limit (limiter_clean m key time) = lm_limit m" by (simp add: limiter_clean_def Let_def)
  ultimately show ?thesis using assms by (simp add: limiter_request_def Let_def charge_def)
qed

end
