(* ===== verification/Marketplace_Gateway.thy ===== *)
theory Marketplace_Gateway
  imports Schemas
begin

text \<open>
  \<open>src/marketplace/gateway.ts\<close>: the gateway that checks signed marketplace commands and hands them to
  the chain once per command identifier. The payload is an arbitrary type; the fingerprint (SHA-256 of
  canonical JSON), the signature and policy checks and the execution are parameters. \<open>submit\<close> awaits its
  checks and the execution between looking the command up and recording its result: \<open>submit_begin\<close> and
  \<open>submit_finish\<close> are the two halves, and \<open>gateway_step\<close> interleaves calls.
\<close>

datatype command_kind = CreateListing | WithdrawListing | SubmitOffer | WithdrawOffer | RejectOffer
  | ExpireListing | ExpireOffer | SelectOffer | ConfirmAgreement | FundAgreement | RecordDispatch
  | RecordDelivery | AcceptDelivery | OpenDispute | ResolveDispute | ApplyTimeout | Settle | WithdrawCredit

record 'p marketplace_command =
  mc_command_id :: string
  mc_kind :: command_kind
  mc_signer_actor_id :: string
  mc_signer_organization_id :: string
  mc_signer_credential_id :: string
  mc_signer_address :: string
  mc_issued_at :: int
  mc_expires_at :: int
  mc_nonce :: string
  mc_idempotency_key_hash :: string
  mc_payload :: 'p
  mc_signature :: string

definition marketplaceCommand_ok :: "'p marketplace_command \<Rightarrow> bool" where
  "marketplaceCommand_ok c = (urn_ok ''command'' (mc_command_id c)
     \<and> urn_ok ''actor'' (mc_signer_actor_id c) \<and> urn_ok ''org'' (mc_signer_organization_id c)
     \<and> urn_ok ''credential'' (mc_signer_credential_id c) \<and> canonicalAddress_ok (mc_signer_address c)
     \<and> positiveSafeInteger_ok (mc_issued_at c) \<and> positiveSafeInteger_ok (mc_expires_at c)
     \<and> bytes32Hex_ok (mc_nonce c) \<and> hex_text_ok 64 (mc_idempotency_key_hash c)
     \<and> hex_text_ok 130 (mc_signature c) \<and> \<not> mc_expires_at c \<le> mc_issued_at c)"

record command_result =
  cr_commandId :: string
  cr_transactionHash :: string

datatype gateway_error = GConflict | GExpired | GInvalid | GSignature | GUnknown
  | GExecutor \<comment> \<open>\<open>execute\<close> rejected; its error is passed on\<close>

type_synonym gateway = "(string, string \<times> command_result) jmap"

text \<open>Before the first \<open>await\<close>: a stored result, or the command goes on with its fingerprint.\<close>

definition submit_begin ::
  "('p marketplace_command \<Rightarrow> string) \<Rightarrow> gateway \<Rightarrow> int \<Rightarrow> 'p marketplace_command
    \<Rightarrow> gateway_error + (command_result + string)" where
  "submit_begin fingerprintOf g now command =
     rbind (parse_with marketplaceCommand_ok GInvalid command) (\<lambda>_.
     let fingerprint = fingerprintOf command in
     case jm_get g (mc_command_id command) of
       Some (f, result) \<Rightarrow> if f \<noteq> fingerprint then Inl GConflict else Inr (Inl result)
     | None \<Rightarrow> if now < mc_issued_at command \<or> now \<ge> mc_expires_at command then Inl GExpired
               else Inr (Inr fingerprint))"

text \<open>
  After the checks: \<open>verified\<close> and \<open>permitted\<close> are what they answered, \<open>executed\<close> is what the execution
  returned (\<open>None\<close> when it rejected).
\<close>

record check_answers =
  can_verified :: bool
  can_permitted :: bool
  can_executed :: "string option"

definition runs_execute :: "check_answers \<Rightarrow> bool" where
  "runs_execute a = (can_verified a \<and> can_permitted a)"

definition submit_finish ::
  "gateway \<Rightarrow> 'p marketplace_command \<Rightarrow> string \<Rightarrow> check_answers \<Rightarrow> gateway_error + (command_result \<times> gateway)" where
  "submit_finish g command fingerprint a =
     rbind (check (\<not> can_verified a) GSignature) (\<lambda>_.
     rbind (check (\<not> can_permitted a) GSignature) (\<lambda>_.
     rbind (from_option GExecutor (can_executed a)) (\<lambda>transactionHash.
     rbind (check (\<not> hex_text_ok 64 transactionHash) GInvalid) (\<lambda>_.
     let result = \<lparr>cr_commandId = mc_command_id command, cr_transactionHash = transactionHash\<rparr> in
     Inr (result, jm_set (mc_command_id command) (fingerprint, result) g)))))"

definition submit ::
  "('p marketplace_command \<Rightarrow> string) \<Rightarrow> gateway \<Rightarrow> int \<Rightarrow> check_answers \<Rightarrow> 'p marketplace_command
    \<Rightarrow> gateway_error + (command_result \<times> gateway)" where
  "submit fingerprintOf g now a command =
     rbind (submit_begin fingerprintOf g now command) (\<lambda>r.
     case r of Inl result \<Rightarrow> Inr (result, g) | Inr fingerprint \<Rightarrow> submit_finish g command fingerprint a)"

definition gateway_result :: "gateway \<Rightarrow> string \<Rightarrow> gateway_error + command_result" where
  "gateway_result g commandId = rbind (from_option GUnknown (jm_get g commandId)) (\<lambda>(f, r). Inr r)"

subsection \<open>Interleaved submissions\<close>

record 'p gateway_world =
  gw_gateway :: gateway
  gw_pending :: "('p marketplace_command \<times> string) list"
  gw_executed :: "'p marketplace_command list"

datatype 'p gateway_op = BeginSubmit int "'p marketplace_command" | FinishSubmit nat check_answers

fun gateway_step :: "('p marketplace_command \<Rightarrow> string) \<Rightarrow> 'p gateway_world \<Rightarrow> 'p gateway_op \<Rightarrow> 'p gateway_world" where
  "gateway_step fp w (BeginSubmit now c) =
     (case submit_begin fp (gw_gateway w) now c of
        Inr (Inr f) \<Rightarrow> w\<lparr>gw_pending := gw_pending w @ [(c, f)]\<rparr>
      | _ \<Rightarrow> w)"
| "gateway_step fp w (FinishSubmit n a) =
     (if n < length (gw_pending w) then
        let (c, f) = gw_pending w ! n;
            v = w\<lparr>gw_pending := take n (gw_pending w) @ drop (Suc n) (gw_pending w),
                  gw_executed := gw_executed w @ (if runs_execute a then [c] else [])\<rparr> in
        (case submit_finish (gw_gateway w) c f a of Inl e \<Rightarrow> v | Inr (r, g) \<Rightarrow> v\<lparr>gw_gateway := g\<rparr>)
      else w)"

definition no_submissions :: "'p gateway_world" where
  "no_submissions = \<lparr>gw_gateway = [], gw_pending = [], gw_executed = []\<rparr>"

text \<open>Every stored result names its command and a well-formed transaction, and its command was executed.\<close>

definition gateway_inv :: "('p marketplace_command \<Rightarrow> string) \<Rightarrow> 'p gateway_world \<Rightarrow> bool" where
  "gateway_inv fp w =
     ((\<forall>(c, f)\<in>set (gw_pending w). marketplaceCommand_ok c \<and> f = fp c)
      \<and> (\<forall>c\<in>set (gw_executed w). marketplaceCommand_ok c)
      \<and> (\<forall>i f r. jm_get (gw_gateway w) i = Some (f, r) \<longrightarrow> cr_commandId r = i \<and> hex_text_ok 64 (cr_transactionHash r)
           \<and> (\<exists>c\<in>set (gw_executed w). mc_command_id c = i \<and> f = fp c)))"

lemma submit_begin_Inr:
  "submit_begin fp g now c = Inr (Inr f) \<longleftrightarrow> marketplaceCommand_ok c \<and> f = fp c \<and> jm_get g (mc_command_id c) = None
     \<and> mc_issued_at c \<le> now \<and> now < mc_expires_at c"
  by (auto simp: submit_begin_def outcome_simps Let_def split: option.splits if_splits)

lemma submit_finish_Inr:
  "submit_finish g c f a = Inr (r, g') \<longleftrightarrow> can_verified a \<and> can_permitted a \<and>
     (\<exists>tx. can_executed a = Some tx \<and> hex_text_ok 64 tx \<and> r = \<lparr>cr_commandId = mc_command_id c, cr_transactionHash = tx\<rparr>
        \<and> g' = jm_set (mc_command_id c) (f, r) g)"
  by (auto simp: submit_finish_def outcome_simps Let_def)

lemma gateway_step_inv:
  assumes "gateway_inv fp w"
  shows "gateway_inv fp (gateway_step fp w x)"
proof (cases x)
  case (BeginSubmit now c)
  then show ?thesis using assms submit_begin_Inr [of fp "gw_gateway w" now c]
    by (cases "submit_begin fp (gw_gateway w) now c") (auto simp: gateway_inv_def split: sum.splits)
next
  case (FinishSubmit n a)
  show ?thesis
  proof (cases "n < length (gw_pending w)")
    case True
    obtain c f where cf: "gw_pending w ! n = (c, f)" by fastforce
    have "(c, f) \<in> set (gw_pending w)" using True cf by (metis nth_mem)
    then have ok: "marketplaceCommand_ok c" "f = fp c" using assms by (auto simp: gateway_inv_def)
    let ?v = "w\<lparr>gw_pending := take n (gw_pending w) @ drop (Suc n) (gw_pending w),
        gw_executed := gw_executed w @ (if runs_execute a then [c] else [])\<rparr>"
    have v: "gateway_inv fp ?v"
      using assms ok by (fastforce simp: gateway_inv_def dest: in_set_takeD in_set_dropD)
    show ?thesis
    proof (cases "submit_finish (gw_gateway w) c f a")
      case (Inl e)
      then show ?thesis using v FinishSubmit True cf by simp
    next
      case (Inr rg)
      obtain r g where rg: "rg = (r, g)" by fastforce
      have fin: "can_verified a" "can_permitted a" "cr_commandId r = mc_command_id c" "hex_text_ok 64 (cr_transactionHash r)"
        "g = jm_set (mc_command_id c) (f, r) (gw_gateway w)"
        using Inr rg submit_finish_Inr [of "gw_gateway w" c f a r g] by auto
      have "gateway_inv fp (?v\<lparr>gw_gateway := g\<rparr>)"
        unfolding gateway_inv_def
      proof (intro conjI allI impI)
        show "\<forall>(c, f)\<in>set (gw_pending (?v\<lparr>gw_gateway := g\<rparr>)). marketplaceCommand_ok c \<and> f = fp c"
          "\<forall>c\<in>set (gw_executed (?v\<lparr>gw_gateway := g\<rparr>)). marketplaceCommand_ok c"
          using v by (simp_all add: gateway_inv_def)
        fix i f' r' assume i: "jm_get (gw_gateway (?v\<lparr>gw_gateway := g\<rparr>)) i = Some (f', r')"
        have ex: "c \<in> set (gw_executed (?v\<lparr>gw_gateway := g\<rparr>))" using fin by (simp add: runs_execute_def)
        have "cr_commandId r' = i \<and> hex_text_ok 64 (cr_transactionHash r')
            \<and> (\<exists>c\<in>set (gw_executed (?v\<lparr>gw_gateway := g\<rparr>)). mc_command_id c = i \<and> f' = fp c)"
        proof (cases "i = mc_command_id c")
          case True
          then show ?thesis using i fin ok ex by (auto simp: jm_get_set)
        next
          case False
          then have "jm_get (gw_gateway ?v) i = Some (f', r')" using i fin by (simp add: jm_get_set)
          then show ?thesis using v by (simp add: gateway_inv_def)
        qed
        then show "cr_commandId r' = i" "hex_text_ok 64 (cr_transactionHash r')"
          "\<exists>c\<in>set (gw_executed (?v\<lparr>gw_gateway := g\<rparr>)). mc_command_id c = i \<and> f' = fp c" by simp_all
      qed
      then show ?thesis using FinishSubmit True cf Inr rg by simp
    qed
  qed (use assms FinishSubmit in simp)
qed

interpretation gateway: guarded_system no_submissions "gateway_step fp" "gateway_inv fp" for fp
proof unfold_locales
  show "gateway_inv fp no_submissions" by (simp add: no_submissions_def gateway_inv_def)
qed (rule gateway_step_inv)

text \<open>Later submissions never change a recorded result.\<close>

definition submit_step ::
  "('p marketplace_command \<Rightarrow> string) \<Rightarrow> gateway \<Rightarrow> int \<times> check_answers \<times> 'p marketplace_command \<Rightarrow> gateway" where
  "submit_step fp g x = (case x of (now, a, c) \<Rightarrow> keep g (submit fp g now a c))"

lemma submit_keeps:
  assumes "jm_get g i = Some x"
  shows "jm_get (submit_step fp g y) i = Some x"
proof -
  obtain now a d where y: "y = (now, a, d)" by (cases y) auto
  show ?thesis unfolding y submit_step_def prod.case
  proof (rule keep_cases)
    show "jm_get h i = Some x" if "submit fp g now a d = Inr (r, h)" for r h
      using assms that
      by (auto simp: submit_def submit_begin_def outcome_simps Let_def submit_finish_Inr jm_get_set split: option.splits if_splits)
  qed (rule assms)
qed

lemma submit_keeps_run: "jm_get g i = Some x \<Longrightarrow> jm_get (run (submit_step fp) g ys) i = Some x"
  by (induction ys arbitrary: g) (auto intro: submit_keeps)

lemma submit_recorded:
  assumes "submit fp g now a c = Inr (r, g')"
  shows "marketplaceCommand_ok c \<and> jm_get g' (mc_command_id c) = Some (fp c, r)"
  using assms
  by (auto simp: submit_def submit_begin_def outcome_simps Let_def submit_finish_Inr jm_get_set split: option.splits if_splits)

text \<open>A recorded command: the same one is answered from the record, another one of its identifier is refused.\<close>

lemma submit_from_record:
  assumes "jm_get g (mc_command_id c) = Some (f, r)" and "marketplaceCommand_ok c"
  shows "submit fp g now a c = (if f = fp c then Inr (r, g) else Inl GConflict)"
    and "gateway_result g (mc_command_id c) = Inr r"
  using assms by (simp_all add: submit_def submit_begin_def parse_with_def Let_def gateway_result_def)

end
