(* ===== verification/Access_Properties.thy ===== *)
theory Access_Properties
  imports Audit_Ledger Signatures Http_Controls Marketplace_Gateway Examples
begin

text \<open>
  The properties of the components that stand between a client and the platform: wallet sessions, signed
  proofs, the assistant's audit ledger, the request-rate limiter and the marketplace gateway.
\<close>

subsection \<open>Sessions\<close>

text \<open>
  C37: for every manager the constructor accepts and every interleaving of its calls, the stored
  challenges and sessions stay within their configured numbers, a session belongs to the identity whose challenge opened
  it, and, as long as the challenge identifiers drawn at random are distinct, no challenge opens two sessions.
\<close>

theorem challenge_single_use:
  assumes "new_session_manager sl cl mc ms = Some m"
  shows "let w = run (session_step digest) (session_world_of m) calls in
    int (length (sm_challenges (sw_manager w))) \<le> maxChallenges (sw_manager w)
    \<and> int (length (sm_sessions (sw_manager w))) \<le> maxSessions (sw_manager w)
    \<and> (\<forall>(c, s)\<in>set (sw_opened w). as_identity s = ch_identity c)
    \<and> (fresh_ids w \<longrightarrow> distinct (map fst (sw_opened w)))"
proof -
  let ?w = "run (session_step digest) (session_world_of m) calls"
  have "world_ok (session_world_of m)" using new_session_manager_ok [OF assms] by (simp add: world_ok_start)
  then have w: "world_ok ?w" by (rule wallet.inv_run_from)
  then have "fresh_ids ?w \<Longrightarrow> distinct (map fst (sw_opened ?w))" using world_ok_single_use [of ?w] by simp
  with w show ?thesis by (simp add: Let_def world_ok_def manager_ok_def challenges_ok_def sessions_ok_def)
qed

definition ex_identity :: identity where
  "ex_identity = \<lparr>id_actorId = ex_urn ''actor'', id_organizationId = ex_urn ''org'', id_credentialId = ex_urn ''credential'',
     id_address = ''0x'' @ replicate 40 CHR ''0''\<rparr>"

definition ex_manager :: session_manager where
  "ex_manager = \<lparr>sm_challenges = [], sm_sessions = [], challengeLifetimeSeconds = 300, maxChallenges = 1024,
     maxSessions = 1024, sessionLifetimeSeconds = 900\<rparr>"

definition ex_finish :: finish_input where
  "ex_finish = \<lparr>fi_credentialCurrent = True, fi_signatureValid = True, fi_now1 = 20, fi_now2 = 21, fi_token = ''t'',
     fi_uuid = ex_uuid\<rparr>"

theorem challenge_single_use_witness:
  "length (sw_opened (run (session_step id) (session_world_of ex_manager)
      [OpChallenge 10 ''c'' ''n'' ex_identity, OpVerifyBegin 15 ''c'', OpVerifyBegin 16 ''c'', OpVerifyFinish 0 ex_finish])) = 1
   \<and> distinct (map fst (sw_opened (run (session_step id) (session_world_of ex_manager)
      [OpChallenge 10 ''c'' ''n'' ex_identity, OpVerifyBegin 15 ''c'', OpVerifyBegin 16 ''c'', OpVerifyFinish 0 ex_finish])))"
proof -
  let ?calls = "[OpChallenge 10 ''c'' ''n'' ex_identity, OpVerifyBegin 15 ''c'', OpVerifyBegin 16 ''c'', OpVerifyFinish 0 ex_finish]"
  have "new_session_manager 900 None None None = Some ex_manager" by code_simp
  from challenge_single_use [OF this, of id ?calls]
  have "fresh_ids (run (session_step id) (session_world_of ex_manager) ?calls) \<longrightarrow>
      distinct (map fst (sw_opened (run (session_step id) (session_world_of ex_manager) ?calls)))"
    unfolding Let_def by blast
  moreover have "fresh_ids (run (session_step id) (session_world_of ex_manager) ?calls)" by code_simp
  moreover have "length (sw_opened (run (session_step id) (session_world_of ex_manager) ?calls)) = 1" by code_simp
  ultimately show ?thesis by blast
qed

text \<open>
  A session is opened only for a stored challenge that has not expired before or after the
  checks, with a current credential and a valid signature, and for the challenged identity. The challenge then counts
  as replayed, the token is accepted exactly until the session's lifetime is over, and not after a logout.
\<close>

theorem session_lifecycle:
  assumes "manager_ok m" and "verify_session digest m now challengeId f = (Inr (token, s), m1)"
  shows "(\<exists>c. jm_get (sm_challenges m) challengeId = Some c \<and> now < ch_expiresAt c \<and> fi_now1 f < ch_expiresAt c
      \<and> as_identity s = ch_identity c)
    \<and> fi_credentialCurrent f \<and> fi_signatureValid f
    \<and> fst (verify_session digest m1 now' challengeId f') = Inl SReplay
    \<and> fst (require_session digest m1 later token) =
        (if later < fi_now2 f + sessionLifetimeSeconds m then Inr s else Inl SExpired)
    \<and> fst (require_session digest (logout digest m1 out token) later token) = Inl SInvalid"
proof -
  obtain c m0 where begin_c: "verify_begin m now challengeId = (Inr c, m0)" and fin: "verify_finish digest m0 c f = (Inr (token, s), m1)"
    using assms(2) by (auto simp: verify_session_def split: prod.splits sum.splits)
  note vb = verify_begin_Inr [OF begin_c assms(1)] and vf = verify_finish_Inr [OF fin]
  have ok0: "manager_ok m0" using verify_begin_ok [OF assms(1), of now challengeId] begin_c by simp
  have life: "sessionLifetimeSeconds m0 = sessionLifetimeSeconds m"
    using begin_c by (auto simp: verify_begin_def Let_def split: option.splits)
  have "sm_challenges m1 = sm_challenges (removeExpired (fi_now2 f) None m0)"
    using fin by (auto simp: verify_finish_def Let_def split: if_splits)
  then have "jm_get (sm_challenges m1) challengeId = None"
    using removeExpired_challenges [OF ok0] vb by (cases "jm_get (sm_challenges m1) challengeId") auto
  then have "fst (verify_session digest m1 now' challengeId f') = Inl SReplay"
    by (simp add: verify_session_def verify_begin_def)
  moreover have "manager_ok m1" using verify_finish_ok [OF ok0, of c digest f] vb fin by simp
  moreover have "fst (require_session digest m1 later token) =
      (if later < fi_now2 f + sessionLifetimeSeconds m then Inr s else Inl SExpired)"
    using vf life by (auto simp: require_session_def Let_def)
  ultimately show ?thesis using vb vf logout_forgets by auto
qed

theorem session_lifecycle_witness:
  "\<exists>s m1. verify_session id (snd (issue_challenge ex_manager 10 ''c'' ''n'' ex_identity)) 15 ''c'' ex_finish = (Inr (''t'', s), m1)
    \<and> fst (verify_session id m1 16 ''c'' ex_finish) = Inl SReplay
    \<and> fst (require_session id m1 920 ''t'') = Inr s \<and> fst (require_session id m1 921 ''t'') = Inl SExpired"
proof -
  let ?m = "snd (issue_challenge ex_manager 10 ''c'' ''n'' ex_identity)"
  let ?r = "verify_session id ?m 15 ''c'' ex_finish"
  have "manager_ok ex_manager" using new_session_manager_ok [of 900 None None None ex_manager]
    by (simp add: new_session_manager_def positiveInteger_ok_def max_safe_integer_def ex_manager_def)
  then have m: "manager_ok ?m" by (rule issue_challenge_ok)
  have "map_sum id fst (fst ?r) = Inr ''t''" by code_simp
  then obtain s where "fst ?r = Inr (''t'', s)" by (cases "fst ?r") (auto simp: prod_eq_iff)
  then obtain m1 where r: "?r = (Inr (''t'', s), m1)" by (metis prod.collapse)
  have "sessionLifetimeSeconds ?m = 900" "fi_now2 ex_finish = 21" by code_simp+
  with session_lifecycle [OF m r, of 16 ex_finish 920 0] session_lifecycle [OF m r, of 16 ex_finish 921 0] r
  show ?thesis by auto
qed

subsection \<open>The audit ledger\<close>

text \<open>
  C38: whatever is appended to the audit ledger verifies, one event per call. Any other list of
  events that verifies with the same length and the same last hash is the same list, provided the digest separates the
  events of the two lists: a recorded event cannot be changed, dropped or moved unnoticed.
\<close>

theorem audit_tamper_evident:
  "let events = run (\<lambda>events (uuid, input). snd (audit_append dg localeLe uuid events input)) [] calls in
     verifyAssistantAuditEvents dg events \<and> length events = length calls
     \<and> (\<forall>other. verifyAssistantAuditEvents dg other \<and> length other = length events
          \<and> last_hash other = last_hash events \<and> inj_on (ad_event dg) (au_unsigned ` (set other \<union> set events))
          \<longrightarrow> other = events)"
proof -
  let ?step = "\<lambda>events (uuid, input). snd (audit_append dg localeLe uuid events input)"
  have "length (run ?step es calls) = length es + length calls" for es
    by (induction calls arbitrary: es) (auto simp: audit_append_def Let_def)
  then have "length (run ?step [] calls) = length calls" by simp
  moreover have "verifyAssistantAuditEvents dg (run ?step [] calls)" by (rule audit.inv_run)
  ultimately show ?thesis unfolding Let_def using chain_determined [of dg _ "run ?step [] calls"] by blast
qed

definition ex_audit_input :: audit_input where
  "ex_audit_input = \<lparr>ai_requestId = ''r'', ai_correlationId = ''c'',
     ai_session = \<lparr>as_sessionId = ''s'', as_identity = ex_identity, as_issuedAt = 1, as_expiresAt = 9\<rparr>,
     ai_purposeId = ''p'', ai_queryMode = ExplainRecords, ai_question = ''q'', ai_toolNames = [TFacts],
     ai_supportIds = [''b'', ''a''], ai_model = ''m'', ai_provider = ''l'', ai_outcome = OAnswer, ai_decisionCode = None,
     ai_decisionSource = TypedRecord, ai_references = [], ai_validationCodes = [], ai_recordedAt = 5\<rparr>"

definition ex_audit_digests :: audit_digests where
  "ex_audit_digests = \<lparr>ad_text = id, ad_event = \<lambda>u. show_nat (ev_sequence u)\<rparr>"

theorem audit_tamper_evident_witness:
  "let events = run (\<lambda>events (uuid, input). snd (audit_append ex_audit_digests str_le uuid events input)) []
      [(''1'', ex_audit_input), (''2'', ex_audit_input)] in
     length events = 2 \<and> verifyAssistantAuditEvents ex_audit_digests events
     \<and> \<not> verifyAssistantAuditEvents ex_audit_digests (tl events @ [hd events])"
proof -
  let ?events = "run (\<lambda>events (uuid, input). snd (audit_append ex_audit_digests str_le uuid events input)) []
      [(''1'', ex_audit_input), (''2'', ex_audit_input)]"
  have "\<not> verifyAssistantAuditEvents ex_audit_digests (tl ?events @ [hd ?events])" by code_simp
  then show ?thesis
    using audit_tamper_evident [of ex_audit_digests str_le "[(''1'', ex_audit_input), (''2'', ex_audit_input)]"]
    unfolding Let_def by simp
qed

subsection \<open>Signed proofs\<close>

text \<open>
  C39: a proof is accepted only when its message has exactly the signed fields of its type, the domain
  is that of the type, the address recovered from the canonical signature over the type's fields is the expected one,
  the time lies in the message's window and the credential is accepted then. An executed proof uses up its nonce: no
  further proof of the same type, credential and nonce is executed on the store it leaves. The other modes leave the
  store alone.
\<close>

theorem accepted_proof_sound:
  assumes "verifyProtectedProof td store i = Inr (p, store')"
  shows "set (map fst (vi_message i)) = set (map fst (profile_fields (eip712Profiles (vi_type i))))
    \<and> pd_name (vi_domain i) = domainName (eip712Profiles (vi_type i))
    \<and> map_option (map to_lower_char) (td_recover td (vi_domain i) (primaryType (eip712Profiles (vi_type i)),
         profile_fields (eip712Profiles (vi_type i))) (vi_message i) (vi_signature i)) = Some (vp_recoveredAddress p)
    \<and> vp_recoveredAddress p = vi_expectedSignerAddress i
    \<and> hex_value (substring 66 130 (vi_signature i)) \<le> SECP256K1_HALF_N
    \<and> (\<exists>issuedAt expiresAt credentialId. readSafeInteger (vi_message i) ''issuedAt'' = Inr issuedAt
        \<and> readSafeInteger (vi_message i) ''expiresAt'' = Inr expiresAt
        \<and> issuedAt \<le> evaluation_time (vi_mode i) \<and> evaluation_time (vi_mode i) \<le> expiresAt
        \<and> expiresAt - issuedAt \<le> vi_maxLifetimeSeconds i
        \<and> readString (vi_message i) (credentialField (vi_type i)) = Inr credentialId
        \<and> \<not> credential_refused (vi_credentialAt i credentialId (evaluation_time (vi_mode i))) (evaluation_time (vi_mode i)))
    \<and> (\<forall>t. vi_mode i = Execution t \<longrightarrow> \<not> nonce_has store (scope_of i) \<and> nonce_has store' (scope_of i)
        \<and> (\<forall>j u. vi_mode j = Execution u \<and> scope_of j = scope_of i \<longrightarrow> isl (verifyProtectedProof td store' j)))
    \<and> ((\<forall>t. vi_mode i \<noteq> Execution t) \<longrightarrow> store' = store)"
proof -
  note v = verify_Inr [OF assms]
  have "set (map fst (vi_message i)) = set (map fst (message_schema_of (vi_type i)))"
    using v by (intro strict_object_fields) simp
  then have fields: "set (map fst (vi_message i)) = set (map fst (profile_fields (eip712Profiles (vi_type i))))"
    by (simp add: profiles_match_schemas case_prod_beta image_comp)
  have consumed: "\<not> nonce_has store (scope_of i) \<and> nonce_has store' (scope_of i)
      \<and> (\<forall>j u. vi_mode j = Execution u \<and> scope_of j = scope_of i \<longrightarrow> isl (verifyProtectedProof td store' j))"
    if t: "vi_mode i = Execution t" for t
  proof -
    have c: "nonce_consume store (scope_of i) = Inr store'" by (rule verify_execution [OF assms t])
    have "isl (verifyProtectedProof td store' j)" if j: "vi_mode j = Execution u" "scope_of j = scope_of i" for j u
    proof (cases "verifyProtectedProof td store' j")
      case (Inr q)
      obtain p' st' where "q = (p', st')" by fastforce
      with Inr have "nonce_consume store' (scope_of j) = Inr st'" using verify_execution j(1) by blast
      then show ?thesis using nonces.consume_twice [OF c, of "scope_of j"] j(2) by auto
    qed simp
    with c show ?thesis by (auto simp: nonce_consume_def nonce_has_def split: if_splits)
  qed
  have "evaluation_time (vi_mode i) \<le> expiresAt" if "\<not> expired_at (vi_type i) (evaluation_time (vi_mode i)) expiresAt" for expiresAt
    using that by (simp add: expired_at_def split: if_splits)
  with v validate_low_s [of "vi_signature i" "vi_signature i"] fields consumed verify_other_modes [OF assms]
  show ?thesis by auto
qed

definition ex_proof :: verify_input where
  "ex_proof = \<lparr>vi_credentialAt = \<lambda>_ _. \<lparr>ca_active = True, ca_validFrom = 1, ca_validUntil = None\<rparr>,
     vi_domain = \<lparr>pd_chainId = 1, pd_name = ''EVLLM Domain Manifest'', pd_verifyingContract = ''0x'' @ replicate 40 CHR ''1'',
       pd_version = ''1''\<rparr>,
     vi_expectedSignerAddress = ''0x'' @ replicate 40 CHR ''1'', vi_maxLifetimeSeconds = 100,
     vi_message = map (\<lambda>(f, k). (f, if k = SPositive then MNum (if f = ''expiresAt'' then 20 else 10)
       else MText (''0x'' @ replicate 64 CHR ''1''))) domainManifestAttestation,
     vi_mode = Execution 15, vi_signature = ''0x'' @ replicate 128 CHR ''1'' @ ''1b'', vi_type = DomainManifestAttestation\<rparr>"

definition ex_typed_data :: typed_data where
  "ex_typed_data = \<lparr>td_recover = \<lambda>_ _ _ _. Some (''0x'' @ replicate 40 CHR ''1''), td_hash = \<lambda>_ _ _. ''h'',
     td_sha256_hex = \<lambda>_. ''s''\<rparr>"

theorem accepted_proof_sound_witness:
  "\<exists>p store'. verifyProtectedProof ex_typed_data [] ex_proof = Inr (p, store')
    \<and> isl (verifyProtectedProof ex_typed_data store' ex_proof)"
proof -
  let ?r = "verifyProtectedProof ex_typed_data [] ex_proof"
  have "\<not> isl ?r" by code_simp
  then obtain p store' where r: "?r = Inr (p, store')" by (cases ?r) auto
  have "vi_mode ex_proof = Execution 15" by (simp add: ex_proof_def)
  with accepted_proof_sound [OF r] r show ?thesis by auto
qed

subsection \<open>Request rates\<close>

text \<open>
  C40: for every configuration the limiter accepts and every sequence of requests whose times do not
  decrease, the limiter keeps at most its configured number of buckets, and in every interval as long as the window it
  lets fewer than twice the limit of requests of one key pass. (The bound is reached, since windows start with a request.)
\<close>

theorem rate_limit_bounds:
  assumes "rateLimit limit window maxBuckets cleanupEvery = Some m" and "sorted (t0 # map snd reqs)"
  shows "let w = run limit_step (limit_world_of m t0) reqs in
    int (length (lm_buckets (lw_limiter w))) \<le> lm_maxBuckets m
    \<and> int (passed_between (lw_log w) key a (a + window)) < 2 * limit"
proof -
  let ?w = "run limit_step (limit_world_of m t0) reqs"
  have m: "lm_limit m = limit" "lm_windowMs m = window" using assms(1) by (auto simp: rateLimit_def Let_def split: if_splits)
  have "limiter_ok ?w"
    using assms rateLimit_ok [OF assms(1), of t0] by (intro limit_run_ok) (simp_all add: limit_world_of_def)
  from limiter_ok_bounds [OF this, of key a] limit_run_settings [of "limit_world_of m t0" reqs] m show ?thesis
    by (simp add: Let_def limit_world_of_def)
qed

definition ex_limiter :: limiter where
  "ex_limiter = \<lparr>lm_buckets = [], lm_requestCount = 0, lm_limit = 2, lm_windowMs = 10, lm_maxBuckets = 10000,
     lm_cleanupEvery = 256\<rparr>"

definition ex_requests :: "(string \<times> int) list" where
  "ex_requests = [(''k'', 0), (''k'', 9), (''k'', 9), (''k'', 10), (''k'', 11), (''k'', 11)]"

theorem rate_limit_bounds_witness:
  "passed_between (lw_log (run limit_step (limit_world_of ex_limiter 0) ex_requests)) ''k'' 2 (2 + 10) = 3
   \<and> int (passed_between (lw_log (run limit_step (limit_world_of ex_limiter 0) ex_requests)) ''k'' 2 (2 + 10)) < 2 * 2"
proof -
  have "rateLimit 2 10 None None = Some ex_limiter" "sorted (0 # map snd ex_requests)" by code_simp+
  from rate_limit_bounds [OF this, of "''k''" 2]
  have "int (passed_between (lw_log (run limit_step (limit_world_of ex_limiter 0) ex_requests)) ''k'' 2 (2 + 10)) < 2 * 2"
    unfolding Let_def by blast
  moreover have "passed_between (lw_log (run limit_step (limit_world_of ex_limiter 0) ex_requests)) ''k'' 2 (2 + 10) = 3"
    by code_simp
  ultimately show ?thesis by blast
qed

subsection \<open>Marketplace commands\<close>

text \<open>
  Once a submission has succeeded, whatever is submitted after it, one call at a time, the same
  command gets the same result and changes nothing, also after its expiry, a different command with its identifier is a
  conflict, and the result can be looked up.
\<close>

theorem gateway_idempotent:
  assumes "submit fp g now a c = Inr (r, g')" and "marketplaceCommand_ok d" and "mc_command_id d = mc_command_id c"
  shows "let h = run (submit_step fp) g' later in
    submit fp h now' a' d = (if fp d = fp c then Inr (r, h) else Inl GConflict)
    \<and> gateway_result h (mc_command_id c) = Inr r"
proof -
  have "jm_get (run (submit_step fp) g' later) (mc_command_id c) = Some (fp c, r)"
    using submit_recorded [OF assms(1)] by (blast intro: submit_keeps_run)
  then show ?thesis using submit_from_record [of "run (submit_step fp) g' later" d] assms(2,3) by (auto simp: Let_def)
qed

definition ex_command :: "string marketplace_command" where
  "ex_command = \<lparr>mc_command_id = ex_urn ''command'', mc_kind = CreateListing, mc_signer_actor_id = ex_urn ''actor'',
     mc_signer_organization_id = ex_urn ''org'', mc_signer_credential_id = ex_urn ''credential'',
     mc_signer_address = ''0x'' @ replicate 40 CHR ''1'', mc_issued_at = 1, mc_expires_at = 9,
     mc_nonce = ''0x'' @ replicate 64 CHR ''1'', mc_idempotency_key_hash = ''0x'' @ replicate 64 CHR ''1'', mc_payload = ''p'',
     mc_signature = ''0x'' @ replicate 130 CHR ''1''\<rparr>"

definition ex_answers :: "char \<Rightarrow> check_answers" where
  "ex_answers ch = \<lparr>can_verified = True, can_permitted = True, can_executed = Some (''0x'' @ replicate 64 ch)\<rparr>"

theorem gateway_idempotent_witness:
  "\<exists>r g. submit mc_payload [] 5 (ex_answers CHR ''1'') ex_command = Inr (r, g)
    \<and> submit mc_payload g 50 (ex_answers CHR ''2'') ex_command = Inr (r, g)"
proof -
  let ?s = "submit mc_payload [] 5 (ex_answers CHR ''1'') ex_command"
  have "\<not> isl ?s" and ok: "marketplaceCommand_ok ex_command" by code_simp+
  then obtain r g where s: "?s = Inr (r, g)" by (cases ?s) auto
  with gateway_idempotent [OF s ok refl, of "[]" 50 "ex_answers CHR ''2''"] show ?thesis by (simp add: Let_def)
qed

text \<open>
  Two submissions of one command that overlap are both executed: the second is looked up before the first has recorded
  its result. The later one to finish decides which transaction is recorded.
\<close>

theorem overlapping_submissions_execute_twice:
  "let w = run (gateway_step mc_payload) no_submissions
      [BeginSubmit 5 ex_command, BeginSubmit 6 ex_command, FinishSubmit 0 (ex_answers CHR ''1''), FinishSubmit 0 (ex_answers CHR ''2'')] in
    gw_executed w = [ex_command, ex_command]
    \<and> gateway_result (gw_gateway w) (mc_command_id ex_command)
      = Inr \<lparr>cr_commandId = mc_command_id ex_command, cr_transactionHash = ''0x'' @ replicate 64 CHR ''2''\<rparr>"
  by code_simp

end
