(* ===== verification/Spec2Isabelle.thy ===== *)
theory Spec2Isabelle
  imports Decision_Properties Evidence_Properties Storage_Properties Bundle_Properties Evaluation_Properties Assistant_Properties Access_Properties
begin

text \<open>
  A verification development for the EVLLM platform: a service that records evidence about used electric-vehicle
  batteries, keeps the protected documents behind that evidence, assesses what should become of a battery
  (continued use, repurposing, recycling) and answers questions about these records.

  \<^bold>\<open>The program\<close> (TypeScript, under \<open>src/\<close> of the repository). Requests pass the HTTP controls
  (\<open>operations/http-controls.ts\<close>) and, for actors, a wallet session (\<open>assistant/session.ts\<close>). Evidence claims,
  verifications and disputes live in the evidence ledger (\<open>evidence/evidence-ledger.ts\<close>); the documents behind them
  are opaque objects in a store (\<open>protected-bundles/storage\<close>), moved by the coordinator
  (\<open>protected-bundles/repository/object-operations.ts\<close>), saved and restored by \<open>operations/recovery.ts\<close>, and opened
  under keys, controller authorizations and grants (\<open>protected-bundles/keys/lifecycle.ts\<close>): the evidence bundle service
  (\<open>evidence/evidence-bundle-service.ts\<close>) encrypts, stores, releases and hands out the documents. Commands are signed as typed
  data (\<open>schemas/eip712.ts\<close>, \<open>protected-bundles/signatures/eip712.ts\<close>); marketplace commands go to the chain through
  \<open>marketplace/gateway.ts\<close>, and what the chain confirms comes back through \<open>indexer/canonical-projector.ts\<close>. The
  decision service (\<open>decision/*.ts\<close>) selects rules by date and computes assessments with exact decimals. The assistant
  (\<open>assistant/service.ts\<close>) obtains support records through authorized tools (\<open>assistant/tools.ts\<close>), has a language model explain
  them, releases only what passes its validation, and records it in a hash-chained ledger (\<open>assistant/audit.ts\<close>).

  \<^bold>\<open>The theories\<close>, each with the code it models:

  \<^item> \<open>Prelude\<close>: outcomes (\<open>Inl\<close> is a thrown error), JavaScript's \<open>Map\<close>, \<open>Set\<close>, stable \<open>sort\<close> and number texts, the locale
    \<open>guarded_system\<close> (start state, step, invariant) that the stateful components interpret.
  \<^item> \<open>Decimal\<close>, \<open>Decimal_Text\<close>: \<open>ExactDecimal\<close> of \<open>decision/decimal.ts\<close> on unbounded integers with its 80-digit limit, against
    the rationals; its texts, and the comparison of texts of \<open>schemas/numeric.ts\<close>.
  \<^item> \<open>Base64\<close>, \<open>Schemas\<close>: encodings and the \<open>zod\<close> schemas (\<open>schemas/*.ts\<close>) as predicates on records.
  \<^item> \<open>Rules\<close>: the dated rule registry \<open>decision/rules.ts\<close>.
  \<^item> \<open>Assessment\<close>, \<open>Assessment_Values\<close>, \<open>Assessment_Decision\<close>: the service of \<open>decision/assessment.ts\<close>; the exact values behind its
    scores; why a preferred route is preferred.
  \<^item> \<open>Evidence_Ledger\<close>, \<open>Key_Lifecycle\<close>, \<open>Projector\<close>: the ledger, the key registry and the projector. The key registry
    keeps its records on a heap of addresses, since its asynchronous calls hold on to a record while others run.
  \<^item> \<open>Object_Store\<close>: the interface of a store as the locale \<open>object_store\<close>, interpreted on the memory and on the filesystem store,
    and its refinement of a partial map. \<open>Object_Operations\<close>, \<open>Recovery\<close>: the clients, proved once against the locale.
    \<open>Lock_Queue\<close>: the promise chain of \<open>withLock\<close> as a step relation.
  \<^item> \<open>Json\<close>, \<open>Encryption\<close>: canonical JSON, protected content, key envelopes and possession proofs (\<open>protected-bundles/crypto/*.ts\<close>,
    \<open>schemas/crypto.ts\<close>) over the locales \<open>canonical_codec\<close> and \<open>encryption\<close>, which state what is relied on of the JSON package and
    of the ciphers; \<open>Json_Instance\<close> and \<open>Encryption_Instance\<close> interpret them on concrete functions.
  \<^item> \<open>Bundle_Records\<close>, \<open>Bundle_Service\<close>: the data and the operations of \<open>evidence/evidence-bundle-service.ts\<close>, which ties the
    encryption, two object stores, the key registry and the consumed authorizations together. \<open>Bundle_Lemmas\<close>: its invariant;
    \<open>Bundle_Once\<close>: no authorization is honoured twice; \<open>Bundle_Acceptance\<close>, \<open>Bundle_Success\<close>: which calls succeed; \<open>Bundle_Flow\<close>,
    \<open>Bundle_Runs\<close>: a bundle from its preparation to its retrieval. \<open>Bundle_Instance\<close>, \<open>Bundle_Example\<close>, \<open>Bundle_Workflow\<close>: the contracts
    interpreted on two memory stores and concrete functions, and a run on them in which a document is prepared, finalized, granted and retrieved.
  \<^item> \<open>Decision_Support\<close>: issued assessments and their audit bundles (\<open>decision/queries.ts\<close>, \<open>decision/support.ts\<close>).
  \<^item> \<open>Transport_Journal\<close>: the journal of model invocations of \<open>evaluation/transport-attempt-journal.ts\<close> and its file; \<open>Journal_Runs\<close>: interleaved
    calls and restarts, against the locale \<open>journal_codec\<close>; \<open>Journal_Crash\<close>: restarts after writes that stopped anywhere, against \<open>torn_codec\<close>,
    which \<open>Journal_Instance\<close> interprets on a concrete encoding.
  \<^item> \<open>Text_Patterns\<close>: JavaScript's regular expressions, a backtracking matcher and its meaning. \<open>Assistant_Tools\<close>, \<open>Assistant_Prose\<close>,
    \<open>Assistant_Validation\<close>, \<open>Assistant_Service\<close>: the tools, the tests on texts, the validation and release of candidates and the service.
    \<open>Assistant_Lemmas\<close>: recorded decisions can be rendered, and what a validated candidate guarantees; \<open>Assistant_Runs\<close>: whole answers and
    interleaved calls; \<open>Assistant_Example\<close>: one query on concrete data.
  \<^item> \<open>Sessions\<close>, \<open>Audit_Ledger\<close>, \<open>Signatures\<close>, \<open>Http_Controls\<close>, \<open>Marketplace_Gateway\<close>: the components between clients and the platform.
  \<^item> \<open>Examples\<close>: concrete inputs. \<open>Decision_Properties\<close>, \<open>Evidence_Properties\<close>, \<open>Storage_Properties\<close>, \<open>Bundle_Properties\<close>, \<open>Evaluation_Properties\<close>, \<open>Assistant_Properties\<close>, \<open>Access_Properties\<close>: the properties,
    each after a text that states it, each with a witness where it has hypotheses.

  \<^bold>\<open>How code is read.\<close> A class is a record of its private fields and an operation a function from that record to an
  error or to a result and the new record; where a failing call has already changed something, the changed state is
  returned with the error. Code between two \<open>await\<close>s is atomic; an operation with an \<open>await\<close> is split there
  (\<open>_begin\<close>, \<open>_finish\<close>) and a step function interleaves the halves of several calls; the calls of the evidence bundle service run one after another. Random values, clocks,
  digests, signature recovery, \<open>localeCompare\<close> and what awaited callbacks answer are arguments. Numbers are integers,
  with the safe-integer and digit limits of the code written out. Strings are lists of characters.

  \<^bold>\<open>Bounds and termination.\<close> Nothing uses fuel. Loops are structural recursions; the walk to genesis of the projector, the
  resolution of a lock's tail, the retry loop and the walk along the causes of an error are functions with a termination proof.

  \<^bold>\<open>Not modelled.\<close> The database repositories (SQL), the S3 client (AWS SDK), the client of the language
  model and its prompts, the HTTP routers, the demonstration interface, process start-up and logging, and the rest of the offline
  evaluation and the deployment scripts: they are glue around services outside the repository, or run outside the platform.
  The assistant's comparison of texts by their words (\<open>assistant/semantic-support.ts\<close>) and its reading of assertions out of prose
  (\<open>decisionAssertions\<close>) are heuristics without a specification: they are parameters (the record \<open>prose\<close>), and the properties of the
  assistant hold whatever they answer.
\<close>

end
